(* ===== verification/Leo_Prelude.thy ===== *)
theory Leo_Prelude
  imports Main "HOL-Library.AList"
begin

text \<open>
  The shared vocabulary of the development: the result type of fallible code, the two
  insertion-ordered containers of the \<^verbatim>\<open>indexmap\<close> crate that the compiler uses
  everywhere, and the generic lemmas on lists and relations that the component theories share.

  \<^item> A Rust \<^verbatim>\<open>Result<T, E>\<close> is \<open>'e + 'a\<close>, with \<open>Inl\<close> for \<^verbatim>\<open>Err\<close>;
    the \<^verbatim>\<open>?\<close> operator is \<open>bind_res\<close>.
  \<^item> An \<^verbatim>\<open>IndexSet\<close> is a list without duplicates in insertion order: \<^verbatim>\<open>insert\<close> is
    \<open>index_insert\<close>, \<^verbatim>\<open>pop\<close> takes the last element, \<^verbatim>\<open>shift_remove\<close> removes and
    keeps the order.
  \<^item> An \<^verbatim>\<open>IndexMap\<close> is an association list in insertion order: \<^verbatim>\<open>insert\<close> is
    \<open>AList.update\<close> (an existing key keeps its place), \<^verbatim>\<open>get\<close> is \<open>map_of\<close>.
\<close>

named_theorems index_simps
named_theorems res_splits

section \<open>Results\<close>

definition bind_res :: "'e + 'a \<Rightarrow> ('a \<Rightarrow> 'e + 'b) \<Rightarrow> 'e + 'b" where
  "bind_res r f = (case r of Inl e \<Rightarrow> Inl e | Inr a \<Rightarrow> f a)"

definition map_res :: "('a \<Rightarrow> 'b) \<Rightarrow> 'e + 'a \<Rightarrow> 'e + 'b" where
  "map_res f r = (case r of Inl e \<Rightarrow> Inl e | Inr a \<Rightarrow> Inr (f a))"

text \<open>\<^verbatim>\<open>Option::ok_or\<close>: a missing value becomes the error \<open>e\<close>.\<close>

definition ok_or :: "'e \<Rightarrow> 'a option \<Rightarrow> 'e + 'a" where
  "ok_or e x = (case x of None \<Rightarrow> Inl e | Some a \<Rightarrow> Inr a)"

text \<open>\<^verbatim>\<open>collect::<Option<Vec<_>>>()\<close>: all elements, or nothing.\<close>

fun collect_opt :: "'a option list \<Rightarrow> 'a list option" where
  "collect_opt [] = Some []"
| "collect_opt (None # xs) = None"
| "collect_opt (Some x # xs) = map_option ((#) x) (collect_opt xs)"

lemma bind_res_simps [simp]:
  "bind_res (Inl e) f = Inl e"
  "bind_res (Inr a) f = f a"
  by (simp_all add: bind_res_def)

lemma map_res_simps [simp]:
  "map_res f (Inl e) = Inl e"
  "map_res f (Inr a) = Inr (f a)"
  by (simp_all add: map_res_def)

lemma ok_or_simps [simp]:
  "ok_or e None = Inl e"
  "ok_or e (Some a) = Inr a"
  by (simp_all add: ok_or_def)

lemma bind_res_eq_Inr [res_splits]:
  "bind_res r f = Inr b \<longleftrightarrow> (\<exists>a. r = Inr a \<and> f a = Inr b)"
  by (cases r) auto

lemma map_res_eq_Inr [res_splits]:
  "map_res f r = Inr b \<longleftrightarrow> (\<exists>a. r = Inr a \<and> b = f a)"
  by (cases r) auto

lemma ok_or_eq_Inr [res_splits]: "ok_or e x = Inr a \<longleftrightarrow> x = Some a"
  by (cases x) auto

lemma collect_opt_Some_iff:
  "collect_opt xs = Some ys \<longleftrightarrow> xs = map Some ys"
proof (induction xs arbitrary: ys)
  case (Cons x xs)
  then show ?case by (cases x; cases ys) auto
qed auto

section \<open>Insertion-ordered sets\<close>

definition index_insert :: "'a \<Rightarrow> 'a list \<Rightarrow> 'a list" where
  "index_insert x xs = (if x \<in> set xs then xs else xs @ [x])"

lemma set_index_insert [simp, index_simps]: "set (index_insert x xs) = insert x (set xs)"
  by (auto simp: index_insert_def)

lemma distinct_index_insert [simp, index_simps]:
  "distinct (index_insert x xs) = distinct xs"
  by (auto simp: index_insert_def)

lemma index_insert_fresh [index_simps]: "x \<notin> set xs \<Longrightarrow> index_insert x xs = xs @ [x]"
  by (simp add: index_insert_def)

lemma index_insert_old [index_simps]: "x \<in> set xs \<Longrightarrow> index_insert x xs = xs"
  by (simp add: index_insert_def)

section \<open>Insertion-ordered maps\<close>

lemma update_key_order:
  "map fst (AList.update k v xs) = index_insert k (map fst xs)"
  by (induction xs) (auto simp: index_insert_def)

lemma values_update_subset:
  "snd ` set (AList.update k v xs) \<subseteq> insert v (snd ` set xs)"
  by (induction xs) auto

lemma map_of_filter_keys:
  "map_of (filter (\<lambda>(k, v). P k) xs) k = (if P k then map_of xs k else None)"
  by (induction xs) auto

lemma map_of_map_values:
  "map_of (map (\<lambda>(k, v). (k, f v)) xs) k = map_option f (map_of xs k)"
  by (induction xs) auto

section \<open>Positions in a list\<close>

text \<open>The first position of an element, used as a ranking for well-founded arguments.\<close>

fun position_of :: "'a \<Rightarrow> 'a list \<Rightarrow> nat" where
  "position_of x [] = 0"
| "position_of x (y # ys) = (if x = y then 0 else Suc (position_of x ys))"

lemma position_of_append [simp]:
  "position_of x (xs @ ys) =
     (if x \<in> set xs then position_of x xs else length xs + position_of x ys)"
  by (induction xs) auto

lemma position_of_less: "x \<in> set xs \<Longrightarrow> position_of x xs < length xs"
  by (induction xs) auto

lemma trancl_decreasing_irrefl:
  fixes rank :: "'a \<Rightarrow> nat"
  assumes "\<And>u v. (u, v) \<in> r \<Longrightarrow> u \<in> S \<Longrightarrow> v \<in> S \<and> rank v < rank u"
    and "(a, b) \<in> r\<^sup>+" and "a \<in> S"
  shows "b \<in> S \<and> rank b < rank a"
  using assms(2,3)
proof (induction rule: trancl_induct)
  case (base y)
  then show ?case by (rule assms(1))
next
  case (step y z)
  then have "y \<in> S" and "rank y < rank a" by auto
  with assms(1) [OF step.hyps(2)] show ?case by fastforce
qed

end
