(* ===== verification/Di_Graph.thy ===== *)
theory Di_Graph
  imports Leo_Prelude
begin

text \<open>
  The directed graph of \<^verbatim>\<open>crates/ast/src/common/graph/mod.rs\<close>, which the compiler uses as
  the call graph, the struct dependency graph and the import graph.  The state is the record
  \<open>digraph\<close>; every method of \<^verbatim>\<open>DiGraph\<close> is one definition of the same name.

  Nodes are shared through \<^verbatim>\<open>Rc\<close>.  Every \<^verbatim>\<open>Rc\<close> that reaches the edge lists comes from
  \<^verbatim>\<open>get_or_insert\<close>, which returns the pointer already stored for an equal node, so two
  \<^verbatim>\<open>Rc\<close>s of one graph are pointer-equal exactly when the nodes are equal, and the model
  compares nodes.  The depth-first search \<open>contains_cycle_from\<close> threads the two mutable sets
  \<^verbatim>\<open>discovered\<close> and \<^verbatim>\<open>finished\<close> explicitly; its loop over the children of a node is the
  mutually recursive \<open>visit_children\<close>.

  Shown here: every operation keeps the well-formedness invariant and has the expected effect on
  the edge relation; the search terminates; an \<^verbatim>\<open>Ok\<close> order lists exactly the reachable nodes,
  each after all of its children; an \<^verbatim>\<open>Err\<close> carries a real cycle of the graph; the two outcomes
  are decided by the presence of a cycle; the transitive closure is the reachable set.
\<close>

section \<open>The graph and its operations\<close>

datatype 'n digraph_error = CycleDetected "'n list"

record 'n digraph =
  graph_nodes :: "'n list"
  graph_edges :: "('n \<times> 'n list) list"

definition digraph_default :: "'n digraph" where
  "digraph_default = \<lparr>graph_nodes = [], graph_edges = []\<rparr>"

definition digraph_new :: "'n list \<Rightarrow> 'n digraph" where
  "digraph_new ns = \<lparr>graph_nodes = ns, graph_edges = []\<rparr>"

definition add_node :: "'n \<Rightarrow> 'n digraph \<Rightarrow> 'n digraph" where
  "add_node n g = g\<lparr>graph_nodes := index_insert n (graph_nodes g)\<rparr>"

text \<open>\<^verbatim>\<open>get_or_insert\<close> returns the stored node and leaves it in the node set.\<close>

definition get_or_insert :: "'n \<Rightarrow> 'n digraph \<Rightarrow> 'n \<times> 'n digraph" where
  "get_or_insert n g =
     (if n \<in> set (graph_nodes g) then (n, g)
      else (n, g\<lparr>graph_nodes := graph_nodes g @ [n]\<rparr>))"

definition children_of :: "'n digraph \<Rightarrow> 'n \<Rightarrow> 'n list" where
  "children_of g n = (case map_of (graph_edges g) n of None \<Rightarrow> [] | Some cs \<Rightarrow> cs)"

definition add_edge :: "'n \<Rightarrow> 'n \<Rightarrow> 'n digraph \<Rightarrow> 'n digraph" where
  "add_edge src dst g =
     (let (src_rc, g1) = get_or_insert src g;
          (dst_rc, g2) = get_or_insert dst g1
      in g2\<lparr>graph_edges :=
           AList.update src_rc (index_insert dst_rc (children_of g2 src_rc)) (graph_edges g2)\<rparr>)"

definition remove_node :: "'n \<Rightarrow> 'n digraph \<Rightarrow> bool \<times> 'n digraph" where
  "remove_node n g =
     (if n \<in> set (graph_nodes g) then
        (True, \<lparr>graph_nodes = filter (\<lambda>m. m \<noteq> n) (graph_nodes g),
                graph_edges = map (\<lambda>(k, ts). (k, filter (\<lambda>t. t \<noteq> n) ts))
                                  (filter (\<lambda>(k, ts). k \<noteq> n) (graph_edges g))\<rparr>)
      else (False, g))"

definition neighbors :: "'n digraph \<Rightarrow> 'n \<Rightarrow> 'n list" where
  "neighbors g n = children_of g n"

definition contains_node :: "'n digraph \<Rightarrow> 'n \<Rightarrow> bool" where
  "contains_node g n \<longleftrightarrow> n \<in> set (graph_nodes g)"

definition retain_nodes :: "'n list \<Rightarrow> 'n digraph \<Rightarrow> 'n digraph" where
  "retain_nodes keep g =
     \<lparr>graph_nodes = filter (\<lambda>n. n \<in> set keep) (graph_nodes g),
      graph_edges = map (\<lambda>(k, ts). (k, filter (\<lambda>t. t \<in> set keep) ts))
                        (filter (\<lambda>(k, ts). k \<in> set keep) (graph_edges g))\<rparr>"

text \<open>The abstract view: the edge relation, and the finite set of nodes that occur in edges.\<close>

definition edge_rel :: "'n digraph \<Rightarrow> ('n \<times> 'n) set" where
  "edge_rel g = {(u, v). v \<in> set (children_of g u)}"

definition edge_nodes :: "'n digraph \<Rightarrow> 'n set" where
  "edge_nodes g = fst ` set (graph_edges g) \<union> (\<Union>ts \<in> snd ` set (graph_edges g). set ts)"

lemma finite_edge_nodes [simp]: "finite (edge_nodes g)"
  by (auto simp: edge_nodes_def)

lemma edge_rel_iff [simp]: "(u, v) \<in> edge_rel g \<longleftrightarrow> v \<in> set (children_of g u)"
  by (simp add: edge_rel_def)

lemma children_in_edge_nodes:
  assumes "v \<in> set (children_of g u)"
  shows "v \<in> edge_nodes g"
proof (cases "map_of (graph_edges g) u")
  case None
  with assms show ?thesis by (simp add: children_of_def)
next
  case (Some ts)
  with assms have "v \<in> set ts" by (simp add: children_of_def)
  with map_of_SomeD [OF Some] show ?thesis by (force simp: edge_nodes_def)
qed

lemma children_outside [simp]: "u \<notin> edge_nodes g \<Longrightarrow> children_of g u = []"
  by (force simp: children_of_def edge_nodes_def split: option.splits dest: map_of_SomeD)

text \<open>How many edge nodes lie outside a set: the ranking of both searches.\<close>

definition unseen :: "'n digraph \<Rightarrow> 'n set \<Rightarrow> nat" where
  "unseen g S = card (edge_nodes g - S)"

lemma unseen_insert_less:
  "u \<in> edge_nodes g \<Longrightarrow> u \<notin> S \<Longrightarrow> unseen g (insert u S) < unseen g S"
  unfolding unseen_def by (rule psubset_card_mono) auto

lemma unseen_insert_same: "u \<notin> edge_nodes g \<Longrightarrow> unseen g (insert u S) = unseen g S"
proof -
  assume "u \<notin> edge_nodes g"
  then have "edge_nodes g - insert u S = edge_nodes g - S" by auto
  then show ?thesis by (simp add: unseen_def)
qed

section \<open>The transitive closure\<close>

text \<open>The work list is a Rust \<^verbatim>\<open>Vec\<close>: \<^verbatim>\<open>pop\<close> and \<^verbatim>\<open>extend\<close> work at its end.\<close>

function closure_loop :: "'n digraph \<Rightarrow> 'n list \<Rightarrow> 'n list \<Rightarrow> 'n list" where
  "closure_loop g res queue =
     (if queue = [] then res
      else let cur = last queue; queue' = butlast queue in
        if cur \<in> set res then closure_loop g res queue'
        else closure_loop g (index_insert cur res) (queue' @ neighbors g cur))"
  by pat_completeness auto
termination
proof (relation "measures [\<lambda>(g, res, queue). unseen g (set res),
                           \<lambda>(g, res, queue). length queue]", goal_cases)
  case (3 g res queue cur queue')
  then show ?case
    by (cases "cur \<in> edge_nodes g")
       (auto simp: unseen_insert_less unseen_insert_same neighbors_def)
qed auto

declare closure_loop.simps [simp del]

definition transitive_closure :: "'n digraph \<Rightarrow> 'n \<Rightarrow> 'n list" where
  "transitive_closure g n = closure_loop g [] (neighbors g n)"

section \<open>Depth-first search\<close>

text \<open>
  \<open>contains_cycle_from g v discovered finished\<close> returns the cycle node, if any, and the two sets
  as the call leaves them.  \<open>visit_children\<close> is its loop over the outgoing edges.
\<close>

function (sequential)
  contains_cycle_from :: "'n digraph \<Rightarrow> 'n \<Rightarrow> 'n list \<Rightarrow> 'n list \<Rightarrow> 'n option \<times> 'n list \<times> 'n list"
  and visit_children :: "'n digraph \<Rightarrow> 'n list \<Rightarrow> 'n list \<Rightarrow> 'n list \<Rightarrow> 'n option \<times> 'n list \<times> 'n list"
where
  "contains_cycle_from g v discovered finished =
     (case visit_children g (children_of g v) (index_insert v discovered) finished of
        (Some c, discovered', finished') \<Rightarrow> (Some c, discovered', finished')
      | (None, discovered', finished') \<Rightarrow>
          (None, butlast discovered', index_insert v finished'))"
| "visit_children g [] discovered finished = (None, discovered, finished)"
| "visit_children g (child # cs) discovered finished =
     (if child \<in> set discovered then (Some child, discovered, finished)
      else if child \<notin> set finished then
        (case contains_cycle_from g child discovered finished of
           (Some c, discovered', finished') \<Rightarrow> (Some c, discovered', finished')
         | (None, discovered', finished') \<Rightarrow> visit_children g cs discovered' finished')
      else visit_children g cs discovered finished)"
  by pat_completeness auto

text \<open>A search that finds no cycle leaves \<^verbatim>\<open>discovered\<close> as it was: the key to termination.\<close>

lemma search_restores_partial:
  "contains_cycle_from_visit_children_dom (Inl (g, v, d, f)) \<Longrightarrow>
     v \<notin> set d \<Longrightarrow> contains_cycle_from g v d f = (None, d', f') \<Longrightarrow> d' = d"
  "contains_cycle_from_visit_children_dom (Inr (g, cs, d, f)) \<Longrightarrow>
     visit_children g cs d f = (None, d', f') \<Longrightarrow> d' = d"
proof (induction g v d f and g cs d f arbitrary: d' f' and d' f'
    rule: contains_cycle_from_visit_children.pinduct)
  case (1 g v d f)
  from 1 show ?case
    by (auto simp: contains_cycle_from.psimps index_insert_fresh split: prod.splits option.splits)
next
  case (2 g d f)
  then show ?case by (simp add: visit_children.psimps)
next
  case (3 g c cs d f)
  note eq = "3.prems" [unfolded visit_children.psimps(2) [OF "3.hyps"]]
  show ?case
  proof (cases "c \<in> set d \<or> c \<in> set f")
    case True
    with eq "3.IH"(3) show ?thesis by (auto split: if_splits)
  next
    case False
    obtain r d1 f1 where call: "contains_cycle_from g c d f = (r, d1, f1)"
      by (cases "contains_cycle_from g c d f") auto
    with False eq have "r = None" by (auto split: option.splits)
    moreover have "d1 = d" using "3.IH"(1) False call \<open>r = None\<close> by auto
    ultimately show ?thesis using False eq call "3.IH"(2) by auto
  qed
qed

termination contains_cycle_from
proof (relation "measures [case_sum (\<lambda>(g, v, d, f). unseen g (insert v (set d)))
                                    (\<lambda>(g, cs, d, f). unseen g (set d)),
                           case_sum (\<lambda>(g, v, d, f). 2 * length (children_of g v) + 2)
                                    (\<lambda>(g, cs, d, f). 2 * length cs + 1)]", goal_cases)
  case (3 g child cs d f)
  then show ?case
    by (cases "child \<in> edge_nodes g") (auto simp: unseen_insert_less unseen_insert_same)
next
  case (4 g child cs d f x y d' f')
  then have "contains_cycle_from g child d f = (None, d', f')" by simp
  with 4 search_restores_partial(1) have "d' = d" by metis
  then show ?case by simp
qed auto

declare contains_cycle_from.simps [simp del]

text \<open>The \<^verbatim>\<open>while let Some(next) = discovered.pop()\<close> loop that rebuilds the cycle.\<close>

fun backtrack :: "'n \<Rightarrow> 'n list \<Rightarrow> 'n list" where
  "backtrack c [] = []"
| "backtrack c (n # ns) = n # (if n = c then [] else backtrack c ns)"

definition cycle_path :: "'n \<Rightarrow> 'n list \<Rightarrow> 'n list" where
  "cycle_path c discovered = rev (c # backtrack c (rev discovered))"

fun post_order_loop :: "'n digraph \<Rightarrow> 'n list \<Rightarrow> 'n list \<Rightarrow> 'n digraph_error + 'n list" where
  "post_order_loop g [] finished = Inr finished"
| "post_order_loop g (n # ns) finished =
     (if n \<in> set finished then post_order_loop g ns finished
      else case contains_cycle_from g n [] finished of
             (Some c, discovered, _) \<Rightarrow> Inl (CycleDetected (cycle_path c discovered))
           | (None, _, finished') \<Rightarrow> post_order_loop g ns finished')"

definition post_order_with_filter ::
  "('n \<Rightarrow> bool) \<Rightarrow> 'n digraph \<Rightarrow> 'n digraph_error + 'n list" where
  "post_order_with_filter p g = post_order_loop g (filter p (graph_nodes g)) []"

definition post_order :: "'n digraph \<Rightarrow> 'n digraph_error + 'n list" where
  "post_order g = post_order_with_filter (\<lambda>_. True) g"

section \<open>The invariant and the effect of the updates\<close>

definition digraph_wf :: "'n digraph \<Rightarrow> bool" where
  "digraph_wf g \<longleftrightarrow> distinct (graph_nodes g) \<and> distinct (map fst (graph_edges g)) \<and>
     (\<forall>(k, ts) \<in> set (graph_edges g). distinct ts) \<and> edge_nodes g \<subseteq> set (graph_nodes g)"

lemma children_add_edge:
  "children_of (add_edge a b g) n =
     (if n = a then index_insert b (children_of g a) else children_of g n)"
  by (simp add: add_edge_def get_or_insert_def children_of_def update_conv Let_def
        split: if_splits option.splits)

lemma nodes_add_edge:
  "graph_nodes (add_edge a b g) = index_insert b (index_insert a (graph_nodes g))"
  by (auto simp: add_edge_def get_or_insert_def index_insert_def Let_def)

lemma children_remove_node:
  "children_of (snd (remove_node x g)) n =
     (if x \<in> set (graph_nodes g) then if n = x then [] else filter (\<lambda>t. t \<noteq> x) (children_of g n)
      else children_of g n)"
  by (auto simp: remove_node_def children_of_def map_of_map_values map_of_filter_keys
        split: option.splits)

lemma children_retain_nodes:
  "children_of (retain_nodes keep g) n =
     (if n \<in> set keep then filter (\<lambda>t. t \<in> set keep) (children_of g n) else [])"
  by (auto simp: retain_nodes_def children_of_def map_of_map_values map_of_filter_keys
        split: option.splits)


lemma rel_add_edge: "edge_rel (add_edge a b g) = insert (a, b) (edge_rel g)"
  by (auto simp: edge_rel_def children_add_edge split: if_splits)

lemma rel_remove_node:
  "digraph_wf g \<Longrightarrow> edge_rel (snd (remove_node x g)) = {(u, v) \<in> edge_rel g. u \<noteq> x \<and> v \<noteq> x}"
proof -
  assume wf: "digraph_wf g"
  have outside: "x \<notin> set (graph_nodes g) \<Longrightarrow> x \<notin> edge_nodes g"
    using wf by (auto simp: digraph_wf_def)
  have "(u, v) \<in> edge_rel (snd (remove_node x g)) \<longleftrightarrow> (u, v) \<in> edge_rel g \<and> u \<noteq> x \<and> v \<noteq> x" for u v
    using outside children_in_edge_nodes [of v g u] children_outside [of x g]
    by (auto simp: children_remove_node)
  then show ?thesis by auto
qed

lemma rel_retain_nodes:
  "edge_rel (retain_nodes keep g) = {(u, v) \<in> edge_rel g. u \<in> set keep \<and> v \<in> set keep}"
  by (auto simp: edge_rel_def children_retain_nodes split: if_splits)

lemma edge_lists_update:
  assumes "(k, ts) \<in> set (AList.update a t es)"
  shows "(k, ts) = (a, t) \<or> (k, ts) \<in> set es"
  using assms by (induction es) (auto split: if_splits)

lemma edges_add_edge:
  "graph_edges (add_edge a b g) =
     AList.update a (index_insert b (children_of g a)) (graph_edges g)"
  by (simp add: add_edge_def get_or_insert_def children_of_def Let_def)

lemma distinct_children: "digraph_wf g \<Longrightarrow> distinct (children_of g n)"
  by (auto simp: digraph_wf_def children_of_def split: option.splits dest: map_of_SomeD)

lemma wf_add_edge:
  assumes "digraph_wf g"
  shows "digraph_wf (add_edge a b g)"
proof -
  let ?g = "add_edge a b g"
  have lists: "(k, ts) = (a, index_insert b (children_of g a)) \<or> (k, ts) \<in> set (graph_edges g)"
    if "(k, ts) \<in> set (graph_edges ?g)" for k ts
    using edge_lists_update that unfolding edges_add_edge .
  have keys: "distinct (map fst (graph_edges ?g))"
    using assms by (simp add: edges_add_edge update_key_order digraph_wf_def)
  have targets: "\<forall>(k, ts) \<in> set (graph_edges ?g). distinct ts"
    using lists assms distinct_children [OF assms] by (fastforce simp: digraph_wf_def)
  have "edge_nodes ?g \<subseteq> insert a (insert b (edge_nodes g))"
  proof
    fix n assume "n \<in> edge_nodes ?g"
    then obtain k ts where "(k, ts) \<in> set (graph_edges ?g)" and "n = k \<or> n \<in> set ts"
      by (auto simp: edge_nodes_def)
    with lists [of k ts] children_in_edge_nodes [of n g a]
    show "n \<in> insert a (insert b (edge_nodes g))" by (force simp: edge_nodes_def)
  qed
  with assms keys targets show ?thesis by (auto simp: digraph_wf_def nodes_add_edge)
qed

text \<open>Removing a node and retaining a set both keep the nodes and edge ends with a property.\<close>

definition keep_nodes :: "('n \<Rightarrow> bool) \<Rightarrow> 'n digraph \<Rightarrow> 'n digraph" where
  "keep_nodes P g =
     \<lparr>graph_nodes = filter P (graph_nodes g),
      graph_edges = map (\<lambda>(k, ts). (k, filter P ts)) (filter (\<lambda>(k, ts). P k) (graph_edges g))\<rparr>"

lemma remove_node_keep:
  "snd (remove_node x g) = (if x \<in> set (graph_nodes g) then keep_nodes (\<lambda>n. n \<noteq> x) g else g)"
  by (simp add: remove_node_def keep_nodes_def)

lemma retain_nodes_keep: "retain_nodes keep g = keep_nodes (\<lambda>n. n \<in> set keep) g"
  by (simp add: retain_nodes_def keep_nodes_def)

lemma keys_keep_nodes:
  "map fst (graph_edges (keep_nodes P g)) = filter P (map fst (graph_edges g))"
  by (auto simp: keep_nodes_def filter_map o_def case_prod_unfold)

lemma edge_nodes_keep: "edge_nodes (keep_nodes P g) \<subseteq> {n \<in> edge_nodes g. P n}"
proof
  fix n assume "n \<in> edge_nodes (keep_nodes P g)"
  then obtain k ts where "(k, ts) \<in> set (graph_edges g)" and "P k" and "n = k \<or> n \<in> set ts \<and> P n"
    by (auto simp: edge_nodes_def keep_nodes_def)
  then show "n \<in> {n \<in> edge_nodes g. P n}" by (force simp: edge_nodes_def)
qed

lemma wf_keep_nodes:
  assumes "digraph_wf g"
  shows "digraph_wf (keep_nodes P g)"
proof -
  have "\<forall>(k, ts) \<in> set (graph_edges (keep_nodes P g)). distinct ts"
    using assms by (auto simp: digraph_wf_def keep_nodes_def)
  moreover have "distinct (map fst (graph_edges (keep_nodes P g)))"
    using assms by (simp add: keys_keep_nodes digraph_wf_def)
  moreover have "edge_nodes (keep_nodes P g) \<subseteq> set (graph_nodes (keep_nodes P g))"
    using edge_nodes_keep [of P g] assms by (auto simp: digraph_wf_def keep_nodes_def)
  ultimately show ?thesis using assms by (simp add: digraph_wf_def keep_nodes_def)
qed

lemma wf_remove_node: "digraph_wf g \<Longrightarrow> digraph_wf (snd (remove_node x g))"
  by (simp add: remove_node_keep wf_keep_nodes)

lemma wf_retain_nodes: "digraph_wf g \<Longrightarrow> digraph_wf (retain_nodes keep g)"
  by (simp add: retain_nodes_keep wf_keep_nodes)

section \<open>The graph as an abstract data type\<close>

text \<open>
  What the clients of the graph rely on (the collection passes that add calls and struct uses one by
  one, and the passes that drop functions that are inlined or unreachable): a set of vertices and an
  edge relation, changed by each operation in the obvious way.
\<close>

locale graph_store =
  fixes empty :: "'g"
    and insert_node :: "'n \<Rightarrow> 'g \<Rightarrow> 'g"
    and insert_edge :: "'n \<Rightarrow> 'n \<Rightarrow> 'g \<Rightarrow> 'g"
    and delete_node :: "'n \<Rightarrow> 'g \<Rightarrow> 'g"
    and restrict_to :: "'n list \<Rightarrow> 'g \<Rightarrow> 'g"
    and verts :: "'g \<Rightarrow> 'n set"
    and rel :: "'g \<Rightarrow> ('n \<times> 'n) set"
    and invar :: "'g \<Rightarrow> bool"
  assumes invar_empty: "invar empty"
    and invar_insert_node: "invar g \<Longrightarrow> invar (insert_node n g)"
    and invar_insert_edge: "invar g \<Longrightarrow> invar (insert_edge a b g)"
    and invar_delete_node: "invar g \<Longrightarrow> invar (delete_node n g)"
    and invar_restrict: "invar g \<Longrightarrow> invar (restrict_to keep g)"
    and verts_empty: "verts empty = {}"
    and verts_insert_node: "invar g \<Longrightarrow> verts (insert_node n g) = insert n (verts g)"
    and verts_insert_edge: "invar g \<Longrightarrow> verts (insert_edge a b g) = insert a (insert b (verts g))"
    and verts_delete_node: "invar g \<Longrightarrow> verts (delete_node n g) = verts g - {n}"
    and verts_restrict: "invar g \<Longrightarrow> verts (restrict_to keep g) = verts g \<inter> set keep"
    and rel_empty: "rel empty = {}"
    and rel_insert_node: "invar g \<Longrightarrow> rel (insert_node n g) = rel g"
    and rel_insert_edge: "invar g \<Longrightarrow> rel (insert_edge a b g) = insert (a, b) (rel g)"
    and rel_delete_node: "invar g \<Longrightarrow> rel (delete_node n g) = {(u, v) \<in> rel g. u \<noteq> n \<and> v \<noteq> n}"
    and rel_restrict: "invar g \<Longrightarrow>
      rel (restrict_to keep g) = {(u, v) \<in> rel g. u \<in> set keep \<and> v \<in> set keep}"
    and rel_in_verts: "invar g \<Longrightarrow> rel g \<subseteq> verts g \<times> verts g"
begin

definition build :: "('n \<times> 'n) list \<Rightarrow> 'g \<Rightarrow> 'g" where
  "build es g = fold (\<lambda>(a, b). insert_edge a b) es g"

lemma build_simps [simp]:
  "build [] g = g"
  "build ((a, b) # es) g = build es (insert_edge a b g)"
  by (simp_all add: build_def)

lemma invar_build: "invar g \<Longrightarrow> invar (build es g)"
  by (induction es arbitrary: g) (auto simp: invar_insert_edge)

lemma rel_build: "invar g \<Longrightarrow> rel (build es g) = rel g \<union> set es"
  by (induction es arbitrary: g) (auto simp: invar_insert_edge rel_insert_edge)

lemma verts_build: "invar g \<Longrightarrow> verts (build es g) = verts g \<union> fst ` set es \<union> snd ` set es"
proof (induction es arbitrary: g)
  case (Cons e es)
  then show ?case by (cases e) (simp add: invar_insert_edge verts_insert_edge Un_ac)
qed simp

lemma restrict_all: "invar g \<Longrightarrow> verts g \<subseteq> set keep \<Longrightarrow> rel (restrict_to keep g) = rel g"
  using rel_in_verts by (fastforce simp: rel_restrict)

lemma delete_as_restrict:
  "invar g \<Longrightarrow> set keep = verts g - {n} \<Longrightarrow>
     verts (restrict_to keep g) = verts (delete_node n g) \<and>
     rel (restrict_to keep g) = rel (delete_node n g)"
  using rel_in_verts by (fastforce simp: verts_restrict verts_delete_node rel_restrict rel_delete_node)

end

interpretation dg: graph_store
  digraph_default add_node add_edge "\<lambda>n g. snd (remove_node n g)" retain_nodes
  "\<lambda>g. set (graph_nodes g)" edge_rel digraph_wf
proof (unfold_locales, goal_cases)
  case 1 show ?case by (simp add: digraph_wf_def digraph_default_def edge_nodes_def)
next
  case 2 then show ?case by (auto simp: digraph_wf_def add_node_def edge_nodes_def)
next
  case 3 then show ?case by (rule wf_add_edge)
next
  case 4 then show ?case by (rule wf_remove_node)
next
  case 5 then show ?case by (rule wf_retain_nodes)
next
  case 9 then show ?case by (auto simp: remove_node_def)
next
  case 13 show ?case by (rule rel_add_edge)
next
  case 14 then show ?case by (rule rel_remove_node)
next
  case 15 show ?case by (rule rel_retain_nodes)
next
  case 16
  then show ?case
    using children_in_edge_nodes children_outside by (fastforce simp: digraph_wf_def edge_rel_def)
qed (auto simp: digraph_default_def edge_rel_def children_of_def add_node_def retain_nodes_def nodes_add_edge)


section \<open>Correctness of the transitive closure\<close>

lemma closure_loop_seen:
  "queue \<noteq> [] \<Longrightarrow> last queue \<in> set res \<Longrightarrow>
     closure_loop g res queue = closure_loop g res (butlast queue)"
  by (subst closure_loop.simps) (simp add: Let_def)

lemma closure_loop_new:
  "queue \<noteq> [] \<Longrightarrow> last queue \<notin> set res \<Longrightarrow>
     closure_loop g res queue =
       closure_loop g (index_insert (last queue) res) (butlast queue @ neighbors g (last queue))"
  by (subst closure_loop.simps) (simp add: Let_def)

lemma closure_loop_keeps: "distinct res \<Longrightarrow> distinct (closure_loop g res queue)"
proof (induction g res queue rule: closure_loop.induct)
  case (1 g res queue)
  then show ?case by (subst closure_loop.simps) (auto simp: Let_def)
qed

lemma closure_loop_sound:
  "set (closure_loop g res queue) \<subseteq> set res \<union> (edge_rel g)\<^sup>* `` set queue"
proof (induction g res queue rule: closure_loop.induct)
  case (1 g res queue)
  show ?case
  proof (cases "queue = []")
    case True
    then show ?thesis by (simp add: closure_loop.simps)
  next
    case False
    then have cur: "last queue \<in> set queue" and rest: "set (butlast queue) \<subseteq> set queue"
      by (auto dest: in_set_butlastD)
    show ?thesis
    proof (cases "last queue \<in> set res")
      case True
      with 1(1) [OF False refl refl True] rest show ?thesis
        by (auto simp: closure_loop_seen [OF False True])
    next
      case not_seen: False
      have "(edge_rel g)\<^sup>* `` set (neighbors g (last queue)) \<subseteq> (edge_rel g)\<^sup>* `` set queue"
        using cur by (auto simp: neighbors_def intro!: ImageI [OF converse_rtrancl_into_rtrancl])
      moreover have "(edge_rel g)\<^sup>* `` set (butlast queue) \<subseteq> (edge_rel g)\<^sup>* `` set queue"
        using rest by (rule Image_mono [OF subset_refl])
      moreover have "last queue \<in> (edge_rel g)\<^sup>* `` set queue" using cur by auto
      ultimately show ?thesis
        using 1(2) [OF False refl refl not_seen]
        by (simp add: closure_loop_new [OF False not_seen] Image_Un) blast
    qed
  qed
qed

lemma closure_loop_complete:
  assumes "\<And>u v. u \<in> set res \<Longrightarrow> (u, v) \<in> edge_rel g \<Longrightarrow> v \<in> set res \<union> set queue"
  defines "out \<equiv> set (closure_loop g res queue)"
  shows "set res \<union> set queue \<subseteq> out \<and> (\<forall>u v. u \<in> out \<longrightarrow> (u, v) \<in> edge_rel g \<longrightarrow> v \<in> out)"
  unfolding out_def using assms(1)
proof (induction g res queue rule: closure_loop.induct)
  case (1 g res queue)
  show ?case
  proof (cases "queue = []")
    case True
    with "1.prems" show ?thesis by (auto simp: closure_loop.simps)
  next
    case False
    then have split: "set queue = insert (last queue) (set (butlast queue))"
      by (metis append_butlast_last_id list.simps(15) rotate1.simps(2) set_rotate1)
    show ?thesis
    proof (cases "last queue \<in> set res")
      case True
      have "set res \<union> set (butlast queue) = set res \<union> set queue" using split True by auto
      with 1(1) [OF False refl refl True] "1.prems" show ?thesis
        by (simp add: closure_loop_seen [OF False True])
    next
      case not_seen: False
      have "v \<in> set (index_insert (last queue) res) \<union> set (butlast queue @ neighbors g (last queue))"
        if "u \<in> set (index_insert (last queue) res)" and "(u, v) \<in> edge_rel g" for u v
        using that "1.prems" [of u v] split by (auto simp: neighbors_def)
      from 1(2) [OF False refl refl not_seen this] split show ?thesis
        by (auto simp: closure_loop_new [OF False not_seen])
    qed
  qed
qed

lemma transitive_closure_set: "set (transitive_closure g n) = (edge_rel g)\<^sup>+ `` {n}"
proof
  have step: "(edge_rel g)\<^sup>* `` set (neighbors g n) \<subseteq> (edge_rel g)\<^sup>+ `` {n}"
    by (auto simp: neighbors_def intro: rtrancl_into_trancl2)
  then show "set (transitive_closure g n) \<subseteq> (edge_rel g)\<^sup>+ `` {n}"
    using closure_loop_sound [of g "[]" "neighbors g n"] by (auto simp: transitive_closure_def)
  let ?out = "set (transitive_closure g n)"
  have start: "set (neighbors g n) \<subseteq> ?out"
    and closed: "\<And>u v. u \<in> ?out \<Longrightarrow> (u, v) \<in> edge_rel g \<Longrightarrow> v \<in> ?out"
    using closure_loop_complete [of "[]" g "neighbors g n"] by (auto simp: transitive_closure_def)
  have "m \<in> ?out" if "(n, m) \<in> (edge_rel g)\<^sup>+" for m
    using that by (induction rule: trancl_induct) (use start closed in \<open>auto simp: neighbors_def\<close>)
  then show "(edge_rel g)\<^sup>+ `` {n} \<subseteq> ?out" by auto
qed

lemma distinct_transitive_closure: "distinct (transitive_closure g n)"
  by (simp add: transitive_closure_def closure_loop_keeps)

section \<open>Correctness of the depth-first search\<close>

text \<open>A list is in dependency order when every node comes after all of its children.\<close>

definition dependency_order :: "'n digraph \<Rightarrow> 'n list \<Rightarrow> bool" where
  "dependency_order g xs \<longleftrightarrow>
     (\<forall>us u vs. xs = us @ u # vs \<longrightarrow> set (children_of g u) \<subseteq> set us)"

lemma dependency_order_Nil [simp]: "dependency_order g []"
  by (simp add: dependency_order_def)

lemma dependency_order_snoc:
  assumes "dependency_order g xs" and "set (children_of g v) \<subseteq> set xs"
  shows "dependency_order g (index_insert v xs)"
proof (cases "v \<in> set xs")
  case False
  show ?thesis unfolding dependency_order_def
  proof (intro allI impI)
    fix us u vs assume "index_insert v xs = us @ u # vs"
    with False have eq: "xs @ [v] = us @ u # vs" by (simp add: index_insert_def)
    show "set (children_of g u) \<subseteq> set us"
    proof (cases vs rule: rev_cases)
      case Nil
      with eq assms(2) show ?thesis by simp
    next
      case (snoc ws w)
      with eq have "xs = us @ u # ws" by simp
      with assms(1) show ?thesis by (auto simp: dependency_order_def)
    qed
  qed
qed (use assms(1) in \<open>simp add: index_insert_def\<close>)

lemma dependency_order_child:
  assumes "dependency_order g xs" and "distinct xs" and "u \<in> set xs" and "(u, v) \<in> edge_rel g"
  shows "v \<in> set xs \<and> position_of v xs < position_of u xs"
proof -
  from assms(3) obtain us vs where xs: "xs = us @ u # vs" by (meson split_list)
  with assms(1,4) have v: "v \<in> set us" by (auto simp: dependency_order_def)
  with xs assms(2) position_of_less [OF v] show ?thesis by auto
qed

lemma dependency_order_acyclic:
  assumes "dependency_order g xs" and "distinct xs" and "u \<in> set xs"
  shows "(u, u) \<notin> (edge_rel g)\<^sup>+"
proof
  assume "(u, u) \<in> (edge_rel g)\<^sup>+"
  from trancl_decreasing_irrefl [OF _ this assms(3), of "\<lambda>n. position_of n xs"]
    dependency_order_child [OF assms(1,2)] show False by blast
qed


abbreviation edge_walk :: "'n digraph \<Rightarrow> 'n list \<Rightarrow> bool" where
  "edge_walk g \<equiv> successively (\<lambda>u v. v \<in> set (children_of g u))"

text \<open>
  What a search from the nodes \<open>S\<close> establishes.  Without a cycle, \<^verbatim>\<open>discovered\<close> is restored and
  \<^verbatim>\<open>finished\<close> grows by reachable nodes, \<open>S\<close> among them, in dependency order.  With a cycle,
  \<^verbatim>\<open>discovered\<close> is left as a walk from which the cycle node is reached again.
\<close>

definition search_post ::
  "'n digraph \<Rightarrow> 'n set \<Rightarrow> 'n list \<Rightarrow> 'n list \<Rightarrow> 'n option \<times> 'n list \<times> 'n list \<Rightarrow> bool" where
  "search_post g S d f res = (case res of
     (None, d', f') \<Rightarrow> d' = d \<and> dependency_order g f' \<and> distinct f' \<and>
        set f \<union> S \<subseteq> set f' \<and> set f' \<subseteq> set f \<union> (edge_rel g)\<^sup>* `` S
   | (Some c, d', f') \<Rightarrow> c \<in> set d' \<and> edge_walk g (d' @ [c]) \<and>
        set d' \<subseteq> set d \<union> (edge_rel g)\<^sup>* `` S)"

lemma edge_walk_snoc:
  "edge_walk g (xs @ [v]) \<longleftrightarrow> edge_walk g xs \<and> (xs \<noteq> [] \<longrightarrow> v \<in> set (children_of g (last xs)))"
  by (auto simp: successively_append_iff)

lemma search_correct:
  "dependency_order g f \<Longrightarrow> distinct f \<Longrightarrow> v \<notin> set d \<Longrightarrow> edge_walk g (d @ [v]) \<Longrightarrow>
     search_post g {v} d f (contains_cycle_from g v d f)"
  "dependency_order g f \<Longrightarrow> distinct f \<Longrightarrow> d \<noteq> [] \<Longrightarrow> edge_walk g d \<Longrightarrow>
     set cs \<subseteq> set (children_of g (last d)) \<Longrightarrow>
     search_post g (set cs) d f (visit_children g cs d f)"
proof (induction g v d f and g cs d f rule: contains_cycle_from_visit_children.induct)
  case (1 g v d f)
  have walk: "edge_walk g (index_insert v d)" and last: "last (index_insert v d) = v"
    using "1.prems" by (simp_all add: index_insert_fresh)
  have reach: "(edge_rel g)\<^sup>* `` set (children_of g v) \<subseteq> (edge_rel g)\<^sup>* `` {v}"
    by (auto intro: converse_rtrancl_into_rtrancl)
  obtain r d1 f1 where call: "visit_children g (children_of g v) (index_insert v d) f = (r, d1, f1)"
    by (cases "visit_children g (children_of g v) (index_insert v d) f") auto
  have post: "search_post g (set (children_of g v)) (index_insert v d) f (r, d1, f1)"
    using "1.IH" "1.prems" walk last call by (simp add: index_insert_fresh)
  show ?case
  proof (cases r)
    case None
    with post have "d1 = d @ [v]" and "dependency_order g f1" and "distinct f1"
        and "set f \<union> set (children_of g v) \<subseteq> set f1"
        and sub: "set f1 \<subseteq> set f \<union> (edge_rel g)\<^sup>* `` set (children_of g v)"
      using "1.prems"(3) by (auto simp: search_post_def index_insert_fresh)
    moreover from sub reach have "set f1 \<subseteq> set f \<union> (edge_rel g)\<^sup>* `` {v}" by blast
    ultimately show ?thesis using None call
      by (auto simp: search_post_def contains_cycle_from.simps dependency_order_snoc)
  next
    case (Some c)
    with post have "set d1 \<subseteq> insert v (set d) \<union> (edge_rel g)\<^sup>* `` set (children_of g v)"
      by (simp add: search_post_def)
    with reach have "set d1 \<subseteq> set d \<union> (edge_rel g)\<^sup>* `` {v}" by blast
    with Some post call show ?thesis by (simp add: search_post_def contains_cycle_from.simps)
  qed
next
  case (2 g d f)
  then show ?case by (simp add: search_post_def)
next
  case (3 g c cs d f)
  show ?case
  proof (cases "c \<in> set d")
    case True
    with "3.prems" show ?thesis by (simp add: search_post_def edge_walk_snoc)
  next
    case new: False
    show ?thesis
    proof (cases "c \<in> set f")
      case True
      with "3.IH"(3) [OF new] "3.prems" new show ?thesis
        by (auto simp: search_post_def split: prod.splits option.splits; blast)
    next
      case False
      from "3.prems" have "edge_walk g (d @ [c])" by (simp add: edge_walk_snoc)
      with "3.IH"(1) [OF new] False new "3.prems"
      have first: "search_post g {c} d f (contains_cycle_from g c d f)" by simp
      obtain r d1 f1 where call: "contains_cycle_from g c d f = (r, d1, f1)"
        by (cases "contains_cycle_from g c d f") auto
      show ?thesis
      proof (cases r)
        case None
        with first call have f1: "d1 = d" "dependency_order g f1" "distinct f1" "set f \<union> {c} \<subseteq> set f1"
            "set f1 \<subseteq> set f \<union> (edge_rel g)\<^sup>* `` {c}"
          by (auto simp: search_post_def)
        with "3.IH"(2) [OF new] False call None "3.prems"
        have "search_post g (set cs) d f1 (visit_children g cs d f1)" by simp
        with f1 call None new False show ?thesis
          by (auto simp: search_post_def split: prod.splits option.splits; blast)
      next
        case (Some n)
        with first call new False show ?thesis by (auto simp: search_post_def; blast)
      qed
    qed
  qed
qed

lemma backtrack_walk:
  assumes "c \<in> set d"
  shows "\<exists>us vs. d = us @ c # vs \<and> cycle_path c d = c # vs @ [c]"
proof -
  have "\<exists>us vs. xs = us @ c # vs \<and> backtrack c xs = us @ [c]" if "c \<in> set xs" for xs :: "'a list"
    using that
  proof (induction xs)
    case (Cons x xs)
    show ?case
    proof (cases "x = c")
      case False
      with Cons obtain us vs where "xs = us @ c # vs" and "backtrack c xs = us @ [c]" by auto
      with False show ?thesis by (intro exI [of _ "x # us"] exI [of _ vs]) simp
    qed auto
  qed simp
  from this [of "rev d"] assms obtain us vs where "rev d = us @ c # vs"
    and "backtrack c (rev d) = us @ [c]" by auto
  moreover from this(1) have "d = rev vs @ c # rev us" by (simp add: rev_swap)
  ultimately show ?thesis
    by (intro exI [of _ "rev vs"] exI [of _ "rev us"]) (simp add: cycle_path_def)
qed

text \<open>A closed walk of at least one edge.\<close>

definition is_cycle :: "'n digraph \<Rightarrow> 'n list \<Rightarrow> bool" where
  "is_cycle g path \<longleftrightarrow> 2 \<le> length path \<and> hd path = last path \<and> edge_walk g path"

lemma cycle_path_is_cycle:
  fixes g :: "'n digraph"
  assumes "c \<in> set d" and "edge_walk g (d @ [c])"
  shows "is_cycle g (cycle_path c d)"
proof -
  from backtrack_walk [OF assms(1)] obtain us vs
    where d: "d = us @ c # vs" and path: "cycle_path c d = c # vs @ [c]" by auto
  with assms(2) have "edge_walk g ((us @ [c]) @ (vs @ [c]))" by simp
  then have "edge_walk g (c # vs @ [c])" using assms(2) d
    by (metis append_Cons append_assoc successively_append_iff)
  with path show ?thesis by (simp add: is_cycle_def)
qed

lemma walk_trancl: "edge_walk g (u # us @ [v]) \<Longrightarrow> (u, v) \<in> (edge_rel g)\<^sup>+"
proof (induction us arbitrary: u)
  case (Cons w ws)
  then have "(u, w) \<in> edge_rel g" and "(w, v) \<in> (edge_rel g)\<^sup>+" by auto
  then show ?case by (rule trancl_into_trancl2)
qed (auto intro: r_into_trancl)

lemma is_cycle_trancl: "is_cycle g path \<Longrightarrow> (hd path, hd path) \<in> (edge_rel g)\<^sup>+"
proof -
  assume c: "is_cycle g path"
  then obtain u us v where "path = u # us @ [v]"
    by (cases path; cases "tl path" rule: rev_cases) (auto simp: is_cycle_def)
  moreover from this c have "(u, v) \<in> (edge_rel g)\<^sup>+" and "u = v"
    by (auto simp only: is_cycle_def intro: walk_trancl) simp
  ultimately show ?thesis by simp
qed

text \<open>The outer loop, from any set of finished nodes that is already in dependency order.\<close>

lemma post_order_loop_correct:
  assumes "dependency_order g f" and "distinct f"
  shows "case post_order_loop g ns f of
      Inr order \<Rightarrow> dependency_order g order \<and> distinct order \<and> set f \<union> set ns \<subseteq> set order \<and>
        set order \<subseteq> set f \<union> (edge_rel g)\<^sup>* `` set ns
    | Inl (CycleDetected path) \<Rightarrow> is_cycle g path \<and> hd path \<in> (edge_rel g)\<^sup>* `` set ns"
  using assms
proof (induction g ns f rule: post_order_loop.induct)
  case (2 g n ns f)
  show ?case
  proof (cases "n \<in> set f")
    case True
    with 2 show ?thesis by (auto split: sum.splits digraph_error.splits; blast)
  next
    case False
    have post: "search_post g {n} [] f (contains_cycle_from g n [] f)"
      using search_correct(1) "2.prems" by fastforce
    obtain r d' f' where call: "contains_cycle_from g n [] f = (r, d', f')"
      by (cases "contains_cycle_from g n [] f") auto
    show ?thesis
    proof (cases r)
      case None
      with post call have f': "dependency_order g f'" "distinct f'" "set f \<union> {n} \<subseteq> set f'"
          "set f' \<subseteq> set f \<union> (edge_rel g)\<^sup>* `` {n}"
        by (auto simp: search_post_def)
      have eq: "post_order_loop g (n # ns) f = post_order_loop g ns f'"
        using None False call by simp
      have reach: "(edge_rel g)\<^sup>* `` set (n # ns) =
          (edge_rel g)\<^sup>* `` {n} \<union> (edge_rel g)\<^sup>* `` set ns" by auto
      have "case post_order_loop g ns f' of
          Inr order \<Rightarrow> dependency_order g order \<and> distinct order \<and> set f' \<union> set ns \<subseteq> set order \<and>
            set order \<subseteq> set f' \<union> (edge_rel g)\<^sup>* `` set ns
        | Inl (CycleDetected path) \<Rightarrow> is_cycle g path \<and> hd path \<in> (edge_rel g)\<^sup>* `` set ns"
        using "2.IH"(2) False call None f' by simp
      then show ?thesis unfolding eq reach using f'(3,4)
        by (cases "post_order_loop g ns f'") (auto split: digraph_error.splits)
    next
      case (Some c)
      with post call have c: "c \<in> set d'" and "edge_walk g (d' @ [c])"
          and "set d' \<subseteq> (edge_rel g)\<^sup>* `` {n}"
        by (auto simp: search_post_def)
      with cycle_path_is_cycle [of c d' g] backtrack_walk [OF c] Some call False show ?thesis
        by auto
    qed
  qed
qed simp


section \<open>Properties\<close>

text \<open>
  Property C7.  When \<^verbatim>\<open>post_order_with_filter\<close> returns \<^verbatim>\<open>Ok\<close>, the result has no duplicates, holds
  exactly the nodes reachable from the nodes that pass the filter, and every node stands after all
  the nodes it has an edge to.
\<close>

theorem post_order_is_topological:
  assumes "post_order_with_filter p g = Inr order"
  shows "distinct order \<and> set order = (edge_rel g)\<^sup>* `` {n \<in> set (graph_nodes g). p n} \<and>
    (\<forall>u v. u \<in> set order \<longrightarrow> (u, v) \<in> edge_rel g \<longrightarrow>
       v \<in> set order \<and> position_of v order < position_of u order)"
proof -
  let ?S = "{n \<in> set (graph_nodes g). p n}"
  from post_order_loop_correct [of g "[]" "filter p (graph_nodes g)"] assms
  have dep: "dependency_order g order" and dist: "distinct order"
    and start: "?S \<subseteq> set order" and reach: "set order \<subseteq> (edge_rel g)\<^sup>* `` ?S"
    by (auto simp: post_order_with_filter_def)
  note child = dependency_order_child [OF dep dist]
  have "v \<in> set order" if "(n, v) \<in> (edge_rel g)\<^sup>*" and "n \<in> ?S" for n v
    using that by (induction rule: rtrancl_induct) (use start child in blast)+
  with reach child dist show ?thesis by blast
qed

definition diamond_graph :: "nat digraph" where
  "diamond_graph = fold (\<lambda>(a, b). add_edge a b) [(1, 2), (1, 3), (2, 4), (3, 4), (4, 5)] digraph_default"

theorem post_order_is_topological_witness:
  "position_of 5 [5, 4, 2, 3, (1::nat)] < position_of 4 [5, 4, 2, 3, (1::nat)]"
proof -
  have order: "post_order_with_filter (\<lambda>_. True) diamond_graph = Inr [5, 4, 2, 3, 1]" by code_simp
  have "5 \<in> set (children_of diamond_graph 4)" by code_simp
  with post_order_is_topological [OF order] show ?thesis by (simp del: position_of.simps)
qed

text \<open>
  Property C9.  When it returns \<^verbatim>\<open>CycleDetected\<close>, the path really is a cycle of the graph: at
  least one edge long, closed, every step of it an edge, and reachable from a node that passes the
  filter.
\<close>

theorem post_order_reports_real_cycle:
  assumes "post_order_with_filter p g = Inl (CycleDetected path)"
  shows "is_cycle g path \<and> hd path \<in> (edge_rel g)\<^sup>* `` {n \<in> set (graph_nodes g). p n}"
  using post_order_loop_correct [of g "[]" "filter p (graph_nodes g)"] assms
  by (simp add: post_order_with_filter_def)

definition cyclic_graph :: "nat digraph" where
  "cyclic_graph = fold (\<lambda>(a, b). add_edge a b) [(1, 2), (2, 3), (2, 4), (4, 1)] digraph_default"

theorem post_order_reports_real_cycle_witness: "is_cycle cyclic_graph [1, 2, 4, 1]"
proof -
  have "post_order_with_filter (\<lambda>_. True) cyclic_graph = Inl (CycleDetected [1, 2, 4, 1])"
    by code_simp
  from post_order_reports_real_cycle [OF this] show ?thesis by simp
qed

text \<open>
  Property C10.  The search is complete: it returns an order exactly when no node reachable from the
  nodes that pass the filter lies on a cycle.
\<close>

theorem post_order_decides_acyclicity:
  "(\<exists>order. post_order_with_filter p g = Inr order) \<longleftrightarrow>
     \<not> (\<exists>n. n \<in> (edge_rel g)\<^sup>* `` {n \<in> set (graph_nodes g). p n} \<and> (n, n) \<in> (edge_rel g)\<^sup>+)"
proof (cases "post_order_with_filter p g")
  case (Inr order)
  with post_order_loop_correct [of g "[]" "filter p (graph_nodes g)"]
  have "dependency_order g order" and "distinct order"
    by (auto simp: post_order_with_filter_def)
  note acyclic = dependency_order_acyclic [OF this] and child = dependency_order_child [OF this]
  have "v \<in> set order" if "(n, v) \<in> (edge_rel g)\<^sup>*" and "n \<in> set (graph_nodes g)" and "p n" for n v
    using that
  proof (induction rule: rtrancl_induct)
    case base
    with Inr post_order_loop_correct [of g "[]" "filter p (graph_nodes g)"] show ?case
      by (auto simp: post_order_with_filter_def)
  qed (use child in blast)
  with Inr acyclic show ?thesis by auto
next
  case (Inl e)
  then obtain path where "post_order_with_filter p g = Inl (CycleDetected path)" by (cases e) auto
  with post_order_loop_correct [of g "[]" "filter p (graph_nodes g)"] is_cycle_trancl [of g path]
  show ?thesis by (auto simp: post_order_with_filter_def)
qed

text \<open>
  Property C11.  \<^verbatim>\<open>transitive_closure\<close> terminates and returns, without duplicates, exactly the nodes
  reached from the given node by one edge or more.
\<close>

theorem transitive_closure_is_reachable_set:
  "distinct (transitive_closure g n) \<and> set (transitive_closure g n) = (edge_rel g)\<^sup>+ `` {n}"
  by (simp add: transitive_closure_set distinct_transitive_closure)

text \<open>
  Property C12.  A graph built edge by edge is well formed and has exactly the given edges and their
  ends; deleting a node from it leaves exactly the edges that do not touch the node, and is the same
  as retaining the other nodes.
\<close>

theorem digraph_build_and_delete:
  assumes "set keep = fst ` set es \<union> snd ` set es - {x}"
  defines "g \<equiv> fold (\<lambda>(a, b). add_edge a b) es digraph_default"
  shows "digraph_wf (snd (remove_node x g)) \<and>
    set (graph_nodes g) = fst ` set es \<union> snd ` set es \<and> edge_rel g = set es \<and>
    edge_rel (snd (remove_node x g)) = {(u, v) \<in> set es. u \<noteq> x \<and> v \<noteq> x} \<and>
    edge_rel (retain_nodes keep g) = edge_rel (snd (remove_node x g))"
proof -
  have g: "g = dg.build es digraph_default" by (simp add: g_def dg.build_def)
  have wf: "digraph_wf g" unfolding g by (intro dg.invar_build dg.invar_empty)
  have verts: "set (graph_nodes g) = fst ` set es \<union> snd ` set es"
    unfolding g by (simp add: dg.verts_build dg.invar_empty dg.verts_empty)
  have rel: "edge_rel g = set es"
    unfolding g by (simp add: dg.rel_build dg.invar_empty dg.rel_empty)
  from dg.delete_as_restrict [OF wf] assms(1) verts
  have "edge_rel (retain_nodes keep g) = edge_rel (snd (remove_node x g))" by simp
  with wf verts rel show ?thesis by (simp add: dg.invar_delete_node dg.rel_delete_node)
qed

theorem digraph_build_and_delete_witness:
  "edge_rel (snd (remove_node 2 (fold (\<lambda>(a, b). add_edge a b) [(1, 2), (1, 3)] digraph_default))) =
     {(1, 3 :: nat)}"
proof -
  have "set [1, 3 :: nat] = fst ` set [(1, 2), (1, 3)] \<union> snd ` set [(1, 2), (1, 3)] - {2}" by auto
  from digraph_build_and_delete [OF this] show ?thesis by auto
qed

end
