(* ===== verification/Rust_Int.thy ===== *)
theory Rust_Int
  imports Leo_Prelude "HOL-Library.Word"
begin

text \<open>
  Leo's integer types (\<^verbatim>\<open>crates/ast/src/types/integer_type.rs\<close>), the Rust standard library's
  integer operations that the compiler applies to them, and the literal parser
  \<^verbatim>\<open>FromStrRadix\<close> of \<^verbatim>\<open>crates/ast/src/expressions/literal.rs\<close>.

  A value of type \<^verbatim>\<open>u8\<close> to \<^verbatim>\<open>i128\<close> is an \<open>int\<close> in the range of its \<open>integer_type\<close>, with
  overflow and wrap-around written out: \<open>checked_in\<close> is \<^verbatim>\<open>None\<close> outside the range, \<open>wrap_int\<close> is
  reduction modulo \<open>2 ^ bits\<close> into the range (two's complement for the signed types).  The last
  section relates this to machine words: on values read from \<open>'a word\<close>s of the right width, each
  wrapping operation is the word operation.
\<close>

section \<open>Integer types\<close>

datatype integer_type = U8 | U16 | U32 | U64 | U128 | I8 | I16 | I32 | I64 | I128

fun is_signed :: "integer_type \<Rightarrow> bool" where
  "is_signed I8 = True"
| "is_signed I16 = True"
| "is_signed I32 = True"
| "is_signed I64 = True"
| "is_signed I128 = True"
| "is_signed _ = False"

primrec integer_type_symbol :: "integer_type \<Rightarrow> string" where
  "integer_type_symbol I8 = ''i8''"
| "integer_type_symbol I16 = ''i16''"
| "integer_type_symbol I32 = ''i32''"
| "integer_type_symbol I64 = ''i64''"
| "integer_type_symbol I128 = ''i128''"
| "integer_type_symbol U8 = ''u8''"
| "integer_type_symbol U16 = ''u16''"
| "integer_type_symbol U32 = ''u32''"
| "integer_type_symbol U64 = ''u64''"
| "integer_type_symbol U128 = ''u128''"

primrec integer_type_display :: "integer_type \<Rightarrow> string" where
  "integer_type_display U8 = ''u8''"
| "integer_type_display U16 = ''u16''"
| "integer_type_display U32 = ''u32''"
| "integer_type_display U64 = ''u64''"
| "integer_type_display U128 = ''u128''"
| "integer_type_display I8 = ''i8''"
| "integer_type_display I16 = ''i16''"
| "integer_type_display I32 = ''i32''"
| "integer_type_display I64 = ''i64''"
| "integer_type_display I128 = ''i128''"

primrec bits :: "integer_type \<Rightarrow> nat" where
  "bits U8 = 8"
| "bits U16 = 16"
| "bits U32 = 32"
| "bits U64 = 64"
| "bits U128 = 128"
| "bits I8 = 8"
| "bits I16 = 16"
| "bits I32 = 32"
| "bits I64 = 64"
| "bits I128 = 128"

definition int_min :: "integer_type \<Rightarrow> int" where
  "int_min ty = (if is_signed ty then - (2 ^ (bits ty - 1)) else 0)"

definition int_max :: "integer_type \<Rightarrow> int" where
  "int_max ty = (if is_signed ty then 2 ^ (bits ty - 1) - 1 else 2 ^ bits ty - 1)"

definition in_range :: "integer_type \<Rightarrow> int \<Rightarrow> bool" where
  "in_range ty n \<longleftrightarrow> int_min ty \<le> n \<and> n \<le> int_max ty"

section \<open>The standard library's integer operations\<close>

definition checked_in :: "integer_type \<Rightarrow> int \<Rightarrow> int option" where
  "checked_in ty n = (if in_range ty n then Some n else None)"

definition wrap_int :: "integer_type \<Rightarrow> int \<Rightarrow> int" where
  "wrap_int ty n =
     (if is_signed ty then (n + 2 ^ (bits ty - 1)) mod 2 ^ bits ty - 2 ^ (bits ty - 1)
      else n mod 2 ^ bits ty)"

text \<open>Rust's \<^verbatim>\<open>/\<close> and \<^verbatim>\<open>%\<close> truncate towards zero; the remainder has the sign of the dividend.\<close>

definition trunc_div :: "int \<Rightarrow> int \<Rightarrow> int" where
  "trunc_div a b = sgn a * sgn b * (\<bar>a\<bar> div \<bar>b\<bar>)"

definition trunc_rem :: "int \<Rightarrow> int \<Rightarrow> int" where
  "trunc_rem a b = sgn a * (\<bar>a\<bar> mod \<bar>b\<bar>)"

definition checked_add :: "integer_type \<Rightarrow> int \<Rightarrow> int \<Rightarrow> int option" where
  "checked_add ty a b = checked_in ty (a + b)"

definition checked_sub :: "integer_type \<Rightarrow> int \<Rightarrow> int \<Rightarrow> int option" where
  "checked_sub ty a b = checked_in ty (a - b)"

definition checked_mul :: "integer_type \<Rightarrow> int \<Rightarrow> int \<Rightarrow> int option" where
  "checked_mul ty a b = checked_in ty (a * b)"

definition checked_div :: "integer_type \<Rightarrow> int \<Rightarrow> int \<Rightarrow> int option" where
  "checked_div ty a b = (if b = 0 then None else checked_in ty (trunc_div a b))"

definition checked_rem :: "integer_type \<Rightarrow> int \<Rightarrow> int \<Rightarrow> int option" where
  "checked_rem ty a b =
     (if b = 0 \<or> is_signed ty \<and> a = int_min ty \<and> b = - 1 then None else Some (trunc_rem a b))"

definition checked_pow :: "integer_type \<Rightarrow> int \<Rightarrow> nat \<Rightarrow> int option" where
  "checked_pow ty a n = checked_in ty (a ^ n)"

definition checked_abs :: "integer_type \<Rightarrow> int \<Rightarrow> int option" where
  "checked_abs ty a = checked_in ty \<bar>a\<bar>"

definition checked_neg :: "integer_type \<Rightarrow> int \<Rightarrow> int option" where
  "checked_neg ty a = checked_in ty (- a)"

definition wrapping_add :: "integer_type \<Rightarrow> int \<Rightarrow> int \<Rightarrow> int" where
  "wrapping_add ty a b = wrap_int ty (a + b)"

definition wrapping_sub :: "integer_type \<Rightarrow> int \<Rightarrow> int \<Rightarrow> int" where
  "wrapping_sub ty a b = wrap_int ty (a - b)"

definition wrapping_mul :: "integer_type \<Rightarrow> int \<Rightarrow> int \<Rightarrow> int" where
  "wrapping_mul ty a b = wrap_int ty (a * b)"

definition wrapping_div :: "integer_type \<Rightarrow> int \<Rightarrow> int \<Rightarrow> int" where
  "wrapping_div ty a b = wrap_int ty (trunc_div a b)"

definition wrapping_rem :: "integer_type \<Rightarrow> int \<Rightarrow> int \<Rightarrow> int" where
  "wrapping_rem ty a b = wrap_int ty (trunc_rem a b)"

definition wrapping_pow :: "integer_type \<Rightarrow> int \<Rightarrow> nat \<Rightarrow> int" where
  "wrapping_pow ty a n = wrap_int ty (a ^ n)"

text \<open>\<^verbatim>\<open>x.unsigned_abs() as iN\<close>: the magnitude, reinterpreted as a signed value.\<close>

definition wrapping_abs :: "integer_type \<Rightarrow> int \<Rightarrow> int" where
  "wrapping_abs ty a = wrap_int ty \<bar>a\<bar>"

text \<open>
  \<^verbatim>\<open><<\<close> and \<^verbatim>\<open>>>\<close> for a shift below the width; \<^verbatim>\<open>>>\<close> is arithmetic on signed values.  The
  wrapping forms take the shift modulo the width.
\<close>

definition shl_int :: "integer_type \<Rightarrow> int \<Rightarrow> nat \<Rightarrow> int" where
  "shl_int ty a n = wrap_int ty (a * 2 ^ n)"

definition shr_int :: "int \<Rightarrow> nat \<Rightarrow> int" where
  "shr_int a n = a div 2 ^ n"

definition wrapping_shl :: "integer_type \<Rightarrow> int \<Rightarrow> nat \<Rightarrow> int" where
  "wrapping_shl ty a n = shl_int ty a (n mod bits ty)"

definition wrapping_shr :: "integer_type \<Rightarrow> int \<Rightarrow> nat \<Rightarrow> int" where
  "wrapping_shr ty a n = shr_int a (n mod bits ty)"

text \<open>\<^verbatim>\<open>!x\<close> complements every bit of the representation.\<close>

definition bit_not :: "integer_type \<Rightarrow> int \<Rightarrow> int" where
  "bit_not ty a = wrap_int ty (- a - 1)"

lemmas int_range_defs = in_range_def int_min_def int_max_def

section \<open>Ranges\<close>

lemma bits_pos [simp]: "0 < bits ty"
  by (cases ty) auto

lemma bits_half: "(2::int) ^ bits ty = 2 * 2 ^ (bits ty - 1)"
  by (cases ty) auto

lemma in_range_wrap [simp]: "in_range ty (wrap_int ty n)"
proof -
  have "0 \<le> m mod (2::int) ^ bits ty" and "m mod (2::int) ^ bits ty < 2 ^ bits ty" for m
    by simp_all
  from this [of n] this [of "n + 2 ^ (bits ty - 1)"] show ?thesis
    by (auto simp: wrap_int_def int_range_defs bits_half)
qed

lemma wrap_in_range [simp]: "in_range ty n \<Longrightarrow> wrap_int ty n = n"
  by (auto simp: wrap_int_def int_range_defs bits_half mod_pos_pos_trivial split: if_splits)

lemma wrap_cong_mod: "wrap_int ty n mod 2 ^ bits ty = n mod 2 ^ bits ty"
  by (simp add: wrap_int_def mod_diff_left_eq)

lemma wrap_unique:
  assumes "in_range ty m" and "m mod 2 ^ bits ty = n mod 2 ^ bits ty"
  shows "wrap_int ty n = m"
proof -
  have "wrap_int ty n = wrap_int ty m"
    using assms(2) by (auto simp: wrap_int_def intro: mod_add_cong)
  with assms(1) show ?thesis by simp
qed

lemma checked_in_eq_Some: "checked_in ty n = Some m \<longleftrightarrow> m = n \<and> in_range ty n"
  by (auto simp: checked_in_def)

lemma zero_in_range [simp]: "in_range ty 0"
  by (cases ty) (simp_all add: int_range_defs)

lemma trunc_rem_div: "trunc_div a b * b + trunc_rem a b = a"
proof -
  have "trunc_div a b * b = sgn a * (\<bar>a\<bar> div \<bar>b\<bar> * (sgn b * b))"
    by (simp add: trunc_div_def ac_simps)
  also have "sgn b * b = \<bar>b\<bar>" by (simp add: abs_sgn mult.commute)
  finally have "trunc_div a b * b + trunc_rem a b = sgn a * (\<bar>a\<bar> div \<bar>b\<bar> * \<bar>b\<bar> + \<bar>a\<bar> mod \<bar>b\<bar>)"
    by (simp only: trunc_rem_def distrib_left)
  also have "\<dots> = sgn a * \<bar>a\<bar>" by (simp only: div_mult_mod_eq)
  finally show ?thesis by (simp add: sgn_mult_abs)
qed

lemma trunc_rem_bounds: "b \<noteq> 0 \<Longrightarrow> \<bar>trunc_rem a b\<bar> < \<bar>b\<bar> \<and> \<bar>trunc_rem a b\<bar> \<le> \<bar>a\<bar>"
  by (auto simp: trunc_rem_def abs_mult abs_sgn_eq zmod_le_nonneg_dividend)


unbundle bit_operations_syntax

lemma wrap_int_bits:
  "wrap_int ty n = (if is_signed ty then signed_take_bit (bits ty - 1) n else take_bit (bits ty) n)"
  by (simp add: wrap_int_def signed_take_bit_eq_take_bit_shift take_bit_eq_mod)

lemma in_range_iff_wrap: "in_range ty n \<longleftrightarrow> wrap_int ty n = n"
  by (metis in_range_wrap wrap_in_range)

lemma signed_take_bit_bitwise:
  fixes a b :: int
  shows "signed_take_bit n (a AND b) = signed_take_bit n a AND signed_take_bit n b"
    and "signed_take_bit n (a OR b) = signed_take_bit n a OR signed_take_bit n b"
    and "signed_take_bit n (a XOR b) = signed_take_bit n a XOR signed_take_bit n b"
  by (auto intro!: bit_eqI simp: bit_signed_take_bit_iff bit_and_iff bit_or_iff bit_xor_iff)

lemma in_range_and: "in_range ty a \<Longrightarrow> in_range ty b \<Longrightarrow> in_range ty (a AND b)"
  by (simp add: in_range_iff_wrap wrap_int_bits signed_take_bit_bitwise split: if_splits)

lemma in_range_or: "in_range ty a \<Longrightarrow> in_range ty b \<Longrightarrow> in_range ty (a OR b)"
  by (simp add: in_range_iff_wrap wrap_int_bits signed_take_bit_bitwise split: if_splits)

lemma in_range_xor: "in_range ty a \<Longrightarrow> in_range ty b \<Longrightarrow> in_range ty (a XOR b)"
  by (simp add: in_range_iff_wrap wrap_int_bits signed_take_bit_bitwise split: if_splits)

lemma in_range_between:
  "in_range ty a \<Longrightarrow> in_range ty c \<Longrightarrow> a \<le> b \<Longrightarrow> b \<le> c \<Longrightarrow> in_range ty b"
  by (simp add: in_range_def)

lemma in_range_shr:
  assumes "in_range ty a"
  shows "in_range ty (shr_int a n)"
proof (cases "0 \<le> a")
  case True
  have "0 \<le> a div 2 ^ n" using True by (simp add: pos_imp_zdiv_nonneg_iff)
  moreover have "a div 2 ^ n \<le> a div 1" using True by (intro zdiv_mono2) auto
  ultimately have "0 \<le> a div 2 ^ n" and "a div 2 ^ n \<le> a" by simp_all
  with assms show ?thesis using in_range_between [of ty 0 a] by (simp add: shr_int_def)
next
  case False
  have "a * 2 ^ n \<le> a * 1" using False by (intro mult_left_mono_neg) auto
  then have "a * 2 ^ n div 2 ^ n \<le> a div 2 ^ n" by (intro zdiv_mono1) simp_all
  then have "a \<le> a div 2 ^ n" by simp
  moreover have "a div 2 ^ n \<le> 0" using False by (simp add: div_nonpos_pos_le0)
  ultimately show ?thesis using in_range_between [of ty a 0] assms by (simp add: shr_int_def)
qed

lemma in_range_trunc_rem:
  assumes "in_range ty a" and "b \<noteq> 0"
  shows "in_range ty (trunc_rem a b)"
proof (cases "0 \<le> a")
  case True
  then have "0 \<le> trunc_rem a b" using assms(2) by (simp add: trunc_rem_def sgn_if)
  with True trunc_rem_bounds [OF assms(2), of a] in_range_between [of ty 0 a] assms(1)
  show ?thesis by simp
next
  case False
  then have "trunc_rem a b \<le> 0" using assms(2) by (simp add: trunc_rem_def sgn_if)
  with False trunc_rem_bounds [OF assms(2), of a] in_range_between [of ty a 0] assms(1)
  show ?thesis by simp
qed

section \<open>Machine words\<close>

text \<open>How a word of the type's width is read as a value of the type.\<close>

definition read_word :: "integer_type \<Rightarrow> 'a::len word \<Rightarrow> int" where
  "read_word ty w = (if is_signed ty then sint w else uint w)"

lemma read_word_of_int:
  "LENGTH('a) = bits ty \<Longrightarrow> read_word ty (word_of_int n :: 'a::len word) = wrap_int ty n"
  by (simp add: read_word_def wrap_int_bits sint_sbintrunc' uint_word_of_int_eq)

lemma word_of_read [simp]: "word_of_int (read_word ty w) = w"
  by (simp add: read_word_def)

lemma read_word_in_range: "LENGTH('a) = bits ty \<Longrightarrow> in_range ty (read_word ty (w :: 'a::len word))"
  by (metis in_range_wrap read_word_of_int word_of_read)


text \<open>
  On values read from words of the type's width, each wrapping operation of the standard library is
  the operation of the word.
\<close>

lemma read_word_ops:
  fixes x y :: "'a::len word"
  assumes len: "LENGTH('a) = bits ty"
  shows "wrapping_add ty (read_word ty x) (read_word ty y) = read_word ty (x + y)"
    and "wrapping_sub ty (read_word ty x) (read_word ty y) = read_word ty (x - y)"
    and "wrapping_mul ty (read_word ty x) (read_word ty y) = read_word ty (x * y)"
    and "wrapping_pow ty (read_word ty x) n = read_word ty (x ^ n)"
    and "bit_not ty (read_word ty x) = read_word ty (NOT x)"
    and "wrapping_shl ty (read_word ty x) n = read_word ty (push_bit (n mod LENGTH('a)) x)"
proof -
  note r = read_word_of_int [OF len, symmetric]
  show "wrapping_add ty (read_word ty x) (read_word ty y) = read_word ty (x + y)"
    and "wrapping_sub ty (read_word ty x) (read_word ty y) = read_word ty (x - y)"
    and "wrapping_mul ty (read_word ty x) (read_word ty y) = read_word ty (x * y)"
    and "wrapping_pow ty (read_word ty x) n = read_word ty (x ^ n)"
    and "bit_not ty (read_word ty x) = read_word ty (NOT x)"
    and "wrapping_shl ty (read_word ty x) n = read_word ty (push_bit (n mod LENGTH('a)) x)"
    unfolding wrapping_add_def wrapping_sub_def wrapping_mul_def wrapping_pow_def bit_not_def
      wrapping_shl_def shl_int_def len [symmetric] r
    by (simp_all add: r word_of_int_power_hom wi_hom_syms not_eq_complement push_bit_eq_mult)
qed

lemma read_word_bitwise:
  fixes x y :: "'a::len word"
  shows "read_word ty x AND read_word ty y = read_word ty (x AND y)"
    and "read_word ty x OR read_word ty y = read_word ty (x OR y)"
    and "read_word ty x XOR read_word ty y = read_word ty (x XOR y)"
  by (auto simp: read_word_def signed_and_eq signed_or_eq signed_xor_eq unsigned_and_eq unsigned_or_eq unsigned_xor_eq)

lemma read_word_shr:
  fixes x :: "'a::len word"
  assumes "LENGTH('a) = bits ty"
  shows "wrapping_shr ty (read_word ty x) n =
    read_word ty (if is_signed ty then signed_drop_bit (n mod LENGTH('a)) x
                  else drop_bit (n mod LENGTH('a)) x)"
  using assms
  by (simp add: wrapping_shr_def shr_int_def read_word_def sint_signed_drop_bit_eq
      flip: drop_bit_eq_div)
    (simp add: unsigned_drop_bit_eq bintr_uint)

section \<open>Parsing and printing integer literals\<close>

datatype int_error_kind = Empty | InvalidDigit | PosOverflow | NegOverflow

text \<open>\<^verbatim>\<open>char::to_digit\<close>: the value of a digit below the radix, in either letter case.\<close>

definition digit_value :: "char \<Rightarrow> nat option" where
  "digit_value c =
     (let n = of_char c :: nat in
      if 48 \<le> n \<and> n \<le> 57 then Some (n - 48)
      else if 97 \<le> n \<and> n \<le> 122 then Some (n - 87)
      else if 65 \<le> n \<and> n \<le> 90 then Some (n - 55)
      else None)"

definition to_digit :: "nat \<Rightarrow> char \<Rightarrow> nat option" where
  "to_digit radix c =
     (case digit_value c of None \<Rightarrow> None | Some d \<Rightarrow> if d < radix then Some d else None)"

text \<open>
  The digit loop of the standard library's \<^verbatim>\<open>from_str_radix\<close>: each step multiplies, then adds the
  digit (or subtracts it, below zero), and each of the two may leave the range.
\<close>

fun parse_digits :: "integer_type \<Rightarrow> bool \<Rightarrow> nat \<Rightarrow> int \<Rightarrow> string \<Rightarrow> int_error_kind + int" where
  "parse_digits ty is_positive radix acc [] = Inr acc"
| "parse_digits ty is_positive radix acc (c # cs) =
     (case to_digit radix c of
        None \<Rightarrow> Inl InvalidDigit
      | Some x \<Rightarrow>
          (let m = acc * int radix; r = (if is_positive then m + int x else m - int x) in
           if in_range ty m \<and> in_range ty r then parse_digits ty is_positive radix r cs
           else Inl (if is_positive then PosOverflow else NegOverflow)))"

definition from_str_radix :: "integer_type \<Rightarrow> string \<Rightarrow> nat \<Rightarrow> int_error_kind + int" where
  "from_str_radix ty src radix =
     (case src of
        [] \<Rightarrow> Inl Empty
      | c # cs \<Rightarrow>
          if (c = CHR ''+'' \<or> c = CHR ''-'') \<and> cs = [] then Inl InvalidDigit
          else if c = CHR ''+'' then parse_digits ty True radix 0 cs
          else if c = CHR ''-'' \<and> is_signed ty then parse_digits ty False radix 0 cs
          else parse_digits ty True radix 0 src)"

fun strip_prefix :: "string \<Rightarrow> string \<Rightarrow> string option" where
  "strip_prefix [] s = Some s"
| "strip_prefix (p # ps) [] = None"
| "strip_prefix (p # ps) (c # cs) = (if p = c then strip_prefix ps cs else None)"

definition from_str_by_radix :: "integer_type \<Rightarrow> string \<Rightarrow> int_error_kind + int" where
  "from_str_by_radix ty src =
     (case strip_prefix ''0x'' src of Some stripped \<Rightarrow> from_str_radix ty stripped 16 | None \<Rightarrow>
      case strip_prefix ''0o'' src of Some stripped \<Rightarrow> from_str_radix ty stripped 8 | None \<Rightarrow>
      case strip_prefix ''0b'' src of Some stripped \<Rightarrow> from_str_radix ty stripped 2 | None \<Rightarrow>
      case strip_prefix ''-0x'' src of Some stripped \<Rightarrow> from_str_radix ty (CHR ''-'' # stripped) 16 | None \<Rightarrow>
      case strip_prefix ''-0o'' src of Some stripped \<Rightarrow> from_str_radix ty (CHR ''-'' # stripped) 8 | None \<Rightarrow>
      case strip_prefix ''-0b'' src of Some stripped \<Rightarrow> from_str_radix ty (CHR ''-'' # stripped) 2 | None \<Rightarrow>
      from_str_radix ty src 10)"

text \<open>Printing, as \<^verbatim>\<open>to_string\<close> does in base ten: no leading zeros, a sign for negatives.\<close>

definition digit_char :: "nat \<Rightarrow> char" where
  "digit_char d = char_of (if d < 10 then d + 48 else d + 87)"

function show_digits :: "nat \<Rightarrow> nat \<Rightarrow> string" where
  "show_digits radix n =
     (if radix < 2 \<or> n < radix then [digit_char n]
      else show_digits radix (n div radix) @ [digit_char (n mod radix)])"
  by pat_completeness auto
termination
  by (relation "measure snd") auto

declare show_digits.simps [simp del]

definition show_int :: "int \<Rightarrow> string" where
  "show_int n = (if n < 0 then CHR ''-'' # show_digits 10 (nat (- n)) else show_digits 10 (nat n))"

definition radix_prefix :: "nat \<Rightarrow> string" where
  "radix_prefix radix = (if radix = 16 then ''0x'' else if radix = 8 then ''0o''
     else if radix = 2 then ''0b'' else [])"

definition show_int_radix :: "nat \<Rightarrow> int \<Rightarrow> string" where
  "show_int_radix radix n =
     (if n < 0 then CHR ''-'' # radix_prefix radix @ show_digits radix (nat (- n))
      else radix_prefix radix @ show_digits radix (nat n))"

lemma of_char_digit:
  "d < 36 \<Longrightarrow> of_char (digit_char d) = (if d < 10 then d + 48 else d + 87 :: nat)"
  by (auto simp: digit_char_def)

lemma to_digit_char [simp]: "radix \<le> 36 \<Longrightarrow> d < radix \<Longrightarrow> to_digit radix (digit_char d) = Some d"
  by (auto simp: to_digit_def digit_value_def of_char_digit Let_def)

lemma in_range_toward_zero:
  "in_range ty n \<Longrightarrow> 0 \<le> m \<Longrightarrow> m \<le> n \<Longrightarrow> in_range ty m"
  "in_range ty n \<Longrightarrow> n \<le> m \<Longrightarrow> m \<le> 0 \<Longrightarrow> in_range ty m"
  using in_range_between [of ty 0 n m] in_range_between [of ty n 0 m] by auto

lemma in_range_smaller:
  "in_range ty a \<Longrightarrow> \<bar>b\<bar> < \<bar>a\<bar> \<or> b = 0 \<Longrightarrow> is_signed ty \<or> 0 \<le> b \<Longrightarrow> in_range ty b"
  by (auto simp: int_range_defs split: if_splits)

text \<open>The quotient of two values of a type leaves the type in one case only.\<close>

lemma in_range_trunc_div:
  assumes "in_range ty a" and "in_range ty b" and "b \<noteq> 0"
  shows "in_range ty (trunc_div a b) \<longleftrightarrow> \<not> (is_signed ty \<and> a = int_min ty \<and> b = - 1)"
proof -
  consider "b = - 1" | "b = 1" | "1 < \<bar>b\<bar>" using assms(3) by linarith
  then show ?thesis
  proof cases
    case 1
    with assms have "is_signed ty" by (auto simp: int_range_defs split: if_splits)
    moreover have "trunc_div a b = - a" using 1 by (simp add: trunc_div_def sgn_mult_abs)
    ultimately show ?thesis using assms(1) 1 by (auto simp: int_range_defs)
  next
    case 2
    then show ?thesis using assms(1) by (simp add: trunc_div_def sgn_mult_abs)
  next
    case 3
    have "is_signed ty \<or> 0 \<le> trunc_div a b"
      using assms by (auto simp: int_range_defs trunc_div_def sgn_if pos_imp_zdiv_nonneg_iff split: if_splits)
    moreover have "\<bar>trunc_div a b\<bar> < \<bar>a\<bar> \<or> trunc_div a b = 0"
    proof (cases "a = 0")
      case False
      then have "\<bar>a\<bar> div \<bar>b\<bar> < \<bar>a\<bar>" using 3 by (intro int_div_less_self) auto
      moreover have "\<bar>trunc_div a b\<bar> = \<bar>a\<bar> div \<bar>b\<bar>"
        using False assms(3)
        by (simp add: trunc_div_def abs_mult abs_sgn_eq pos_imp_zdiv_nonneg_iff)
      ultimately show ?thesis by simp
    qed (simp add: trunc_div_def)
    ultimately have "in_range ty (trunc_div a b)" using in_range_smaller [OF assms(1)] by blast
    with 3 show ?thesis by auto
  qed
qed

text \<open>Shifting left and back detects exactly the overflow of the shift.\<close>

lemma shl_shr_iff:
  assumes "n < bits ty"
  shows "shr_int (shl_int ty a n) n = a \<longleftrightarrow> in_range ty (a * 2 ^ n)"
proof
  assume "in_range ty (a * 2 ^ n)"
  then show "shr_int (shl_int ty a n) n = a" by (simp add: shl_int_def shr_int_def)
next
  let ?w = "wrap_int ty (a * 2 ^ n)"
  assume "shr_int (shl_int ty a n) n = a"
  then have div: "?w div 2 ^ n = a" by (simp add: shl_int_def shr_int_def)
  have "(2::int) ^ n dvd 2 ^ bits ty" using assms by (simp add: le_imp_power_dvd)
  then have mm: "m mod 2 ^ bits ty mod 2 ^ n = m mod 2 ^ n" for m :: int
    by (rule mod_mod_cancel)
  have "?w mod 2 ^ n = (a * 2 ^ n) mod 2 ^ n"
    using mm [of ?w] mm [of "a * 2 ^ n"] wrap_cong_mod [of ty "a * 2 ^ n"] by simp
  then have "?w = a * 2 ^ n" using div div_mult_mod_eq [of ?w "2 ^ n"] by simp
  then show "in_range ty (a * 2 ^ n)" using in_range_wrap [of ty "a * 2 ^ n"] by simp
qed

lemma parse_digits_in_range:
  "parse_digits ty pos radix acc cs = Inr n \<Longrightarrow> in_range ty acc \<Longrightarrow> in_range ty n"
  by (induction ty pos radix acc cs rule: parse_digits.induct)
    (auto simp: Let_def split: option.splits if_splits)

lemma from_str_radix_in_range: "from_str_radix ty s radix = Inr n \<Longrightarrow> in_range ty n"
  unfolding from_str_radix_def
  by (cases s) (simp_all add: parse_digits_in_range del: parse_digits.simps split: if_splits)

lemma from_str_by_radix_in_range: "from_str_by_radix ty s = Inr n \<Longrightarrow> in_range ty n"
  unfolding from_str_by_radix_def
  by (simp split: option.split_asm; drule from_str_radix_in_range; assumption)

text \<open>
  The value read so far, with the sign of the literal: one more digit keeps the loop at the value
  of the longer numeral, or stops it when that value is out of range.
\<close>

definition signed_val :: "bool \<Rightarrow> nat \<Rightarrow> int" where
  "signed_val pos n = (if pos then int n else - int n)"

definition overflow_kind :: "bool \<Rightarrow> int_error_kind" where
  "overflow_kind pos = (if pos then PosOverflow else NegOverflow)"

definition continue_at :: "integer_type \<Rightarrow> bool \<Rightarrow> nat \<Rightarrow> nat \<Rightarrow> string \<Rightarrow> int_error_kind + int" where
  "continue_at ty pos radix n cs =
     (if in_range ty (signed_val pos n) then parse_digits ty pos radix (signed_val pos n) cs
      else Inl (overflow_kind pos))"

lemma signed_val_snoc:
  "signed_val pos (q * r + d) = signed_val pos q * int r + signed_val pos d"
  by (simp add: signed_val_def)

lemma signed_val_toward_zero:
  "in_range ty (signed_val pos n) \<Longrightarrow> m \<le> n \<Longrightarrow> in_range ty (signed_val pos m)"
  using in_range_toward_zero [of ty "signed_val pos n" "signed_val pos m"]
  by (auto simp: signed_val_def split: if_splits)

lemma signed_val_scale: "signed_val pos q * int r = signed_val pos (q * r)"
  by (simp add: signed_val_def)

lemma continue_at_digit:
  assumes "2 \<le> radix" and "radix \<le> 36" and "d < radix"
  shows "continue_at ty pos radix q (digit_char d # cs) = continue_at ty pos radix (q * radix + d) cs"
proof -
  have step: "parse_digits ty pos radix (signed_val pos q) (digit_char d # cs) =
      (if in_range ty (signed_val pos (q * radix)) \<and> in_range ty (signed_val pos (q * radix + d))
       then parse_digits ty pos radix (signed_val pos (q * radix + d)) cs
       else Inl (overflow_kind pos))"
    using assms
    by (simp add: Let_def signed_val_snoc signed_val_scale overflow_kind_def)
      (auto simp: signed_val_def)
  have "q \<le> q * radix + d" and "q * radix \<le> q * radix + d" using assms by (auto intro: trans_le_add1)
  with signed_val_toward_zero [of ty pos "q * radix + d"] show ?thesis
    by (auto simp: continue_at_def step simp del: parse_digits.simps)
qed

text \<open>Reading back the digits of \<open>n\<close>: the value, or an overflow exactly when it is out of range.\<close>

lemma parse_show_digits:
  assumes "2 \<le> radix" and "radix \<le> 36"
  shows "parse_digits ty pos radix 0 (show_digits radix n @ cs) = continue_at ty pos radix n cs"
  using assms
proof (induction radix n arbitrary: cs rule: show_digits.induct)
  case (1 radix n)
  have zero: "continue_at ty pos radix 0 ds = parse_digits ty pos radix 0 ds" for ds
    by (simp add: continue_at_def signed_val_def)
  show ?case
  proof (cases "n < radix")
    case True
    with 1 continue_at_digit [of radix n ty pos 0 cs] show ?thesis
      by (simp add: show_digits.simps [of radix n] zero)
  next
    case False
    with 1 have rad: "\<not> (radix < 2 \<or> n < radix)" by simp
    have "parse_digits ty pos radix 0 (show_digits radix n @ cs) =
      continue_at ty pos radix (n div radix) (digit_char (n mod radix) # cs)"
      using 1(1) [OF rad 1(2,3)] rad by (simp add: show_digits.simps [of radix n])
    also have "\<dots> = continue_at ty pos radix (n div radix * radix + n mod radix) cs"
      using 1 by (intro continue_at_digit) auto
    finally show ?thesis by (simp only: div_mult_mod_eq)
  qed
qed

lemma show_digits_chars: "2 \<le> radix \<Longrightarrow> set (show_digits radix n) \<subseteq> digit_char ` {..<radix}"
proof (induction radix n rule: show_digits.induct)
  case (1 radix n)
  then show ?case by (cases "n < radix") (simp_all add: show_digits.simps [of radix n])
qed

lemma show_digits_nonempty [simp]: "show_digits radix n \<noteq> []"
  by (simp add: show_digits.simps [of radix n])

lemma decimal_char_range:
  "c \<in> digit_char ` {..<10} \<Longrightarrow> 48 \<le> (of_char c :: nat) \<and> (of_char c :: nat) \<le> 57"
  by (auto simp: of_char_digit)

lemma digit_char_not_sign:
  assumes "c \<in> digit_char ` {..<36}"
  shows "c \<noteq> CHR ''+''" and "c \<noteq> CHR ''-''"
proof -
  have "48 \<le> (of_char c :: nat)" using assms by (auto simp: of_char_digit)
  then show "c \<noteq> CHR ''+''" and "c \<noteq> CHR ''-''" by auto
qed

lemma show_digits_head:
  assumes "2 \<le> radix" and "radix \<le> 36"
  obtains c cs where "show_digits radix n = c # cs" and "c \<noteq> CHR ''+''" and "c \<noteq> CHR ''-''"
proof -
  obtain c cs where "show_digits radix n = c # cs" by (cases "show_digits radix n") auto
  moreover from this show_digits_chars [of radix n] assms have "c \<in> digit_char ` {..<36}" by auto
  ultimately show thesis using digit_char_not_sign that by blast
qed

lemma from_str_radix_show:
  assumes "2 \<le> radix" and "radix \<le> 36"
  shows "from_str_radix ty (show_digits radix n) radix = continue_at ty True radix n []"
    and "from_str_radix ty (CHR ''-'' # show_digits radix n) radix =
      (if is_signed ty then continue_at ty False radix n [] else Inl InvalidDigit)"
proof -
  obtain c cs where d: "show_digits radix n = c # cs" "c \<noteq> CHR ''+''" "c \<noteq> CHR ''-''"
    using assms by (rule show_digits_head)
  have "to_digit radix CHR ''-'' = None" by (simp add: to_digit_def digit_value_def)
  then show "from_str_radix ty (show_digits radix n) radix = continue_at ty True radix n []"
    and "from_str_radix ty (CHR ''-'' # show_digits radix n) radix =
      (if is_signed ty then continue_at ty False radix n [] else Inl InvalidDigit)"
    using parse_show_digits [OF assms, of ty _ n "[]"] d by (simp_all add: from_str_radix_def)
qed

text \<open>A decimal numeral, signed or not, has none of the radix prefixes.\<close>

lemma decimal_no_prefix:
  assumes "p \<in> {CHR ''x'', CHR ''o'', CHR ''b''}"
  shows "strip_prefix [CHR ''0'', p] (show_digits 10 n) = None"
    and "strip_prefix [CHR ''-'', CHR ''0'', p] (show_digits 10 n) = None"
    and "strip_prefix [CHR ''0'', p] (CHR ''-'' # cs) = None"
    and "strip_prefix [CHR ''-'', CHR ''0'', p] (CHR ''-'' # show_digits 10 n) = None"
proof -
  have digits: "set (show_digits 10 n) \<subseteq> digit_char ` {..<10}" by (rule show_digits_chars) simp
  have p: "57 < (of_char p :: nat)" using assms by auto
  have "p \<notin> set (show_digits 10 n)" using digits p decimal_char_range [of p] by auto
  then show "strip_prefix [CHR ''0'', p] (show_digits 10 n) = None"
    and "strip_prefix [CHR ''-'', CHR ''0'', p] (CHR ''-'' # show_digits 10 n) = None"
    by (cases "show_digits 10 n"; cases "tl (show_digits 10 n)"; auto)+
  show "strip_prefix [CHR ''-'', CHR ''0'', p] (show_digits 10 n) = None"
    using digits decimal_char_range [of "CHR ''-''"] by (cases "show_digits 10 n") auto
  show "strip_prefix [CHR ''0'', p] (CHR ''-'' # cs) = None" by simp
qed

lemma from_str_by_radix_decimal:
  "from_str_by_radix ty (show_digits 10 n) = from_str_radix ty (show_digits 10 n) 10"
  "from_str_by_radix ty (CHR ''-'' # show_digits 10 n) = from_str_radix ty (CHR ''-'' # show_digits 10 n) 10"
  by (simp_all add: from_str_by_radix_def decimal_no_prefix)

lemma continue_at_Nil:
  "continue_at ty pos radix n [] =
     (if in_range ty (signed_val pos n) then Inr (signed_val pos n) else Inl (overflow_kind pos))"
  by (simp add: continue_at_def)

lemma from_str_by_radix_show_int_radix:
  assumes "radix \<in> {2, 8, 10, 16}"
  shows "from_str_by_radix ty (show_int_radix radix n) =
    (if n < 0 \<and> \<not> is_signed ty then Inl InvalidDigit
     else if in_range ty n then Inr n
     else Inl (if n < 0 then NegOverflow else PosOverflow))"
proof -
  have rad: "2 \<le> radix" "radix \<le> 36" using assms by auto
  have "from_str_by_radix ty (show_int_radix radix n) =
    (if n < 0 then from_str_radix ty (CHR ''-'' # show_digits radix (nat (- n))) radix
     else from_str_radix ty (show_digits radix (nat n)) radix)"
  proof (cases "radix = 10")
    case True
    then show ?thesis by (simp add: show_int_radix_def radix_prefix_def from_str_by_radix_decimal)
  next
    case False
    with assms show ?thesis
      by (auto simp: from_str_by_radix_def show_int_radix_def radix_prefix_def)
  qed
  then show ?thesis
    by (simp add: from_str_radix_show [OF rad] continue_at_Nil signed_val_def overflow_kind_def)
qed

lemma show_int_decimal: "show_int n = show_int_radix 10 n"
  by (simp add: show_int_def show_int_radix_def radix_prefix_def)

lemma from_str_by_radix_show_int: "in_range ty n \<Longrightarrow> from_str_by_radix ty (show_int n) = Inr n"
  by (auto simp: show_int_decimal from_str_by_radix_show_int_radix in_range_def int_min_def
      split: if_splits)

text \<open>
  Property C13.  Reading a printed integer back (the binary, octal, decimal and hexadecimal spellings
  that \<^verbatim>\<open>from_str_by_radix\<close> accepts, with their prefixes and an optional sign) gives the
  integer when it is in the range of the type, an overflow error of the right sign when it is not,
  and an invalid digit for a negative numeral of an unsigned type.
\<close>

theorem from_str_by_radix_roundtrip:
  assumes "radix \<in> {2, 8, 10, 16}"
  shows "from_str_by_radix ty (show_int_radix radix n) =
    (if n < 0 \<and> \<not> is_signed ty then Inl InvalidDigit
     else if in_range ty n then Inr n
     else Inl (if n < 0 then NegOverflow else PosOverflow))"
  using assms by (rule from_str_by_radix_show_int_radix)

theorem from_str_by_radix_roundtrip_witness:
  "show_int_radix 16 (- 128) = ''-0x80'' \<and> from_str_by_radix I8 ''-0x80'' = Inr (- 128) \<and>
   from_str_by_radix I8 ''0x80'' = Inl PosOverflow \<and> from_str_by_radix U8 ''-0x80'' = Inl InvalidDigit"
proof -
  have s: "show_int_radix 16 (- 128) = ''-0x80''" "show_int_radix 16 128 = ''0x80''"
    by code_simp+
  show ?thesis
    using from_str_by_radix_roundtrip [of 16 I8 "- 128"] from_str_by_radix_roundtrip [of 16 I8 128]
      from_str_by_radix_roundtrip [of 16 U8 "- 128"] s
    by (simp add: int_range_defs)
qed

end
