(* ===== verification/Leo_Ast.thy ===== *)
theory Leo_Ast
  imports Rust_Int
begin

text \<open>
  The abstract syntax tree of \<^verbatim>\<open>crates/ast\<close>: symbols and paths (\<^verbatim>\<open>common\<close>), literals and
  operators (\<^verbatim>\<open>expressions\<close>), and the mutually recursive types, expressions and statements, with
  the predicates and conversions that the later passes ask of them.

  Symbols are interned strings and are modelled as strings.  A struct such as \<^verbatim>\<open>BinaryExpression\<close>
  is a constructor whose arguments are the struct's fields in order; node identifiers are kept
  (\<open>nat\<close>), source spans, which no modelled operation reads, are not.
\<close>

section \<open>Names and paths\<close>

type_synonym symbol = string
type_synonym node_id = nat

record ident =
  ident_name :: symbol
  ident_id :: node_id

record location =
  loc_program :: symbol
  loc_path :: "symbol list"

definition location_dynamic :: location where
  "location_dynamic = \<lparr>loc_program = ''__dynamic__'', loc_path = [''__dynamic__'']\<rparr>"

definition is_dynamic :: "location \<Rightarrow> bool" where
  "is_dynamic loc \<longleftrightarrow> loc_program loc = ''__dynamic__''"

definition module_path :: "location \<Rightarrow> symbol list" where
  "module_path loc = (if loc_path loc = [] then [] else butlast (loc_path loc))"

datatype path_target = Unresolved | Local symbol | Global location

record path =
  user_program :: "symbol option"
  qualifier :: "ident list"
  identifier_of :: ident
  path_target :: path_target
  path_id :: node_id

definition path_new :: "symbol option \<Rightarrow> ident list \<Rightarrow> ident \<Rightarrow> node_id \<Rightarrow> path" where
  "path_new up q i n =
     \<lparr>user_program = up, qualifier = q, identifier_of = i, path_target = Unresolved, path_id = n\<rparr>"

definition segments :: "path \<Rightarrow> symbol list" where
  "segments p = map ident_name (qualifier p) @ [ident_name (identifier_of p)]"

definition path_program :: "path \<Rightarrow> symbol option" where
  "path_program p =
     (case user_program p of
        Some prog \<Rightarrow> Some prog
      | None \<Rightarrow> (case path_target p of Global loc \<Rightarrow> Some (loc_program loc) | _ \<Rightarrow> None))"

definition try_local_symbol :: "path \<Rightarrow> symbol option" where
  "try_local_symbol p = (case path_target p of Local s \<Rightarrow> Some s | _ \<Rightarrow> None)"

definition try_global_location :: "path \<Rightarrow> location option" where
  "try_global_location p = (case path_target p of Global loc \<Rightarrow> Some loc | _ \<Rightarrow> None)"

definition to_local :: "path \<Rightarrow> path" where
  "to_local p = p\<lparr>path_target := Local (ident_name (identifier_of p))\<rparr>"

definition to_global :: "path \<Rightarrow> location \<Rightarrow> path" where
  "to_global p loc = p\<lparr>path_target := Global loc\<rparr>"

text \<open>\<^verbatim>\<open>with_updated_last_symbol\<close>; the assertion that a global path is not empty is the \<open>None\<close>.\<close>

definition with_updated_last_symbol :: "path \<Rightarrow> symbol \<Rightarrow> path option" where
  "with_updated_last_symbol p new =
     (let p' = p\<lparr>identifier_of := (identifier_of p)\<lparr>ident_name := new\<rparr>\<rparr> in
      case path_target p of
        Unresolved \<Rightarrow> Some p'
      | Local _ \<Rightarrow> Some (p'\<lparr>path_target := Local new\<rparr>)
      | Global loc \<Rightarrow>
          if loc_path loc = [] then None
          else Some (p'\<lparr>path_target := Global (loc\<lparr>loc_path := butlast (loc_path loc) @ [new]\<rparr>)\<rparr>))"

definition resolve_as_global_in_module ::
  "path \<Rightarrow> symbol \<Rightarrow> symbol list \<Rightarrow> symbol list \<Rightarrow> path" where
  "resolve_as_global_in_module p prog external_libs current_module =
     (case qualifier p of
        first # rest \<Rightarrow>
          if user_program p = None \<and>
             (ident_name first \<in> set external_libs \<or> ident_name first = prog)
          then p\<lparr>user_program := None,
                 path_target := Global \<lparr>loc_program = ident_name first,
                   loc_path = map ident_name rest @ [ident_name (identifier_of p)]\<rparr>\<rparr>
          else p\<lparr>path_target := Global \<lparr>loc_program = (case user_program p of Some u \<Rightarrow> u | None \<Rightarrow> prog),
                   loc_path = current_module @ map ident_name (qualifier p)
                     @ [ident_name (identifier_of p)]\<rparr>\<rparr>
      | [] \<Rightarrow> p\<lparr>path_target := Global \<lparr>loc_program = (case user_program p of Some u \<Rightarrow> u | None \<Rightarrow> prog),
                   loc_path = current_module @ [ident_name (identifier_of p)]\<rparr>\<rparr>)"

datatype mode = Mode_None | Mode_Constant | Mode_Private | Mode_Public

fun eq_user :: "mode \<Rightarrow> mode \<Rightarrow> bool" where
  "eq_user a b =
     (if a \<in> {Mode_None, Mode_Private} \<and> b \<in> {Mode_None, Mode_Private} then True else a = b)"

section \<open>Literals\<close>

datatype literal_variant =
    Lit_Address string
  | Lit_Boolean bool
  | Lit_Field string
  | Lit_Group string
  | Lit_Integer integer_type string
  | Lit_None
  | Lit_Identifier string
  | Lit_Scalar string
  | Lit_Signature string
  | Lit_String string
  | Lit_Unsuffixed string

primrec literal_display :: "literal_variant \<Rightarrow> string" where
  "literal_display (Lit_Address address) = address"
| "literal_display (Lit_Boolean b) = (if b then ''true'' else ''false'')"
| "literal_display (Lit_Field s) = s @ ''field''"
| "literal_display (Lit_Group s) = s @ ''group''"
| "literal_display (Lit_Integer ty s) = s @ integer_type_display ty"
| "literal_display Lit_None = ''none''"
| "literal_display (Lit_Identifier s) = [CHR 0x27] @ s @ [CHR 0x27]"
| "literal_display (Lit_Scalar s) = s @ ''scalar''"
| "literal_display (Lit_Signature s) = s"
| "literal_display (Lit_String s) = [CHR 0x22] @ s @ [CHR 0x22]"
| "literal_display (Lit_Unsuffixed s) = s"

record literal =
  lit_variant :: literal_variant
  lit_id :: node_id

text \<open>\<^verbatim>\<open>s.replace("_", "")\<close>\<close>

definition remove_underscores :: "string \<Rightarrow> string" where
  "remove_underscores = filter (\<lambda>c. c \<noteq> CHR ''_'')"

definition res_ok :: "'e + 'a \<Rightarrow> 'a option" where
  "res_ok r = (case r of Inl _ \<Rightarrow> None | Inr a \<Rightarrow> Some a)"

definition literal_as_u32 :: "literal \<Rightarrow> int option" where
  "literal_as_u32 l =
     (case lit_variant l of
        Lit_Integer _ s \<Rightarrow> res_ok (from_str_by_radix U32 (remove_underscores s))
      | _ \<Rightarrow> None)"

section \<open>Operators\<close>

datatype binary_operation =
    Add | AddWrapped | And | BitwiseAnd | Div | DivWrapped | Eq | Gte | Gt | Lte | Lt | Mod | Mul
  | MulWrapped | Nand | Neq | Nor | Or | BitwiseOr | Pow | PowWrapped | Rem | RemWrapped | Shl
  | ShlWrapped | Shr | ShrWrapped | Sub | SubWrapped | Xor

primrec binary_display :: "binary_operation \<Rightarrow> string" where
  "binary_display Add = ''+''"
| "binary_display AddWrapped = ''add_wrapped''"
| "binary_display And = ''&&''"
| "binary_display BitwiseAnd = ''&''"
| "binary_display Div = ''/''"
| "binary_display DivWrapped = ''div_wrapped''"
| "binary_display Eq = ''==''"
| "binary_display Gte = ''>=''"
| "binary_display Gt = ''>''"
| "binary_display Lte = ''<=''"
| "binary_display Lt = ''<''"
| "binary_display Mod = ''mod''"
| "binary_display Mul = ''*''"
| "binary_display MulWrapped = ''mul_wrapped''"
| "binary_display Nand = ''NAND''"
| "binary_display Neq = ''!=''"
| "binary_display Nor = ''NOR''"
| "binary_display Or = ''||''"
| "binary_display BitwiseOr = ''|''"
| "binary_display Pow = ''**''"
| "binary_display PowWrapped = ''pow_wrapped''"
| "binary_display Rem = ''%''"
| "binary_display RemWrapped = ''rem_wrapped''"
| "binary_display Shl = ''<<''"
| "binary_display ShlWrapped = ''shl_wrapped''"
| "binary_display Shr = ''>>''"
| "binary_display ShrWrapped = ''shr_wrapped''"
| "binary_display Sub = ''-''"
| "binary_display SubWrapped = ''sub_wrapped''"
| "binary_display Xor = ''^''"

definition binary_symbols :: "(symbol \<times> binary_operation) list" where
  "binary_symbols =
     [(''add'', Add), (''add_wrapped'', AddWrapped), (''and'', BitwiseAnd), (''div'', Div),
      (''div_wrapped'', DivWrapped), (''eq'', Eq), (''gte'', Gte), (''gt'', Gt), (''lte'', Lte),
      (''lt'', Lt), (''mod'', Mod), (''mul'', Mul), (''mul_wrapped'', MulWrapped),
      (''nand'', Nand), (''neq'', Neq), (''nor'', Nor), (''or'', BitwiseOr), (''pow'', Pow),
      (''pow_wrapped'', PowWrapped), (''rem'', Rem), (''rem_wrapped'', RemWrapped), (''shl'', Shl),
      (''shl_wrapped'', ShlWrapped), (''shr'', Shr), (''shr_wrapped'', ShrWrapped), (''sub'', Sub),
      (''sub_wrapped'', SubWrapped), (''xor'', Xor)]"

definition binary_from_symbol :: "symbol \<Rightarrow> binary_operation option" where
  "binary_from_symbol = map_of binary_symbols"

fun binary_precedence :: "binary_operation \<Rightarrow> nat" where
  "binary_precedence BitwiseOr = 1"
| "binary_precedence BitwiseAnd = 2"
| "binary_precedence Eq = 3"
| "binary_precedence Neq = 3"
| "binary_precedence Lt = 3"
| "binary_precedence Gt = 3"
| "binary_precedence Lte = 3"
| "binary_precedence Gte = 3"
| "binary_precedence Or = 4"
| "binary_precedence Xor = 5"
| "binary_precedence And = 6"
| "binary_precedence Shl = 7"
| "binary_precedence Shr = 8"
| "binary_precedence Add = 9"
| "binary_precedence Sub = 9"
| "binary_precedence Mul = 10"
| "binary_precedence Div = 10"
| "binary_precedence Rem = 10"
| "binary_precedence Pow = 11"
| "binary_precedence _ = 20"

datatype associativity = Assoc_Left | Assoc_Right | Assoc_None

fun binary_associativity :: "binary_operation \<Rightarrow> associativity" where
  "binary_associativity op =
     (if op = Pow then Assoc_Right
      else if op \<in> {BitwiseOr, BitwiseAnd, Eq, Neq, Lt, Gt, Lte, Gte, Or, Xor, And, Shl, Shr, Add, Sub,
          Mul, Div, Rem} then Assoc_Left
      else Assoc_None)"

datatype unary_operation =
    Abs | AbsWrapped | Double | Inverse | Negate | Not | Square | SquareRoot | ToXCoordinate
  | ToYCoordinate

definition unary_symbols :: "(symbol \<times> unary_operation) list" where
  "unary_symbols =
     [(''abs'', Abs), (''abs_wrapped'', AbsWrapped), (''double'', Double), (''inv'', Inverse),
      (''neg'', Negate), (''not'', Not), (''square'', Square), (''square_root'', SquareRoot),
      (''to_x_coordinate'', ToXCoordinate), (''to_y_coordinate'', ToYCoordinate)]"

definition unary_from_symbol :: "symbol \<Rightarrow> unary_operation option" where
  "unary_from_symbol = map_of unary_symbols"

primrec unary_as_str :: "unary_operation \<Rightarrow> string" where
  "unary_as_str Abs = ''abs''"
| "unary_as_str AbsWrapped = ''abs_wrapped''"
| "unary_as_str Double = ''double''"
| "unary_as_str Inverse = ''inv''"
| "unary_as_str Negate = ''neg''"
| "unary_as_str Not = ''not''"
| "unary_as_str Square = ''square''"
| "unary_as_str SquareRoot = ''square_root''"
| "unary_as_str ToXCoordinate = ''to_x_coordinate''"
| "unary_as_str ToYCoordinate = ''to_y_coordinate''"

section \<open>Types, expressions and statements\<close>

datatype definition_place = Single ident | Multiple "ident list"

datatype (plugins only: size code) leo_type =
    T_Address
  | T_Array leo_type expression
  | T_Boolean
  | T_Composite path "expression list"
  | T_Field
  | T_Future "leo_type list" "location option" bool
  | T_Group
  | T_Identifier
  | T_DynRecord
  | T_Ident ident
  | T_Integer integer_type
  | T_Mapping leo_type leo_type
  | T_Optional leo_type
  | T_Scalar
  | T_Signature
  | T_String
  | T_Tuple "leo_type list"
  | T_Vector leo_type
  | T_Numeric
  | T_Unit
  | T_Err
and expression =
    E_ArrayAccess expression expression node_id
  | E_Async block node_id
  | E_Array "expression list" node_id
  | E_Binary expression expression binary_operation node_id
  | E_Intrinsic symbol "leo_type list" "(mode \<times> leo_type) list" "(mode \<times> leo_type) list"
      "expression list" node_id
  | E_Call path "expression list" "expression list" node_id
  | E_DynamicOp leo_type expression "expression option" dynamic_op_kind node_id
  | E_Cast expression leo_type node_id
  | E_Composite path "expression list" "field_initializer list" "expression option" node_id
  | E_Err node_id
  | E_Path path
  | E_Literal literal
  | E_MemberAccess expression ident node_id
  | E_Repeat expression expression node_id
  | E_Ternary expression expression expression node_id
  | E_Tuple "expression list" node_id
  | E_TupleAccess expression nat node_id
  | E_Unary expression unary_operation node_id
  | E_Unit node_id
and field_initializer = Field_Init ident "expression option" node_id
and dynamic_op_kind =
    Dyn_Call ident "expression list"
  | Dyn_Read ident
  | Dyn_Op ident ident "expression list"
and assert_variant =
    Assert expression
  | AssertEq expression expression
  | AssertNeq expression expression
and block = Block "statement list" node_id
and statement =
    S_Assert assert_variant node_id
  | S_Assign expression expression node_id
  | S_Block block
  | S_Conditional expression block "statement option" node_id
  | S_Const "bool option" ident leo_type expression node_id
  | S_Definition definition_place "leo_type option" expression node_id
  | S_Expression expression node_id
  | S_Iteration ident "leo_type option" expression expression bool block node_id
  | S_Return expression node_id

end
