(* ===== verification/Leo_Types.thy ===== *)
theory Leo_Types
  imports Leo_Ast
begin

text \<open>
  What the compiler asks of types, expressions and statements: equivalence and coercion of types
  (\<^verbatim>\<open>types/type_.rs\<close>), known array lengths (\<^verbatim>\<open>Expression::as_u32\<close>), precedences, and the predicates
  on statements (\<^verbatim>\<open>statement/mod.rs\<close>).
\<close>

section \<open>Expressions\<close>

fun precedence :: "expression \<Rightarrow> nat" where
  "precedence (E_Binary _ _ op _) = binary_precedence op"
| "precedence (E_Cast _ _ _) = 12"
| "precedence (E_Ternary _ _ _ _) = 0"
| "precedence _ = 20"

fun associativity :: "expression \<Rightarrow> associativity" where
  "associativity (E_Binary _ _ op _) = binary_associativity op"
| "associativity _ = Assoc_None"

text \<open>
  \<^verbatim>\<open>u32::try_from\<close> keeps a value in the range of \<^verbatim>\<open>u32\<close>.  The casts \<^verbatim>\<open>v as u32\<close> of the source
  widen unsigned values, for which \<open>checked_in\<close> is the identity too.
\<close>

definition literal_length :: "literal_variant \<Rightarrow> int option" where
  "literal_length v =
     (case v of
        Lit_Integer int_type s \<Rightarrow>
          Option.bind (res_ok (from_str_by_radix int_type (remove_underscores s))) (checked_in U32)
      | Lit_Unsuffixed s \<Rightarrow> res_ok (from_str_by_radix U32 (remove_underscores s))
      | _ \<Rightarrow> None)"

definition as_u32 :: "expression \<Rightarrow> int option" where
  "as_u32 e = (case e of E_Literal l \<Rightarrow> literal_length (lit_variant l) | _ \<Rightarrow> None)"

definition is_none_expr :: "expression \<Rightarrow> bool" where
  "is_none_expr e = (case e of E_Literal l \<Rightarrow> lit_variant l = Lit_None | _ \<Rightarrow> False)"

section \<open>Statements\<close>

definition statement_dummy :: statement where
  "statement_dummy = S_Block (Block [] 0)"

fun semicolon :: "statement \<Rightarrow> string" where
  "semicolon (S_Block _) = ''''"
| "semicolon (S_Conditional _ _ _ _) = ''''"
| "semicolon (S_Iteration _ _ _ _ _ _ _) = ''''"
| "semicolon _ = '';''"

fun statement_is_empty :: "statement \<Rightarrow> bool" where
  "statement_is_empty (S_Block (Block ss _)) \<longleftrightarrow> ss = []"
| "statement_is_empty (S_Return (E_Unit _) _) \<longleftrightarrow> True"
| "statement_is_empty _ \<longleftrightarrow> False"

fun is_return :: "statement \<Rightarrow> bool" where
  "is_return (S_Return _ _) \<longleftrightarrow> True"
| "is_return _ \<longleftrightarrow> False"

definition is_removable :: "statement \<Rightarrow> bool" where
  "is_removable s \<longleftrightarrow> statement_is_empty s \<and> \<not> is_return s"

section \<open>Types\<close>

definition lengths_agree :: "expression \<Rightarrow> expression \<Rightarrow> bool" where
  "lengths_agree l r = (case (as_u32 l, as_u32 r) of (Some l1, Some l2) \<Rightarrow> l1 = l2 | _ \<Rightarrow> True)"

fun is_err :: "leo_type \<Rightarrow> bool" where
  "is_err T_Err \<longleftrightarrow> True"
| "is_err _ \<longleftrightarrow> False"

text \<open>
  \<^verbatim>\<open>types_equivalent\<close>, the pairs of the match grouped by the left type.  \<open>all_equivalent\<close> is the
  \<^verbatim>\<open>zip_eq(..).all(..)\<close> of two lists whose lengths the guards have compared.
\<close>

function types_equivalent :: "leo_type \<Rightarrow> leo_type \<Rightarrow> bool"
  and all_equivalent :: "leo_type list \<Rightarrow> leo_type list \<Rightarrow> bool" where
  "types_equivalent left right =
     (if is_err left \<or> is_err right then True
      else case left of
        T_Address \<Rightarrow> (case right of T_Address \<Rightarrow> True | _ \<Rightarrow> False)
      | T_Boolean \<Rightarrow> (case right of T_Boolean \<Rightarrow> True | _ \<Rightarrow> False)
      | T_Field \<Rightarrow> (case right of T_Field \<Rightarrow> True | _ \<Rightarrow> False)
      | T_Group \<Rightarrow> (case right of T_Group \<Rightarrow> True | _ \<Rightarrow> False)
      | T_Scalar \<Rightarrow> (case right of T_Scalar \<Rightarrow> True | _ \<Rightarrow> False)
      | T_Signature \<Rightarrow> (case right of T_Signature \<Rightarrow> True | _ \<Rightarrow> False)
      | T_String \<Rightarrow> (case right of T_String \<Rightarrow> True | _ \<Rightarrow> False)
      | T_Identifier \<Rightarrow> (case right of T_Identifier \<Rightarrow> True | _ \<Rightarrow> False)
      | T_DynRecord \<Rightarrow> (case right of T_DynRecord \<Rightarrow> True | _ \<Rightarrow> False)
      | T_Unit \<Rightarrow> (case right of T_Unit \<Rightarrow> True | _ \<Rightarrow> False)
      | T_Array lt ll \<Rightarrow>
          (case right of T_Array rt rl \<Rightarrow> lengths_agree ll rl \<and> types_equivalent lt rt | _ \<Rightarrow> False)
      | T_Ident li \<Rightarrow> (case right of T_Ident ri \<Rightarrow> ident_name li = ident_name ri | _ \<Rightarrow> False)
      | T_Integer li \<Rightarrow> (case right of T_Integer ri \<Rightarrow> li = ri | _ \<Rightarrow> False)
      | T_Mapping lk lv \<Rightarrow>
          (case right of T_Mapping rk rv \<Rightarrow> types_equivalent lk rk \<and> types_equivalent lv rv | _ \<Rightarrow> False)
      | T_Optional lt \<Rightarrow> (case right of T_Optional rt \<Rightarrow> types_equivalent lt rt | _ \<Rightarrow> False)
      | T_Tuple ls \<Rightarrow>
          (case right of T_Tuple rs \<Rightarrow> length ls = length rs \<and> all_equivalent ls rs | _ \<Rightarrow> False)
      | T_Vector lt \<Rightarrow> (case right of T_Vector rt \<Rightarrow> types_equivalent lt rt | _ \<Rightarrow> False)
      | T_Composite lp lc \<Rightarrow>
          (case right of
             T_Composite rp rc \<Rightarrow>
               if lc \<noteq> [] \<or> rc \<noteq> [] then True
               else (case (try_global_location lp, try_global_location rp) of
                       (Some l, Some r) \<Rightarrow> l = r
                     | _ \<Rightarrow> False)
           | _ \<Rightarrow> False)
      | T_Future li _ lx \<Rightarrow>
          (case right of
             T_Future ri _ rx \<Rightarrow>
               if \<not> lx \<or> \<not> rx then True
               else length li = length ri \<and> all_equivalent li ri
           | _ \<Rightarrow> False)
      | T_Numeric \<Rightarrow> False
      | T_Err \<Rightarrow> True)"
| "all_equivalent [] rs = True"
| "all_equivalent (l # ls) [] = True"
| "all_equivalent (l # ls) (r # rs) \<longleftrightarrow> types_equivalent l r \<and> all_equivalent ls rs"
  by pat_completeness auto
termination
  by (relation "measure (case_sum (\<lambda>(l, r). size l) (\<lambda>(ls, rs). size_list size ls))") auto

declare types_equivalent.simps [simp del]

function can_coerce_to :: "leo_type \<Rightarrow> leo_type \<Rightarrow> bool" where
  "can_coerce_to actual expected =
     (case expected of
        T_Optional expected_opt \<Rightarrow>
          (case actual of
             T_Optional actual_opt \<Rightarrow> can_coerce_to actual_opt expected_opt
           | _ \<Rightarrow> can_coerce_to actual expected_opt)
      | T_Array et el \<Rightarrow>
          (case actual of
             T_Array at al \<Rightarrow> lengths_agree al el \<and> can_coerce_to at et
           | _ \<Rightarrow> types_equivalent actual expected)
      | _ \<Rightarrow> types_equivalent actual expected)"
  by pat_completeness auto
termination
  by (relation "measure (\<lambda>(a, e). size e)") auto

declare can_coerce_to.simps [simp del]

fun is_optional :: "leo_type \<Rightarrow> bool" where
  "is_optional (T_Optional _) = True"
| "is_optional _ = False"

fun is_vector :: "leo_type \<Rightarrow> bool" where
  "is_vector (T_Vector _) = True"
| "is_vector _ = False"

fun is_mapping :: "leo_type \<Rightarrow> bool" where
  "is_mapping (T_Mapping _ _) = True"
| "is_mapping _ = False"

definition to_optional :: "leo_type \<Rightarrow> leo_type" where
  "to_optional t = T_Optional t"

fun type_is_empty :: "leo_type \<Rightarrow> bool" where
  "type_is_empty T_Unit = True"
| "type_is_empty (T_Array _ len) = (case as_u32 len of Some n \<Rightarrow> n = 0 | None \<Rightarrow> False)"
| "type_is_empty _ = False"

fun is_valid_const_generic_type :: "leo_type \<Rightarrow> bool" where
  "is_valid_const_generic_type T_Boolean = True"
| "is_valid_const_generic_type (T_Integer _) = True"
| "is_valid_const_generic_type T_Address = True"
| "is_valid_const_generic_type T_Scalar = True"
| "is_valid_const_generic_type T_Group = True"
| "is_valid_const_generic_type T_Field = True"
| "is_valid_const_generic_type T_Identifier = True"
| "is_valid_const_generic_type _ = False"

fun base_element_type :: "leo_type \<Rightarrow> leo_type" where
  "base_element_type (T_Array t _) = base_element_type t"
| "base_element_type t = t"

section \<open>Equivalence of types\<close>

definition same_location :: "path \<Rightarrow> path \<Rightarrow> bool" where
  "same_location p p' \<longleftrightarrow>
     try_global_location p \<noteq> None \<and> try_global_location p = try_global_location p'"

text \<open>The match, read by its left type.\<close>

lemma types_equivalent_left:
  "types_equivalent T_Address r \<longleftrightarrow> is_err r \<or> (case r of T_Address \<Rightarrow> True | _ \<Rightarrow> False)"
  "types_equivalent T_Boolean r \<longleftrightarrow> is_err r \<or> (case r of T_Boolean \<Rightarrow> True | _ \<Rightarrow> False)"
  "types_equivalent T_Field r \<longleftrightarrow> is_err r \<or> (case r of T_Field \<Rightarrow> True | _ \<Rightarrow> False)"
  "types_equivalent T_Group r \<longleftrightarrow> is_err r \<or> (case r of T_Group \<Rightarrow> True | _ \<Rightarrow> False)"
  "types_equivalent T_Scalar r \<longleftrightarrow> is_err r \<or> (case r of T_Scalar \<Rightarrow> True | _ \<Rightarrow> False)"
  "types_equivalent T_Signature r \<longleftrightarrow> is_err r \<or> (case r of T_Signature \<Rightarrow> True | _ \<Rightarrow> False)"
  "types_equivalent T_String r \<longleftrightarrow> is_err r \<or> (case r of T_String \<Rightarrow> True | _ \<Rightarrow> False)"
  "types_equivalent T_Identifier r \<longleftrightarrow> is_err r \<or> (case r of T_Identifier \<Rightarrow> True | _ \<Rightarrow> False)"
  "types_equivalent T_DynRecord r \<longleftrightarrow> is_err r \<or> (case r of T_DynRecord \<Rightarrow> True | _ \<Rightarrow> False)"
  "types_equivalent T_Unit r \<longleftrightarrow> is_err r \<or> (case r of T_Unit \<Rightarrow> True | _ \<Rightarrow> False)"
  "types_equivalent T_Err r \<longleftrightarrow> True"
  "types_equivalent T_Numeric r \<longleftrightarrow> is_err r"
  "types_equivalent (T_Array t l) r \<longleftrightarrow> is_err r \<or>
     (case r of T_Array t' l' \<Rightarrow> lengths_agree l l' \<and> types_equivalent t t' | _ \<Rightarrow> False)"
  "types_equivalent (T_Ident i) r \<longleftrightarrow> is_err r \<or>
     (case r of T_Ident i' \<Rightarrow> ident_name i = ident_name i' | _ \<Rightarrow> False)"
  "types_equivalent (T_Integer n) r \<longleftrightarrow> is_err r \<or> (case r of T_Integer n' \<Rightarrow> n = n' | _ \<Rightarrow> False)"
  "types_equivalent (T_Mapping k v) r \<longleftrightarrow> is_err r \<or>
     (case r of T_Mapping k' v' \<Rightarrow> types_equivalent k k' \<and> types_equivalent v v' | _ \<Rightarrow> False)"
  "types_equivalent (T_Optional t) r \<longleftrightarrow> is_err r \<or>
     (case r of T_Optional t' \<Rightarrow> types_equivalent t t' | _ \<Rightarrow> False)"
  "types_equivalent (T_Vector t) r \<longleftrightarrow> is_err r \<or>
     (case r of T_Vector t' \<Rightarrow> types_equivalent t t' | _ \<Rightarrow> False)"
  "types_equivalent (T_Tuple ts) r \<longleftrightarrow> is_err r \<or>
     (case r of T_Tuple ts' \<Rightarrow> length ts = length ts' \<and> all_equivalent ts ts' | _ \<Rightarrow> False)"
  "types_equivalent (T_Composite p cs) r \<longleftrightarrow> is_err r \<or>
     (case r of T_Composite p' cs' \<Rightarrow> cs \<noteq> [] \<or> cs' \<noteq> [] \<or> same_location p p' | _ \<Rightarrow> False)"
  "types_equivalent (T_Future ts loc x) r \<longleftrightarrow> is_err r \<or>
     (case r of
        T_Future ts' loc' x' \<Rightarrow>
          \<not> x \<or> \<not> x' \<or> length ts = length ts' \<and> all_equivalent ts ts'
      | _ \<Rightarrow> False)"
  by (subst types_equivalent.simps; cases r;
      auto simp: same_location_def split: option.splits)+











definition length_literal :: "integer_type \<Rightarrow> string \<Rightarrow> expression" where
  "length_literal ty s = E_Literal \<lparr>lit_variant = Lit_Integer ty s, lit_id = 0\<rparr>"


section \<open>Coercion\<close>

text \<open>
  Coercion may add \<^verbatim>\<open>?\<close> around a type and around the element types of nested arrays.
  \<open>erase_optional\<close> removes those marks, \<open>optional_marks\<close> counts them level by level.
\<close>

fun erase_optional :: "leo_type \<Rightarrow> leo_type" where
  "erase_optional (T_Optional t) = erase_optional t"
| "erase_optional (T_Array t l) = T_Array (erase_optional t) l"
| "erase_optional t = t"

fun bump :: "nat list \<Rightarrow> nat list" where
  "bump [] = []"
| "bump (n # ns) = Suc n # ns"

fun optional_marks :: "leo_type \<Rightarrow> nat list" where
  "optional_marks (T_Optional t) = bump (optional_marks t)"
| "optional_marks (T_Array t l) = 0 # optional_marks t"
| "optional_marks t = [0]"

fun spine_is_err :: "leo_type \<Rightarrow> bool" where
  "spine_is_err (T_Optional t) = spine_is_err t"
| "spine_is_err (T_Array t l) = spine_is_err t"
| "spine_is_err t = is_err t"

lemma optional_marks_nonempty [simp]: "optional_marks t \<noteq> []"
  by (induction t rule: optional_marks.induct) (auto elim: bump.elims)

lemma list_all2_bump:
  "xs \<noteq> [] \<Longrightarrow> ys \<noteq> [] \<Longrightarrow> list_all2 (\<le>) (bump xs) (bump ys) = list_all2 (\<le>) xs ys"
  by (cases xs; cases ys) auto

lemma not_optional_marks:
  "\<not> is_optional a \<Longrightarrow> \<exists>ns. optional_marks a = 0 # ns"
  by (cases a) auto

lemma list_all2_zero_bump:
  "ys \<noteq> [] \<Longrightarrow> list_all2 (\<le>) (0 # xs) (bump ys) = list_all2 (\<le>) (0 # xs) ys"
  by (cases ys) auto

fun is_array :: "leo_type \<Rightarrow> bool" where
  "is_array (T_Array _ _) = True"
| "is_array _ = False"

text \<open>An expected type that is neither optional nor an array: only an equivalent type is accepted.\<close>

lemma types_equivalent_base:
  assumes "\<not> is_optional e" and "\<not> is_array e" and "\<not> is_err e" and "\<not> spine_is_err a"
  shows "types_equivalent a e \<longleftrightarrow>
    types_equivalent (erase_optional a) e \<and> list_all2 (\<le>) (optional_marks a) [0]"
proof (cases a)
  case (T_Optional t)
  have "\<not> types_equivalent a e" using assms T_Optional by (cases e) (simp_all add: types_equivalent_left)
  moreover obtain n ns where "optional_marks t = n # ns" by (cases "optional_marks t") auto
  ultimately show ?thesis by (simp add: T_Optional)
next
  case (T_Array t l)
  have "\<not> types_equivalent (T_Array t' l) e" for t'
    using assms by (cases e) (simp_all add: types_equivalent_left)
  with T_Array show ?thesis by simp
qed (simp_all add: assms)

lemma can_coerce_to_cases:
  "can_coerce_to (T_Optional a) (T_Optional e) = can_coerce_to a e"
  "\<not> is_optional a' \<Longrightarrow> can_coerce_to a' (T_Optional e) = can_coerce_to a' e"
  "can_coerce_to (T_Array a l) (T_Array e l') \<longleftrightarrow> lengths_agree l l' \<and> can_coerce_to a e"
  by (subst can_coerce_to.simps; auto split: leo_type.split)+

lemma can_coerce_to_equivalent:
  "\<not> is_optional e \<Longrightarrow> \<not> (is_array a \<and> is_array e) \<Longrightarrow>
     can_coerce_to a e = types_equivalent a e"
  by (subst can_coerce_to.simps) (auto split: leo_type.split)

lemma can_coerce_iff_aux:
  assumes "\<not> spine_is_err a" and "\<not> spine_is_err e"
  shows "can_coerce_to a e \<longleftrightarrow>
    types_equivalent (erase_optional a) (erase_optional e) \<and>
    list_all2 (\<le>) (optional_marks a) (optional_marks e)"
  using assms
proof (induction e arbitrary: a rule: optional_marks.induct)
  case (1 e)
  show ?case
  proof (cases "is_optional a")
    case True
    then obtain a' where "a = T_Optional a'" by (cases a) auto
    with 1 show ?thesis by (simp add: can_coerce_to_cases list_all2_bump)
  next
    case False
    then obtain ns where "optional_marks a = 0 # ns" using not_optional_marks by blast
    with 1 False show ?thesis by (simp add: can_coerce_to_cases list_all2_zero_bump)
  qed
next
  case (2 e l')
  show ?case
  proof (cases a)
    case (T_Array a' l)
    with 2 show ?thesis by (simp add: can_coerce_to_cases types_equivalent_left)
  next
    case (T_Optional t)
    obtain n ns where "optional_marks t = n # ns" by (cases "optional_marks t") auto
    with T_Optional show ?thesis by (simp add: can_coerce_to_equivalent types_equivalent_left)
  qed (use 2 in \<open>simp_all add: can_coerce_to_equivalent types_equivalent_left\<close>)
qed (use types_equivalent_base in \<open>simp_all add: can_coerce_to_equivalent\<close>)

lemma types_equivalent_same_marks:
  "types_equivalent a e \<Longrightarrow> \<not> spine_is_err a \<Longrightarrow> \<not> spine_is_err e \<Longrightarrow>
     types_equivalent (erase_optional a) (erase_optional e) \<and> optional_marks a = optional_marks e"
proof (induction a arbitrary: e rule: optional_marks.induct)
  case (1 t)
  then show ?case by (cases e) (simp_all add: types_equivalent_left)
next
  case (2 t l)
  then show ?case by (cases e) (simp_all add: types_equivalent_left)
qed (case_tac e; simp add: types_equivalent_left; fail)+

lemma list_all2_le_bump: "list_all2 (\<le>) xs ys \<Longrightarrow> list_all2 (\<le>) xs (bump ys)"
  by (cases xs; cases ys) auto

lemma not_bump_le: "xs \<noteq> [] \<Longrightarrow> \<not> list_all2 (\<le>) (bump xs) xs"
  by (cases xs) auto

lemma list_all2_le_refl: "list_all2 (\<le>) xs (xs :: nat list)"
  by (simp add: list_all2_refl)

text \<open>
  Property C15.  Coercion of types (without an error type inside) is exactly this: the two types are
  equivalent once the optional marks around them and around their nested array elements are erased,
  and at every level the expected type has at least as many marks as the actual one.  So coercion
  may wrap a value in an optional and never unwraps one, and an equivalent type, wrapped or not, is
  always accepted.
\<close>

theorem can_coerce_to_iff:
  assumes "\<not> spine_is_err a" and "\<not> spine_is_err e"
  shows "(can_coerce_to a e \<longleftrightarrow>
       types_equivalent (erase_optional a) (erase_optional e) \<and>
       list_all2 (\<le>) (optional_marks a) (optional_marks e)) \<and>
     \<not> can_coerce_to (to_optional a) a \<and>
     (types_equivalent a e \<longrightarrow> can_coerce_to a e \<and> can_coerce_to a (to_optional e))"
proof (intro conjI impI)
  show "can_coerce_to a e \<longleftrightarrow>
      types_equivalent (erase_optional a) (erase_optional e) \<and>
      list_all2 (\<le>) (optional_marks a) (optional_marks e)"
    by (rule can_coerce_iff_aux [OF assms])
  show "\<not> can_coerce_to (to_optional a) a"
    using assms by (simp add: can_coerce_iff_aux to_optional_def not_bump_le)
  assume equiv: "types_equivalent a e"
  note marks = types_equivalent_same_marks [OF equiv assms]
  show "can_coerce_to a e"
    using assms marks by (simp add: can_coerce_iff_aux list_all2_le_refl)
  show "can_coerce_to a (to_optional e)"
    using assms marks by (simp add: can_coerce_iff_aux to_optional_def list_all2_le_bump list_all2_le_refl)
qed

theorem can_coerce_to_iff_witness:
  "can_coerce_to (T_Array (T_Integer U32) (length_literal U8 ''4''))
     (T_Optional (T_Array (T_Optional (T_Integer U32)) (length_literal U8 ''4''))) \<and>
   \<not> can_coerce_to (to_optional (T_Integer U32)) (T_Integer U32)"
proof -
  have "lengths_agree l l" for l by (simp add: lengths_agree_def split: option.split)
  then show ?thesis
    using can_coerce_to_iff [of "T_Integer U32" "T_Integer U32"]
      can_coerce_to_iff [of "T_Array (T_Integer U32) (length_literal U8 ''4'')"
        "T_Optional (T_Array (T_Optional (T_Integer U32)) (length_literal U8 ''4''))"]
    by (simp add: types_equivalent_left)
qed

section \<open>Resolution of paths\<close>

definition same_syntax :: "path \<Rightarrow> path \<Rightarrow> bool" where
  "same_syntax p q \<longleftrightarrow> user_program p = user_program q \<and> qualifier p = qualifier q \<and>
     identifier_of p = identifier_of q \<and> path_id p = path_id q"

lemma resolve_target:
  "\<exists>prog' ss. path_target (resolve_as_global_in_module p prog libs cm) =
     Global \<lparr>loc_program = prog', loc_path = ss @ [ident_name (identifier_of p)]\<rparr>"
  by (auto simp: resolve_as_global_in_module_def split: list.split)

lemma resolve_same_syntax: "same_syntax (resolve_as_global_in_module p prog libs cm) p"
  by (auto simp: resolve_as_global_in_module_def same_syntax_def split: list.split)

lemma resolve_cong_syntax:
  "same_syntax p q \<Longrightarrow>
     resolve_as_global_in_module p prog libs cm = resolve_as_global_in_module q prog libs cm"
  by (cases p; cases q) (auto simp: resolve_as_global_in_module_def same_syntax_def split: list.split)

text \<open>
  Resolving a path never fails, leaves what the user wrote untouched, and gives a
  global location whose last segment is the identifier, so renaming the item afterwards cannot hit
  the assertion of \<^verbatim>\<open>with_updated_last_symbol\<close> and changes only that last segment; resolving a second
  time changes nothing.
\<close>

theorem resolve_as_global_then_rename:
  "let q = resolve_as_global_in_module p prog libs cm in
     same_syntax q p \<and>
     resolve_as_global_in_module q prog libs cm = q \<and>
     (\<exists>loc q' loc'. try_global_location q = Some loc \<and>
        loc_path loc = module_path loc @ [ident_name (identifier_of p)] \<and>
        with_updated_last_symbol q new = Some q' \<and> try_global_location q' = Some loc' \<and>
        loc_program loc' = loc_program loc \<and> loc_path loc' = module_path loc @ [new])"
proof -
  let ?q = "resolve_as_global_in_module p prog libs cm"
  have "same_syntax ?q p" by (rule resolve_same_syntax)
  moreover from this have "resolve_as_global_in_module ?q prog libs cm = ?q"
    by (rule resolve_cong_syntax)
  moreover obtain prog' ss where
    "path_target ?q = Global \<lparr>loc_program = prog', loc_path = ss @ [ident_name (identifier_of p)]\<rparr>"
    using resolve_target by blast
  ultimately show ?thesis
    by (simp add: Let_def try_global_location_def with_updated_last_symbol_def module_path_def)
qed

end
