(* ===== verification/Leo_Intrinsics.thy ===== *)
theory Leo_Intrinsics
  imports Leo_Types
begin

text \<open>
  The intrinsic operations of \<^verbatim>\<open>crates/ast/src/functions/intrinsic.rs\<close>: their enumeration, the
  resolution of their names (\<^verbatim>\<open>from_symbol\<close>, from the underscored name; \<^verbatim>\<open>convert_path_symbols\<close>, from
  a path such as \<^verbatim>\<open>BHP256::hash_to_field\<close>), their arities and their classification as pure or as
  commands of a finalize block.  The match arms with constant names are tables, in the order of
  the source.  The variants of hashes, commitments and signature schemes are the ones that the
  source names.
\<close>

section \<open>The intrinsics\<close>

datatype literal_type =
    LT_Address | LT_Boolean | LT_Field | LT_Group | LT_I8 | LT_I16 | LT_I32 | LT_I64 | LT_I128 | LT_U8
  | LT_U16 | LT_U32 | LT_U64 | LT_U128 | LT_Scalar | LT_Signature | LT_String | LT_Identifier

primrec type_from_literal_type :: "literal_type \<Rightarrow> leo_type" where
  "type_from_literal_type LT_Identifier = T_Identifier"
| "type_from_literal_type LT_Address = T_Address"
| "type_from_literal_type LT_Boolean = T_Boolean"
| "type_from_literal_type LT_Field = T_Field"
| "type_from_literal_type LT_Group = T_Group"
| "type_from_literal_type LT_U8 = T_Integer U8"
| "type_from_literal_type LT_U16 = T_Integer U16"
| "type_from_literal_type LT_U32 = T_Integer U32"
| "type_from_literal_type LT_U64 = T_Integer U64"
| "type_from_literal_type LT_U128 = T_Integer U128"
| "type_from_literal_type LT_I8 = T_Integer I8"
| "type_from_literal_type LT_I16 = T_Integer I16"
| "type_from_literal_type LT_I32 = T_Integer I32"
| "type_from_literal_type LT_I64 = T_Integer I64"
| "type_from_literal_type LT_I128 = T_Integer I128"
| "type_from_literal_type LT_Scalar = T_Scalar"
| "type_from_literal_type LT_Signature = T_Signature"
| "type_from_literal_type LT_String = T_String"

datatype commit_variant =
    CommitBHP256 | CommitBHP512 | CommitBHP768 | CommitBHP1024 | CommitPED64 | CommitPED128

datatype ecdsa_verify_variant =
    ECDSA_Digest | ECDSA_DigestEth | ECDSA_HashKeccak256 | ECDSA_HashKeccak256Raw |
    ECDSA_HashKeccak256Eth | ECDSA_HashKeccak384 | ECDSA_HashKeccak384Raw |
    ECDSA_HashKeccak384Eth | ECDSA_HashKeccak512 | ECDSA_HashKeccak512Raw |
    ECDSA_HashKeccak512Eth | ECDSA_HashSha3_256 | ECDSA_HashSha3_256Raw | ECDSA_HashSha3_256Eth
    | ECDSA_HashSha3_384 | ECDSA_HashSha3_384Raw | ECDSA_HashSha3_384Eth | ECDSA_HashSha3_512 |
    ECDSA_HashSha3_512Raw | ECDSA_HashSha3_512Eth

datatype hash_variant =
    HashBHP256 | HashBHP256Raw | HashBHP512 | HashBHP512Raw | HashBHP768 | HashBHP768Raw |
    HashBHP1024 | HashBHP1024Raw | HashKeccak256 | HashKeccak256Raw | HashKeccak256Native |
    HashKeccak256NativeRaw | HashKeccak384 | HashKeccak384Raw | HashKeccak384Native |
    HashKeccak384NativeRaw | HashKeccak512 | HashKeccak512Raw | HashKeccak512Native |
    HashKeccak512NativeRaw | HashPED64 | HashPED64Raw | HashPED128 | HashPED128Raw | HashPSD2 |
    HashPSD2Raw | HashPSD4 | HashPSD4Raw | HashPSD8 | HashPSD8Raw | HashSha3_256 |
    HashSha3_256Raw | HashSha3_256Native | HashSha3_256NativeRaw | HashSha3_384 |
    HashSha3_384Raw | HashSha3_384Native | HashSha3_384NativeRaw | HashSha3_512 |
    HashSha3_512Raw | HashSha3_512Native | HashSha3_512NativeRaw

datatype serialize_variant = ToBits | ToBitsRaw

datatype deserialize_variant = FromBits | FromBitsRaw

datatype (plugins only: size code) intrinsic =
    ChaChaRand literal_type | Commit commit_variant literal_type
  | ECDSAVerify ecdsa_verify_variant | Hash hash_variant leo_type |
    MappingGet | MappingGetOrUse | MappingSet | MappingRemove | MappingContains | OptionalUnwrap
    | OptionalUnwrapOr | VectorGet | VectorSet | VectorPush | VectorLen | VectorClear |
    VectorPop | VectorSwapRemove | GroupToXCoordinate | GroupToYCoordinate | GroupGen |
    AleoGenerator | AleoGeneratorPowers | SignatureVerify | SnarkVerify | SnarkVerifyBatch |
    FinalRun | ProgramChecksum | ProgramEdition | ProgramOwner | FunctionChecksum
  | Serialize serialize_variant | Deserialize deserialize_variant leo_type |
    DynamicCall | DynamicContains | DynamicGet | DynamicGetOrUse | SelfAddress | SelfCaller |
    SelfChecksum | SelfEdition | SelfId | SelfProgramOwner | SelfSigner | BlockHeight |
    BlockTimestamp | NetworkId

text \<open>\<^verbatim>\<open>ArrayType::bit_array\<close>: the literal length of an array of bits.\<close>

definition bit_length :: "nat \<Rightarrow> expression" where
  "bit_length n = E_Literal \<lparr>lit_variant = Lit_Integer U32 (show_int (int n)), lit_id = 0\<rparr>"

section \<open>Names\<close>

definition intrinsic_symbols_1 :: "(symbol \<times> intrinsic) list" where
  "intrinsic_symbols_1 =
     [(''_self_address'', SelfAddress),
      (''_self_caller'', SelfCaller),
      (''_self_checksum'', SelfChecksum),
      (''_self_edition'', SelfEdition),
      (''_self_id'', SelfId),
      (''_self_program_owner'', SelfProgramOwner),
      (''_self_signer'', SelfSigner),
      (''_block_height'', BlockHeight),
      (''_block_timestamp'', BlockTimestamp),
      (''_network_id'', NetworkId),
      (''_group_gen'', GroupGen),
      (''_aleo_generator'', AleoGenerator),
      (''_aleo_generator_powers'', AleoGeneratorPowers),
      (''_chacha_rand_address'', ChaChaRand LT_Address),
      (''_chacha_rand_bool'', ChaChaRand LT_Boolean),
      (''_chacha_rand_field'', ChaChaRand LT_Field),
      (''_chacha_rand_group'', ChaChaRand LT_Group),
      (''_chacha_rand_i8'', ChaChaRand LT_I8),
      (''_chacha_rand_i16'', ChaChaRand LT_I16),
      (''_chacha_rand_i32'', ChaChaRand LT_I32),
      (''_chacha_rand_i64'', ChaChaRand LT_I64),
      (''_chacha_rand_i128'', ChaChaRand LT_I128),
      (''_chacha_rand_u8'', ChaChaRand LT_U8),
      (''_chacha_rand_u16'', ChaChaRand LT_U16),
      (''_chacha_rand_u32'', ChaChaRand LT_U32),
      (''_chacha_rand_u64'', ChaChaRand LT_U64),
      (''_chacha_rand_u128'', ChaChaRand LT_U128),
      (''_chacha_rand_scalar'', ChaChaRand LT_Scalar),
      (''_bhp256_commit_to_address'', Commit CommitBHP256 LT_Address),
      (''_bhp256_commit_to_field'', Commit CommitBHP256 LT_Field),
      (''_bhp256_commit_to_group'', Commit CommitBHP256 LT_Group),
      (''_bhp512_commit_to_address'', Commit CommitBHP512 LT_Address),
      (''_bhp512_commit_to_field'', Commit CommitBHP512 LT_Field),
      (''_bhp512_commit_to_group'', Commit CommitBHP512 LT_Group),
      (''_bhp768_commit_to_address'', Commit CommitBHP768 LT_Address),
      (''_bhp768_commit_to_field'', Commit CommitBHP768 LT_Field),
      (''_bhp768_commit_to_group'', Commit CommitBHP768 LT_Group),
      (''_bhp1024_commit_to_address'', Commit CommitBHP1024 LT_Address),
      (''_bhp1024_commit_to_field'', Commit CommitBHP1024 LT_Field),
      (''_bhp1024_commit_to_group'', Commit CommitBHP1024 LT_Group),
      (''_pedersen64_commit_to_address'', Commit CommitPED64 LT_Address),
      (''_pedersen64_commit_to_field'', Commit CommitPED64 LT_Field),
      (''_pedersen64_commit_to_group'', Commit CommitPED64 LT_Group),
      (''_pedersen128_commit_to_address'', Commit CommitPED128 LT_Address),
      (''_pedersen128_commit_to_field'', Commit CommitPED128 LT_Field),
      (''_pedersen128_commit_to_group'', Commit CommitPED128 LT_Group),
      (''_bhp256_hash_to_address'', Hash HashBHP256 T_Address),
      (''_bhp256_hash_to_field'', Hash HashBHP256 T_Field),
      (''_bhp256_hash_to_group'', Hash HashBHP256 T_Group),
      (''_bhp256_hash_to_i8'', Hash HashBHP256 (T_Integer I8)),
      (''_bhp256_hash_to_i16'', Hash HashBHP256 (T_Integer I16)),
      (''_bhp256_hash_to_i32'', Hash HashBHP256 (T_Integer I32)),
      (''_bhp256_hash_to_i64'', Hash HashBHP256 (T_Integer I64)),
      (''_bhp256_hash_to_i128'', Hash HashBHP256 (T_Integer I128)),
      (''_bhp256_hash_to_u8'', Hash HashBHP256 (T_Integer U8)),
      (''_bhp256_hash_to_u16'', Hash HashBHP256 (T_Integer U16)),
      (''_bhp256_hash_to_u32'', Hash HashBHP256 (T_Integer U32)),
      (''_bhp256_hash_to_u64'', Hash HashBHP256 (T_Integer U64)),
      (''_bhp256_hash_to_u128'', Hash HashBHP256 (T_Integer U128)),
      (''_bhp256_hash_to_scalar'', Hash HashBHP256 T_Scalar),
      (''_bhp256_hash_to_address_raw'', Hash HashBHP256Raw T_Address),
      (''_bhp256_hash_to_field_raw'', Hash HashBHP256Raw T_Field),
      (''_bhp256_hash_to_group_raw'', Hash HashBHP256Raw T_Group),
      (''_bhp256_hash_to_i8_raw'', Hash HashBHP256Raw (T_Integer I8)),
      (''_bhp256_hash_to_i16_raw'', Hash HashBHP256Raw (T_Integer I16)),
      (''_bhp256_hash_to_i32_raw'', Hash HashBHP256Raw (T_Integer I32)),
      (''_bhp256_hash_to_i64_raw'', Hash HashBHP256Raw (T_Integer I64)),
      (''_bhp256_hash_to_i128_raw'', Hash HashBHP256Raw (T_Integer I128)),
      (''_bhp256_hash_to_u8_raw'', Hash HashBHP256Raw (T_Integer U8)),
      (''_bhp256_hash_to_u16_raw'', Hash HashBHP256Raw (T_Integer U16)),
      (''_bhp256_hash_to_u32_raw'', Hash HashBHP256Raw (T_Integer U32)),
      (''_bhp256_hash_to_u64_raw'', Hash HashBHP256Raw (T_Integer U64)),
      (''_bhp256_hash_to_u128_raw'', Hash HashBHP256Raw (T_Integer U128)),
      (''_bhp256_hash_to_scalar_raw'', Hash HashBHP256Raw T_Scalar),
      (''_bhp512_hash_to_address'', Hash HashBHP512 T_Address),
      (''_bhp512_hash_to_field'', Hash HashBHP512 T_Field),
      (''_bhp512_hash_to_group'', Hash HashBHP512 T_Group),
      (''_bhp512_hash_to_i8'', Hash HashBHP512 (T_Integer I8)),
      (''_bhp512_hash_to_i16'', Hash HashBHP512 (T_Integer I16)),
      (''_bhp512_hash_to_i32'', Hash HashBHP512 (T_Integer I32)),
      (''_bhp512_hash_to_i64'', Hash HashBHP512 (T_Integer I64)),
      (''_bhp512_hash_to_i128'', Hash HashBHP512 (T_Integer I128)),
      (''_bhp512_hash_to_u8'', Hash HashBHP512 (T_Integer U8)),
      (''_bhp512_hash_to_u16'', Hash HashBHP512 (T_Integer U16)),
      (''_bhp512_hash_to_u32'', Hash HashBHP512 (T_Integer U32)),
      (''_bhp512_hash_to_u64'', Hash HashBHP512 (T_Integer U64)),
      (''_bhp512_hash_to_u128'', Hash HashBHP512 (T_Integer U128)),
      (''_bhp512_hash_to_scalar'', Hash HashBHP512 T_Scalar),
      (''_bhp512_hash_to_address_raw'', Hash HashBHP512Raw T_Address),
      (''_bhp512_hash_to_field_raw'', Hash HashBHP512Raw T_Field),
      (''_bhp512_hash_to_group_raw'', Hash HashBHP512Raw T_Group),
      (''_bhp512_hash_to_i8_raw'', Hash HashBHP512Raw (T_Integer I8)),
      (''_bhp512_hash_to_i16_raw'', Hash HashBHP512Raw (T_Integer I16)),
      (''_bhp512_hash_to_i32_raw'', Hash HashBHP512Raw (T_Integer I32)),
      (''_bhp512_hash_to_i64_raw'', Hash HashBHP512Raw (T_Integer I64)),
      (''_bhp512_hash_to_i128_raw'', Hash HashBHP512Raw (T_Integer I128)),
      (''_bhp512_hash_to_u8_raw'', Hash HashBHP512Raw (T_Integer U8)),
      (''_bhp512_hash_to_u16_raw'', Hash HashBHP512Raw (T_Integer U16)),
      (''_bhp512_hash_to_u32_raw'', Hash HashBHP512Raw (T_Integer U32)),
      (''_bhp512_hash_to_u64_raw'', Hash HashBHP512Raw (T_Integer U64)),
      (''_bhp512_hash_to_u128_raw'', Hash HashBHP512Raw (T_Integer U128)),
      (''_bhp512_hash_to_scalar_raw'', Hash HashBHP512Raw T_Scalar),
      (''_bhp768_hash_to_address'', Hash HashBHP768 T_Address),
      (''_bhp768_hash_to_field'', Hash HashBHP768 T_Field),
      (''_bhp768_hash_to_group'', Hash HashBHP768 T_Group),
      (''_bhp768_hash_to_i8'', Hash HashBHP768 (T_Integer I8)),
      (''_bhp768_hash_to_i16'', Hash HashBHP768 (T_Integer I16)),
      (''_bhp768_hash_to_i32'', Hash HashBHP768 (T_Integer I32)),
      (''_bhp768_hash_to_i64'', Hash HashBHP768 (T_Integer I64)),
      (''_bhp768_hash_to_i128'', Hash HashBHP768 (T_Integer I128)),
      (''_bhp768_hash_to_u8'', Hash HashBHP768 (T_Integer U8)),
      (''_bhp768_hash_to_u16'', Hash HashBHP768 (T_Integer U16)),
      (''_bhp768_hash_to_u32'', Hash HashBHP768 (T_Integer U32)),
      (''_bhp768_hash_to_u64'', Hash HashBHP768 (T_Integer U64)),
      (''_bhp768_hash_to_u128'', Hash HashBHP768 (T_Integer U128)),
      (''_bhp768_hash_to_scalar'', Hash HashBHP768 T_Scalar),
      (''_bhp768_hash_to_address_raw'', Hash HashBHP768Raw T_Address),
      (''_bhp768_hash_to_field_raw'', Hash HashBHP768Raw T_Field),
      (''_bhp768_hash_to_group_raw'', Hash HashBHP768Raw T_Group),
      (''_bhp768_hash_to_i8_raw'', Hash HashBHP768Raw (T_Integer I8)),
      (''_bhp768_hash_to_i16_raw'', Hash HashBHP768Raw (T_Integer I16)),
      (''_bhp768_hash_to_i32_raw'', Hash HashBHP768Raw (T_Integer I32)),
      (''_bhp768_hash_to_i64_raw'', Hash HashBHP768Raw (T_Integer I64)),
      (''_bhp768_hash_to_i128_raw'', Hash HashBHP768Raw (T_Integer I128)),
      (''_bhp768_hash_to_u8_raw'', Hash HashBHP768Raw (T_Integer U8)),
      (''_bhp768_hash_to_u16_raw'', Hash HashBHP768Raw (T_Integer U16)),
      (''_bhp768_hash_to_u32_raw'', Hash HashBHP768Raw (T_Integer U32)),
      (''_bhp768_hash_to_u64_raw'', Hash HashBHP768Raw (T_Integer U64)),
      (''_bhp768_hash_to_u128_raw'', Hash HashBHP768Raw (T_Integer U128)),
      (''_bhp768_hash_to_scalar_raw'', Hash HashBHP768Raw T_Scalar),
      (''_bhp1024_hash_to_address'', Hash HashBHP1024 T_Address),
      (''_bhp1024_hash_to_field'', Hash HashBHP1024 T_Field),
      (''_bhp1024_hash_to_group'', Hash HashBHP1024 T_Group),
      (''_bhp1024_hash_to_i8'', Hash HashBHP1024 (T_Integer I8))]"

definition intrinsic_symbols_2 :: "(symbol \<times> intrinsic) list" where
  "intrinsic_symbols_2 =
     [(''_bhp1024_hash_to_i16'', Hash HashBHP1024 (T_Integer I16)),
      (''_bhp1024_hash_to_i32'', Hash HashBHP1024 (T_Integer I32)),
      (''_bhp1024_hash_to_i64'', Hash HashBHP1024 (T_Integer I64)),
      (''_bhp1024_hash_to_i128'', Hash HashBHP1024 (T_Integer I128)),
      (''_bhp1024_hash_to_u8'', Hash HashBHP1024 (T_Integer U8)),
      (''_bhp1024_hash_to_u16'', Hash HashBHP1024 (T_Integer U16)),
      (''_bhp1024_hash_to_u32'', Hash HashBHP1024 (T_Integer U32)),
      (''_bhp1024_hash_to_u64'', Hash HashBHP1024 (T_Integer U64)),
      (''_bhp1024_hash_to_u128'', Hash HashBHP1024 (T_Integer U128)),
      (''_bhp1024_hash_to_scalar'', Hash HashBHP1024 T_Scalar),
      (''_bhp1024_hash_to_address_raw'', Hash HashBHP1024Raw T_Address),
      (''_bhp1024_hash_to_field_raw'', Hash HashBHP1024Raw T_Field),
      (''_bhp1024_hash_to_group_raw'', Hash HashBHP1024Raw T_Group),
      (''_bhp1024_hash_to_i8_raw'', Hash HashBHP1024Raw (T_Integer I8)),
      (''_bhp1024_hash_to_i16_raw'', Hash HashBHP1024Raw (T_Integer I16)),
      (''_bhp1024_hash_to_i32_raw'', Hash HashBHP1024Raw (T_Integer I32)),
      (''_bhp1024_hash_to_i64_raw'', Hash HashBHP1024Raw (T_Integer I64)),
      (''_bhp1024_hash_to_i128_raw'', Hash HashBHP1024Raw (T_Integer I128)),
      (''_bhp1024_hash_to_u8_raw'', Hash HashBHP1024Raw (T_Integer U8)),
      (''_bhp1024_hash_to_u16_raw'', Hash HashBHP1024Raw (T_Integer U16)),
      (''_bhp1024_hash_to_u32_raw'', Hash HashBHP1024Raw (T_Integer U32)),
      (''_bhp1024_hash_to_u64_raw'', Hash HashBHP1024Raw (T_Integer U64)),
      (''_bhp1024_hash_to_u128_raw'', Hash HashBHP1024Raw (T_Integer U128)),
      (''_bhp1024_hash_to_scalar_raw'', Hash HashBHP1024Raw T_Scalar),
      (''_keccak256_hash_to_address'', Hash HashKeccak256 T_Address),
      (''_keccak256_hash_to_field'', Hash HashKeccak256 T_Field),
      (''_keccak256_hash_to_group'', Hash HashKeccak256 T_Group),
      (''_keccak256_hash_to_i8'', Hash HashKeccak256 (T_Integer I8)),
      (''_keccak256_hash_to_i16'', Hash HashKeccak256 (T_Integer I16)),
      (''_keccak256_hash_to_i32'', Hash HashKeccak256 (T_Integer I32)),
      (''_keccak256_hash_to_i64'', Hash HashKeccak256 (T_Integer I64)),
      (''_keccak256_hash_to_i128'', Hash HashKeccak256 (T_Integer I128)),
      (''_keccak256_hash_to_u8'', Hash HashKeccak256 (T_Integer U8)),
      (''_keccak256_hash_to_u16'', Hash HashKeccak256 (T_Integer U16)),
      (''_keccak256_hash_to_u32'', Hash HashKeccak256 (T_Integer U32)),
      (''_keccak256_hash_to_u64'', Hash HashKeccak256 (T_Integer U64)),
      (''_keccak256_hash_to_u128'', Hash HashKeccak256 (T_Integer U128)),
      (''_keccak256_hash_to_scalar'', Hash HashKeccak256 T_Scalar),
      (''_keccak256_hash_to_address_raw'', Hash HashKeccak256Raw T_Address),
      (''_keccak256_hash_to_field_raw'', Hash HashKeccak256Raw T_Field),
      (''_keccak256_hash_to_group_raw'', Hash HashKeccak256Raw T_Group),
      (''_keccak256_hash_to_i8_raw'', Hash HashKeccak256Raw (T_Integer I8)),
      (''_keccak256_hash_to_i16_raw'', Hash HashKeccak256Raw (T_Integer I16)),
      (''_keccak256_hash_to_i32_raw'', Hash HashKeccak256Raw (T_Integer I32)),
      (''_keccak256_hash_to_i64_raw'', Hash HashKeccak256Raw (T_Integer I64)),
      (''_keccak256_hash_to_i128_raw'', Hash HashKeccak256Raw (T_Integer I128)),
      (''_keccak256_hash_to_u8_raw'', Hash HashKeccak256Raw (T_Integer U8)),
      (''_keccak256_hash_to_u16_raw'', Hash HashKeccak256Raw (T_Integer U16)),
      (''_keccak256_hash_to_u32_raw'', Hash HashKeccak256Raw (T_Integer U32)),
      (''_keccak256_hash_to_u64_raw'', Hash HashKeccak256Raw (T_Integer U64)),
      (''_keccak256_hash_to_u128_raw'', Hash HashKeccak256Raw (T_Integer U128)),
      (''_keccak256_hash_to_scalar_raw'', Hash HashKeccak256Raw T_Scalar),
      (''_keccak256_hash_to_bits'', Hash HashKeccak256Native (T_Array T_Boolean (bit_length 256))),
      (''_keccak256_hash_to_bits_raw'', Hash HashKeccak256NativeRaw (T_Array T_Boolean (bit_length 256))),
      (''_keccak384_hash_to_address'', Hash HashKeccak384 T_Address),
      (''_keccak384_hash_to_field'', Hash HashKeccak384 T_Field),
      (''_keccak384_hash_to_group'', Hash HashKeccak384 T_Group),
      (''_keccak384_hash_to_i8'', Hash HashKeccak384 (T_Integer I8)),
      (''_keccak384_hash_to_i16'', Hash HashKeccak384 (T_Integer I16)),
      (''_keccak384_hash_to_i32'', Hash HashKeccak384 (T_Integer I32)),
      (''_keccak384_hash_to_i64'', Hash HashKeccak384 (T_Integer I64)),
      (''_keccak384_hash_to_i128'', Hash HashKeccak384 (T_Integer I128)),
      (''_keccak384_hash_to_u8'', Hash HashKeccak384 (T_Integer U8)),
      (''_keccak384_hash_to_u16'', Hash HashKeccak384 (T_Integer U16)),
      (''_keccak384_hash_to_u32'', Hash HashKeccak384 (T_Integer U32)),
      (''_keccak384_hash_to_u64'', Hash HashKeccak384 (T_Integer U64)),
      (''_keccak384_hash_to_u128'', Hash HashKeccak384 (T_Integer U128)),
      (''_keccak384_hash_to_scalar'', Hash HashKeccak384 T_Scalar),
      (''_keccak384_hash_to_address_raw'', Hash HashKeccak384Raw T_Address),
      (''_keccak384_hash_to_field_raw'', Hash HashKeccak384Raw T_Field),
      (''_keccak384_hash_to_group_raw'', Hash HashKeccak384Raw T_Group),
      (''_keccak384_hash_to_i8_raw'', Hash HashKeccak384Raw (T_Integer I8)),
      (''_keccak384_hash_to_i16_raw'', Hash HashKeccak384Raw (T_Integer I16)),
      (''_keccak384_hash_to_i32_raw'', Hash HashKeccak384Raw (T_Integer I32)),
      (''_keccak384_hash_to_i64_raw'', Hash HashKeccak384Raw (T_Integer I64)),
      (''_keccak384_hash_to_i128_raw'', Hash HashKeccak384Raw (T_Integer I128)),
      (''_keccak384_hash_to_u8_raw'', Hash HashKeccak384Raw (T_Integer U8)),
      (''_keccak384_hash_to_u16_raw'', Hash HashKeccak384Raw (T_Integer U16)),
      (''_keccak384_hash_to_u32_raw'', Hash HashKeccak384Raw (T_Integer U32)),
      (''_keccak384_hash_to_u64_raw'', Hash HashKeccak384Raw (T_Integer U64)),
      (''_keccak384_hash_to_u128_raw'', Hash HashKeccak384Raw (T_Integer U128)),
      (''_keccak384_hash_to_scalar_raw'', Hash HashKeccak384Raw T_Scalar),
      (''_keccak384_hash_to_bits'', Hash HashKeccak384Native (T_Array T_Boolean (bit_length 384))),
      (''_keccak384_hash_to_bits_raw'', Hash HashKeccak384NativeRaw (T_Array T_Boolean (bit_length 384))),
      (''_keccak512_hash_to_address'', Hash HashKeccak512 T_Address),
      (''_keccak512_hash_to_field'', Hash HashKeccak512 T_Field),
      (''_keccak512_hash_to_group'', Hash HashKeccak512 T_Group),
      (''_keccak512_hash_to_i8'', Hash HashKeccak512 (T_Integer I8)),
      (''_keccak512_hash_to_i16'', Hash HashKeccak512 (T_Integer I16)),
      (''_keccak512_hash_to_i32'', Hash HashKeccak512 (T_Integer I32)),
      (''_keccak512_hash_to_i64'', Hash HashKeccak512 (T_Integer I64)),
      (''_keccak512_hash_to_i128'', Hash HashKeccak512 (T_Integer I128)),
      (''_keccak512_hash_to_u8'', Hash HashKeccak512 (T_Integer U8)),
      (''_keccak512_hash_to_u16'', Hash HashKeccak512 (T_Integer U16)),
      (''_keccak512_hash_to_u32'', Hash HashKeccak512 (T_Integer U32)),
      (''_keccak512_hash_to_u64'', Hash HashKeccak512 (T_Integer U64)),
      (''_keccak512_hash_to_u128'', Hash HashKeccak512 (T_Integer U128)),
      (''_keccak512_hash_to_scalar'', Hash HashKeccak512 T_Scalar),
      (''_keccak512_hash_to_address_raw'', Hash HashKeccak512Raw T_Address),
      (''_keccak512_hash_to_field_raw'', Hash HashKeccak512Raw T_Field),
      (''_keccak512_hash_to_group_raw'', Hash HashKeccak512Raw T_Group),
      (''_keccak512_hash_to_i8_raw'', Hash HashKeccak512Raw (T_Integer I8)),
      (''_keccak512_hash_to_i16_raw'', Hash HashKeccak512Raw (T_Integer I16)),
      (''_keccak512_hash_to_i32_raw'', Hash HashKeccak512Raw (T_Integer I32)),
      (''_keccak512_hash_to_i64_raw'', Hash HashKeccak512Raw (T_Integer I64)),
      (''_keccak512_hash_to_i128_raw'', Hash HashKeccak512Raw (T_Integer I128)),
      (''_keccak512_hash_to_u8_raw'', Hash HashKeccak512Raw (T_Integer U8)),
      (''_keccak512_hash_to_u16_raw'', Hash HashKeccak512Raw (T_Integer U16)),
      (''_keccak512_hash_to_u32_raw'', Hash HashKeccak512Raw (T_Integer U32)),
      (''_keccak512_hash_to_u64_raw'', Hash HashKeccak512Raw (T_Integer U64)),
      (''_keccak512_hash_to_u128_raw'', Hash HashKeccak512Raw (T_Integer U128)),
      (''_keccak512_hash_to_scalar_raw'', Hash HashKeccak512Raw T_Scalar),
      (''_keccak512_hash_to_bits'', Hash HashKeccak512Native (T_Array T_Boolean (bit_length 512))),
      (''_keccak512_hash_to_bits_raw'', Hash HashKeccak512NativeRaw (T_Array T_Boolean (bit_length 512))),
      (''_pedersen64_hash_to_address'', Hash HashPED64 T_Address),
      (''_pedersen64_hash_to_field'', Hash HashPED64 T_Field),
      (''_pedersen64_hash_to_group'', Hash HashPED64 T_Group),
      (''_pedersen64_hash_to_i8'', Hash HashPED64 (T_Integer I8)),
      (''_pedersen64_hash_to_i16'', Hash HashPED64 (T_Integer I16)),
      (''_pedersen64_hash_to_i32'', Hash HashPED64 (T_Integer I32)),
      (''_pedersen64_hash_to_i64'', Hash HashPED64 (T_Integer I64)),
      (''_pedersen64_hash_to_i128'', Hash HashPED64 (T_Integer I128)),
      (''_pedersen64_hash_to_u8'', Hash HashPED64 (T_Integer U8)),
      (''_pedersen64_hash_to_u16'', Hash HashPED64 (T_Integer U16)),
      (''_pedersen64_hash_to_u32'', Hash HashPED64 (T_Integer U32)),
      (''_pedersen64_hash_to_u64'', Hash HashPED64 (T_Integer U64)),
      (''_pedersen64_hash_to_u128'', Hash HashPED64 (T_Integer U128)),
      (''_pedersen64_hash_to_scalar'', Hash HashPED64 T_Scalar),
      (''_pedersen64_hash_to_address_raw'', Hash HashPED64Raw T_Address),
      (''_pedersen64_hash_to_field_raw'', Hash HashPED64Raw T_Field),
      (''_pedersen64_hash_to_group_raw'', Hash HashPED64Raw T_Group),
      (''_pedersen64_hash_to_i8_raw'', Hash HashPED64Raw (T_Integer I8)),
      (''_pedersen64_hash_to_i16_raw'', Hash HashPED64Raw (T_Integer I16)),
      (''_pedersen64_hash_to_i32_raw'', Hash HashPED64Raw (T_Integer I32)),
      (''_pedersen64_hash_to_i64_raw'', Hash HashPED64Raw (T_Integer I64)),
      (''_pedersen64_hash_to_i128_raw'', Hash HashPED64Raw (T_Integer I128)),
      (''_pedersen64_hash_to_u8_raw'', Hash HashPED64Raw (T_Integer U8)),
      (''_pedersen64_hash_to_u16_raw'', Hash HashPED64Raw (T_Integer U16)),
      (''_pedersen64_hash_to_u32_raw'', Hash HashPED64Raw (T_Integer U32)),
      (''_pedersen64_hash_to_u64_raw'', Hash HashPED64Raw (T_Integer U64)),
      (''_pedersen64_hash_to_u128_raw'', Hash HashPED64Raw (T_Integer U128)),
      (''_pedersen64_hash_to_scalar_raw'', Hash HashPED64Raw T_Scalar),
      (''_pedersen128_hash_to_address'', Hash HashPED128 T_Address)]"

definition intrinsic_symbols_3 :: "(symbol \<times> intrinsic) list" where
  "intrinsic_symbols_3 =
     [(''_pedersen128_hash_to_field'', Hash HashPED128 T_Field),
      (''_pedersen128_hash_to_group'', Hash HashPED128 T_Group),
      (''_pedersen128_hash_to_i8'', Hash HashPED128 (T_Integer I8)),
      (''_pedersen128_hash_to_i16'', Hash HashPED128 (T_Integer I16)),
      (''_pedersen128_hash_to_i32'', Hash HashPED128 (T_Integer I32)),
      (''_pedersen128_hash_to_i64'', Hash HashPED128 (T_Integer I64)),
      (''_pedersen128_hash_to_i128'', Hash HashPED128 (T_Integer I128)),
      (''_pedersen128_hash_to_u8'', Hash HashPED128 (T_Integer U8)),
      (''_pedersen128_hash_to_u16'', Hash HashPED128 (T_Integer U16)),
      (''_pedersen128_hash_to_u32'', Hash HashPED128 (T_Integer U32)),
      (''_pedersen128_hash_to_u64'', Hash HashPED128 (T_Integer U64)),
      (''_pedersen128_hash_to_u128'', Hash HashPED128 (T_Integer U128)),
      (''_pedersen128_hash_to_scalar'', Hash HashPED128 T_Scalar),
      (''_pedersen128_hash_to_address_raw'', Hash HashPED128Raw T_Address),
      (''_pedersen128_hash_to_field_raw'', Hash HashPED128Raw T_Field),
      (''_pedersen128_hash_to_group_raw'', Hash HashPED128Raw T_Group),
      (''_pedersen128_hash_to_i8_raw'', Hash HashPED128Raw (T_Integer I8)),
      (''_pedersen128_hash_to_i16_raw'', Hash HashPED128Raw (T_Integer I16)),
      (''_pedersen128_hash_to_i32_raw'', Hash HashPED128Raw (T_Integer I32)),
      (''_pedersen128_hash_to_i64_raw'', Hash HashPED128Raw (T_Integer I64)),
      (''_pedersen128_hash_to_i128_raw'', Hash HashPED128Raw (T_Integer I128)),
      (''_pedersen128_hash_to_u8_raw'', Hash HashPED128Raw (T_Integer U8)),
      (''_pedersen128_hash_to_u16_raw'', Hash HashPED128Raw (T_Integer U16)),
      (''_pedersen128_hash_to_u32_raw'', Hash HashPED128Raw (T_Integer U32)),
      (''_pedersen128_hash_to_u64_raw'', Hash HashPED128Raw (T_Integer U64)),
      (''_pedersen128_hash_to_u128_raw'', Hash HashPED128Raw (T_Integer U128)),
      (''_pedersen128_hash_to_scalar_raw'', Hash HashPED128Raw T_Scalar),
      (''_poseidon2_hash_to_address'', Hash HashPSD2 T_Address),
      (''_poseidon2_hash_to_field'', Hash HashPSD2 T_Field),
      (''_poseidon2_hash_to_group'', Hash HashPSD2 T_Group),
      (''_poseidon2_hash_to_i8'', Hash HashPSD2 (T_Integer I8)),
      (''_poseidon2_hash_to_i16'', Hash HashPSD2 (T_Integer I16)),
      (''_poseidon2_hash_to_i32'', Hash HashPSD2 (T_Integer I32)),
      (''_poseidon2_hash_to_i64'', Hash HashPSD2 (T_Integer I64)),
      (''_poseidon2_hash_to_i128'', Hash HashPSD2 (T_Integer I128)),
      (''_poseidon2_hash_to_u8'', Hash HashPSD2 (T_Integer U8)),
      (''_poseidon2_hash_to_u16'', Hash HashPSD2 (T_Integer U16)),
      (''_poseidon2_hash_to_u32'', Hash HashPSD2 (T_Integer U32)),
      (''_poseidon2_hash_to_u64'', Hash HashPSD2 (T_Integer U64)),
      (''_poseidon2_hash_to_u128'', Hash HashPSD2 (T_Integer U128)),
      (''_poseidon2_hash_to_scalar'', Hash HashPSD2 T_Scalar),
      (''_poseidon2_hash_to_address_raw'', Hash HashPSD2Raw T_Address),
      (''_poseidon2_hash_to_field_raw'', Hash HashPSD2Raw T_Field),
      (''_poseidon2_hash_to_group_raw'', Hash HashPSD2Raw T_Group),
      (''_poseidon2_hash_to_i8_raw'', Hash HashPSD2Raw (T_Integer I8)),
      (''_poseidon2_hash_to_i16_raw'', Hash HashPSD2Raw (T_Integer I16)),
      (''_poseidon2_hash_to_i32_raw'', Hash HashPSD2Raw (T_Integer I32)),
      (''_poseidon2_hash_to_i64_raw'', Hash HashPSD2Raw (T_Integer I64)),
      (''_poseidon2_hash_to_i128_raw'', Hash HashPSD2Raw (T_Integer I128)),
      (''_poseidon2_hash_to_u8_raw'', Hash HashPSD2Raw (T_Integer U8)),
      (''_poseidon2_hash_to_u16_raw'', Hash HashPSD2Raw (T_Integer U16)),
      (''_poseidon2_hash_to_u32_raw'', Hash HashPSD2Raw (T_Integer U32)),
      (''_poseidon2_hash_to_u64_raw'', Hash HashPSD2Raw (T_Integer U64)),
      (''_poseidon2_hash_to_u128_raw'', Hash HashPSD2Raw (T_Integer U128)),
      (''_poseidon2_hash_to_scalar_raw'', Hash HashPSD2Raw T_Scalar),
      (''_poseidon4_hash_to_address'', Hash HashPSD4 T_Address),
      (''_poseidon4_hash_to_field'', Hash HashPSD4 T_Field),
      (''_poseidon4_hash_to_group'', Hash HashPSD4 T_Group),
      (''_poseidon4_hash_to_i8'', Hash HashPSD4 (T_Integer I8)),
      (''_poseidon4_hash_to_i16'', Hash HashPSD4 (T_Integer I16)),
      (''_poseidon4_hash_to_i32'', Hash HashPSD4 (T_Integer I32)),
      (''_poseidon4_hash_to_i64'', Hash HashPSD4 (T_Integer I64)),
      (''_poseidon4_hash_to_i128'', Hash HashPSD4 (T_Integer I128)),
      (''_poseidon4_hash_to_u8'', Hash HashPSD4 (T_Integer U8)),
      (''_poseidon4_hash_to_u16'', Hash HashPSD4 (T_Integer U16)),
      (''_poseidon4_hash_to_u32'', Hash HashPSD4 (T_Integer U32)),
      (''_poseidon4_hash_to_u64'', Hash HashPSD4 (T_Integer U64)),
      (''_poseidon4_hash_to_u128'', Hash HashPSD4 (T_Integer U128)),
      (''_poseidon4_hash_to_scalar'', Hash HashPSD4 T_Scalar),
      (''_poseidon4_hash_to_address_raw'', Hash HashPSD4Raw T_Address),
      (''_poseidon4_hash_to_field_raw'', Hash HashPSD4Raw T_Field),
      (''_poseidon4_hash_to_group_raw'', Hash HashPSD4Raw T_Group),
      (''_poseidon4_hash_to_i8_raw'', Hash HashPSD4Raw (T_Integer I8)),
      (''_poseidon4_hash_to_i16_raw'', Hash HashPSD4Raw (T_Integer I16)),
      (''_poseidon4_hash_to_i32_raw'', Hash HashPSD4Raw (T_Integer I32)),
      (''_poseidon4_hash_to_i64_raw'', Hash HashPSD4Raw (T_Integer I64)),
      (''_poseidon4_hash_to_i128_raw'', Hash HashPSD4Raw (T_Integer I128)),
      (''_poseidon4_hash_to_u8_raw'', Hash HashPSD4Raw (T_Integer U8)),
      (''_poseidon4_hash_to_u16_raw'', Hash HashPSD4Raw (T_Integer U16)),
      (''_poseidon4_hash_to_u32_raw'', Hash HashPSD4Raw (T_Integer U32)),
      (''_poseidon4_hash_to_u64_raw'', Hash HashPSD4Raw (T_Integer U64)),
      (''_poseidon4_hash_to_u128_raw'', Hash HashPSD4Raw (T_Integer U128)),
      (''_poseidon4_hash_to_scalar_raw'', Hash HashPSD4Raw T_Scalar),
      (''_poseidon8_hash_to_address'', Hash HashPSD8 T_Address),
      (''_poseidon8_hash_to_field'', Hash HashPSD8 T_Field),
      (''_poseidon8_hash_to_group'', Hash HashPSD8 T_Group),
      (''_poseidon8_hash_to_i8'', Hash HashPSD8 (T_Integer I8)),
      (''_poseidon8_hash_to_i16'', Hash HashPSD8 (T_Integer I16)),
      (''_poseidon8_hash_to_i32'', Hash HashPSD8 (T_Integer I32)),
      (''_poseidon8_hash_to_i64'', Hash HashPSD8 (T_Integer I64)),
      (''_poseidon8_hash_to_i128'', Hash HashPSD8 (T_Integer I128)),
      (''_poseidon8_hash_to_u8'', Hash HashPSD8 (T_Integer U8)),
      (''_poseidon8_hash_to_u16'', Hash HashPSD8 (T_Integer U16)),
      (''_poseidon8_hash_to_u32'', Hash HashPSD8 (T_Integer U32)),
      (''_poseidon8_hash_to_u64'', Hash HashPSD8 (T_Integer U64)),
      (''_poseidon8_hash_to_u128'', Hash HashPSD8 (T_Integer U128)),
      (''_poseidon8_hash_to_scalar'', Hash HashPSD8 T_Scalar),
      (''_poseidon8_hash_to_address_raw'', Hash HashPSD8Raw T_Address),
      (''_poseidon8_hash_to_field_raw'', Hash HashPSD8Raw T_Field),
      (''_poseidon8_hash_to_group_raw'', Hash HashPSD8Raw T_Group),
      (''_poseidon8_hash_to_i8_raw'', Hash HashPSD8Raw (T_Integer I8)),
      (''_poseidon8_hash_to_i16_raw'', Hash HashPSD8Raw (T_Integer I16)),
      (''_poseidon8_hash_to_i32_raw'', Hash HashPSD8Raw (T_Integer I32)),
      (''_poseidon8_hash_to_i64_raw'', Hash HashPSD8Raw (T_Integer I64)),
      (''_poseidon8_hash_to_i128_raw'', Hash HashPSD8Raw (T_Integer I128)),
      (''_poseidon8_hash_to_u8_raw'', Hash HashPSD8Raw (T_Integer U8)),
      (''_poseidon8_hash_to_u16_raw'', Hash HashPSD8Raw (T_Integer U16)),
      (''_poseidon8_hash_to_u32_raw'', Hash HashPSD8Raw (T_Integer U32)),
      (''_poseidon8_hash_to_u64_raw'', Hash HashPSD8Raw (T_Integer U64)),
      (''_poseidon8_hash_to_u128_raw'', Hash HashPSD8Raw (T_Integer U128)),
      (''_poseidon8_hash_to_scalar_raw'', Hash HashPSD8Raw T_Scalar),
      (''_sha3_256_hash_to_address'', Hash HashSha3_256 T_Address),
      (''_sha3_256_hash_to_field'', Hash HashSha3_256 T_Field),
      (''_sha3_256_hash_to_group'', Hash HashSha3_256 T_Group),
      (''_sha3_256_hash_to_i8'', Hash HashSha3_256 (T_Integer I8)),
      (''_sha3_256_hash_to_i16'', Hash HashSha3_256 (T_Integer I16)),
      (''_sha3_256_hash_to_i32'', Hash HashSha3_256 (T_Integer I32)),
      (''_sha3_256_hash_to_i64'', Hash HashSha3_256 (T_Integer I64)),
      (''_sha3_256_hash_to_i128'', Hash HashSha3_256 (T_Integer I128)),
      (''_sha3_256_hash_to_u8'', Hash HashSha3_256 (T_Integer U8)),
      (''_sha3_256_hash_to_u16'', Hash HashSha3_256 (T_Integer U16)),
      (''_sha3_256_hash_to_u32'', Hash HashSha3_256 (T_Integer U32)),
      (''_sha3_256_hash_to_u64'', Hash HashSha3_256 (T_Integer U64)),
      (''_sha3_256_hash_to_u128'', Hash HashSha3_256 (T_Integer U128)),
      (''_sha3_256_hash_to_scalar'', Hash HashSha3_256 T_Scalar),
      (''_sha3_256_hash_to_address_raw'', Hash HashSha3_256Raw T_Address),
      (''_sha3_256_hash_to_field_raw'', Hash HashSha3_256Raw T_Field),
      (''_sha3_256_hash_to_group_raw'', Hash HashSha3_256Raw T_Group),
      (''_sha3_256_hash_to_i8_raw'', Hash HashSha3_256Raw (T_Integer I8)),
      (''_sha3_256_hash_to_i16_raw'', Hash HashSha3_256Raw (T_Integer I16)),
      (''_sha3_256_hash_to_i32_raw'', Hash HashSha3_256Raw (T_Integer I32)),
      (''_sha3_256_hash_to_i64_raw'', Hash HashSha3_256Raw (T_Integer I64)),
      (''_sha3_256_hash_to_i128_raw'', Hash HashSha3_256Raw (T_Integer I128)),
      (''_sha3_256_hash_to_u8_raw'', Hash HashSha3_256Raw (T_Integer U8)),
      (''_sha3_256_hash_to_u16_raw'', Hash HashSha3_256Raw (T_Integer U16)),
      (''_sha3_256_hash_to_u32_raw'', Hash HashSha3_256Raw (T_Integer U32)),
      (''_sha3_256_hash_to_u64_raw'', Hash HashSha3_256Raw (T_Integer U64)),
      (''_sha3_256_hash_to_u128_raw'', Hash HashSha3_256Raw (T_Integer U128)),
      (''_sha3_256_hash_to_scalar_raw'', Hash HashSha3_256Raw T_Scalar),
      (''_sha3_256_hash_to_bits'', Hash HashSha3_256Native (T_Array T_Boolean (bit_length 256))),
      (''_sha3_256_hash_to_bits_raw'', Hash HashSha3_256NativeRaw (T_Array T_Boolean (bit_length 256))),
      (''_sha3_384_hash_to_address'', Hash HashSha3_384 T_Address),
      (''_sha3_384_hash_to_field'', Hash HashSha3_384 T_Field)]"

definition intrinsic_symbols_4 :: "(symbol \<times> intrinsic) list" where
  "intrinsic_symbols_4 =
     [(''_sha3_384_hash_to_group'', Hash HashSha3_384 T_Group),
      (''_sha3_384_hash_to_i8'', Hash HashSha3_384 (T_Integer I8)),
      (''_sha3_384_hash_to_i16'', Hash HashSha3_384 (T_Integer I16)),
      (''_sha3_384_hash_to_i32'', Hash HashSha3_384 (T_Integer I32)),
      (''_sha3_384_hash_to_i64'', Hash HashSha3_384 (T_Integer I64)),
      (''_sha3_384_hash_to_i128'', Hash HashSha3_384 (T_Integer I128)),
      (''_sha3_384_hash_to_u8'', Hash HashSha3_384 (T_Integer U8)),
      (''_sha3_384_hash_to_u16'', Hash HashSha3_384 (T_Integer U16)),
      (''_sha3_384_hash_to_u32'', Hash HashSha3_384 (T_Integer U32)),
      (''_sha3_384_hash_to_u64'', Hash HashSha3_384 (T_Integer U64)),
      (''_sha3_384_hash_to_u128'', Hash HashSha3_384 (T_Integer U128)),
      (''_sha3_384_hash_to_scalar'', Hash HashSha3_384 T_Scalar),
      (''_sha3_384_hash_to_address_raw'', Hash HashSha3_384Raw T_Address),
      (''_sha3_384_hash_to_field_raw'', Hash HashSha3_384Raw T_Field),
      (''_sha3_384_hash_to_group_raw'', Hash HashSha3_384Raw T_Group),
      (''_sha3_384_hash_to_i8_raw'', Hash HashSha3_384Raw (T_Integer I8)),
      (''_sha3_384_hash_to_i16_raw'', Hash HashSha3_384Raw (T_Integer I16)),
      (''_sha3_384_hash_to_i32_raw'', Hash HashSha3_384Raw (T_Integer I32)),
      (''_sha3_384_hash_to_i64_raw'', Hash HashSha3_384Raw (T_Integer I64)),
      (''_sha3_384_hash_to_i128_raw'', Hash HashSha3_384Raw (T_Integer I128)),
      (''_sha3_384_hash_to_u8_raw'', Hash HashSha3_384Raw (T_Integer U8)),
      (''_sha3_384_hash_to_u16_raw'', Hash HashSha3_384Raw (T_Integer U16)),
      (''_sha3_384_hash_to_u32_raw'', Hash HashSha3_384Raw (T_Integer U32)),
      (''_sha3_384_hash_to_u64_raw'', Hash HashSha3_384Raw (T_Integer U64)),
      (''_sha3_384_hash_to_u128_raw'', Hash HashSha3_384Raw (T_Integer U128)),
      (''_sha3_384_hash_to_scalar_raw'', Hash HashSha3_384Raw T_Scalar),
      (''_sha3_384_hash_to_bits'', Hash HashSha3_384Native (T_Array T_Boolean (bit_length 384))),
      (''_sha3_384_hash_to_bits_raw'', Hash HashSha3_384NativeRaw (T_Array T_Boolean (bit_length 384))),
      (''_sha3_512_hash_to_address'', Hash HashSha3_512 T_Address),
      (''_sha3_512_hash_to_field'', Hash HashSha3_512 T_Field),
      (''_sha3_512_hash_to_group'', Hash HashSha3_512 T_Group),
      (''_sha3_512_hash_to_i8'', Hash HashSha3_512 (T_Integer I8)),
      (''_sha3_512_hash_to_i16'', Hash HashSha3_512 (T_Integer I16)),
      (''_sha3_512_hash_to_i32'', Hash HashSha3_512 (T_Integer I32)),
      (''_sha3_512_hash_to_i64'', Hash HashSha3_512 (T_Integer I64)),
      (''_sha3_512_hash_to_i128'', Hash HashSha3_512 (T_Integer I128)),
      (''_sha3_512_hash_to_u8'', Hash HashSha3_512 (T_Integer U8)),
      (''_sha3_512_hash_to_u16'', Hash HashSha3_512 (T_Integer U16)),
      (''_sha3_512_hash_to_u32'', Hash HashSha3_512 (T_Integer U32)),
      (''_sha3_512_hash_to_u64'', Hash HashSha3_512 (T_Integer U64)),
      (''_sha3_512_hash_to_u128'', Hash HashSha3_512 (T_Integer U128)),
      (''_sha3_512_hash_to_scalar'', Hash HashSha3_512 T_Scalar),
      (''_sha3_512_hash_to_address_raw'', Hash HashSha3_512Raw T_Address),
      (''_sha3_512_hash_to_field_raw'', Hash HashSha3_512Raw T_Field),
      (''_sha3_512_hash_to_group_raw'', Hash HashSha3_512Raw T_Group),
      (''_sha3_512_hash_to_i8_raw'', Hash HashSha3_512Raw (T_Integer I8)),
      (''_sha3_512_hash_to_i16_raw'', Hash HashSha3_512Raw (T_Integer I16)),
      (''_sha3_512_hash_to_i32_raw'', Hash HashSha3_512Raw (T_Integer I32)),
      (''_sha3_512_hash_to_i64_raw'', Hash HashSha3_512Raw (T_Integer I64)),
      (''_sha3_512_hash_to_i128_raw'', Hash HashSha3_512Raw (T_Integer I128)),
      (''_sha3_512_hash_to_u8_raw'', Hash HashSha3_512Raw (T_Integer U8)),
      (''_sha3_512_hash_to_u16_raw'', Hash HashSha3_512Raw (T_Integer U16)),
      (''_sha3_512_hash_to_u32_raw'', Hash HashSha3_512Raw (T_Integer U32)),
      (''_sha3_512_hash_to_u64_raw'', Hash HashSha3_512Raw (T_Integer U64)),
      (''_sha3_512_hash_to_u128_raw'', Hash HashSha3_512Raw (T_Integer U128)),
      (''_sha3_512_hash_to_scalar_raw'', Hash HashSha3_512Raw T_Scalar),
      (''_sha3_512_hash_to_bits'', Hash HashSha3_512Native (T_Array T_Boolean (bit_length 512))),
      (''_sha3_512_hash_to_bits_raw'', Hash HashSha3_512NativeRaw (T_Array T_Boolean (bit_length 512))),
      (''_ecdsa_verify_digest'', ECDSAVerify ECDSA_Digest),
      (''_ecdsa_verify_digest_eth'', ECDSAVerify ECDSA_DigestEth),
      (''_ecdsa_verify_keccak256'', ECDSAVerify ECDSA_HashKeccak256),
      (''_ecdsa_verify_keccak256_raw'', ECDSAVerify ECDSA_HashKeccak256Raw),
      (''_ecdsa_verify_keccak256_eth'', ECDSAVerify ECDSA_HashKeccak256Eth),
      (''_ecdsa_verify_keccak384'', ECDSAVerify ECDSA_HashKeccak384),
      (''_ecdsa_verify_keccak384_raw'', ECDSAVerify ECDSA_HashKeccak384Raw),
      (''_ecdsa_verify_keccak384_eth'', ECDSAVerify ECDSA_HashKeccak384Eth),
      (''_ecdsa_verify_keccak512'', ECDSAVerify ECDSA_HashKeccak512),
      (''_ecdsa_verify_keccak512_raw'', ECDSAVerify ECDSA_HashKeccak512Raw),
      (''_ecdsa_verify_keccak512_eth'', ECDSAVerify ECDSA_HashKeccak512Eth),
      (''_ecdsa_verify_sha3_256'', ECDSAVerify ECDSA_HashSha3_256),
      (''_ecdsa_verify_sha3_256_raw'', ECDSAVerify ECDSA_HashSha3_256Raw),
      (''_ecdsa_verify_sha3_256_eth'', ECDSAVerify ECDSA_HashSha3_256Eth),
      (''_ecdsa_verify_sha3_384'', ECDSAVerify ECDSA_HashSha3_384),
      (''_ecdsa_verify_sha3_384_raw'', ECDSAVerify ECDSA_HashSha3_384Raw),
      (''_ecdsa_verify_sha3_384_eth'', ECDSAVerify ECDSA_HashSha3_384Eth),
      (''_ecdsa_verify_sha3_512'', ECDSAVerify ECDSA_HashSha3_512),
      (''_ecdsa_verify_sha3_512_raw'', ECDSAVerify ECDSA_HashSha3_512Raw),
      (''_ecdsa_verify_sha3_512_eth'', ECDSAVerify ECDSA_HashSha3_512Eth),
      (''_mapping_get'', MappingGet),
      (''_mapping_set'', MappingSet),
      (''_mapping_get_or_use'', MappingGetOrUse),
      (''_mapping_remove'', MappingRemove),
      (''_mapping_contains'', MappingContains),
      (''_optional_unwrap'', OptionalUnwrap),
      (''_optional_unwrap_or'', OptionalUnwrapOr),
      (''_vector_get'', VectorGet),
      (''_vector_set'', VectorSet),
      (''_vector_push'', VectorPush),
      (''_vector_len'', VectorLen),
      (''_vector_clear'', VectorClear),
      (''_vector_pop'', VectorPop),
      (''_vector_swap_remove'', VectorSwapRemove),
      (''_group_to_x_coordinate'', GroupToXCoordinate),
      (''_group_to_y_coordinate'', GroupToYCoordinate),
      (''_program_checksum'', ProgramChecksum),
      (''_program_edition'', ProgramEdition),
      (''_program_owner'', ProgramOwner),
      (''_function_checksum'', FunctionChecksum),
      (''_signature_verify'', SignatureVerify),
      (''_snark_verify'', SnarkVerify),
      (''_snark_verify_batch'', SnarkVerifyBatch),
      (''_final_run'', FinalRun),
      (''_serialize_to_bits'', Serialize ToBits),
      (''_serialize_to_bits_raw'', Serialize ToBitsRaw),
      (''_dynamic_call'', DynamicCall),
      (''_dynamic_contains'', DynamicContains),
      (''_dynamic_get'', DynamicGet),
      (''_dynamic_get_or_use'', DynamicGetOrUse)]"

definition intrinsic_symbols :: "(symbol \<times> intrinsic) list" where
  "intrinsic_symbols = intrinsic_symbols_1 @ intrinsic_symbols_2 @ intrinsic_symbols_3 @ intrinsic_symbols_4"

definition first_type :: "leo_type list \<Rightarrow> leo_type" where
  "first_type tys = (case tys of [] \<Rightarrow> T_Err | t # _ \<Rightarrow> t)"

definition intrinsic_from_symbol :: "symbol \<Rightarrow> leo_type list \<Rightarrow> intrinsic option" where
  "intrinsic_from_symbol name type_parameters =
     (if name = ''_deserialize_from_bits''
      then Some (Deserialize FromBits (first_type type_parameters))
      else if name = ''_deserialize_from_bits_raw''
      then Some (Deserialize FromBitsRaw (first_type type_parameters))
      else map_of intrinsic_symbols name)"

definition path_symbols_1 :: "((symbol \<times> symbol) \<times> symbol) list" where
  "path_symbols_1 =
     [((''Deserialize'', ''from_bits''), ''_deserialize_from_bits''),
      ((''Deserialize'', ''from_bits_raw''), ''_deserialize_from_bits_raw''),
      ((''ChaCha'', ''rand_address''), ''_chacha_rand_address''),
      ((''ChaCha'', ''rand_bool''), ''_chacha_rand_bool''),
      ((''ChaCha'', ''rand_field''), ''_chacha_rand_field''),
      ((''ChaCha'', ''rand_group''), ''_chacha_rand_group''),
      ((''ChaCha'', ''rand_i8''), ''_chacha_rand_i8''),
      ((''ChaCha'', ''rand_i16''), ''_chacha_rand_i16''),
      ((''ChaCha'', ''rand_i32''), ''_chacha_rand_i32''),
      ((''ChaCha'', ''rand_i64''), ''_chacha_rand_i64''),
      ((''ChaCha'', ''rand_i128''), ''_chacha_rand_i128''),
      ((''ChaCha'', ''rand_u8''), ''_chacha_rand_u8''),
      ((''ChaCha'', ''rand_u16''), ''_chacha_rand_u16''),
      ((''ChaCha'', ''rand_u32''), ''_chacha_rand_u32''),
      ((''ChaCha'', ''rand_u64''), ''_chacha_rand_u64''),
      ((''ChaCha'', ''rand_u128''), ''_chacha_rand_u128''),
      ((''ChaCha'', ''rand_scalar''), ''_chacha_rand_scalar''),
      ((''BHP256'', ''commit_to_address''), ''_bhp256_commit_to_address''),
      ((''BHP256'', ''commit_to_field''), ''_bhp256_commit_to_field''),
      ((''BHP256'', ''commit_to_group''), ''_bhp256_commit_to_group''),
      ((''BHP512'', ''commit_to_address''), ''_bhp512_commit_to_address''),
      ((''BHP512'', ''commit_to_field''), ''_bhp512_commit_to_field''),
      ((''BHP512'', ''commit_to_group''), ''_bhp512_commit_to_group''),
      ((''BHP768'', ''commit_to_address''), ''_bhp768_commit_to_address''),
      ((''BHP768'', ''commit_to_field''), ''_bhp768_commit_to_field''),
      ((''BHP768'', ''commit_to_group''), ''_bhp768_commit_to_group''),
      ((''BHP1024'', ''commit_to_address''), ''_bhp1024_commit_to_address''),
      ((''BHP1024'', ''commit_to_field''), ''_bhp1024_commit_to_field''),
      ((''BHP1024'', ''commit_to_group''), ''_bhp1024_commit_to_group''),
      ((''Pedersen64'', ''commit_to_address''), ''_pedersen64_commit_to_address''),
      ((''Pedersen64'', ''commit_to_field''), ''_pedersen64_commit_to_field''),
      ((''Pedersen64'', ''commit_to_group''), ''_pedersen64_commit_to_group''),
      ((''Pedersen128'', ''commit_to_address''), ''_pedersen128_commit_to_address''),
      ((''Pedersen128'', ''commit_to_field''), ''_pedersen128_commit_to_field''),
      ((''Pedersen128'', ''commit_to_group''), ''_pedersen128_commit_to_group''),
      ((''BHP256'', ''hash_to_address''), ''_bhp256_hash_to_address''),
      ((''BHP256'', ''hash_to_field''), ''_bhp256_hash_to_field''),
      ((''BHP256'', ''hash_to_group''), ''_bhp256_hash_to_group''),
      ((''BHP256'', ''hash_to_i8''), ''_bhp256_hash_to_i8''),
      ((''BHP256'', ''hash_to_i16''), ''_bhp256_hash_to_i16''),
      ((''BHP256'', ''hash_to_i32''), ''_bhp256_hash_to_i32''),
      ((''BHP256'', ''hash_to_i64''), ''_bhp256_hash_to_i64''),
      ((''BHP256'', ''hash_to_i128''), ''_bhp256_hash_to_i128''),
      ((''BHP256'', ''hash_to_u8''), ''_bhp256_hash_to_u8''),
      ((''BHP256'', ''hash_to_u16''), ''_bhp256_hash_to_u16''),
      ((''BHP256'', ''hash_to_u32''), ''_bhp256_hash_to_u32''),
      ((''BHP256'', ''hash_to_u64''), ''_bhp256_hash_to_u64''),
      ((''BHP256'', ''hash_to_u128''), ''_bhp256_hash_to_u128''),
      ((''BHP256'', ''hash_to_scalar''), ''_bhp256_hash_to_scalar''),
      ((''BHP256'', ''hash_to_address_raw''), ''_bhp256_hash_to_address_raw''),
      ((''BHP256'', ''hash_to_field_raw''), ''_bhp256_hash_to_field_raw''),
      ((''BHP256'', ''hash_to_group_raw''), ''_bhp256_hash_to_group_raw''),
      ((''BHP256'', ''hash_to_i8_raw''), ''_bhp256_hash_to_i8_raw''),
      ((''BHP256'', ''hash_to_i16_raw''), ''_bhp256_hash_to_i16_raw''),
      ((''BHP256'', ''hash_to_i32_raw''), ''_bhp256_hash_to_i32_raw''),
      ((''BHP256'', ''hash_to_i64_raw''), ''_bhp256_hash_to_i64_raw''),
      ((''BHP256'', ''hash_to_i128_raw''), ''_bhp256_hash_to_i128_raw''),
      ((''BHP256'', ''hash_to_u8_raw''), ''_bhp256_hash_to_u8_raw''),
      ((''BHP256'', ''hash_to_u16_raw''), ''_bhp256_hash_to_u16_raw''),
      ((''BHP256'', ''hash_to_u32_raw''), ''_bhp256_hash_to_u32_raw''),
      ((''BHP256'', ''hash_to_u64_raw''), ''_bhp256_hash_to_u64_raw''),
      ((''BHP256'', ''hash_to_u128_raw''), ''_bhp256_hash_to_u128_raw''),
      ((''BHP256'', ''hash_to_scalar_raw''), ''_bhp256_hash_to_scalar_raw''),
      ((''BHP512'', ''hash_to_address''), ''_bhp512_hash_to_address''),
      ((''BHP512'', ''hash_to_field''), ''_bhp512_hash_to_field''),
      ((''BHP512'', ''hash_to_group''), ''_bhp512_hash_to_group''),
      ((''BHP512'', ''hash_to_i8''), ''_bhp512_hash_to_i8''),
      ((''BHP512'', ''hash_to_i16''), ''_bhp512_hash_to_i16''),
      ((''BHP512'', ''hash_to_i32''), ''_bhp512_hash_to_i32''),
      ((''BHP512'', ''hash_to_i64''), ''_bhp512_hash_to_i64''),
      ((''BHP512'', ''hash_to_i128''), ''_bhp512_hash_to_i128''),
      ((''BHP512'', ''hash_to_u8''), ''_bhp512_hash_to_u8''),
      ((''BHP512'', ''hash_to_u16''), ''_bhp512_hash_to_u16''),
      ((''BHP512'', ''hash_to_u32''), ''_bhp512_hash_to_u32''),
      ((''BHP512'', ''hash_to_u64''), ''_bhp512_hash_to_u64''),
      ((''BHP512'', ''hash_to_u128''), ''_bhp512_hash_to_u128''),
      ((''BHP512'', ''hash_to_scalar''), ''_bhp512_hash_to_scalar''),
      ((''BHP512'', ''hash_to_address_raw''), ''_bhp512_hash_to_address_raw''),
      ((''BHP512'', ''hash_to_field_raw''), ''_bhp512_hash_to_field_raw''),
      ((''BHP512'', ''hash_to_group_raw''), ''_bhp512_hash_to_group_raw''),
      ((''BHP512'', ''hash_to_i8_raw''), ''_bhp512_hash_to_i8_raw''),
      ((''BHP512'', ''hash_to_i16_raw''), ''_bhp512_hash_to_i16_raw''),
      ((''BHP512'', ''hash_to_i32_raw''), ''_bhp512_hash_to_i32_raw''),
      ((''BHP512'', ''hash_to_i64_raw''), ''_bhp512_hash_to_i64_raw''),
      ((''BHP512'', ''hash_to_i128_raw''), ''_bhp512_hash_to_i128_raw''),
      ((''BHP512'', ''hash_to_u8_raw''), ''_bhp512_hash_to_u8_raw''),
      ((''BHP512'', ''hash_to_u16_raw''), ''_bhp512_hash_to_u16_raw''),
      ((''BHP512'', ''hash_to_u32_raw''), ''_bhp512_hash_to_u32_raw''),
      ((''BHP512'', ''hash_to_u64_raw''), ''_bhp512_hash_to_u64_raw''),
      ((''BHP512'', ''hash_to_u128_raw''), ''_bhp512_hash_to_u128_raw''),
      ((''BHP512'', ''hash_to_scalar_raw''), ''_bhp512_hash_to_scalar_raw''),
      ((''BHP768'', ''hash_to_address''), ''_bhp768_hash_to_address''),
      ((''BHP768'', ''hash_to_field''), ''_bhp768_hash_to_field''),
      ((''BHP768'', ''hash_to_group''), ''_bhp768_hash_to_group''),
      ((''BHP768'', ''hash_to_i8''), ''_bhp768_hash_to_i8''),
      ((''BHP768'', ''hash_to_i16''), ''_bhp768_hash_to_i16''),
      ((''BHP768'', ''hash_to_i32''), ''_bhp768_hash_to_i32''),
      ((''BHP768'', ''hash_to_i64''), ''_bhp768_hash_to_i64''),
      ((''BHP768'', ''hash_to_i128''), ''_bhp768_hash_to_i128''),
      ((''BHP768'', ''hash_to_u8''), ''_bhp768_hash_to_u8''),
      ((''BHP768'', ''hash_to_u16''), ''_bhp768_hash_to_u16''),
      ((''BHP768'', ''hash_to_u32''), ''_bhp768_hash_to_u32''),
      ((''BHP768'', ''hash_to_u64''), ''_bhp768_hash_to_u64''),
      ((''BHP768'', ''hash_to_u128''), ''_bhp768_hash_to_u128''),
      ((''BHP768'', ''hash_to_scalar''), ''_bhp768_hash_to_scalar''),
      ((''BHP768'', ''hash_to_address_raw''), ''_bhp768_hash_to_address_raw''),
      ((''BHP768'', ''hash_to_field_raw''), ''_bhp768_hash_to_field_raw''),
      ((''BHP768'', ''hash_to_group_raw''), ''_bhp768_hash_to_group_raw''),
      ((''BHP768'', ''hash_to_i8_raw''), ''_bhp768_hash_to_i8_raw''),
      ((''BHP768'', ''hash_to_i16_raw''), ''_bhp768_hash_to_i16_raw''),
      ((''BHP768'', ''hash_to_i32_raw''), ''_bhp768_hash_to_i32_raw''),
      ((''BHP768'', ''hash_to_i64_raw''), ''_bhp768_hash_to_i64_raw''),
      ((''BHP768'', ''hash_to_i128_raw''), ''_bhp768_hash_to_i128_raw''),
      ((''BHP768'', ''hash_to_u8_raw''), ''_bhp768_hash_to_u8_raw''),
      ((''BHP768'', ''hash_to_u16_raw''), ''_bhp768_hash_to_u16_raw''),
      ((''BHP768'', ''hash_to_u32_raw''), ''_bhp768_hash_to_u32_raw''),
      ((''BHP768'', ''hash_to_u64_raw''), ''_bhp768_hash_to_u64_raw''),
      ((''BHP768'', ''hash_to_u128_raw''), ''_bhp768_hash_to_u128_raw''),
      ((''BHP768'', ''hash_to_scalar_raw''), ''_bhp768_hash_to_scalar_raw''),
      ((''BHP1024'', ''hash_to_address''), ''_bhp1024_hash_to_address''),
      ((''BHP1024'', ''hash_to_field''), ''_bhp1024_hash_to_field''),
      ((''BHP1024'', ''hash_to_group''), ''_bhp1024_hash_to_group''),
      ((''BHP1024'', ''hash_to_i8''), ''_bhp1024_hash_to_i8''),
      ((''BHP1024'', ''hash_to_i16''), ''_bhp1024_hash_to_i16''),
      ((''BHP1024'', ''hash_to_i32''), ''_bhp1024_hash_to_i32''),
      ((''BHP1024'', ''hash_to_i64''), ''_bhp1024_hash_to_i64''),
      ((''BHP1024'', ''hash_to_i128''), ''_bhp1024_hash_to_i128''),
      ((''BHP1024'', ''hash_to_u8''), ''_bhp1024_hash_to_u8''),
      ((''BHP1024'', ''hash_to_u16''), ''_bhp1024_hash_to_u16''),
      ((''BHP1024'', ''hash_to_u32''), ''_bhp1024_hash_to_u32''),
      ((''BHP1024'', ''hash_to_u64''), ''_bhp1024_hash_to_u64''),
      ((''BHP1024'', ''hash_to_u128''), ''_bhp1024_hash_to_u128''),
      ((''BHP1024'', ''hash_to_scalar''), ''_bhp1024_hash_to_scalar''),
      ((''BHP1024'', ''hash_to_address_raw''), ''_bhp1024_hash_to_address_raw''),
      ((''BHP1024'', ''hash_to_field_raw''), ''_bhp1024_hash_to_field_raw''),
      ((''BHP1024'', ''hash_to_group_raw''), ''_bhp1024_hash_to_group_raw''),
      ((''BHP1024'', ''hash_to_i8_raw''), ''_bhp1024_hash_to_i8_raw''),
      ((''BHP1024'', ''hash_to_i16_raw''), ''_bhp1024_hash_to_i16_raw''),
      ((''BHP1024'', ''hash_to_i32_raw''), ''_bhp1024_hash_to_i32_raw''),
      ((''BHP1024'', ''hash_to_i64_raw''), ''_bhp1024_hash_to_i64_raw''),
      ((''BHP1024'', ''hash_to_i128_raw''), ''_bhp1024_hash_to_i128_raw''),
      ((''BHP1024'', ''hash_to_u8_raw''), ''_bhp1024_hash_to_u8_raw'')]"

definition path_symbols_2 :: "((symbol \<times> symbol) \<times> symbol) list" where
  "path_symbols_2 =
     [((''BHP1024'', ''hash_to_u16_raw''), ''_bhp1024_hash_to_u16_raw''),
      ((''BHP1024'', ''hash_to_u32_raw''), ''_bhp1024_hash_to_u32_raw''),
      ((''BHP1024'', ''hash_to_u64_raw''), ''_bhp1024_hash_to_u64_raw''),
      ((''BHP1024'', ''hash_to_u128_raw''), ''_bhp1024_hash_to_u128_raw''),
      ((''BHP1024'', ''hash_to_scalar_raw''), ''_bhp1024_hash_to_scalar_raw''),
      ((''Keccak256'', ''hash_to_address''), ''_keccak256_hash_to_address''),
      ((''Keccak256'', ''hash_to_field''), ''_keccak256_hash_to_field''),
      ((''Keccak256'', ''hash_to_group''), ''_keccak256_hash_to_group''),
      ((''Keccak256'', ''hash_to_i8''), ''_keccak256_hash_to_i8''),
      ((''Keccak256'', ''hash_to_i16''), ''_keccak256_hash_to_i16''),
      ((''Keccak256'', ''hash_to_i32''), ''_keccak256_hash_to_i32''),
      ((''Keccak256'', ''hash_to_i64''), ''_keccak256_hash_to_i64''),
      ((''Keccak256'', ''hash_to_i128''), ''_keccak256_hash_to_i128''),
      ((''Keccak256'', ''hash_to_u8''), ''_keccak256_hash_to_u8''),
      ((''Keccak256'', ''hash_to_u16''), ''_keccak256_hash_to_u16''),
      ((''Keccak256'', ''hash_to_u32''), ''_keccak256_hash_to_u32''),
      ((''Keccak256'', ''hash_to_u64''), ''_keccak256_hash_to_u64''),
      ((''Keccak256'', ''hash_to_u128''), ''_keccak256_hash_to_u128''),
      ((''Keccak256'', ''hash_to_scalar''), ''_keccak256_hash_to_scalar''),
      ((''Keccak256'', ''hash_to_address_raw''), ''_keccak256_hash_to_address_raw''),
      ((''Keccak256'', ''hash_to_field_raw''), ''_keccak256_hash_to_field_raw''),
      ((''Keccak256'', ''hash_to_group_raw''), ''_keccak256_hash_to_group_raw''),
      ((''Keccak256'', ''hash_to_i8_raw''), ''_keccak256_hash_to_i8_raw''),
      ((''Keccak256'', ''hash_to_i16_raw''), ''_keccak256_hash_to_i16_raw''),
      ((''Keccak256'', ''hash_to_i32_raw''), ''_keccak256_hash_to_i32_raw''),
      ((''Keccak256'', ''hash_to_i64_raw''), ''_keccak256_hash_to_i64_raw''),
      ((''Keccak256'', ''hash_to_i128_raw''), ''_keccak256_hash_to_i128_raw''),
      ((''Keccak256'', ''hash_to_u8_raw''), ''_keccak256_hash_to_u8_raw''),
      ((''Keccak256'', ''hash_to_u16_raw''), ''_keccak256_hash_to_u16_raw''),
      ((''Keccak256'', ''hash_to_u32_raw''), ''_keccak256_hash_to_u32_raw''),
      ((''Keccak256'', ''hash_to_u64_raw''), ''_keccak256_hash_to_u64_raw''),
      ((''Keccak256'', ''hash_to_u128_raw''), ''_keccak256_hash_to_u128_raw''),
      ((''Keccak256'', ''hash_to_scalar_raw''), ''_keccak256_hash_to_scalar_raw''),
      ((''Keccak256'', ''hash_to_bits''), ''_keccak256_hash_to_bits''),
      ((''Keccak256'', ''hash_to_bits_raw''), ''_keccak256_hash_to_bits_raw''),
      ((''Keccak384'', ''hash_to_address''), ''_keccak384_hash_to_address''),
      ((''Keccak384'', ''hash_to_field''), ''_keccak384_hash_to_field''),
      ((''Keccak384'', ''hash_to_group''), ''_keccak384_hash_to_group''),
      ((''Keccak384'', ''hash_to_i8''), ''_keccak384_hash_to_i8''),
      ((''Keccak384'', ''hash_to_i16''), ''_keccak384_hash_to_i16''),
      ((''Keccak384'', ''hash_to_i32''), ''_keccak384_hash_to_i32''),
      ((''Keccak384'', ''hash_to_i64''), ''_keccak384_hash_to_i64''),
      ((''Keccak384'', ''hash_to_i128''), ''_keccak384_hash_to_i128''),
      ((''Keccak384'', ''hash_to_u8''), ''_keccak384_hash_to_u8''),
      ((''Keccak384'', ''hash_to_u16''), ''_keccak384_hash_to_u16''),
      ((''Keccak384'', ''hash_to_u32''), ''_keccak384_hash_to_u32''),
      ((''Keccak384'', ''hash_to_u64''), ''_keccak384_hash_to_u64''),
      ((''Keccak384'', ''hash_to_u128''), ''_keccak384_hash_to_u128''),
      ((''Keccak384'', ''hash_to_scalar''), ''_keccak384_hash_to_scalar''),
      ((''Keccak384'', ''hash_to_address_raw''), ''_keccak384_hash_to_address_raw''),
      ((''Keccak384'', ''hash_to_field_raw''), ''_keccak384_hash_to_field_raw''),
      ((''Keccak384'', ''hash_to_group_raw''), ''_keccak384_hash_to_group_raw''),
      ((''Keccak384'', ''hash_to_i8_raw''), ''_keccak384_hash_to_i8_raw''),
      ((''Keccak384'', ''hash_to_i16_raw''), ''_keccak384_hash_to_i16_raw''),
      ((''Keccak384'', ''hash_to_i32_raw''), ''_keccak384_hash_to_i32_raw''),
      ((''Keccak384'', ''hash_to_i64_raw''), ''_keccak384_hash_to_i64_raw''),
      ((''Keccak384'', ''hash_to_i128_raw''), ''_keccak384_hash_to_i128_raw''),
      ((''Keccak384'', ''hash_to_u8_raw''), ''_keccak384_hash_to_u8_raw''),
      ((''Keccak384'', ''hash_to_u16_raw''), ''_keccak384_hash_to_u16_raw''),
      ((''Keccak384'', ''hash_to_u32_raw''), ''_keccak384_hash_to_u32_raw''),
      ((''Keccak384'', ''hash_to_u64_raw''), ''_keccak384_hash_to_u64_raw''),
      ((''Keccak384'', ''hash_to_u128_raw''), ''_keccak384_hash_to_u128_raw''),
      ((''Keccak384'', ''hash_to_scalar_raw''), ''_keccak384_hash_to_scalar_raw''),
      ((''Keccak384'', ''hash_to_bits''), ''_keccak384_hash_to_bits''),
      ((''Keccak384'', ''hash_to_bits_raw''), ''_keccak384_hash_to_bits_raw''),
      ((''Keccak512'', ''hash_to_address''), ''_keccak512_hash_to_address''),
      ((''Keccak512'', ''hash_to_field''), ''_keccak512_hash_to_field''),
      ((''Keccak512'', ''hash_to_group''), ''_keccak512_hash_to_group''),
      ((''Keccak512'', ''hash_to_i8''), ''_keccak512_hash_to_i8''),
      ((''Keccak512'', ''hash_to_i16''), ''_keccak512_hash_to_i16''),
      ((''Keccak512'', ''hash_to_i32''), ''_keccak512_hash_to_i32''),
      ((''Keccak512'', ''hash_to_i64''), ''_keccak512_hash_to_i64''),
      ((''Keccak512'', ''hash_to_i128''), ''_keccak512_hash_to_i128''),
      ((''Keccak512'', ''hash_to_u8''), ''_keccak512_hash_to_u8''),
      ((''Keccak512'', ''hash_to_u16''), ''_keccak512_hash_to_u16''),
      ((''Keccak512'', ''hash_to_u32''), ''_keccak512_hash_to_u32''),
      ((''Keccak512'', ''hash_to_u64''), ''_keccak512_hash_to_u64''),
      ((''Keccak512'', ''hash_to_u128''), ''_keccak512_hash_to_u128''),
      ((''Keccak512'', ''hash_to_scalar''), ''_keccak512_hash_to_scalar''),
      ((''Keccak512'', ''hash_to_address_raw''), ''_keccak512_hash_to_address_raw''),
      ((''Keccak512'', ''hash_to_field_raw''), ''_keccak512_hash_to_field_raw''),
      ((''Keccak512'', ''hash_to_group_raw''), ''_keccak512_hash_to_group_raw''),
      ((''Keccak512'', ''hash_to_i8_raw''), ''_keccak512_hash_to_i8_raw''),
      ((''Keccak512'', ''hash_to_i16_raw''), ''_keccak512_hash_to_i16_raw''),
      ((''Keccak512'', ''hash_to_i32_raw''), ''_keccak512_hash_to_i32_raw''),
      ((''Keccak512'', ''hash_to_i64_raw''), ''_keccak512_hash_to_i64_raw''),
      ((''Keccak512'', ''hash_to_i128_raw''), ''_keccak512_hash_to_i128_raw''),
      ((''Keccak512'', ''hash_to_u8_raw''), ''_keccak512_hash_to_u8_raw''),
      ((''Keccak512'', ''hash_to_u16_raw''), ''_keccak512_hash_to_u16_raw''),
      ((''Keccak512'', ''hash_to_u32_raw''), ''_keccak512_hash_to_u32_raw''),
      ((''Keccak512'', ''hash_to_u64_raw''), ''_keccak512_hash_to_u64_raw''),
      ((''Keccak512'', ''hash_to_u128_raw''), ''_keccak512_hash_to_u128_raw''),
      ((''Keccak512'', ''hash_to_scalar_raw''), ''_keccak512_hash_to_scalar_raw''),
      ((''Keccak512'', ''hash_to_bits''), ''_keccak512_hash_to_bits''),
      ((''Keccak512'', ''hash_to_bits_raw''), ''_keccak512_hash_to_bits_raw''),
      ((''Pedersen64'', ''hash_to_address''), ''_pedersen64_hash_to_address''),
      ((''Pedersen64'', ''hash_to_field''), ''_pedersen64_hash_to_field''),
      ((''Pedersen64'', ''hash_to_group''), ''_pedersen64_hash_to_group''),
      ((''Pedersen64'', ''hash_to_i8''), ''_pedersen64_hash_to_i8''),
      ((''Pedersen64'', ''hash_to_i16''), ''_pedersen64_hash_to_i16''),
      ((''Pedersen64'', ''hash_to_i32''), ''_pedersen64_hash_to_i32''),
      ((''Pedersen64'', ''hash_to_i64''), ''_pedersen64_hash_to_i64''),
      ((''Pedersen64'', ''hash_to_i128''), ''_pedersen64_hash_to_i128''),
      ((''Pedersen64'', ''hash_to_u8''), ''_pedersen64_hash_to_u8''),
      ((''Pedersen64'', ''hash_to_u16''), ''_pedersen64_hash_to_u16''),
      ((''Pedersen64'', ''hash_to_u32''), ''_pedersen64_hash_to_u32''),
      ((''Pedersen64'', ''hash_to_u64''), ''_pedersen64_hash_to_u64''),
      ((''Pedersen64'', ''hash_to_u128''), ''_pedersen64_hash_to_u128''),
      ((''Pedersen64'', ''hash_to_scalar''), ''_pedersen64_hash_to_scalar''),
      ((''Pedersen64'', ''hash_to_address_raw''), ''_pedersen64_hash_to_address_raw''),
      ((''Pedersen64'', ''hash_to_field_raw''), ''_pedersen64_hash_to_field_raw''),
      ((''Pedersen64'', ''hash_to_group_raw''), ''_pedersen64_hash_to_group_raw''),
      ((''Pedersen64'', ''hash_to_i8_raw''), ''_pedersen64_hash_to_i8_raw''),
      ((''Pedersen64'', ''hash_to_i16_raw''), ''_pedersen64_hash_to_i16_raw''),
      ((''Pedersen64'', ''hash_to_i32_raw''), ''_pedersen64_hash_to_i32_raw''),
      ((''Pedersen64'', ''hash_to_i64_raw''), ''_pedersen64_hash_to_i64_raw''),
      ((''Pedersen64'', ''hash_to_i128_raw''), ''_pedersen64_hash_to_i128_raw''),
      ((''Pedersen64'', ''hash_to_u8_raw''), ''_pedersen64_hash_to_u8_raw''),
      ((''Pedersen64'', ''hash_to_u16_raw''), ''_pedersen64_hash_to_u16_raw''),
      ((''Pedersen64'', ''hash_to_u32_raw''), ''_pedersen64_hash_to_u32_raw''),
      ((''Pedersen64'', ''hash_to_u64_raw''), ''_pedersen64_hash_to_u64_raw''),
      ((''Pedersen64'', ''hash_to_u128_raw''), ''_pedersen64_hash_to_u128_raw''),
      ((''Pedersen64'', ''hash_to_scalar_raw''), ''_pedersen64_hash_to_scalar_raw''),
      ((''Pedersen128'', ''hash_to_address''), ''_pedersen128_hash_to_address''),
      ((''Pedersen128'', ''hash_to_field''), ''_pedersen128_hash_to_field''),
      ((''Pedersen128'', ''hash_to_group''), ''_pedersen128_hash_to_group''),
      ((''Pedersen128'', ''hash_to_i8''), ''_pedersen128_hash_to_i8''),
      ((''Pedersen128'', ''hash_to_i16''), ''_pedersen128_hash_to_i16''),
      ((''Pedersen128'', ''hash_to_i32''), ''_pedersen128_hash_to_i32''),
      ((''Pedersen128'', ''hash_to_i64''), ''_pedersen128_hash_to_i64''),
      ((''Pedersen128'', ''hash_to_i128''), ''_pedersen128_hash_to_i128''),
      ((''Pedersen128'', ''hash_to_u8''), ''_pedersen128_hash_to_u8''),
      ((''Pedersen128'', ''hash_to_u16''), ''_pedersen128_hash_to_u16''),
      ((''Pedersen128'', ''hash_to_u32''), ''_pedersen128_hash_to_u32''),
      ((''Pedersen128'', ''hash_to_u64''), ''_pedersen128_hash_to_u64''),
      ((''Pedersen128'', ''hash_to_u128''), ''_pedersen128_hash_to_u128''),
      ((''Pedersen128'', ''hash_to_scalar''), ''_pedersen128_hash_to_scalar''),
      ((''Pedersen128'', ''hash_to_address_raw''), ''_pedersen128_hash_to_address_raw''),
      ((''Pedersen128'', ''hash_to_field_raw''), ''_pedersen128_hash_to_field_raw''),
      ((''Pedersen128'', ''hash_to_group_raw''), ''_pedersen128_hash_to_group_raw''),
      ((''Pedersen128'', ''hash_to_i8_raw''), ''_pedersen128_hash_to_i8_raw''),
      ((''Pedersen128'', ''hash_to_i16_raw''), ''_pedersen128_hash_to_i16_raw''),
      ((''Pedersen128'', ''hash_to_i32_raw''), ''_pedersen128_hash_to_i32_raw'')]"

definition path_symbols_3 :: "((symbol \<times> symbol) \<times> symbol) list" where
  "path_symbols_3 =
     [((''Pedersen128'', ''hash_to_i64_raw''), ''_pedersen128_hash_to_i64_raw''),
      ((''Pedersen128'', ''hash_to_i128_raw''), ''_pedersen128_hash_to_i128_raw''),
      ((''Pedersen128'', ''hash_to_u8_raw''), ''_pedersen128_hash_to_u8_raw''),
      ((''Pedersen128'', ''hash_to_u16_raw''), ''_pedersen128_hash_to_u16_raw''),
      ((''Pedersen128'', ''hash_to_u32_raw''), ''_pedersen128_hash_to_u32_raw''),
      ((''Pedersen128'', ''hash_to_u64_raw''), ''_pedersen128_hash_to_u64_raw''),
      ((''Pedersen128'', ''hash_to_u128_raw''), ''_pedersen128_hash_to_u128_raw''),
      ((''Pedersen128'', ''hash_to_scalar_raw''), ''_pedersen128_hash_to_scalar_raw''),
      ((''Poseidon2'', ''hash_to_address''), ''_poseidon2_hash_to_address''),
      ((''Poseidon2'', ''hash_to_field''), ''_poseidon2_hash_to_field''),
      ((''Poseidon2'', ''hash_to_group''), ''_poseidon2_hash_to_group''),
      ((''Poseidon2'', ''hash_to_i8''), ''_poseidon2_hash_to_i8''),
      ((''Poseidon2'', ''hash_to_i16''), ''_poseidon2_hash_to_i16''),
      ((''Poseidon2'', ''hash_to_i32''), ''_poseidon2_hash_to_i32''),
      ((''Poseidon2'', ''hash_to_i64''), ''_poseidon2_hash_to_i64''),
      ((''Poseidon2'', ''hash_to_i128''), ''_poseidon2_hash_to_i128''),
      ((''Poseidon2'', ''hash_to_u8''), ''_poseidon2_hash_to_u8''),
      ((''Poseidon2'', ''hash_to_u16''), ''_poseidon2_hash_to_u16''),
      ((''Poseidon2'', ''hash_to_u32''), ''_poseidon2_hash_to_u32''),
      ((''Poseidon2'', ''hash_to_u64''), ''_poseidon2_hash_to_u64''),
      ((''Poseidon2'', ''hash_to_u128''), ''_poseidon2_hash_to_u128''),
      ((''Poseidon2'', ''hash_to_scalar''), ''_poseidon2_hash_to_scalar''),
      ((''Poseidon2'', ''hash_to_address_raw''), ''_poseidon2_hash_to_address_raw''),
      ((''Poseidon2'', ''hash_to_field_raw''), ''_poseidon2_hash_to_field_raw''),
      ((''Poseidon2'', ''hash_to_group_raw''), ''_poseidon2_hash_to_group_raw''),
      ((''Poseidon2'', ''hash_to_i8_raw''), ''_poseidon2_hash_to_i8_raw''),
      ((''Poseidon2'', ''hash_to_i16_raw''), ''_poseidon2_hash_to_i16_raw''),
      ((''Poseidon2'', ''hash_to_i32_raw''), ''_poseidon2_hash_to_i32_raw''),
      ((''Poseidon2'', ''hash_to_i64_raw''), ''_poseidon2_hash_to_i64_raw''),
      ((''Poseidon2'', ''hash_to_i128_raw''), ''_poseidon2_hash_to_i128_raw''),
      ((''Poseidon2'', ''hash_to_u8_raw''), ''_poseidon2_hash_to_u8_raw''),
      ((''Poseidon2'', ''hash_to_u16_raw''), ''_poseidon2_hash_to_u16_raw''),
      ((''Poseidon2'', ''hash_to_u32_raw''), ''_poseidon2_hash_to_u32_raw''),
      ((''Poseidon2'', ''hash_to_u64_raw''), ''_poseidon2_hash_to_u64_raw''),
      ((''Poseidon2'', ''hash_to_u128_raw''), ''_poseidon2_hash_to_u128_raw''),
      ((''Poseidon2'', ''hash_to_scalar_raw''), ''_poseidon2_hash_to_scalar_raw''),
      ((''Poseidon4'', ''hash_to_address''), ''_poseidon4_hash_to_address''),
      ((''Poseidon4'', ''hash_to_field''), ''_poseidon4_hash_to_field''),
      ((''Poseidon4'', ''hash_to_group''), ''_poseidon4_hash_to_group''),
      ((''Poseidon4'', ''hash_to_i8''), ''_poseidon4_hash_to_i8''),
      ((''Poseidon4'', ''hash_to_i16''), ''_poseidon4_hash_to_i16''),
      ((''Poseidon4'', ''hash_to_i32''), ''_poseidon4_hash_to_i32''),
      ((''Poseidon4'', ''hash_to_i64''), ''_poseidon4_hash_to_i64''),
      ((''Poseidon4'', ''hash_to_i128''), ''_poseidon4_hash_to_i128''),
      ((''Poseidon4'', ''hash_to_u8''), ''_poseidon4_hash_to_u8''),
      ((''Poseidon4'', ''hash_to_u16''), ''_poseidon4_hash_to_u16''),
      ((''Poseidon4'', ''hash_to_u32''), ''_poseidon4_hash_to_u32''),
      ((''Poseidon4'', ''hash_to_u64''), ''_poseidon4_hash_to_u64''),
      ((''Poseidon4'', ''hash_to_u128''), ''_poseidon4_hash_to_u128''),
      ((''Poseidon4'', ''hash_to_scalar''), ''_poseidon4_hash_to_scalar''),
      ((''Poseidon4'', ''hash_to_address_raw''), ''_poseidon4_hash_to_address_raw''),
      ((''Poseidon4'', ''hash_to_field_raw''), ''_poseidon4_hash_to_field_raw''),
      ((''Poseidon4'', ''hash_to_group_raw''), ''_poseidon4_hash_to_group_raw''),
      ((''Poseidon4'', ''hash_to_i8_raw''), ''_poseidon4_hash_to_i8_raw''),
      ((''Poseidon4'', ''hash_to_i16_raw''), ''_poseidon4_hash_to_i16_raw''),
      ((''Poseidon4'', ''hash_to_i32_raw''), ''_poseidon4_hash_to_i32_raw''),
      ((''Poseidon4'', ''hash_to_i64_raw''), ''_poseidon4_hash_to_i64_raw''),
      ((''Poseidon4'', ''hash_to_i128_raw''), ''_poseidon4_hash_to_i128_raw''),
      ((''Poseidon4'', ''hash_to_u8_raw''), ''_poseidon4_hash_to_u8_raw''),
      ((''Poseidon4'', ''hash_to_u16_raw''), ''_poseidon4_hash_to_u16_raw''),
      ((''Poseidon4'', ''hash_to_u32_raw''), ''_poseidon4_hash_to_u32_raw''),
      ((''Poseidon4'', ''hash_to_u64_raw''), ''_poseidon4_hash_to_u64_raw''),
      ((''Poseidon4'', ''hash_to_u128_raw''), ''_poseidon4_hash_to_u128_raw''),
      ((''Poseidon4'', ''hash_to_scalar_raw''), ''_poseidon4_hash_to_scalar_raw''),
      ((''Poseidon8'', ''hash_to_address''), ''_poseidon8_hash_to_address''),
      ((''Poseidon8'', ''hash_to_field''), ''_poseidon8_hash_to_field''),
      ((''Poseidon8'', ''hash_to_group''), ''_poseidon8_hash_to_group''),
      ((''Poseidon8'', ''hash_to_i8''), ''_poseidon8_hash_to_i8''),
      ((''Poseidon8'', ''hash_to_i16''), ''_poseidon8_hash_to_i16''),
      ((''Poseidon8'', ''hash_to_i32''), ''_poseidon8_hash_to_i32''),
      ((''Poseidon8'', ''hash_to_i64''), ''_poseidon8_hash_to_i64''),
      ((''Poseidon8'', ''hash_to_i128''), ''_poseidon8_hash_to_i128''),
      ((''Poseidon8'', ''hash_to_u8''), ''_poseidon8_hash_to_u8''),
      ((''Poseidon8'', ''hash_to_u16''), ''_poseidon8_hash_to_u16''),
      ((''Poseidon8'', ''hash_to_u32''), ''_poseidon8_hash_to_u32''),
      ((''Poseidon8'', ''hash_to_u64''), ''_poseidon8_hash_to_u64''),
      ((''Poseidon8'', ''hash_to_u128''), ''_poseidon8_hash_to_u128''),
      ((''Poseidon8'', ''hash_to_scalar''), ''_poseidon8_hash_to_scalar''),
      ((''Poseidon8'', ''hash_to_address_raw''), ''_poseidon8_hash_to_address_raw''),
      ((''Poseidon8'', ''hash_to_field_raw''), ''_poseidon8_hash_to_field_raw''),
      ((''Poseidon8'', ''hash_to_group_raw''), ''_poseidon8_hash_to_group_raw''),
      ((''Poseidon8'', ''hash_to_i8_raw''), ''_poseidon8_hash_to_i8_raw''),
      ((''Poseidon8'', ''hash_to_i16_raw''), ''_poseidon8_hash_to_i16_raw''),
      ((''Poseidon8'', ''hash_to_i32_raw''), ''_poseidon8_hash_to_i32_raw''),
      ((''Poseidon8'', ''hash_to_i64_raw''), ''_poseidon8_hash_to_i64_raw''),
      ((''Poseidon8'', ''hash_to_i128_raw''), ''_poseidon8_hash_to_i128_raw''),
      ((''Poseidon8'', ''hash_to_u8_raw''), ''_poseidon8_hash_to_u8_raw''),
      ((''Poseidon8'', ''hash_to_u16_raw''), ''_poseidon8_hash_to_u16_raw''),
      ((''Poseidon8'', ''hash_to_u32_raw''), ''_poseidon8_hash_to_u32_raw''),
      ((''Poseidon8'', ''hash_to_u64_raw''), ''_poseidon8_hash_to_u64_raw''),
      ((''Poseidon8'', ''hash_to_u128_raw''), ''_poseidon8_hash_to_u128_raw''),
      ((''Poseidon8'', ''hash_to_scalar_raw''), ''_poseidon8_hash_to_scalar_raw''),
      ((''SHA3_256'', ''hash_to_address''), ''_sha3_256_hash_to_address''),
      ((''SHA3_256'', ''hash_to_field''), ''_sha3_256_hash_to_field''),
      ((''SHA3_256'', ''hash_to_group''), ''_sha3_256_hash_to_group''),
      ((''SHA3_256'', ''hash_to_i8''), ''_sha3_256_hash_to_i8''),
      ((''SHA3_256'', ''hash_to_i16''), ''_sha3_256_hash_to_i16''),
      ((''SHA3_256'', ''hash_to_i32''), ''_sha3_256_hash_to_i32''),
      ((''SHA3_256'', ''hash_to_i64''), ''_sha3_256_hash_to_i64''),
      ((''SHA3_256'', ''hash_to_i128''), ''_sha3_256_hash_to_i128''),
      ((''SHA3_256'', ''hash_to_u8''), ''_sha3_256_hash_to_u8''),
      ((''SHA3_256'', ''hash_to_u16''), ''_sha3_256_hash_to_u16''),
      ((''SHA3_256'', ''hash_to_u32''), ''_sha3_256_hash_to_u32''),
      ((''SHA3_256'', ''hash_to_u64''), ''_sha3_256_hash_to_u64''),
      ((''SHA3_256'', ''hash_to_u128''), ''_sha3_256_hash_to_u128''),
      ((''SHA3_256'', ''hash_to_scalar''), ''_sha3_256_hash_to_scalar''),
      ((''SHA3_256'', ''hash_to_address_raw''), ''_sha3_256_hash_to_address_raw''),
      ((''SHA3_256'', ''hash_to_field_raw''), ''_sha3_256_hash_to_field_raw''),
      ((''SHA3_256'', ''hash_to_group_raw''), ''_sha3_256_hash_to_group_raw''),
      ((''SHA3_256'', ''hash_to_i8_raw''), ''_sha3_256_hash_to_i8_raw''),
      ((''SHA3_256'', ''hash_to_i16_raw''), ''_sha3_256_hash_to_i16_raw''),
      ((''SHA3_256'', ''hash_to_i32_raw''), ''_sha3_256_hash_to_i32_raw''),
      ((''SHA3_256'', ''hash_to_i64_raw''), ''_sha3_256_hash_to_i64_raw''),
      ((''SHA3_256'', ''hash_to_i128_raw''), ''_sha3_256_hash_to_i128_raw''),
      ((''SHA3_256'', ''hash_to_u8_raw''), ''_sha3_256_hash_to_u8_raw''),
      ((''SHA3_256'', ''hash_to_u16_raw''), ''_sha3_256_hash_to_u16_raw''),
      ((''SHA3_256'', ''hash_to_u32_raw''), ''_sha3_256_hash_to_u32_raw''),
      ((''SHA3_256'', ''hash_to_u64_raw''), ''_sha3_256_hash_to_u64_raw''),
      ((''SHA3_256'', ''hash_to_u128_raw''), ''_sha3_256_hash_to_u128_raw''),
      ((''SHA3_256'', ''hash_to_scalar_raw''), ''_sha3_256_hash_to_scalar_raw''),
      ((''SHA3_256'', ''hash_to_bits''), ''_sha3_256_hash_to_bits''),
      ((''SHA3_256'', ''hash_to_bits_raw''), ''_sha3_256_hash_to_bits_raw''),
      ((''SHA3_384'', ''hash_to_address''), ''_sha3_384_hash_to_address''),
      ((''SHA3_384'', ''hash_to_field''), ''_sha3_384_hash_to_field''),
      ((''SHA3_384'', ''hash_to_group''), ''_sha3_384_hash_to_group''),
      ((''SHA3_384'', ''hash_to_i8''), ''_sha3_384_hash_to_i8''),
      ((''SHA3_384'', ''hash_to_i16''), ''_sha3_384_hash_to_i16''),
      ((''SHA3_384'', ''hash_to_i32''), ''_sha3_384_hash_to_i32''),
      ((''SHA3_384'', ''hash_to_i64''), ''_sha3_384_hash_to_i64''),
      ((''SHA3_384'', ''hash_to_i128''), ''_sha3_384_hash_to_i128''),
      ((''SHA3_384'', ''hash_to_u8''), ''_sha3_384_hash_to_u8''),
      ((''SHA3_384'', ''hash_to_u16''), ''_sha3_384_hash_to_u16''),
      ((''SHA3_384'', ''hash_to_u32''), ''_sha3_384_hash_to_u32''),
      ((''SHA3_384'', ''hash_to_u64''), ''_sha3_384_hash_to_u64''),
      ((''SHA3_384'', ''hash_to_u128''), ''_sha3_384_hash_to_u128''),
      ((''SHA3_384'', ''hash_to_scalar''), ''_sha3_384_hash_to_scalar''),
      ((''SHA3_384'', ''hash_to_address_raw''), ''_sha3_384_hash_to_address_raw''),
      ((''SHA3_384'', ''hash_to_field_raw''), ''_sha3_384_hash_to_field_raw''),
      ((''SHA3_384'', ''hash_to_group_raw''), ''_sha3_384_hash_to_group_raw''),
      ((''SHA3_384'', ''hash_to_i8_raw''), ''_sha3_384_hash_to_i8_raw''),
      ((''SHA3_384'', ''hash_to_i16_raw''), ''_sha3_384_hash_to_i16_raw''),
      ((''SHA3_384'', ''hash_to_i32_raw''), ''_sha3_384_hash_to_i32_raw''),
      ((''SHA3_384'', ''hash_to_i64_raw''), ''_sha3_384_hash_to_i64_raw'')]"

definition path_symbols_4 :: "((symbol \<times> symbol) \<times> symbol) list" where
  "path_symbols_4 =
     [((''SHA3_384'', ''hash_to_i128_raw''), ''_sha3_384_hash_to_i128_raw''),
      ((''SHA3_384'', ''hash_to_u8_raw''), ''_sha3_384_hash_to_u8_raw''),
      ((''SHA3_384'', ''hash_to_u16_raw''), ''_sha3_384_hash_to_u16_raw''),
      ((''SHA3_384'', ''hash_to_u32_raw''), ''_sha3_384_hash_to_u32_raw''),
      ((''SHA3_384'', ''hash_to_u64_raw''), ''_sha3_384_hash_to_u64_raw''),
      ((''SHA3_384'', ''hash_to_u128_raw''), ''_sha3_384_hash_to_u128_raw''),
      ((''SHA3_384'', ''hash_to_scalar_raw''), ''_sha3_384_hash_to_scalar_raw''),
      ((''SHA3_384'', ''hash_to_bits''), ''_sha3_384_hash_to_bits''),
      ((''SHA3_384'', ''hash_to_bits_raw''), ''_sha3_384_hash_to_bits_raw''),
      ((''SHA3_512'', ''hash_to_address''), ''_sha3_512_hash_to_address''),
      ((''SHA3_512'', ''hash_to_field''), ''_sha3_512_hash_to_field''),
      ((''SHA3_512'', ''hash_to_group''), ''_sha3_512_hash_to_group''),
      ((''SHA3_512'', ''hash_to_i8''), ''_sha3_512_hash_to_i8''),
      ((''SHA3_512'', ''hash_to_i16''), ''_sha3_512_hash_to_i16''),
      ((''SHA3_512'', ''hash_to_i32''), ''_sha3_512_hash_to_i32''),
      ((''SHA3_512'', ''hash_to_i64''), ''_sha3_512_hash_to_i64''),
      ((''SHA3_512'', ''hash_to_i128''), ''_sha3_512_hash_to_i128''),
      ((''SHA3_512'', ''hash_to_u8''), ''_sha3_512_hash_to_u8''),
      ((''SHA3_512'', ''hash_to_u16''), ''_sha3_512_hash_to_u16''),
      ((''SHA3_512'', ''hash_to_u32''), ''_sha3_512_hash_to_u32''),
      ((''SHA3_512'', ''hash_to_u64''), ''_sha3_512_hash_to_u64''),
      ((''SHA3_512'', ''hash_to_u128''), ''_sha3_512_hash_to_u128''),
      ((''SHA3_512'', ''hash_to_scalar''), ''_sha3_512_hash_to_scalar''),
      ((''SHA3_512'', ''hash_to_address_raw''), ''_sha3_512_hash_to_address_raw''),
      ((''SHA3_512'', ''hash_to_field_raw''), ''_sha3_512_hash_to_field_raw''),
      ((''SHA3_512'', ''hash_to_group_raw''), ''_sha3_512_hash_to_group_raw''),
      ((''SHA3_512'', ''hash_to_i8_raw''), ''_sha3_512_hash_to_i8_raw''),
      ((''SHA3_512'', ''hash_to_i16_raw''), ''_sha3_512_hash_to_i16_raw''),
      ((''SHA3_512'', ''hash_to_i32_raw''), ''_sha3_512_hash_to_i32_raw''),
      ((''SHA3_512'', ''hash_to_i64_raw''), ''_sha3_512_hash_to_i64_raw''),
      ((''SHA3_512'', ''hash_to_i128_raw''), ''_sha3_512_hash_to_i128_raw''),
      ((''SHA3_512'', ''hash_to_u8_raw''), ''_sha3_512_hash_to_u8_raw''),
      ((''SHA3_512'', ''hash_to_u16_raw''), ''_sha3_512_hash_to_u16_raw''),
      ((''SHA3_512'', ''hash_to_u32_raw''), ''_sha3_512_hash_to_u32_raw''),
      ((''SHA3_512'', ''hash_to_u64_raw''), ''_sha3_512_hash_to_u64_raw''),
      ((''SHA3_512'', ''hash_to_u128_raw''), ''_sha3_512_hash_to_u128_raw''),
      ((''SHA3_512'', ''hash_to_scalar_raw''), ''_sha3_512_hash_to_scalar_raw''),
      ((''SHA3_512'', ''hash_to_bits''), ''_sha3_512_hash_to_bits''),
      ((''SHA3_512'', ''hash_to_bits_raw''), ''_sha3_512_hash_to_bits_raw''),
      ((''ECDSA'', ''verify_digest''), ''_ecdsa_verify_digest''),
      ((''ECDSA'', ''verify_digest_eth''), ''_ecdsa_verify_digest_eth''),
      ((''ECDSA'', ''verify_keccak256''), ''_ecdsa_verify_keccak256''),
      ((''ECDSA'', ''verify_keccak256_raw''), ''_ecdsa_verify_keccak256_raw''),
      ((''ECDSA'', ''verify_keccak256_eth''), ''_ecdsa_verify_keccak256_eth''),
      ((''ECDSA'', ''verify_keccak384''), ''_ecdsa_verify_keccak384''),
      ((''ECDSA'', ''verify_keccak384_raw''), ''_ecdsa_verify_keccak384_raw''),
      ((''ECDSA'', ''verify_keccak384_eth''), ''_ecdsa_verify_keccak384_eth''),
      ((''ECDSA'', ''verify_keccak512''), ''_ecdsa_verify_keccak512''),
      ((''ECDSA'', ''verify_keccak512_raw''), ''_ecdsa_verify_keccak512_raw''),
      ((''ECDSA'', ''verify_keccak512_eth''), ''_ecdsa_verify_keccak512_eth''),
      ((''ECDSA'', ''verify_sha3_256''), ''_ecdsa_verify_sha3_256''),
      ((''ECDSA'', ''verify_sha3_256_raw''), ''_ecdsa_verify_sha3_256_raw''),
      ((''ECDSA'', ''verify_sha3_256_eth''), ''_ecdsa_verify_sha3_256_eth''),
      ((''ECDSA'', ''verify_sha3_384''), ''_ecdsa_verify_sha3_384''),
      ((''ECDSA'', ''verify_sha3_384_raw''), ''_ecdsa_verify_sha3_384_raw''),
      ((''ECDSA'', ''verify_sha3_384_eth''), ''_ecdsa_verify_sha3_384_eth''),
      ((''ECDSA'', ''verify_sha3_512''), ''_ecdsa_verify_sha3_512''),
      ((''ECDSA'', ''verify_sha3_512_raw''), ''_ecdsa_verify_sha3_512_raw''),
      ((''ECDSA'', ''verify_sha3_512_eth''), ''_ecdsa_verify_sha3_512_eth''),
      ((''Snark'', ''verify''), ''_snark_verify''),
      ((''Snark'', ''verify_batch''), ''_snark_verify_batch''),
      ((''Mapping'', ''get_or_use''), ''_mapping_get_or_use''),
      ((''Mapping'', ''remove''), ''_mapping_remove''),
      ((''Mapping'', ''contains''), ''_mapping_contains''),
      ((''Mapping'', ''get''), ''_mapping_get''),
      ((''Mapping'', ''set''), ''_mapping_set''),
      ((''Optional'', ''unwrap''), ''_optional_unwrap''),
      ((''Optional'', ''unwrap_or''), ''_optional_unwrap_or''),
      ((''Vector'', ''push''), ''_vector_push''),
      ((''Vector'', ''len''), ''_vector_len''),
      ((''Vector'', ''clear''), ''_vector_clear''),
      ((''Vector'', ''pop''), ''_vector_pop''),
      ((''Vector'', ''swap_remove''), ''_vector_swap_remove''),
      ((''Vector'', ''get''), ''_mapping_get''),
      ((''Vector'', ''set''), ''_mapping_set''),
      ((''group'', ''to_x_coordinate''), ''_group_to_x_coordinate''),
      ((''group'', ''to_y_coordinate''), ''_group_to_y_coordinate''),
      ((''signature'', ''verify''), ''_signature_verify''),
      ((''Final'', ''run''), ''_final_run''),
      ((''Serialize'', ''to_bits''), ''_serialize_to_bits''),
      ((''Serialize'', ''to_bits_raw''), ''_serialize_to_bits_raw''),
      ((''Aleo'', ''generator''), ''_aleo_generator''),
      ((''Aleo'', ''generator_powers''), ''_aleo_generator_powers'')]"

definition path_symbols :: "((symbol \<times> symbol) \<times> symbol) list" where
  "path_symbols = path_symbols_1 @ path_symbols_2 @ path_symbols_3 @ path_symbols_4"

definition convert_path_symbols :: "symbol \<Rightarrow> symbol \<Rightarrow> symbol option" where
  "convert_path_symbols module function = map_of path_symbols (module, function)"

section \<open>Arity and effects\<close>

primrec num_args :: "intrinsic \<Rightarrow> nat" where
  "num_args (ChaChaRand _) = 0"
| "num_args GroupGen = 0"
| "num_args AleoGenerator = 0"
| "num_args AleoGeneratorPowers = 0"
| "num_args SelfAddress = 0"
| "num_args SelfCaller = 0"
| "num_args SelfChecksum = 0"
| "num_args SelfEdition = 0"
| "num_args SelfId = 0"
| "num_args SelfProgramOwner = 0"
| "num_args SelfSigner = 0"
| "num_args BlockHeight = 0"
| "num_args BlockTimestamp = 0"
| "num_args NetworkId = 0"
| "num_args (Commit _ _) = 2"
| "num_args (Hash _ _) = 1"
| "num_args (ECDSAVerify _) = 3"
| "num_args MappingGet = 2"
| "num_args MappingSet = 3"
| "num_args MappingGetOrUse = 3"
| "num_args MappingRemove = 2"
| "num_args MappingContains = 2"
| "num_args OptionalUnwrap = 1"
| "num_args OptionalUnwrapOr = 2"
| "num_args VectorGet = 2"
| "num_args VectorSet = 3"
| "num_args VectorPush = 2"
| "num_args VectorLen = 1"
| "num_args VectorClear = 1"
| "num_args VectorPop = 1"
| "num_args VectorSwapRemove = 2"
| "num_args GroupToXCoordinate = 1"
| "num_args GroupToYCoordinate = 1"
| "num_args SignatureVerify = 3"
| "num_args SnarkVerify = 4"
| "num_args SnarkVerifyBatch = 4"
| "num_args FinalRun = 1"
| "num_args ProgramChecksum = 1"
| "num_args ProgramEdition = 1"
| "num_args ProgramOwner = 1"
| "num_args FunctionChecksum = 2"
| "num_args (Serialize _) = 1"
| "num_args (Deserialize _ _) = 1"
| "num_args DynamicCall = 3"
| "num_args DynamicContains = 4"
| "num_args DynamicGet = 4"
| "num_args DynamicGetOrUse = 5"

primrec is_finalize_command :: "intrinsic \<Rightarrow> bool" where
  "is_finalize_command FinalRun = True"
| "is_finalize_command (ChaChaRand _) = True"
| "is_finalize_command (ECDSAVerify _) = True"
| "is_finalize_command MappingGet = True"
| "is_finalize_command MappingSet = True"
| "is_finalize_command MappingGetOrUse = True"
| "is_finalize_command VectorGet = True"
| "is_finalize_command VectorSet = True"
| "is_finalize_command MappingRemove = True"
| "is_finalize_command MappingContains = True"
| "is_finalize_command ProgramChecksum = True"
| "is_finalize_command ProgramEdition = True"
| "is_finalize_command ProgramOwner = True"
| "is_finalize_command FunctionChecksum = True"
| "is_finalize_command VectorPush = True"
| "is_finalize_command VectorLen = True"
| "is_finalize_command VectorClear = True"
| "is_finalize_command VectorPop = True"
| "is_finalize_command VectorSwapRemove = True"
| "is_finalize_command SnarkVerify = True"
| "is_finalize_command SnarkVerifyBatch = True"
| "is_finalize_command DynamicContains = True"
| "is_finalize_command DynamicGet = True"
| "is_finalize_command DynamicGetOrUse = True"
| "is_finalize_command DynamicCall = False"
| "is_finalize_command (Commit _ _) = False"
| "is_finalize_command (Hash _ _) = False"
| "is_finalize_command OptionalUnwrap = False"
| "is_finalize_command OptionalUnwrapOr = False"
| "is_finalize_command GroupToXCoordinate = False"
| "is_finalize_command GroupToYCoordinate = False"
| "is_finalize_command GroupGen = False"
| "is_finalize_command AleoGenerator = False"
| "is_finalize_command AleoGeneratorPowers = False"
| "is_finalize_command SelfAddress = False"
| "is_finalize_command SelfCaller = False"
| "is_finalize_command SelfChecksum = False"
| "is_finalize_command SelfEdition = False"
| "is_finalize_command SelfId = False"
| "is_finalize_command SelfProgramOwner = False"
| "is_finalize_command SelfSigner = False"
| "is_finalize_command BlockHeight = False"
| "is_finalize_command BlockTimestamp = False"
| "is_finalize_command NetworkId = False"
| "is_finalize_command SignatureVerify = False"
| "is_finalize_command (Serialize _) = False"
| "is_finalize_command (Deserialize _ _) = False"

primrec intrinsic_is_pure :: "intrinsic \<Rightarrow> bool" where
  "intrinsic_is_pure FinalRun = False"
| "intrinsic_is_pure VectorSet = False"
| "intrinsic_is_pure VectorPush = False"
| "intrinsic_is_pure VectorClear = False"
| "intrinsic_is_pure VectorPop = False"
| "intrinsic_is_pure MappingRemove = False"
| "intrinsic_is_pure MappingGet = False"
| "intrinsic_is_pure MappingSet = False"
| "intrinsic_is_pure MappingGetOrUse = False"
| "intrinsic_is_pure MappingContains = False"
| "intrinsic_is_pure VectorSwapRemove = False"
| "intrinsic_is_pure DynamicCall = False"
| "intrinsic_is_pure DynamicContains = False"
| "intrinsic_is_pure DynamicGet = False"
| "intrinsic_is_pure DynamicGetOrUse = False"
| "intrinsic_is_pure (Commit _ _) = False"
| "intrinsic_is_pure (ECDSAVerify _) = False"
| "intrinsic_is_pure SnarkVerify = False"
| "intrinsic_is_pure SnarkVerifyBatch = False"
| "intrinsic_is_pure (ChaChaRand _) = False"
| "intrinsic_is_pure (Deserialize _ _) = False"
| "intrinsic_is_pure ProgramChecksum = True"
| "intrinsic_is_pure ProgramEdition = True"
| "intrinsic_is_pure ProgramOwner = True"
| "intrinsic_is_pure FunctionChecksum = True"
| "intrinsic_is_pure VectorLen = True"
| "intrinsic_is_pure VectorGet = True"
| "intrinsic_is_pure OptionalUnwrap = True"
| "intrinsic_is_pure OptionalUnwrapOr = True"
| "intrinsic_is_pure GroupToXCoordinate = True"
| "intrinsic_is_pure GroupToYCoordinate = True"
| "intrinsic_is_pure GroupGen = True"
| "intrinsic_is_pure AleoGenerator = True"
| "intrinsic_is_pure AleoGeneratorPowers = True"
| "intrinsic_is_pure SelfAddress = True"
| "intrinsic_is_pure SelfCaller = True"
| "intrinsic_is_pure SelfChecksum = True"
| "intrinsic_is_pure SelfEdition = True"
| "intrinsic_is_pure SelfId = True"
| "intrinsic_is_pure SelfProgramOwner = True"
| "intrinsic_is_pure SelfSigner = True"
| "intrinsic_is_pure BlockHeight = True"
| "intrinsic_is_pure BlockTimestamp = True"
| "intrinsic_is_pure NetworkId = True"
| "intrinsic_is_pure SignatureVerify = True"
| "intrinsic_is_pure (Serialize _) = True"
| "intrinsic_is_pure (Hash v _) = (v \<notin> {HashPED64, HashPED64Raw, HashPED128, HashPED128Raw})"

definition can_const_evaluate :: "intrinsic \<Rightarrow> bool" where
  "can_const_evaluate i \<longleftrightarrow> intrinsic_is_pure i \<or>
     (case i of Commit _ _ \<Rightarrow> True | ECDSAVerify _ \<Rightarrow> True | Deserialize _ _ \<Rightarrow> True | _ \<Rightarrow> False)"

section \<open>Pure expressions\<close>

definition is_integer_type :: "leo_type \<Rightarrow> bool" where
  "is_integer_type t = (case t of T_Integer _ \<Rightarrow> True | _ \<Rightarrow> False)"

text \<open>The operators that may halt, for every operand type or only for integers.\<close>

definition binary_halts :: "binary_operation \<Rightarrow> bool" where
  "binary_halts op \<longleftrightarrow> op \<in> {Div, DivWrapped, Mod, Rem, RemWrapped, Shl, Shr}"

definition binary_halts_on_integers :: "binary_operation \<Rightarrow> bool" where
  "binary_halts_on_integers op \<longleftrightarrow> op \<in> {Add, Mul, Pow, Sub}"

primrec expression_id :: "expression \<Rightarrow> node_id" where
  "expression_id (E_ArrayAccess _ _ i) = i"
| "expression_id (E_Async _ i) = i"
| "expression_id (E_Array _ i) = i"
| "expression_id (E_Binary _ _ _ i) = i"
| "expression_id (E_Intrinsic _ _ _ _ _ i) = i"
| "expression_id (E_Call _ _ _ i) = i"
| "expression_id (E_DynamicOp _ _ _ _ i) = i"
| "expression_id (E_Cast _ _ i) = i"
| "expression_id (E_Composite _ _ _ _ i) = i"
| "expression_id (E_Err i) = i"
| "expression_id (E_Path p) = path_id p"
| "expression_id (E_Literal l) = lit_id l"
| "expression_id (E_MemberAccess _ _ i) = i"
| "expression_id (E_Repeat _ _ i) = i"
| "expression_id (E_Ternary _ _ _ i) = i"
| "expression_id (E_Tuple _ i) = i"
| "expression_id (E_TupleAccess _ _ i) = i"
| "expression_id (E_Unary _ _ i) = i"
| "expression_id (E_Unit i) = i"

fun is_pure :: "(node_id \<Rightarrow> leo_type) \<Rightarrow> expression \<Rightarrow> bool" where
  "is_pure get_type (E_Intrinsic name tys _ _ args _) =
     (case intrinsic_from_symbol name tys of
        Some intrinsic \<Rightarrow> intrinsic_is_pure intrinsic \<and> list_all (is_pure get_type) args
      | None \<Rightarrow> False)"
| "is_pure get_type (E_Call _ _ _ _) = False"
| "is_pure get_type (E_DynamicOp _ _ _ _ _) = False"
| "is_pure get_type (E_Err _) = False"
| "is_pure get_type (E_Async _ _) = False"
| "is_pure get_type (E_Cast _ _ _) = False"
| "is_pure get_type (E_Binary left right op i) =
     (if binary_halts op then False
      else if binary_halts_on_integers op
      then \<not> is_integer_type (get_type i) \<and> is_pure get_type left \<and> is_pure get_type right
      else is_pure get_type left \<and> is_pure get_type right)"
| "is_pure get_type (E_Unary receiver op i) =
     (if op \<in> {Abs, Inverse, SquareRoot} then False
      else if op = Negate then is_pure get_type receiver \<and> \<not> is_integer_type (get_type i)
      else is_pure get_type receiver)"
| "is_pure get_type (E_Literal _) = True"
| "is_pure get_type (E_Path _) = True"
| "is_pure get_type (E_Unit _) = True"
| "is_pure get_type (E_ArrayAccess array index _) = (is_pure get_type array \<and> is_pure get_type index)"
| "is_pure get_type (E_MemberAccess inner name _) =
     (let is_dynamic_record_read =
        (case get_type (expression_id inner) of T_DynRecord \<Rightarrow> ident_name name \<noteq> ''owner'' | _ \<Rightarrow> False)
      in \<not> is_dynamic_record_read \<and> is_pure get_type inner)"
| "is_pure get_type (E_Repeat e count _) = (is_pure get_type e \<and> is_pure get_type count)"
| "is_pure get_type (E_TupleAccess tuple _ _) = is_pure get_type tuple"
| "is_pure get_type (E_Array es _) = list_all (is_pure get_type) es"
| "is_pure get_type (E_Composite _ const_args members _ _) =
     (list_all (is_pure get_type) const_args \<and>
      list_all (\<lambda>m. case m of Field_Init _ (Some e) _ \<Rightarrow> is_pure get_type e | _ \<Rightarrow> True) members)"
| "is_pure get_type (E_Ternary c t f _) =
     (is_pure get_type c \<and> is_pure get_type t \<and> is_pure get_type f)"
| "is_pure get_type (E_Tuple es _) = list_all (is_pure get_type) es"

section \<open>The tables are consistent\<close>

text \<open>The elements of a list, each found in another list after the one before.\<close>

inductive picked :: "'a list \<Rightarrow> 'a list \<Rightarrow> bool" where
  picked_Nil: "picked [] ys"
| picked_same: "picked xs (x # ys) \<Longrightarrow> picked (x # xs) (x # ys)"
| picked_skip: "picked xs ys \<Longrightarrow> picked xs (y # ys)"

lemma picked_subset: "picked xs ys \<Longrightarrow> set xs \<subseteq> set ys"
  by (induction rule: picked.induct) auto

lemmas table_simps = append.simps list.map fst_conv snd_conv

lemma picked_1:
  "picked (map snd path_symbols_1)
     (''_deserialize_from_bits'' # ''_deserialize_from_bits_raw'' # map fst (intrinsic_symbols_1 @ intrinsic_symbols_2))"
  unfolding path_symbols_1_def intrinsic_symbols_1_def intrinsic_symbols_2_def table_simps
  by (rule picked_Nil | rule picked_same | rule picked_skip)+

lemma picked_2: "picked (map snd path_symbols_2) (map fst (intrinsic_symbols_2 @ intrinsic_symbols_3))"
  unfolding path_symbols_2_def intrinsic_symbols_2_def intrinsic_symbols_3_def table_simps
  by (rule picked_Nil | rule picked_same | rule picked_skip)+

lemma picked_3: "picked (map snd path_symbols_3) (map fst (intrinsic_symbols_3 @ intrinsic_symbols_4))"
  unfolding path_symbols_3_def intrinsic_symbols_3_def intrinsic_symbols_4_def table_simps
  by (rule picked_Nil | rule picked_same | rule picked_skip)+

lemma picked_4:
  "picked (map snd path_symbols_4)
     (map fst (intrinsic_symbols_4 @ intrinsic_symbols_4 @ intrinsic_symbols_4 @ intrinsic_symbols_4 @ intrinsic_symbols_1))"
  unfolding path_symbols_4_def intrinsic_symbols_4_def intrinsic_symbols_1_def table_simps
  by (rule picked_Nil | rule picked_same | rule picked_skip)+

lemma path_targets_known:
  "snd ` set path_symbols \<subseteq>
     {''_deserialize_from_bits'', ''_deserialize_from_bits_raw''} \<union> fst ` set intrinsic_symbols"
proof -
  have *: "snd ` set path_symbols =
      set (map snd path_symbols_1) \<union> set (map snd path_symbols_2) \<union> set (map snd path_symbols_3) \<union> set (map snd path_symbols_4)"
    by (simp add: path_symbols_def image_Un Un_assoc)
  show ?thesis unfolding * intrinsic_symbols_def
    using picked_subset[OF picked_1] picked_subset[OF picked_2] picked_subset[OF picked_3] picked_subset[OF picked_4] by auto
qed

lemma map_of_known: "k \<in> fst ` set xs \<Longrightarrow> \<exists>v. map_of xs k = Some v"
  by (metis domIff dom_map_of_conv_image_fst not_Some_eq)

text \<open>
  Property C16.  Every path of the core library resolves: the symbol that
  \<^verbatim>\<open>convert_path_symbols\<close> gives for a module and a function is one that \<^verbatim>\<open>from_symbol\<close> knows,
  whatever the type parameters are, so the parser never produces an unknown intrinsic from a path.
\<close>

theorem convert_path_symbols_resolves:
  assumes "convert_path_symbols module function = Some name"
  shows "\<exists>i. intrinsic_from_symbol name tys = Some i"
proof -
  have "name \<in> snd ` set path_symbols"
    using assms unfolding convert_path_symbols_def by (force dest: map_of_SomeD)
  with path_targets_known have "name \<in> {''_deserialize_from_bits'', ''_deserialize_from_bits_raw''} \<union>
      fst ` set intrinsic_symbols" by blast
  then show ?thesis
    unfolding intrinsic_from_symbol_def using map_of_known [of name intrinsic_symbols] by auto
qed

theorem convert_path_symbols_resolves_witness:
  "\<exists>i. intrinsic_from_symbol ''_chacha_rand_bool'' [] = Some i"
proof (rule convert_path_symbols_resolves)
  show "convert_path_symbols ''ChaCha'' ''rand_bool'' = Some ''_chacha_rand_bool''"
    by (simp add: convert_path_symbols_def path_symbols_def path_symbols_1_def)
qed

end
