(* ===== verification/Const_Value.thy ===== *)
theory Const_Value
  imports Leo_Intrinsics
begin

text \<open>
  The values of constant evaluation (\<^verbatim>\<open>crates/ast/src/const_eval/value.rs\<close>).

  The payloads of snarkVM (field elements, group elements, scalars, addresses, signatures, records)
  are an arbitrary type \<open>'e\<close>, and the operations of snarkVM that the code calls are the components
  of the record \<open>snarkvm\<close>, an argument of the definitions that use them.  The ten integer variants
  \<^verbatim>\<open>U8(x)\<close> to \<^verbatim>\<open>I128(x)\<close> of a snarkVM literal, which the code treats alike, are one constructor
  \<open>L_Int\<close> that carries the integer type; \<open>wf_literal\<close> says that its value is in the range of the
  type.  Fallible code returns an \<open>Inl\<close>: \<open>Reason\<close> for an \<^verbatim>\<open>Err\<close>, \<open>Panic\<close> for a panic.
\<close>

section \<open>Literals and values\<close>

datatype 'e svm_literal =
    L_Int integer_type int
  | L_Boolean bool
  | L_Field 'e
  | L_Group 'e
  | L_Scalar 'e
  | L_Address 'e
  | L_Signature 'e
  | L_String 'e
  | L_Identifier 'e

datatype 'e plaintext =
    P_Literal "'e svm_literal"
  | P_Struct "(symbol \<times> 'e plaintext) list"
  | P_Array "'e plaintext list"

datatype 'e svm_value =
    SV_Plaintext "'e plaintext"
  | SV_Record 'e
  | SV_Future 'e
  | SV_DynamicRecord 'e
  | SV_DynamicFuture 'e

datatype 'e const_value = Value (value_id: "location option") (contents: "'e value_variants")
and 'e value_variants =
    V_Unit
  | V_Svm "'e svm_value"
  | V_Tuple "'e const_value list"
  | V_Unsuffixed string
  | V_Future "'e async_execution list"
  | V_String string
and 'e async_execution =
    AsyncFunctionCall location "'e const_value list"
  | AsyncBlock location node_id "(symbol list \<times> 'e const_value) list"

datatype const_error = Reason string | Panic string | Failure nat string

type_synonym 'a const_result = "const_error + 'a"

abbreviation type_error :: "'a const_result" where
  "type_error \<equiv> Inl (Reason ''Type error'')"

text \<open>The types of snarkVM to which a Leo type is converted.\<close>

datatype plaintext_type = PT_Literal literal_type | PT_Array plaintext_type int

record 'e snarkvm =
  field_add :: "'e \<Rightarrow> 'e \<Rightarrow> 'e"
  field_sub :: "'e \<Rightarrow> 'e \<Rightarrow> 'e"
  field_mul :: "'e \<Rightarrow> 'e \<Rightarrow> 'e"
  field_neg :: "'e \<Rightarrow> 'e"
  field_double :: "'e \<Rightarrow> 'e"
  field_square :: "'e \<Rightarrow> 'e"
  field_inverse :: "'e \<Rightarrow> 'e option"
  field_square_root :: "'e \<Rightarrow> string + 'e"
  field_pow :: "'e \<Rightarrow> 'e \<Rightarrow> 'e"
  field_le :: "'e \<Rightarrow> 'e \<Rightarrow> bool"
  group_add :: "'e \<Rightarrow> 'e \<Rightarrow> 'e"
  group_sub :: "'e \<Rightarrow> 'e \<Rightarrow> 'e"
  group_neg :: "'e \<Rightarrow> 'e"
  group_double :: "'e \<Rightarrow> 'e"
  group_scale :: "'e \<Rightarrow> 'e \<Rightarrow> 'e"
  to_x_coordinate :: "'e \<Rightarrow> 'e"
  to_y_coordinate :: "'e \<Rightarrow> 'e"
  scalar_add :: "'e \<Rightarrow> 'e \<Rightarrow> 'e"
  scalar_scale :: "'e \<Rightarrow> 'e \<Rightarrow> 'e"
  scalar_le :: "'e \<Rightarrow> 'e \<Rightarrow> bool"

record 'e svm_codec =
  parse_field :: "string \<Rightarrow> string + 'e"
  parse_group :: "string \<Rightarrow> string + 'e"
  parse_scalar :: "string \<Rightarrow> string + 'e"
  parse_address :: "string \<Rightarrow> string + 'e"
  parse_program_address :: "string \<Rightarrow> string + 'e"
  parse_signature :: "string \<Rightarrow> string + 'e"
  parse_identifier_literal :: "string \<Rightarrow> string + 'e"
  show_field :: "'e \<Rightarrow> string"
  show_group :: "'e \<Rightarrow> string"
  show_scalar :: "'e \<Rightarrow> string"
  show_address :: "'e \<Rightarrow> string"
  show_signature :: "'e \<Rightarrow> string"
  show_identifier_literal :: "'e \<Rightarrow> string"
  identifier_ok :: "symbol \<Rightarrow> bool"
  parse_svm_value :: "string \<Rightarrow> 'e svm_value option"
  svm_eq :: "'e svm_value \<Rightarrow> 'e svm_value \<Rightarrow> bool"
  literal_cast :: "'e svm_literal \<Rightarrow> literal_type \<Rightarrow> 'e svm_literal option"
  literal_cast_lossy :: "'e svm_literal \<Rightarrow> literal_type \<Rightarrow> 'e svm_literal option"

section \<open>Conversions\<close>

definition value_of_contents :: "'e value_variants \<Rightarrow> 'e const_value" where
  "value_of_contents c = Value None c"

definition value_of_plaintext :: "'e plaintext \<Rightarrow> 'e const_value" where
  "value_of_plaintext p = value_of_contents (V_Svm (SV_Plaintext p))"

definition value_of_literal :: "'e svm_literal \<Rightarrow> 'e const_value" where
  "value_of_literal l = value_of_plaintext (P_Literal l)"

definition value_of_svm :: "'e svm_value \<Rightarrow> 'e const_value" where
  "value_of_svm x = value_of_contents (V_Svm x)"

definition try_plaintext :: "'e const_value \<Rightarrow> 'e plaintext option" where
  "try_plaintext v = (case contents v of V_Svm (SV_Plaintext p) \<Rightarrow> Some p | _ \<Rightarrow> None)"

definition try_literal :: "'e const_value \<Rightarrow> 'e svm_literal option" where
  "try_literal v = (case contents v of V_Svm (SV_Plaintext (P_Literal l)) \<Rightarrow> Some l | _ \<Rightarrow> None)"

definition try_svm :: "'e const_value \<Rightarrow> 'e svm_value option" where
  "try_svm v = (case contents v of V_Svm x \<Rightarrow> Some x | _ \<Rightarrow> None)"

definition try_int :: "integer_type \<Rightarrow> 'e const_value \<Rightarrow> int option" where
  "try_int ty v = (case try_literal v of Some (L_Int ty' n) \<Rightarrow> if ty = ty' then Some n else None | _ \<Rightarrow> None)"

definition try_scalar :: "'e const_value \<Rightarrow> 'e option" where
  "try_scalar v = (case try_literal v of Some (L_Scalar x) \<Rightarrow> Some x | _ \<Rightarrow> None)"

definition try_group :: "'e const_value \<Rightarrow> 'e option" where
  "try_group v = (case try_literal v of Some (L_Group x) \<Rightarrow> Some x | _ \<Rightarrow> None)"

definition try_address :: "'e const_value \<Rightarrow> 'e option" where
  "try_address v = (case try_literal v of Some (L_Address x) \<Rightarrow> Some x | _ \<Rightarrow> None)"

definition try_signature :: "'e const_value \<Rightarrow> 'e option" where
  "try_signature v = (case try_literal v of Some (L_Signature x) \<Rightarrow> Some x | _ \<Rightarrow> None)"

definition try_string :: "'e const_value \<Rightarrow> string option" where
  "try_string v = (case contents v of V_String s \<Rightarrow> Some s | _ \<Rightarrow> None)"

section \<open>Comparison and arithmetic on values\<close>

definition value_lt :: "'e snarkvm \<Rightarrow> 'e const_value \<Rightarrow> 'e const_value \<Rightarrow> bool option" where
  "value_lt svm v w =
     (case (try_literal v, try_literal w) of
        (Some (L_Int ty x), Some (L_Int ty' y)) \<Rightarrow> if ty = ty' then Some (x < y) else None
      | (Some (L_Field x), Some (L_Field y)) \<Rightarrow> Some (\<not> field_le svm y x)
      | _ \<Rightarrow> None)"

definition value_lte :: "'e snarkvm \<Rightarrow> 'e const_value \<Rightarrow> 'e const_value \<Rightarrow> bool option" where
  "value_lte svm v w =
     (case (try_literal v, try_literal w) of
        (Some (L_Int ty x), Some (L_Int ty' y)) \<Rightarrow> if ty = ty' then Some (x \<le> y) else None
      | (Some (L_Field x), Some (L_Field y)) \<Rightarrow> Some (field_le svm x y)
      | _ \<Rightarrow> None)"

definition value_gt :: "'e snarkvm \<Rightarrow> 'e const_value \<Rightarrow> 'e const_value \<Rightarrow> bool option" where
  "value_gt svm v w = value_lt svm w v"

definition value_gte :: "'e snarkvm \<Rightarrow> 'e const_value \<Rightarrow> 'e const_value \<Rightarrow> bool option" where
  "value_gte svm v w = value_lte svm w v"

definition inc_wrapping :: "'e const_value \<Rightarrow> 'e const_value option" where
  "inc_wrapping v =
     (case try_literal v of
        Some (L_Int ty x) \<Rightarrow> Some (value_of_literal (L_Int ty (wrapping_add ty x 1)))
      | _ \<Rightarrow> None)"

text \<open>
  \<^verbatim>\<open>Value::add\<close>: the index must fit the type (\<^verbatim>\<open>try_into\<close>); the addition itself is the plain
  operator \<^verbatim>\<open>+\<close>, which panics on overflow in a build with overflow checks.
\<close>

definition value_add :: "'e const_value \<Rightarrow> nat \<Rightarrow> 'e const_value option const_result" where
  "value_add v i =
     (case try_literal v of
        Some (L_Int ty x) \<Rightarrow>
          if in_range ty (int i)
          then (case checked_add ty x (int i) of
                  Some z \<Rightarrow> Inr (Some (value_of_literal (L_Int ty z)))
                | None \<Rightarrow> Inl (Panic ''attempt to add with overflow''))
          else Inr None
      | _ \<Rightarrow> Inr None)"

fun literal_type_of :: "leo_type \<Rightarrow> literal_type option" where
  "literal_type_of T_Address = Some LT_Address"
| "literal_type_of T_Boolean = Some LT_Boolean"
| "literal_type_of T_Field = Some LT_Field"
| "literal_type_of T_Group = Some LT_Group"
| "literal_type_of (T_Integer U8) = Some LT_U8"
| "literal_type_of (T_Integer U16) = Some LT_U16"
| "literal_type_of (T_Integer U32) = Some LT_U32"
| "literal_type_of (T_Integer U64) = Some LT_U64"
| "literal_type_of (T_Integer U128) = Some LT_U128"
| "literal_type_of (T_Integer I8) = Some LT_I8"
| "literal_type_of (T_Integer I16) = Some LT_I16"
| "literal_type_of (T_Integer I32) = Some LT_I32"
| "literal_type_of (T_Integer I64) = Some LT_I64"
| "literal_type_of (T_Integer I128) = Some LT_I128"
| "literal_type_of T_Scalar = Some LT_Scalar"
| "literal_type_of T_Signature = Some LT_Signature"
| "literal_type_of T_String = Some LT_String"
| "literal_type_of _ = None"

definition value_cast :: "'e svm_codec \<Rightarrow> 'e const_value \<Rightarrow> leo_type \<Rightarrow> 'e const_value option" where
  "value_cast codec v ty =
     (case literal_type_of ty of
        None \<Rightarrow> None
      | Some lt \<Rightarrow> Option.bind (try_literal v) (\<lambda>l. map_option value_of_literal (literal_cast codec l lt)))"

definition cast_lossy :: "'e svm_codec \<Rightarrow> 'e const_value \<Rightarrow> literal_type \<Rightarrow> 'e const_value option" where
  "cast_lossy codec v lt =
     Option.bind (try_literal v) (\<lambda>l. map_option value_of_literal (literal_cast_lossy codec l lt))"

definition value_as_u32 :: "'e const_value \<Rightarrow> int option" where
  "value_as_u32 v = (case try_literal v of Some (L_Int _ x) \<Rightarrow> checked_in U32 x | _ \<Rightarrow> None)"

definition value_as_i128 :: "'e const_value \<Rightarrow> int option" where
  "value_as_i128 v = (case try_literal v of Some (L_Int _ x) \<Rightarrow> checked_in I128 x | _ \<Rightarrow> None)"

section \<open>Arrays, tuples and structs\<close>

text \<open>Indexing a slice out of its bounds (\<^verbatim>\<open>array[i]\<close>) panics.\<close>

definition array_index :: "'e const_value \<Rightarrow> nat \<Rightarrow> 'e const_value option const_result" where
  "array_index v i =
     (case try_plaintext v of
        Some (P_Array ps) \<Rightarrow>
          if i < length ps then Inr (Some (value_of_plaintext (ps ! i)))
          else Inl (Panic ''index out of bounds'')
      | _ \<Rightarrow> Inr None)"

text \<open>The operations that update in place return the updated value, or \<open>None\<close> and leave it alone.\<close>

definition array_index_set ::
  "'e const_value \<Rightarrow> nat \<Rightarrow> 'e const_value \<Rightarrow> 'e const_value option" where
  "array_index_set v i new =
     (case (try_plaintext new, contents v) of
        (Some rhs, V_Svm (SV_Plaintext (P_Array ps))) \<Rightarrow>
          if i < length ps then Some (Value (value_id v) (V_Svm (SV_Plaintext (P_Array (ps[i := rhs])))))
          else None
      | _ \<Rightarrow> None)"

definition tuple_len :: "'e const_value \<Rightarrow> nat option" where
  "tuple_len v = (case contents v of V_Tuple vs \<Rightarrow> Some (length vs) | _ \<Rightarrow> None)"

definition tuple_index :: "'e const_value \<Rightarrow> nat \<Rightarrow> 'e const_value option const_result" where
  "tuple_index v i =
     (case contents v of
        V_Tuple vs \<Rightarrow> if i < length vs then Inr (Some (vs ! i)) else Inl (Panic ''index out of bounds'')
      | _ \<Rightarrow> Inr None)"

definition tuple_index_set ::
  "'e const_value \<Rightarrow> nat \<Rightarrow> 'e const_value \<Rightarrow> 'e const_value option" where
  "tuple_index_set v i new =
     (case contents v of
        V_Tuple vs \<Rightarrow> if i < length vs then Some (Value (value_id v) (V_Tuple (vs[i := new]))) else None
      | _ \<Rightarrow> None)"

definition as_future :: "'e const_value \<Rightarrow> 'e async_execution list option" where
  "as_future v = (case contents v of V_Future xs \<Rightarrow> Some xs | _ \<Rightarrow> None)"

datatype svm_access = Access_Member symbol | Access_Index nat

fun access_plaintext :: "svm_access list \<Rightarrow> 'e plaintext \<Rightarrow> 'e plaintext option" where
  "access_plaintext [] p = Some p"
| "access_plaintext (Access_Member m # as) (P_Struct ms) = Option.bind (map_of ms m) (access_plaintext as)"
| "access_plaintext (Access_Index i # as) (P_Array ps) =
     (if i < length ps then access_plaintext as (ps ! i) else None)"
| "access_plaintext (a # as) p = None"

definition accesses :: "'e const_value \<Rightarrow> svm_access list \<Rightarrow> 'e const_value option" where
  "accesses v as =
     (case contents v of
        V_Svm (SV_Plaintext p) \<Rightarrow> map_option value_of_plaintext (access_plaintext as p)
      | _ \<Rightarrow> None)"

definition member_access ::
  "'e svm_codec \<Rightarrow> 'e const_value \<Rightarrow> symbol \<Rightarrow> 'e const_value option const_result" where
  "member_access codec v m =
     (case contents v of
        V_Svm (SV_Plaintext (P_Struct ms)) \<Rightarrow>
          if identifier_ok codec m then Inr (map_option value_of_plaintext (map_of ms m))
          else Inl (Panic ''Member name should be valid identifier'')
      | _ \<Rightarrow> Inr None)"

definition member_set ::
  "'e svm_codec \<Rightarrow> 'e const_value \<Rightarrow> symbol \<Rightarrow> 'e const_value \<Rightarrow> 'e const_value option" where
  "member_set codec v m new =
     (case (try_plaintext new, contents v) of
        (Some p, V_Svm (SV_Plaintext (P_Struct ms))) \<Rightarrow>
          if identifier_ok codec m \<and> map_of ms m \<noteq> None
          then Some (Value (value_id v) (V_Svm (SV_Plaintext (P_Struct (AList.update m p ms)))))
          else None
      | _ \<Rightarrow> None)"

section \<open>Construction\<close>

definition make_unit :: "'e const_value" where
  "make_unit = Value None V_Unit"

definition make_string :: "string \<Rightarrow> 'e const_value" where
  "make_string s = value_of_contents (V_String s)"

definition make_tuple :: "'e const_value list \<Rightarrow> 'e const_value" where
  "make_tuple vs = value_of_contents (V_Tuple vs)"

fun collect_plaintexts :: "string \<Rightarrow> 'e const_value list \<Rightarrow> 'e plaintext list const_result" where
  "collect_plaintexts msg [] = Inr []"
| "collect_plaintexts msg (v # vs) =
     bind_res (ok_or (Panic msg) (try_plaintext v))
       (\<lambda>p. map_res ((#) p) (collect_plaintexts msg vs))"

definition make_array :: "'e const_value list \<Rightarrow> 'e const_value const_result" where
  "make_array vs =
     map_res (\<lambda>ps. value_of_plaintext (P_Array ps))
       (collect_plaintexts ''Invalid array members shouldn't have been allowed.'' vs)"

fun collect_members ::
  "'e svm_codec \<Rightarrow> (symbol \<times> 'e const_value) list \<Rightarrow> (symbol \<times> 'e plaintext) list \<Rightarrow>
     (symbol \<times> 'e plaintext) list const_result" where
  "collect_members codec [] acc = Inr acc"
| "collect_members codec ((s, v) # ms) acc =
     (if \<not> identifier_ok codec s then Inl (Panic ''Invalid identifiers shouldn't have been allowed.'')
      else bind_res (ok_or (Panic ''Invalid struct members shouldn't have been allowed.'') (try_plaintext v))
             (\<lambda>p. collect_members codec ms (AList.update s p acc)))"

definition make_struct ::
  "'e svm_codec \<Rightarrow> (symbol \<times> 'e const_value) list \<Rightarrow> location \<Rightarrow> 'e const_value const_result" where
  "make_struct codec ms loc =
     map_res (\<lambda>m. Value (Some loc) (V_Svm (SV_Plaintext (P_Struct m)))) (collect_members codec ms [])"

definition get_numeric_type :: "'e const_value \<Rightarrow> leo_type option" where
  "get_numeric_type v =
     (case try_literal v of
        Some (L_Int ty _) \<Rightarrow> Some (T_Integer ty)
      | Some (L_Field _) \<Rightarrow> Some T_Field
      | Some (L_Group _) \<Rightarrow> Some T_Group
      | Some (L_Scalar _) \<Rightarrow> Some T_Scalar
      | _ \<Rightarrow> None)"

section \<open>From values back to expressions\<close>

text \<open>
  The builder of node identifiers is a counter, threaded through: \<open>Inr (Some (e, n'))\<close> is the
  expression and the next identifier, \<open>Inr None\<close> the \<^verbatim>\<open>None\<close> of the code.
\<close>

type_synonym 'a build_result = "('a \<times> node_id) option const_result"

definition strip_suffix_len :: "nat \<Rightarrow> string \<Rightarrow> string const_result" where
  "strip_suffix_len k s =
     (if length s < k then Inl (Panic ''attempt to subtract with overflow'')
      else Inr (take (length s - k) s))"

definition trim_quotes :: "string \<Rightarrow> string" where
  "trim_quotes s =
     rev (dropWhile (\<lambda>c. c = CHR 0x27) (rev (dropWhile (\<lambda>c. c = CHR 0x27) s)))"

definition literal_expr :: "literal_variant \<Rightarrow> node_id \<Rightarrow> expression" where
  "literal_expr v n = E_Literal \<lparr>lit_variant = v, lit_id = n\<rparr>"

fun literal_to_expression ::
  "'e svm_codec \<Rightarrow> 'e svm_literal \<Rightarrow> node_id \<Rightarrow> node_id \<Rightarrow> expression build_result" where
  "literal_to_expression codec (L_Address a) i n = Inr (Some (literal_expr (Lit_Address (show_address codec a)) n, Suc n))"
| "literal_to_expression codec (L_Boolean b) i n = Inr (Some (literal_expr (Lit_Boolean b) n, Suc n))"
| "literal_to_expression codec (L_Field x) i n =
     map_res (\<lambda>s. Some (literal_expr (Lit_Field s) i, n)) (strip_suffix_len 5 (show_field codec x))"
| "literal_to_expression codec (L_Group x) i n =
     map_res (\<lambda>s. Some (literal_expr (Lit_Group s) i, n)) (strip_suffix_len 5 (show_group codec x))"
| "literal_to_expression codec (L_Int ty x) i n = Inr (Some (literal_expr (Lit_Integer ty (show_int x)) i, n))"
| "literal_to_expression codec (L_Scalar x) i n =
     map_res (\<lambda>s. Some (literal_expr (Lit_Scalar s) i, n)) (strip_suffix_len 6 (show_scalar codec x))"
| "literal_to_expression codec (L_Signature x) i n =
     Inr (Some (literal_expr (Lit_Address (show_signature codec x)) n, Suc n))"
| "literal_to_expression codec (L_String x) i n = Inr None"
| "literal_to_expression codec (L_Identifier x) i n =
     Inr (Some (literal_expr (Lit_Identifier (trim_quotes (show_identifier_literal codec x))) n, Suc n))"

text \<open>Sequencing of builds: a panic or a \<^verbatim>\<open>None\<close> ends them.\<close>

definition bind_build :: "'a build_result \<Rightarrow> ('a \<Rightarrow> node_id \<Rightarrow> 'b build_result) \<Rightarrow> 'b build_result" where
  "bind_build r f =
     (case r of Inl e \<Rightarrow> Inl e | Inr None \<Rightarrow> Inr None | Inr (Some (a, n)) \<Rightarrow> f a n)"

lemma bind_build_cong [fundef_cong]:
  "r = r' \<Longrightarrow> (\<And>a n. r' = Inr (Some (a, n)) \<Longrightarrow> f a n = g a n) \<Longrightarrow> bind_build r f = bind_build r' g"
  by (auto simp: bind_build_def split: sum.split option.split)

lemma size_member [termination_simp]:
  "map_of ms m = Some p \<Longrightarrow> size p < Suc (size_list (size_prod (\<lambda>_. 0) size) ms)"
  by (induction ms) (auto split: if_splits)

function plaintext_to_expression ::
    "'e svm_codec \<Rightarrow> (location \<Rightarrow> (symbol \<times> leo_type) list) \<Rightarrow> 'e plaintext \<Rightarrow> leo_type \<Rightarrow> node_id \<Rightarrow>
       expression build_result"
  and members_to_expressions ::
    "'e svm_codec \<Rightarrow> (location \<Rightarrow> (symbol \<times> leo_type) list) \<Rightarrow> (symbol \<times> 'e plaintext) list \<Rightarrow>
       (symbol \<times> leo_type) list \<Rightarrow> node_id \<Rightarrow> field_initializer list build_result"
  and elements_to_expressions ::
    "'e svm_codec \<Rightarrow> (location \<Rightarrow> (symbol \<times> leo_type) list) \<Rightarrow> 'e plaintext list \<Rightarrow> leo_type \<Rightarrow> node_id \<Rightarrow>
       expression list build_result"
where
  "plaintext_to_expression codec lookup p ty n =
     (case p of
        P_Literal l \<Rightarrow> literal_to_expression codec l n (Suc n)
      | P_Struct ms \<Rightarrow>
          (case ty of
             T_Composite path _ \<Rightarrow>
               (case try_global_location path of
                  None \<Rightarrow> Inl (Panic ''Expected a global path'')
                | Some loc \<Rightarrow>
                    bind_build (members_to_expressions codec lookup ms (lookup loc) (Suc n))
                      (\<lambda>inits n'. Inr (Some (E_Composite path [] inits None n, n'))))
           | _ \<Rightarrow> Inr None)
      | P_Array ps \<Rightarrow>
          (case ty of
             T_Array elem _ \<Rightarrow>
               bind_build (elements_to_expressions codec lookup ps elem (Suc n))
                 (\<lambda>es n'. Inr (Some (E_Array es n, n')))
           | _ \<Rightarrow> Inr None))"
| "members_to_expressions codec lookup ms [] n = Inr (Some ([], n))"
| "members_to_expressions codec lookup ms ((mem, ty) # rest) n =
     (if \<not> identifier_ok codec mem then Inr None
      else case map_of ms mem of
        None \<Rightarrow> Inr None
      | Some p \<Rightarrow>
          bind_build (plaintext_to_expression codec lookup p ty (Suc (Suc n)))
            (\<lambda>e n'. bind_build (members_to_expressions codec lookup ms rest n')
               (\<lambda>inits n''. Inr (Some (Field_Init \<lparr>ident_name = mem, ident_id = Suc n\<rparr> (Some e) n # inits, n'')))))"
| "elements_to_expressions codec lookup [] ty n = Inr (Some ([], n))"
| "elements_to_expressions codec lookup (p # ps) ty n =
     bind_build (plaintext_to_expression codec lookup p ty n)
       (\<lambda>e n'. bind_build (elements_to_expressions codec lookup ps ty n')
          (\<lambda>es n''. Inr (Some (e # es, n''))))"
  by pat_completeness auto
termination
  by (relation "measures [\<lambda>x. (case x of
        Inl (codec, lookup, p, ty, n) \<Rightarrow> 2 * size p
      | Inr (Inl (codec, lookup, ms, rest, n)) \<Rightarrow> 2 * size_list (size_prod (\<lambda>_. 0) size) ms + 1
      | Inr (Inr (codec, lookup, ps, ty, n)) \<Rightarrow> 2 * size_list size ps + 1),
      \<lambda>x. (case x of
        Inl _ \<Rightarrow> 0
      | Inr (Inl (codec, lookup, ms, rest, n)) \<Rightarrow> length rest
      | Inr (Inr (codec, lookup, ps, ty, n)) \<Rightarrow> length ps)]")
    (auto dest: size_member)

declare plaintext_to_expression.simps [simp del]

function to_expression ::
    "'e svm_codec \<Rightarrow> (location \<Rightarrow> (symbol \<times> leo_type) list) \<Rightarrow> 'e const_value \<Rightarrow> leo_type \<Rightarrow> node_id \<Rightarrow>
       expression build_result"
  and tuple_to_expressions ::
    "'e svm_codec \<Rightarrow> (location \<Rightarrow> (symbol \<times> leo_type) list) \<Rightarrow> 'e const_value list \<Rightarrow> leo_type list \<Rightarrow>
       node_id \<Rightarrow> expression list build_result"
where
  "to_expression codec lookup v ty n =
     (case contents v of
        V_Unit \<Rightarrow> Inr (Some (E_Unit n, Suc n))
      | V_Tuple vs \<Rightarrow>
          (case ty of
             T_Tuple tys \<Rightarrow>
               if length vs \<noteq> length tys then Inr None
               else bind_build (tuple_to_expressions codec lookup vs tys (Suc n))
                      (\<lambda>es n'. Inr (Some (E_Tuple es n, n')))
           | _ \<Rightarrow> Inr None)
      | V_Unsuffixed s \<Rightarrow> Inr (Some (literal_expr (Lit_Unsuffixed s) n, Suc n))
      | V_Svm (SV_Plaintext p) \<Rightarrow> plaintext_to_expression codec lookup p ty (Suc n)
      | V_Svm _ \<Rightarrow> Inr None
      | V_Future _ \<Rightarrow> Inr None
      | V_String s \<Rightarrow> Inr (Some (literal_expr (Lit_String s) n, Suc n)))"
| "tuple_to_expressions codec lookup [] tys n = Inr (Some ([], n))"
| "tuple_to_expressions codec lookup (v # vs) [] n = Inr (Some ([], n))"
| "tuple_to_expressions codec lookup (v # vs) (ty # tys) n =
     bind_build (to_expression codec lookup v ty n)
       (\<lambda>e n'. bind_build (tuple_to_expressions codec lookup vs tys n')
          (\<lambda>es n''. Inr (Some (e # es, n''))))"
  by pat_completeness auto
termination
proof (relation "measure (\<lambda>x. case x of
        Inl (codec, lookup, v, ty, n) \<Rightarrow> size v
      | Inr (codec, lookup, vs, tys, n) \<Rightarrow> size_list size vs)", goal_cases)
  case (2 codec lookup v ty n vs tys)
  then show ?case by (cases v) auto
qed auto

declare to_expression.simps [simp del]

end
