(* ===== verification/Const_Eval.thy ===== *)
theory Const_Eval
  imports Const_Value
begin

text \<open>
  Evaluation of operators on constants (\<^verbatim>\<open>crates/ast/src/const_eval/evaluate.rs\<close>): conversion of
  literals, inference of the type of unsuffixed operands, and the unary and binary operators, one
  definition for each arm of the match.
\<close>

section \<open>Equality\<close>

fun value_eq :: "'e svm_codec \<Rightarrow> 'e const_value \<Rightarrow> 'e const_value \<Rightarrow> bool const_result"
  and values_eq :: "'e svm_codec \<Rightarrow> 'e const_value list \<Rightarrow> 'e const_value list \<Rightarrow> bool const_result" where
  "value_eq codec (Value i c) (Value j d) =
     (if i \<noteq> j then Inr False
      else case (c, d) of
        (V_Unsuffixed _, _) \<Rightarrow> Inl (Reason ''equality on unsuffixed value'')
      | (_, V_Unsuffixed _) \<Rightarrow> Inl (Reason ''equality on unsuffixed value'')
      | (V_Unit, V_Unit) \<Rightarrow> Inr True
      | (V_Tuple xs, V_Tuple ys) \<Rightarrow>
          if length xs \<noteq> length ys then Inr False else values_eq codec xs ys
      | (V_Svm x, V_Svm y) \<Rightarrow> Inr (svm_eq codec x y)
      | _ \<Rightarrow> Inl (Reason ''Type failure''))"
| "values_eq codec [] ys = Inr True"
| "values_eq codec (x # xs) [] = Inr True"
| "values_eq codec (x # xs) (y # ys) =
     bind_res (value_eq codec x y) (\<lambda>b. if b then values_eq codec xs ys else Inr False)"

section \<open>Literals\<close>

definition parse_tc :: "string + 'a \<Rightarrow> 'a const_result" where
  "parse_tc r = (case r of Inl e \<Rightarrow> Inl (Reason (''type failure: '' @ e)) | Inr a \<Rightarrow> Inr a)"

definition prepare_snarkvm_string :: "string \<Rightarrow> string \<Rightarrow> string" where
  "prepare_snarkvm_string s suffix =
     (let (neg, rest) = (case strip_prefix ''-'' s of Some rest \<Rightarrow> (''-'', rest) | None \<Rightarrow> ('''', s));
          rest = dropWhile (\<lambda>c. c = CHR ''0'') rest;
          rest = (if rest = [] then ''0'' else rest)
      in neg @ rest @ suffix)"

text \<open>\<^verbatim>\<open>from_str_by_radix(..).expect(..)\<close>\<close>

definition expect_int :: "integer_type \<Rightarrow> string \<Rightarrow> 'e svm_literal const_result" where
  "expect_int ty s =
     (case from_str_by_radix ty (remove_underscores s) of
        Inl _ \<Rightarrow> Inl (Panic ''Parsing guarantees this works.'')
      | Inr n \<Rightarrow> Inr (L_Int ty n))"

definition resolve_if_unsuffixed ::
  "'e svm_codec \<Rightarrow> 'e const_value \<Rightarrow> leo_type option \<Rightarrow> 'e const_value const_result" where
  "resolve_if_unsuffixed codec v ty =
     (case contents v of
        V_Unsuffixed s \<Rightarrow>
          (case ty of
             None \<Rightarrow> Inr v
           | Some (T_Integer int_ty) \<Rightarrow> map_res value_of_literal (expect_int int_ty s)
           | Some T_Field \<Rightarrow>
               map_res (\<lambda>x. value_of_literal (L_Field x))
                 (parse_tc (parse_field codec (prepare_snarkvm_string s ''field'')))
           | Some T_Group \<Rightarrow>
               map_res (\<lambda>x. value_of_literal (L_Group x))
                 (parse_tc (parse_group codec (prepare_snarkvm_string s ''group'')))
           | Some T_Scalar \<Rightarrow>
               map_res (\<lambda>x. value_of_literal (L_Scalar x))
                 (parse_tc (parse_scalar codec (prepare_snarkvm_string s ''scalar'')))
           | _ \<Rightarrow> Inl (Reason ''cannot infer type of unsuffixed literal''))
      | _ \<Rightarrow> Inr v)"

definition ends_with_aleo :: "string \<Rightarrow> bool" where
  "ends_with_aleo s \<longleftrightarrow> 5 \<le> length s \<and> drop (length s - 5) s = ''.aleo''"

definition literal_to_value ::
  "'e svm_codec \<Rightarrow> literal \<Rightarrow> leo_type option \<Rightarrow> 'e const_value const_result" where
  "literal_to_value codec l expected_ty =
     (case lit_variant l of
        Lit_Address s \<Rightarrow>
          if ends_with_aleo s
          then map_res (\<lambda>x. value_of_literal (L_Address x)) (parse_tc (parse_program_address codec s))
          else map_res (\<lambda>x. value_of_literal (L_Address x)) (parse_tc (parse_address codec s))
      | Lit_Boolean b \<Rightarrow> Inr (value_of_literal (L_Boolean b))
      | Lit_Field s \<Rightarrow>
          map_res (\<lambda>x. value_of_literal (L_Field x))
            (parse_tc (parse_field codec (prepare_snarkvm_string s ''field'')))
      | Lit_Group s \<Rightarrow>
          map_res (\<lambda>x. value_of_literal (L_Group x))
            (parse_tc (parse_group codec (prepare_snarkvm_string s ''group'')))
      | Lit_Identifier s \<Rightarrow>
          map_res (\<lambda>x. value_of_literal (L_Identifier x)) (parse_tc (parse_identifier_literal codec s))
      | Lit_Integer ty s \<Rightarrow> map_res value_of_literal (expect_int ty s)
      | Lit_None \<Rightarrow> Inl (Reason ''none literal has no value'')
      | Lit_Scalar s \<Rightarrow>
          map_res (\<lambda>x. value_of_literal (L_Scalar x))
            (parse_tc (parse_scalar codec (prepare_snarkvm_string s ''scalar'')))
      | Lit_Signature s \<Rightarrow>
          map_res (\<lambda>x. value_of_literal (L_Signature x)) (parse_tc (parse_signature codec s))
      | Lit_String s \<Rightarrow> Inr (make_string s)
      | Lit_Unsuffixed s \<Rightarrow> resolve_if_unsuffixed codec (Value None (V_Unsuffixed s)) expected_ty)"

section \<open>Unary operators\<close>

definition resolve_unsuffixed_unary_op_operand ::
  "'e svm_codec \<Rightarrow> 'e const_value \<Rightarrow> unary_operation \<Rightarrow> leo_type option \<Rightarrow> 'e const_value const_result" where
  "resolve_unsuffixed_unary_op_operand codec v op expected_ty =
     (if op \<in> {Inverse, Square, SquareRoot} then resolve_if_unsuffixed codec v (Some T_Field)
      else if op \<in> {ToXCoordinate, ToYCoordinate} then resolve_if_unsuffixed codec v (Some T_Group)
      else resolve_if_unsuffixed codec v expected_ty)"

primrec eval_unary :: "'e snarkvm \<Rightarrow> unary_operation \<Rightarrow> 'e svm_literal \<Rightarrow> 'e svm_literal const_result" where
  "eval_unary svm Abs l =
     (case l of
        L_Int ty x \<Rightarrow>
          if is_signed ty then map_res (L_Int ty) (ok_or (Reason ''abs overflow'') (checked_abs ty x))
          else type_error
      | _ \<Rightarrow> type_error)"
| "eval_unary svm AbsWrapped l =
     (case l of
        L_Int ty x \<Rightarrow> if is_signed ty then Inr (L_Int ty (wrapping_abs ty x)) else type_error
      | _ \<Rightarrow> type_error)"
| "eval_unary svm Double l =
     (case l of
        L_Field x \<Rightarrow> Inr (L_Field (field_double svm x))
      | L_Group x \<Rightarrow> Inr (L_Group (group_double svm x))
      | _ \<Rightarrow> type_error)"
| "eval_unary svm Inverse l =
     (case l of
        L_Field x \<Rightarrow> map_res L_Field (ok_or (Reason ''attempt to invert 0field'') (field_inverse svm x))
      | _ \<Rightarrow> Inl (Reason ''Can only invert fields''))"
| "eval_unary svm Negate l =
     (case l of
        L_Int ty x \<Rightarrow>
          if is_signed ty then map_res (L_Int ty) (ok_or (Reason ''negation overflow'') (checked_neg ty x))
          else type_error
      | L_Group x \<Rightarrow> Inr (L_Group (group_neg svm x))
      | L_Field x \<Rightarrow> Inr (L_Field (field_neg svm x))
      | _ \<Rightarrow> type_error)"
| "eval_unary svm Not l =
     (case l of
        L_Boolean b \<Rightarrow> Inr (L_Boolean (\<not> b))
      | L_Int ty x \<Rightarrow> Inr (L_Int ty (bit_not ty x))
      | _ \<Rightarrow> type_error)"
| "eval_unary svm Square l =
     (case l of
        L_Field x \<Rightarrow> Inr (L_Field (field_square svm x))
      | _ \<Rightarrow> Inl (Reason ''Can only square fields''))"
| "eval_unary svm SquareRoot l =
     (case l of
        L_Field x \<Rightarrow>
          (case field_square_root svm x of
             Inl e \<Rightarrow> Inl (Reason (''square root failure: '' @ e))
           | Inr y \<Rightarrow> Inr (L_Field y))
      | _ \<Rightarrow> Inl (Reason ''Can only apply square_root to fields''))"
| "eval_unary svm ToXCoordinate l =
     (case l of
        L_Group x \<Rightarrow> Inr (L_Field (to_x_coordinate svm x))
      | _ \<Rightarrow> Inl (Panic ''type checker failure''))"
| "eval_unary svm ToYCoordinate l =
     (case l of
        L_Group x \<Rightarrow> Inr (L_Field (to_y_coordinate svm x))
      | _ \<Rightarrow> Inl (Panic ''type checker failure''))"

definition evaluate_unary_inner ::
  "'e snarkvm \<Rightarrow> 'e svm_codec \<Rightarrow> unary_operation \<Rightarrow> 'e const_value \<Rightarrow> leo_type option \<Rightarrow>
     'e const_value const_result" where
  "evaluate_unary_inner svm codec op v expected_ty =
     bind_res (resolve_unsuffixed_unary_op_operand codec v op expected_ty)
       (\<lambda>w. case try_literal w of
          None \<Rightarrow> type_error
        | Some l \<Rightarrow> map_res value_of_literal (eval_unary svm op l))"

text \<open>\<^verbatim>\<open>map_err\<close> with a formatted error: its code (\<^verbatim>\<open>CODE_MASK\<close> is 8000) and the reason.\<close>

definition map_reason :: "nat \<Rightarrow> 'a const_result \<Rightarrow> 'a const_result" where
  "map_reason code r = (case r of Inl (Reason s) \<Rightarrow> Inl (Failure code s) | _ \<Rightarrow> r)"

definition evaluate_unary ::
  "'e snarkvm \<Rightarrow> 'e svm_codec \<Rightarrow> unary_operation \<Rightarrow> 'e const_value \<Rightarrow> leo_type option \<Rightarrow>
     'e const_value const_result" where
  "evaluate_unary svm codec op v expected_ty =
     map_reason 8001 (evaluate_unary_inner svm codec op v expected_ty)"

section \<open>Binary operators\<close>

definition filter_field :: "leo_type option \<Rightarrow> leo_type option" where
  "filter_field ty = (case ty of Some T_Field \<Rightarrow> Some T_Field | _ \<Rightarrow> None)"

definition resolve_mul_operand ::
  "'e svm_codec \<Rightarrow> 'e const_value \<Rightarrow> leo_type option \<Rightarrow> leo_type option \<Rightarrow> 'e const_value const_result" where
  "resolve_mul_operand codec v other_ty expected_ty =
     (case other_ty of
        Some T_Group \<Rightarrow> resolve_if_unsuffixed codec v (Some T_Scalar)
      | Some T_Scalar \<Rightarrow> resolve_if_unsuffixed codec v (Some T_Group)
      | _ \<Rightarrow> bind_res (resolve_if_unsuffixed codec v other_ty) (\<lambda>w. resolve_if_unsuffixed codec w expected_ty))"

definition resolve_unsuffixed_binary_op_operands ::
  "'e svm_codec \<Rightarrow> 'e const_value \<Rightarrow> 'e const_value \<Rightarrow> binary_operation \<Rightarrow> leo_type option \<Rightarrow>
     ('e const_value \<times> 'e const_value) const_result" where
  "resolve_unsuffixed_binary_op_operands codec lhs rhs op expected_ty =
     (let lhs_ty = get_numeric_type lhs; rhs_ty = get_numeric_type rhs in
      if op = Mul then
        bind_res (resolve_mul_operand codec lhs rhs_ty expected_ty)
          (\<lambda>l. map_res (Pair l) (resolve_mul_operand codec rhs lhs_ty expected_ty))
      else if op = Pow then
        bind_res (resolve_if_unsuffixed codec lhs (filter_field rhs_ty))
          (\<lambda>l. bind_res (resolve_if_unsuffixed codec l expected_ty)
             (\<lambda>l. map_res (Pair l) (resolve_if_unsuffixed codec rhs (filter_field lhs_ty))))
      else
        bind_res (resolve_if_unsuffixed codec lhs rhs_ty)
          (\<lambda>l. bind_res (resolve_if_unsuffixed codec l expected_ty)
             (\<lambda>l. bind_res (resolve_if_unsuffixed codec rhs lhs_ty)
                (\<lambda>r. map_res (Pair l) (resolve_if_unsuffixed codec r expected_ty)))))"

text \<open>Two integers of the same type, or two booleans; the common shape of the arms.\<close>

definition on_ints ::
  "(integer_type \<Rightarrow> int \<Rightarrow> int \<Rightarrow> 'a) \<Rightarrow> 'e svm_literal \<Rightarrow> 'e svm_literal \<Rightarrow> 'a option" where
  "on_ints f l r =
     (case (l, r) of (L_Int ty x, L_Int ty' y) \<Rightarrow> if ty = ty' then Some (f ty x y) else None | _ \<Rightarrow> None)"

definition on_bools ::
  "(bool \<Rightarrow> bool \<Rightarrow> bool) \<Rightarrow> 'e svm_literal \<Rightarrow> 'e svm_literal \<Rightarrow> 'e svm_literal const_result" where
  "on_bools f l r = (case (l, r) of (L_Boolean x, L_Boolean y) \<Rightarrow> Inr (L_Boolean (f x y)) | _ \<Rightarrow> type_error)"

definition checked_result ::
  "string \<Rightarrow> integer_type \<Rightarrow> int option \<Rightarrow> 'e svm_literal const_result" where
  "checked_result msg ty r = map_res (L_Int ty) (ok_or (Reason msg) r)"

definition wrapped_ints ::
  "(integer_type \<Rightarrow> int \<Rightarrow> int \<Rightarrow> int) \<Rightarrow> 'e svm_literal \<Rightarrow> 'e svm_literal \<Rightarrow> 'e svm_literal const_result" where
  "wrapped_ints f l r = (case on_ints (\<lambda>ty x y. L_Int ty (f ty x y)) l r of Some z \<Rightarrow> Inr z | None \<Rightarrow> type_error)"

definition eval_add :: "'e snarkvm \<Rightarrow> 'e svm_literal \<Rightarrow> 'e svm_literal \<Rightarrow> 'e svm_literal const_result" where
  "eval_add svm l r =
     (case (l, r) of
        (L_Group x, L_Group y) \<Rightarrow> Inr (L_Group (group_add svm x y))
      | (L_Field x, L_Field y) \<Rightarrow> Inr (L_Field (field_add svm x y))
      | (L_Scalar x, L_Scalar y) \<Rightarrow> Inr (L_Scalar (scalar_add svm x y))
      | _ \<Rightarrow> (case on_ints (\<lambda>ty x y. checked_result ''add overflow'' ty (checked_add ty x y)) l r of
                Some res \<Rightarrow> res | None \<Rightarrow> type_error))"

definition eval_add_wrapped :: "'e svm_literal \<Rightarrow> 'e svm_literal \<Rightarrow> 'e svm_literal const_result" where
  "eval_add_wrapped = wrapped_ints wrapping_add"

definition eval_and :: "'e svm_literal \<Rightarrow> 'e svm_literal \<Rightarrow> 'e svm_literal const_result" where
  "eval_and = on_bools (\<and>)"

definition eval_bitwise_and :: "'e svm_literal \<Rightarrow> 'e svm_literal \<Rightarrow> 'e svm_literal const_result" where
  "eval_bitwise_and l r =
     (case (l, r) of
        (L_Boolean x, L_Boolean y) \<Rightarrow> Inr (L_Boolean (x \<and> y))
      | _ \<Rightarrow> wrapped_ints (\<lambda>ty x y. x AND y) l r)"

definition eval_div :: "'e snarkvm \<Rightarrow> 'e svm_literal \<Rightarrow> 'e svm_literal \<Rightarrow> 'e svm_literal const_result" where
  "eval_div svm l r =
     (case (l, r) of
        (L_Field x, L_Field y) \<Rightarrow>
          map_res L_Field (ok_or (Reason ''div overflow'') (map_option (field_mul svm x) (field_inverse svm y)))
      | _ \<Rightarrow> (case on_ints (\<lambda>ty x y. checked_result ''div overflow'' ty (checked_div ty x y)) l r of
                Some res \<Rightarrow> res | None \<Rightarrow> type_error))"

text \<open>The guard \<^verbatim>\<open>if **y != 0\<close> sends a zero divisor to the arm for type errors.\<close>

definition eval_div_wrapped :: "'e svm_literal \<Rightarrow> 'e svm_literal \<Rightarrow> 'e svm_literal const_result" where
  "eval_div_wrapped l r =
     (case on_ints (\<lambda>ty x y. if y \<noteq> 0 then Inr (L_Int ty (wrapping_div ty x y)) else type_error) l r of
        Some res \<Rightarrow> res | None \<Rightarrow> type_error)"

definition eval_compare ::
  "(int \<Rightarrow> int \<Rightarrow> bool) \<Rightarrow> ('e \<Rightarrow> 'e \<Rightarrow> bool) \<Rightarrow> ('e \<Rightarrow> 'e \<Rightarrow> bool) \<Rightarrow> 'e svm_literal \<Rightarrow> 'e svm_literal \<Rightarrow>
     'e svm_literal const_result" where
  "eval_compare cmp field_cmp scalar_cmp l r =
     (case (l, r) of
        (L_Field x, L_Field y) \<Rightarrow> Inr (L_Boolean (field_cmp x y))
      | (L_Scalar x, L_Scalar y) \<Rightarrow> Inr (L_Boolean (scalar_cmp x y))
      | _ \<Rightarrow> (case on_ints (\<lambda>ty x y. L_Boolean (cmp x y)) l r of Some z \<Rightarrow> Inr z | None \<Rightarrow> type_error))"

definition eval_gte :: "'e snarkvm \<Rightarrow> 'e svm_literal \<Rightarrow> 'e svm_literal \<Rightarrow> 'e svm_literal const_result" where
  "eval_gte svm = eval_compare (\<ge>) (\<lambda>x y. field_le svm y x) (\<lambda>x y. scalar_le svm y x)"

definition eval_gt :: "'e snarkvm \<Rightarrow> 'e svm_literal \<Rightarrow> 'e svm_literal \<Rightarrow> 'e svm_literal const_result" where
  "eval_gt svm = eval_compare (>) (\<lambda>x y. \<not> field_le svm x y) (\<lambda>x y. \<not> scalar_le svm x y)"

definition eval_lte :: "'e snarkvm \<Rightarrow> 'e svm_literal \<Rightarrow> 'e svm_literal \<Rightarrow> 'e svm_literal const_result" where
  "eval_lte svm = eval_compare (\<le>) (field_le svm) (scalar_le svm)"

definition eval_lt :: "'e snarkvm \<Rightarrow> 'e svm_literal \<Rightarrow> 'e svm_literal \<Rightarrow> 'e svm_literal const_result" where
  "eval_lt svm = eval_compare (<) (\<lambda>x y. \<not> field_le svm y x) (\<lambda>x y. \<not> scalar_le svm y x)"

definition eval_mod :: "'e svm_literal \<Rightarrow> 'e svm_literal \<Rightarrow> 'e svm_literal const_result" where
  "eval_mod l r =
     (case on_ints (\<lambda>ty x y. if is_signed ty then type_error
                             else checked_result ''mod overflow'' ty (checked_rem ty x y)) l r of
        Some res \<Rightarrow> res | None \<Rightarrow> type_error)"

definition eval_mul :: "'e snarkvm \<Rightarrow> 'e svm_literal \<Rightarrow> 'e svm_literal \<Rightarrow> 'e svm_literal const_result" where
  "eval_mul svm l r =
     (case (l, r) of
        (L_Field x, L_Field y) \<Rightarrow> Inr (L_Field (field_mul svm x y))
      | (L_Group x, L_Scalar y) \<Rightarrow> Inr (L_Group (group_scale svm x y))
      | (L_Scalar x, L_Group y) \<Rightarrow> Inr (L_Group (scalar_scale svm x y))
      | _ \<Rightarrow> (case on_ints (\<lambda>ty x y. checked_result ''mul overflow'' ty (checked_mul ty x y)) l r of
                Some res \<Rightarrow> res | None \<Rightarrow> type_error))"

definition eval_mul_wrapped :: "'e svm_literal \<Rightarrow> 'e svm_literal \<Rightarrow> 'e svm_literal const_result" where
  "eval_mul_wrapped = wrapped_ints wrapping_mul"

definition eval_nand :: "'e svm_literal \<Rightarrow> 'e svm_literal \<Rightarrow> 'e svm_literal const_result" where
  "eval_nand = on_bools (\<lambda>x y. \<not> (x \<and> y))"

definition eval_nor :: "'e svm_literal \<Rightarrow> 'e svm_literal \<Rightarrow> 'e svm_literal const_result" where
  "eval_nor = on_bools (\<lambda>x y. \<not> (x \<or> y))"

definition eval_or :: "'e svm_literal \<Rightarrow> 'e svm_literal \<Rightarrow> 'e svm_literal const_result" where
  "eval_or = on_bools (\<or>)"

definition eval_bitwise_or :: "'e svm_literal \<Rightarrow> 'e svm_literal \<Rightarrow> 'e svm_literal const_result" where
  "eval_bitwise_or l r =
     (case (l, r) of
        (L_Boolean x, L_Boolean y) \<Rightarrow> Inr (L_Boolean (x \<or> y))
      | _ \<Rightarrow> wrapped_ints (\<lambda>ty x y. x OR y) l r)"

text \<open>The \<^verbatim>\<open>u32\<close> exponent or shift: the right operand must be a \<^verbatim>\<open>u8\<close>, \<^verbatim>\<open>u16\<close> or \<^verbatim>\<open>u32\<close>.\<close>

definition small_unsigned :: "const_error \<Rightarrow> 'e svm_literal \<Rightarrow> nat const_result" where
  "small_unsigned err r =
     (case r of L_Int ty y \<Rightarrow> if ty \<in> {U8, U16, U32} then Inr (nat y) else Inl err | _ \<Rightarrow> Inl err)"

definition eval_pow :: "'e snarkvm \<Rightarrow> 'e svm_literal \<Rightarrow> 'e svm_literal \<Rightarrow> 'e svm_literal const_result" where
  "eval_pow svm l r =
     (case (l, r) of
        (L_Field x, L_Field y) \<Rightarrow> Inr (L_Field (field_pow svm x y))
      | _ \<Rightarrow>
          bind_res (small_unsigned (Panic ''type checker failure'') r)
            (\<lambda>n. case l of
               L_Int ty x \<Rightarrow> checked_result ''pow overflow'' ty (checked_pow ty x n)
             | _ \<Rightarrow> type_error))"

definition eval_pow_wrapped :: "'e svm_literal \<Rightarrow> 'e svm_literal \<Rightarrow> 'e svm_literal const_result" where
  "eval_pow_wrapped l r =
     bind_res (small_unsigned (Reason ''Type error'') r)
       (\<lambda>n. case l of L_Int ty x \<Rightarrow> Inr (L_Int ty (wrapping_pow ty x n)) | _ \<Rightarrow> type_error)"

definition eval_rem :: "'e svm_literal \<Rightarrow> 'e svm_literal \<Rightarrow> 'e svm_literal const_result" where
  "eval_rem l r =
     (case on_ints (\<lambda>ty x y. checked_result ''rem error'' ty (checked_rem ty x y)) l r of
        Some res \<Rightarrow> res | None \<Rightarrow> type_error)"

definition eval_rem_wrapped :: "'e svm_literal \<Rightarrow> 'e svm_literal \<Rightarrow> 'e svm_literal const_result" where
  "eval_rem_wrapped l r =
     (case on_ints (\<lambda>ty x y. if y \<noteq> 0 then Inr (L_Int ty (wrapping_rem ty x y)) else type_error) l r of
        Some res \<Rightarrow> res | None \<Rightarrow> type_error)"

definition eval_shl :: "'e svm_literal \<Rightarrow> 'e svm_literal \<Rightarrow> 'e svm_literal const_result" where
  "eval_shl l r =
     bind_res (small_unsigned (Reason ''Type error'') r)
       (\<lambda>n. case l of
          L_Int ty x \<Rightarrow>
            if bits ty \<le> n then Inl (Reason ''shl overflow'')
            else let shifted = shl_int ty x n in
                 if shr_int shifted n \<noteq> x then Inl (Reason ''shl'') else Inr (L_Int ty shifted)
        | _ \<Rightarrow> type_error)"

definition eval_shl_wrapped :: "'e svm_literal \<Rightarrow> 'e svm_literal \<Rightarrow> 'e svm_literal const_result" where
  "eval_shl_wrapped l r =
     bind_res (small_unsigned (Reason ''Type error'') r)
       (\<lambda>n. case l of L_Int ty x \<Rightarrow> Inr (L_Int ty (wrapping_shl ty x n)) | _ \<Rightarrow> type_error)"

definition eval_shr :: "'e svm_literal \<Rightarrow> 'e svm_literal \<Rightarrow> 'e svm_literal const_result" where
  "eval_shr l r =
     bind_res (small_unsigned (Reason ''Type error'') r)
       (\<lambda>n. case l of
          L_Int ty x \<Rightarrow>
            if bits ty \<le> n then Inl (Reason ''shr overflow'') else Inr (L_Int ty (shr_int x n))
        | _ \<Rightarrow> Inl (Panic ''type checker failure''))"

definition eval_shr_wrapped :: "'e svm_literal \<Rightarrow> 'e svm_literal \<Rightarrow> 'e svm_literal const_result" where
  "eval_shr_wrapped l r =
     bind_res (small_unsigned (Reason ''Type error'') r)
       (\<lambda>n. case l of L_Int ty x \<Rightarrow> Inr (L_Int ty (wrapping_shr ty x n)) | _ \<Rightarrow> type_error)"

definition eval_sub :: "'e snarkvm \<Rightarrow> 'e svm_literal \<Rightarrow> 'e svm_literal \<Rightarrow> 'e svm_literal const_result" where
  "eval_sub svm l r =
     (case (l, r) of
        (L_Group x, L_Group y) \<Rightarrow> Inr (L_Group (group_sub svm x y))
      | (L_Field x, L_Field y) \<Rightarrow> Inr (L_Field (field_sub svm x y))
      | _ \<Rightarrow> (case on_ints (\<lambda>ty x y. checked_result ''sub overflow'' ty (checked_sub ty x y)) l r of
                Some res \<Rightarrow> res | None \<Rightarrow> type_error))"

definition eval_sub_wrapped :: "'e svm_literal \<Rightarrow> 'e svm_literal \<Rightarrow> 'e svm_literal const_result" where
  "eval_sub_wrapped = wrapped_ints wrapping_sub"

definition eval_xor :: "'e svm_literal \<Rightarrow> 'e svm_literal \<Rightarrow> 'e svm_literal const_result" where
  "eval_xor l r =
     (case (l, r) of
        (L_Boolean x, L_Boolean y) \<Rightarrow> Inr (L_Boolean (x \<noteq> y))
      | _ \<Rightarrow> wrapped_ints (\<lambda>ty x y. x XOR y) l r)"

primrec eval_binary ::
  "'e snarkvm \<Rightarrow> binary_operation \<Rightarrow> 'e svm_literal \<Rightarrow> 'e svm_literal \<Rightarrow> 'e svm_literal const_result" where
  "eval_binary svm Add l r = eval_add svm l r"
| "eval_binary svm AddWrapped l r = eval_add_wrapped l r"
| "eval_binary svm And l r = eval_and l r"
| "eval_binary svm BitwiseAnd l r = eval_bitwise_and l r"
| "eval_binary svm Div l r = eval_div svm l r"
| "eval_binary svm DivWrapped l r = eval_div_wrapped l r"
| "eval_binary svm Eq l r = Inl (Panic ''This case was handled above'')"
| "eval_binary svm Gte l r = eval_gte svm l r"
| "eval_binary svm Gt l r = eval_gt svm l r"
| "eval_binary svm Lte l r = eval_lte svm l r"
| "eval_binary svm Lt l r = eval_lt svm l r"
| "eval_binary svm Mod l r = eval_mod l r"
| "eval_binary svm Mul l r = eval_mul svm l r"
| "eval_binary svm MulWrapped l r = eval_mul_wrapped l r"
| "eval_binary svm Nand l r = eval_nand l r"
| "eval_binary svm Neq l r = Inl (Panic ''This case was handled above'')"
| "eval_binary svm Nor l r = eval_nor l r"
| "eval_binary svm Or l r = eval_or l r"
| "eval_binary svm BitwiseOr l r = eval_bitwise_or l r"
| "eval_binary svm Pow l r = eval_pow svm l r"
| "eval_binary svm PowWrapped l r = eval_pow_wrapped l r"
| "eval_binary svm Rem l r = eval_rem l r"
| "eval_binary svm RemWrapped l r = eval_rem_wrapped l r"
| "eval_binary svm Shl l r = eval_shl l r"
| "eval_binary svm ShlWrapped l r = eval_shl_wrapped l r"
| "eval_binary svm Shr l r = eval_shr l r"
| "eval_binary svm ShrWrapped l r = eval_shr_wrapped l r"
| "eval_binary svm Sub l r = eval_sub svm l r"
| "eval_binary svm SubWrapped l r = eval_sub_wrapped l r"
| "eval_binary svm Xor l r = eval_xor l r"

definition evaluate_binary_inner ::
  "'e snarkvm \<Rightarrow> 'e svm_codec \<Rightarrow> binary_operation \<Rightarrow> 'e const_value \<Rightarrow> 'e const_value \<Rightarrow>
     leo_type option \<Rightarrow> 'e const_value const_result" where
  "evaluate_binary_inner svm codec op lhs rhs expected_ty =
     bind_res (resolve_unsuffixed_binary_op_operands codec lhs rhs op expected_ty)
       (\<lambda>(lhs, rhs).
          if op = Eq then map_res (\<lambda>b. value_of_literal (L_Boolean b)) (value_eq codec lhs rhs)
          else if op = Neq then map_res (\<lambda>b. value_of_literal (L_Boolean (\<not> b))) (value_eq codec lhs rhs)
          else case try_literal lhs of
            None \<Rightarrow> type_error
          | Some l \<Rightarrow>
              (case try_literal rhs of
                 None \<Rightarrow> type_error
               | Some r \<Rightarrow> map_res value_of_literal (eval_binary svm op l r)))"

definition evaluate_binary ::
  "'e snarkvm \<Rightarrow> 'e svm_codec \<Rightarrow> binary_operation \<Rightarrow> 'e const_value \<Rightarrow> 'e const_value \<Rightarrow>
     leo_type option \<Rightarrow> 'e const_value const_result" where
  "evaluate_binary svm codec op lhs rhs expected_ty =
     map_reason 8000 (evaluate_binary_inner svm codec op lhs rhs expected_ty)"

end
