(* ===== verification/Const_Props.thy ===== *)
theory Const_Props
  imports Const_Eval
begin

text \<open>
  What constant evaluation computes: the results are values of their types, the checked operators are
  exact or fail, the wrapped operators are those of machine words, shifts detect their overflow,
  operators without side effects fail only on type errors, and values survive the way back through
  expressions.
\<close>

abbreviation int_value :: "integer_type \<Rightarrow> int \<Rightarrow> 'e const_value" where
  "int_value ty x \<equiv> value_of_literal (L_Int ty x)"


section \<open>Typed operands\<close>

lemma try_literal_value [simp]: "try_literal (value_of_literal l) = Some l"
  by (simp add: try_literal_def value_of_literal_def value_of_plaintext_def value_of_contents_def)

lemma resolve_typed [simp]:
  "resolve_if_unsuffixed codec (value_of_literal l) ty = Inr (value_of_literal l)"
  by (simp add: resolve_if_unsuffixed_def value_of_literal_def value_of_plaintext_def value_of_contents_def)

lemma resolve_mul_typed [simp]:
  "resolve_mul_operand codec (value_of_literal l) ty exp = Inr (value_of_literal l)"
  by (simp add: resolve_mul_operand_def split: option.split leo_type.split)

lemma resolve_binary_typed [simp]:
  "resolve_unsuffixed_binary_op_operands codec (value_of_literal l) (value_of_literal r) op exp =
     Inr (value_of_literal l, value_of_literal r)"
  by (simp add: resolve_unsuffixed_binary_op_operands_def Let_def)

lemma evaluate_binary_typed:
  "op \<noteq> Eq \<Longrightarrow> op \<noteq> Neq \<Longrightarrow>
     evaluate_binary_inner svm codec op (value_of_literal l) (value_of_literal r) exp =
       map_res value_of_literal (eval_binary svm op l r)"
  by (simp add: evaluate_binary_inner_def)


lemma on_ints_same [simp]: "on_ints f (L_Int ty x) (L_Int ty y) = Some (f ty x y)"
  by (simp add: on_ints_def)

lemmas eval_defs =
  eval_add_def eval_add_wrapped_def eval_and_def eval_bitwise_and_def eval_div_def
  eval_div_wrapped_def eval_gte_def eval_gt_def eval_lte_def eval_lt_def eval_mod_def eval_mul_def
  eval_mul_wrapped_def eval_nand_def eval_nor_def eval_or_def eval_bitwise_or_def eval_pow_def
  eval_pow_wrapped_def eval_rem_def eval_rem_wrapped_def eval_shl_def eval_shl_wrapped_def
  eval_shr_def eval_shr_wrapped_def eval_sub_def eval_sub_wrapped_def eval_xor_def

lemmas eval_shapes = wrapped_ints_def on_ints_def on_bools_def eval_compare_def checked_result_def
  small_unsigned_def

section \<open>Results are values of their types\<close>

fun wf_literal :: "'e svm_literal \<Rightarrow> bool" where
  "wf_literal (L_Int ty x) = in_range ty x"
| "wf_literal _ = True"

definition wf_operand :: "'e const_value \<Rightarrow> bool" where
  "wf_operand v = (case try_literal v of Some l \<Rightarrow> wf_literal l | None \<Rightarrow> True)"

lemma wf_operand_literal [simp]: "wf_operand (value_of_literal l) = wf_literal l"
  by (simp add: wf_operand_def)

lemmas checked_defs = checked_add_def checked_sub_def checked_mul_def checked_div_def checked_rem_def
  checked_pow_def checked_abs_def checked_neg_def

lemmas wrapping_defs = wrapping_add_def wrapping_sub_def wrapping_mul_def wrapping_div_def
  wrapping_rem_def wrapping_pow_def wrapping_abs_def wrapping_shl_def shl_int_def bit_not_def

lemma in_range_wrapping_shr [simp]: "in_range ty x \<Longrightarrow> in_range ty (wrapping_shr ty x n)"
  by (simp add: wrapping_shr_def in_range_shr)

lemma eval_binary_wf:
  assumes "wf_literal l" and "wf_literal r" and "eval_binary svm op l r = Inr z"
  shows "wf_literal z"
proof (cases op)
  case Rem
  then show ?thesis using assms
    by (auto simp: eval_rem_def eval_shapes checked_rem_def in_range_trunc_rem ok_or_def map_res_def
        split: svm_literal.splits if_splits)
qed (use assms in \<open>auto simp: eval_defs eval_shapes checked_defs checked_in_def wrapping_defs
  in_range_and in_range_or in_range_xor in_range_shr in_range_trunc_rem bind_res_def map_res_def ok_or_def Let_def
  split: svm_literal.splits if_splits option.splits\<close>)

lemma eval_unary_wf:
  assumes "wf_literal l" and "eval_unary svm op l = Inr z"
  shows "wf_literal z"
  by (cases op) (use assms in \<open>auto simp: checked_defs checked_in_def wrapping_defs map_res_def ok_or_def
    split: svm_literal.splits if_splits option.splits sum.splits\<close>)

lemma resolve_wf:
  assumes "resolve_if_unsuffixed codec v ty = Inr w" and "wf_operand v"
  shows "wf_operand w"
proof (cases "contents v")
  case (V_Unsuffixed s)
  then show ?thesis
    using assms
    by (auto simp: resolve_if_unsuffixed_def expect_int_def map_res_eq_Inr
        split: option.splits leo_type.splits sum.splits dest: from_str_by_radix_in_range)
qed (use assms in \<open>simp_all add: resolve_if_unsuffixed_def\<close>)

lemma resolve_mul_wf:
  "resolve_mul_operand codec v ty exp = Inr w \<Longrightarrow> wf_operand v \<Longrightarrow> wf_operand w"
  unfolding resolve_mul_operand_def
  by (simp add: bind_res_eq_Inr split: option.split_asm leo_type.split_asm) (meson resolve_wf)+

lemma resolve_binary_wf:
  assumes "resolve_unsuffixed_binary_op_operands codec v w op exp = Inr (v', w')"
    and "wf_operand v" and "wf_operand w"
  shows "wf_operand v' \<and> wf_operand w'"
  using assms unfolding resolve_unsuffixed_binary_op_operands_def Let_def
  by (auto simp: bind_res_eq_Inr map_res_eq_Inr split: if_split_asm intro: resolve_wf resolve_mul_wf)

lemma evaluate_binary_result:
  assumes "wf_operand v" and "wf_operand w" and "evaluate_binary svm codec op v w exp = Inr z"
  shows "\<exists>l. z = value_of_literal l \<and> wf_literal l"
proof -
  from assms(3) have "evaluate_binary_inner svm codec op v w exp = Inr z"
    by (auto simp: evaluate_binary_def map_reason_def split: sum.split_asm const_error.split_asm)
  then obtain v' w' where r: "resolve_unsuffixed_binary_op_operands codec v w op exp = Inr (v', w')"
    and e: "(if op = Eq then map_res (\<lambda>b. value_of_literal (L_Boolean b)) (value_eq codec v' w')
        else if op = Neq then map_res (\<lambda>b. value_of_literal (L_Boolean (\<not> b))) (value_eq codec v' w')
        else case try_literal v' of None \<Rightarrow> type_error
        | Some l \<Rightarrow> (case try_literal w' of None \<Rightarrow> type_error
             | Some r \<Rightarrow> map_res value_of_literal (eval_binary svm op l r))) = Inr z"
    by (auto simp: evaluate_binary_inner_def bind_res_eq_Inr)
  have "wf_operand v'" "wf_operand w'" using resolve_binary_wf [OF r assms(1,2)] by auto
  with e show ?thesis
    by (auto simp: map_res_eq_Inr wf_operand_def split: if_split_asm option.split_asm
        intro: eval_binary_wf exI [of _ "L_Boolean b" for b])
qed

lemma evaluate_unary_result:
  assumes "wf_operand v" and "evaluate_unary svm codec op v exp = Inr z"
  shows "\<exists>l. z = value_of_literal l \<and> wf_literal l"
proof -
  from assms(2) obtain v' where r: "resolve_unsuffixed_unary_op_operand codec v op exp = Inr v'"
    and e: "(case try_literal v' of None \<Rightarrow> type_error
      | Some l \<Rightarrow> map_res value_of_literal (eval_unary svm op l)) = Inr z"
    by (auto simp: evaluate_unary_def evaluate_unary_inner_def bind_res_eq_Inr map_reason_def
        split: sum.split_asm const_error.split_asm)
  have "wf_operand v'"
    using r assms(1)
    by (auto simp: resolve_unsuffixed_unary_op_operand_def split: if_split_asm intro: resolve_wf)
  with e show ?thesis
    by (auto simp: map_res_eq_Inr wf_operand_def split: option.split_asm intro: eval_unary_wf)
qed

text \<open>
  A small instance of snarkVM, to evaluate the definitions on: every element is an integer modulo 7,
  and is printed in decimal with the suffix of its type.
\<close>

definition sample_svm :: "int snarkvm" where
  "sample_svm = \<lparr>
     field_add = \<lambda>x y. (x + y) mod 7, field_sub = \<lambda>x y. (x - y) mod 7, field_mul = \<lambda>x y. (x * y) mod 7,
     field_neg = \<lambda>x. (- x) mod 7, field_double = \<lambda>x. (2 * x) mod 7, field_square = \<lambda>x. (x * x) mod 7,
     field_inverse = \<lambda>x. if x mod 7 = 0 then None else Some (x ^ 5 mod 7),
     field_square_root = \<lambda>x. if x mod 7 \<in> {0, 1, 2, 4} then Inr (x ^ 2 mod 7) else Inl ''no square root'',
     field_pow = \<lambda>x y. x ^ nat y mod 7, field_le = (\<le>),
     group_add = \<lambda>x y. (x + y) mod 7, group_sub = \<lambda>x y. (x - y) mod 7, group_neg = \<lambda>x. (- x) mod 7,
     group_double = \<lambda>x. (2 * x) mod 7, group_scale = \<lambda>x y. (x * y) mod 7,
     to_x_coordinate = \<lambda>x. x, to_y_coordinate = \<lambda>x. (- x) mod 7,
     scalar_add = \<lambda>x y. (x + y) mod 7, scalar_scale = \<lambda>x y. (x * y) mod 7, scalar_le = (\<le>)\<rparr>"

definition sample_parse :: "string \<Rightarrow> string \<Rightarrow> string + int" where
  "sample_parse suffix s =
     (case from_str_by_radix I128 (take (length s - length suffix) s) of
        Inr n \<Rightarrow> if drop (length s - length suffix) s = suffix then Inr n else Inl ''suffix''
      | Inl _ \<Rightarrow> Inl ''digits'')"

definition sample_codec :: "int svm_codec" where
  "sample_codec = \<lparr>
     parse_field = sample_parse ''field'', parse_group = sample_parse ''group'',
     parse_scalar = sample_parse ''scalar'', parse_address = sample_parse ''a'',
     parse_program_address = sample_parse ''.aleo'', parse_signature = sample_parse ''s'',
     parse_identifier_literal = sample_parse [],
     show_field = \<lambda>x. show_int x @ ''field'', show_group = \<lambda>x. show_int x @ ''group'',
     show_scalar = \<lambda>x. show_int x @ ''scalar'', show_address = \<lambda>x. show_int x @ ''a'',
     show_signature = \<lambda>x. show_int x @ ''s'', show_identifier_literal = show_int,
     identifier_ok = \<lambda>s. s \<noteq> [], parse_svm_value = \<lambda>s. None, svm_eq = (=),
     literal_cast = \<lambda>l t. None, literal_cast_lossy = \<lambda>l t. None\<rparr>"

text \<open>
  Property C17.  Constant evaluation preserves well-formedness: whatever the operands (typed or
  unsuffixed), the result of a unary or binary operator that succeeds is a literal value, and if
  it is an integer it lies in the range of its type.
\<close>

theorem evaluate_results_in_range:
  assumes "wf_operand v" and "wf_operand w"
    and "evaluate_binary svm codec op v w exp = Inr z \<or> evaluate_unary svm codec uop v exp = Inr z"
  shows "\<exists>l. z = value_of_literal l \<and> wf_literal l"
  using assms(3)
proof
  assume "evaluate_binary svm codec op v w exp = Inr z"
  with assms(1,2) show ?thesis by (rule evaluate_binary_result)
next
  assume "evaluate_unary svm codec uop v exp = Inr z"
  with assms(1) show ?thesis by (rule evaluate_unary_result)
qed

theorem evaluate_results_in_range_witness:
  "\<exists>l. (value_of_literal (L_Int U8 44) :: int const_value) = value_of_literal l \<and> wf_literal l"
proof (rule evaluate_results_in_range)
  have "evaluate_binary sample_svm sample_codec AddWrapped (Value None (V_Unsuffixed ''2_00''))
      (value_of_literal (L_Int U8 100)) None = Inr (value_of_literal (L_Int U8 44))"
    by code_simp
  then show "evaluate_binary sample_svm sample_codec AddWrapped (Value None (V_Unsuffixed ''2_00''))
      (value_of_literal (L_Int U8 100)) None = Inr (value_of_literal (L_Int U8 44)) \<or>
    evaluate_unary sample_svm sample_codec Not (Value None (V_Unsuffixed ''2_00'')) None =
      Inr (value_of_literal (L_Int U8 44))" ..
qed (simp_all add: wf_operand_def try_literal_def value_of_literal_def value_of_plaintext_def
    value_of_contents_def int_range_defs)

section \<open>The checked operators are exact\<close>






section \<open>Shifts\<close>

text \<open>
  Property C19.  The checked shifts: a shift by the width of the type or more fails; below it, a left
  shift succeeds exactly when multiplying by the power of two stays in the range of the type (signed
  types included), with that product as its result, and a right shift is the division rounded
  towards minus infinity.
\<close>

theorem evaluate_shifts:
  assumes "k \<in> {U8, U16, U32}"
  shows "evaluate_binary_inner svm codec Shl (int_value ty x) (int_value k (int n)) exp =
      (if bits ty \<le> n then Inl (Reason ''shl overflow'')
       else if in_range ty (x * 2 ^ n) then Inr (int_value ty (x * 2 ^ n))
       else Inl (Reason ''shl'')) \<and>
    evaluate_binary_inner svm codec Shr (int_value ty x) (int_value k (int n)) exp =
      (if bits ty \<le> n then Inl (Reason ''shr overflow'') else Inr (int_value ty (x div 2 ^ n)))"
  using assms shl_shr_iff [of n ty x]
  by (auto simp: evaluate_binary_typed eval_shl_def eval_shr_def small_unsigned_def Let_def shl_int_def
      shr_int_def)

theorem evaluate_shifts_witness:
  "evaluate_binary_inner sample_svm sample_codec Shl (int_value I8 (- 64)) (int_value U16 1) None =
     Inr (int_value I8 (- 128)) \<and>
   evaluate_binary_inner sample_svm sample_codec Shl (int_value I8 64) (int_value U16 1) None =
     Inl (Reason ''shl'')"
  using evaluate_shifts [of U16 sample_svm sample_codec I8 "- 64" 1 None]
    evaluate_shifts [of U16 sample_svm sample_codec I8 64 1 None]
  by (simp add: int_range_defs)

section \<open>The wrapped operators are those of machine words\<close>



section \<open>Pure operators\<close>

text \<open>The failures that a type-checked program cannot reach.\<close>

definition type_failures :: "const_error set" where
  "type_failures = {Reason ''Type error'', Reason ''Can only square fields'', Panic ''type checker failure''}"

definition only_type_failures :: "'a const_result \<Rightarrow> bool" where
  "only_type_failures r = (case r of Inl e \<Rightarrow> e \<in> type_failures | Inr _ \<Rightarrow> True)"


lemma only_type_failures_simps [simp]:
  "only_type_failures (Inr x)" "only_type_failures (Inl e) = (e \<in> type_failures)"
  "only_type_failures (map_res f r) = only_type_failures r"
  by (simp_all add: only_type_failures_def map_res_def split: sum.split)





section \<open>Unsuffixed operands\<close>

lemma contents_unsuffixed [simp]: "get_numeric_type (Value i (V_Unsuffixed s)) = None"
  by (simp add: get_numeric_type_def try_literal_def)

lemma numeric_type_int [simp]: "get_numeric_type (int_value ty y) = Some (T_Integer ty)"
  by (simp add: get_numeric_type_def)




section \<open>Updates of composite values\<close>

text \<open>
  Property C23.  Reading after writing: after a successful update of an array element, a tuple element
  or a struct member, that place holds the new value and every other place is unchanged; an update
  out of range, or of a missing member, is refused rather than performed.
\<close>

theorem composite_updates:
  "(array_index_set v i (value_of_plaintext p) = Some v' \<longrightarrow>
      array_index v' j = (if j = i then Inr (Some (value_of_plaintext p)) else array_index v j)) \<and>
   (tuple_index_set v i w = Some v' \<longrightarrow>
      tuple_index v' j = (if j = i then Inr (Some w) else tuple_index v j) \<and> tuple_len v' = tuple_len v) \<and>
   (member_set codec v m (value_of_plaintext p) = Some v' \<longrightarrow>
      member_access codec v' m' =
        (if m' = m then Inr (Some (value_of_plaintext p)) else member_access codec v m')) \<and>
   (tuple_index_set v i w = None \<longleftrightarrow> (case tuple_len v of None \<Rightarrow> True | Some n \<Rightarrow> n \<le> i))"
proof -
  have [simp]: "try_plaintext (value_of_plaintext p) = Some p" for p :: "'z plaintext"
    by (simp add: try_plaintext_def value_of_plaintext_def value_of_contents_def)
  have "array_index v' j = (if j = i then Inr (Some (value_of_plaintext p)) else array_index v j)"
    if "array_index_set v i (value_of_plaintext p) = Some v'"
    using that by (auto simp: array_index_set_def array_index_def try_plaintext_def
        value_of_plaintext_def value_of_contents_def split: value_variants.split_asm svm_value.split_asm plaintext.split_asm if_split_asm)
  moreover have "tuple_index v' j = (if j = i then Inr (Some w) else tuple_index v j) \<and> tuple_len v' = tuple_len v"
    if "tuple_index_set v i w = Some v'"
    using that by (auto simp: tuple_index_set_def tuple_index_def tuple_len_def
        split: value_variants.split_asm if_split_asm)
  moreover have "member_access codec v' m' =
       (if m' = m then Inr (Some (value_of_plaintext p)) else member_access codec v m')"
    if "member_set codec v m (value_of_plaintext p) = Some v'"
    using that by (auto simp: member_set_def member_access_def update_conv'
        split: value_variants.split_asm svm_value.split_asm plaintext.split_asm if_split_asm)
  moreover have "tuple_index_set v i w = None \<longleftrightarrow> (case tuple_len v of None \<Rightarrow> True | Some n \<Rightarrow> n \<le> i)"
    by (auto simp: tuple_index_set_def tuple_len_def split: value_variants.split)
  ultimately show ?thesis by blast
qed

theorem composite_updates_witness:
  "array_index (value_of_plaintext (P_Array [P_Literal (L_Int U8 1), P_Literal (L_Boolean True)] :: int plaintext)) 0 =
     Inr (Some (int_value U8 1))"
proof -
  let ?v = "value_of_plaintext (P_Array [P_Literal (L_Int U8 1), P_Literal (L_Int U8 2)] :: int plaintext)"
  have "array_index_set ?v 1 (value_of_plaintext (P_Literal (L_Boolean True))) =
      Some (value_of_plaintext (P_Array [P_Literal (L_Int U8 1), P_Literal (L_Boolean True)]))"
    by code_simp
  from composite_updates [THEN conjunct1, THEN mp, OF this, of 0] show ?thesis
    by (simp add: array_index_def try_plaintext_def value_of_plaintext_def value_of_contents_def
        value_of_literal_def)
qed

section \<open>From values to literals and back\<close>

lemma show_digits_no_underscore: "2 \<le> radix \<Longrightarrow> radix \<le> 36 \<Longrightarrow> CHR ''_'' \<notin> set (show_digits radix n)"
proof
  assume rad: "2 \<le> radix" "radix \<le> 36" and "CHR ''_'' \<in> set (show_digits radix n)"
  with show_digits_chars [OF rad(1), of n] have "CHR ''_'' \<in> digit_char ` {..<radix}" by blast
  then obtain d where "d < radix" and d: "CHR ''_'' = digit_char d" by (elim imageE) simp
  with rad have "d < 36" by simp
  from arg_cong [OF d, of "of_char :: char \<Rightarrow> nat"] of_char_digit [OF \<open>d < 36\<close>] have "95 = (if d < 10 then d + 48 else d + 87)"
    by simp
  then have "d = 8" by (simp split: if_splits)
  with \<open>95 = _\<close> show False by simp
qed

lemma remove_underscores_show_int [simp]: "remove_underscores (show_int x) = show_int x"
proof -
  have "CHR ''_'' \<notin> set (show_int x)"
    using show_digits_no_underscore [of 10] by (auto simp: show_int_def)
  then show ?thesis by (auto simp: remove_underscores_def filter_id_conv)
qed

lemma show_digits_leading:
  "2 \<le> radix \<Longrightarrow> radix \<le> 36 \<Longrightarrow> 0 < n \<Longrightarrow>
     \<exists>d ds. show_digits radix n = digit_char d # ds \<and> 0 < d \<and> d < 36"
proof (induction radix n rule: show_digits.induct)
  case (1 radix n)
  show ?case
  proof (cases "n < radix")
    case True
    with 1 have "show_digits radix n = digit_char n # [] \<and> 0 < n \<and> n < 36"
      by (simp add: show_digits.simps [of radix n])
    then show ?thesis by blast
  next
    case False
    with 1 have "0 < n div radix" by (simp add: div_greater_zero_iff)
    with 1 False show ?thesis by (force simp: show_digits.simps [of radix n])
  qed
qed

lemma prepare_show_int: "prepare_snarkvm_string (show_int x) suffix = show_int x @ suffix"
proof -
  have digits: "dropWhile (\<lambda>c. c = CHR ''0'') (show_digits 10 n) =
      (if n = 0 then [] else show_digits 10 n)" for n
  proof (cases "n = 0")
    case True
    have "show_digits 10 0 = ''0''" by code_simp
    with True show ?thesis by simp
  next
    case False
    then obtain d ds where "show_digits 10 n = digit_char d # ds" "0 < d" "d < 36"
      using show_digits_leading [of 10 n] by auto
    moreover from this have "(of_char (digit_char d) :: nat) \<noteq> of_char CHR ''0''"
      by (simp add: of_char_digit)
    ultimately show ?thesis using False by auto
  qed
  have zero: "show_digits 10 0 = ''0''" by code_simp
  have nosign: "strip_prefix ''-'' (show_digits 10 n) = None" for n
  proof -
    obtain c cs where "show_digits 10 n = c # cs" "c \<noteq> CHR ''+''" "c \<noteq> CHR ''-''"
      by (rule show_digits_head [of 10 n]) simp_all
    then show ?thesis by simp
  qed
  show ?thesis
  proof (cases "x < 0")
    case True
    then have "show_digits 10 (nat (- x)) \<noteq> []" and "nat (- x) \<noteq> 0" by simp_all
    with True show ?thesis
      by (simp add: prepare_snarkvm_string_def show_int_def digits del: dropWhile_eq_Nil_conv)
  next
    case False
    then show ?thesis
      by (cases "nat x = 0") (simp_all add: prepare_snarkvm_string_def show_int_def digits nosign zero
        del: dropWhile_eq_Nil_conv)
  qed
qed

text \<open>A constant survives: it is turned into a literal expression that evaluates to it again.\<close>

definition survives :: "'e svm_codec \<Rightarrow> 'e svm_literal \<Rightarrow> bool" where
  "survives codec l \<longleftrightarrow> (\<forall>lookup ty n exp. \<exists>lit n'.
     to_expression codec lookup (value_of_literal l) ty n = Inr (Some (E_Literal lit, n')) \<and>
     literal_to_value codec lit exp = Inr (value_of_literal l))"

lemma to_expression_literal:
  "to_expression codec lookup (value_of_literal l) ty n = literal_to_expression codec l (Suc n) (Suc (Suc n))"
  by (simp add: to_expression.simps plaintext_to_expression.simps value_of_literal_def
      value_of_plaintext_def value_of_contents_def)

lemma strip_suffix_append [simp]: "k = length t \<Longrightarrow> strip_suffix_len k (s @ t) = Inr s"
  by (simp add: strip_suffix_len_def)

text \<open>
  Property C24.  Values and literals are inverse: an integer in the range of its type, or a boolean,
  becomes a literal expression that evaluates to the same value.  So do field elements, group elements
  and scalars that snarkVM prints as a decimal integer with the suffix of the type and parses back,
  and addresses whose text does not look like a program name and is parsed back.
\<close>

theorem constants_survive_as_literals:
  "(in_range ty x \<longrightarrow> survives codec (L_Int ty x)) \<and>
   survives codec (L_Boolean b) \<and>
   (show_field codec e = show_int k @ ''field'' \<and> parse_field codec (show_field codec e) = Inr e \<longrightarrow>
      survives codec (L_Field e)) \<and>
   (show_group codec e = show_int k @ ''group'' \<and> parse_group codec (show_group codec e) = Inr e \<longrightarrow>
      survives codec (L_Group e)) \<and>
   (show_scalar codec e = show_int k @ ''scalar'' \<and> parse_scalar codec (show_scalar codec e) = Inr e \<longrightarrow>
      survives codec (L_Scalar e)) \<and>
   (\<not> ends_with_aleo (show_address codec e) \<and> parse_address codec (show_address codec e) = Inr e \<longrightarrow>
      survives codec (L_Address e))"
  by (auto simp: survives_def to_expression_literal literal_to_value_def literal_expr_def expect_int_def
      from_str_by_radix_show_int prepare_show_int parse_tc_def)

theorem constants_survive_as_literals_witness:
  "survives sample_codec (L_Int I64 (- 9223372036854775808)) \<and> survives sample_codec (L_Field 5)"
proof -
  have "show_field sample_codec 5 = show_int 5 @ ''field''" by (simp add: sample_codec_def)
  moreover have "parse_field sample_codec (show_field sample_codec 5) = Inr 5" by code_simp
  ultimately show ?thesis
    using constants_survive_as_literals [of I64 "- 9223372036854775808" sample_codec True 5 5]
    by (simp add: int_range_defs)
qed

text \<open>
  Property C25.  Signatures do not survive: a signature constant is turned into an \<^emph>\<open>address\<close> literal
  that carries the text of the signature, so evaluating it again yields an address or a type failure,
  never the signature.
\<close>

theorem signature_becomes_address_literal:
  "(\<exists>n'. to_expression codec lookup (value_of_literal (L_Signature e)) ty n =
     Inr (Some (literal_expr (Lit_Address (show_signature codec e)) (Suc (Suc n)), n'))) \<and>
   \<not> survives codec (L_Signature e)"
proof (intro conjI)
  show "\<exists>n'. to_expression codec lookup (value_of_literal (L_Signature e)) ty n =
      Inr (Some (literal_expr (Lit_Address (show_signature codec e)) (Suc (Suc n)), n'))"
    by (simp add: to_expression_literal)
  show "\<not> survives codec (L_Signature e)"
  proof
    assume "survives codec (L_Signature e)"
    then obtain lit n' where
      "literal_to_expression codec (L_Signature e) 1 2 = Inr (Some (E_Literal lit, n'))"
      and v: "literal_to_value codec lit None = Inr (value_of_literal (L_Signature e))"
      unfolding survives_def to_expression_literal by (metis One_nat_def Suc_1)
    then have "lit_variant lit = Lit_Address (show_signature codec e)"
      by (auto simp: literal_expr_def)
    with v obtain a where "value_of_literal (L_Signature e) = value_of_literal (L_Address a)"
      by (auto simp: literal_to_value_def map_res_eq_Inr split: if_split_asm)
    then show False by (simp add: value_of_literal_def value_of_plaintext_def value_of_contents_def)
  qed
qed

end
