(* ===== verification/Aleo_Code.thy ===== *)
theory Aleo_Code
  imports Const_Value
begin

text \<open>
  The intermediate representation of generated Aleo instructions
  (\<^verbatim>\<open>crates/passes/src/code_generation/mod.rs\<close>): registers, operands, types, statements and programs,
  and their textual form.  The integer operands \<^verbatim>\<open>U8(x)\<close> to \<^verbatim>\<open>I128(x)\<close> are the one constructor
  \<open>AE_Int\<close>, as in the model of constant evaluation; the variants of hashes, commitments, signature and
  proof checks and serializations are represented by their opcode, the string that is printed.

  For the passes over statements: \<open>operands\<close>, \<open>dest_registers\<close> and \<open>map_stmt\<close>, which gives a statement
  new operands and destinations, present all constructors uniformly.
\<close>

section \<open>Registers, types and operands\<close>

datatype aleo_reg = Self_Reg | Block_Reg | Network_Reg | R nat

datatype aleo_visibility = Constant | Public | Private

datatype aleo_type =
    AT_Future string string
  | AT_Record string "string option"
  | AT_Ident string
  | AT_Location string string
  | AT_Array aleo_type nat
  | AT_GroupX | AT_GroupY | AT_Address | AT_Identifier | AT_DynamicRecord | AT_DynamicFuture
  | AT_Boolean | AT_Field | AT_Group
  | AT_I8 | AT_I16 | AT_I32 | AT_I64 | AT_I128 | AT_U8 | AT_U16 | AT_U32 | AT_U64 | AT_U128
  | AT_Scalar | AT_Signature | AT_String

datatype aleo_expr =
    AE_Reg aleo_reg
  | AE_Tuple "aleo_expr list"
  | AE_ArrayAccess aleo_expr aleo_expr
  | AE_MemberAccess aleo_expr string
  | AE_RawName string
  | AE_Address string
  | AE_Identifier string
  | AE_Bool bool
  | AE_Field string
  | AE_Group string
  | AE_Signature string
  | AE_Scalar string
  | AE_String string
  | AE_Int integer_type int

section \<open>Statements and programs\<close>

datatype (plugins only: size) aleo_stmt =
    AS_Output aleo_expr aleo_type "aleo_visibility option"
  | AS_AssertEq aleo_expr aleo_expr
  | AS_AssertNeq aleo_expr aleo_expr
  | AS_Cast aleo_expr aleo_reg aleo_type
  | AS_Abs aleo_expr aleo_reg
  | AS_AbsW aleo_expr aleo_reg
  | AS_Double aleo_expr aleo_reg
  | AS_Inv aleo_expr aleo_reg
  | AS_Not aleo_expr aleo_reg
  | AS_Neg aleo_expr aleo_reg
  | AS_Square aleo_expr aleo_reg
  | AS_Sqrt aleo_expr aleo_reg
  | AS_Ternary aleo_expr aleo_expr aleo_expr aleo_reg
  | AS_Commit string aleo_expr aleo_expr aleo_reg aleo_type
  | AS_Hash string aleo_expr aleo_reg aleo_type
  | AS_Get aleo_expr aleo_expr aleo_reg
  | AS_GetOrUse aleo_expr aleo_expr aleo_expr aleo_reg
  | AS_Set aleo_expr aleo_expr aleo_expr
  | AS_Remove aleo_expr aleo_expr
  | AS_Contains aleo_expr aleo_expr aleo_reg
  | AS_RandChacha aleo_reg aleo_type
  | AS_SignVerify aleo_expr aleo_expr aleo_expr aleo_reg
  | AS_EcdsaVerify string aleo_expr aleo_expr aleo_expr aleo_reg
  | AS_SnarkVerify string aleo_expr aleo_expr aleo_expr aleo_expr aleo_reg
  | AS_Await aleo_expr
  | AS_Serialize string aleo_expr aleo_type aleo_reg aleo_type
  | AS_Deserialize string aleo_expr aleo_type aleo_reg aleo_type
  | AS_Call string "aleo_expr list" "aleo_reg list"
  | AS_CallDynamic aleo_expr aleo_expr aleo_expr "aleo_expr list" "(aleo_type \<times> aleo_visibility option) list" "aleo_reg list" "(aleo_type \<times> aleo_visibility option) list"
  | AS_GetRecordDynamic aleo_expr string aleo_reg aleo_type
  | AS_ContainsDynamic aleo_expr aleo_expr aleo_expr aleo_expr aleo_reg
  | AS_GetDynamic aleo_expr aleo_expr aleo_expr aleo_expr aleo_reg aleo_type
  | AS_GetOrUseDynamic aleo_expr aleo_expr aleo_expr aleo_expr aleo_expr aleo_reg aleo_type
  | AS_Async string "aleo_expr list" "aleo_reg list"
  | AS_BranchEq aleo_expr aleo_expr string
  | AS_Position string
  | AS_Add aleo_expr aleo_expr aleo_reg
  | AS_AddWrapped aleo_expr aleo_expr aleo_reg
  | AS_And aleo_expr aleo_expr aleo_reg
  | AS_Div aleo_expr aleo_expr aleo_reg
  | AS_DivWrapped aleo_expr aleo_expr aleo_reg
  | AS_Eq aleo_expr aleo_expr aleo_reg
  | AS_Gte aleo_expr aleo_expr aleo_reg
  | AS_Gt aleo_expr aleo_expr aleo_reg
  | AS_Lte aleo_expr aleo_expr aleo_reg
  | AS_Lt aleo_expr aleo_expr aleo_reg
  | AS_Mod aleo_expr aleo_expr aleo_reg
  | AS_Mul aleo_expr aleo_expr aleo_reg
  | AS_MulWrapped aleo_expr aleo_expr aleo_reg
  | AS_Nand aleo_expr aleo_expr aleo_reg
  | AS_Neq aleo_expr aleo_expr aleo_reg
  | AS_Nor aleo_expr aleo_expr aleo_reg
  | AS_Or aleo_expr aleo_expr aleo_reg
  | AS_Pow aleo_expr aleo_expr aleo_reg
  | AS_PowWrapped aleo_expr aleo_expr aleo_reg
  | AS_Rem aleo_expr aleo_expr aleo_reg
  | AS_RemWrapped aleo_expr aleo_expr aleo_reg
  | AS_Shl aleo_expr aleo_expr aleo_reg
  | AS_ShlWrapped aleo_expr aleo_expr aleo_reg
  | AS_Shr aleo_expr aleo_expr aleo_reg
  | AS_ShrWrapped aleo_expr aleo_expr aleo_reg
  | AS_Sub aleo_expr aleo_expr aleo_reg
  | AS_SubWrapped aleo_expr aleo_expr aleo_reg
  | AS_Xor aleo_expr aleo_expr aleo_reg

record aleo_input =
  input_register :: aleo_reg
  input_type :: aleo_type
  input_visibility :: "aleo_visibility option"

record aleo_body =
  body_name :: string
  body_inputs :: "aleo_input list"
  body_statements :: "aleo_stmt list"

text \<open>
  Closures, finalize blocks and views have the same three fields; a function has an optional
  finalize block as well.
\<close>

datatype aleo_functional =
    Closure aleo_body
  | Function aleo_body "aleo_body option"
  | Finalize aleo_body
  | View aleo_body

record aleo_program =
  program_functions :: "aleo_functional list"
  program_constructor :: "aleo_stmt list option"

text \<open>
  \<^verbatim>\<open>for_each_statement_list\<close>: the closure mutates each list of statements in place, knowing the number of
  input registers; a constructor has none.
\<close>

definition map_body :: "(aleo_stmt list \<Rightarrow> nat \<Rightarrow> aleo_stmt list) \<Rightarrow> aleo_body \<Rightarrow> aleo_body" where
  "map_body f b = b\<lparr>body_statements := f (body_statements b) (length (body_inputs b))\<rparr>"

fun map_functional :: "(aleo_stmt list \<Rightarrow> nat \<Rightarrow> aleo_stmt list) \<Rightarrow> aleo_functional \<Rightarrow> aleo_functional" where
  "map_functional f (Closure c) = Closure (map_body f c)"
| "map_functional f (Function b fin) = Function (map_body f b) (map_option (map_body f) fin)"
| "map_functional f (Finalize b) = Finalize (map_body f b)"
| "map_functional f (View b) = View (map_body f b)"

definition for_each_statement_list ::
  "(aleo_stmt list \<Rightarrow> nat \<Rightarrow> aleo_stmt list) \<Rightarrow> aleo_program \<Rightarrow> aleo_program" where
  "for_each_statement_list f p =
     p\<lparr>program_functions := map (map_functional f) (program_functions p),
       program_constructor := map_option (\<lambda>ss. f ss 0) (program_constructor p)\<rparr>"

section \<open>Operands and destinations\<close>

primrec operands :: "aleo_stmt \<Rightarrow> aleo_expr list" where
  "operands (AS_Output e _ _) = [e]"
| "operands (AS_AssertEq e1 e2) = [e1, e2]"
| "operands (AS_AssertNeq e1 e2) = [e1, e2]"
| "operands (AS_Cast e _ _) = [e]"
| "operands (AS_Abs e _) = [e]"
| "operands (AS_AbsW e _) = [e]"
| "operands (AS_Double e _) = [e]"
| "operands (AS_Inv e _) = [e]"
| "operands (AS_Not e _) = [e]"
| "operands (AS_Neg e _) = [e]"
| "operands (AS_Square e _) = [e]"
| "operands (AS_Sqrt e _) = [e]"
| "operands (AS_Ternary e1 e2 e3 _) = [e1, e2, e3]"
| "operands (AS_Commit _ e1 e2 _ _) = [e1, e2]"
| "operands (AS_Hash _ e _ _) = [e]"
| "operands (AS_Get e1 e2 _) = [e1, e2]"
| "operands (AS_GetOrUse e1 e2 e3 _) = [e1, e2, e3]"
| "operands (AS_Set e1 e2 e3) = [e1, e2, e3]"
| "operands (AS_Remove e1 e2) = [e1, e2]"
| "operands (AS_Contains e1 e2 _) = [e1, e2]"
| "operands (AS_RandChacha _ _) = []"
| "operands (AS_SignVerify e1 e2 e3 _) = [e1, e2, e3]"
| "operands (AS_EcdsaVerify _ e1 e2 e3 _) = [e1, e2, e3]"
| "operands (AS_SnarkVerify _ e1 e2 e3 e4 _) = [e1, e2, e3, e4]"
| "operands (AS_Await e) = [e]"
| "operands (AS_Serialize _ e _ _ _) = [e]"
| "operands (AS_Deserialize _ e _ _ _) = [e]"
| "operands (AS_Call _ es _) = es"
| "operands (AS_CallDynamic e1 e2 e3 es _ _ _) = [e1, e2, e3] @ es"
| "operands (AS_GetRecordDynamic e _ _ _) = [e]"
| "operands (AS_ContainsDynamic e1 e2 e3 e4 _) = [e1, e2, e3, e4]"
| "operands (AS_GetDynamic e1 e2 e3 e4 _ _) = [e1, e2, e3, e4]"
| "operands (AS_GetOrUseDynamic e1 e2 e3 e4 e5 _ _) = [e1, e2, e3, e4, e5]"
| "operands (AS_Async _ es _) = es"
| "operands (AS_BranchEq e1 e2 _) = [e1, e2]"
| "operands (AS_Position _) = []"
| "operands (AS_Add e1 e2 _) = [e1, e2]"
| "operands (AS_AddWrapped e1 e2 _) = [e1, e2]"
| "operands (AS_And e1 e2 _) = [e1, e2]"
| "operands (AS_Div e1 e2 _) = [e1, e2]"
| "operands (AS_DivWrapped e1 e2 _) = [e1, e2]"
| "operands (AS_Eq e1 e2 _) = [e1, e2]"
| "operands (AS_Gte e1 e2 _) = [e1, e2]"
| "operands (AS_Gt e1 e2 _) = [e1, e2]"
| "operands (AS_Lte e1 e2 _) = [e1, e2]"
| "operands (AS_Lt e1 e2 _) = [e1, e2]"
| "operands (AS_Mod e1 e2 _) = [e1, e2]"
| "operands (AS_Mul e1 e2 _) = [e1, e2]"
| "operands (AS_MulWrapped e1 e2 _) = [e1, e2]"
| "operands (AS_Nand e1 e2 _) = [e1, e2]"
| "operands (AS_Neq e1 e2 _) = [e1, e2]"
| "operands (AS_Nor e1 e2 _) = [e1, e2]"
| "operands (AS_Or e1 e2 _) = [e1, e2]"
| "operands (AS_Pow e1 e2 _) = [e1, e2]"
| "operands (AS_PowWrapped e1 e2 _) = [e1, e2]"
| "operands (AS_Rem e1 e2 _) = [e1, e2]"
| "operands (AS_RemWrapped e1 e2 _) = [e1, e2]"
| "operands (AS_Shl e1 e2 _) = [e1, e2]"
| "operands (AS_ShlWrapped e1 e2 _) = [e1, e2]"
| "operands (AS_Shr e1 e2 _) = [e1, e2]"
| "operands (AS_ShrWrapped e1 e2 _) = [e1, e2]"
| "operands (AS_Sub e1 e2 _) = [e1, e2]"
| "operands (AS_SubWrapped e1 e2 _) = [e1, e2]"
| "operands (AS_Xor e1 e2 _) = [e1, e2]"

primrec dest_registers :: "aleo_stmt \<Rightarrow> aleo_reg list" where
  "dest_registers (AS_Output _ _ _) = []"
| "dest_registers (AS_AssertEq _ _) = []"
| "dest_registers (AS_AssertNeq _ _) = []"
| "dest_registers (AS_Cast _ d _) = [d]"
| "dest_registers (AS_Abs _ d) = [d]"
| "dest_registers (AS_AbsW _ d) = [d]"
| "dest_registers (AS_Double _ d) = [d]"
| "dest_registers (AS_Inv _ d) = [d]"
| "dest_registers (AS_Not _ d) = [d]"
| "dest_registers (AS_Neg _ d) = [d]"
| "dest_registers (AS_Square _ d) = [d]"
| "dest_registers (AS_Sqrt _ d) = [d]"
| "dest_registers (AS_Ternary _ _ _ d) = [d]"
| "dest_registers (AS_Commit _ _ _ d _) = [d]"
| "dest_registers (AS_Hash _ _ d _) = [d]"
| "dest_registers (AS_Get _ _ d) = [d]"
| "dest_registers (AS_GetOrUse _ _ _ d) = [d]"
| "dest_registers (AS_Set _ _ _) = []"
| "dest_registers (AS_Remove _ _) = []"
| "dest_registers (AS_Contains _ _ d) = [d]"
| "dest_registers (AS_RandChacha d _) = [d]"
| "dest_registers (AS_SignVerify _ _ _ d) = [d]"
| "dest_registers (AS_EcdsaVerify _ _ _ _ d) = [d]"
| "dest_registers (AS_SnarkVerify _ _ _ _ _ d) = [d]"
| "dest_registers (AS_Await _) = []"
| "dest_registers (AS_Serialize _ _ _ d _) = [d]"
| "dest_registers (AS_Deserialize _ _ _ d _) = [d]"
| "dest_registers (AS_Call _ _ ds) = ds"
| "dest_registers (AS_CallDynamic _ _ _ _ _ ds _) = ds"
| "dest_registers (AS_GetRecordDynamic _ _ d _) = [d]"
| "dest_registers (AS_ContainsDynamic _ _ _ _ d) = [d]"
| "dest_registers (AS_GetDynamic _ _ _ _ d _) = [d]"
| "dest_registers (AS_GetOrUseDynamic _ _ _ _ _ d _) = [d]"
| "dest_registers (AS_Async _ _ ds) = ds"
| "dest_registers (AS_BranchEq _ _ _) = []"
| "dest_registers (AS_Position _) = []"
| "dest_registers (AS_Add _ _ d) = [d]"
| "dest_registers (AS_AddWrapped _ _ d) = [d]"
| "dest_registers (AS_And _ _ d) = [d]"
| "dest_registers (AS_Div _ _ d) = [d]"
| "dest_registers (AS_DivWrapped _ _ d) = [d]"
| "dest_registers (AS_Eq _ _ d) = [d]"
| "dest_registers (AS_Gte _ _ d) = [d]"
| "dest_registers (AS_Gt _ _ d) = [d]"
| "dest_registers (AS_Lte _ _ d) = [d]"
| "dest_registers (AS_Lt _ _ d) = [d]"
| "dest_registers (AS_Mod _ _ d) = [d]"
| "dest_registers (AS_Mul _ _ d) = [d]"
| "dest_registers (AS_MulWrapped _ _ d) = [d]"
| "dest_registers (AS_Nand _ _ d) = [d]"
| "dest_registers (AS_Neq _ _ d) = [d]"
| "dest_registers (AS_Nor _ _ d) = [d]"
| "dest_registers (AS_Or _ _ d) = [d]"
| "dest_registers (AS_Pow _ _ d) = [d]"
| "dest_registers (AS_PowWrapped _ _ d) = [d]"
| "dest_registers (AS_Rem _ _ d) = [d]"
| "dest_registers (AS_RemWrapped _ _ d) = [d]"
| "dest_registers (AS_Shl _ _ d) = [d]"
| "dest_registers (AS_ShlWrapped _ _ d) = [d]"
| "dest_registers (AS_Shr _ _ d) = [d]"
| "dest_registers (AS_ShrWrapped _ _ d) = [d]"
| "dest_registers (AS_Sub _ _ d) = [d]"
| "dest_registers (AS_SubWrapped _ _ d) = [d]"
| "dest_registers (AS_Xor _ _ d) = [d]"

primrec map_stmt :: "(aleo_expr \<Rightarrow> aleo_expr) \<Rightarrow> (aleo_reg \<Rightarrow> aleo_reg) \<Rightarrow> aleo_stmt \<Rightarrow> aleo_stmt" where
  "map_stmt f g (AS_Output e ty viz) = AS_Output (f e) ty viz"
| "map_stmt f g (AS_AssertEq e1 e2) = AS_AssertEq (f e1) (f e2)"
| "map_stmt f g (AS_AssertNeq e1 e2) = AS_AssertNeq (f e1) (f e2)"
| "map_stmt f g (AS_Cast e d ty) = AS_Cast (f e) (g d) ty"
| "map_stmt f g (AS_Abs e d) = AS_Abs (f e) (g d)"
| "map_stmt f g (AS_AbsW e d) = AS_AbsW (f e) (g d)"
| "map_stmt f g (AS_Double e d) = AS_Double (f e) (g d)"
| "map_stmt f g (AS_Inv e d) = AS_Inv (f e) (g d)"
| "map_stmt f g (AS_Not e d) = AS_Not (f e) (g d)"
| "map_stmt f g (AS_Neg e d) = AS_Neg (f e) (g d)"
| "map_stmt f g (AS_Square e d) = AS_Square (f e) (g d)"
| "map_stmt f g (AS_Sqrt e d) = AS_Sqrt (f e) (g d)"
| "map_stmt f g (AS_Ternary e1 e2 e3 d) = AS_Ternary (f e1) (f e2) (f e3) (g d)"
| "map_stmt f g (AS_Commit op e1 e2 d ty) = AS_Commit op (f e1) (f e2) (g d) ty"
| "map_stmt f g (AS_Hash op e d ty) = AS_Hash op (f e) (g d) ty"
| "map_stmt f g (AS_Get e1 e2 d) = AS_Get (f e1) (f e2) (g d)"
| "map_stmt f g (AS_GetOrUse e1 e2 e3 d) = AS_GetOrUse (f e1) (f e2) (f e3) (g d)"
| "map_stmt f g (AS_Set e1 e2 e3) = AS_Set (f e1) (f e2) (f e3)"
| "map_stmt f g (AS_Remove e1 e2) = AS_Remove (f e1) (f e2)"
| "map_stmt f g (AS_Contains e1 e2 d) = AS_Contains (f e1) (f e2) (g d)"
| "map_stmt f g (AS_RandChacha d ty) = AS_RandChacha (g d) ty"
| "map_stmt f g (AS_SignVerify e1 e2 e3 d) = AS_SignVerify (f e1) (f e2) (f e3) (g d)"
| "map_stmt f g (AS_EcdsaVerify op e1 e2 e3 d) = AS_EcdsaVerify op (f e1) (f e2) (f e3) (g d)"
| "map_stmt f g (AS_SnarkVerify op e1 e2 e3 e4 d) = AS_SnarkVerify op (f e1) (f e2) (f e3) (f e4) (g d)"
| "map_stmt f g (AS_Await e) = AS_Await (f e)"
| "map_stmt f g (AS_Serialize op e ty1 d ty2) = AS_Serialize op (f e) ty1 (g d) ty2"
| "map_stmt f g (AS_Deserialize op e ty1 d ty2) = AS_Deserialize op (f e) ty1 (g d) ty2"
| "map_stmt f g (AS_Call s es ds) = AS_Call s (map f es) (map g ds)"
| "map_stmt f g (AS_CallDynamic e1 e2 e3 es tys1 ds tys2) = AS_CallDynamic (f e1) (f e2) (f e3) (map f es) tys1 (map g ds) tys2"
| "map_stmt f g (AS_GetRecordDynamic e s d ty) = AS_GetRecordDynamic (f e) s (g d) ty"
| "map_stmt f g (AS_ContainsDynamic e1 e2 e3 e4 d) = AS_ContainsDynamic (f e1) (f e2) (f e3) (f e4) (g d)"
| "map_stmt f g (AS_GetDynamic e1 e2 e3 e4 d ty) = AS_GetDynamic (f e1) (f e2) (f e3) (f e4) (g d) ty"
| "map_stmt f g (AS_GetOrUseDynamic e1 e2 e3 e4 e5 d ty) = AS_GetOrUseDynamic (f e1) (f e2) (f e3) (f e4) (f e5) (g d) ty"
| "map_stmt f g (AS_Async s es ds) = AS_Async s (map f es) (map g ds)"
| "map_stmt f g (AS_BranchEq e1 e2 s) = AS_BranchEq (f e1) (f e2) s"
| "map_stmt f g (AS_Position s) = AS_Position s"
| "map_stmt f g (AS_Add e1 e2 d) = AS_Add (f e1) (f e2) (g d)"
| "map_stmt f g (AS_AddWrapped e1 e2 d) = AS_AddWrapped (f e1) (f e2) (g d)"
| "map_stmt f g (AS_And e1 e2 d) = AS_And (f e1) (f e2) (g d)"
| "map_stmt f g (AS_Div e1 e2 d) = AS_Div (f e1) (f e2) (g d)"
| "map_stmt f g (AS_DivWrapped e1 e2 d) = AS_DivWrapped (f e1) (f e2) (g d)"
| "map_stmt f g (AS_Eq e1 e2 d) = AS_Eq (f e1) (f e2) (g d)"
| "map_stmt f g (AS_Gte e1 e2 d) = AS_Gte (f e1) (f e2) (g d)"
| "map_stmt f g (AS_Gt e1 e2 d) = AS_Gt (f e1) (f e2) (g d)"
| "map_stmt f g (AS_Lte e1 e2 d) = AS_Lte (f e1) (f e2) (g d)"
| "map_stmt f g (AS_Lt e1 e2 d) = AS_Lt (f e1) (f e2) (g d)"
| "map_stmt f g (AS_Mod e1 e2 d) = AS_Mod (f e1) (f e2) (g d)"
| "map_stmt f g (AS_Mul e1 e2 d) = AS_Mul (f e1) (f e2) (g d)"
| "map_stmt f g (AS_MulWrapped e1 e2 d) = AS_MulWrapped (f e1) (f e2) (g d)"
| "map_stmt f g (AS_Nand e1 e2 d) = AS_Nand (f e1) (f e2) (g d)"
| "map_stmt f g (AS_Neq e1 e2 d) = AS_Neq (f e1) (f e2) (g d)"
| "map_stmt f g (AS_Nor e1 e2 d) = AS_Nor (f e1) (f e2) (g d)"
| "map_stmt f g (AS_Or e1 e2 d) = AS_Or (f e1) (f e2) (g d)"
| "map_stmt f g (AS_Pow e1 e2 d) = AS_Pow (f e1) (f e2) (g d)"
| "map_stmt f g (AS_PowWrapped e1 e2 d) = AS_PowWrapped (f e1) (f e2) (g d)"
| "map_stmt f g (AS_Rem e1 e2 d) = AS_Rem (f e1) (f e2) (g d)"
| "map_stmt f g (AS_RemWrapped e1 e2 d) = AS_RemWrapped (f e1) (f e2) (g d)"
| "map_stmt f g (AS_Shl e1 e2 d) = AS_Shl (f e1) (f e2) (g d)"
| "map_stmt f g (AS_ShlWrapped e1 e2 d) = AS_ShlWrapped (f e1) (f e2) (g d)"
| "map_stmt f g (AS_Shr e1 e2 d) = AS_Shr (f e1) (f e2) (g d)"
| "map_stmt f g (AS_ShrWrapped e1 e2 d) = AS_ShrWrapped (f e1) (f e2) (g d)"
| "map_stmt f g (AS_Sub e1 e2 d) = AS_Sub (f e1) (f e2) (g d)"
| "map_stmt f g (AS_SubWrapped e1 e2 d) = AS_SubWrapped (f e1) (f e2) (g d)"
| "map_stmt f g (AS_Xor e1 e2 d) = AS_Xor (f e1) (f e2) (g d)"

lemma operands_map_stmt [simp]: "operands (map_stmt f g s) = map f (operands s)"
  by (cases s) simp_all

lemma dest_registers_map_stmt [simp]: "dest_registers (map_stmt f g s) = map g (dest_registers s)"
  by (cases s) simp_all

lemma map_stmt_comp [simp]: "map_stmt f g (map_stmt f' g' s) = map_stmt (\<lambda>e. f (f' e)) (\<lambda>r. g (g' r)) s"
  by (cases s) simp_all

lemma map_stmt_id [simp]: "map_stmt (\<lambda>e. e) (\<lambda>r. r) s = s"
  by (cases s) simp_all

lemma map_stmt_cong:
  "(\<And>e. e \<in> set (operands s) \<Longrightarrow> f e = f' e) \<Longrightarrow> (\<And>r. r \<in> set (dest_registers s) \<Longrightarrow> g r = g' r) \<Longrightarrow>
     map_stmt f g s = map_stmt f' g' s"
  by (cases s) simp_all

text \<open>The instruction without its operands and destinations: opcode and types.\<close>

definition skeleton :: "aleo_stmt \<Rightarrow> aleo_stmt" where
  "skeleton = map_stmt (\<lambda>_. AE_RawName []) (\<lambda>_. R 0)"

lemma skeleton_map_stmt [simp]: "skeleton (map_stmt f g s) = skeleton s"
  by (simp add: skeleton_def)

section \<open>Text\<close>

fun reg_display :: "aleo_reg \<Rightarrow> string" where
  "reg_display Self_Reg = ''self''"
| "reg_display Block_Reg = ''block''"
| "reg_display Network_Reg = ''network''"
| "reg_display (R n) = ''r'' @ show_digits 10 n"

fun visibility_display :: "aleo_visibility \<Rightarrow> string" where
  "visibility_display Constant = ''constant''"
| "visibility_display Public = ''public''"
| "visibility_display Private = ''private''"

fun visibility_maybe_from :: "mode \<Rightarrow> aleo_visibility option" where
  "visibility_maybe_from Mode_None = None"
| "visibility_maybe_from Mode_Constant = Some Constant"
| "visibility_maybe_from Mode_Private = Some Private"
| "visibility_maybe_from Mode_Public = Some Public"

fun type_display :: "aleo_type \<Rightarrow> string" where
  "type_display (AT_Future name prog) = prog @ ''/'' @ name @ ''.future''"
| "type_display (AT_Record name (Some prog)) = prog @ ''/'' @ name @ ''.record''"
| "type_display (AT_Record name None) = name @ ''.record''"
| "type_display AT_GroupX = ''group.x''"
| "type_display AT_GroupY = ''group.y''"
| "type_display (AT_Ident name) = name"
| "type_display (AT_Location prog name) = prog @ ''/'' @ name"
| "type_display AT_Identifier = ''identifier''"
| "type_display AT_DynamicRecord = ''dynamic.record''"
| "type_display AT_DynamicFuture = ''dynamic.future''"
| "type_display AT_Address = ''address''"
| "type_display AT_Boolean = ''boolean''"
| "type_display AT_Field = ''field''"
| "type_display AT_Group = ''group''"
| "type_display AT_I8 = ''i8''"
| "type_display AT_I16 = ''i16''"
| "type_display AT_I32 = ''i32''"
| "type_display AT_I64 = ''i64''"
| "type_display AT_I128 = ''i128''"
| "type_display AT_U8 = ''u8''"
| "type_display AT_U16 = ''u16''"
| "type_display AT_U32 = ''u32''"
| "type_display AT_U64 = ''u64''"
| "type_display AT_U128 = ''u128''"
| "type_display AT_Scalar = ''scalar''"
| "type_display AT_Signature = ''signature''"
| "type_display AT_String = ''string''"
| "type_display (AT_Array inner len) = ''['' @ type_display inner @ ''; '' @ show_digits 10 len @ ''u32]''"

primrec type_of_literal_type :: "literal_type \<Rightarrow> aleo_type" where
  "type_of_literal_type LT_Identifier = AT_Identifier"
| "type_of_literal_type LT_Address = AT_Address"
| "type_of_literal_type LT_Boolean = AT_Boolean"
| "type_of_literal_type LT_Field = AT_Field"
| "type_of_literal_type LT_Group = AT_Group"
| "type_of_literal_type LT_I8 = AT_I8"
| "type_of_literal_type LT_I16 = AT_I16"
| "type_of_literal_type LT_I32 = AT_I32"
| "type_of_literal_type LT_I64 = AT_I64"
| "type_of_literal_type LT_I128 = AT_I128"
| "type_of_literal_type LT_U8 = AT_U8"
| "type_of_literal_type LT_U16 = AT_U16"
| "type_of_literal_type LT_U32 = AT_U32"
| "type_of_literal_type LT_U64 = AT_U64"
| "type_of_literal_type LT_U128 = AT_U128"
| "type_of_literal_type LT_Scalar = AT_Scalar"
| "type_of_literal_type LT_Signature = AT_Signature"
| "type_of_literal_type LT_String = AT_String"

fun join :: "string \<Rightarrow> string list \<Rightarrow> string" where
  "join sep [] = []"
| "join sep [s] = s"
| "join sep (s # t # ss) = s @ sep @ join sep (t # ss)"

fun expr_display :: "aleo_expr \<Rightarrow> string" where
  "expr_display (AE_Reg r) = reg_display r"
| "expr_display (AE_Tuple es) = join '' '' (map expr_display es)"
| "expr_display (AE_ArrayAccess a i) = expr_display a @ ''['' @ expr_display i @ '']''"
| "expr_display (AE_MemberAccess c m) = expr_display c @ ''.'' @ m"
| "expr_display (AE_RawName n) = n"
| "expr_display (AE_Identifier v) = [CHR 0x27] @ v @ [CHR 0x27]"
| "expr_display (AE_Address v) = v"
| "expr_display (AE_Bool b) = (if b then ''true'' else ''false'')"
| "expr_display (AE_Field v) = v @ ''field''"
| "expr_display (AE_Group v) = v @ ''group''"
| "expr_display (AE_Int ty v) = show_int v @ integer_type_display ty"
| "expr_display (AE_Scalar v) = v @ ''scalar''"
| "expr_display (AE_Signature v) = v"
| "expr_display (AE_String v) = [CHR 0x22] @ v @ [CHR 0x22]"

definition typed_display :: "aleo_type \<times> aleo_visibility option \<Rightarrow> string" where
  "typed_display t = (case t of
     (ty, Some v) \<Rightarrow> type_display ty @ ''.'' @ visibility_display v | (ty, None) \<Rightarrow> type_display ty)"

definition opt_list :: "string \<Rightarrow> string list \<Rightarrow> string" where
  "opt_list pre ss = (if ss = [] then [] else pre @ join '' '' ss)"

primrec stmt_display :: "aleo_stmt \<Rightarrow> string" where
  "stmt_display (AS_Output e ty viz) = ''    output '' @ expr_display e @ '' as ''
     @ typed_display (ty, viz) @ '';'' @ [CHR 0x0A]"
| "stmt_display (AS_AssertEq e1 e2) = ''    assert.eq '' @ expr_display e1 @ '' ''
     @ expr_display e2 @ '';'' @ [CHR 0x0A]"
| "stmt_display (AS_AssertNeq e1 e2) = ''    assert.neq '' @ expr_display e1 @ '' ''
     @ expr_display e2 @ '';'' @ [CHR 0x0A]"
| "stmt_display (AS_Cast e d ty) = ''    cast '' @ expr_display e @ '' into '' @ reg_display d
     @ '' as '' @ type_display ty @ '';'' @ [CHR 0x0A]"
| "stmt_display (AS_Abs e d) = ''    abs '' @ expr_display e @ '' into '' @ reg_display d @ '';''
     @ [CHR 0x0A]"
| "stmt_display (AS_AbsW e d) = ''    abs.w '' @ expr_display e @ '' into '' @ reg_display d
     @ '';'' @ [CHR 0x0A]"
| "stmt_display (AS_Double e d) = ''    double '' @ expr_display e @ '' into '' @ reg_display d
     @ '';'' @ [CHR 0x0A]"
| "stmt_display (AS_Inv e d) = ''    inv '' @ expr_display e @ '' into '' @ reg_display d @ '';''
     @ [CHR 0x0A]"
| "stmt_display (AS_Not e d) = ''    not '' @ expr_display e @ '' into '' @ reg_display d @ '';''
     @ [CHR 0x0A]"
| "stmt_display (AS_Neg e d) = ''    neg '' @ expr_display e @ '' into '' @ reg_display d @ '';''
     @ [CHR 0x0A]"
| "stmt_display (AS_Square e d) = ''    square '' @ expr_display e @ '' into '' @ reg_display d
     @ '';'' @ [CHR 0x0A]"
| "stmt_display (AS_Sqrt e d) = ''    sqrt '' @ expr_display e @ '' into '' @ reg_display d
     @ '';'' @ [CHR 0x0A]"
| "stmt_display (AS_Ternary e1 e2 e3 d) = ''    ternary '' @ expr_display e1 @ '' ''
     @ expr_display e2 @ '' '' @ expr_display e3 @ '' into '' @ reg_display d @ '';''
     @ [CHR 0x0A]"
| "stmt_display (AS_Commit op e1 e2 d ty) = ''    '' @ op @ '' '' @ expr_display e1 @ '' ''
     @ expr_display e2 @ '' into '' @ reg_display d @ '' as '' @ type_display ty @ '';''
     @ [CHR 0x0A]"
| "stmt_display (AS_Hash op e d ty) = ''    '' @ op @ '' '' @ expr_display e @ '' into ''
     @ reg_display d @ '' as '' @ type_display ty @ '';'' @ [CHR 0x0A]"
| "stmt_display (AS_Get e1 e2 d) = ''    get '' @ expr_display e1 @ ''['' @ expr_display e2
     @ ''] into '' @ reg_display d @ '';'' @ [CHR 0x0A]"
| "stmt_display (AS_GetOrUse e1 e2 e3 d) = ''    get.or_use '' @ expr_display e1 @ ''[''
     @ expr_display e2 @ ''] '' @ expr_display e3 @ '' into '' @ reg_display d @ '';''
     @ [CHR 0x0A]"
| "stmt_display (AS_Set e1 e2 e3) = ''    set '' @ expr_display e1 @ '' into '' @ expr_display e2
     @ ''['' @ expr_display e3 @ ''];'' @ [CHR 0x0A]"
| "stmt_display (AS_Remove e1 e2) = ''    remove '' @ expr_display e1 @ ''['' @ expr_display e2
     @ ''];'' @ [CHR 0x0A]"
| "stmt_display (AS_Contains e1 e2 d) = ''    contains '' @ expr_display e1 @ ''[''
     @ expr_display e2 @ ''] into '' @ reg_display d @ '';'' @ [CHR 0x0A]"
| "stmt_display (AS_RandChacha d ty) = ''    rand.chacha into '' @ reg_display d @ '' as ''
     @ type_display ty @ '';'' @ [CHR 0x0A]"
| "stmt_display (AS_SignVerify e1 e2 e3 d) = ''    sign.verify '' @ expr_display e1 @ '' ''
     @ expr_display e2 @ '' '' @ expr_display e3 @ '' into '' @ reg_display d @ '';''
     @ [CHR 0x0A]"
| "stmt_display (AS_EcdsaVerify op e1 e2 e3 d) = ''    '' @ op @ '' '' @ expr_display e1 @ '' ''
     @ expr_display e2 @ '' '' @ expr_display e3 @ '' into '' @ reg_display d @ '';''
     @ [CHR 0x0A]"
| "stmt_display (AS_SnarkVerify op e1 e2 e3 e4 d) = ''    '' @ op @ '' '' @ expr_display e1
     @ '' '' @ expr_display e2 @ '' '' @ expr_display e3 @ '' '' @ expr_display e4 @ '' into ''
     @ reg_display d @ '';'' @ [CHR 0x0A]"
| "stmt_display (AS_Await e) = ''    await '' @ expr_display e @ '';'' @ [CHR 0x0A]"
| "stmt_display (AS_Serialize op e ty1 d ty2) = ''    '' @ op @ '' '' @ expr_display e @ '' (''
     @ type_display ty1 @ '') into '' @ reg_display d @ '' ('' @ type_display ty2 @ '');''
     @ [CHR 0x0A]"
| "stmt_display (AS_Deserialize op e ty1 d ty2) = ''    '' @ op @ '' '' @ expr_display e @ '' (''
     @ type_display ty1 @ '') into '' @ reg_display d @ '' ('' @ type_display ty2 @ '');''
     @ [CHR 0x0A]"
| "stmt_display (AS_Call s es ds) = ''    call '' @ s @ opt_list '' '' (map expr_display es)
     @ opt_list '' into '' (map reg_display ds) @ '';'' @ [CHR 0x0A]"
| "stmt_display (AS_CallDynamic e1 e2 e3 es tys1 ds tys2) = ''    call.dynamic ''
     @ expr_display e1 @ '' '' @ expr_display e2 @ '' '' @ expr_display e3
     @ opt_list '' with '' (map expr_display es) @ (if tys1 = [] then [] else '' (as ''
     @ join '' '' (map typed_display tys1) @ '')'') @ opt_list '' into '' (map reg_display ds)
     @ (if tys2 = [] then [] else '' (as '' @ join '' '' (map typed_display tys2) @ '')'') @ '';''
     @ [CHR 0x0A]"
| "stmt_display (AS_GetRecordDynamic e s d ty) = ''    get.record.dynamic '' @ expr_display e
     @ ''.'' @ s @ '' into '' @ reg_display d @ '' as '' @ type_display ty @ '';'' @ [CHR 0x0A]"
| "stmt_display (AS_ContainsDynamic e1 e2 e3 e4 d) = ''    contains.dynamic '' @ expr_display e1
     @ '' '' @ expr_display e2 @ '' '' @ expr_display e3 @ ''['' @ expr_display e4 @ ''] into ''
     @ reg_display d @ '';'' @ [CHR 0x0A]"
| "stmt_display (AS_GetDynamic e1 e2 e3 e4 d ty) = ''    get.dynamic '' @ expr_display e1 @ '' ''
     @ expr_display e2 @ '' '' @ expr_display e3 @ ''['' @ expr_display e4 @ ''] into ''
     @ reg_display d @ '' as '' @ type_display ty @ '';'' @ [CHR 0x0A]"
| "stmt_display (AS_GetOrUseDynamic e1 e2 e3 e4 e5 d ty) = ''    get.or_use.dynamic ''
     @ expr_display e1 @ '' '' @ expr_display e2 @ '' '' @ expr_display e3 @ ''[''
     @ expr_display e4 @ ''] '' @ expr_display e5 @ '' into '' @ reg_display d @ '' as ''
     @ type_display ty @ '';'' @ [CHR 0x0A]"
| "stmt_display (AS_Async s es ds) = ''    async '' @ s @ opt_list '' '' (map expr_display es)
     @ opt_list '' into '' (map reg_display ds) @ '';'' @ [CHR 0x0A]"
| "stmt_display (AS_BranchEq e1 e2 s) = ''    branch.eq '' @ expr_display e1 @ '' ''
     @ expr_display e2 @ '' to '' @ s @ '';'' @ [CHR 0x0A]"
| "stmt_display (AS_Position s) = ''    position '' @ s @ '';'' @ [CHR 0x0A]"
| "stmt_display (AS_Add e1 e2 d) = ''    add '' @ expr_display e1 @ '' '' @ expr_display e2
     @ '' into '' @ reg_display d @ '';'' @ [CHR 0x0A]"
| "stmt_display (AS_AddWrapped e1 e2 d) = ''    add.w '' @ expr_display e1 @ '' ''
     @ expr_display e2 @ '' into '' @ reg_display d @ '';'' @ [CHR 0x0A]"
| "stmt_display (AS_And e1 e2 d) = ''    and '' @ expr_display e1 @ '' '' @ expr_display e2
     @ '' into '' @ reg_display d @ '';'' @ [CHR 0x0A]"
| "stmt_display (AS_Div e1 e2 d) = ''    div '' @ expr_display e1 @ '' '' @ expr_display e2
     @ '' into '' @ reg_display d @ '';'' @ [CHR 0x0A]"
| "stmt_display (AS_DivWrapped e1 e2 d) = ''    div.w '' @ expr_display e1 @ '' ''
     @ expr_display e2 @ '' into '' @ reg_display d @ '';'' @ [CHR 0x0A]"
| "stmt_display (AS_Eq e1 e2 d) = ''    is.eq '' @ expr_display e1 @ '' '' @ expr_display e2
     @ '' into '' @ reg_display d @ '';'' @ [CHR 0x0A]"
| "stmt_display (AS_Gte e1 e2 d) = ''    gte '' @ expr_display e1 @ '' '' @ expr_display e2
     @ '' into '' @ reg_display d @ '';'' @ [CHR 0x0A]"
| "stmt_display (AS_Gt e1 e2 d) = ''    gt '' @ expr_display e1 @ '' '' @ expr_display e2
     @ '' into '' @ reg_display d @ '';'' @ [CHR 0x0A]"
| "stmt_display (AS_Lte e1 e2 d) = ''    lte '' @ expr_display e1 @ '' '' @ expr_display e2
     @ '' into '' @ reg_display d @ '';'' @ [CHR 0x0A]"
| "stmt_display (AS_Lt e1 e2 d) = ''    lt '' @ expr_display e1 @ '' '' @ expr_display e2
     @ '' into '' @ reg_display d @ '';'' @ [CHR 0x0A]"
| "stmt_display (AS_Mod e1 e2 d) = ''    mod '' @ expr_display e1 @ '' '' @ expr_display e2
     @ '' into '' @ reg_display d @ '';'' @ [CHR 0x0A]"
| "stmt_display (AS_Mul e1 e2 d) = ''    mul '' @ expr_display e1 @ '' '' @ expr_display e2
     @ '' into '' @ reg_display d @ '';'' @ [CHR 0x0A]"
| "stmt_display (AS_MulWrapped e1 e2 d) = ''    mul.w '' @ expr_display e1 @ '' ''
     @ expr_display e2 @ '' into '' @ reg_display d @ '';'' @ [CHR 0x0A]"
| "stmt_display (AS_Nand e1 e2 d) = ''    nand '' @ expr_display e1 @ '' '' @ expr_display e2
     @ '' into '' @ reg_display d @ '';'' @ [CHR 0x0A]"
| "stmt_display (AS_Neq e1 e2 d) = ''    is.neq '' @ expr_display e1 @ '' '' @ expr_display e2
     @ '' into '' @ reg_display d @ '';'' @ [CHR 0x0A]"
| "stmt_display (AS_Nor e1 e2 d) = ''    nor '' @ expr_display e1 @ '' '' @ expr_display e2
     @ '' into '' @ reg_display d @ '';'' @ [CHR 0x0A]"
| "stmt_display (AS_Or e1 e2 d) = ''    or '' @ expr_display e1 @ '' '' @ expr_display e2
     @ '' into '' @ reg_display d @ '';'' @ [CHR 0x0A]"
| "stmt_display (AS_Pow e1 e2 d) = ''    pow '' @ expr_display e1 @ '' '' @ expr_display e2
     @ '' into '' @ reg_display d @ '';'' @ [CHR 0x0A]"
| "stmt_display (AS_PowWrapped e1 e2 d) = ''    pow.w '' @ expr_display e1 @ '' ''
     @ expr_display e2 @ '' into '' @ reg_display d @ '';'' @ [CHR 0x0A]"
| "stmt_display (AS_Rem e1 e2 d) = ''    rem '' @ expr_display e1 @ '' '' @ expr_display e2
     @ '' into '' @ reg_display d @ '';'' @ [CHR 0x0A]"
| "stmt_display (AS_RemWrapped e1 e2 d) = ''    rem.w '' @ expr_display e1 @ '' ''
     @ expr_display e2 @ '' into '' @ reg_display d @ '';'' @ [CHR 0x0A]"
| "stmt_display (AS_Shl e1 e2 d) = ''    shl '' @ expr_display e1 @ '' '' @ expr_display e2
     @ '' into '' @ reg_display d @ '';'' @ [CHR 0x0A]"
| "stmt_display (AS_ShlWrapped e1 e2 d) = ''    shl.w '' @ expr_display e1 @ '' ''
     @ expr_display e2 @ '' into '' @ reg_display d @ '';'' @ [CHR 0x0A]"
| "stmt_display (AS_Shr e1 e2 d) = ''    shr '' @ expr_display e1 @ '' '' @ expr_display e2
     @ '' into '' @ reg_display d @ '';'' @ [CHR 0x0A]"
| "stmt_display (AS_ShrWrapped e1 e2 d) = ''    shr.w '' @ expr_display e1 @ '' ''
     @ expr_display e2 @ '' into '' @ reg_display d @ '';'' @ [CHR 0x0A]"
| "stmt_display (AS_Sub e1 e2 d) = ''    sub '' @ expr_display e1 @ '' '' @ expr_display e2
     @ '' into '' @ reg_display d @ '';'' @ [CHR 0x0A]"
| "stmt_display (AS_SubWrapped e1 e2 d) = ''    sub.w '' @ expr_display e1 @ '' ''
     @ expr_display e2 @ '' into '' @ reg_display d @ '';'' @ [CHR 0x0A]"
| "stmt_display (AS_Xor e1 e2 d) = ''    xor '' @ expr_display e1 @ '' '' @ expr_display e2
     @ '' into '' @ reg_display d @ '';'' @ [CHR 0x0A]"

end
