(* ===== verification/Peephole.thy ===== *)
theory Peephole
  imports Aleo_Code
begin

text \<open>
  The peephole optimizer (\<^verbatim>\<open>crates/passes/src/peephole_optimization/mod.rs\<close>), which rewrites the
  statement lists of generated programs: identity operations are folded into aliases, trivially true
  asserts and unused pure instructions are deleted, consecutive integer casts are merged, and the
  registers are renumbered without gaps.

  A \<^verbatim>\<open>HashMap\<close> is a partial function, a \<^verbatim>\<open>HashSet\<close> of registers the list of its insertions, of which
  only membership is used.  \<^verbatim>\<open>resolve_alias\<close> recurses without a bound, so that its model carries fuel,
  spent only when an alias is followed; \<open>None\<close> stands for a recursion that does not return.
  The pass gives it the number of statements, which bounds the number of aliases.
\<close>

section \<open>Classification of operands\<close>

fun is_zero :: "aleo_expr \<Rightarrow> bool" where
  "is_zero (AE_Int _ n) = (n = 0)"
| "is_zero (AE_Field s) = (s = ''0'')"
| "is_zero (AE_Group s) = (s = ''0'')"
| "is_zero (AE_Scalar s) = (s = ''0'')"
| "is_zero _ = False"

fun is_one :: "aleo_expr \<Rightarrow> bool" where
  "is_one (AE_Int _ n) = (n = 1)"
| "is_one (AE_Field s) = (s = ''1'')"
| "is_one (AE_Scalar s) = (s = ''1'')"
| "is_one _ = False"

fun is_false :: "aleo_expr \<Rightarrow> bool" where
  "is_false (AE_Bool b) = (\<not> b)"
| "is_false _ = False"

fun is_true :: "aleo_expr \<Rightarrow> bool" where
  "is_true (AE_Bool b) = b"
| "is_true _ = False"

fun is_literal :: "aleo_expr \<Rightarrow> bool" where
  "is_literal (AE_Reg _) = False"
| "is_literal (AE_Tuple _) = False"
| "is_literal (AE_ArrayAccess _ _) = False"
| "is_literal (AE_MemberAccess _ _) = False"
| "is_literal (AE_RawName _) = False"
| "is_literal _ = True"

section \<open>Folding of identity operations\<close>

text \<open>\<open>unit_operand P a b\<close> is the operand that remains when the other one satisfies \<open>P\<close>, the second operand tried first.\<close>

definition unit_operand :: "(aleo_expr \<Rightarrow> bool) \<Rightarrow> aleo_expr \<Rightarrow> aleo_expr \<Rightarrow> aleo_expr option" where
  "unit_operand P a b = (if P b then Some a else if P a then Some b else None)"

definition try_identity :: "aleo_stmt \<Rightarrow> (aleo_reg \<times> aleo_expr) option" where
  "try_identity s =
     (case s of
        AS_Add a b d \<Rightarrow> map_option (Pair d) (unit_operand is_zero a b)
      | AS_AddWrapped a b d \<Rightarrow> map_option (Pair d) (unit_operand is_zero a b)
      | AS_Sub a b d \<Rightarrow> if is_zero b then Some (d, a) else None
      | AS_SubWrapped a b d \<Rightarrow> if is_zero b then Some (d, a) else None
      | AS_Mul a b d \<Rightarrow> map_option (Pair d) (unit_operand is_one a b)
      | AS_MulWrapped a b d \<Rightarrow> map_option (Pair d) (unit_operand is_one a b)
      | AS_Or a b d \<Rightarrow> map_option (Pair d) (unit_operand is_false a b)
      | AS_And a b d \<Rightarrow> map_option (Pair d) (unit_operand is_true a b)
      | AS_Xor a b d \<Rightarrow> map_option (Pair d) (unit_operand is_false a b)
      | _ \<Rightarrow> None)"

definition try_strength_reduce :: "aleo_stmt \<Rightarrow> aleo_stmt option" where
  "try_strength_reduce s =
     (case s of
        AS_Nand a b d \<Rightarrow> map_option (\<lambda>e. AS_Not e d) (unit_operand is_true a b)
      | AS_Nor a b d \<Rightarrow> map_option (\<lambda>e. AS_Not e d) (unit_operand is_false a b)
      | _ \<Rightarrow> None)"

type_synonym aliases = "aleo_reg \<rightharpoonup> aleo_expr"

function resolve_alias :: "nat \<Rightarrow> aliases \<Rightarrow> aleo_expr \<Rightarrow> aleo_expr option" where
  "resolve_alias n A (AE_Reg r) =
     (case A r of
        None \<Rightarrow> Some (AE_Reg r)
      | Some e \<Rightarrow> (case n of 0 \<Rightarrow> None | Suc m \<Rightarrow> resolve_alias m A e))"
| "resolve_alias n A (AE_Tuple es) = map_option AE_Tuple (collect_opt (map (resolve_alias n A) es))"
| "resolve_alias n A (AE_ArrayAccess a b) =
     (case (resolve_alias n A a, resolve_alias n A b) of
        (Some a', Some b') \<Rightarrow> Some (AE_ArrayAccess a' b') | _ \<Rightarrow> None)"
| "resolve_alias n A (AE_MemberAccess a f) = map_option (\<lambda>a'. AE_MemberAccess a' f) (resolve_alias n A a)"
| "resolve_alias n A (AE_RawName s) = Some (AE_RawName s)"
| "resolve_alias n A (AE_Address s) = Some (AE_Address s)"
| "resolve_alias n A (AE_Identifier s) = Some (AE_Identifier s)"
| "resolve_alias n A (AE_Bool b) = Some (AE_Bool b)"
| "resolve_alias n A (AE_Field s) = Some (AE_Field s)"
| "resolve_alias n A (AE_Group s) = Some (AE_Group s)"
| "resolve_alias n A (AE_Signature s) = Some (AE_Signature s)"
| "resolve_alias n A (AE_Scalar s) = Some (AE_Scalar s)"
| "resolve_alias n A (AE_String s) = Some (AE_String s)"
| "resolve_alias n A (AE_Int ty i) = Some (AE_Int ty i)"
  by pat_completeness auto
termination
  by (relation "measures [\<lambda>(n, A, e). n, \<lambda>(n, A, e). size e]") (auto simp: less_Suc_eq_le size_list_estimation')

text \<open>
  \<^verbatim>\<open>sub\<close> overwrites an operand by its resolution; an operand whose resolution does not return is left
  as it is, and the pass then has no result.
\<close>

definition sub_alias :: "nat \<Rightarrow> aliases \<Rightarrow> aleo_expr \<Rightarrow> aleo_expr" where
  "sub_alias n A e = (case resolve_alias n A e of None \<Rightarrow> e | Some e' \<Rightarrow> e')"

primrec substitute_aliases_in_stmt :: "nat \<Rightarrow> aliases \<Rightarrow> aleo_stmt \<Rightarrow> aleo_stmt" where
  "substitute_aliases_in_stmt n A (AS_Output e ty viz) = AS_Output (sub_alias n A e) ty viz"
| "substitute_aliases_in_stmt n A (AS_AssertEq e1 e2) = AS_AssertEq (sub_alias n A e1) (sub_alias n A e2)"
| "substitute_aliases_in_stmt n A (AS_AssertNeq e1 e2) = AS_AssertNeq (sub_alias n A e1) (sub_alias n A e2)"
| "substitute_aliases_in_stmt n A (AS_Cast e d ty) = AS_Cast (sub_alias n A e) d ty"
| "substitute_aliases_in_stmt n A (AS_Abs e d) = AS_Abs (sub_alias n A e) d"
| "substitute_aliases_in_stmt n A (AS_AbsW e d) = AS_AbsW (sub_alias n A e) d"
| "substitute_aliases_in_stmt n A (AS_Double e d) = AS_Double (sub_alias n A e) d"
| "substitute_aliases_in_stmt n A (AS_Inv e d) = AS_Inv (sub_alias n A e) d"
| "substitute_aliases_in_stmt n A (AS_Not e d) = AS_Not (sub_alias n A e) d"
| "substitute_aliases_in_stmt n A (AS_Neg e d) = AS_Neg (sub_alias n A e) d"
| "substitute_aliases_in_stmt n A (AS_Square e d) = AS_Square (sub_alias n A e) d"
| "substitute_aliases_in_stmt n A (AS_Sqrt e d) = AS_Sqrt (sub_alias n A e) d"
| "substitute_aliases_in_stmt n A (AS_Ternary e1 e2 e3 d) = AS_Ternary (sub_alias n A e1) (sub_alias n A e2) (sub_alias n A e3) d"
| "substitute_aliases_in_stmt n A (AS_Commit op e1 e2 d ty) = AS_Commit op (sub_alias n A e1) (sub_alias n A e2) d ty"
| "substitute_aliases_in_stmt n A (AS_Hash op e d ty) = AS_Hash op (sub_alias n A e) d ty"
| "substitute_aliases_in_stmt n A (AS_Get e1 e2 d) = AS_Get (sub_alias n A e1) (sub_alias n A e2) d"
| "substitute_aliases_in_stmt n A (AS_GetOrUse e1 e2 e3 d) = AS_GetOrUse (sub_alias n A e1) (sub_alias n A e2) (sub_alias n A e3) d"
| "substitute_aliases_in_stmt n A (AS_Set e1 e2 e3) = AS_Set (sub_alias n A e1) (sub_alias n A e2) (sub_alias n A e3)"
| "substitute_aliases_in_stmt n A (AS_Remove e1 e2) = AS_Remove (sub_alias n A e1) (sub_alias n A e2)"
| "substitute_aliases_in_stmt n A (AS_Contains e1 e2 d) = AS_Contains (sub_alias n A e1) (sub_alias n A e2) d"
| "substitute_aliases_in_stmt n A (AS_RandChacha d ty) = AS_RandChacha d ty"
| "substitute_aliases_in_stmt n A (AS_SignVerify e1 e2 e3 d) = AS_SignVerify (sub_alias n A e1) (sub_alias n A e2) (sub_alias n A e3) d"
| "substitute_aliases_in_stmt n A (AS_EcdsaVerify op e1 e2 e3 d) = AS_EcdsaVerify op (sub_alias n A e1) (sub_alias n A e2) (sub_alias n A e3) d"
| "substitute_aliases_in_stmt n A (AS_SnarkVerify op e1 e2 e3 e4 d) = AS_SnarkVerify op (sub_alias n A e1) (sub_alias n A e2) (sub_alias n A e3) (sub_alias n A e4) d"
| "substitute_aliases_in_stmt n A (AS_Await e) = AS_Await (sub_alias n A e)"
| "substitute_aliases_in_stmt n A (AS_Serialize op e ty1 d ty2) = AS_Serialize op (sub_alias n A e) ty1 d ty2"
| "substitute_aliases_in_stmt n A (AS_Deserialize op e ty1 d ty2) = AS_Deserialize op (sub_alias n A e) ty1 d ty2"
| "substitute_aliases_in_stmt n A (AS_Call s es ds) = AS_Call s (map (sub_alias n A) es) ds"
| "substitute_aliases_in_stmt n A (AS_CallDynamic e1 e2 e3 es tys1 ds tys2) = AS_CallDynamic (sub_alias n A e1) (sub_alias n A e2) (sub_alias n A e3) (map (sub_alias n A) es) tys1 ds tys2"
| "substitute_aliases_in_stmt n A (AS_GetRecordDynamic e s d ty) = AS_GetRecordDynamic (sub_alias n A e) s d ty"
| "substitute_aliases_in_stmt n A (AS_ContainsDynamic e1 e2 e3 e4 d) = AS_ContainsDynamic (sub_alias n A e1) (sub_alias n A e2) (sub_alias n A e3) (sub_alias n A e4) d"
| "substitute_aliases_in_stmt n A (AS_GetDynamic e1 e2 e3 e4 d ty) = AS_GetDynamic (sub_alias n A e1) (sub_alias n A e2) (sub_alias n A e3) (sub_alias n A e4) d ty"
| "substitute_aliases_in_stmt n A (AS_GetOrUseDynamic e1 e2 e3 e4 e5 d ty) = AS_GetOrUseDynamic (sub_alias n A e1) (sub_alias n A e2) (sub_alias n A e3) (sub_alias n A e4) (sub_alias n A e5) d ty"
| "substitute_aliases_in_stmt n A (AS_Async s es ds) = AS_Async s (map (sub_alias n A) es) ds"
| "substitute_aliases_in_stmt n A (AS_BranchEq e1 e2 s) = AS_BranchEq (sub_alias n A e1) (sub_alias n A e2) s"
| "substitute_aliases_in_stmt n A (AS_Position s) = AS_Position s"
| "substitute_aliases_in_stmt n A (AS_Add e1 e2 d) = AS_Add (sub_alias n A e1) (sub_alias n A e2) d"
| "substitute_aliases_in_stmt n A (AS_AddWrapped e1 e2 d) = AS_AddWrapped (sub_alias n A e1) (sub_alias n A e2) d"
| "substitute_aliases_in_stmt n A (AS_And e1 e2 d) = AS_And (sub_alias n A e1) (sub_alias n A e2) d"
| "substitute_aliases_in_stmt n A (AS_Div e1 e2 d) = AS_Div (sub_alias n A e1) (sub_alias n A e2) d"
| "substitute_aliases_in_stmt n A (AS_DivWrapped e1 e2 d) = AS_DivWrapped (sub_alias n A e1) (sub_alias n A e2) d"
| "substitute_aliases_in_stmt n A (AS_Eq e1 e2 d) = AS_Eq (sub_alias n A e1) (sub_alias n A e2) d"
| "substitute_aliases_in_stmt n A (AS_Gte e1 e2 d) = AS_Gte (sub_alias n A e1) (sub_alias n A e2) d"
| "substitute_aliases_in_stmt n A (AS_Gt e1 e2 d) = AS_Gt (sub_alias n A e1) (sub_alias n A e2) d"
| "substitute_aliases_in_stmt n A (AS_Lte e1 e2 d) = AS_Lte (sub_alias n A e1) (sub_alias n A e2) d"
| "substitute_aliases_in_stmt n A (AS_Lt e1 e2 d) = AS_Lt (sub_alias n A e1) (sub_alias n A e2) d"
| "substitute_aliases_in_stmt n A (AS_Mod e1 e2 d) = AS_Mod (sub_alias n A e1) (sub_alias n A e2) d"
| "substitute_aliases_in_stmt n A (AS_Mul e1 e2 d) = AS_Mul (sub_alias n A e1) (sub_alias n A e2) d"
| "substitute_aliases_in_stmt n A (AS_MulWrapped e1 e2 d) = AS_MulWrapped (sub_alias n A e1) (sub_alias n A e2) d"
| "substitute_aliases_in_stmt n A (AS_Nand e1 e2 d) = AS_Nand (sub_alias n A e1) (sub_alias n A e2) d"
| "substitute_aliases_in_stmt n A (AS_Neq e1 e2 d) = AS_Neq (sub_alias n A e1) (sub_alias n A e2) d"
| "substitute_aliases_in_stmt n A (AS_Nor e1 e2 d) = AS_Nor (sub_alias n A e1) (sub_alias n A e2) d"
| "substitute_aliases_in_stmt n A (AS_Or e1 e2 d) = AS_Or (sub_alias n A e1) (sub_alias n A e2) d"
| "substitute_aliases_in_stmt n A (AS_Pow e1 e2 d) = AS_Pow (sub_alias n A e1) (sub_alias n A e2) d"
| "substitute_aliases_in_stmt n A (AS_PowWrapped e1 e2 d) = AS_PowWrapped (sub_alias n A e1) (sub_alias n A e2) d"
| "substitute_aliases_in_stmt n A (AS_Rem e1 e2 d) = AS_Rem (sub_alias n A e1) (sub_alias n A e2) d"
| "substitute_aliases_in_stmt n A (AS_RemWrapped e1 e2 d) = AS_RemWrapped (sub_alias n A e1) (sub_alias n A e2) d"
| "substitute_aliases_in_stmt n A (AS_Shl e1 e2 d) = AS_Shl (sub_alias n A e1) (sub_alias n A e2) d"
| "substitute_aliases_in_stmt n A (AS_ShlWrapped e1 e2 d) = AS_ShlWrapped (sub_alias n A e1) (sub_alias n A e2) d"
| "substitute_aliases_in_stmt n A (AS_Shr e1 e2 d) = AS_Shr (sub_alias n A e1) (sub_alias n A e2) d"
| "substitute_aliases_in_stmt n A (AS_ShrWrapped e1 e2 d) = AS_ShrWrapped (sub_alias n A e1) (sub_alias n A e2) d"
| "substitute_aliases_in_stmt n A (AS_Sub e1 e2 d) = AS_Sub (sub_alias n A e1) (sub_alias n A e2) d"
| "substitute_aliases_in_stmt n A (AS_SubWrapped e1 e2 d) = AS_SubWrapped (sub_alias n A e1) (sub_alias n A e2) d"
| "substitute_aliases_in_stmt n A (AS_Xor e1 e2 d) = AS_Xor (sub_alias n A e1) (sub_alias n A e2) d"

fun collect_aliases :: "nat \<Rightarrow> aliases \<Rightarrow> aleo_stmt list \<Rightarrow> aliases option" where
  "collect_aliases n A [] = Some A"
| "collect_aliases n A (s # ss) =
     (case try_identity s of
        None \<Rightarrow> collect_aliases n A ss
      | Some (dst, value) \<Rightarrow>
          (case resolve_alias n A value of
             None \<Rightarrow> None
           | Some resolved \<Rightarrow> collect_aliases n (A(dst \<mapsto> resolved)) ss))"

definition strength_reduce :: "aleo_stmt \<Rightarrow> aleo_stmt" where
  "strength_reduce s = (case try_strength_reduce s of None \<Rightarrow> s | Some reduced \<Rightarrow> reduced)"

definition resolvable :: "nat \<Rightarrow> aliases \<Rightarrow> aleo_stmt \<Rightarrow> bool" where
  "resolvable n A s = list_all (\<lambda>e. resolve_alias n A e \<noteq> None) (operands s)"

definition fold_identity_operations :: "aleo_stmt list \<Rightarrow> aleo_stmt list option" where
  "fold_identity_operations stmts =
     (let reduced = map strength_reduce stmts;
          n = length stmts;
          kept = filter (\<lambda>s. try_identity s = None) reduced
      in case collect_aliases n Map.empty reduced of
           None \<Rightarrow> None
         | Some A \<Rightarrow>
             if list_all (\<lambda>s. try_identity s = None) reduced then Some reduced
             else if list_all (resolvable n A) kept then Some (map (substitute_aliases_in_stmt n A) kept)
             else None)"

section \<open>Elimination of trivial asserts\<close>

definition is_trivial_assert :: "aleo_stmt \<Rightarrow> bool" where
  "is_trivial_assert s =
     (case s of AS_AssertEq a b \<Rightarrow> is_literal a \<and> is_literal b \<and> a = b | _ \<Rightarrow> False)"

definition is_output :: "aleo_stmt \<Rightarrow> bool" where
  "is_output s = (case s of AS_Output e ty viz \<Rightarrow> True | _ \<Rightarrow> False)"

fun retain_one_trivial :: "bool \<Rightarrow> aleo_stmt list \<Rightarrow> aleo_stmt list" where
  "retain_one_trivial kept_one [] = []"
| "retain_one_trivial kept_one (s # ss) =
     (if is_trivial_assert s then
        if kept_one then retain_one_trivial kept_one ss else s # retain_one_trivial True ss
      else s # retain_one_trivial kept_one ss)"

definition eliminate_trivial_asserts :: "aleo_stmt list \<Rightarrow> aleo_stmt list" where
  "eliminate_trivial_asserts stmts =
     (if length (filter (\<lambda>s. \<not> is_output s \<and> \<not> is_trivial_assert s) stmts) = 0
      then retain_one_trivial False stmts
      else filter (\<lambda>s. \<not> is_trivial_assert s) stmts)"

section \<open>Elimination of dead registers\<close>

fun collect_from_expr :: "aleo_expr \<Rightarrow> aleo_reg list" where
  "collect_from_expr (AE_Reg r) = [r]"
| "collect_from_expr (AE_Tuple es) = concat (map collect_from_expr es)"
| "collect_from_expr (AE_ArrayAccess a b) = collect_from_expr a @ collect_from_expr b"
| "collect_from_expr (AE_MemberAccess a _) = collect_from_expr a"
| "collect_from_expr _ = []"

primrec collect_read_registers :: "aleo_stmt \<Rightarrow> aleo_reg list" where
  "collect_read_registers (AS_Output e ty viz) = collect_from_expr e"
| "collect_read_registers (AS_AssertEq e1 e2) = collect_from_expr e1 @ collect_from_expr e2"
| "collect_read_registers (AS_AssertNeq e1 e2) = collect_from_expr e1 @ collect_from_expr e2"
| "collect_read_registers (AS_Cast e d ty) = collect_from_expr e"
| "collect_read_registers (AS_Abs e d) = collect_from_expr e"
| "collect_read_registers (AS_AbsW e d) = collect_from_expr e"
| "collect_read_registers (AS_Double e d) = collect_from_expr e"
| "collect_read_registers (AS_Inv e d) = collect_from_expr e"
| "collect_read_registers (AS_Not e d) = collect_from_expr e"
| "collect_read_registers (AS_Neg e d) = collect_from_expr e"
| "collect_read_registers (AS_Square e d) = collect_from_expr e"
| "collect_read_registers (AS_Sqrt e d) = collect_from_expr e"
| "collect_read_registers (AS_Ternary e1 e2 e3 d) = collect_from_expr e1 @ collect_from_expr e2 @ collect_from_expr e3"
| "collect_read_registers (AS_Commit op e1 e2 d ty) = collect_from_expr e1 @ collect_from_expr e2"
| "collect_read_registers (AS_Hash op e d ty) = collect_from_expr e"
| "collect_read_registers (AS_Get e1 e2 d) = collect_from_expr e1 @ collect_from_expr e2"
| "collect_read_registers (AS_GetOrUse e1 e2 e3 d) = collect_from_expr e1 @ collect_from_expr e2 @ collect_from_expr e3"
| "collect_read_registers (AS_Set e1 e2 e3) = collect_from_expr e1 @ collect_from_expr e2 @ collect_from_expr e3"
| "collect_read_registers (AS_Remove e1 e2) = collect_from_expr e1 @ collect_from_expr e2"
| "collect_read_registers (AS_Contains e1 e2 d) = collect_from_expr e1 @ collect_from_expr e2"
| "collect_read_registers (AS_RandChacha d ty) = []"
| "collect_read_registers (AS_SignVerify e1 e2 e3 d) = collect_from_expr e1 @ collect_from_expr e2 @ collect_from_expr e3"
| "collect_read_registers (AS_EcdsaVerify op e1 e2 e3 d) = collect_from_expr e1 @ collect_from_expr e2 @ collect_from_expr e3"
| "collect_read_registers (AS_SnarkVerify op e1 e2 e3 e4 d) = collect_from_expr e1 @ collect_from_expr e2 @ collect_from_expr e3 @ collect_from_expr e4"
| "collect_read_registers (AS_Await e) = collect_from_expr e"
| "collect_read_registers (AS_Serialize op e ty1 d ty2) = collect_from_expr e"
| "collect_read_registers (AS_Deserialize op e ty1 d ty2) = collect_from_expr e"
| "collect_read_registers (AS_Call s es ds) = concat (map collect_from_expr es)"
| "collect_read_registers (AS_CallDynamic e1 e2 e3 es tys1 ds tys2) = collect_from_expr e1 @ collect_from_expr e2 @ collect_from_expr e3 @ concat (map collect_from_expr es)"
| "collect_read_registers (AS_GetRecordDynamic e s d ty) = collect_from_expr e"
| "collect_read_registers (AS_ContainsDynamic e1 e2 e3 e4 d) = collect_from_expr e1 @ collect_from_expr e2 @ collect_from_expr e3 @ collect_from_expr e4"
| "collect_read_registers (AS_GetDynamic e1 e2 e3 e4 d ty) = collect_from_expr e1 @ collect_from_expr e2 @ collect_from_expr e3 @ collect_from_expr e4"
| "collect_read_registers (AS_GetOrUseDynamic e1 e2 e3 e4 e5 d ty) = collect_from_expr e1 @ collect_from_expr e2 @ collect_from_expr e3 @ collect_from_expr e4 @ collect_from_expr e5"
| "collect_read_registers (AS_Async s es ds) = concat (map collect_from_expr es)"
| "collect_read_registers (AS_BranchEq e1 e2 s) = collect_from_expr e1 @ collect_from_expr e2"
| "collect_read_registers (AS_Position s) = []"
| "collect_read_registers (AS_Add e1 e2 d) = collect_from_expr e1 @ collect_from_expr e2"
| "collect_read_registers (AS_AddWrapped e1 e2 d) = collect_from_expr e1 @ collect_from_expr e2"
| "collect_read_registers (AS_And e1 e2 d) = collect_from_expr e1 @ collect_from_expr e2"
| "collect_read_registers (AS_Div e1 e2 d) = collect_from_expr e1 @ collect_from_expr e2"
| "collect_read_registers (AS_DivWrapped e1 e2 d) = collect_from_expr e1 @ collect_from_expr e2"
| "collect_read_registers (AS_Eq e1 e2 d) = collect_from_expr e1 @ collect_from_expr e2"
| "collect_read_registers (AS_Gte e1 e2 d) = collect_from_expr e1 @ collect_from_expr e2"
| "collect_read_registers (AS_Gt e1 e2 d) = collect_from_expr e1 @ collect_from_expr e2"
| "collect_read_registers (AS_Lte e1 e2 d) = collect_from_expr e1 @ collect_from_expr e2"
| "collect_read_registers (AS_Lt e1 e2 d) = collect_from_expr e1 @ collect_from_expr e2"
| "collect_read_registers (AS_Mod e1 e2 d) = collect_from_expr e1 @ collect_from_expr e2"
| "collect_read_registers (AS_Mul e1 e2 d) = collect_from_expr e1 @ collect_from_expr e2"
| "collect_read_registers (AS_MulWrapped e1 e2 d) = collect_from_expr e1 @ collect_from_expr e2"
| "collect_read_registers (AS_Nand e1 e2 d) = collect_from_expr e1 @ collect_from_expr e2"
| "collect_read_registers (AS_Neq e1 e2 d) = collect_from_expr e1 @ collect_from_expr e2"
| "collect_read_registers (AS_Nor e1 e2 d) = collect_from_expr e1 @ collect_from_expr e2"
| "collect_read_registers (AS_Or e1 e2 d) = collect_from_expr e1 @ collect_from_expr e2"
| "collect_read_registers (AS_Pow e1 e2 d) = collect_from_expr e1 @ collect_from_expr e2"
| "collect_read_registers (AS_PowWrapped e1 e2 d) = collect_from_expr e1 @ collect_from_expr e2"
| "collect_read_registers (AS_Rem e1 e2 d) = collect_from_expr e1 @ collect_from_expr e2"
| "collect_read_registers (AS_RemWrapped e1 e2 d) = collect_from_expr e1 @ collect_from_expr e2"
| "collect_read_registers (AS_Shl e1 e2 d) = collect_from_expr e1 @ collect_from_expr e2"
| "collect_read_registers (AS_ShlWrapped e1 e2 d) = collect_from_expr e1 @ collect_from_expr e2"
| "collect_read_registers (AS_Shr e1 e2 d) = collect_from_expr e1 @ collect_from_expr e2"
| "collect_read_registers (AS_ShrWrapped e1 e2 d) = collect_from_expr e1 @ collect_from_expr e2"
| "collect_read_registers (AS_Sub e1 e2 d) = collect_from_expr e1 @ collect_from_expr e2"
| "collect_read_registers (AS_SubWrapped e1 e2 d) = collect_from_expr e1 @ collect_from_expr e2"
| "collect_read_registers (AS_Xor e1 e2 d) = collect_from_expr e1 @ collect_from_expr e2"

primrec dest_register_if_pure :: "aleo_stmt \<Rightarrow> aleo_reg option" where
  "dest_register_if_pure (AS_Output e ty viz) = None"
| "dest_register_if_pure (AS_AssertEq e1 e2) = None"
| "dest_register_if_pure (AS_AssertNeq e1 e2) = None"
| "dest_register_if_pure (AS_Cast e d ty) = None"
| "dest_register_if_pure (AS_Abs e d) = None"
| "dest_register_if_pure (AS_AbsW e d) = Some d"
| "dest_register_if_pure (AS_Double e d) = Some d"
| "dest_register_if_pure (AS_Inv e d) = None"
| "dest_register_if_pure (AS_Not e d) = Some d"
| "dest_register_if_pure (AS_Neg e d) = None"
| "dest_register_if_pure (AS_Square e d) = Some d"
| "dest_register_if_pure (AS_Sqrt e d) = None"
| "dest_register_if_pure (AS_Ternary e1 e2 e3 d) = Some d"
| "dest_register_if_pure (AS_Commit op e1 e2 d ty) = None"
| "dest_register_if_pure (AS_Hash op e d ty) = None"
| "dest_register_if_pure (AS_Get e1 e2 d) = None"
| "dest_register_if_pure (AS_GetOrUse e1 e2 e3 d) = None"
| "dest_register_if_pure (AS_Set e1 e2 e3) = None"
| "dest_register_if_pure (AS_Remove e1 e2) = None"
| "dest_register_if_pure (AS_Contains e1 e2 d) = None"
| "dest_register_if_pure (AS_RandChacha d ty) = None"
| "dest_register_if_pure (AS_SignVerify e1 e2 e3 d) = None"
| "dest_register_if_pure (AS_EcdsaVerify op e1 e2 e3 d) = None"
| "dest_register_if_pure (AS_SnarkVerify op e1 e2 e3 e4 d) = None"
| "dest_register_if_pure (AS_Await e) = None"
| "dest_register_if_pure (AS_Serialize op e ty1 d ty2) = None"
| "dest_register_if_pure (AS_Deserialize op e ty1 d ty2) = None"
| "dest_register_if_pure (AS_Call s es ds) = None"
| "dest_register_if_pure (AS_CallDynamic e1 e2 e3 es tys1 ds tys2) = None"
| "dest_register_if_pure (AS_GetRecordDynamic e s d ty) = None"
| "dest_register_if_pure (AS_ContainsDynamic e1 e2 e3 e4 d) = None"
| "dest_register_if_pure (AS_GetDynamic e1 e2 e3 e4 d ty) = None"
| "dest_register_if_pure (AS_GetOrUseDynamic e1 e2 e3 e4 e5 d ty) = None"
| "dest_register_if_pure (AS_Async s es ds) = None"
| "dest_register_if_pure (AS_BranchEq e1 e2 s) = None"
| "dest_register_if_pure (AS_Position s) = None"
| "dest_register_if_pure (AS_Add e1 e2 d) = None"
| "dest_register_if_pure (AS_AddWrapped e1 e2 d) = Some d"
| "dest_register_if_pure (AS_And e1 e2 d) = Some d"
| "dest_register_if_pure (AS_Div e1 e2 d) = None"
| "dest_register_if_pure (AS_DivWrapped e1 e2 d) = None"
| "dest_register_if_pure (AS_Eq e1 e2 d) = Some d"
| "dest_register_if_pure (AS_Gte e1 e2 d) = Some d"
| "dest_register_if_pure (AS_Gt e1 e2 d) = Some d"
| "dest_register_if_pure (AS_Lte e1 e2 d) = Some d"
| "dest_register_if_pure (AS_Lt e1 e2 d) = Some d"
| "dest_register_if_pure (AS_Mod e1 e2 d) = None"
| "dest_register_if_pure (AS_Mul e1 e2 d) = None"
| "dest_register_if_pure (AS_MulWrapped e1 e2 d) = Some d"
| "dest_register_if_pure (AS_Nand e1 e2 d) = Some d"
| "dest_register_if_pure (AS_Neq e1 e2 d) = Some d"
| "dest_register_if_pure (AS_Nor e1 e2 d) = Some d"
| "dest_register_if_pure (AS_Or e1 e2 d) = Some d"
| "dest_register_if_pure (AS_Pow e1 e2 d) = None"
| "dest_register_if_pure (AS_PowWrapped e1 e2 d) = Some d"
| "dest_register_if_pure (AS_Rem e1 e2 d) = None"
| "dest_register_if_pure (AS_RemWrapped e1 e2 d) = None"
| "dest_register_if_pure (AS_Shl e1 e2 d) = None"
| "dest_register_if_pure (AS_ShlWrapped e1 e2 d) = Some d"
| "dest_register_if_pure (AS_Shr e1 e2 d) = None"
| "dest_register_if_pure (AS_ShrWrapped e1 e2 d) = Some d"
| "dest_register_if_pure (AS_Sub e1 e2 d) = None"
| "dest_register_if_pure (AS_SubWrapped e1 e2 d) = Some d"
| "dest_register_if_pure (AS_Xor e1 e2 d) = Some d"

definition eliminate_dead_registers :: "aleo_stmt list \<Rightarrow> aleo_stmt list" where
  "eliminate_dead_registers stmts =
     (let used = set (concat (map collect_read_registers stmts))
      in filter (\<lambda>s. case dest_register_if_pure s of Some d \<Rightarrow> d \<in> used | None \<Rightarrow> True) stmts)"

section \<open>Folding of consecutive casts\<close>

definition reg_use_count :: "aleo_stmt list \<Rightarrow> aleo_reg \<Rightarrow> nat" where
  "reg_use_count stmts r = length (filter (\<lambda>s. r \<in> set (collect_read_registers s)) stmts)"

datatype primitive_cast_domain = Signed nat | Unsigned nat

definition primitive_cast_domain :: "aleo_type \<Rightarrow> primitive_cast_domain option" where
  "primitive_cast_domain ty =
     (case ty of
        AT_I8 \<Rightarrow> Some (Signed 8) | AT_I16 \<Rightarrow> Some (Signed 16) | AT_I32 \<Rightarrow> Some (Signed 32)
      | AT_I64 \<Rightarrow> Some (Signed 64) | AT_I128 \<Rightarrow> Some (Signed 128)
      | AT_U8 \<Rightarrow> Some (Unsigned 8) | AT_U16 \<Rightarrow> Some (Unsigned 16) | AT_U32 \<Rightarrow> Some (Unsigned 32)
      | AT_U64 \<Rightarrow> Some (Unsigned 64) | AT_U128 \<Rightarrow> Some (Unsigned 128)
      | _ \<Rightarrow> None)"

definition intermediate_accepts_all_final_values :: "aleo_type \<Rightarrow> aleo_type \<Rightarrow> bool" where
  "intermediate_accepts_all_final_values intermediate final_target =
     (case (primitive_cast_domain intermediate, primitive_cast_domain final_target) of
        (Some (Signed i), Some (Signed f)) \<Rightarrow> f \<le> i
      | (Some (Signed i), Some (Unsigned f)) \<Rightarrow> f < i
      | (Some (Unsigned i), Some (Unsigned f)) \<Rightarrow> f \<le> i
      | _ \<Rightarrow> False)"

text \<open>The cast that replaces two adjacent statements, if they can be folded.\<close>

definition fold_cast :: "(aleo_reg \<Rightarrow> nat) \<Rightarrow> aleo_stmt \<Rightarrow> aleo_stmt \<Rightarrow> aleo_stmt option" where
  "fold_cast cnt s1 s2 =
     (case (s1, s2) of
        (AS_Cast src r0 t1, AS_Cast operand d t2) \<Rightarrow>
          (case (src, operand) of
             (AE_Tuple _, _) \<Rightarrow> None
           | (_, AE_Reg inner_reg) \<Rightarrow>
               if inner_reg = r0 \<and> cnt r0 = 1 \<and> intermediate_accepts_all_final_values t1 t2
               then Some (AS_Cast src d t2) else None
           | _ \<Rightarrow> None)
      | _ \<Rightarrow> None)"

text \<open>The loop at index \<open>i\<close>: the statements before \<open>i\<close> are final.\<close>

fun fold_casts_loop :: "(aleo_reg \<Rightarrow> nat) \<Rightarrow> aleo_stmt list \<Rightarrow> aleo_stmt list" where
  "fold_casts_loop cnt (s1 # s2 # ss) =
     (case fold_cast cnt s1 s2 of
        Some s \<Rightarrow> fold_casts_loop cnt (s # ss)
      | None \<Rightarrow> s1 # fold_casts_loop cnt (s2 # ss))"
| "fold_casts_loop cnt ss = ss"

definition fold_consecutive_casts :: "aleo_stmt list \<Rightarrow> aleo_stmt list" where
  "fold_consecutive_casts stmts =
     (if length stmts < 2 then stmts else fold_casts_loop (reg_use_count stmts) stmts)"

section \<open>Renumbering of registers\<close>

fun number_dests :: "(nat \<rightharpoonup> nat) \<Rightarrow> nat \<Rightarrow> aleo_reg list \<Rightarrow> (nat \<rightharpoonup> nat) \<times> nat" where
  "number_dests m next [] = (m, next)"
| "number_dests m next (d # ds) =
     (case d of
        R n \<Rightarrow> if m n = None then number_dests (m(n \<mapsto> next)) (Suc next) ds else number_dests m next ds
      | _ \<Rightarrow> number_dests m next ds)"

definition register_mapping :: "aleo_stmt list \<Rightarrow> nat \<Rightarrow> nat \<rightharpoonup> nat" where
  "register_mapping stmts num_inputs =
     fst (number_dests (\<lambda>i. if i < num_inputs then Some i else None) num_inputs
            (concat (map dest_registers stmts)))"

fun remap_reg :: "(nat \<rightharpoonup> nat) \<Rightarrow> aleo_reg \<Rightarrow> aleo_reg" where
  "remap_reg m (R n) = (case m n of Some n' \<Rightarrow> R n' | None \<Rightarrow> R n)"
| "remap_reg m r = r"

fun remap_expr :: "(nat \<rightharpoonup> nat) \<Rightarrow> aleo_expr \<Rightarrow> aleo_expr" where
  "remap_expr m (AE_Reg r) = AE_Reg (remap_reg m r)"
| "remap_expr m (AE_Tuple es) = AE_Tuple (map (remap_expr m) es)"
| "remap_expr m (AE_ArrayAccess a b) = AE_ArrayAccess (remap_expr m a) (remap_expr m b)"
| "remap_expr m (AE_MemberAccess a f) = AE_MemberAccess (remap_expr m a) f"
| "remap_expr m e = e"

primrec remap_stmt :: "(nat \<rightharpoonup> nat) \<Rightarrow> aleo_stmt \<Rightarrow> aleo_stmt" where
  "remap_stmt m (AS_Output e ty viz) = AS_Output (remap_expr m e) ty viz"
| "remap_stmt m (AS_AssertEq e1 e2) = AS_AssertEq (remap_expr m e1) (remap_expr m e2)"
| "remap_stmt m (AS_AssertNeq e1 e2) = AS_AssertNeq (remap_expr m e1) (remap_expr m e2)"
| "remap_stmt m (AS_Cast e d ty) = AS_Cast (remap_expr m e) (remap_reg m d) ty"
| "remap_stmt m (AS_Abs e d) = AS_Abs (remap_expr m e) (remap_reg m d)"
| "remap_stmt m (AS_AbsW e d) = AS_AbsW (remap_expr m e) (remap_reg m d)"
| "remap_stmt m (AS_Double e d) = AS_Double (remap_expr m e) (remap_reg m d)"
| "remap_stmt m (AS_Inv e d) = AS_Inv (remap_expr m e) (remap_reg m d)"
| "remap_stmt m (AS_Not e d) = AS_Not (remap_expr m e) (remap_reg m d)"
| "remap_stmt m (AS_Neg e d) = AS_Neg (remap_expr m e) (remap_reg m d)"
| "remap_stmt m (AS_Square e d) = AS_Square (remap_expr m e) (remap_reg m d)"
| "remap_stmt m (AS_Sqrt e d) = AS_Sqrt (remap_expr m e) (remap_reg m d)"
| "remap_stmt m (AS_Ternary e1 e2 e3 d) = AS_Ternary (remap_expr m e1) (remap_expr m e2) (remap_expr m e3) (remap_reg m d)"
| "remap_stmt m (AS_Commit op e1 e2 d ty) = AS_Commit op (remap_expr m e1) (remap_expr m e2) (remap_reg m d) ty"
| "remap_stmt m (AS_Hash op e d ty) = AS_Hash op (remap_expr m e) (remap_reg m d) ty"
| "remap_stmt m (AS_Get e1 e2 d) = AS_Get (remap_expr m e1) (remap_expr m e2) (remap_reg m d)"
| "remap_stmt m (AS_GetOrUse e1 e2 e3 d) = AS_GetOrUse (remap_expr m e1) (remap_expr m e2) (remap_expr m e3) (remap_reg m d)"
| "remap_stmt m (AS_Set e1 e2 e3) = AS_Set (remap_expr m e1) (remap_expr m e2) (remap_expr m e3)"
| "remap_stmt m (AS_Remove e1 e2) = AS_Remove (remap_expr m e1) (remap_expr m e2)"
| "remap_stmt m (AS_Contains e1 e2 d) = AS_Contains (remap_expr m e1) (remap_expr m e2) (remap_reg m d)"
| "remap_stmt m (AS_RandChacha d ty) = AS_RandChacha (remap_reg m d) ty"
| "remap_stmt m (AS_SignVerify e1 e2 e3 d) = AS_SignVerify (remap_expr m e1) (remap_expr m e2) (remap_expr m e3) (remap_reg m d)"
| "remap_stmt m (AS_EcdsaVerify op e1 e2 e3 d) = AS_EcdsaVerify op (remap_expr m e1) (remap_expr m e2) (remap_expr m e3) (remap_reg m d)"
| "remap_stmt m (AS_SnarkVerify op e1 e2 e3 e4 d) = AS_SnarkVerify op (remap_expr m e1) (remap_expr m e2) (remap_expr m e3) (remap_expr m e4) (remap_reg m d)"
| "remap_stmt m (AS_Await e) = AS_Await (remap_expr m e)"
| "remap_stmt m (AS_Serialize op e ty1 d ty2) = AS_Serialize op (remap_expr m e) ty1 (remap_reg m d) ty2"
| "remap_stmt m (AS_Deserialize op e ty1 d ty2) = AS_Deserialize op (remap_expr m e) ty1 (remap_reg m d) ty2"
| "remap_stmt m (AS_Call s es ds) = AS_Call s (map (remap_expr m) es) (map (remap_reg m) ds)"
| "remap_stmt m (AS_CallDynamic e1 e2 e3 es tys1 ds tys2) = AS_CallDynamic (remap_expr m e1) (remap_expr m e2) (remap_expr m e3) (map (remap_expr m) es) tys1 (map (remap_reg m) ds) tys2"
| "remap_stmt m (AS_GetRecordDynamic e s d ty) = AS_GetRecordDynamic (remap_expr m e) s (remap_reg m d) ty"
| "remap_stmt m (AS_ContainsDynamic e1 e2 e3 e4 d) = AS_ContainsDynamic (remap_expr m e1) (remap_expr m e2) (remap_expr m e3) (remap_expr m e4) (remap_reg m d)"
| "remap_stmt m (AS_GetDynamic e1 e2 e3 e4 d ty) = AS_GetDynamic (remap_expr m e1) (remap_expr m e2) (remap_expr m e3) (remap_expr m e4) (remap_reg m d) ty"
| "remap_stmt m (AS_GetOrUseDynamic e1 e2 e3 e4 e5 d ty) = AS_GetOrUseDynamic (remap_expr m e1) (remap_expr m e2) (remap_expr m e3) (remap_expr m e4) (remap_expr m e5) (remap_reg m d) ty"
| "remap_stmt m (AS_Async s es ds) = AS_Async s (map (remap_expr m) es) (map (remap_reg m) ds)"
| "remap_stmt m (AS_BranchEq e1 e2 s) = AS_BranchEq (remap_expr m e1) (remap_expr m e2) s"
| "remap_stmt m (AS_Position s) = AS_Position s"
| "remap_stmt m (AS_Add e1 e2 d) = AS_Add (remap_expr m e1) (remap_expr m e2) (remap_reg m d)"
| "remap_stmt m (AS_AddWrapped e1 e2 d) = AS_AddWrapped (remap_expr m e1) (remap_expr m e2) (remap_reg m d)"
| "remap_stmt m (AS_And e1 e2 d) = AS_And (remap_expr m e1) (remap_expr m e2) (remap_reg m d)"
| "remap_stmt m (AS_Div e1 e2 d) = AS_Div (remap_expr m e1) (remap_expr m e2) (remap_reg m d)"
| "remap_stmt m (AS_DivWrapped e1 e2 d) = AS_DivWrapped (remap_expr m e1) (remap_expr m e2) (remap_reg m d)"
| "remap_stmt m (AS_Eq e1 e2 d) = AS_Eq (remap_expr m e1) (remap_expr m e2) (remap_reg m d)"
| "remap_stmt m (AS_Gte e1 e2 d) = AS_Gte (remap_expr m e1) (remap_expr m e2) (remap_reg m d)"
| "remap_stmt m (AS_Gt e1 e2 d) = AS_Gt (remap_expr m e1) (remap_expr m e2) (remap_reg m d)"
| "remap_stmt m (AS_Lte e1 e2 d) = AS_Lte (remap_expr m e1) (remap_expr m e2) (remap_reg m d)"
| "remap_stmt m (AS_Lt e1 e2 d) = AS_Lt (remap_expr m e1) (remap_expr m e2) (remap_reg m d)"
| "remap_stmt m (AS_Mod e1 e2 d) = AS_Mod (remap_expr m e1) (remap_expr m e2) (remap_reg m d)"
| "remap_stmt m (AS_Mul e1 e2 d) = AS_Mul (remap_expr m e1) (remap_expr m e2) (remap_reg m d)"
| "remap_stmt m (AS_MulWrapped e1 e2 d) = AS_MulWrapped (remap_expr m e1) (remap_expr m e2) (remap_reg m d)"
| "remap_stmt m (AS_Nand e1 e2 d) = AS_Nand (remap_expr m e1) (remap_expr m e2) (remap_reg m d)"
| "remap_stmt m (AS_Neq e1 e2 d) = AS_Neq (remap_expr m e1) (remap_expr m e2) (remap_reg m d)"
| "remap_stmt m (AS_Nor e1 e2 d) = AS_Nor (remap_expr m e1) (remap_expr m e2) (remap_reg m d)"
| "remap_stmt m (AS_Or e1 e2 d) = AS_Or (remap_expr m e1) (remap_expr m e2) (remap_reg m d)"
| "remap_stmt m (AS_Pow e1 e2 d) = AS_Pow (remap_expr m e1) (remap_expr m e2) (remap_reg m d)"
| "remap_stmt m (AS_PowWrapped e1 e2 d) = AS_PowWrapped (remap_expr m e1) (remap_expr m e2) (remap_reg m d)"
| "remap_stmt m (AS_Rem e1 e2 d) = AS_Rem (remap_expr m e1) (remap_expr m e2) (remap_reg m d)"
| "remap_stmt m (AS_RemWrapped e1 e2 d) = AS_RemWrapped (remap_expr m e1) (remap_expr m e2) (remap_reg m d)"
| "remap_stmt m (AS_Shl e1 e2 d) = AS_Shl (remap_expr m e1) (remap_expr m e2) (remap_reg m d)"
| "remap_stmt m (AS_ShlWrapped e1 e2 d) = AS_ShlWrapped (remap_expr m e1) (remap_expr m e2) (remap_reg m d)"
| "remap_stmt m (AS_Shr e1 e2 d) = AS_Shr (remap_expr m e1) (remap_expr m e2) (remap_reg m d)"
| "remap_stmt m (AS_ShrWrapped e1 e2 d) = AS_ShrWrapped (remap_expr m e1) (remap_expr m e2) (remap_reg m d)"
| "remap_stmt m (AS_Sub e1 e2 d) = AS_Sub (remap_expr m e1) (remap_expr m e2) (remap_reg m d)"
| "remap_stmt m (AS_SubWrapped e1 e2 d) = AS_SubWrapped (remap_expr m e1) (remap_expr m e2) (remap_reg m d)"
| "remap_stmt m (AS_Xor e1 e2 d) = AS_Xor (remap_expr m e1) (remap_expr m e2) (remap_reg m d)"

text \<open>
  The early return when every register keeps its number leaves the list as it is; applying the
  identity mapping would give the same list.
\<close>

definition renumber_registers :: "aleo_stmt list \<Rightarrow> nat \<Rightarrow> aleo_stmt list" where
  "renumber_registers stmts num_inputs =
     (let m = register_mapping stmts num_inputs;
          olds = [0..<num_inputs] @ concat (map (\<lambda>d. case d of R n \<Rightarrow> [n] | _ \<Rightarrow> []) (concat (map dest_registers stmts)))
      in if list_all (\<lambda>n. m n = Some n) olds then stmts
         else map (remap_stmt m) stmts)"

section \<open>The pass\<close>

definition peephole :: "aleo_stmt list \<Rightarrow> nat \<Rightarrow> aleo_stmt list option" where
  "peephole stmts num_inputs =
     map_option (\<lambda>ss. renumber_registers
                        (fold_consecutive_casts (eliminate_dead_registers (eliminate_trivial_asserts ss)))
                        num_inputs)
       (fold_identity_operations stmts)"

text \<open>
  \<^verbatim>\<open>do_pass\<close> applies these steps to every list of statements of every program.
\<close>

fun functional_lists :: "aleo_functional \<Rightarrow> (aleo_stmt list \<times> nat) list" where
  "functional_lists (Closure b) = [(body_statements b, length (body_inputs b))]"
| "functional_lists (Function b fin) =
     (body_statements b, length (body_inputs b)) #
     (case fin of None \<Rightarrow> [] | Some f \<Rightarrow> [(body_statements f, length (body_inputs f))])"
| "functional_lists (Finalize b) = [(body_statements b, length (body_inputs b))]"
| "functional_lists (View b) = [(body_statements b, length (body_inputs b))]"

definition statement_lists :: "aleo_program \<Rightarrow> (aleo_stmt list \<times> nat) list" where
  "statement_lists p =
     concat (map functional_lists (program_functions p)) @
     (case program_constructor p of None \<Rightarrow> [] | Some ss \<Rightarrow> [(ss, 0)])"

definition do_pass :: "aleo_program list \<Rightarrow> aleo_program list option" where
  "do_pass ps =
     (if list_all (\<lambda>p. list_all (\<lambda>(ss, n). peephole ss n \<noteq> None) (statement_lists p)) ps
      then Some (map (for_each_statement_list (\<lambda>ss n. the (peephole ss n))) ps)
      else None)"

section \<open>The traversals in terms of operands and destinations\<close>

lemma substitute_aliases_in_stmt_conv:
  "substitute_aliases_in_stmt n A s = map_stmt (sub_alias n A) (\<lambda>d. d) s"
  by (cases s) simp_all

lemma collect_read_registers_conv:
  "collect_read_registers s = concat (map collect_from_expr (operands s))"
  by (cases s) simp_all

lemma remap_stmt_conv: "remap_stmt m s = map_stmt (remap_expr m) (remap_reg m) s"
  by (cases s) simp_all

lemma dest_register_if_pure_dest: "dest_register_if_pure s = Some d \<Longrightarrow> dest_registers s = [d]"
  by (cases s) simp_all

end
