(* ===== verification/Aleo_Machine.thy ===== *)
theory Aleo_Machine
  imports Aleo_Code "HOL-Library.Sublist"
begin

text \<open>
  What it means to run a list of Aleo instructions.  The instructions are executed by snarkVM, which
  is not part of the compiler: their effect is the argument \<open>vm\<close> of the definitions here.  The
  semantics fixes only what the instruction language itself determines: operands are read from the
  registers, a result is written to the destination registers, a \<^verbatim>\<open>branch.eq\<close> jumps forward to a label,
  and an instruction may halt the whole run.

  A run is \<open>Wrong\<close> when it reads a register that was not written, gives an instruction operands it
  does not accept, or jumps to a missing label; code that passes the checks of snarkVM does not.

  The locale \<open>simulation\<close> is the contract of a pass that replaces or deletes statements one by one:
  such a pass preserves the outcome of every run that is not wrong.
\<close>

type_synonym 'v env = "aleo_reg \<rightharpoonup> 'v"

datatype ('v, 'w) step = Step "'v list" 'w | Halt | Ill_Typed

record ('v, 'w) vm =
  vm_const :: "aleo_expr \<Rightarrow> 'v"
  vm_tuple :: "'v list \<Rightarrow> 'v option"
  vm_index :: "'v \<Rightarrow> 'v \<Rightarrow> 'v option"
  vm_member :: "'v \<Rightarrow> string \<Rightarrow> 'v option"
  vm_step :: "aleo_stmt \<Rightarrow> 'v list \<Rightarrow> 'w \<Rightarrow> ('v, 'w) step"
  vm_num :: "'v \<Rightarrow> int option"
  vm_int :: "integer_type \<Rightarrow> int \<Rightarrow> 'v"

datatype ('v, 'w) effect = Next "aleo_reg \<rightharpoonup> 'v" 'w | Goto string | Stop | Stuck

datatype 'w outcome = Finished 'w | Halted | Wrong

section \<open>Operands\<close>

lemma collect_opt_map_mono:
  "(\<And>x v. x \<in> set xs \<Longrightarrow> f x = Some v \<Longrightarrow> g x = Some v) \<Longrightarrow>
     collect_opt (map f xs) = Some vs \<Longrightarrow> collect_opt (map g xs) = Some vs"
proof (induction xs arbitrary: vs)
  case (Cons x xs)
  then show ?case by (cases "f x") auto
qed simp

fun eval :: "('v, 'w) vm \<Rightarrow> 'v env \<Rightarrow> aleo_expr \<Rightarrow> 'v option" where
  "eval vm E (AE_Reg r) = E r"
| "eval vm E (AE_Tuple es) =
     (case collect_opt (map (eval vm E) es) of None \<Rightarrow> None | Some vs \<Rightarrow> vm_tuple vm vs)"
| "eval vm E (AE_ArrayAccess a b) =
     (case (eval vm E a, eval vm E b) of (Some x, Some y) \<Rightarrow> vm_index vm x y | _ \<Rightarrow> None)"
| "eval vm E (AE_MemberAccess a f) =
     (case eval vm E a of Some x \<Rightarrow> vm_member vm x f | None \<Rightarrow> None)"
| "eval vm E e = Some (vm_const vm e)"

fun expr_regs :: "aleo_expr \<Rightarrow> aleo_reg set" where
  "expr_regs (AE_Reg r) = {r}"
| "expr_regs (AE_Tuple es) = (\<Union>e\<in>set es. expr_regs e)"
| "expr_regs (AE_ArrayAccess a b) = expr_regs a \<union> expr_regs b"
| "expr_regs (AE_MemberAccess a f) = expr_regs a"
| "expr_regs e = {}"

fun subst_expr :: "(aleo_reg \<Rightarrow> aleo_expr) \<Rightarrow> aleo_expr \<Rightarrow> aleo_expr" where
  "subst_expr h (AE_Reg r) = h r"
| "subst_expr h (AE_Tuple es) = AE_Tuple (map (subst_expr h) es)"
| "subst_expr h (AE_ArrayAccess a b) = AE_ArrayAccess (subst_expr h a) (subst_expr h b)"
| "subst_expr h (AE_MemberAccess a f) = AE_MemberAccess (subst_expr h a) f"
| "subst_expr h e = e"

lemma expr_regs_subst: "expr_regs (subst_expr h e) = (\<Union>r\<in>expr_regs e. expr_regs (h r))"
  by (induction h e rule: subst_expr.induct) auto

lemma subst_expr_cong:
  "(\<And>r. r \<in> expr_regs e \<Longrightarrow> h r = k r) \<Longrightarrow> subst_expr h e = subst_expr k e"
  by (induction h e rule: subst_expr.induct) auto

lemma subst_expr_Reg [simp]: "subst_expr AE_Reg e = e"
  by (induction e rule: expr_regs.induct) (auto intro: map_idI)

text \<open>Evaluation follows a substitution whose expressions denote the values of the registers they replace.\<close>

lemma eval_subst:
  assumes "\<And>r x. r \<in> expr_regs e \<Longrightarrow> E r = Some x \<Longrightarrow> eval vm E' (h r) = Some x"
    and "eval vm E e = Some v"
  shows "eval vm E' (subst_expr h e) = Some v"
  using assms
proof (induction h e arbitrary: v rule: subst_expr.induct)
  case (2 h es)
  then obtain vs where vs: "collect_opt (map (eval vm E) es) = Some vs" "vm_tuple vm vs = Some v"
    by (auto split: option.splits)
  have "eval vm E' (subst_expr h e) = Some x" if "e \<in> set es" "eval vm E e = Some x" for e x
    by (rule "2.IH") (use that "2.prems"(1) in auto)
  with vs(1) have "collect_opt (map (\<lambda>e. eval vm E' (subst_expr h e)) es) = Some vs"
    by (rule collect_opt_map_mono[rotated])
  with vs(2) show ?case by (simp add: o_def)
qed (auto split: option.splits)

lemma eval_regs: "eval vm E e = Some v \<Longrightarrow> expr_regs e \<subseteq> dom E"
proof (induction vm E e arbitrary: v rule: eval.induct)
  case (2 vm E es)
  then obtain vs where vs: "map (eval vm E) es = map Some vs"
    by (auto simp: collect_opt_Some_iff split: option.splits)
  have "expr_regs e \<subseteq> dom E" if e: "e \<in> set es" for e
  proof -
    from e vs have "eval vm E e \<in> set (map Some vs)" by (metis image_eqI list.set_map)
    with e "2.IH"[of e] show ?thesis by auto
  qed
  then show ?case by auto
qed (auto split: option.splits)

section \<open>Statements\<close>

datatype control = Plain | Branch string | Label string

definition control :: "aleo_stmt \<Rightarrow> control" where
  "control s = (case s of AS_BranchEq a b l \<Rightarrow> Branch l | AS_Position l \<Rightarrow> Label l | _ \<Rightarrow> Plain)"

definition exec_vals ::
  "('v, 'w) vm \<Rightarrow> 'v env \<Rightarrow> 'w \<Rightarrow> control \<Rightarrow> aleo_stmt \<Rightarrow> aleo_reg list \<Rightarrow> 'v list \<Rightarrow> ('v, 'w) effect" where
  "exec_vals vm E w c sk ds vs =
     (case c of
        Branch l \<Rightarrow> (case vs of [x, y] \<Rightarrow> if x = y then Goto l else Next E w | _ \<Rightarrow> Stuck)
      | Label l \<Rightarrow> Next E w
      | Plain \<Rightarrow>
          (case vm_step vm sk vs w of
             Step rs w' \<Rightarrow> if length rs = length ds then Next (E(ds [\<mapsto>] rs)) w' else Stuck
           | Halt \<Rightarrow> Stop
           | Ill_Typed \<Rightarrow> Stuck))"

definition exec :: "('v, 'w) vm \<Rightarrow> 'v env \<Rightarrow> 'w \<Rightarrow> aleo_stmt \<Rightarrow> ('v, 'w) effect" where
  "exec vm E w s =
     (case collect_opt (map (eval vm E) (operands s)) of
        None \<Rightarrow> Stuck
      | Some vs \<Rightarrow> exec_vals vm E w (control s) (skeleton s) (dest_registers s) vs)"

definition jump :: "string \<Rightarrow> aleo_stmt list \<Rightarrow> aleo_stmt list option" where
  "jump l ss = (case dropWhile (\<lambda>s. control s \<noteq> Label l) ss of [] \<Rightarrow> None | _ # rest \<Rightarrow> Some rest)"

lemma jump_simps [simp]:
  "jump l [] = None"
  "jump l (s # ss) = (if control s = Label l then Some ss else jump l ss)"
  by (simp_all add: jump_def)

lemma jump_suffix: "jump l ss = Some rest \<Longrightarrow> suffix rest ss"
  by (induction ss) (auto simp: suffix_Cons split: if_splits)

lemma jump_length: "jump l ss = Some rest \<Longrightarrow> length rest < length ss"
  by (induction ss) (auto split: if_splits)

function run :: "('v, 'w) vm \<Rightarrow> 'v env \<Rightarrow> 'w \<Rightarrow> aleo_stmt list \<Rightarrow> 'w outcome" where
  "run vm E w [] = Finished w"
| "run vm E w (s # ss) =
     (case exec vm E w s of
        Next E' w' \<Rightarrow> run vm E' w' ss
      | Goto l \<Rightarrow> (case jump l ss of None \<Rightarrow> Wrong | Some rest \<Rightarrow> run vm E w rest)
      | Stop \<Rightarrow> Halted
      | Stuck \<Rightarrow> Wrong)"
  by pat_completeness auto
termination
  by (relation "measure (\<lambda>(vm, E, w, ss). length ss)") (auto dest: jump_length)

lemma control_map_stmt [simp]: "control (map_stmt f g s) = control s"
  by (cases s) (simp_all add: control_def)

lemma dest_registers_control: "control s \<noteq> Plain \<Longrightarrow> dest_registers s = []"
  by (cases s) (simp_all add: control_def)

text \<open>\<open>effect_rel\<close>: the same effect, up to registers that a relation connects.\<close>

fun effect_rel :: "('v env \<Rightarrow> 'v env \<Rightarrow> bool) \<Rightarrow> ('v, 'w) effect \<Rightarrow> ('v, 'w) effect \<Rightarrow> bool" where
  "effect_rel J (Next E w) (Next E' w') = (w = w' \<and> J E E')"
| "effect_rel J (Goto l) (Goto l') = (l = l')"
| "effect_rel J Stop Stop = True"
| "effect_rel J _ _ = False"

lemma exec_values:
  assumes "exec vm E w s \<noteq> Stuck"
  obtains vs where "map (eval vm E) (operands s) = map Some vs"
    and "exec vm E w s = exec_vals vm E w (control s) (skeleton s) (dest_registers s) vs"
  using assms by (auto simp: exec_def collect_opt_Some_iff split: option.splits)

text \<open>A statement with substituted operands and renamed destinations has the same effect.\<close>

lemma exec_map_stmt:
  assumes vals: "\<And>e v. e \<in> set (operands s) \<Longrightarrow> eval vm E e = Some v \<Longrightarrow> eval vm E' (f e) = Some v"
    and ok: "exec vm E w s \<noteq> Stuck"
    and upd: "\<And>rs. length rs = length (dest_registers s) \<Longrightarrow>
                J (E(dest_registers s [\<mapsto>] rs)) (E'(map g (dest_registers s) [\<mapsto>] rs))"
  shows "effect_rel J (exec vm E w s) (exec vm E' w (map_stmt f g s))"
proof -
  obtain vs where vs: "map (eval vm E) (operands s) = map Some vs"
    "exec vm E w s = exec_vals vm E w (control s) (skeleton s) (dest_registers s) vs"
    using ok by (rule exec_values)
  then have "collect_opt (map (eval vm E) (operands s)) = Some vs" by (simp add: collect_opt_Some_iff)
  then have "collect_opt (map (\<lambda>e. eval vm E' (f e)) (operands s)) = Some vs"
    by (rule collect_opt_map_mono[rotated]) (rule vals)
  then have t: "exec vm E' w (map_stmt f g s) =
      exec_vals vm E' w (control s) (skeleton s) (map g (dest_registers s)) vs"
    by (simp add: exec_def o_def)
  have "dest_registers s = [] \<Longrightarrow> J E E'" using upd[of "[]"] by simp
  with ok vs(2) t upd dest_registers_control[of s] show ?thesis
    by (auto simp: exec_vals_def split: control.splits step.splits list.splits if_splits)
qed

section \<open>Passes that act on one statement at a time\<close>

inductive rewritten :: "(aleo_stmt \<Rightarrow> aleo_stmt \<Rightarrow> bool) \<Rightarrow> (aleo_stmt \<Rightarrow> bool) \<Rightarrow> aleo_stmt list \<Rightarrow> aleo_stmt list \<Rightarrow> bool"
  for K D where
  rewritten_nil: "rewritten K D [] []"
| rewritten_keep: "K s t \<Longrightarrow> rewritten K D ss ts \<Longrightarrow> rewritten K D (s # ss) (t # ts)"
| rewritten_drop: "D s \<Longrightarrow> rewritten K D ss ts \<Longrightarrow> rewritten K D (s # ss) ts"

inductive_cases rewritten_ConsE: "rewritten K D (s # ss) ts"
inductive_simps rewritten_Nil_iff [simp]: "rewritten K D [] ts"

lemma rewritten_filter:
  "(\<And>s. s \<in> set ss \<Longrightarrow> P s \<Longrightarrow> K s (f s)) \<Longrightarrow> (\<And>s. s \<in> set ss \<Longrightarrow> \<not> P s \<Longrightarrow> D s) \<Longrightarrow>
     rewritten K D ss (map f (filter P ss))"
  by (induction ss) (auto intro: rewritten.intros)

lemma rewritten_map: "(\<And>s. s \<in> set ss \<Longrightarrow> K s (f s)) \<Longrightarrow> rewritten K D ss (map f ss)"
  using rewritten_filter[of ss "\<lambda>s. True" K f D] by simp

locale simulation =
  fixes vm :: "('v, 'w) vm"
    and K :: "aleo_stmt \<Rightarrow> aleo_stmt \<Rightarrow> bool"
    and D :: "aleo_stmt \<Rightarrow> bool"
    and I :: "aleo_stmt list \<Rightarrow> 'v env \<Rightarrow> 'v env \<Rightarrow> bool"
  assumes I_tail: "I (s # ss) E E' \<Longrightarrow> I ss E E'"
    and keep_effect: "K s t \<Longrightarrow> I (s # ss) E E' \<Longrightarrow> exec vm E w s \<noteq> Stuck \<Longrightarrow>
           effect_rel (I ss) (exec vm E w s) (exec vm E' w t)"
    and keep_control: "K s t \<Longrightarrow> control t = control s"
    and drop_effect: "D s \<Longrightarrow> I (s # ss) E E' \<Longrightarrow> exec vm E w s \<noteq> Stuck \<Longrightarrow>
           \<exists>E1. exec vm E w s = Next E1 w \<and> I ss E1 E'"
    and drop_control: "D s \<Longrightarrow> control s = Plain"
begin

lemma I_suffix: "suffix rest ss \<Longrightarrow> I ss E E' \<Longrightarrow> I rest E E'"
  by (induction ss) (auto simp: suffix_Cons dest: I_tail)

lemma jump_rewritten:
  "rewritten K D ss ts \<Longrightarrow> jump l ss = Some rest \<Longrightarrow> \<exists>rest'. jump l ts = Some rest' \<and> rewritten K D rest rest'"
  by (induction rule: rewritten.induct) (auto simp: keep_control drop_control split: if_splits)

theorem run_rewritten:
  "rewritten K D ss ts \<Longrightarrow> I ss E E' \<Longrightarrow> run vm E w ss \<noteq> Wrong \<Longrightarrow> run vm E' w ts = run vm E w ss"
proof (induction ss arbitrary: ts E E' w rule: length_induct)
  case (1 ss)
  show ?case
  proof (cases ss)
    case Nil
    with "1.prems" show ?thesis by auto
  next
    case (Cons s rest)
    with "1.prems" have ok: "exec vm E w s \<noteq> Stuck" by auto
    have IH: "run vm E2 w2 ts2 = run vm E1 w2 ss2"
      if "rewritten K D ss2 ts2" "I ss2 E1 E2" "run vm E1 w2 ss2 \<noteq> Wrong" "length ss2 \<le> length rest"
      for ss2 ts2 E1 E2 w2
      using "1.IH" that Cons by simp
    from "1.prems"(1) Cons show ?thesis
    proof (cases rule: rewritten_ConsE[of K D s rest ts, case_names empty keep drop])
      case (keep t us)
      have rel: "effect_rel (I rest) (exec vm E w s) (exec vm E' w t)"
        using keep_effect keep(2) "1.prems"(2) Cons ok by blast
      show ?thesis
      proof (cases "exec vm E w s")
        case (Next E1 w1)
        with rel obtain E1' where "exec vm E' w t = Next E1' w1" "I rest E1 E1'"
          by (cases "exec vm E' w t") auto
        with Next keep Cons "1.prems"(3) IH[of rest us E1 E1' w1] show ?thesis by simp
      next
        case (Goto l)
        with rel have t: "exec vm E' w t = Goto l" by (cases "exec vm E' w t") auto
        from Goto Cons "1.prems"(3) obtain r where r: "jump l rest = Some r" "run vm E w r \<noteq> Wrong"
          by (auto split: option.splits)
        with keep(3) obtain r' where r': "jump l us = Some r'" "rewritten K D r r'"
          using jump_rewritten by blast
        have "I r E E'" using "1.prems"(2) Cons r(1) by (meson I_suffix I_tail jump_suffix)
        with IH[of r r' E E' w] r r' jump_length[OF r(1)] keep(1) t Goto Cons show ?thesis by simp
      next
        case Stop
        with rel keep Cons show ?thesis by (cases "exec vm E' w t") auto
      qed (use ok in simp)
    next
      case drop
      then obtain E1 where "exec vm E w s = Next E1 w" "I rest E1 E'"
        using drop_effect "1.prems"(2) Cons ok by blast
      with drop Cons "1.prems"(3) IH[of rest ts E1 E' w] show ?thesis by simp
    qed auto
  qed
qed

end

end
