(* ===== verification/Peephole_Correct.thy ===== *)
theory Peephole_Correct
  imports Peephole Aleo_Machine
begin

text \<open>
  The peephole pass preserves what a program does.  The hypotheses on the virtual machine are
  collected in \<open>vm_laws\<close>: neutral elements of the arithmetic and boolean instructions, the meaning of
  \<^verbatim>\<open>nand\<close> and \<^verbatim>\<open>nor\<close> with a constant, the assert of two equal values, the instructions that cannot fail,
  and checked casts to integer types.  All of them speak only of operands the instruction accepts.

  Each sub-pass that acts on single statements is an instance of \<open>simulation\<close>.
\<close>

section \<open>What the optimizer relies on\<close>

abbreviation hole :: aleo_expr where "hole \<equiv> AE_RawName []"

abbreviation op1 :: "(aleo_expr \<Rightarrow> aleo_reg \<Rightarrow> aleo_stmt) \<Rightarrow> aleo_stmt" where
  "op1 c \<equiv> c hole (R 0)"

abbreviation op2 :: "(aleo_expr \<Rightarrow> aleo_expr \<Rightarrow> aleo_reg \<Rightarrow> aleo_stmt) \<Rightarrow> aleo_stmt" where
  "op2 c \<equiv> c hole hole (R 0)"

text \<open>The literals that denote zero, one and the truth values.\<close>

definition zeros :: "aleo_expr set" where
  "zeros = range (\<lambda>ty. AE_Int ty 0) \<union> {AE_Field ''0'', AE_Group ''0'', AE_Scalar ''0''}"

definition ones :: "aleo_expr set" where
  "ones = range (\<lambda>ty. AE_Int ty 1) \<union> {AE_Field ''1'', AE_Scalar ''1''}"

definition right_unit :: "('v, 'w) vm \<Rightarrow> aleo_expr set \<Rightarrow> aleo_stmt \<Rightarrow> bool" where
  "right_unit vm Z sk \<longleftrightarrow>
     (\<forall>z x w. z \<in> Z \<longrightarrow> vm_step vm sk [x, vm_const vm z] w \<in> {Step [x] w, Ill_Typed})"

definition left_unit :: "('v, 'w) vm \<Rightarrow> aleo_expr set \<Rightarrow> aleo_stmt \<Rightarrow> bool" where
  "left_unit vm Z sk \<longleftrightarrow>
     (\<forall>z x w. z \<in> Z \<longrightarrow> vm_step vm sk [vm_const vm z, x] w \<in> {Step [x] w, Ill_Typed})"

definition unit_laws :: "('v, 'w) vm \<Rightarrow> bool" where
  "unit_laws vm \<longleftrightarrow>
     (\<forall>sk \<in> {op2 AS_Add, op2 AS_AddWrapped}. right_unit vm zeros sk \<and> left_unit vm zeros sk) \<and>
     (\<forall>sk \<in> {op2 AS_Sub, op2 AS_SubWrapped}. right_unit vm zeros sk) \<and>
     (\<forall>sk \<in> {op2 AS_Mul, op2 AS_MulWrapped}. right_unit vm ones sk \<and> left_unit vm ones sk) \<and>
     (\<forall>sk \<in> {op2 AS_Or, op2 AS_Xor}. right_unit vm {AE_Bool False} sk \<and> left_unit vm {AE_Bool False} sk) \<and>
     right_unit vm {AE_Bool True} (op2 AS_And) \<and> left_unit vm {AE_Bool True} (op2 AS_And)"

definition negation_law :: "('v, 'w) vm \<Rightarrow> aleo_expr \<Rightarrow> aleo_stmt \<Rightarrow> bool" where
  "negation_law vm z sk \<longleftrightarrow>
     (\<forall>x w. vm_step vm sk [x, vm_const vm z] w \<in> {vm_step vm (op1 AS_Not) [x] w, Ill_Typed} \<and>
            vm_step vm sk [vm_const vm z, x] w \<in> {vm_step vm (op1 AS_Not) [x] w, Ill_Typed})"

text \<open>Instructions that yield one result and cannot halt.\<close>

definition infallible :: "aleo_stmt set" where
  "infallible =
     {op1 AS_AbsW, op1 AS_Double, op1 AS_Not, op1 AS_Square, AS_Ternary hole hole hole (R 0),
      op2 AS_AddWrapped, op2 AS_SubWrapped, op2 AS_MulWrapped, op2 AS_PowWrapped, op2 AS_ShlWrapped, op2 AS_ShrWrapped,
      op2 AS_And, op2 AS_Or, op2 AS_Xor, op2 AS_Nand, op2 AS_Nor,
      op2 AS_Eq, op2 AS_Neq, op2 AS_Gt, op2 AS_Gte, op2 AS_Lt, op2 AS_Lte}"

fun integer_of_aleo_type :: "aleo_type \<Rightarrow> integer_type option" where
  "integer_of_aleo_type AT_U8 = Some U8"
| "integer_of_aleo_type AT_U16 = Some U16"
| "integer_of_aleo_type AT_U32 = Some U32"
| "integer_of_aleo_type AT_U64 = Some U64"
| "integer_of_aleo_type AT_U128 = Some U128"
| "integer_of_aleo_type AT_I8 = Some I8"
| "integer_of_aleo_type AT_I16 = Some I16"
| "integer_of_aleo_type AT_I32 = Some I32"
| "integer_of_aleo_type AT_I64 = Some I64"
| "integer_of_aleo_type AT_I128 = Some I128"
| "integer_of_aleo_type _ = None"

definition cast_law :: "('v, 'w) vm \<Rightarrow> bool" where
  "cast_law vm \<longleftrightarrow>
     (\<forall>ty n. vm_num vm (vm_int vm ty n) = Some n) \<and>
     (\<forall>t ty x w. integer_of_aleo_type t = Some ty \<longrightarrow>
        vm_step vm (AS_Cast hole (R 0) t) [x] w =
          (case vm_num vm x of
             None \<Rightarrow> Ill_Typed
           | Some n \<Rightarrow> if in_range ty n then Step [vm_int vm ty n] w else Halt))"

definition vm_laws :: "('v, 'w) vm \<Rightarrow> bool" where
  "vm_laws vm \<longleftrightarrow>
     unit_laws vm \<and>
     negation_law vm (AE_Bool True) (op2 AS_Nand) \<and> negation_law vm (AE_Bool False) (op2 AS_Nor) \<and>
     (\<forall>x w. vm_step vm (AS_AssertEq hole hole) [x, x] w \<in> {Step [] w, Ill_Typed}) \<and>
     (\<forall>sk vs w. sk \<in> infallible \<longrightarrow> vm_step vm sk vs w = Ill_Typed \<or> (\<exists>v. vm_step vm sk vs w = Step [v] w)) \<and>
     cast_law vm"

lemma literal_class_iff:
  "is_zero z \<longleftrightarrow> z \<in> zeros" "is_one z \<longleftrightarrow> z \<in> ones" "is_true z \<longleftrightarrow> z = AE_Bool True" "is_false z \<longleftrightarrow> z = AE_Bool False"
  by (cases z; auto simp: zeros_def ones_def)+

lemma pure_infallible: "dest_register_if_pure s \<noteq> None \<Longrightarrow> skeleton s \<in> infallible"
  by (cases s) (simp_all add: infallible_def skeleton_def)

section \<open>The traversals as substitutions\<close>

definition reads :: "aleo_stmt list \<Rightarrow> aleo_reg set" where
  "reads ss = (\<Union>s\<in>set ss. \<Union>e\<in>set (operands s). expr_regs e)"

definition writes :: "aleo_stmt list \<Rightarrow> aleo_reg list" where
  "writes ss = concat (map dest_registers ss)"

lemma reads_simps [simp]:
  "reads [] = {}"
  "reads (s # ss) = (\<Union>e\<in>set (operands s). expr_regs e) \<union> reads ss"
  by (simp_all add: reads_def)

lemma writes_simps [simp]: "writes [] = []" "writes (s # ss) = dest_registers s @ writes ss"
  by (simp_all add: writes_def)

lemma set_collect_from_expr [simp]: "set (collect_from_expr e) = expr_regs e"
  by (induction e rule: expr_regs.induct) auto

lemma set_collect_read_registers: "set (collect_read_registers s) = reads [s]"
  by (simp add: collect_read_registers_conv)

lemma remap_expr_subst: "remap_expr m e = subst_expr (\<lambda>r. AE_Reg (remap_reg m r)) e"
  by (induction e rule: expr_regs.induct) auto

definition alias_of :: "aliases \<Rightarrow> aleo_reg \<Rightarrow> aleo_expr" where
  "alias_of A r = (case A r of None \<Rightarrow> AE_Reg r | Some e \<Rightarrow> e)"

lemma alias_of_simps [simp]: "A r = None \<Longrightarrow> alias_of A r = AE_Reg r" "A r = Some e \<Longrightarrow> alias_of A r = e"
  by (simp_all add: alias_of_def)

lemma control_if_pure: "dest_register_if_pure s \<noteq> None \<Longrightarrow> control s = Plain"
  by (cases s) (simp_all add: control_def)

lemma control_strength_reduce [simp]: "control (strength_reduce s) = control s"
  by (cases s) (simp_all add: control_def strength_reduce_def try_strength_reduce_def unit_operand_def)

section \<open>Deleting an unused result and trivial asserts\<close>

lemma fun_upd_agree:
  "E r = E' r \<Longrightarrow> (E(ds [\<mapsto>] vs)) r = (E'(ds [\<mapsto>] vs)) r"
  by (simp add: map_upds_def map_add_def split: option.split)

lemma exec_pure_unused:
  assumes "vm_laws vm" and pure: "dest_register_if_pure s = Some d" and ok: "exec vm E w s \<noteq> Stuck"
  shows "\<exists>v. exec vm E w s = Next (E(d \<mapsto> v)) w"
proof -
  obtain vs where "exec vm E w s = exec_vals vm E w Plain (skeleton s) [d] vs"
    using exec_values[OF ok] dest_register_if_pure_dest[OF pure] control_if_pure[of s] pure by auto
  moreover have "vm_step vm (skeleton s) vs w = Ill_Typed \<or> (\<exists>v. vm_step vm (skeleton s) vs w = Step [v] w)"
    using assms(1) pure pure_infallible[of s] by (simp add: vm_laws_def)
  ultimately show ?thesis using ok by (auto simp: exec_vals_def)
qed

text \<open>\<open>agrees\<close>: equal on the registers that are still read; unused results may differ.\<close>

definition agrees :: "('v, 'w) vm \<Rightarrow> aleo_reg set \<Rightarrow> aleo_stmt list \<Rightarrow> 'v env \<Rightarrow> 'v env \<Rightarrow> bool" where
  "agrees vm used ss E E' \<longleftrightarrow> vm_laws vm \<and> reads ss \<subseteq> used \<and> (\<forall>r\<in>used. E r = E' r)"

lemma exec_agree:
  assumes "agrees vm used (s # ss) E E'" and "exec vm E w s \<noteq> Stuck"
  shows "effect_rel (agrees vm used ss) (exec vm E w s) (exec vm E' w s)"
proof -
  have "effect_rel (agrees vm used ss) (exec vm E w s) (exec vm E' w (map_stmt (\<lambda>e. subst_expr AE_Reg e) (\<lambda>d. d) s))"
  proof (rule exec_map_stmt)
    fix e v assume e: "e \<in> set (operands s)" "eval vm E e = Some v"
    have "E r = E' r" if "r \<in> expr_regs e" for r
      using assms(1) e(1) that by (auto simp: agrees_def)
    with e(2) show "eval vm E' (subst_expr AE_Reg e) = Some v"
      by (intro eval_subst[where E = E]) auto
  next
    show "agrees vm used ss (E(dest_registers s [\<mapsto>] rs)) (E'(map (\<lambda>d. d) (dest_registers s) [\<mapsto>] rs))" for rs
      using assms(1) by (auto simp: agrees_def intro!: fun_upd_agree)
  qed (rule assms(2))
  moreover have "subst_expr AE_Reg = (\<lambda>e. e)" by (rule ext) simp
  ultimately show ?thesis by simp
qed

interpretation dead: simulation vm "\<lambda>s t. t = s"
    "\<lambda>s. \<exists>d. dest_register_if_pure s = Some d \<and> d \<notin> used" "agrees vm used" for vm used
proof
  fix s ss E E' w
  assume "\<exists>d. dest_register_if_pure s = Some d \<and> d \<notin> used" "agrees vm used (s # ss) E E'" "exec vm E w s \<noteq> Stuck"
  then show "\<exists>E1. exec vm E w s = Next E1 w \<and> agrees vm used ss E1 E'"
    using exec_pure_unused by (fastforce simp: agrees_def)
qed (auto simp: agrees_def exec_agree control_if_pure)

lemma run_agree: "vm_laws vm \<Longrightarrow> (\<And>r. r \<in> reads ss \<Longrightarrow> E r = E' r) \<Longrightarrow> run vm E w ss \<noteq> Wrong \<Longrightarrow> run vm E' w ss = run vm E w ss"
  using dead.run_rewritten[of "reads ss" ss ss vm E E'] rewritten_map[of ss "\<lambda>s t. t = s" "\<lambda>s. s"]
  by (auto simp: agrees_def)

lemma eliminate_dead_registers_run:
  "vm_laws vm \<Longrightarrow> run vm E w ss \<noteq> Wrong \<Longrightarrow> run vm E w (eliminate_dead_registers ss) = run vm E w ss"
proof -
  assume laws: "vm_laws vm" and ok: "run vm E w ss \<noteq> Wrong"
  have used: "(\<Union>s\<in>set ss. set (collect_read_registers s)) = reads ss"
    by (induction ss) (auto simp: set_collect_read_registers)
  let ?P = "\<lambda>s. case dest_register_if_pure s of Some d \<Rightarrow> d \<in> reads ss | None \<Rightarrow> True"
  have "rewritten (\<lambda>s t. t = s) (\<lambda>s. \<exists>d. dest_register_if_pure s = Some d \<and> d \<notin> reads ss) ss (map (\<lambda>s. s) (filter ?P ss))"
    by (rule rewritten_filter) (auto split: option.splits)
  then have "run vm E w (filter ?P ss) = run vm E w ss"
    using dead.run_rewritten[of "reads ss" ss "filter ?P ss" vm E E w] laws ok by (simp add: agrees_def)
  then show ?thesis by (simp add: eliminate_dead_registers_def used)
qed

lemma eval_literal: "is_literal e \<Longrightarrow> eval vm E e = Some (vm_const vm e)"
  by (cases e) auto

lemma exec_trivial_assert:
  assumes "vm_laws vm" and "is_trivial_assert s" and ok: "exec vm E w s \<noteq> Stuck"
  shows "exec vm E w s = Next E w"
proof -
  from assms(2) obtain a where s: "s = AS_AssertEq a a" "is_literal a"
    by (auto simp: is_trivial_assert_def split: aleo_stmt.splits)
  have "vm_step vm (AS_AssertEq hole hole) [x, x] w \<in> {Step [] w, Ill_Typed}" for x
    using assms(1) by (simp add: vm_laws_def)
  from this [of "vm_const vm a"] s ok show ?thesis
    by (auto simp: exec_def exec_vals_def eval_literal control_def skeleton_def)
qed

interpretation trivial: simulation vm "\<lambda>s t. t = s" is_trivial_assert "\<lambda>ss E E'. vm_laws vm \<and> E' = E" for vm
proof
  show "effect_rel (\<lambda>E E'. vm_laws vm \<and> E' = E) (exec vm E w s) (exec vm E' w t)"
    if "t = s" "vm_laws vm \<and> E' = E" "exec vm E w s \<noteq> Stuck" for s t E E' w
    using that by (cases "exec vm E w s") auto
  show "is_trivial_assert s \<Longrightarrow> control s = Plain" for s
    by (auto simp: is_trivial_assert_def control_def split: aleo_stmt.splits)
qed (auto simp: exec_trivial_assert)

lemma eliminate_trivial_asserts_rewritten:
  "rewritten (\<lambda>s t. t = s) is_trivial_assert ss (eliminate_trivial_asserts ss)"
proof -
  have "rewritten (\<lambda>s t. t = s) is_trivial_assert ss (retain_one_trivial b ss)" for b
    by (induction b ss rule: retain_one_trivial.induct) (auto intro: rewritten.intros)
  moreover have "rewritten (\<lambda>s t. t = s) is_trivial_assert ss (map (\<lambda>s. s) (filter (\<lambda>s. \<not> is_trivial_assert s) ss))"
    by (rule rewritten_filter) auto
  ultimately show ?thesis by (simp add: eliminate_trivial_asserts_def)
qed

lemma eliminate_trivial_asserts_run:
  "vm_laws vm \<Longrightarrow> run vm E w ss \<noteq> Wrong \<Longrightarrow> run vm E w (eliminate_trivial_asserts ss) = run vm E w ss"
  by (rule trivial.run_rewritten[OF eliminate_trivial_asserts_rewritten]) auto

section \<open>Merging casts\<close>

lemma accepts_all_in_range:
  assumes "intermediate_accepts_all_final_values t1 t2"
  shows "\<exists>i f. integer_of_aleo_type t1 = Some i \<and> integer_of_aleo_type t2 = Some f \<and>
               (\<forall>n. in_range f n \<longrightarrow> in_range i n)"
  using assms
  by (cases t1; cases t2)
     (simp_all add: intermediate_accepts_all_final_values_def primitive_cast_domain_def int_range_defs)

lemma fold_cast_Some:
  "fold_cast cnt s1 s2 = Some t \<Longrightarrow>
     \<exists>src r0 t1 d t2. s1 = AS_Cast src r0 t1 \<and> s2 = AS_Cast (AE_Reg r0) d t2 \<and> t = AS_Cast src d t2 \<and>
       cnt r0 = 1 \<and> intermediate_accepts_all_final_values t1 t2"
  by (auto simp: fold_cast_def split: aleo_stmt.splits aleo_expr.splits if_splits)

lemma exec_cast:
  assumes "vm_laws vm" and "integer_of_aleo_type t = Some ty"
  shows "exec vm E w (AS_Cast e d t) =
     (case eval vm E e of
        None \<Rightarrow> Stuck
      | Some x \<Rightarrow>
          (case vm_num vm x of
             None \<Rightarrow> Stuck
           | Some n \<Rightarrow> if in_range ty n then Next (E(d \<mapsto> vm_int vm ty n)) w else Stop))"
proof -
  have "vm_step vm (AS_Cast hole (R 0) t) [x] w =
          (case vm_num vm x of
             None \<Rightarrow> Ill_Typed
           | Some n \<Rightarrow> if in_range ty n then Step [vm_int vm ty n] w else Halt)" for x
    using assms by (simp add: vm_laws_def cast_law_def)
  then show ?thesis
    by (simp add: exec_def exec_vals_def control_def skeleton_def split: option.split)
qed

lemma reg_use_count_simps [simp]:
  "reg_use_count [] r = 0"
  "reg_use_count (s # ss) r = (if r \<in> reads [s] then 1 else 0) + reg_use_count ss r"
  by (simp_all add: reg_use_count_def set_collect_read_registers)

lemma reg_use_count_zero: "reg_use_count ss r = 0 \<longleftrightarrow> r \<notin> reads ss"
  by (induction ss) auto

lemma reg_use_count_suffix: "suffix rest ss \<Longrightarrow> reg_use_count rest r \<le> reg_use_count ss r"
  by (induction ss) (auto simp: suffix_Cons)

lemma run_fold_cast:
  assumes laws: "vm_laws vm" and cast: "fold_cast cnt s1 s2 = Some t"
    and uses: "\<And>r. reg_use_count (s1 # s2 # ss) r \<le> cnt r"
    and ok: "run vm E w (s1 # s2 # ss) \<noteq> Wrong"
  shows "run vm E w (t # ss) = run vm E w (s1 # s2 # ss)"
proof -
  obtain src r0 t1 d t2 where s: "s1 = AS_Cast src r0 t1" "s2 = AS_Cast (AE_Reg r0) d t2" "t = AS_Cast src d t2"
    and cnt: "cnt r0 = 1" and acc: "intermediate_accepts_all_final_values t1 t2"
    using fold_cast_Some[OF cast] by blast
  obtain i f where ty: "integer_of_aleo_type t1 = Some i" "integer_of_aleo_type t2 = Some f"
    and range: "\<And>n. in_range f n \<Longrightarrow> in_range i n"
    using accepts_all_in_range[OF acc] by blast
  have unread: "r0 \<notin> reads ss"
    using uses[of r0] cnt s(2) by (simp add: reg_use_count_zero split: if_splits)
  obtain x n where x: "eval vm E src = Some x" "vm_num vm x = Some n"
    using ok s ty exec_cast[OF laws ty(1), of E w src r0] by (auto split: option.splits)
  have num: "vm_num vm (vm_int vm i n) = Some n" using laws by (simp add: vm_laws_def cast_law_def)
  show ?thesis
  proof (cases "in_range f n")
    case True
    let ?E2 = "E(r0 \<mapsto> vm_int vm i n, d \<mapsto> vm_int vm f n)" and ?E1 = "E(d \<mapsto> vm_int vm f n)"
    have orig: "run vm E w (s1 # s2 # ss) = run vm ?E2 w ss"
      using True range[OF True] s x num by (simp add: exec_cast[OF laws ty(1)] exec_cast[OF laws ty(2)])
    have "run vm ?E1 w ss = run vm ?E2 w ss"
      by (rule run_agree) (use laws ok orig unread in auto)
    with True s x orig show ?thesis by (simp add: exec_cast[OF laws ty(2)])
  next
    case False
    with s x num show ?thesis
      by (cases "in_range i n") (simp_all add: exec_cast[OF laws ty(1)] exec_cast[OF laws ty(2)])
  qed
qed

lemma control_fold_cast:
  "fold_cast cnt s1 s2 = Some t \<Longrightarrow> control s1 = Plain \<and> control s2 = Plain \<and> control t = Plain"
  by (drule fold_cast_Some) (auto simp: control_def)

lemma jump_fold_casts: "jump l (fold_casts_loop cnt ss) = map_option (fold_casts_loop cnt) (jump l ss)"
  by (induction cnt ss rule: fold_casts_loop.induct)
     (auto dest: control_fold_cast split: option.split)

lemma run_Cons_cong:
  assumes "\<And>E1 w1 rest. suffix rest ss \<Longrightarrow> run vm E1 w1 rest \<noteq> Wrong \<Longrightarrow> run vm E1 w1 (g rest) = run vm E1 w1 rest"
    and "\<And>l. jump l (g ss) = map_option g (jump l ss)" and "run vm E w (s # ss) \<noteq> Wrong"
  shows "run vm E w (s # g ss) = run vm E w (s # ss)"
  using assms by (auto split: effect.splits option.splits dest: jump_suffix)

lemma run_fold_casts_loop:
  assumes "vm_laws vm" and "\<And>r. reg_use_count ss r \<le> cnt r" and "run vm E w ss \<noteq> Wrong"
  shows "run vm E w (fold_casts_loop cnt ss) = run vm E w ss"
  using assms
proof (induction ss arbitrary: E w rule: length_induct)
  case (1 ss)
  show ?case
  proof (cases ss)
    case (Cons s1 ss1)
    show ?thesis
    proof (cases ss1)
      case (Cons s2 rest)
      note ss = \<open>ss = s1 # ss1\<close> Cons
      show ?thesis
      proof (cases "fold_cast cnt s1 s2")
        case None
        have uses: "reg_use_count r' r \<le> cnt r" if "suffix r' ss1" for r r'
          using reg_use_count_suffix[OF that, of r] "1.prems"(2)[of r] ss(1) by (simp split: if_splits)
        have IH: "run vm E1 w1 (fold_casts_loop cnt r') = run vm E1 w1 r'"
          if "run vm E1 w1 r' \<noteq> Wrong" "suffix r' ss1" for E1 w1 r'
          using "1.IH" "1.prems"(1) uses that suffix_length_le[OF that(2)] ss(1) by simp
        have "run vm E w (s1 # fold_casts_loop cnt ss1) = run vm E w (s1 # ss1)"
          by (rule run_Cons_cong) (use IH jump_fold_casts "1.prems"(3) ss(1) in auto)
        with None ss show ?thesis by simp
      next
        case (Some t)
        have run: "run vm E w (t # rest) = run vm E w ss"
          using run_fold_cast[OF "1.prems"(1) Some] "1.prems" ss by simp
        have "reads [t] \<subseteq> reads [s1]" using fold_cast_Some[OF Some] by auto
        then have "reg_use_count (t # rest) r \<le> cnt r" for r
          using "1.prems"(2)[of r] ss by (auto split: if_splits)
        with "1.IH" run "1.prems" ss Some show ?thesis by simp
      qed
    qed (use Cons in simp)
  qed simp
qed

lemma fold_consecutive_casts_run:
  "vm_laws vm \<Longrightarrow> run vm E w ss \<noteq> Wrong \<Longrightarrow> run vm E w (fold_consecutive_casts ss) = run vm E w ss"
  by (simp add: fold_consecutive_casts_def run_fold_casts_loop)

section \<open>Strength reduction\<close>

lemma unit_operand_cases:
  assumes "unit_operand P a b = Some e" and lit: "\<And>z. P z \<Longrightarrow> is_literal z"
    and "map (eval vm E) [a, b] = map Some vs"
  obtains z x where "P z" "eval vm E e = Some x" "vs = [x, vm_const vm z]"
  | z x where "P z" "eval vm E e = Some x" "vs = [vm_const vm z, x]"
  using assms eval_literal[OF lit, of _ vm E] by (auto simp: unit_operand_def split: if_splits)

lemma literal_classes: "is_zero z \<Longrightarrow> is_literal z" "is_one z \<Longrightarrow> is_literal z" "is_true z \<Longrightarrow> is_literal z" "is_false z \<Longrightarrow> is_literal z"
  by (cases z; simp)+

lemma exec_negation:
  assumes neg: "negation_law vm (AE_Bool v) (op2 c)" and P: "\<And>z. P z \<longleftrightarrow> z = AE_Bool v"
    and c: "operands (c a b d) = [a, b]" "skeleton (c a b d) = op2 c" "control (c a b d) = Plain" "dest_registers (c a b d) = [d]"
    and e: "unit_operand P a b = Some e" and ok: "exec vm E w (c a b d) \<noteq> Stuck"
  shows "exec vm E w (AS_Not e d) = exec vm E w (c a b d)"
proof -
  obtain vs where vs: "map (eval vm E) [a, b] = map Some vs"
    "exec vm E w (c a b d) = exec_vals vm E w Plain (op2 c) [d] vs"
    using exec_values[OF ok] c by metis
  have lit: "\<And>z. P z \<Longrightarrow> is_literal z" by (simp add: P)
  from e lit vs(1) have "\<exists>x. eval vm E e = Some x \<and> vm_step vm (op2 c) vs w \<in> {vm_step vm (op1 AS_Not) [x] w, Ill_Typed}"
    by (rule unit_operand_cases) (use neg P in \<open>auto simp: negation_law_def\<close>)
  with ok vs(2) show ?thesis
    by (auto simp: exec_def exec_vals_def control_def skeleton_def)
qed

lemma exec_strength_reduce:
  assumes "vm_laws vm" and ok: "exec vm E w s \<noteq> Stuck"
  shows "exec vm E w (strength_reduce s) = exec vm E w s"
proof (cases "try_strength_reduce s")
  case (Some t)
  then consider a b d e where "s = AS_Nand a b d" "unit_operand is_true a b = Some e" "t = AS_Not e d"
    | a b d e where "s = AS_Nor a b d" "unit_operand is_false a b = Some e" "t = AS_Not e d"
    by (auto simp: try_strength_reduce_def split: aleo_stmt.splits)
  then have "exec vm E w t = exec vm E w s"
  proof cases
    case 1
    with assms show ?thesis
      using exec_negation[of vm True AS_Nand is_true a b d e] by (simp add: vm_laws_def literal_class_iff skeleton_def control_def)
  next
    case 2
    with assms show ?thesis
      using exec_negation[of vm False AS_Nor is_false a b d e] by (simp add: vm_laws_def literal_class_iff skeleton_def control_def)
  qed
  with Some show ?thesis by (simp add: strength_reduce_def)
qed (simp add: strength_reduce_def)

interpretation reduce: simulation vm "\<lambda>s t. t = strength_reduce s" "\<lambda>s. False" "\<lambda>ss E E'. vm_laws vm \<and> E' = E" for vm
proof
  show "effect_rel (\<lambda>E E'. vm_laws vm \<and> E' = E) (exec vm E w s) (exec vm E' w t)"
    if "t = strength_reduce s" "vm_laws vm \<and> E' = E" "exec vm E w s \<noteq> Stuck" for s t E E' w
    using that by (cases "exec vm E w s") (auto simp: exec_strength_reduce)
qed auto

lemma strength_reduce_run:
  "vm_laws vm \<Longrightarrow> run vm E w ss \<noteq> Wrong \<Longrightarrow> run vm E w (map strength_reduce ss) = run vm E w ss"
  by (rule reduce.run_rewritten[OF rewritten_map]) auto

section \<open>Aliases\<close>

text \<open>
  \<open>ssa D ss\<close>: with the registers \<open>D\<close> written before, every statement reads only registers written
  earlier, and writes registers not written before.
\<close>

fun ssa :: "aleo_reg set \<Rightarrow> aleo_stmt list \<Rightarrow> bool" where
  "ssa D [] = True"
| "ssa D (s # ss) =
     (reads [s] \<subseteq> D \<and> distinct (dest_registers s) \<and> set (dest_registers s) \<inter> D = {} \<and>
      ssa (D \<union> set (dest_registers s)) ss)"

lemma ssa_writes: "ssa D ss \<Longrightarrow> distinct (writes ss) \<and> set (writes ss) \<inter> D = {}"
  by (induction D ss rule: ssa.induct) auto

lemma resolve_alias_normal:
  assumes "\<And>r e. A r = Some e \<Longrightarrow> expr_regs e \<inter> dom A = {}" and "n = 0 \<Longrightarrow> dom A = {}"
  shows "resolve_alias n A e = Some (subst_expr (alias_of A) e)"
proof -
  have fixed: "resolve_alias m A e = Some e" if "expr_regs e \<inter> dom A = {}" for m e
    using that
  proof (induction e rule: expr_regs.induct)
    case (2 es)
    then have "map (resolve_alias m A) es = map Some es" by (intro map_cong) auto
    then show ?case by (simp add: collect_opt_Some_iff)
  qed (auto simp: Int_Un_distrib2 split: option.splits)
  show ?thesis
  proof (induction e rule: expr_regs.induct)
    case (1 r)
    show ?case
    proof (cases "A r")
      case (Some e)
      with assms(2) have "n \<noteq> 0" by auto
      with Some fixed[OF assms(1)] show ?thesis by (cases n) auto
    qed auto
  next
    case (2 es)
    then have "map (resolve_alias n A) es = map Some (map (subst_expr (alias_of A)) es)" by simp
    then have "collect_opt (map (resolve_alias n A) es) = Some (map (subst_expr (alias_of A)) es)"
      by (simp only: collect_opt_Some_iff)
    then show ?case by simp
  qed auto
qed

lemma try_identity_cases:
  assumes "try_identity s = Some (d, e)"
  obtains c P a b where "s = c a b d" "(c, P) \<in> {(AS_Add, is_zero), (AS_AddWrapped, is_zero), (AS_Mul, is_one),
      (AS_MulWrapped, is_one), (AS_Or, is_false), (AS_And, is_true), (AS_Xor, is_false)}" "unit_operand P a b = Some e"
  | c b where "s = c e b d" "c \<in> {AS_Sub, AS_SubWrapped}" "is_zero b"
  using assms by (cases s) (auto simp: try_identity_def split: if_splits)

lemma try_identity_shape:
  assumes "try_identity s = Some (d, e)"
  shows "dest_registers s = [d]" "control s = Plain" "e \<in> set (operands s)"
  using assms
  by (auto simp: try_identity_def unit_operand_def control_def split: aleo_stmt.splits if_splits)

lemma exec_identity:
  assumes laws: "vm_laws vm" and id: "try_identity s = Some (d, e)" and ok: "exec vm E w s \<noteq> Stuck"
  shows "\<exists>x. eval vm E e = Some x \<and> exec vm E w s = Next (E(d \<mapsto> x)) w"
proof -
  note shape = try_identity_shape[OF id]
  obtain vs where vs: "map (eval vm E) (operands s) = map Some vs"
    "exec vm E w s = exec_vals vm E w Plain (skeleton s) [d] vs"
    using exec_values[OF ok] shape by metis
  have units: "unit_laws vm" using laws by (simp add: vm_laws_def)
  from id have "\<exists>x. eval vm E e = Some x \<and> vm_step vm (skeleton s) vs w \<in> {Step [x] w, Ill_Typed}"
  proof (cases rule: try_identity_cases)
    case (1 c P a b)
    have "operands s = [a, b]" and P: "\<And>z. P z \<Longrightarrow> is_literal z"
      using 1(1,2) literal_classes by auto
    with vs(1) have "map (eval vm E) [a, b] = map Some vs" by simp
    moreover have "right_unit vm {z. P z} (skeleton s)" "left_unit vm {z. P z} (skeleton s)"
      using 1(1,2) units by (auto simp: unit_laws_def skeleton_def literal_class_iff)
    ultimately show ?thesis
      using 1(3) P by (elim unit_operand_cases) (auto simp: right_unit_def left_unit_def)
  next
    case (2 c b)
    have "right_unit vm zeros (skeleton s)" "b \<in> zeros"
      using 2 units by (auto simp: unit_laws_def skeleton_def literal_class_iff)
    moreover have "operands s = [e, b]" "eval vm E b = Some (vm_const vm b)"
      using 2 eval_literal literal_classes(1) by auto
    ultimately show ?thesis using vs(1) by (auto simp: right_unit_def)
  qed
  with ok vs(2) show ?thesis by (auto simp: exec_vals_def)
qed

text \<open>\<open>good_aliases A ss\<close>: \<open>A\<close> resolves every identity operation of \<open>ss\<close>, and aliases nothing else that \<open>ss\<close> writes.\<close>

definition good_aliases :: "aliases \<Rightarrow> aleo_stmt list \<Rightarrow> bool" where
  "good_aliases A ss \<longleftrightarrow>
     (\<forall>s\<in>set ss. case try_identity s of
        Some (d, e) \<Rightarrow> A d = Some (subst_expr (alias_of A) e)
      | None \<Rightarrow> set (dest_registers s) \<inter> dom A = {})"

definition aliased :: "('v, 'w) vm \<Rightarrow> aliases \<Rightarrow> aleo_stmt list \<Rightarrow> 'v env \<Rightarrow> 'v env \<Rightarrow> bool" where
  "aliased vm A ss E E' \<longleftrightarrow>
     vm_laws vm \<and> good_aliases A ss \<and> distinct (writes ss) \<and> set (writes ss) \<inter> dom E = {} \<and>
     dom E' \<subseteq> dom E \<and> (\<forall>r x. E r = Some x \<longrightarrow> eval vm E' (alias_of A r) = Some x)"

lemma eval_mono: "eval vm E e = Some x \<Longrightarrow> E \<subseteq>\<^sub>m E' \<Longrightarrow> eval vm E' e = Some x"
  using eval_subst[of e E vm E' AE_Reg x] by (auto simp: map_le_def dom_def)

lemma map_le_upds: "set ds \<inter> dom E = {} \<Longrightarrow> E \<subseteq>\<^sub>m E(ds [\<mapsto>] vs)"
  by (force simp: map_le_def map_upds_def map_add_def dest!: map_of_SomeD set_zip_leftD split: option.split)

lemma map_upds_SomeD:
  "(E(ds [\<mapsto>] vs)) r = Some x \<Longrightarrow> r \<notin> set ds \<Longrightarrow> E r = Some x"
  by (simp add: map_upds_apply_nontin)

lemma map_upds_in_eq:
  "r \<in> set ds \<Longrightarrow> length vs = length ds \<Longrightarrow> (E(ds [\<mapsto>] vs)) r = (E'(ds [\<mapsto>] vs)) r"
proof -
  assume "r \<in> set ds" "length vs = length ds"
  then have "r \<in> fst ` set (rev (zip ds vs))" by (metis map_fst_zip list.set_map set_rev)
  then have "map_of (rev (zip ds vs)) r \<noteq> None" by (simp add: map_of_eq_None_iff)
  then show ?thesis by (auto simp: map_upds_def map_add_def)
qed

lemma exec_aliased:
  assumes al: "aliased vm A (s # ss) E E'" and s: "try_identity s = None" and ok: "exec vm E w s \<noteq> Stuck"
  shows "effect_rel (aliased vm A ss) (exec vm E w s) (exec vm E' w (map_stmt (subst_expr (alias_of A)) (\<lambda>d. d) s))"
proof (rule exec_map_stmt)
  show "eval vm E' (subst_expr (alias_of A) e) = Some v" if "eval vm E e = Some v" for e v
    using that al by (intro eval_subst[where E = E]) (auto simp: aliased_def)
  show "aliased vm A ss (E(dest_registers s [\<mapsto>] rs)) (E'(map (\<lambda>d. d) (dest_registers s) [\<mapsto>] rs))"
    if len: "length rs = length (dest_registers s)" for rs
  proof -
    let ?ds = "dest_registers s"
    have fresh: "set ?ds \<inter> dom E = {}" and noalias: "set ?ds \<inter> dom A = {}"
      using al s by (auto simp: aliased_def good_aliases_def)
    moreover have "dom E' \<subseteq> dom E" using al by (simp add: aliased_def)
    ultimately have fresh': "set ?ds \<inter> dom E' = {}" by blast
    have "eval vm (E'(?ds [\<mapsto>] rs)) (alias_of A r) = Some x" if r: "(E(?ds [\<mapsto>] rs)) r = Some x" for r x
    proof (cases "r \<in> set ?ds")
      case True
      with noalias have "alias_of A r = AE_Reg r" by (auto simp: alias_of_def split: option.split)
      moreover have "(E'(?ds [\<mapsto>] rs)) r = (E(?ds [\<mapsto>] rs)) r"
        using True len by (simp add: map_upds_in_eq)
      ultimately show ?thesis using r by simp
    next
      case False
      with r have "E r = Some x" by (rule map_upds_SomeD)
      with al have "eval vm E' (alias_of A r) = Some x" by (simp add: aliased_def)
      then show ?thesis by (rule eval_mono) (rule map_le_upds[OF fresh'])
    qed
    with al len show ?thesis by (auto simp: aliased_def good_aliases_def)
  qed
qed (rule ok)

interpretation fold_id: simulation vm
    "\<lambda>s t. try_identity s = None \<and> t = map_stmt (subst_expr (alias_of A)) (\<lambda>d. d) s"
    "\<lambda>s. try_identity s \<noteq> None" "aliased vm A" for vm A
proof
  fix s ss E E' w
  assume id: "try_identity s \<noteq> None" and al: "aliased vm A (s # ss) E E'" and ok: "exec vm E w s \<noteq> Stuck"
  obtain d e where de: "try_identity s = Some (d, e)" using id by auto
  obtain x where x: "eval vm E e = Some x" "exec vm E w s = Next (E(d \<mapsto> x)) w"
    using exec_identity[OF _ de ok] al by (auto simp: aliased_def)
  have "alias_of A d = subst_expr (alias_of A) e"
    using al de by (auto simp: aliased_def good_aliases_def alias_of_def)
  moreover have "eval vm E' (subst_expr (alias_of A) e) = Some x"
    using x(1) al by (intro eval_subst[where E = E]) (auto simp: aliased_def)
  ultimately have "aliased vm A ss (E(d \<mapsto> x)) E'"
    using al try_identity_shape(1)[OF de] by (auto simp: aliased_def good_aliases_def)
  with x(2) show "\<exists>E1. exec vm E w s = Next E1 w \<and> aliased vm A ss E1 E'" by blast
qed (auto simp: exec_aliased try_identity_shape(2) aliased_def good_aliases_def)

lemma collect_aliases_ssa:
  assumes "ssa D ss" and "dom B \<subseteq> D" and "\<And>r e. B r = Some e \<Longrightarrow> expr_regs e \<subseteq> D - dom B" and "n \<noteq> 0"
  shows "\<exists>A. collect_aliases n B ss = Some A \<and> (\<forall>r\<in>D. A r = B r) \<and> good_aliases A ss \<and>
             (\<forall>r e. A r = Some e \<longrightarrow> expr_regs e \<inter> dom A = {}) \<and> dom A \<subseteq> D \<union> set (writes ss)"
  using assms
proof (induction ss arbitrary: D B)
  case Nil
  then show ?case by (fastforce simp: good_aliases_def)
next
  case (Cons s ss)
  let ?D = "D \<union> set (dest_registers s)"
  have s: "ssa ?D ss" "reads [s] \<subseteq> D" "set (dest_registers s) \<inter> D = {}" using Cons.prems(1) by auto
  show ?case
  proof (cases "try_identity s")
    case None
    have "\<exists>A. collect_aliases n B ss = Some A \<and> (\<forall>r\<in>?D. A r = B r) \<and> good_aliases A ss \<and>
             (\<forall>r e. A r = Some e \<longrightarrow> expr_regs e \<inter> dom A = {}) \<and> dom A \<subseteq> ?D \<union> set (writes ss)"
      by (rule Cons.IH) (use s(1) Cons.prems(2-4) in blast)+
    then obtain A where A: "collect_aliases n B ss = Some A" "\<forall>r\<in>?D. A r = B r" "good_aliases A ss"
      "\<forall>r e. A r = Some e \<longrightarrow> expr_regs e \<inter> dom A = {}" "dom A \<subseteq> ?D \<union> set (writes ss)" by blast
    have "B d = None" if "d \<in> set (dest_registers s)" for d using that s(3) Cons.prems(2) by blast
    with A(2) have "set (dest_registers s) \<inter> dom A = {}" by auto
    with A None show ?thesis by (auto simp: good_aliases_def)
  next
    case (Some de)
    then obtain d e where de: "try_identity s = Some (d, e)" by (cases de) auto
    note shape = try_identity_shape[OF de]
    have e: "expr_regs e \<subseteq> D" using s(2) shape(3) by auto
    have d: "d \<notin> D" using s(3) shape(1) by auto
    define v where "v = subst_expr (alias_of B) e"
    have res: "resolve_alias n B e = Some v"
      unfolding v_def by (rule resolve_alias_normal) (use Cons.prems(3,4) in auto)
    have v: "expr_regs v \<subseteq> D - dom B"
    proof -
      have "expr_regs (alias_of B r) \<subseteq> D - dom B" if "r \<in> D" for r
        using that Cons.prems(3) by (cases "B r") auto
      with e show ?thesis by (auto simp: v_def expr_regs_subst)
    qed
    have "\<exists>A. collect_aliases n (B(d \<mapsto> v)) ss = Some A \<and> (\<forall>r\<in>?D. A r = (B(d \<mapsto> v)) r) \<and> good_aliases A ss \<and>
             (\<forall>r e. A r = Some e \<longrightarrow> expr_regs e \<inter> dom A = {}) \<and> dom A \<subseteq> ?D \<union> set (writes ss)"
    proof (rule Cons.IH)
      show "expr_regs e' \<subseteq> ?D - dom (B(d \<mapsto> v))" if "(B(d \<mapsto> v)) r = Some e'" for r e'
        using that v d Cons.prems(3)[of r e'] by (auto split: if_splits)
      show "dom (B(d \<mapsto> v)) \<subseteq> ?D" using Cons.prems(2) by (simp add: shape(1) subset_insertI2)
    qed (use s(1) Cons.prems(4) in auto)
    then obtain A where A: "collect_aliases n (B(d \<mapsto> v)) ss = Some A" "\<forall>r\<in>?D. A r = (B(d \<mapsto> v)) r"
      "good_aliases A ss" "\<forall>r e. A r = Some e \<longrightarrow> expr_regs e \<inter> dom A = {}" "dom A \<subseteq> ?D \<union> set (writes ss)" by blast
    have same: "A r = B r" if "r \<in> D" for r using A(2) that d by auto
    have "subst_expr (alias_of A) e = v"
      unfolding v_def by (rule subst_expr_cong) (use e same in \<open>auto simp: alias_of_def\<close>)
    moreover have "A d = Some v" using A(2) shape(1) by auto
    ultimately have "good_aliases A (s # ss)" using A(3) de by (auto simp: good_aliases_def)
    with A same de res show ?thesis by auto
  qed
qed

lemma strength_reduce_shape:
  "dest_registers (strength_reduce s) = dest_registers s" "reads [strength_reduce s] \<subseteq> reads [s]"
  by (cases s; auto simp: strength_reduce_def try_strength_reduce_def unit_operand_def)+

lemma ssa_strength_reduce: "ssa D ss \<Longrightarrow> ssa D (map strength_reduce ss)"
proof (induction D ss rule: ssa.induct)
  case (2 D s ss)
  then show ?case using strength_reduce_shape[of s] by (auto simp del: reads_simps)
qed simp

lemma writes_strength_reduce [simp]: "writes (map strength_reduce ss) = writes ss"
  by (simp add: writes_def o_def strength_reduce_shape)

theorem fold_identity_operations_run:
  assumes "vm_laws vm" and "ssa D ss" and "dom E \<subseteq> D" and ok: "run vm E w ss \<noteq> Wrong"
  shows "\<exists>ts. fold_identity_operations ss = Some ts \<and> run vm E w ts = run vm E w ss"
proof (cases "ss = []")
  case True
  then show ?thesis by (simp add: fold_identity_operations_def)
next
  case False
  let ?red = "map strength_reduce ss" and ?n = "length ss"
  have red: "run vm E w ?red = run vm E w ss" using assms(1) ok by (rule strength_reduce_run)
  obtain A where A: "collect_aliases ?n Map.empty ?red = Some A" "\<forall>r\<in>D. A r = None" "good_aliases A ?red"
    "\<And>r e. A r = Some e \<Longrightarrow> expr_regs e \<inter> dom A = {}"
    using collect_aliases_ssa[OF ssa_strength_reduce[OF assms(2)], of Map.empty ?n] False by auto
  have res: "resolve_alias ?n A e = Some (subst_expr (alias_of A) e)" for e
    by (rule resolve_alias_normal) (use A(4) False in auto)
  have sub: "substitute_aliases_in_stmt ?n A = map_stmt (subst_expr (alias_of A)) (\<lambda>d. d)"
  proof -
    have "sub_alias ?n A = subst_expr (alias_of A)" by (rule ext) (simp add: sub_alias_def res)
    then show ?thesis by (auto simp: substitute_aliases_in_stmt_conv)
  qed
  let ?kept = "filter (\<lambda>s. try_identity s = None) ?red"
  have al: "aliased vm A ?red E E"
  proof -
    have "A r = None" if "E r = Some x" for r x using that A(2) assms(3) by auto
    with A(3) assms(1,3) ssa_writes[OF assms(2)] show ?thesis by (auto simp: aliased_def)
  qed
  have "run vm E w (map (substitute_aliases_in_stmt ?n A) ?kept) = run vm E w ?red"
    by (rule fold_id.run_rewritten[OF rewritten_filter al]) (use ok red sub in auto)
  with A(1) red show ?thesis
    by (auto simp: fold_identity_operations_def Let_def resolvable_def res list_all_iff)
qed

section \<open>Renumbering\<close>

definition inj_map :: "('a \<rightharpoonup> 'b) \<Rightarrow> bool" where
  "inj_map m \<longleftrightarrow> (\<forall>i j v. m i = Some v \<longrightarrow> m j = Some v \<longrightarrow> i = j)"

fun mapped :: "(nat \<rightharpoonup> nat) \<Rightarrow> aleo_reg \<Rightarrow> bool" where
  "mapped m (R n) = (m n \<noteq> None)"
| "mapped m r = True"

lemma number_dests_inv:
  assumes "inj_map m" and "\<And>i v. m i = Some v \<Longrightarrow> v < next" and "number_dests m next ds = (m', next')"
  shows "inj_map m' \<and> m \<subseteq>\<^sub>m m' \<and> (\<forall>d\<in>set ds. mapped m' d) \<and> (\<forall>i v. m i = None \<longrightarrow> m' i = Some v \<longrightarrow> next \<le> v)"
  using assms
proof (induction ds arbitrary: m "next")
  case (Cons d ds)
  show ?case
  proof (cases "\<exists>n. d = R n \<and> m n = None")
    case True
    then obtain n where n: "d = R n" "m n = None" by blast
    have "m i \<noteq> Some next" for i using Cons.prems(2)[of i "next"] by blast
    then have "inj_map (m(n \<mapsto> next))" using Cons.prems(1) by (auto simp: inj_map_def)
    moreover have "v < Suc next" if "(m(n \<mapsto> next)) i = Some v" for i v
      using that Cons.prems(2)[of i v] by (auto split: if_splits)
    moreover have "number_dests (m(n \<mapsto> next)) (Suc next) ds = (m', next')" using Cons.prems(3) n by simp
    ultimately have IH: "inj_map m' \<and> m(n \<mapsto> next) \<subseteq>\<^sub>m m' \<and> (\<forall>d\<in>set ds. mapped m' d) \<and>
        (\<forall>i v. (m(n \<mapsto> next)) i = None \<longrightarrow> m' i = Some v \<longrightarrow> Suc next \<le> v)"
      by (rule Cons.IH)
    then have m'n: "m' n = Some next" by (auto simp: map_le_def)
    moreover have "m \<subseteq>\<^sub>m m(n \<mapsto> next)" using n(2) by (auto simp: map_le_def)
    with IH have "m \<subseteq>\<^sub>m m'" by (blast intro: map_le_trans)
    moreover have "next \<le> v" if "m i = None" "m' i = Some v" for i v
    proof (cases "i = n")
      case False
      with that(1) have "(m(n \<mapsto> next)) i = None" by simp
      with IH that(2) have "Suc next \<le> v" by blast
      then show ?thesis by simp
    qed (use m'n that in simp)
    ultimately show ?thesis using IH n by simp
  next
    case False
    then have rest: "number_dests m next ds = (m', next')" and d: "mapped m d"
      using Cons.prems(3) by (cases d; auto split: if_splits)+
    have "mapped m' d" if "m \<subseteq>\<^sub>m m'"
      using that d by (cases d) (auto simp: map_le_def dom_def)
    with Cons.IH[OF Cons.prems(1,2) rest] show ?thesis by simp
  qed
qed auto

lemma register_mapping_inv:
  "inj_map (register_mapping ss n)" "\<And>i. i < n \<Longrightarrow> register_mapping ss n i = Some i"
  "\<And>d. d \<in> set (writes ss) \<Longrightarrow> mapped (register_mapping ss n) d"
  "\<And>i v. n \<le> i \<Longrightarrow> register_mapping ss n i = Some v \<Longrightarrow> n \<le> v"
proof -
  let ?m = "\<lambda>i. if i < n then Some i else None"
  obtain m' next' where nd: "number_dests ?m n (writes ss) = (m', next')" by fastforce
  then have eq: "register_mapping ss n = m'" by (simp add: register_mapping_def writes_def)
  have inv: "inj_map m' \<and> ?m \<subseteq>\<^sub>m m' \<and> (\<forall>d\<in>set (writes ss). mapped m' d) \<and>
      (\<forall>i v. ?m i = None \<longrightarrow> m' i = Some v \<longrightarrow> n \<le> v)"
    by (rule number_dests_inv[OF _ _ nd]) (auto simp: inj_map_def split: if_splits)
  then show "inj_map (register_mapping ss n)"
    and "\<And>d. d \<in> set (writes ss) \<Longrightarrow> mapped (register_mapping ss n) d"
    by (simp_all add: eq)
  show "n \<le> v" if "n \<le> i" "register_mapping ss n i = Some v" for i v
    using inv that unfolding eq by (meson leD)
  show "register_mapping ss n i = Some i" if "i < n" for i
    using inv that unfolding eq map_le_def by (metis (mono_tags, lifting) domI)
qed

lemma remap_reg_inj:
  "inj_map m \<Longrightarrow> mapped m r \<Longrightarrow> mapped m r' \<Longrightarrow> remap_reg m r = remap_reg m r' \<longleftrightarrow> r = r'"
  by (cases r; cases r') (auto simp: inj_map_def)

definition renamed :: "(nat \<rightharpoonup> nat) \<Rightarrow> aleo_stmt list \<Rightarrow> 'v env \<Rightarrow> 'v env \<Rightarrow> bool" where
  "renamed m ss E E' \<longleftrightarrow>
     inj_map m \<and> (\<forall>r\<in>dom E. mapped m r) \<and> (\<forall>r\<in>set (writes ss). mapped m r) \<and>
     (\<forall>r. mapped m r \<longrightarrow> E' (remap_reg m r) = E r)"

lemma renamed_upds:
  assumes "inj_map m" and "\<And>d. d \<in> set ds \<Longrightarrow> mapped m d" and "\<And>r. mapped m r \<Longrightarrow> E' (remap_reg m r) = E r"
    and "mapped m r"
  shows "(E'(map (remap_reg m) ds [\<mapsto>] rs)) (remap_reg m r) = (E(ds [\<mapsto>] rs)) r"
  using assms(2,3)
proof (induction ds arbitrary: rs E E')
  case (Cons d ds)
  have "(E'(remap_reg m d \<mapsto> x)) (remap_reg m r') = (E(d \<mapsto> x)) r'" if "mapped m r'" for r' x
    using that Cons.prems remap_reg_inj[OF assms(1), of r' d] by simp
  then have "(E'(remap_reg m d \<mapsto> x, map (remap_reg m) ds [\<mapsto>] xs)) (remap_reg m r) = (E(d \<mapsto> x, ds [\<mapsto>] xs)) r" for x xs
    using Cons.IH[of "E'(remap_reg m d \<mapsto> x)" "E(d \<mapsto> x)"] Cons.prems(1) by (simp del: fun_upd_apply)
  then show ?case using Cons.prems(2)[OF assms(4)] by (cases rs) (simp_all del: fun_upd_apply)
qed (simp add: assms(4))

interpretation renumber: simulation vm "\<lambda>s t. t = remap_stmt m s" "\<lambda>s. False" "renamed m" for vm m
proof
  fix s t ss E E' w
  assume t: "t = remap_stmt m s" and ren: "renamed m (s # ss) E E'" and ok: "exec vm E w s \<noteq> Stuck"
  have "effect_rel (renamed m ss) (exec vm E w s) (exec vm E' w (map_stmt (remap_expr m) (remap_reg m) s))"
  proof (rule exec_map_stmt)
    fix e v assume "eval vm E e = Some v"
    moreover from this have "expr_regs e \<subseteq> dom E" by (rule eval_regs)
    moreover have "E' (remap_reg m r) = Some x" if "E r = Some x" for r x
      using ren that domI[of E r x] by (simp add: renamed_def)
    ultimately show "eval vm E' (remap_expr m e) = Some v"
      unfolding remap_expr_subst by (intro eval_subst[where E = E]) auto
  next
    fix rs :: "'a list" assume len: "length rs = length (dest_registers s)"
    have "dom (E(dest_registers s [\<mapsto>] rs)) \<subseteq> dom E \<union> set (dest_registers s)" by (simp add: len)
    with ren show "renamed m ss (E(dest_registers s [\<mapsto>] rs)) (E'(map (remap_reg m) (dest_registers s) [\<mapsto>] rs))"
      by (auto simp: renamed_def intro!: renamed_upds)
  qed (rule ok)
  with t show "effect_rel (renamed m ss) (exec vm E w s) (exec vm E' w t)" by (simp add: remap_stmt_conv)
qed (auto simp: renamed_def remap_stmt_conv)

definition input_registers :: "nat \<Rightarrow> aleo_reg set" where
  "input_registers n = {Self_Reg, Block_Reg, Network_Reg} \<union> R ` {..<n}"

theorem renumber_registers_run:
  assumes dom: "dom E \<subseteq> input_registers n" and ok: "run vm E w ss \<noteq> Wrong"
  shows "run vm E w (renumber_registers ss n) = run vm E w ss"
proof -
  let ?m = "register_mapping ss n"
  have "E (remap_reg ?m r) = E r" if "mapped ?m r" for r
  proof (cases "r \<in> input_registers n")
    case True
    then show ?thesis using register_mapping_inv(2)[of _ n ss] by (auto simp: input_registers_def)
  next
    case False
    then obtain k where k: "r = R k" "n \<le> k"
      by (cases r) (auto simp: input_registers_def image_iff not_less)
    with that obtain v where r: "r = R k" "n \<le> k" "?m k = Some v" by auto
    with register_mapping_inv(4)[of n k ss v] have "R v \<notin> input_registers n"
      by (auto simp: input_registers_def)
    moreover have "E q = None" if "q \<notin> input_registers n" for q
      using dom that by (meson domIff subsetD)
    ultimately show ?thesis using False r by simp
  qed
  moreover have "mapped ?m r" if "r \<in> dom E" for r
    using that dom register_mapping_inv(2)[of _ n ss] by (force simp: input_registers_def)
  ultimately have "renamed ?m ss E E"
    using register_mapping_inv(1,3) by (auto simp: renamed_def)
  then have "run vm E w (map (remap_stmt ?m) ss) = run vm E w ss"
    using ok by (intro renumber.run_rewritten[OF rewritten_map]) auto
  then show ?thesis by (simp add: renumber_registers_def Let_def)
qed

lemma number_dests_fresh:
  "distinct ks \<Longrightarrow> (\<And>k. k \<in> set ks \<Longrightarrow> m k = None) \<Longrightarrow>
     fst (number_dests m nxt (map R ks)) = m(ks [\<mapsto>] [nxt..<nxt + length ks])"
proof (induction ks arbitrary: m nxt)
  case (Cons k ks)
  then have "fst (number_dests (m(k \<mapsto> nxt)) (Suc nxt) (map R ks)) =
      (m(k \<mapsto> nxt))(ks [\<mapsto>] [Suc nxt..<Suc nxt + length ks])"
    by (intro Cons.IH) auto
  moreover have "[nxt..<nxt + length (k # ks)] = nxt # [Suc nxt..<Suc nxt + length ks]"
    by (simp add: upt_conv_Cons del: upt_Suc)
  ultimately show ?case using Cons.prems(2)[of k] by (simp del: upt_Suc)
qed simp

lemma map_map_upds: "distinct ks \<Longrightarrow> length vs = length ks \<Longrightarrow> map (m(ks [\<mapsto>] vs)) ks = map Some vs"
proof (induction ks vs arbitrary: m rule: list_induct2')
  case (4 k ks v vs)
  have "(m(k \<mapsto> v, ks [\<mapsto>] vs)) k = Some v" using "4.prems" by (simp add: map_upds_apply_nontin)
  with 4 show ?case by (simp del: fun_upd_apply)
qed auto

lemma map_remap_reg: "map m ks = map Some vs \<Longrightarrow> map (remap_reg m) (map R ks) = map R vs"
proof (induction ks arbitrary: vs)
  case (Cons k ks)
  then show ?case by (cases vs) auto
qed simp

lemma writes_renumber_registers:
  assumes "distinct (writes ss)" and "set (writes ss) \<subseteq> R ` {n..}"
  shows "writes (renumber_registers ss n) = map R [n..<n + length (writes ss)]"
proof -
  let ?m = "register_mapping ss n"
  obtain ks where ks: "writes ss = map R ks"
    using assms(2) by (metis ex_map_conv image_iff subset_iff)
  have dist: "distinct ks" "\<And>k. k \<in> set ks \<Longrightarrow> n \<le> k" using assms ks by (auto simp: distinct_map)
  have m: "?m = (\<lambda>i. if i < n then Some i else None)(ks [\<mapsto>] [n..<n + length ks])"
    unfolding register_mapping_def writes_def[symmetric] ks
    by (rule number_dests_fresh) (use dist in \<open>auto simp: not_less\<close>)
  have new: "map ?m ks = map Some [n..<n + length ks]"
    unfolding m by (rule map_map_upds) (simp_all add: dist(1))
  have "map (remap_reg ?m) (map R ks) = map R [n..<n + length ks]"
    using new by (rule map_remap_reg)
  moreover have "writes (map (remap_stmt ?m) ss) = map (remap_reg ?m) (writes ss)"
    by (simp add: writes_def remap_stmt_conv o_def map_concat)
  moreover have "map (remap_reg ?m) (writes ss) = writes ss"
    if "list_all (\<lambda>k. ?m k = Some k) ks"
    using that ks by (auto simp: list_all_iff)
  moreover have "concat (map (\<lambda>d. case d of R k \<Rightarrow> [k] | _ \<Rightarrow> []) (writes ss)) = ks"
    by (simp add: ks o_def)
  ultimately show ?thesis
    by (auto simp: renumber_registers_def Let_def writes_def[symmetric] ks)
qed

lemma subseq_writes_filter: "subseq (writes (filter P ss)) (writes ss)"
  by (induction ss) (auto intro: list_emb_append_mono list_emb_append2)

lemma subseq_writes_rewritten:
  "rewritten K D ss ts \<Longrightarrow> (\<And>s t. K s t \<Longrightarrow> dest_registers t = dest_registers s) \<Longrightarrow> subseq (writes ts) (writes ss)"
  by (induction rule: rewritten.induct) (auto intro: list_emb_append_mono list_emb_append2)

end
