(* ===== verification/Peephole_Props.thy ===== *)
theory Peephole_Props
  imports Peephole_Correct
begin

text \<open>
  The properties of the peephole pass, and a small machine on integers and booleans that satisfies
  \<open>vm_laws\<close>, on which the witnesses run programs.
\<close>

section \<open>A machine\<close>

datatype sample_value = V_Int integer_type int | V_Bool bool | V_Other

fun sample_const :: "aleo_expr \<Rightarrow> sample_value" where
  "sample_const (AE_Int ty n) = V_Int ty n"
| "sample_const (AE_Bool b) = V_Bool b"
| "sample_const _ = V_Other"

definition sample_arith :: "(integer_type \<Rightarrow> int \<Rightarrow> int \<Rightarrow> int option) \<Rightarrow> sample_value list \<Rightarrow> 'w \<Rightarrow> (sample_value, 'w) step" where
  "sample_arith f vs w =
     (case vs of
        [V_Int ty a, V_Int ty' b] \<Rightarrow>
          if ty = ty' \<and> in_range ty a \<and> in_range ty b
          then (case f ty a b of Some c \<Rightarrow> Step [V_Int ty c] w | None \<Rightarrow> Halt) else Ill_Typed
      | _ \<Rightarrow> Ill_Typed)"

definition sample_bool :: "(bool \<Rightarrow> bool \<Rightarrow> bool) \<Rightarrow> sample_value list \<Rightarrow> 'w \<Rightarrow> (sample_value, 'w) step" where
  "sample_bool f vs w = (case vs of [V_Bool a, V_Bool b] \<Rightarrow> Step [V_Bool (f a b)] w | _ \<Rightarrow> Ill_Typed)"

definition sample_step :: "aleo_stmt \<Rightarrow> sample_value list \<Rightarrow> sample_value list \<Rightarrow> (sample_value, sample_value list) step" where
  "sample_step sk vs w =
     (case sk of
        AS_Add _ _ _ \<Rightarrow> sample_arith checked_add vs w
      | AS_Sub _ _ _ \<Rightarrow> sample_arith checked_sub vs w
      | AS_Mul _ _ _ \<Rightarrow> sample_arith checked_mul vs w
      | AS_AddWrapped _ _ _ \<Rightarrow> sample_arith (\<lambda>ty a b. Some (wrapping_add ty a b)) vs w
      | AS_Div _ _ _ \<Rightarrow> sample_arith checked_div vs w
      | AS_And _ _ _ \<Rightarrow> sample_bool (\<and>) vs w
      | AS_Or _ _ _ \<Rightarrow> sample_bool (\<or>) vs w
      | AS_Nand _ _ _ \<Rightarrow> sample_bool (\<lambda>a b. \<not> (a \<and> b)) vs w
      | AS_Nor _ _ _ \<Rightarrow> sample_bool (\<lambda>a b. \<not> (a \<or> b)) vs w
      | AS_Not _ _ \<Rightarrow> (case vs of [V_Bool a] \<Rightarrow> Step [V_Bool (\<not> a)] w | _ \<Rightarrow> Ill_Typed)
      | AS_AssertEq _ _ \<Rightarrow> (case vs of [a, b] \<Rightarrow> if a = b then Step [] w else Halt | _ \<Rightarrow> Ill_Typed)
      | AS_Output _ _ _ \<Rightarrow> Step [] (w @ vs)
      | AS_Cast _ _ t \<Rightarrow>
          (case (vs, integer_of_aleo_type t) of
             ([V_Int _ n], Some ty) \<Rightarrow> if in_range ty n then Step [V_Int ty n] w else Halt
           | _ \<Rightarrow> Ill_Typed)
      | _ \<Rightarrow> Ill_Typed)"

definition sample_vm :: "(sample_value, sample_value list) vm" where
  "sample_vm = \<lparr>vm_const = sample_const, vm_tuple = (\<lambda>vs. None), vm_index = (\<lambda>x i. None),
     vm_member = (\<lambda>x f. None), vm_step = sample_step,
     vm_num = (\<lambda>v. case v of V_Int _ n \<Rightarrow> Some n | _ \<Rightarrow> None), vm_int = V_Int\<rparr>"

lemma sample_vm_sels [simp]:
  "vm_const sample_vm = sample_const" "vm_step sample_vm = sample_step"
  "vm_num sample_vm v = (case v of V_Int _ n \<Rightarrow> Some n | _ \<Rightarrow> None)" "vm_int sample_vm = V_Int"
  by (simp_all add: sample_vm_def)

lemmas sample_defs = sample_step_def sample_arith_def sample_bool_def

lemma sample_unit_laws: "unit_laws sample_vm"
  by (auto simp: unit_laws_def right_unit_def left_unit_def zeros_def ones_def sample_defs
        checked_add_def checked_sub_def checked_mul_def checked_in_def wrapping_add_def
        split: list.split sample_value.split)

lemma sample_total:
  "sample_arith (\<lambda>ty a b. Some (f ty a b)) vs w = Ill_Typed \<or> (\<exists>v. sample_arith (\<lambda>ty a b. Some (f ty a b)) vs w = Step [v] w)"
  "sample_bool g vs w = Ill_Typed \<or> (\<exists>v. sample_bool g vs w = Step [v] w)"
  "(case vs of [V_Bool a] \<Rightarrow> Step [V_Bool (\<not> a)] w | _ \<Rightarrow> Ill_Typed) = Ill_Typed \<or>
     (\<exists>v. (case vs of [V_Bool a] \<Rightarrow> Step [V_Bool (\<not> a)] w | _ \<Rightarrow> Ill_Typed) = Step [v] w)"
  by (auto simp: sample_arith_def sample_bool_def split: list.split sample_value.split)

lemma sample_infallible:
  "sk \<in> infallible \<Longrightarrow> sample_step sk vs w = Ill_Typed \<or> (\<exists>v. sample_step sk vs w = Step [v] w)"
  unfolding infallible_def by (elim insertE emptyE) (simp_all add: sample_step_def sample_total)

lemma sample_vm_laws: "vm_laws sample_vm"
proof -
  have "negation_law sample_vm (AE_Bool True) (op2 AS_Nand)" "negation_law sample_vm (AE_Bool False) (op2 AS_Nor)"
    by (auto simp: negation_law_def sample_defs split: sample_value.split)
  moreover have "sample_step (AS_AssertEq hole hole) [x, x] w \<in> {Step [] w, Ill_Typed}" for x w
    by (simp add: sample_step_def)
  moreover have "cast_law sample_vm"
    by (auto simp: cast_law_def sample_step_def split: sample_value.split)
  ultimately show ?thesis
    using sample_unit_laws sample_infallible by (simp add: vm_laws_def)
qed

lemmas peephole_eval_defs =
  peephole_def fold_identity_operations_def strength_reduce_def try_strength_reduce_def unit_operand_def
  try_identity_def resolvable_def sub_alias_def eliminate_trivial_asserts_def is_trivial_assert_def is_output_def
  eliminate_dead_registers_def fold_consecutive_casts_def fold_cast_def reg_use_count_def
  intermediate_accepts_all_final_values_def primitive_cast_domain_def renumber_registers_def register_mapping_def
  Let_def upt_rec numeral_2_eq_2

lemmas run_eval_defs =
  exec_def exec_vals_def control_def skeleton_def sample_defs sample_vm_def checked_add_def checked_in_def
  wrapping_add_def wrap_int_def int_range_defs

text \<open>A program that every sub-pass changes: inputs \<^verbatim>\<open>r0: u32\<close> and \<^verbatim>\<open>r1: boolean\<close>.\<close>

definition sample_program :: "aleo_stmt list" where
  "sample_program =
     [AS_Add (AE_Reg (R 0)) (AE_Int U32 0) (R 2),
      AS_Nand (AE_Reg (R 1)) (AE_Bool True) (R 3),
      AS_AssertEq (AE_Bool True) (AE_Bool True),
      AS_AddWrapped (AE_Reg (R 2)) (AE_Int U32 7) (R 4),
      AS_Cast (AE_Reg (R 2)) (R 5) AT_U16,
      AS_Cast (AE_Reg (R 5)) (R 6) AT_U8,
      AS_Output (AE_Reg (R 6)) AT_U8 None,
      AS_Output (AE_Reg (R 3)) AT_Boolean None]"

definition sample_env :: "sample_value env" where
  "sample_env = [R 0 \<mapsto> V_Int U32 200, R 1 \<mapsto> V_Bool False]"

lemma peephole_sample_program:
  "peephole sample_program 2 = Some
     [AS_Not (AE_Reg (R 1)) (R 2), AS_Cast (AE_Reg (R 0)) (R 3) AT_U8,
      AS_Output (AE_Reg (R 3)) AT_U8 None, AS_Output (AE_Reg (R 2)) AT_Boolean None]"
  by (simp add: sample_program_def peephole_eval_defs)

lemma run_sample_program: "run sample_vm sample_env [] sample_program = Finished [V_Int U8 200, V_Bool True]"
  by (simp add: sample_program_def sample_env_def run_eval_defs)

lemma ssa_sample_program: "ssa (input_registers 2) sample_program"
  by (auto simp: sample_program_def input_registers_def)

section \<open>Lemmas on the composed pass\<close>

lemma fold_identity_operations_writes:
  assumes "fold_identity_operations ss = Some ts"
  shows "subseq (writes ts) (writes ss)"
proof -
  have dests: "dest_registers (substitute_aliases_in_stmt n A s) = dest_registers s" for n A s
    by (simp add: substitute_aliases_in_stmt_conv)
  have "subseq (writes (map (substitute_aliases_in_stmt n A) (filter P (map strength_reduce ss)))) (writes ss)" for n A P
    using subseq_writes_filter[of P "map strength_reduce ss"] by (simp add: writes_def o_def dests strength_reduce_shape)
  then show ?thesis
    using assms by (auto simp: fold_identity_operations_def Let_def split: option.splits if_splits)
qed

lemma fold_casts_loop_writes: "subseq (writes (fold_casts_loop cnt ss)) (writes ss)"
proof (induction cnt ss rule: fold_casts_loop.induct)
  case (1 cnt s1 s2 ss)
  show ?case
  proof (cases "fold_cast cnt s1 s2")
    case None
    with 1 show ?thesis by (auto intro: list_emb_append_mono)
  next
    case (Some t)
    with fold_cast_Some[OF Some] 1 show ?thesis by auto
  qed
qed auto

lemma peephole_before_renumbering:
  assumes "peephole ss n = Some ts"
  shows "\<exists>us. ts = renumber_registers us n \<and> subseq (writes us) (writes ss)"
proof -
  obtain fs where fs: "fold_identity_operations ss = Some fs"
    and ts: "ts = renumber_registers (fold_consecutive_casts (eliminate_dead_registers (eliminate_trivial_asserts fs))) n"
    using assms by (auto simp: peephole_def)
  have "subseq (writes (fold_consecutive_casts us)) (writes us)" for us
    by (simp add: fold_consecutive_casts_def fold_casts_loop_writes)
  moreover have "subseq (writes (eliminate_dead_registers us)) (writes us)" for us
    by (simp add: eliminate_dead_registers_def Let_def subseq_writes_filter)
  moreover have "subseq (writes (eliminate_trivial_asserts us)) (writes us)" for us
    by (rule subseq_writes_rewritten[OF eliminate_trivial_asserts_rewritten]) simp
  ultimately have "subseq (writes (fold_consecutive_casts (eliminate_dead_registers (eliminate_trivial_asserts fs)))) (writes ss)"
    using fold_identity_operations_writes[OF fs] by (meson subseq_order.order_trans)
  with ts show ?thesis by blast
qed

lemma subseq_distinct: "subseq xs ys \<Longrightarrow> distinct ys \<Longrightarrow> distinct xs"
  by (induction rule: list_emb.induct) (auto elim: list_emb_set)

lemma fold_identity_operations_total: "ssa D ss \<Longrightarrow> \<exists>ts. fold_identity_operations ss = Some ts"
proof (cases "ss = []")
  case False
  assume "ssa D ss"
  then obtain A where A: "collect_aliases (length ss) Map.empty (map strength_reduce ss) = Some A"
    "\<And>r e. A r = Some e \<Longrightarrow> expr_regs e \<inter> dom A = {}"
    using collect_aliases_ssa[OF ssa_strength_reduce, of D ss Map.empty "length ss"] False by auto
  have "resolve_alias (length ss) A e = Some (subst_expr (alias_of A) e)" for e
    by (rule resolve_alias_normal) (use A(2) False in auto)
  with A(1) show ?thesis
    by (auto simp: fold_identity_operations_def Let_def resolvable_def list_all_iff)
qed (simp add: fold_identity_operations_def)

lemma statement_lists_for_each:
  "statement_lists (for_each_statement_list f p) = map (\<lambda>(ss, n). (f ss n, n)) (statement_lists p)"
proof -
  have "functional_lists (map_functional f b) = map (\<lambda>(ss, n). (f ss n, n)) (functional_lists b)" for b
    by (cases b) (auto simp: map_body_def split: option.split)
  then show ?thesis
    by (simp add: statement_lists_def for_each_statement_list_def map_concat o_def split: option.split)
qed

section \<open>Properties\<close>

text \<open>
  Property C3.  The peephole pass preserves what a list of instructions does.  For every machine that
  satisfies \<open>vm_laws\<close> and every list in single assignment form over its inputs, the pass returns a list,
  and a run of the original that does not go wrong has the same outcome in the optimized list: it
  halts if the original halts, and otherwise ends in the same state of the world (outputs and
  mappings included).
\<close>

theorem peephole_preserves_runs:
  assumes "vm_laws vm" and "ssa (input_registers n) ss" and "dom E \<subseteq> input_registers n"
    and "run vm E w ss \<noteq> Wrong"
  shows "\<exists>ts. peephole ss n = Some ts \<and> run vm E w ts = run vm E w ss"
proof -
  obtain fs where fs: "fold_identity_operations ss = Some fs" "run vm E w fs = run vm E w ss"
    using fold_identity_operations_run[OF assms] by blast
  let ?us = "fold_consecutive_casts (eliminate_dead_registers (eliminate_trivial_asserts fs))"
  have "run vm E w ?us = run vm E w ss"
    using assms(1,4) fs(2)
    by (simp add: fold_consecutive_casts_run eliminate_dead_registers_run eliminate_trivial_asserts_run)
  with assms(3,4) have "run vm E w (renumber_registers ?us n) = run vm E w ss"
    by (simp add: renumber_registers_run)
  with fs(1) show ?thesis by (simp add: peephole_def)
qed

theorem peephole_preserves_runs_witness:
  "\<exists>ts. peephole sample_program 2 = Some ts \<and> run sample_vm sample_env [] ts = Finished [V_Int U8 200, V_Bool True]"
  using peephole_preserves_runs[of sample_vm 2 sample_program sample_env "[]", OF sample_vm_laws ssa_sample_program]
  by (simp add: run_sample_program) (auto simp: sample_env_def input_registers_def)

text \<open>
  Property C26.  The pass terminates on programs whose statement lists are in single assignment form:
  alias resolution, which recurses without a bound in the code, returns for every operand, and each
  list of every program is replaced by its optimized list.
\<close>

theorem do_pass_returns:
  assumes "list_all (\<lambda>p. list_all (\<lambda>(ss, n). ssa (input_registers n) ss) (statement_lists p)) ps"
  shows "\<exists>qs. do_pass ps = Some qs \<and>
           list_all2 (\<lambda>p q. list_all2 (\<lambda>(ss, n) (ts, m). m = n \<and> peephole ss n = Some ts)
                             (statement_lists p) (statement_lists q)) ps qs"
proof -
  have total: "peephole ss n \<noteq> None" if "ssa (input_registers n) ss" for ss n
    using fold_identity_operations_total[OF that] by (auto simp: peephole_def)
  have "peephole ss n \<noteq> None" if "p \<in> set ps" "(ss, n) \<in> set (statement_lists p)" for p ss n
    using assms that by (intro total) (auto simp: list_all_iff)
  then show ?thesis
    by (fastforce simp: do_pass_def list.rel_map list_all2_same list_all_iff statement_lists_for_each)
qed

definition sample_unit :: aleo_program where
  "sample_unit = \<lparr>program_functions =
       [View \<lparr>body_name = ''f'', body_inputs = [\<lparr>input_register = R 0, input_type = AT_U32, input_visibility = None\<rparr>,
            \<lparr>input_register = R 1, input_type = AT_Boolean, input_visibility = None\<rparr>],
          body_statements = sample_program\<rparr>],
     program_constructor = None\<rparr>"

theorem do_pass_returns_witness:
  "\<exists>qs. do_pass [sample_unit] = Some qs \<and>
           list_all2 (\<lambda>p q. list_all2 (\<lambda>(ss, n) (ts, m). m = n \<and> peephole ss n = Some ts)
                             (statement_lists p) (statement_lists q)) [sample_unit] qs"
  by (rule do_pass_returns) (use ssa_sample_program in \<open>simp add: sample_unit_def statement_lists_def numeral_2_eq_2\<close>)

text \<open>
  Property C27.  After the pass the registers are numbered without gaps: the destinations of the
  optimized list, read in order, are the registers that follow the inputs.
\<close>

theorem peephole_numbers_sequentially:
  assumes "ssa (input_registers n) ss" and "set (writes ss) \<subseteq> range R" and "peephole ss n = Some ts"
  shows "writes ts = map R [n..<n + length (writes ts)]"
proof -
  obtain us where us: "ts = renumber_registers us n" "subseq (writes us) (writes ss)"
    using peephole_before_renumbering[OF assms(3)] by blast
  have "set (writes us) \<subseteq> set (writes ss)" using us(2) by (auto elim: list_emb_set)
  then have "set (writes us) \<subseteq> R ` {n..}"
    using ssa_writes[OF assms(1)] assms(2) by (force simp: input_registers_def image_iff not_less)
  moreover have "distinct (writes us)" using us(2) ssa_writes[OF assms(1)] by (meson subseq_distinct)
  ultimately have "writes ts = map R [n..<n + length (writes us)]"
    unfolding us(1) by (intro writes_renumber_registers)
  then show ?thesis by simp
qed

theorem peephole_numbers_sequentially_witness:
  "\<exists>ts. peephole sample_program 2 = Some ts \<and> writes ts = map R [2..<4]"
proof -
  have "set (writes sample_program) \<subseteq> range R" by (simp add: sample_program_def)
  from peephole_numbers_sequentially[OF ssa_sample_program this peephole_sample_program]
  show ?thesis by (simp add: peephole_sample_program)
qed



text \<open>
  Removing trivial asserts keeps a list executable: if there is a statement other than an
  output, there still is one afterwards, and a trivial assert survives only when nothing else does.
\<close>

theorem eliminate_trivial_asserts_keeps_an_instruction:
  assumes "\<exists>s\<in>set ss. \<not> is_output s"
  shows "(\<exists>s\<in>set (eliminate_trivial_asserts ss). \<not> is_output s) \<and>
         (filter is_trivial_assert (eliminate_trivial_asserts ss) = [] \<or>
          (\<exists>a. filter (\<lambda>s. \<not> is_output s) (eliminate_trivial_asserts ss) = [a] \<and> is_trivial_assert a))"
proof -
  have no_out: "is_trivial_assert s \<Longrightarrow> \<not> is_output s" for s
    by (auto simp: is_trivial_assert_def is_output_def split: aleo_stmt.splits)
  have none: "filter is_trivial_assert (retain_one_trivial True ss) = []" for ss
    by (induction ss) auto
  show ?thesis
  proof (cases "filter (\<lambda>s. \<not> is_output s \<and> \<not> is_trivial_assert s) ss = []")
    case True
    have rest: "filter (\<lambda>s. \<not> is_output s) (retain_one_trivial True us) = []"
      if "\<forall>s\<in>set us. is_output s \<or> is_trivial_assert s" for us
      using that no_out by (induction us) auto
    have one: "\<exists>a. filter (\<lambda>s. \<not> is_output s) (retain_one_trivial False us) = [a] \<and> is_trivial_assert a"
      if "\<forall>s\<in>set us. is_output s \<or> is_trivial_assert s" "\<exists>s\<in>set us. \<not> is_output s" for us
      using that
    proof (induction us)
      case (Cons u us)
      then show ?case using rest[of us] no_out[of u] by (cases "is_trivial_assert u") auto
    qed simp
    have all: "\<forall>s\<in>set ss. is_output s \<or> is_trivial_assert s" using True by (auto simp: filter_empty_conv)
    obtain a where a: "filter (\<lambda>s. \<not> is_output s) (retain_one_trivial False ss) = [a]" "is_trivial_assert a"
      using one[OF all assms] by blast
    then have "\<exists>s\<in>set (retain_one_trivial False ss). \<not> is_output s" by (auto simp: filter_eq_Cons_iff)
    with a True show ?thesis by (auto simp: eliminate_trivial_asserts_def)
  next
    case False
    then show ?thesis by (auto simp: eliminate_trivial_asserts_def filter_empty_conv)
  qed
qed

theorem eliminate_trivial_asserts_keeps_an_instruction_witness:
  "eliminate_trivial_asserts [AS_AssertEq (AE_Bool True) (AE_Bool True)] \<noteq> []"
  using eliminate_trivial_asserts_keeps_an_instruction[of "[AS_AssertEq (AE_Bool True) (AE_Bool True)]"]
  by (auto simp: is_output_def)


end
