(* ===== verification/Symbol_Table.thy ===== *)
theory Symbol_Table
  imports Leo_Ast "HOL-Library.Multiset"
begin

text \<open>
  The symbol table (\<^verbatim>\<open>crates/passes/src/common/symbol_table\<close>): what every pass knows about the names
  of a program, global names by location and local names in a tree of scopes.

  \<^item> A \<^verbatim>\<open>LocalTable\<close> is shared between \<^verbatim>\<open>all_locals\<close> and \<^verbatim>\<open>local\<close> through an \<^verbatim>\<open>Rc<RefCell<..>>\<close>.  Both always
    hold the same cell for an id, since a table is registered when it is created and ids are not
    reused; \<open>st_local\<close> is therefore the id of the current scope, and \<open>st_all_locals\<close> the store.
  \<^item> \<^verbatim>\<open>Function\<close>, \<^verbatim>\<open>Composite\<close> and \<^verbatim>\<open>Interface\<close> are only stored: they are the type parameters \<open>'f\<close>, \<open>'c\<close>
    and \<open>'i\<close>.  Spans serve error messages only and are dropped.
  \<^item> The loops that follow parents or children need not end on arbitrary tables; they are partial
    functions, with \<open>None\<close> for a loop that runs forever.
\<close>

section \<open>Data\<close>

datatype variable_type = VT_Const | VT_ConstParameter | VT_Input mode | VT_Mut | VT_Storage

record variable_symbol =
  var_type :: "leo_type option"
  var_declaration :: variable_type
  var_is_exported :: "bool option"

datatype variant = Fn | FinalFn | EntryPoint | Finalize | View

fun is_externally_callable :: "variant \<Rightarrow> bool" where
  "is_externally_callable EntryPoint = True"
| "is_externally_callable View = True"
| "is_externally_callable _ = False"

record finalizer =
  fin_location :: location
  fin_future_inputs :: "location list"
  fin_inferred_inputs :: "leo_type list"

record 'f function_symbol =
  fs_function :: 'f
  fs_finalizer :: "finalizer option"

record local_table =
  lt_id :: node_id
  lt_parent :: "node_id option"
  lt_children :: "node_id list"
  lt_consts :: "symbol \<rightharpoonup> expression"
  lt_variables :: "symbol \<rightharpoonup> variable_symbol"

type_synonym locals = "node_id \<rightharpoonup> local_table"

record ('f, 'c, 'i) symbol_table =
  st_imports :: "(symbol \<times> symbol list) list"
  st_libraries :: "symbol list"
  st_functions :: "(location \<times> 'f function_symbol) list"
  st_records :: "(location \<times> 'c) list"
  st_structs :: "(location \<times> 'c) list"
  st_interfaces :: "(location \<times> 'i) list"
  st_global_consts :: "(location \<times> expression) list"
  st_globals :: "(location \<times> variable_symbol) list"
  st_all_locals :: locals
  st_local :: "node_id option"

definition symbol_table_default :: "('f, 'c, 'i) symbol_table" where
  "symbol_table_default =
     \<lparr>st_imports = [], st_libraries = [], st_functions = [], st_records = [], st_structs = [],
      st_interfaces = [], st_global_consts = [], st_globals = [], st_all_locals = Map.empty, st_local = None\<rparr>"

datatype table_error =
    Name_Defined_Multiple_Times symbol
  | Function_Not_Found "symbol list"
  | Table_Panic string

section \<open>Imports and libraries\<close>

definition imports_of :: "('f, 'c, 'i) symbol_table \<Rightarrow> symbol \<Rightarrow> symbol list" where
  "imports_of st p = (case map_of (st_imports st) p of None \<Rightarrow> [] | Some is \<Rightarrow> is)"

definition add_import :: "symbol \<Rightarrow> symbol \<Rightarrow> ('f, 'c, 'i) symbol_table \<Rightarrow> ('f, 'c, 'i) symbol_table" where
  "add_import importer imported st =
     st\<lparr>st_imports := AList.update importer (index_insert imported (imports_of st importer)) (st_imports st)\<rparr>"

definition add_imported_by :: "symbol \<Rightarrow> symbol list \<Rightarrow> ('f, 'c, 'i) symbol_table \<Rightarrow> ('f, 'c, 'i) symbol_table" where
  "add_imported_by imported importers st = fold (\<lambda>importer. add_import importer imported) importers st"

definition get_imports :: "('f, 'c, 'i) symbol_table \<Rightarrow> symbol \<Rightarrow> symbol list" where
  "get_imports st p = imports_of st p"

definition add_as_library :: "symbol \<Rightarrow> ('f, 'c, 'i) symbol_table \<Rightarrow> ('f, 'c, 'i) symbol_table" where
  "add_as_library l st = st\<lparr>st_libraries := index_insert l (st_libraries st)\<rparr>"

definition is_library :: "('f, 'c, 'i) symbol_table \<Rightarrow> symbol \<Rightarrow> bool" where
  "is_library st name \<longleftrightarrow> name \<in> set (st_libraries st)"

definition is_visible :: "('f, 'c, 'i) symbol_table \<Rightarrow> symbol \<Rightarrow> symbol \<Rightarrow> bool" where
  "is_visible st current target \<longleftrightarrow> current = target \<or> target \<in> set (imports_of st current)"

text \<open>
  \<^verbatim>\<open>collect_imports_postorder\<close>, with its loop over a list of programs; the results are the sets
  \<^verbatim>\<open>ordered\<close> and \<^verbatim>\<open>seen\<close> as the call leaves them.
\<close>

definition import_nodes :: "('f, 'c, 'i) symbol_table \<Rightarrow> symbol set" where
  "import_nodes st = fst ` set (st_imports st) \<union> (\<Union>is \<in> snd ` set (st_imports st). set is)"

lemma finite_import_nodes [simp]: "finite (import_nodes st)"
  by (auto simp: import_nodes_def)

lemma imports_outside: "p \<notin> import_nodes st \<Longrightarrow> imports_of st p = []"
  by (force simp: imports_of_def import_nodes_def split: option.splits dest: map_of_SomeD)

function collect_imports_postorder ::
  "('f, 'c, 'i) symbol_table \<Rightarrow> symbol list \<Rightarrow> symbol list \<Rightarrow> symbol list \<Rightarrow> symbol list \<times> symbol list" where
  "collect_imports_postorder st [] ordered seen = (ordered, seen)"
| "collect_imports_postorder st (p # ps) ordered seen =
     (if p \<in> set seen then collect_imports_postorder st ps ordered seen
      else
        let (ordered', seen') = collect_imports_postorder st (imports_of st p) ordered (seen @ [p])
        in collect_imports_postorder st ps (index_insert p ordered') seen')"
  by pat_completeness auto

lemma collect_imports_seen_partial:
  "collect_imports_postorder_dom (st, ps, ordered, seen) \<Longrightarrow>
     collect_imports_postorder st ps ordered seen = (ordered', seen') \<Longrightarrow> set seen \<subseteq> set seen'"
proof (induction st ps ordered seen arbitrary: ordered' seen' rule: collect_imports_postorder.pinduct)
  case (2 st p ps ordered seen)
  obtain o1 s1 where o1: "collect_imports_postorder st (imports_of st p) ordered (seen @ [p]) = (o1, s1)"
    by fastforce
  show ?case
  proof (cases "p \<in> set seen")
    case True
    with 2 show ?thesis by (simp add: collect_imports_postorder.psimps)
  next
    case False
    have "set (seen @ [p]) \<subseteq> set s1" using "2.IH"(2)[OF False o1] by simp
    moreover have "set s1 \<subseteq> set seen'"
      using "2.IH"(3)[OF False o1[symmetric] refl] "2.prems" "2.hyps" False o1
      by (simp add: collect_imports_postorder.psimps)
    ultimately show ?thesis by auto
  qed
qed (simp add: collect_imports_postorder.psimps)

termination collect_imports_postorder
proof (relation "measures [\<lambda>(st, ps, ordered, seen). card (import_nodes st - set seen), \<lambda>(st, ps, ordered, seen). length ps]",
    goal_cases)
  case (3 st p ps ordered seen)
  show ?case
  proof (cases "p \<in> import_nodes st")
    case True
    with 3 have "card (import_nodes st - set (seen @ [p])) < card (import_nodes st - set seen)"
      by (intro psubset_card_mono) auto
    then show ?thesis by simp
  next
    case False
    then have "import_nodes st - set (seen @ [p]) = import_nodes st - set seen" by auto
    with imports_outside[OF False] show ?thesis by simp
  qed
next
  case (4 st p ps ordered seen x ordered' seen')
  then have "set (seen @ [p]) \<subseteq> set seen'"
    using collect_imports_seen_partial by metis
  then have "card (import_nodes st - set seen') \<le> card (import_nodes st - set seen)"
    by (intro card_mono) auto
  then show ?case by auto
qed auto

definition get_transitive_imports :: "('f, 'c, 'i) symbol_table \<Rightarrow> symbol \<Rightarrow> symbol list" where
  "get_transitive_imports st p =
     filter (\<lambda>q. q \<notin> set (st_libraries st)) (fst (collect_imports_postorder st (imports_of st p) [] []))"

section \<open>Global names\<close>

definition reset_but_consts :: "('f, 'c, 'i) symbol_table \<Rightarrow> ('f, 'c, 'i) symbol_table" where
  "reset_but_consts st =
     st\<lparr>st_functions := [], st_records := [], st_structs := [], st_globals := [],
        st_all_locals := (\<lambda>nid. map_option (\<lambda>t. t\<lparr>lt_variables := Map.empty\<rparr>) (st_all_locals st nid)),
        st_local := None\<rparr>"

definition global_scope :: "('f, 'c, 'i) symbol_table \<Rightarrow> bool" where
  "global_scope st \<longleftrightarrow> st_local st = None"

text \<open>Every access to a global item is guarded by the visibility of its program.\<close>

definition lookup_visible ::
  "('f, 'c, 'i) symbol_table \<Rightarrow> (location \<times> 'a) list \<Rightarrow> symbol \<Rightarrow> location \<Rightarrow> 'a option" where
  "lookup_visible st items current_unit loc =
     (if is_visible st current_unit (loc_program loc) then map_of items loc else None)"

definition lookup_struct :: "('f, 'c, 'i) symbol_table \<Rightarrow> symbol \<Rightarrow> location \<Rightarrow> 'c option" where
  "lookup_struct st = lookup_visible st (st_structs st)"

definition lookup_record :: "('f, 'c, 'i) symbol_table \<Rightarrow> symbol \<Rightarrow> location \<Rightarrow> 'c option" where
  "lookup_record st = lookup_visible st (st_records st)"

definition lookup_function :: "('f, 'c, 'i) symbol_table \<Rightarrow> symbol \<Rightarrow> location \<Rightarrow> 'f function_symbol option" where
  "lookup_function st = lookup_visible st (st_functions st)"

definition lookup_interface :: "('f, 'c, 'i) symbol_table \<Rightarrow> symbol \<Rightarrow> location \<Rightarrow> 'i option" where
  "lookup_interface st = lookup_visible st (st_interfaces st)"

definition lookup_global :: "('f, 'c, 'i) symbol_table \<Rightarrow> symbol \<Rightarrow> location \<Rightarrow> variable_symbol option" where
  "lookup_global st = lookup_visible st (st_globals st)"

definition lookup_global_const :: "('f, 'c, 'i) symbol_table \<Rightarrow> symbol \<Rightarrow> location \<Rightarrow> expression option" where
  "lookup_global_const st = lookup_visible st (st_global_consts st)"

text \<open>The variant of a stored function is read by the argument \<open>variant_of\<close>.\<close>

definition is_cross_program_call_target ::
  "('f \<Rightarrow> variant) \<Rightarrow> ('f, 'c, 'i) symbol_table \<Rightarrow> symbol \<Rightarrow> location \<Rightarrow> table_error + bool" where
  "is_cross_program_call_target variant_of st current_unit loc =
     (if loc_program loc = current_unit then Inr False
      else case lookup_function st current_unit loc of
             None \<Rightarrow> Inl (Table_Panic ''the symbol table must know about every callee at this stage'')
           | Some fs \<Rightarrow> Inr (is_externally_callable (variant_of (fs_function fs))))"

definition check_shadow_global :: "('f, 'c, 'i) symbol_table \<Rightarrow> location \<Rightarrow> table_error + unit" where
  "check_shadow_global st loc =
     (if loc_path loc = [] then Inl (Table_Panic ''location path must have at least one segment.'')
      else if map_of (st_functions st) loc \<noteq> None \<or> map_of (st_records st) loc \<noteq> None \<or>
              map_of (st_structs st) loc \<noteq> None \<or> map_of (st_globals st) loc \<noteq> None
      then Inl (Name_Defined_Multiple_Times (last (loc_path loc)))
      else Inr ())"

definition insert_struct ::
  "location \<Rightarrow> 'c \<Rightarrow> ('f, 'c, 'i) symbol_table \<Rightarrow> table_error + ('f, 'c, 'i) symbol_table" where
  "insert_struct loc c st =
     map_res (\<lambda>_. st\<lparr>st_structs := AList.update loc c (st_structs st)\<rparr>) (check_shadow_global st loc)"

definition insert_record ::
  "location \<Rightarrow> 'c \<Rightarrow> ('f, 'c, 'i) symbol_table \<Rightarrow> table_error + ('f, 'c, 'i) symbol_table" where
  "insert_record loc c st =
     map_res (\<lambda>_. st\<lparr>st_records := AList.update loc c (st_records st)\<rparr>) (check_shadow_global st loc)"

definition insert_function ::
  "location \<Rightarrow> 'f \<Rightarrow> ('f, 'c, 'i) symbol_table \<Rightarrow> table_error + ('f, 'c, 'i) symbol_table" where
  "insert_function loc f st =
     map_res (\<lambda>_. st\<lparr>st_functions := AList.update loc \<lparr>fs_function = f, fs_finalizer = None\<rparr> (st_functions st)\<rparr>)
       (check_shadow_global st loc)"

definition insert_interface ::
  "location \<Rightarrow> 'i \<Rightarrow> ('f, 'c, 'i) symbol_table \<Rightarrow> table_error + ('f, 'c, 'i) symbol_table" where
  "insert_interface loc i st =
     map_res (\<lambda>_. st\<lparr>st_interfaces := AList.update loc i (st_interfaces st)\<rparr>) (check_shadow_global st loc)"

definition insert_global ::
  "location \<Rightarrow> variable_symbol \<Rightarrow> ('f, 'c, 'i) symbol_table \<Rightarrow> table_error + ('f, 'c, 'i) symbol_table" where
  "insert_global loc var st =
     map_res (\<lambda>_. st\<lparr>st_globals := AList.update loc var (st_globals st)\<rparr>) (check_shadow_global st loc)"

definition insert_global_const ::
  "location \<Rightarrow> expression \<Rightarrow> ('f, 'c, 'i) symbol_table \<Rightarrow> ('f, 'c, 'i) symbol_table" where
  "insert_global_const loc e st =
     (if global_scope st then st\<lparr>st_global_consts := AList.update loc e (st_global_consts st)\<rparr> else st)"

definition set_global_type ::
  "location \<Rightarrow> leo_type \<Rightarrow> ('f, 'c, 'i) symbol_table \<Rightarrow> bool \<times> ('f, 'c, 'i) symbol_table" where
  "set_global_type loc ty st =
     (case map_of (st_globals st) loc of
        Some var \<Rightarrow> (True, st\<lparr>st_globals := AList.update loc (var\<lparr>var_type := Some ty\<rparr>) (st_globals st)\<rparr>)
      | None \<Rightarrow> (False, st))"

definition attach_finalizer ::
  "location \<Rightarrow> location \<Rightarrow> location list \<Rightarrow> leo_type list \<Rightarrow> ('f, 'c, 'i) symbol_table \<Rightarrow>
     table_error + ('f, 'c, 'i) symbol_table" where
  "attach_finalizer caller callee future_inputs inferred_inputs st =
     (case map_of (st_functions st) caller of
        Some f \<Rightarrow>
          Inr (st\<lparr>st_functions := AList.update caller
                   (f\<lparr>fs_finalizer := Some \<lparr>fin_location = callee, fin_future_inputs = future_inputs,
                                            fin_inferred_inputs = inferred_inputs\<rparr>\<rparr>) (st_functions st)\<rparr>)
      | None \<Rightarrow> Inl (Function_Not_Found (loc_path caller)))"

section \<open>Local scopes\<close>

text \<open>
  The loops of the code from the current scope outwards: \<open>f\<close> looks at one table and may end the loop;
  \<open>missing\<close> is the result when a scope is not in the store, which ends the loop in most operations
  and is a panic in \<^verbatim>\<open>check_shadow_variable\<close>.
\<close>

partial_function (option) walk_scopes ::
  "locals \<Rightarrow> 'r option \<Rightarrow> (local_table \<Rightarrow> 'r option) \<Rightarrow> node_id option \<Rightarrow> 'r option option" where
  "walk_scopes L missing f cur =
     (case cur of
        None \<Rightarrow> Some None
      | Some nid \<Rightarrow>
          (case L nid of
             None \<Rightarrow> Some missing
           | Some t \<Rightarrow> (case f t of Some r \<Rightarrow> Some (Some r) | None \<Rightarrow> walk_scopes L missing f (lt_parent t))))"

definition lookup_local :: "('f, 'c, 'i) symbol_table \<Rightarrow> symbol \<Rightarrow> variable_symbol option option" where
  "lookup_local st name = walk_scopes (st_all_locals st) None (\<lambda>t. lt_variables t name) (st_local st)"

definition lookup_local_const :: "('f, 'c, 'i) symbol_table \<Rightarrow> symbol \<Rightarrow> expression option option" where
  "lookup_local_const st name = walk_scopes (st_all_locals st) None (\<lambda>t. lt_consts t name) (st_local st)"

definition lookup_path :: "('f, 'c, 'i) symbol_table \<Rightarrow> symbol \<Rightarrow> path \<Rightarrow> variable_symbol option option" where
  "lookup_path st current_unit p =
     (case try_global_location p of
        Some loc \<Rightarrow> Some (lookup_global st current_unit loc)
      | None \<Rightarrow> (case try_local_symbol p of Some name \<Rightarrow> lookup_local st name | None \<Rightarrow> Some None))"

definition is_local_to :: "('f, 'c, 'i) symbol_table \<Rightarrow> node_id \<Rightarrow> symbol \<Rightarrow> bool" where
  "is_local_to st scope name =
     (case st_all_locals st scope of None \<Rightarrow> False | Some t \<Rightarrow> lt_variables t name \<noteq> None)"

definition is_defined_in_scope_or_ancestor_until ::
  "('f, 'c, 'i) symbol_table \<Rightarrow> node_id \<Rightarrow> symbol \<Rightarrow> bool option" where
  "is_defined_in_scope_or_ancestor_until st scope name =
     map_option (\<lambda>r. r = Some True)
       (walk_scopes (st_all_locals st) None
          (\<lambda>t. if lt_variables t name \<noteq> None then Some True else if lt_id t = scope then Some False else None)
          (st_local st))"

partial_function (option) search_children :: "locals \<Rightarrow> symbol \<Rightarrow> node_id list \<Rightarrow> bool option" where
  "search_children L name stack =
     (if stack = [] then Some False
      else case L (last stack) of
             None \<Rightarrow> search_children L name (butlast stack)
           | Some t \<Rightarrow>
               if lt_variables t name \<noteq> None then Some True
               else search_children L name (butlast stack @ lt_children t))"

definition is_local_to_or_in_child_scope :: "('f, 'c, 'i) symbol_table \<Rightarrow> node_id \<Rightarrow> symbol \<Rightarrow> bool option" where
  "is_local_to_or_in_child_scope st scope name = search_children (st_all_locals st) name [scope]"

text \<open>\<^verbatim>\<open>LocalTable::new\<close> registers the new scope with its parent.\<close>

definition local_table_new :: "locals \<Rightarrow> node_id \<Rightarrow> node_id option \<Rightarrow> locals \<times> local_table" where
  "local_table_new L nid parent =
     ((case parent of
         None \<Rightarrow> L
       | Some p \<Rightarrow>
           (case L p of None \<Rightarrow> L | Some t \<Rightarrow> L(p \<mapsto> t\<lparr>lt_children := lt_children t @ [nid]\<rparr>))),
      \<lparr>lt_id = nid, lt_parent = parent, lt_children = [], lt_consts = Map.empty, lt_variables = Map.empty\<rparr>)"

definition current_id :: "('f, 'c, 'i) symbol_table \<Rightarrow> node_id option" where
  "current_id st = Option.bind (st_local st) (\<lambda>nid. map_option lt_id (st_all_locals st nid))"

definition enter_scope ::
  "node_id option \<Rightarrow> ('f, 'c, 'i) symbol_table \<Rightarrow> table_error + ('f, 'c, 'i) symbol_table" where
  "enter_scope oid st =
     (case oid of
        None \<Rightarrow> Inr (st\<lparr>st_local := None\<rparr>)
      | Some nid \<Rightarrow>
          let parent = current_id st;
              (L, t) = (case st_all_locals st nid of
                          Some existing \<Rightarrow> (st_all_locals st, existing)
                        | None \<Rightarrow> (let (L', t') = local_table_new (st_all_locals st) nid parent in (L'(nid \<mapsto> t'), t')))
          in if lt_parent t = parent then Inr (st\<lparr>st_all_locals := L, st_local := Some nid\<rparr>)
             else Inl (Table_Panic ''Entered scopes out of order.''))"

definition enter_existing_scope ::
  "node_id option \<Rightarrow> ('f, 'c, 'i) symbol_table \<Rightarrow> table_error + ('f, 'c, 'i) symbol_table" where
  "enter_existing_scope oid st =
     (case oid of
        None \<Rightarrow> Inr (st\<lparr>st_local := None\<rparr>)
      | Some nid \<Rightarrow>
          (case st_all_locals st nid of
             None \<Rightarrow> Inl (Table_Panic ''local scope must exist'')
           | Some t \<Rightarrow>
               if lt_parent t = current_id st then Inr (st\<lparr>st_local := Some nid\<rparr>)
               else Inl (Table_Panic ''Entered scopes out of order.'')))"

definition enter_parent :: "('f, 'c, 'i) symbol_table \<Rightarrow> table_error + ('f, 'c, 'i) symbol_table" where
  "enter_parent st =
     (case Option.bind (st_local st) (\<lambda>nid. Option.bind (st_all_locals st nid) lt_parent) of
        None \<Rightarrow> Inr (st\<lparr>st_local := None\<rparr>)
      | Some p \<Rightarrow>
          (case st_all_locals st p of
             None \<Rightarrow> Inl (Table_Panic ''Parent should exist.'')
           | Some _ \<Rightarrow> Inr (st\<lparr>st_local := Some p\<rparr>)))"

text \<open>Sequencing of computations that may panic or run forever.\<close>

definition bind_loop :: "('e + 'a) option \<Rightarrow> ('a \<Rightarrow> ('e + 'b) option) \<Rightarrow> ('e + 'b) option" where
  "bind_loop m f = Option.bind m (\<lambda>r. case r of Inl e \<Rightarrow> Some (Inl e) | Inr a \<Rightarrow> f a)"

lemma bind_loop_mono [partial_function_mono]:
  assumes "mono_option B" and "\<And>y. mono_option (\<lambda>f. C y f)"
  shows "mono_option (\<lambda>f. bind_loop (B f) (\<lambda>y. C y f))"
proof -
  have "mono_option (\<lambda>f. case r of Inl e \<Rightarrow> Some (Inl e) | Inr a \<Rightarrow> C a f)" for r
    by (cases r) (simp_all add: assms(2) option.const_mono)
  with assms(1) show ?thesis unfolding bind_loop_def by (rule bind_mono)
qed

text \<open>
  \<^verbatim>\<open>LocalTable::dup\<close> for a list of scopes with one new parent: ids are taken in order from \<open>next\<close>, the counter of the
  \<^verbatim>\<open>NodeBuilder\<close>, and the children of a scope are duplicated before it is registered.
\<close>

partial_function (option) dup_scopes ::
  "locals \<Rightarrow> node_id \<Rightarrow> node_id option \<Rightarrow> node_id list \<Rightarrow> (table_error + node_id list \<times> locals \<times> node_id) option" where
  "dup_scopes L next new_parent ids =
     (if ids = [] then Some (Inr ([], L, next))
      else case L (hd ids) of
             None \<Rightarrow> Some (Inl (Table_Panic ''Child must exist''))
           | Some t \<Rightarrow>
               bind_loop (dup_scopes L (Suc next) (Some next) (lt_children t)) (\<lambda>(new_children, L1, n1).
                 bind_loop
                   (dup_scopes (L1(next \<mapsto> t\<lparr>lt_id := next, lt_parent := new_parent, lt_children := new_children\<rparr>))
                      n1 new_parent (tl ids)) (\<lambda>(new_ids, L2, n2).
                 Some (Inr (next # new_ids, L2, n2)))))"

definition enter_scope_duped ::
  "node_id \<Rightarrow> node_id \<Rightarrow> ('f, 'c, 'i) symbol_table \<Rightarrow>
     (table_error + node_id \<times> node_id \<times> ('f, 'c, 'i) symbol_table) option" where
  "enter_scope_duped old_id next st =
     (if st_all_locals st old_id = None
      then Some (Inl (Table_Panic ''Must have an old scope to dup from.''))
      else map_option
             (map_res (\<lambda>(new_ids, L, next'). (hd new_ids, next', st\<lparr>st_all_locals := L, st_local := Some (hd new_ids)\<rparr>)))
             (dup_scopes (st_all_locals st) next (current_id st) [old_id]))"

definition update_local :: "node_id \<Rightarrow> (local_table \<Rightarrow> local_table) \<Rightarrow> ('f, 'c, 'i) symbol_table \<Rightarrow> ('f, 'c, 'i) symbol_table" where
  "update_local nid f st = st\<lparr>st_all_locals := (st_all_locals st)(nid := map_option f (st_all_locals st nid))\<rparr>"

definition insert_local_const ::
  "symbol \<Rightarrow> expression \<Rightarrow> ('f, 'c, 'i) symbol_table \<Rightarrow> ('f, 'c, 'i) symbol_table" where
  "insert_local_const name e st =
     (case st_local st of
        None \<Rightarrow> st
      | Some nid \<Rightarrow> update_local nid (\<lambda>t. t\<lparr>lt_consts := (lt_consts t)(name \<mapsto> e)\<rparr>) st)"

definition set_local_type ::
  "symbol \<Rightarrow> leo_type \<Rightarrow> ('f, 'c, 'i) symbol_table \<Rightarrow> (bool \<times> ('f, 'c, 'i) symbol_table) option" where
  "set_local_type name ty st =
     map_option
       (\<lambda>r. case r of
              None \<Rightarrow> (False, st)
            | Some (nid, var) \<Rightarrow>
                (True, update_local nid (\<lambda>t. t\<lparr>lt_variables := (lt_variables t)(name \<mapsto> var\<lparr>var_type := Some ty\<rparr>)\<rparr>) st))
       (walk_scopes (st_all_locals st) None (\<lambda>t. map_option (Pair (lt_id t)) (lt_variables t name)) (st_local st))"

definition check_shadow_variable ::
  "symbol \<Rightarrow> symbol list \<Rightarrow> ('f, 'c, 'i) symbol_table \<Rightarrow> (table_error + unit) option" where
  "check_shadow_variable program path st =
     map_option
       (\<lambda>r. case r of
              Some e \<Rightarrow> Inl e
            | None \<Rightarrow> check_shadow_global st \<lparr>loc_program = program, loc_path = path\<rparr>)
       (walk_scopes (st_all_locals st) (Some (Table_Panic ''Parent should exist.''))
          (\<lambda>t. case path of
                 [name] \<Rightarrow> if lt_variables t name \<noteq> None then Some (Name_Defined_Multiple_Times name) else None
               | _ \<Rightarrow> None)
          (st_local st))"

definition insert_variable ::
  "symbol \<Rightarrow> symbol list \<Rightarrow> variable_symbol \<Rightarrow> ('f, 'c, 'i) symbol_table \<Rightarrow>
     (table_error + ('f, 'c, 'i) symbol_table) option" where
  "insert_variable program path var st =
     map_option
       (\<lambda>r. bind_res r (\<lambda>_.
          case st_local st of
            Some nid \<Rightarrow>
              (case path of
                 [name] \<Rightarrow> Inr (update_local nid (\<lambda>t. t\<lparr>lt_variables := (lt_variables t)(name \<mapsto> var)\<rparr>) st)
               | _ \<Rightarrow> Inl (Table_Panic ''Local variables cannot have paths with more than 1 segment.''))
          | None \<Rightarrow>
              Inr (st\<lparr>st_globals := AList.update \<lparr>loc_program = program, loc_path = path\<rparr> var (st_globals st)\<rparr>)))
       (check_shadow_variable program path st)"

end
