(* ===== verification/Scope_Invariant.thy ===== *)
theory Scope_Invariant
  imports Symbol_Table
begin

text \<open>
  The scope tree of the symbol table.  \<open>table_ok\<close> is the invariant of a table together with the
  counter of the \<^verbatim>\<open>NodeBuilder\<close>: scopes are registered under their own id, parents exist and the chain of
  parents is finite, children point back to their parent, and no scope has an id that is still to
  be handed out.  \<open>table_step\<close> has one rule for every operation that changes the table, and the
  invariant holds in every reachable state.
\<close>

section \<open>The invariant\<close>

definition scope_tree :: "locals \<Rightarrow> bool" where
  "scope_tree L \<longleftrightarrow>
     finite (dom L) \<and>
     (\<forall>i t. L i = Some t \<longrightarrow> lt_id t = i) \<and>
     (\<forall>i t p. L i = Some t \<longrightarrow> lt_parent t = Some p \<longrightarrow> p \<in> dom L) \<and>
     (\<forall>i t c. L i = Some t \<longrightarrow> c \<in> set (lt_children t) \<longrightarrow> (\<exists>tc. L c = Some tc \<and> lt_parent tc = Some i)) \<and>
     (\<exists>rank :: node_id \<Rightarrow> nat. \<forall>i t p. L i = Some t \<longrightarrow> lt_parent t = Some p \<longrightarrow> rank p < rank i)"

definition table_ok :: "node_id \<Rightarrow> ('f, 'c, 'i) symbol_table \<Rightarrow> bool" where
  "table_ok n st \<longleftrightarrow>
     scope_tree (st_all_locals st) \<and> dom (st_all_locals st) \<subseteq> {..<n} \<and>
     (\<forall>i. st_local st = Some i \<longrightarrow> i \<in> dom (st_all_locals st))"

lemma scope_treeD:
  assumes "scope_tree L"
  shows "finite (dom L)" and "L i = Some t \<Longrightarrow> lt_id t = i"
    and "L i = Some t \<Longrightarrow> lt_parent t = Some p \<Longrightarrow> p \<in> dom L"
    and "L i = Some t \<Longrightarrow> c \<in> set (lt_children t) \<Longrightarrow> \<exists>tc. L c = Some tc \<and> lt_parent tc = Some i"
  using assms unfolding scope_tree_def by blast+

lemma scope_tree_rank:
  assumes "scope_tree L"
  obtains rank :: "node_id \<Rightarrow> nat" where "\<forall>i t p. L i = Some t \<longrightarrow> lt_parent t = Some p \<longrightarrow> rank p < rank i"
  using assms unfolding scope_tree_def by blast

lemma scope_treeI:
  fixes rank :: "node_id \<Rightarrow> nat"
  assumes "finite (dom L)"
    and "\<And>i t. L i = Some t \<Longrightarrow> lt_id t = i \<and> (\<forall>p. lt_parent t = Some p \<longrightarrow> p \<in> dom L \<and> rank p < rank i) \<and>
           (\<forall>c\<in>set (lt_children t). \<exists>tc. L c = Some tc \<and> lt_parent tc = Some i)"
  shows "scope_tree L"
  using assms unfolding scope_tree_def by blast

text \<open>Depths from below: along children a bounded measure decreases.\<close>

lemma scope_tree_height:
  assumes "scope_tree L"
  obtains height :: "node_id \<Rightarrow> nat"
  where "\<forall>i t c. L i = Some t \<longrightarrow> c \<in> set (lt_children t) \<longrightarrow> height c < height i"
proof -
  obtain rank :: "node_id \<Rightarrow> nat"
    where rank: "\<forall>i t p. L i = Some t \<longrightarrow> lt_parent t = Some p \<longrightarrow> rank p < rank i"
    using assms by (rule scope_tree_rank)
  define top where "top = Suc (Max (rank ` dom L))"
  have below: "rank i < top" if "i \<in> dom L" for i
    using that scope_treeD(1)[OF assms] by (auto simp: top_def less_Suc_eq_le)
  have "top - rank c < top - rank i" if t: "L i = Some t" "c \<in> set (lt_children t)" for i t c
  proof -
    from t obtain tc where "L c = Some tc" "lt_parent tc = Some i"
      using scope_treeD(4)[OF assms] by blast
    then have "rank i < rank c" "rank c < top" using rank below by blast+
    then show ?thesis by simp
  qed
  then show ?thesis by (intro that[of "\<lambda>i. top - rank i"]) blast
qed

section \<open>Loops end\<close>

lemma walk_scopes_simps [simp]:
  "walk_scopes L missing f None = Some None"
  "L i = Some t \<Longrightarrow> walk_scopes L missing f (Some i) =
     (case f t of Some r \<Rightarrow> Some (Some r) | None \<Rightarrow> walk_scopes L missing f (lt_parent t))"
  "L i = None \<Longrightarrow> walk_scopes L missing f (Some i) = Some missing"
  by (simp_all add: walk_scopes.simps)

lemma walk_scopes_total:
  assumes "scope_tree L" and "\<And>i. cur = Some i \<Longrightarrow> i \<in> dom L"
  shows "\<exists>r. walk_scopes L missing f cur = Some r \<and> (r = None \<or> (\<exists>t\<in>ran L. f t = r))"
proof -
  obtain rank :: "node_id \<Rightarrow> nat"
    where rank: "\<forall>i t p. L i = Some t \<longrightarrow> lt_parent t = Some p \<longrightarrow> rank p < rank i"
    using assms(1) by (rule scope_tree_rank)
  have "i \<in> dom L \<Longrightarrow> \<exists>r. walk_scopes L missing f (Some i) = Some r \<and> (r = None \<or> (\<exists>t\<in>ran L. f t = r))" for i
  proof (induction "rank i" arbitrary: i rule: less_induct)
    case less
    then obtain t where t: "L i = Some t" by blast
    show ?case
    proof (cases "f t = None \<and> lt_parent t \<noteq> None")
      case True
      then obtain p where p: "lt_parent t = Some p" "f t = None" by blast
      with less(1)[of p] rank t scope_treeD(3)[OF assms(1) t p(1)] t show ?thesis by simp
    next
      case False
      with t show ?thesis by (cases "f t") (auto simp: ran_def)
    qed
  qed
  then show ?thesis using assms(2) by (cases cur) auto
qed

lemma search_children_total:
  assumes "scope_tree L"
  shows "\<exists>b. search_children L name stack = Some b"
proof -
  obtain height :: "node_id \<Rightarrow> nat"
    where height: "\<forall>i t c. L i = Some t \<longrightarrow> c \<in> set (lt_children t) \<longrightarrow> height c < height i"
    using assms by (rule scope_tree_height)
  have "wf (inv_image (mult {(x, y). x < y}) (\<lambda>stack. mset (map height stack)))"
    by (intro wf_inv_image wf_mult wf_less)
  then show ?thesis
  proof (induction stack rule: wf_induct_rule)
    case (less stack)
    show ?case
    proof (cases "stack = []")
      case False
      then obtain st x where stack: "stack = st @ [x]" by (cases stack rule: rev_cases) auto
      have smaller: "(mset (map height (st @ ys)), mset (map height stack)) \<in> mult {(x, y). x < y}"
        if "\<forall>y\<in>set ys. height y < height x" for ys
        unfolding stack map_append mset_append
        by (rule one_step_implies_mult) (use that in auto)
      show ?thesis
      proof (cases "L x")
        case None
        with less[of st] smaller[of "[]"] stack show ?thesis
          by (subst search_children.simps) simp
      next
        case (Some t)
        have "\<forall>y\<in>set (lt_children t). height y < height x" using height Some by blast
        with less[of "st @ lt_children t"] smaller[of "lt_children t"] Some stack show ?thesis
          by (subst search_children.simps) auto
      qed
    qed (auto simp: search_children.simps)
  qed
qed

section \<open>Duplication\<close>

text \<open>
  \<open>fresh_copy\<close>: what a duplication adds between the counters \<open>n\<close> and \<open>n'\<close>.  Nothing below \<open>n\<close> changes; the new
  scopes are registered under their ids, each below its parent, and children point back.
\<close>

definition copied :: "locals \<Rightarrow> node_id \<Rightarrow> node_id option \<Rightarrow> node_id \<Rightarrow> local_table \<Rightarrow> bool" where
  "copied L n np k t \<longleftrightarrow>
     lt_id t = k \<and>
     (lt_parent t = np \<or> (\<exists>p. lt_parent t = Some p \<and> n \<le> p \<and> p < k \<and> p \<in> dom L)) \<and>
     (\<forall>c\<in>set (lt_children t). \<exists>tc. L c = Some tc \<and> lt_parent tc = Some k)"

definition fresh_copy :: "locals \<Rightarrow> node_id \<Rightarrow> node_id option \<Rightarrow> locals \<Rightarrow> node_id \<Rightarrow> bool" where
  "fresh_copy L n np L' n' \<longleftrightarrow>
     n \<le> n' \<and> (\<forall>i<n. L' i = L i) \<and> dom L' \<subseteq> {..<n'} \<and>
     (\<forall>k t. n \<le> k \<longrightarrow> L' k = Some t \<longrightarrow> copied L' n np k t)"

lemma fresh_copyD:
  assumes "fresh_copy L n np L' n'"
  shows "n \<le> n'" and "i < n \<Longrightarrow> L' i = L i" and "dom L' \<subseteq> {..<n'}"
    and "n \<le> k \<Longrightarrow> L' k = Some t \<Longrightarrow> copied L' n np k t"
  using assms by (simp_all add: fresh_copy_def)

lemma fresh_copy_refl: "dom L \<subseteq> {..<n} \<Longrightarrow> fresh_copy L n np L n"
  by (auto simp: fresh_copy_def)

lemma fresh_copy_node:
  assumes c: "fresh_copy L (Suc n) (Some n) L1 n1" and dom: "dom L \<subseteq> {..<n}"
    and cs: "\<forall>c\<in>set cs. \<exists>tc. L1 c = Some tc \<and> lt_parent tc = Some n"
  shows "fresh_copy L n np (L1(n \<mapsto> t\<lparr>lt_id := n, lt_parent := np, lt_children := cs\<rparr>)) n1"
proof -
  let ?L = "L1(n \<mapsto> t\<lparr>lt_id := n, lt_parent := np, lt_children := cs\<rparr>)"
  have "n \<notin> dom L" using dom by auto
  then have new: "L1 n = None" using fresh_copyD(2)[OF c, of n] by (simp add: domIff)
  have keep: "\<exists>tc. ?L j = Some tc \<and> lt_parent tc = q" if "\<exists>tc. L1 j = Some tc \<and> lt_parent tc = q" for j q
    using that new by (cases "j = n") auto
  have "copied ?L n np k u" if k: "n \<le> k" "?L k = Some u" for k u
  proof (cases "k = n")
    case True
    with k(2) have "u = t\<lparr>lt_id := n, lt_parent := np, lt_children := cs\<rparr>" by simp
    with True cs keep show ?thesis by (auto simp: copied_def)
  next
    case False
    with k have cp: "copied L1 (Suc n) (Some n) k u" using fresh_copyD(4)[OF c, of k u] by simp
    then have "lt_parent u = Some n \<or> (\<exists>p. lt_parent u = Some p \<and> Suc n \<le> p \<and> p < k \<and> p \<in> dom L1)"
      by (simp add: copied_def)
    then have "\<exists>p. lt_parent u = Some p \<and> n \<le> p \<and> p < k \<and> p \<in> dom ?L"
      using False k(1) by auto
    with cp keep show ?thesis unfolding copied_def by blast
  qed
  moreover have "n < n1" using fresh_copyD(1)[OF c] by simp
  moreover have "?L i = L i" if "i < n" for i using that fresh_copyD(2)[OF c, of i] by simp
  ultimately show ?thesis
    using fresh_copyD(3)[OF c] by (simp add: fresh_copy_def)
qed

lemma fresh_copy_trans:
  assumes c1: "fresh_copy L n np L1 n1" and c2: "fresh_copy L1 n1 np L2 n2"
  shows "fresh_copy L n np L2 n2"
proof -
  have le: "n \<le> n1" "n1 \<le> n2" using fresh_copyD(1)[OF c1] fresh_copyD(1)[OF c2] by simp_all
  have old: "L2 j = L1 j" if "j \<in> dom L1" for j
    using that fresh_copyD(3)[OF c1] fresh_copyD(2)[OF c2] by blast
  have "copied L2 n np k t" if k: "n \<le> k" "L2 k = Some t" for k t
  proof (cases "k < n1")
    case True
    with k have "copied L1 n np k t" using fresh_copyD(2)[OF c2] fresh_copyD(4)[OF c1] by simp
    moreover have "\<exists>tc. L2 c = Some tc \<and> lt_parent tc = q" if "\<exists>tc. L1 c = Some tc \<and> lt_parent tc = q" for c q
      using that old[of c] domI[of L1 c] by auto
    moreover have "p \<in> dom L2" if "p \<in> dom L1" for p using that old[of p] by (simp add: domIff)
    ultimately show ?thesis unfolding copied_def by blast
  next
    case False
    with k have "copied L2 n1 np k t" using fresh_copyD(4)[OF c2] by simp
    with le(1) show ?thesis unfolding copied_def by (meson order.trans)
  qed
  moreover have "L2 i = L i" if "i < n" for i
    using that le fresh_copyD(2)[OF c1, of i] fresh_copyD(2)[OF c2, of i] by simp
  ultimately show ?thesis using le fresh_copyD(3)[OF c2] by (simp add: fresh_copy_def)
qed

text \<open>A duplicated scope holds what the original holds, under the new parent.\<close>

definition copy_of :: "locals \<Rightarrow> node_id option \<Rightarrow> locals \<Rightarrow> node_id \<Rightarrow> node_id \<Rightarrow> bool" where
  "copy_of L np L' i j \<longleftrightarrow>
     (\<exists>t t'. L i = Some t \<and> L' j = Some t' \<and> lt_parent t' = np \<and>
             lt_variables t' = lt_variables t \<and> lt_consts t' = lt_consts t)"

lemma dup_scopes_total:
  assumes height: "\<forall>i t c. L0 i = Some t \<longrightarrow> c \<in> set (lt_children t) \<longrightarrow> c \<in> dom L0 \<and> (height c :: nat) < height i"
    and "dom L0 \<subseteq> {..<n}" "\<forall>i\<in>dom L0. L i = L0 i" "dom L \<subseteq> {..<n}"
    and "\<forall>i\<in>set ids. i \<in> dom L0 \<and> height i < h"
  shows "\<exists>new L' n'. dup_scopes L n np ids = Some (Inr (new, L', n')) \<and> fresh_copy L n np L' n' \<and>
           list_all2 (copy_of L0 np L') ids new \<and> (\<forall>j\<in>set new. n \<le> j)"
  using assms(2-)
proof (induction h arbitrary: ids L n np)
  case 0
  then have "ids = []" by (cases ids) auto
  with 0 show ?case by (simp add: dup_scopes.simps fresh_copy_refl)
next
  case (Suc h)
  note outer = Suc.IH
  from Suc.prems show ?case
  proof (induction ids arbitrary: L n)
    case Nil
    then show ?case by (simp add: dup_scopes.simps fresh_copy_refl)
  next
    case (Cons i ids)
    then obtain t where t0: "L0 i = Some t" by auto
    with Cons.prems(2) have t: "L i = Some t" by (metis domI)
    have kids: "\<forall>c\<in>set (lt_children t). c \<in> dom L0 \<and> height c < h"
      using height t0 Cons.prems(4) by fastforce
    obtain cs L1 n1 where d1: "dup_scopes L (Suc n) (Some n) (lt_children t) = Some (Inr (cs, L1, n1))"
      "fresh_copy L (Suc n) (Some n) L1 n1" "list_all2 (copy_of L0 (Some n) L1) (lt_children t) cs"
      using outer[of "Suc n" L "lt_children t" "Some n"] Cons.prems kids by force
    let ?t = "t\<lparr>lt_id := n, lt_parent := np, lt_children := cs\<rparr>"
    have "\<forall>c\<in>set cs. \<exists>tc. L1 c = Some tc \<and> lt_parent tc = Some n"
      using d1(3) by (fastforce simp: list_all2_conv_all_nth in_set_conv_nth copy_of_def)
    then have f1: "fresh_copy L n np (L1(n \<mapsto> ?t)) n1"
      using fresh_copy_node[OF d1(2) Cons.prems(3)] by blast
    have keep: "\<forall>j\<in>dom L0. (L1(n \<mapsto> ?t)) j = L0 j"
      using fresh_copyD(2)[OF f1] Cons.prems(1,2) by (metis lessThan_iff subsetD)
    have dom1: "dom L0 \<subseteq> {..<n1}" "n < n1" using Cons.prems(1) fresh_copyD(1)[OF d1(2)] by auto
    obtain new L2 n2 where d2: "dup_scopes (L1(n \<mapsto> ?t)) n1 np ids = Some (Inr (new, L2, n2))"
      "fresh_copy (L1(n \<mapsto> ?t)) n1 np L2 n2" "list_all2 (copy_of L0 np L2) ids new" "\<forall>j\<in>set new. n1 \<le> j"
      using Cons.IH[OF dom1(1) keep fresh_copyD(3)[OF f1]] Cons.prems(4) list.set_intros(2) by metis
    have "L2 n = Some ?t" using fresh_copyD(2)[OF d2(2) dom1(2)] by simp
    then have "copy_of L0 np L2 i n" using t0 by (simp add: copy_of_def)
    moreover have "dup_scopes L n np (i # ids) = Some (Inr (n # new, L2, n2))"
      by (subst dup_scopes.simps) (simp add: t d1(1) d2(1) bind_loop_def)
    ultimately show ?case using fresh_copy_trans[OF f1 d2(2)] d2(3,4) dom1(2) by fastforce
  qed
qed

lemma scope_tree_dup:
  assumes tree: "scope_tree L" and dom: "dom L \<subseteq> {..<n}" and np: "\<And>p. np = Some p \<Longrightarrow> p \<in> dom L"
    and copy: "fresh_copy L n np L' n'"
  shows "scope_tree L'"
proof -
  obtain rank :: "node_id \<Rightarrow> nat"
    where rank: "\<forall>i t p. L i = Some t \<longrightarrow> lt_parent t = Some p \<longrightarrow> rank p < rank i"
    using tree by (rule scope_tree_rank)
  define r where "r i = (if i < n then rank i else Suc (Max (insert 0 (rank ` dom L)) + i))" for i
  note old = fresh_copyD(2)[OF copy] and new = fresh_copyD(4)[OF copy]
  have fin: "finite (dom L)" by (rule scope_treeD(1)[OF tree])
  have domL: "dom L \<subseteq> dom L'" using old dom by (metis domIff lessThan_iff subsetD subsetI)
  have below: "rank p \<le> Max (insert 0 (rank ` dom L))" if "p \<in> dom L" for p
    using that fin by (intro Max_ge) auto
  have facts: "lt_id t = i \<and> (\<forall>p. lt_parent t = Some p \<longrightarrow> p \<in> dom L' \<and> r p < r i) \<and>
      (\<forall>c\<in>set (lt_children t). \<exists>tc. L' c = Some tc \<and> lt_parent tc = Some i)" if i: "L' i = Some t" for i t
  proof (cases "i < n")
    case True
    with i old have t: "L i = Some t" by simp
    have "r p < r i" if "lt_parent t = Some p" for p
      using that rank t True scope_treeD(3)[OF tree t that] dom by (auto simp: r_def)
    moreover have "\<exists>tc. L' c = Some tc \<and> lt_parent tc = Some i" if c: "c \<in> set (lt_children t)" for c
    proof -
      obtain tc where "L c = Some tc" "lt_parent tc = Some i" using scope_treeD(4)[OF tree t c] by blast
      with old dom show ?thesis by (metis domI lessThan_iff subsetD)
    qed
    ultimately show ?thesis using scope_treeD(2,3)[OF tree t] domL by blast
  next
    case False
    with i new have cp: "copied L' n np i t" by simp
    have "p \<in> dom L' \<and> r p < r i" if p: "lt_parent t = Some p" for p
    proof (cases "p < n")
      case True
      with cp p have "np = Some p" by (auto simp: copied_def)
      with np have "p \<in> dom L" by blast
      with True False below[of p] domL show ?thesis by (auto simp: r_def)
    next
      case ge: False
      with cp p np dom have "p < i" "p \<in> dom L'" by (auto simp: copied_def)
      with ge False show ?thesis by (simp add: r_def)
    qed
    with cp show ?thesis by (auto simp: copied_def)
  qed
  have "finite (dom L')" using fresh_copyD(3)[OF copy] by (rule finite_subset) simp
  then show ?thesis using facts by (rule scope_treeI)
qed

lemma enter_scope_duped_total:
  assumes "table_ok n st" and "old \<in> dom (st_all_locals st)"
  shows "\<exists>new L' n'. enter_scope_duped old n st = Some (Inr (new, n', st\<lparr>st_all_locals := L', st_local := Some new\<rparr>)) \<and>
           fresh_copy (st_all_locals st) n (st_local st) L' n' \<and> n \<le> new \<and>
           copy_of (st_all_locals st) (st_local st) L' old new"
proof -
  let ?L = "st_all_locals st"
  have tree: "scope_tree ?L" and dom: "dom ?L \<subseteq> {..<n}" using assms(1) by (auto simp: table_ok_def)
  obtain height :: "node_id \<Rightarrow> nat"
    where "\<forall>i t c. ?L i = Some t \<longrightarrow> c \<in> set (lt_children t) \<longrightarrow> height c < height i"
    using tree by (rule scope_tree_height)
  then have height: "\<forall>i t c. ?L i = Some t \<longrightarrow> c \<in> set (lt_children t) \<longrightarrow> c \<in> dom ?L \<and> height c < height i"
    using scope_treeD(4)[OF tree] by blast
  have "\<exists>new L' n'. dup_scopes ?L n np [old] = Some (Inr (new, L', n')) \<and> fresh_copy ?L n np L' n' \<and>
           list_all2 (copy_of ?L np L') [old] new \<and> (\<forall>j\<in>set new. n \<le> j)" for np
    using assms(2) dom by (intro dup_scopes_total[OF height, where h = "Suc (height old)"]) auto
  moreover have "current_id st = st_local st"
    using assms(1) scope_treeD(2)[OF tree] by (cases "st_local st") (auto simp: current_id_def table_ok_def)
  ultimately show ?thesis using assms(2)
    by (fastforce simp: enter_scope_duped_def list_all2_Cons1)
qed

section \<open>Every operation keeps the invariant\<close>

text \<open>Changes that leave ids and parents alone, and may add a childless scope.\<close>

lemma scope_tree_change:
  assumes tree: "scope_tree L" and dom: "dom L' = dom L"
    and same: "\<And>i t'. L' i = Some t' \<Longrightarrow> \<exists>t. L i = Some t \<and> lt_id t' = lt_id t \<and> lt_parent t' = lt_parent t \<and>
                  set (lt_children t') \<subseteq> set (lt_children t)"
  shows "scope_tree L'"
proof -
  obtain rank :: "node_id \<Rightarrow> nat"
    where rank: "\<forall>i t p. L i = Some t \<longrightarrow> lt_parent t = Some p \<longrightarrow> rank p < rank i"
    using tree by (rule scope_tree_rank)
  have parent: "\<exists>tc'. L' c = Some tc' \<and> lt_parent tc' = lt_parent tc" if c: "L c = Some tc" for c tc
  proof -
    obtain tc' where "L' c = Some tc'" using c dom by blast
    with same[OF this] c show ?thesis by auto
  qed
  show ?thesis
  proof (rule scope_treeI)
    show "finite (dom L')" using dom scope_treeD(1)[OF tree] by simp
    fix i t' assume "L' i = Some t'"
    then obtain t where t: "L i = Some t" "lt_id t' = lt_id t" "lt_parent t' = lt_parent t"
      "set (lt_children t') \<subseteq> set (lt_children t)" using same by blast
    have "\<exists>tc. L' c = Some tc \<and> lt_parent tc = Some i" if "c \<in> set (lt_children t')" for c
      using that t(4) scope_treeD(4)[OF tree t(1), of c] parent by fastforce
    then show "lt_id t' = i \<and> (\<forall>p. lt_parent t' = Some p \<longrightarrow> p \<in> dom L' \<and> rank p < rank i) \<and>
        (\<forall>c\<in>set (lt_children t'). \<exists>tc. L' c = Some tc \<and> lt_parent tc = Some i)"
      using t(2,3) rank t(1) scope_treeD(2,3)[OF tree t(1)] dom by simp
  qed
qed

lemma table_ok_update_local:
  assumes "table_ok n st" and "\<And>t. lt_id (f t) = lt_id t" "\<And>t. lt_parent (f t) = lt_parent t"
    and "\<And>t. lt_children (f t) = lt_children t"
  shows "table_ok n (update_local i f st)"
proof -
  let ?L = "st_all_locals st" and ?L' = "(st_all_locals st)(i := map_option f (st_all_locals st i))"
  have dom: "dom ?L' = dom ?L" by (auto simp: domIff split: if_splits)
  have "scope_tree ?L'"
    by (rule scope_tree_change[OF _ dom]) (use assms in \<open>auto simp: table_ok_def split: if_splits\<close>)
  with assms(1) dom show ?thesis by (simp add: table_ok_def update_local_def)
qed

lemma current_id_ok: "table_ok n st \<Longrightarrow> current_id st = st_local st"
  by (cases "st_local st") (auto simp: current_id_def table_ok_def scope_tree_def)

lemma table_ok_new_scope:
  assumes ok: "table_ok n st" and i: "i < n" "st_all_locals st i = None"
    and new: "local_table_new (st_all_locals st) i (st_local st) = (L, t)"
  shows "table_ok n (st\<lparr>st_all_locals := L(i \<mapsto> t), st_local := Some i\<rparr>)"
proof -
  let ?L0 = "st_all_locals st"
  have tree: "scope_tree ?L0" and dom: "dom ?L0 \<subseteq> {..<n}" and cur: "\<forall>p. st_local st = Some p \<longrightarrow> p \<in> dom ?L0"
    using ok by (auto simp: table_ok_def)
  obtain rank :: "node_id \<Rightarrow> nat"
    where rank: "\<forall>i t p. ?L0 i = Some t \<longrightarrow> lt_parent t = Some p \<longrightarrow> rank p < rank i"
    using tree by (rule scope_tree_rank)
  define r where "r j = (if j = i then Suc (case st_local st of None \<Rightarrow> 0 | Some p \<Rightarrow> rank p) else rank j)" for j
  have t: "lt_id t = i" "lt_parent t = st_local st" "lt_children t = []" using new by (auto simp: local_table_new_def)
  have L: "\<exists>u0. ?L0 j = Some u0 \<and> lt_id u = lt_id u0 \<and> lt_parent u = lt_parent u0 \<and>
      set (lt_children u) \<subseteq> set (lt_children u0) \<union> (if st_local st = Some j then {i} else {})" if "L j = Some u" for j u
    using new that by (auto simp: local_table_new_def split: option.splits if_splits)
  have fwd: "\<exists>u. L j = Some u \<and> lt_parent u = lt_parent u0" if "?L0 j = Some u0" for j u0
    using new that by (auto simp: local_table_new_def split: option.splits if_splits)
  have domL: "dom L = dom ?L0" using L fwd by blast
  have "scope_tree (L(i \<mapsto> t))"
  proof (rule scope_treeI[where rank = r])
    show "finite (dom (L(i \<mapsto> t)))" using scope_treeD(1)[OF tree] domL by simp
    fix j u assume j: "(L(i \<mapsto> t)) j = Some u"
    show "lt_id u = j \<and> (\<forall>p. lt_parent u = Some p \<longrightarrow> p \<in> dom (L(i \<mapsto> t)) \<and> r p < r j) \<and>
        (\<forall>c\<in>set (lt_children u). \<exists>tc. (L(i \<mapsto> t)) c = Some tc \<and> lt_parent tc = Some j)"
    proof (cases "j = i")
      case True
      with j t cur domL i(2) show ?thesis by (auto simp: r_def)
    next
      case False
      with j obtain u0 where u0: "?L0 j = Some u0" "lt_id u = lt_id u0" "lt_parent u = lt_parent u0"
        "set (lt_children u) \<subseteq> set (lt_children u0) \<union> (if st_local st = Some j then {i} else {})"
        using L[of j u] by (metis fun_upd_other)
      have "\<exists>tc. (L(i \<mapsto> t)) c = Some tc \<and> lt_parent tc = Some j" if c: "c \<in> set (lt_children u)" for c
      proof (cases "c = i")
        case True
        have "i \<notin> set (lt_children u0)" using scope_treeD(4)[OF tree u0(1)] i(2) by fastforce
        with c u0(4) True t show ?thesis by (auto split: if_splits)
      next
        case ne: False
        with c u0(4) have "c \<in> set (lt_children u0)" by (auto split: if_splits)
        with scope_treeD(4)[OF tree u0(1)] fwd ne show ?thesis by fastforce
      qed
      moreover have "p \<in> dom (L(i \<mapsto> t)) \<and> r p < r j" if "lt_parent u = Some p" for p
        using that u0 rank False scope_treeD(3)[OF tree u0(1)] i(2) domL by (auto simp: r_def)
      ultimately show ?thesis using u0(2) scope_treeD(2)[OF tree u0(1)] by simp
    qed
  qed
  then show ?thesis using dom domL i(1) by (auto simp: table_ok_def)
qed

section \<open>Reachable tables\<close>

text \<open>
  A state is a symbol table with the counter of the \<^verbatim>\<open>NodeBuilder\<close>.  Scopes are entered with ids of the syntax
  tree, which the builder handed out before.  An operation that fails leaves the table as it was.
\<close>

inductive table_step ::
  "node_id \<times> ('f, 'c, 'i) symbol_table \<Rightarrow> node_id \<times> ('f, 'c, 'i) symbol_table \<Rightarrow> bool" where
  step_next_id: "table_step (n, st) (Suc n, st)"
| step_enter: "(\<And>i. oid = Some i \<Longrightarrow> i < n) \<Longrightarrow> enter_scope oid st = Inr st' \<Longrightarrow> table_step (n, st) (n, st')"
| step_enter_existing: "enter_existing_scope oid st = Inr st' \<Longrightarrow> table_step (n, st) (n, st')"
| step_enter_parent: "enter_parent st = Inr st' \<Longrightarrow> table_step (n, st) (n, st')"
| step_dup: "enter_scope_duped old n st = Some (Inr (new, n', st')) \<Longrightarrow> table_step (n, st) (n', st')"
| step_local_const: "table_step (n, st) (n, insert_local_const name e st)"
| step_variable: "insert_variable prog path var st = Some (Inr st') \<Longrightarrow> table_step (n, st) (n, st')"
| step_local_type: "set_local_type name ty st = Some (b, st') \<Longrightarrow> table_step (n, st) (n, st')"
| step_reset: "table_step (n, st) (n, reset_but_consts st)"
| step_import: "table_step (n, st) (n, add_import p q st)"
| step_imported_by: "table_step (n, st) (n, add_imported_by p qs st)"
| step_library: "table_step (n, st) (n, add_as_library l st)"
| step_struct: "insert_struct loc c st = Inr st' \<Longrightarrow> table_step (n, st) (n, st')"
| step_record: "insert_record loc c st = Inr st' \<Longrightarrow> table_step (n, st) (n, st')"
| step_function: "insert_function loc f st = Inr st' \<Longrightarrow> table_step (n, st) (n, st')"
| step_interface: "insert_interface loc i st = Inr st' \<Longrightarrow> table_step (n, st) (n, st')"
| step_global: "insert_global loc var st = Inr st' \<Longrightarrow> table_step (n, st) (n, st')"
| step_global_const: "table_step (n, st) (n, insert_global_const loc e st)"
| step_global_type: "set_global_type loc ty st = (b, st') \<Longrightarrow> table_step (n, st) (n, st')"
| step_finalizer: "attach_finalizer caller callee fs tys st = Inr st' \<Longrightarrow> table_step (n, st) (n, st')"

inductive reachable :: "node_id \<times> ('f, 'c, 'i) symbol_table \<Rightarrow> bool" where
  reachable_default: "reachable (0, symbol_table_default)"
| reachable_step: "reachable s \<Longrightarrow> table_step s s' \<Longrightarrow> reachable s'"

lemma table_ok_same_locals:
  "table_ok n st \<Longrightarrow> st_all_locals st' = st_all_locals st \<Longrightarrow> st_local st' = st_local st \<Longrightarrow> table_ok n st'"
  by (simp add: table_ok_def)

lemma table_ok_move:
  "table_ok n st \<Longrightarrow> (\<And>i. l = Some i \<Longrightarrow> i \<in> dom (st_all_locals st)) \<Longrightarrow> table_ok n (st\<lparr>st_local := l\<rparr>)"
  by (simp add: table_ok_def)

lemma table_ok_enter_scope:
  assumes ok: "table_ok n st" and i: "\<And>i. oid = Some i \<Longrightarrow> i < n" and st': "enter_scope oid st = Inr st'"
  shows "table_ok n st'"
proof (cases oid)
  case None
  with st' ok show ?thesis by (auto simp: enter_scope_def intro: table_ok_move)
next
  case (Some k)
  show ?thesis
  proof (cases "st_all_locals st k")
    case None
    obtain L t where new: "local_table_new (st_all_locals st) k (st_local st) = (L, t)" by fastforce
    have "st' = st\<lparr>st_all_locals := L(k \<mapsto> t), st_local := Some k\<rparr>"
      using st' Some None new current_id_ok[OF ok] by (auto simp: enter_scope_def split: if_splits)
    then show ?thesis using table_ok_new_scope[OF ok i[OF Some] None new] by simp
  next
    case (Some t)
    with st' \<open>oid = Some k\<close> have "st' = st\<lparr>st_local := Some k\<rparr>"
      by (auto simp: enter_scope_def Let_def split: if_splits)
    then show ?thesis using ok Some by (auto intro: table_ok_move)
  qed
qed

lemma table_ok_enter_parent: "table_ok n st \<Longrightarrow> \<exists>st'. enter_parent st = Inr st' \<and> table_ok n st'"
proof -
  assume ok: "table_ok n st"
  show ?thesis
  proof (cases "Option.bind (st_local st) (\<lambda>i. Option.bind (st_all_locals st i) lt_parent)")
    case None
    then show ?thesis using ok by (auto simp: enter_parent_def intro: table_ok_move)
  next
    case (Some p)
    then obtain i t where "st_all_locals st i = Some t" "lt_parent t = Some p" by (auto simp: bind_eq_Some_conv)
    then have "p \<in> dom (st_all_locals st)" using ok scope_treeD(3) by (fastforce simp: table_ok_def)
    moreover from this ok have "table_ok n (st\<lparr>st_local := Some p\<rparr>)" by (intro table_ok_move) auto
    ultimately show ?thesis using Some by (auto simp: enter_parent_def)
  qed
qed

lemma table_ok_dup:
  assumes ok: "table_ok n st" and dup: "enter_scope_duped old n st = Some (Inr (new, n', st'))"
  shows "table_ok n' st'"
proof -
  have "old \<in> dom (st_all_locals st)" using dup by (auto simp: enter_scope_duped_def split: if_splits)
  from enter_scope_duped_total[OF ok this] dup obtain L' where
    st': "st' = st\<lparr>st_all_locals := L', st_local := Some new\<rparr>"
    and copy: "fresh_copy (st_all_locals st) n (st_local st) L' n'"
    and new: "copy_of (st_all_locals st) (st_local st) L' old new" by auto
  have "scope_tree L'"
    by (rule scope_tree_dup[OF _ _ _ copy]) (use ok in \<open>auto simp: table_ok_def\<close>)
  then show ?thesis using st' new fresh_copyD(3)[OF copy] by (auto simp: table_ok_def copy_of_def)
qed

lemma table_ok_step: "table_step s s' \<Longrightarrow> table_ok (fst s) (snd s) \<Longrightarrow> table_ok (fst s') (snd s')"
proof (induction rule: table_step.induct)
  case (step_next_id n st)
  then show ?case by (auto simp: table_ok_def)
next
  case (step_enter oid n st st')
  then show ?case by (auto intro: table_ok_enter_scope)
next
  case (step_enter_existing oid st st' n)
  then show ?case by (auto simp: enter_existing_scope_def split: option.splits if_splits intro: table_ok_move)
next
  case (step_enter_parent st st' n)
  then show ?case using table_ok_enter_parent[of n st] by auto
next
  case (step_dup old n st new n' st')
  then show ?case using table_ok_dup by simp
next
  case (step_local_const n st name e)
  then show ?case by (auto simp: insert_local_const_def intro!: table_ok_update_local split: option.splits)
next
  case (step_variable prog path var st st' n)
  then show ?case
    by (auto simp: insert_variable_def bind_res_eq_Inr intro!: table_ok_update_local
             split: option.splits list.splits intro: table_ok_same_locals)
next
  case (step_local_type name ty st b st' n)
  then show ?case
    by (auto simp: set_local_type_def intro!: table_ok_update_local split: option.splits)
next
  case (step_reset n st)
  let ?L = "st_all_locals st" and ?f = "\<lambda>t. t\<lparr>lt_variables := Map.empty\<rparr>"
  have dom: "dom (\<lambda>i. map_option ?f (?L i)) = dom ?L" by (auto simp: domIff)
  have "scope_tree (\<lambda>i. map_option ?f (?L i))"
    by (rule scope_tree_change[OF _ dom]) (use step_reset in \<open>auto simp: table_ok_def\<close>)
  with step_reset dom show ?case by (simp add: table_ok_def reset_but_consts_def)
next
  case (step_imported_by n st p qs)
  have "st_all_locals (fold (\<lambda>q. add_import q p) qs st) = st_all_locals st \<and>
      st_local (fold (\<lambda>q. add_import q p) qs st) = st_local st"
    by (induction qs arbitrary: st) (auto simp: add_import_def)
  with step_imported_by show ?case by (auto simp: add_imported_by_def intro: table_ok_same_locals)
qed (auto simp: add_import_def add_as_library_def insert_struct_def insert_record_def insert_function_def
       insert_interface_def insert_global_def insert_global_const_def set_global_type_def attach_finalizer_def
       map_res_eq_Inr split: option.splits if_splits intro: table_ok_same_locals)

lemma reachable_ok: "reachable s \<Longrightarrow> table_ok (fst s) (snd s)"
proof (induction rule: reachable.induct)
  case reachable_default
  show ?case by (simp add: table_ok_def symbol_table_default_def scope_tree_def)
qed (rule table_ok_step)

end
