(* ===== verification/Scoped_Names.thy ===== *)
theory Scoped_Names
  imports Main
begin

text \<open>
  The contract of nested scopes, which the compiler implements twice: by the scope tree of the symbol
  table and by the chained rename tables of static single assignment.  A client enters a scope, binds
  names in it and leaves it again; bindings are visible inside, inner ones hide outer ones, and
  leaving the scope restores what was visible before.
\<close>

locale nested_scopes =
  fixes invar :: "'s \<Rightarrow> bool"
    and inside :: "'s \<Rightarrow> bool"
    and enter :: "'s \<Rightarrow> 's"
    and leave :: "'s \<Rightarrow> 's"
    and binding :: "'k \<Rightarrow> 'v \<Rightarrow> 's \<Rightarrow> 's"
    and look :: "'s \<Rightarrow> 'k \<Rightarrow> 'v option"
  assumes enter_ok: "invar s \<Longrightarrow> invar (enter s) \<and> inside (enter s)"
    and binding_ok: "invar s \<Longrightarrow> inside s \<Longrightarrow> invar (binding k v s) \<and> inside (binding k v s)"
    and look_enter: "invar s \<Longrightarrow> look (enter s) k = look s k"
    and look_binding: "invar s \<Longrightarrow> inside s \<Longrightarrow> look (binding k v s) k' = (if k' = k then Some v else look s k')"
    and look_leave_enter: "invar s \<Longrightarrow> look (leave (enter s)) k = look s k"
    and look_leave_binding: "invar s \<Longrightarrow> inside s \<Longrightarrow> look (leave (binding k v s)) k' = look (leave s) k'"
begin

definition bind_all :: "('k \<times> 'v) list \<Rightarrow> 's \<Rightarrow> 's" where
  "bind_all kvs s = fold (\<lambda>(k, v). binding k v) kvs s"

lemma bind_all_simps [simp]:
  "bind_all [] s = s"
  "bind_all ((k, v) # kvs) s = bind_all kvs (binding k v s)"
  by (simp_all add: bind_all_def)

lemma bind_all_ok: "invar s \<Longrightarrow> inside s \<Longrightarrow> invar (bind_all kvs s) \<and> inside (bind_all kvs s)"
  by (induction kvs arbitrary: s) (auto simp: binding_ok)

lemma look_bind_all:
  "invar s \<Longrightarrow> inside s \<Longrightarrow>
     look (bind_all kvs s) k = (case map_of (rev kvs) k of Some v \<Rightarrow> Some v | None \<Rightarrow> look s k)"
  by (induction kvs arbitrary: s) (auto simp: binding_ok look_binding map_add_def split: option.splits)

lemma look_leave_bind_all:
  "invar s \<Longrightarrow> inside s \<Longrightarrow> look (leave (bind_all kvs s)) k = look (leave s) k"
  by (induction kvs arbitrary: s) (auto simp: binding_ok look_leave_binding)

lemma block_inside:
  "invar s \<Longrightarrow>
     look (bind_all kvs (enter s)) k = (case map_of (rev kvs) k of Some v \<Rightarrow> Some v | None \<Rightarrow> look s k)"
  using enter_ok[of s] by (simp add: look_bind_all look_enter split: option.split)

lemma block_outside: "invar s \<Longrightarrow> look (leave (bind_all kvs (enter s))) k = look s k"
  using enter_ok[of s] by (simp add: look_leave_bind_all look_leave_enter)

end

end
