(* ===== verification/Scope_Contract.thy ===== *)
theory Scope_Contract
  imports Scope_Invariant Scoped_Names
begin

text \<open>
  The local scopes of the symbol table implement the contract of nested scopes.  The state of the
  interface is a symbol table together with the counter of the \<^verbatim>\<open>NodeBuilder\<close>; a scope is entered with
  the next id.
\<close>

section \<open>Walking outwards\<close>

lemma scope_chain_induct [consumes 2, case_names top scope]:
  assumes "scope_tree L" and "\<forall>i. cur = Some i \<longrightarrow> i \<in> dom L"
    and "P None" and "\<And>i t. L i = Some t \<Longrightarrow> P (lt_parent t) \<Longrightarrow> P (Some i)"
  shows "P cur"
proof -
  obtain rank :: "node_id \<Rightarrow> nat"
    where rank: "\<forall>i t p. L i = Some t \<longrightarrow> lt_parent t = Some p \<longrightarrow> rank p < rank i"
    using assms(1) by (rule scope_tree_rank)
  have "i \<in> dom L \<Longrightarrow> P (Some i)" for i
  proof (induction "rank i" arbitrary: i rule: less_induct)
    case less
    then obtain t where t: "L i = Some t" by blast
    have "P (lt_parent t)"
      using less(1) rank t scope_treeD(3)[OF assms(1) t] assms(3) by (cases "lt_parent t") auto
    with t show ?case by (rule assms(4))
  qed
  then show ?thesis using assms(2,3) by (cases cur) auto
qed

text \<open>A walk only depends on the scopes of a set that contains the start and is closed under parents.\<close>

lemma walk_scopes_cong:
  assumes "scope_tree L" and "\<And>i. cur = Some i \<Longrightarrow> i \<in> S" and "S \<subseteq> dom L"
    and closed: "\<And>i t p. i \<in> S \<Longrightarrow> L i = Some t \<Longrightarrow> lt_parent t = Some p \<Longrightarrow> p \<in> S"
    and agree: "\<And>i t. i \<in> S \<Longrightarrow> L i = Some t \<Longrightarrow> \<exists>t'. L' i = Some t' \<and> lt_parent t' = lt_parent t \<and> f t' = f t"
  shows "walk_scopes L' missing f cur = walk_scopes L missing f cur"
proof -
  have cur: "\<forall>i. cur = Some i \<longrightarrow> i \<in> dom L" using assms(2,3) by blast
  have "(\<forall>i. cur = Some i \<longrightarrow> i \<in> S) \<longrightarrow> walk_scopes L' missing f cur = walk_scopes L missing f cur"
    using assms(1) cur
  proof (induction rule: scope_chain_induct)
    case (scope i t)
    show ?case
    proof
      assume "\<forall>j. Some i = Some j \<longrightarrow> j \<in> S"
      then have i: "i \<in> S" by simp
      then obtain t' where "L' i = Some t'" "lt_parent t' = lt_parent t" "f t' = f t"
        using agree scope(1) by blast
      with scope i closed show "walk_scopes L' missing f (Some i) = walk_scopes L missing f (Some i)"
        by (auto split: option.split)
    qed
  qed simp
  then show ?thesis using assms(2) by simp
qed

lemma walk_scopes_update:
  assumes "scope_tree L" and "\<And>i. cur = Some i \<Longrightarrow> i \<in> dom L"
    and "\<And>t. L i = Some t \<Longrightarrow> lt_parent (g t) = lt_parent t \<and> f (g t) = f t"
  shows "walk_scopes (L(i := map_option g (L i))) missing f cur = walk_scopes L missing f cur"
  using assms by (intro walk_scopes_cong[where S = "dom L"]) (auto dest: scope_treeD(3))

text \<open>A change to a scope is not seen from its parent.\<close>

lemma walk_scopes_update_parent:
  assumes tree: "scope_tree L" and t: "L i = Some t"
  shows "walk_scopes (L(i \<mapsto> u)) missing f (lt_parent t) = walk_scopes L missing f (lt_parent t)"
proof -
  obtain rank :: "node_id \<Rightarrow> nat"
    where rank: "\<forall>i t p. L i = Some t \<longrightarrow> lt_parent t = Some p \<longrightarrow> rank p < rank i"
    using tree by (rule scope_tree_rank)
  have p: "p \<in> dom L \<and> rank p < rank j" if "L j = Some u" "lt_parent u = Some p" for j u p
    using that rank scope_treeD(3)[OF tree] by blast
  show ?thesis
  proof (rule walk_scopes_cong[OF tree, where S = "{j \<in> dom L. rank j < rank i}"])
    fix j u q assume "j \<in> {j \<in> dom L. rank j < rank i}" "L j = Some u" "lt_parent u = Some q"
    with p[of j u q] show "q \<in> {j \<in> dom L. rank j < rank i}" by simp
  next
    fix j u' assume "j \<in> {j \<in> dom L. rank j < rank i}" "L j = Some u'"
    then show "\<exists>t'. (L(i \<mapsto> u)) j = Some t' \<and> lt_parent t' = lt_parent u' \<and> f t' = f u'" by auto
  qed (use p[OF t] in auto)
qed

section \<open>The constants of a scope\<close>

definition scope_enter :: "node_id \<times> ('f, 'c, 'i) symbol_table \<Rightarrow> node_id \<times> ('f, 'c, 'i) symbol_table" where
  "scope_enter s = (Suc (fst s), projr (enter_scope (Some (fst s)) (snd s)))"

definition scope_leave :: "node_id \<times> ('f, 'c, 'i) symbol_table \<Rightarrow> node_id \<times> ('f, 'c, 'i) symbol_table" where
  "scope_leave s = (fst s, projr (enter_parent (snd s)))"

definition scope_bind ::
  "symbol \<Rightarrow> expression \<Rightarrow> node_id \<times> ('f, 'c, 'i) symbol_table \<Rightarrow> node_id \<times> ('f, 'c, 'i) symbol_table" where
  "scope_bind name e s = (fst s, insert_local_const name e (snd s))"

definition scope_look :: "node_id \<times> ('f, 'c, 'i) symbol_table \<Rightarrow> symbol \<Rightarrow> expression option" where
  "scope_look s name = the (lookup_local_const (snd s) name)"

definition scope_invar :: "node_id \<times> ('f, 'c, 'i) symbol_table \<Rightarrow> bool" where
  "scope_invar s \<longleftrightarrow> table_ok (fst s) (snd s)"

definition scope_inside :: "node_id \<times> ('f, 'c, 'i) symbol_table \<Rightarrow> bool" where
  "scope_inside s \<longleftrightarrow> st_local (snd s) \<noteq> None"

lemma table_ok_current:
  "table_ok n st \<Longrightarrow> st_local st = Some i \<Longrightarrow> \<exists>t. st_all_locals st i = Some t \<and> lt_id t = i"
  by (auto simp: table_ok_def scope_tree_def)

lemma table_ok_tree:
  "table_ok n st \<Longrightarrow> scope_tree (st_all_locals st)"
  "table_ok n st \<Longrightarrow> st_local st = Some i \<Longrightarrow> i \<in> dom (st_all_locals st)"
  by (auto simp: table_ok_def)

lemma table_ok_fresh: "table_ok n st \<Longrightarrow> n \<le> i \<Longrightarrow> st_all_locals st i = None"
  by (fastforce simp: table_ok_def)

lemma table_ok_Suc: "table_ok n st \<Longrightarrow> table_ok (Suc n) st"
  by (auto simp: table_ok_def)

text \<open>A new scope is empty, and everything outside stays as it is.\<close>

lemma enter_scope_fresh:
  assumes ok: "table_ok n st"
  shows "\<exists>st' t. enter_scope (Some n) st = Inr st' \<and> table_ok (Suc n) st' \<and> st_local st' = Some n \<and>
           st_all_locals st' n = Some t \<and> lt_parent t = st_local st \<and> lt_consts t = Map.empty \<and>
           lt_variables t = Map.empty \<and>
           (\<forall>i u. st_all_locals st i = Some u \<longrightarrow>
              (\<exists>u'. st_all_locals st' i = Some u' \<and> lt_parent u' = lt_parent u \<and> lt_consts u' = lt_consts u \<and>
                    lt_variables u' = lt_variables u))"
proof -
  note new = table_ok_fresh[OF ok order.refl]
  obtain L t where L: "local_table_new (st_all_locals st) n (st_local st) = (L, t)" by fastforce
  then have t: "t = \<lparr>lt_id = n, lt_parent = st_local st, lt_children = [], lt_consts = Map.empty, lt_variables = Map.empty\<rparr>"
    by (simp add: local_table_new_def)
  let ?st = "st\<lparr>st_all_locals := L(n \<mapsto> t), st_local := Some n\<rparr>"
  have e: "enter_scope (Some n) st = Inr ?st"
    using L t new current_id_ok[OF ok] by (simp add: enter_scope_def)
  have "\<exists>u'. L i = Some u' \<and> lt_parent u' = lt_parent u \<and> lt_consts u' = lt_consts u \<and> lt_variables u' = lt_variables u"
    if "st_all_locals st i = Some u" for i u
    using that L by (auto simp: local_table_new_def split: option.splits)
  moreover have "i \<noteq> n" if "st_all_locals st i = Some u" for i u using that new by auto
  moreover have "table_ok (Suc n) ?st"
    by (rule table_ok_enter_scope[OF table_ok_Suc[OF ok] _ e]) simp
  ultimately show ?thesis using e t by auto
qed

lemma walk_fresh_scope:
  assumes ok: "table_ok n st" and e: "enter_scope (Some n) st = Inr st'"
    and f: "\<And>t t'. lt_consts t' = lt_consts t \<Longrightarrow> lt_variables t' = lt_variables t \<Longrightarrow> f t' = f t"
  shows "walk_scopes (st_all_locals st') missing f (st_local st) = walk_scopes (st_all_locals st) missing f (st_local st)"
proof (rule walk_scopes_cong[where S = "dom (st_all_locals st)"])
  fix i t assume "st_all_locals st i = Some t"
  with enter_scope_fresh[OF ok] e obtain t' where "st_all_locals st' i = Some t'" "lt_parent t' = lt_parent t"
    "lt_consts t' = lt_consts t" "lt_variables t' = lt_variables t" by auto
  with f show "\<exists>t'. st_all_locals st' i = Some t' \<and> lt_parent t' = lt_parent t \<and> f t' = f t" by blast
qed (use ok in \<open>auto simp: table_ok_def dest: scope_treeD(3)\<close>)

lemma enter_parent_lookup:
  assumes ok: "table_ok n st" and i: "st_local st = Some i" "st_all_locals st i = Some t"
  shows "enter_parent st = Inr (st\<lparr>st_local := lt_parent t\<rparr>)"
  using i scope_treeD(3)[OF table_ok_tree(1)[OF ok] i(2)]
  by (auto simp: enter_parent_def split: option.splits)

lemmas scope_ops = scope_enter_def scope_leave_def scope_bind_def scope_look_def scope_invar_def scope_inside_def

interpretation table_scopes: nested_scopes
  "scope_invar :: node_id \<times> ('f, 'c, 'i) symbol_table \<Rightarrow> bool" scope_inside scope_enter scope_leave scope_bind scope_look
proof
  fix s :: "node_id \<times> ('f, 'c, 'i) symbol_table" and k k' v
  obtain n st where s: "s = (n, st)" by fastforce
  show "scope_invar (scope_enter s) \<and> scope_inside (scope_enter s)"
    and "scope_look (scope_enter s) k = scope_look s k"
    and "scope_look (scope_leave (scope_enter s)) k = scope_look s k" if "scope_invar s"
  proof -
    have ok: "table_ok n st" using that s by (simp add: scope_ops)
    from enter_scope_fresh[OF ok] obtain st' t where e: "enter_scope (Some n) st = Inr st'" "table_ok (Suc n) st'"
      "st_local st' = Some n" "st_all_locals st' n = Some t" "lt_parent t = st_local st" "lt_consts t = Map.empty"
      by blast
    note w = walk_fresh_scope[OF ok e(1), of "\<lambda>t. lt_consts t k"]
    from e show "scope_invar (scope_enter s) \<and> scope_inside (scope_enter s)" by (simp add: scope_ops s)
    from e w show "scope_look (scope_enter s) k = scope_look s k"
      by (simp add: scope_ops s lookup_local_const_def)
    from e w enter_parent_lookup[OF e(2-4)] show "scope_look (scope_leave (scope_enter s)) k = scope_look s k"
      by (simp add: scope_ops s lookup_local_const_def)
  qed
  show "scope_invar (scope_bind k v s) \<and> scope_inside (scope_bind k v s)"
    and "scope_look (scope_bind k v s) k' = (if k' = k then Some v else scope_look s k')"
    and "scope_look (scope_leave (scope_bind k v s)) k' = scope_look (scope_leave s) k'"
    if inv: "scope_invar s" and ins: "scope_inside s"
  proof -
    have ok: "table_ok n st" using inv s by (simp add: scope_ops)
    obtain i where i: "st_local st = Some i" using ins s by (auto simp: scope_ops)
    then obtain t where t: "st_all_locals st i = Some t" using table_ok_current[OF ok] by blast
    let ?t = "t\<lparr>lt_consts := (lt_consts t)(k \<mapsto> v)\<rparr>"
    let ?st = "st\<lparr>st_all_locals := (st_all_locals st)(i \<mapsto> ?t)\<rparr>"
    have b: "insert_local_const k v st = ?st" using i t by (simp add: insert_local_const_def update_local_def)
    have ok': "table_ok n ?st"
      using table_ok_step[OF step_local_const, of n st k v] ok b by simp
    then show "scope_invar (scope_bind k v s) \<and> scope_inside (scope_bind k v s)" using b i by (simp add: scope_ops s)
    note tree = table_ok_tree(1)[OF ok]
    have "walk_scopes (st_all_locals ?st) None (\<lambda>t. lt_consts t k') (Some i) =
        (if k' = k then Some (Some v) else walk_scopes (st_all_locals st) None (\<lambda>t. lt_consts t k') (Some i))"
      using walk_scopes_update_parent[OF tree t, of ?t None "\<lambda>t. lt_consts t k'"] t by (simp split: option.split)
    then show "scope_look (scope_bind k v s) k' = (if k' = k then Some v else scope_look s k')"
      using b i by (simp add: scope_ops s lookup_local_const_def)
    show "scope_look (scope_leave (scope_bind k v s)) k' = scope_look (scope_leave s) k'"
      using enter_parent_lookup[OF ok i t] enter_parent_lookup[OF ok', of i ?t] i b
        walk_scopes_update_parent[OF tree t, of ?t None "\<lambda>t. lt_consts t k'"]
      by (simp add: scope_ops s lookup_local_const_def)
  qed
qed

end
