(* ===== verification/Symbol_Table_Props.thy ===== *)
theory Symbol_Table_Props
  imports Scope_Contract
begin

text \<open>
  The properties of the symbol table: the scope invariant in every reachable state, variables and
  shadowing, duplication of scopes, resetting, and the import closure.
\<close>

section \<open>Scopes\<close>

lemma table_ok_walk:
  assumes "table_ok n st"
  shows "\<exists>r. walk_scopes (st_all_locals st) missing f (st_local st) = Some r \<and>
           (r = None \<or> (\<exists>t\<in>ran (st_all_locals st). f t = r))"
  using assms by (intro walk_scopes_total) (auto simp: table_ok_def)

lemma table_ok_walk_ends:
  "table_ok n st \<Longrightarrow> \<exists>r. walk_scopes (st_all_locals st) missing f (st_local st) = Some r"
  using table_ok_walk by blast

lemma insert_variable_ends:
  assumes "table_ok n st"
  shows "\<exists>r. insert_variable prog path var st = Some r \<and> r \<noteq> Inl (Table_Panic ''Parent should exist.'')"
proof -
  let ?f = "\<lambda>t. case path of
             [name] \<Rightarrow> if lt_variables t name \<noteq> None then Some (Name_Defined_Multiple_Times name) else None
           | _ \<Rightarrow> None"
  obtain r where r: "walk_scopes (st_all_locals st) (Some (Table_Panic ''Parent should exist.''))
      ?f (st_local st) = Some r"
    and found: "r = None \<or> (\<exists>t\<in>ran (st_all_locals st). ?f t = r)"
    using table_ok_walk[OF assms] by meson
  have "?f t \<noteq> Some (Table_Panic ''Parent should exist.'')" for t
    by (simp split: list.split)
  then have "r \<noteq> Some (Table_Panic ''Parent should exist.'')" using found by fastforce
  then show ?thesis using r
    by (auto simp: insert_variable_def check_shadow_variable_def check_shadow_global_def split: option.splits list.splits)
qed

text \<open>
  Property C30.  In every state that a sequence of operations reaches from the empty table, looking up a
  variable or a constant, checking an ancestor scope and searching child scopes all terminate,
  leaving a scope never panics, and inserting a variable ends without the panic for a missing parent.
\<close>

theorem reachable_scopes_sound:
  assumes "reachable (n, st)"
  shows "(\<exists>r. lookup_local st name = Some r) \<and> (\<exists>r. lookup_local_const st name = Some r) \<and>
         (\<exists>b. is_defined_in_scope_or_ancestor_until st scope name = Some b) \<and>
         (\<exists>b. is_local_to_or_in_child_scope st scope name = Some b) \<and>
         (\<exists>st'. enter_parent st = Inr st') \<and>
         (\<exists>r. insert_variable prog path var st = Some r \<and> r \<noteq> Inl (Table_Panic ''Parent should exist.''))"
proof -
  have ok: "table_ok n st" using reachable_ok[OF assms] by simp
  then have "\<exists>b. is_local_to_or_in_child_scope st scope name = Some b"
    unfolding is_local_to_or_in_child_scope_def by (intro search_children_total) (simp add: table_ok_def)
  then show ?thesis
    using table_ok_enter_parent[OF ok] insert_variable_ends[OF ok] table_ok_walk_ends[OF ok]
      table_ok_walk_ends[OF ok, where f = "\<lambda>t. lt_consts t name"]
      table_ok_walk_ends[OF ok, where f = "\<lambda>t. if lt_variables t name \<noteq> None then Some True
                                             else if lt_id t = scope then Some False else None"]
    by (auto simp: lookup_local_def lookup_local_const_def is_defined_in_scope_or_ancestor_until_def)
qed

text \<open>A function scope with a block inside it, built by the operations.\<close>

definition nested_table :: "(unit, unit, unit) symbol_table" where
  "nested_table = projr (bind_res (enter_scope (Some 0) symbol_table_default) (enter_scope (Some 1)))"

lemma nested_table_reachable: "reachable (2, nested_table)"
proof -
  let ?st = "symbol_table_default :: (unit, unit, unit) symbol_table"
  have "reachable (2, ?st)"
    using reachable_step[OF reachable_step[OF reachable_default step_next_id] step_next_id]
    by (simp add: numeral_2_eq_2)
  moreover have s1: "enter_scope (Some 0) ?st = Inr (projr (enter_scope (Some 0) ?st))"
    and "enter_scope (Some 1) (projr (enter_scope (Some 0) ?st)) = Inr nested_table"
    by (simp_all add: nested_table_def enter_scope_def current_id_def local_table_new_def symbol_table_default_def)
  moreover have enter: "reachable (2, st')" if "reachable (2, st)" "enter_scope (Some k) st = Inr st'" "k < 2"
    for k and st st' :: "(unit, unit, unit) symbol_table"
    using reachable_step[OF that(1) step_enter[of "Some k"]] that by simp
  ultimately show ?thesis by (meson one_less_numeral_iff semiring_norm(76) zero_less_numeral)
qed

theorem reachable_scopes_sound_witness: "\<exists>st'. enter_parent nested_table = Inr st'"
  using reachable_scopes_sound[OF nested_table_reachable] by blast

text \<open>
  Property C31.  Constants are block scoped: in a scope entered with the next id, every name looks up to its last
  binding made in that scope and otherwise to what it meant outside; leaving the scope restores
  every lookup.
\<close>

theorem local_consts_are_block_scoped:
  assumes "reachable (n, st)"
  shows "\<exists>st1 st3. enter_scope (Some n) st = Inr st1 \<and>
           enter_parent (fold (\<lambda>(k, v). insert_local_const k v) kvs st1) = Inr st3 \<and>
           lookup_local_const (fold (\<lambda>(k, v). insert_local_const k v) kvs st1) x =
             (case map_of (rev kvs) x of Some v \<Rightarrow> Some (Some v) | None \<Rightarrow> lookup_local_const st x) \<and>
           lookup_local_const st3 x = lookup_local_const st x"
proof -
  have ok: "table_ok n st" using reachable_ok[OF assms] by simp
  obtain st1 where st1: "enter_scope (Some n) st = Inr st1" "table_ok (Suc n) st1" "st_local st1 = Some n"
    using enter_scope_fresh[OF ok] by blast
  let ?st2 = "fold (\<lambda>(k, v). insert_local_const k v) kvs st1"
  have all: "table_scopes.bind_all kvs (m, st') = (m, fold (\<lambda>(k, v). insert_local_const k v) kvs st')" for m st'
    by (induction kvs arbitrary: st') (auto simp: scope_ops)
  have s: "scope_enter (n, st) = (Suc n, st1)" "scope_invar (n, st)" using st1 ok by (simp_all add: scope_ops)
  have ok2: "table_ok (Suc n) ?st2"
    using table_scopes.bind_all_ok[of "(Suc n, st1)" kvs] st1 by (simp add: all scope_ops)
  from table_ok_enter_parent[OF ok2] obtain st3 where st3: "enter_parent ?st2 = Inr st3" "table_ok (Suc n) st3"
    by blast
  have ends: "lookup_local_const st' x = Some (scope_look (m, st') x)" if "table_ok m st'" for m st'
    using table_ok_walk_ends[OF that, of None "\<lambda>t. lt_consts t x"]
    by (auto simp: scope_ops lookup_local_const_def)
  have "scope_look (Suc n, ?st2) x = (case map_of (rev kvs) x of Some v \<Rightarrow> Some v | None \<Rightarrow> scope_look (n, st) x)"
    using table_scopes.block_inside[OF s(2), of kvs x] by (simp add: s(1) all)
  moreover have "scope_look (Suc n, st3) x = scope_look (n, st) x"
    using table_scopes.block_outside[OF s(2), of kvs x] st3(1) by (simp add: s(1) all scope_leave_def)
  ultimately show ?thesis using st1(1) st3(1) ends[OF ok] ends[OF ok2] ends[OF st3(2)]
    by (auto split: option.splits)
qed

theorem local_consts_are_block_scoped_witness:
  "\<exists>st1. enter_scope (Some 2) nested_table = Inr st1"
  using local_consts_are_block_scoped[OF nested_table_reachable] by blast

section \<open>Variables\<close>

lemma walk_shadow:
  assumes "scope_tree L" and "\<forall>i. cur = Some i \<longrightarrow> i \<in> dom L"
  shows "walk_scopes L missing (\<lambda>t. if lt_variables t name \<noteq> None then Some e else None) cur =
           map_option (map_option (\<lambda>_. e)) (walk_scopes L None (\<lambda>t. lt_variables t name) cur)"
  using assms by (induction rule: scope_chain_induct) (auto split: option.split)

lemma insert_variable_simps:
  assumes ok: "table_ok n st"
  shows "insert_variable prog [name] var st =
     (if lookup_local st name \<noteq> Some None \<or> check_shadow_global st \<lparr>loc_program = prog, loc_path = [name]\<rparr> \<noteq> Inr ()
      then Some (Inl (Name_Defined_Multiple_Times name))
      else Some (Inr (case st_local st of
             Some i \<Rightarrow> update_local i (\<lambda>t. t\<lparr>lt_variables := (lt_variables t)(name \<mapsto> var)\<rparr>) st
           | None \<Rightarrow> st\<lparr>st_globals := AList.update \<lparr>loc_program = prog, loc_path = [name]\<rparr> var (st_globals st)\<rparr>)))"
proof -
  obtain r where r: "lookup_local st name = Some r"
    using table_ok_walk_ends[OF ok] by (auto simp: lookup_local_def)
  have "\<forall>i. st_local st = Some i \<longrightarrow> i \<in> dom (st_all_locals st)" using ok by (simp add: table_ok_def)
  from walk_shadow[OF table_ok_tree(1)[OF ok] this, of _ name "Name_Defined_Multiple_Times name"] r
  have "walk_scopes (st_all_locals st) (Some (Table_Panic ''Parent should exist.''))
      (\<lambda>t. if lt_variables t name \<noteq> None then Some (Name_Defined_Multiple_Times name) else None) (st_local st) =
      Some (map_option (\<lambda>_. Name_Defined_Multiple_Times name) r)"
    by (simp add: lookup_local_def)
  then have "check_shadow_variable prog [name] st =
      Some (if r \<noteq> None then Inl (Name_Defined_Multiple_Times name)
            else check_shadow_global st \<lparr>loc_program = prog, loc_path = [name]\<rparr>)"
    by (cases r) (simp_all add: check_shadow_variable_def)
  with r show ?thesis
    by (auto simp: insert_variable_def check_shadow_global_def split: option.split)
qed

lemma lookup_local_insert:
  assumes ok: "table_ok n st" and i: "st_local st = Some i"
  shows "lookup_local (update_local i (\<lambda>t. t\<lparr>lt_variables := (lt_variables t)(name \<mapsto> var)\<rparr>) st) x =
           (if x = name then Some (Some var) else lookup_local st x)"
proof -
  obtain t where t: "st_all_locals st i = Some t" using table_ok_current[OF ok i] by blast
  have "walk_scopes (st_all_locals (update_local i (\<lambda>t. t\<lparr>lt_variables := (lt_variables t)(name \<mapsto> var)\<rparr>) st))
      None (\<lambda>t. lt_variables t x) (Some i) = walk_scopes (st_all_locals st) None (\<lambda>t. lt_variables t x) (Some i)"
    if "x \<noteq> name"
    using walk_scopes_update[OF table_ok_tree(1)[OF ok], of "Some i" i
        "\<lambda>t. t\<lparr>lt_variables := (lt_variables t)(name \<mapsto> var)\<rparr>" "\<lambda>t. lt_variables t x" None] t that
    by (auto simp: update_local_def)
  then show ?thesis using t i by (auto simp: lookup_local_def update_local_def)
qed

text \<open>
  Property C32.  A variable is rejected exactly when its name is visible in an enclosing scope or taken by a global
  item at the same location.  Otherwise it is visible afterwards and no other name changes meaning.
\<close>

theorem insert_variable_no_shadowing:
  assumes "reachable (n, st)" and "st_local st \<noteq> None"
  shows "if lookup_local st name \<noteq> Some None \<or> check_shadow_global st \<lparr>loc_program = prog, loc_path = [name]\<rparr> \<noteq> Inr ()
         then insert_variable prog [name] var st = Some (Inl (Name_Defined_Multiple_Times name))
         else \<exists>st'. insert_variable prog [name] var st = Some (Inr st') \<and>
                (\<forall>x. lookup_local st' x = (if x = name then Some (Some var) else lookup_local st x)) \<and>
                insert_variable prog [name] var st' = Some (Inl (Name_Defined_Multiple_Times name))"
proof -
  have ok: "table_ok n st" using reachable_ok[OF assms(1)] by simp
  obtain i where i: "st_local st = Some i" using assms(2) by blast
  let ?st = "update_local i (\<lambda>t. t\<lparr>lt_variables := (lt_variables t)(name \<mapsto> var)\<rparr>) st"
  have "table_ok n ?st" by (rule table_ok_update_local[OF ok]) simp_all
  then show ?thesis
    using insert_variable_simps[OF ok, of prog name var] insert_variable_simps[of n ?st prog name var]
      lookup_local_insert[OF ok i, of name var] i by simp
qed

theorem insert_variable_no_shadowing_witness:
  "st_local nested_table = Some 1 \<and>
   (\<exists>st'. insert_variable ''p'' [''x''] \<lparr>var_type = None, var_declaration = VT_Mut, var_is_exported = None\<rparr>
            nested_table = Some (Inr st'))"
proof -
  have nt: "st_local nested_table = Some 1" "lookup_local nested_table ''x'' = Some None"
    "check_shadow_global nested_table \<lparr>loc_program = ''p'', loc_path = [''x'']\<rparr> = Inr ()"
    by (simp_all add: nested_table_def enter_scope_def current_id_def local_table_new_def symbol_table_default_def
          lookup_local_def check_shadow_global_def)
  then show ?thesis
    using insert_variable_no_shadowing[OF nested_table_reachable, of "''x''" "''p''"
        "\<lparr>var_type = None, var_declaration = VT_Mut, var_is_exported = None\<rparr>"] by auto
qed

section \<open>Imports\<close>

definition import_rel :: "('f, 'c, 'i) symbol_table \<Rightarrow> (symbol \<times> symbol) set" where
  "import_rel st = {(p, q). q \<in> set (imports_of st p)}"

lemma import_rel_iff [simp]: "(p, q) \<in> import_rel st \<longleftrightarrow> q \<in> set (imports_of st p)"
  by (simp add: import_rel_def)

text \<open>Every program comes after all programs it imports.\<close>

definition imports_first :: "('f, 'c, 'i) symbol_table \<Rightarrow> symbol list \<Rightarrow> bool" where
  "imports_first st order \<longleftrightarrow> (\<forall>us x vs. order = us @ x # vs \<longrightarrow> set (imports_of st x) \<subseteq> set us)"

lemma filter_split:
  "filter P xs = us @ q # vs \<Longrightarrow> \<exists>us' vs'. xs = us' @ q # vs' \<and> filter P us' = us"
proof (induction us arbitrary: xs)
  case Nil
  then show ?case by (fastforce simp: filter_eq_Cons_iff)
next
  case (Cons u us)
  then obtain pre rest where "xs = pre @ u # rest" "filter P rest = us @ q # vs" "P u" "filter P pre = []"
    by (auto simp: filter_eq_Cons_iff)
  moreover from Cons.IH[OF this(2)] obtain us' vs' where "rest = us' @ q # vs'" "filter P us' = us" by blast
  ultimately show ?case by (intro exI[of _ "pre @ u # us'"] exI[of _ vs']) simp
qed

lemma imports_first_Nil [simp]: "imports_first st []"
  by (simp add: imports_first_def)

lemma imports_first_snoc:
  "imports_first st order \<Longrightarrow> set (imports_of st p) \<subseteq> set order \<Longrightarrow> imports_first st (order @ [p])"
  by (auto simp: imports_first_def append_eq_append_conv2 append_eq_Cons_conv Cons_eq_append_conv; blast)

lemma collect_imports_spec:
  assumes "collect_imports_postorder st ps ordered seen = (ordered', seen')"
    and "set ordered \<subseteq> set seen" "distinct ordered"
  shows "set seen \<union> set ps \<subseteq> set seen' \<and> set seen' \<subseteq> set seen \<union> (import_rel st)\<^sup>* `` set ps \<and>
         set ordered' = set ordered \<union> (set seen' - set seen) \<and> distinct ordered' \<and>
         (\<forall>x\<in>set seen' - set seen. set (imports_of st x) \<subseteq> set seen')"
  using assms
proof (induction st ps ordered seen arbitrary: ordered' seen' rule: collect_imports_postorder.induct)
  case (2 st p ps ordered seen)
  show ?case
  proof (cases "p \<in> set seen")
    case True
    with "2.IH"(1)[OF True _ "2.prems"(2,3)] "2.prems"(1) show ?thesis by auto
  next
    case False
    obtain o1 s1 where c1: "collect_imports_postorder st (imports_of st p) ordered (seen @ [p]) = (o1, s1)"
      by fastforce
    have sub: "set ordered \<subseteq> set (seen @ [p])" using "2.prems"(2) by auto
    have i1: "set (seen @ [p]) \<union> set (imports_of st p) \<subseteq> set s1"
      "set s1 \<subseteq> set (seen @ [p]) \<union> (import_rel st)\<^sup>* `` set (imports_of st p)"
      "set o1 = set ordered \<union> (set s1 - set (seen @ [p]))" "distinct o1"
      "\<forall>x\<in>set s1 - set (seen @ [p]). set (imports_of st x) \<subseteq> set s1"
      using "2.IH"(2)[OF False c1 sub "2.prems"(3)] by auto
    have c2: "collect_imports_postorder st ps (index_insert p o1) s1 = (ordered', seen')"
      using "2.prems"(1) False c1 by simp
    have "set (index_insert p o1) \<subseteq> set s1" "distinct (index_insert p o1)"
      using i1 "2.prems"(2) by auto
    note i2 = "2.IH"(3)[OF False c1[symmetric] refl c2 this]
    have in2: "set s1 \<subseteq> set seen'" "set ps \<subseteq> set seen'" "\<forall>x\<in>set seen' - set s1. set (imports_of st x) \<subseteq> set seen'"
      using i2 by simp_all
    have i3: "set seen' \<subseteq> set s1 \<union> (import_rel st)\<^sup>* `` set ps" "distinct ordered'"
      "set ordered' = set (index_insert p o1) \<union> (set seen' - set s1)" using i2 by simp_all
    have step: "(import_rel st)\<^sup>* `` set (imports_of st p) \<subseteq> (import_rel st)\<^sup>* `` {p}"
      by (auto intro: converse_rtrancl_into_rtrancl)
    show ?thesis
    proof (intro conjI)
      show "set seen' \<subseteq> set seen \<union> (import_rel st)\<^sup>* `` set (p # ps)"
        using i1(2) i3(1) step by fastforce
      show "set seen \<union> set (p # ps) \<subseteq> set seen'" using i1(1) in2(1,2) by auto
      show "set ordered' = set ordered \<union> (set seen' - set seen)"
        using i1(1,3) i3(3) in2(1) False "2.prems"(2) by auto
      show "distinct ordered'" by (fact i3(2))
      show "\<forall>x\<in>set seen' - set seen. set (imports_of st x) \<subseteq> set seen'"
      proof
        fix x assume x: "x \<in> set seen' - set seen"
        consider "x = p" | "x \<in> set s1 - set (seen @ [p])" | "x \<in> set seen' - set s1" using x by auto
        then show "set (imports_of st x) \<subseteq> set seen'" by cases (use i1(1,5) in2 in blast)+
      qed
    qed
  qed
qed auto

lemma collect_imports_order:
  assumes "collect_imports_postorder st ps ordered seen = (ordered', seen')"
    and "set ordered \<subseteq> set seen" "distinct ordered" "imports_first st ordered" "acyclic (import_rel st)"
    and "\<forall>x\<in>set seen - set ordered. \<forall>q\<in>set ps. (x, q) \<in> (import_rel st)\<^sup>+"
  shows "imports_first st ordered'"
  using assms
proof (induction st ps ordered seen arbitrary: ordered' seen' rule: collect_imports_postorder.induct)
  case (2 st p ps ordered seen)
  show ?case
  proof (cases "p \<in> set seen")
    case True
    with "2.IH"(1)[OF True _ "2.prems"(2-5)] "2.prems"(1,6) show ?thesis by simp
  next
    case False
    let ?R = "import_rel st"
    obtain o1 s1 where c1: "collect_imports_postorder st (imports_of st p) ordered (seen @ [p]) = (o1, s1)"
      by fastforce
    have sub: "set ordered \<subseteq> set (seen @ [p])" using "2.prems"(2) by auto
    note s = collect_imports_spec[OF c1 sub "2.prems"(3)]
    have stack: "\<forall>x\<in>set (seen @ [p]) - set ordered. \<forall>q\<in>set (imports_of st p). (x, q) \<in> ?R\<^sup>+"
      using "2.prems"(6) by (auto intro: trancl_into_trancl)
    have first: "imports_first st o1"
      by (rule "2.IH"(2)[OF False c1 sub "2.prems"(3,4,5) stack])
    have "(q, p) \<in> ?R\<^sup>* \<and> (p, q) \<in> ?R" if "q \<in> set (imports_of st p)" "q \<notin> set o1" for q
      using that s "2.prems"(6) by (auto intro: trancl_into_rtrancl)
    then have "set (imports_of st p) \<subseteq> set o1"
      using "2.prems"(5) by (meson acyclic_def rtrancl_into_trancl1 subsetI)
    moreover have "index_insert p o1 = o1 @ [p]"
      using s False "2.prems"(2) by (intro index_insert_fresh) auto
    ultimately have first2: "imports_first st (index_insert p o1)"
      using first by (simp add: imports_first_snoc)
    have c2: "collect_imports_postorder st ps (index_insert p o1) s1 = (ordered', seen')"
      using "2.prems"(1) False c1 by simp
    show ?thesis
      by (rule "2.IH"(3)[OF False c1[symmetric] refl c2 _ _ first2 "2.prems"(5)])
         (use s "2.prems"(2,6) in auto)
  qed
qed simp

text \<open>
  Property C33.  The transitive imports of a program are exactly the programs reachable from it over one or
  more imports, without the libraries and without repetitions.
\<close>

theorem get_transitive_imports_closure:
  "distinct (get_transitive_imports st p) \<and>
   set (get_transitive_imports st p) = (import_rel st)\<^sup>+ `` {p} - set (st_libraries st)"
proof -
  obtain order seen where c: "collect_imports_postorder st (imports_of st p) [] [] = (order, seen)" by fastforce
  have s: "set (imports_of st p) \<subseteq> set seen" "set seen \<subseteq> (import_rel st)\<^sup>* `` set (imports_of st p)"
    "set order = set seen" "distinct order" "\<forall>x\<in>set seen. set (imports_of st x) \<subseteq> set seen"
    using collect_imports_spec[OF c] by simp_all
  have "q \<in> set seen" if "(p, q) \<in> (import_rel st)\<^sup>+" for q
    using that by (induction rule: trancl_induct) (use s(1,5) in auto)
  moreover have "(import_rel st)\<^sup>* `` set (imports_of st p) \<subseteq> (import_rel st)\<^sup>+ `` {p}"
    by (auto intro: rtrancl_into_trancl2)
  ultimately have "set seen = (import_rel st)\<^sup>+ `` {p}" using s(2) by blast
  then show ?thesis using s(3,4) c by (simp add: get_transitive_imports_def set_diff_eq)
qed

text \<open>
  Property C34.  When no program imports itself over other programs, the transitive imports come in
  dependency order: each program after every program it imports that is not a library.
\<close>

theorem get_transitive_imports_dependency_order:
  assumes "acyclic (import_rel st)" and "get_transitive_imports st p = us @ q # vs"
  shows "set (imports_of st q) - set (st_libraries st) \<subseteq> set us"
proof -
  obtain order seen where c: "collect_imports_postorder st (imports_of st p) [] [] = (order, seen)" by fastforce
  have "imports_first st order" by (rule collect_imports_order[OF c]) (simp_all add: assms(1))
  moreover obtain us' vs' where "order = us' @ q # vs'" and "us = filter (\<lambda>x. x \<notin> set (st_libraries st)) us'"
    using assms(2) c filter_split[of "\<lambda>x. x \<notin> set (st_libraries st)" order us q vs]
    by (auto simp: get_transitive_imports_def)
  ultimately show ?thesis by (auto simp: imports_first_def)
qed

text \<open>Three programs and a library, importing each other in a diamond.\<close>

definition import_table :: "(unit, unit, unit) symbol_table" where
  "import_table =
     add_as_library ''l'' (add_import ''b'' ''d'' (add_import ''c'' ''d'' (add_import ''a'' ''l''
       (add_import ''a'' ''c'' (add_import ''a'' ''b'' symbol_table_default)))))"

lemma imports_import_table:
  "imports_of import_table p =
     (if p = ''a'' then [''b'', ''c'', ''l''] else if p = ''b'' \<or> p = ''c'' then [''d''] else [])"
  by (simp add: import_table_def imports_of_def add_import_def add_as_library_def symbol_table_default_def
        index_insert_def update_conv)

theorem get_transitive_imports_dependency_order_witness:
  "get_transitive_imports import_table ''a'' = [''d'', ''b''] @ ''c'' # [] \<and>
   set (imports_of import_table ''c'') - set (st_libraries import_table) \<subseteq> set [''d'', ''b'']"
proof -
  have order: "get_transitive_imports import_table ''a'' = [''d'', ''b''] @ ''c'' # []"
    by (simp add: get_transitive_imports_def imports_import_table index_insert_def)
       (simp add: import_table_def add_import_def add_as_library_def symbol_table_default_def index_insert_def)
  have "import_rel import_table \<subseteq> measure (\<lambda>p. if p = ''a'' then 0 else if p = ''b'' \<or> p = ''c'' then 1 else 2)"
    (is "_ \<subseteq> measure ?rank")
  proof
    fix e assume e: "e \<in> import_rel import_table"
    obtain p q where "e = (p, q)" by fastforce
    with e show "e \<in> measure ?rank"
      by (cases "p = ''a''"; cases "p = ''b'' \<or> p = ''c''") (auto simp: imports_import_table)
  qed
  then have "acyclic (import_rel import_table)" by (meson wf_acyclic wf_measure wf_subset)
  from get_transitive_imports_dependency_order[OF this order] order show ?thesis by simp
qed

section \<open>Duplicated scopes\<close>

text \<open>
  Property C35.  Duplicating a scope always succeeds when the scope exists.  The table then is in the
  new scope, whose id is fresh and whose parent is the scope the duplication started in; it holds
  the same variables and constants as the original, and no older scope has changed.
\<close>

theorem enter_scope_duped_copies:
  assumes "reachable (n, st)" and "st_all_locals st old = Some t"
  shows "\<exists>new n' st' t'. enter_scope_duped old n st = Some (Inr (new, n', st')) \<and> reachable (n', st') \<and>
           st_local st' = Some new \<and> n \<le> new \<and> new < n' \<and> st_all_locals st' new = Some t' \<and>
           lt_parent t' = st_local st \<and> lt_variables t' = lt_variables t \<and> lt_consts t' = lt_consts t \<and>
           (\<forall>i<n. st_all_locals st' i = st_all_locals st i)"
proof -
  have ok: "table_ok n st" using reachable_ok[OF assms(1)] by simp
  from assms(2) have "old \<in> dom (st_all_locals st)" by blast
  from enter_scope_duped_total[OF ok this] obtain new n' L' where
    dup: "enter_scope_duped old n st = Some (Inr (new, n', st\<lparr>st_all_locals := L', st_local := Some new\<rparr>))"
    and copy: "fresh_copy (st_all_locals st) n (st_local st) L' n'"
    and new: "copy_of (st_all_locals st) (st_local st) L' old new" "n \<le> new" by blast
  moreover have "reachable (n', st\<lparr>st_all_locals := L', st_local := Some new\<rparr>)"
    by (rule reachable_step[OF assms(1) step_dup[OF dup]])
  moreover have "new < n'" using new(1) fresh_copyD(3)[OF copy] by (auto simp: copy_of_def)
  ultimately show ?thesis using assms(2) fresh_copyD(2)[OF copy] by (auto simp: copy_of_def)
qed

theorem enter_scope_duped_copies_witness:
  "\<exists>new n' st'. enter_scope_duped 0 2 nested_table = Some (Inr (new, n', st')) \<and> 2 \<le> new"
proof -
  have "\<exists>t. st_all_locals nested_table 0 = Some t"
    by (simp add: nested_table_def enter_scope_def current_id_def local_table_new_def symbol_table_default_def)
  then show ?thesis using enter_scope_duped_copies[OF nested_table_reachable] by blast
qed

section \<open>Global items\<close>

text \<open>
  Resetting keeps every evaluated constant, global or local, with the scope tree; it forgets every
  variable, function, record, struct and global, and returns to the global scope.  Interfaces,
  imports and libraries are kept.
\<close>

theorem reset_but_consts_keeps_consts:
  "lookup_global_const (reset_but_consts st) u loc = lookup_global_const st u loc \<and>
   map_option lt_consts (st_all_locals (reset_but_consts st) i) = map_option lt_consts (st_all_locals st i) \<and>
   map_option lt_parent (st_all_locals (reset_but_consts st) i) = map_option lt_parent (st_all_locals st i) \<and>
   \<not> is_local_to (reset_but_consts st) i name \<and> global_scope (reset_but_consts st) \<and>
   lookup_function (reset_but_consts st) u loc = None \<and> lookup_record (reset_but_consts st) u loc = None \<and>
   lookup_struct (reset_but_consts st) u loc = None \<and> lookup_global (reset_but_consts st) u loc = None \<and>
   lookup_interface (reset_but_consts st) u loc = lookup_interface st u loc \<and>
   get_transitive_imports (reset_but_consts st) p = get_transitive_imports st p"
proof -
  let ?st = "reset_but_consts st"
  have same: "imports_of ?st = imports_of st" by (simp add: imports_of_def reset_but_consts_def fun_eq_iff)
  have collect: "collect_imports_postorder ?st ps os ss = collect_imports_postorder st ps os ss" for ps os ss
    by (induction st ps os ss rule: collect_imports_postorder.induct)
       (simp_all add: imports_of_def reset_but_consts_def split: prod.split)
  show ?thesis
    using same collect
    by (simp add: get_transitive_imports_def lookup_global_const_def lookup_interface_def lookup_function_def
        lookup_record_def lookup_struct_def lookup_global_def lookup_visible_def is_visible_def global_scope_def
        is_local_to_def option.map_comp comp_def)
       (simp add: reset_but_consts_def option.map_comp comp_def split: option.split)
qed



text \<open>
  Property C37.  Interfaces are the exception: an interface does not occupy its location, so a struct (or a second,
  replacing interface) at the same location is accepted after it, and both are then found there.
\<close>

theorem interfaces_can_be_shadowed:
  assumes "insert_interface loc i st = Inr st'"
  shows "insert_interface loc j st' = Inr (st'\<lparr>st_interfaces := AList.update loc j (st_interfaces st')\<rparr>) \<and>
         (\<exists>st''. insert_struct loc c st' = Inr st'' \<and>
            lookup_struct st'' (loc_program loc) loc = Some c \<and> lookup_interface st'' (loc_program loc) loc = Some i)"
proof -
  have free: "check_shadow_global st loc = Inr ()"
    and st': "st' = st\<lparr>st_interfaces := AList.update loc i (st_interfaces st)\<rparr>"
    using assms by (auto simp: insert_interface_def map_res_eq_Inr)
  have "check_shadow_global st' loc = check_shadow_global st loc" by (simp add: st' check_shadow_global_def)
  with free show ?thesis
    by (simp add: insert_interface_def insert_struct_def lookup_struct_def lookup_interface_def lookup_visible_def
          is_visible_def st' update_conv)
qed

theorem interfaces_can_be_shadowed_witness:
  "\<exists>st''. insert_struct \<lparr>loc_program = ''p'', loc_path = [''I'']\<rparr> ()
      (projr (insert_interface \<lparr>loc_program = ''p'', loc_path = [''I'']\<rparr> () nested_table)) = Inr st''"
proof -
  have "insert_interface \<lparr>loc_program = ''p'', loc_path = [''I'']\<rparr> () nested_table =
      Inr (projr (insert_interface \<lparr>loc_program = ''p'', loc_path = [''I'']\<rparr> () nested_table))"
    by (simp add: insert_interface_def check_shadow_global_def nested_table_def enter_scope_def current_id_def
          local_table_new_def symbol_table_default_def)
  from interfaces_can_be_shadowed[OF this, of "()"] show ?thesis by blast
qed

end
