(* ===== verification/Rename_Table.thy ===== *)
theory Rename_Table
  imports Leo_Ast Rust_Int Scoped_Names "HOL-Library.AList"
begin

text \<open>
  The rename tables of static single assignment (\<^verbatim>\<open>crates/passes/src/common/rename_table/mod.rs\<close>) and the
  scopes the pass makes of them (\<^verbatim>\<open>static_single_assignment/visitor.rs\<close>).
\<close>

datatype rename_table =
  Rename_Table (rt_parent: "rename_table option") (rt_names: "(symbol \<times> symbol) list") (rt_ids: "(symbol \<times> node_id) list")

definition rename_table_new :: "rename_table option \<Rightarrow> rename_table" where
  "rename_table_new parent = Rename_Table parent [] []"

definition local_names :: "rename_table \<Rightarrow> symbol list" where
  "local_names t = map fst (rt_names t)"

definition rename_update :: "symbol \<Rightarrow> symbol \<Rightarrow> node_id \<Rightarrow> rename_table \<Rightarrow> rename_table" where
  "rename_update s new nid t =
     Rename_Table (rt_parent t) (AList.update s new (rt_names t)) (AList.update new nid (rt_ids t))"

fun rename_lookup :: "rename_table \<Rightarrow> symbol \<Rightarrow> symbol option" where
  "rename_lookup (Rename_Table parent names ids) s =
     (case map_of names s of
        Some v \<Rightarrow> Some v
      | None \<Rightarrow> (case parent of Some p \<Rightarrow> rename_lookup p s | None \<Rightarrow> None))"

fun rename_lookup_id :: "rename_table \<Rightarrow> symbol \<Rightarrow> node_id option" where
  "rename_lookup_id (Rename_Table parent names ids) s =
     (case map_of ids s of
        Some i \<Rightarrow> Some i
      | None \<Rightarrow> (case parent of Some p \<Rightarrow> rename_lookup_id p s | None \<Rightarrow> None))"

text \<open>The scopes of the pass: \<^verbatim>\<open>push\<close> and \<^verbatim>\<open>pop\<close>; \<^verbatim>\<open>pop\<close> also returns the table it leaves.\<close>

definition ssa_push :: "rename_table \<Rightarrow> rename_table" where
  "ssa_push t = rename_table_new (Some t)"

definition ssa_pop :: "rename_table \<Rightarrow> rename_table \<times> rename_table" where
  "ssa_pop t = (t, case rt_parent t of Some p \<Rightarrow> p | None \<Rightarrow> rename_table_new None)"

text \<open>
  The source of fresh names, \<^verbatim>\<open>Assigner::unique_symbol\<close> (\<^verbatim>\<open>crates/passes/src/common/assigner/mod.rs\<close>): its
  counter numbers the names it makes.  The result is the name and the new counter.
\<close>

definition unique_symbol :: "string \<Rightarrow> string \<Rightarrow> nat \<Rightarrow> symbol \<times> nat" where
  "unique_symbol arg separator counter = (arg @ separator @ show_digits 10 counter, Suc counter)"

definition rename_identifier :: "ident \<Rightarrow> rename_table \<Rightarrow> nat \<Rightarrow> ident \<times> rename_table \<times> nat" where
  "rename_identifier i t counter =
     (let t1 = rename_update (ident_name i) (ident_name i) (ident_id i) t;
          (new_name, counter') = unique_symbol (ident_name i) ''$#'' counter
      in (i\<lparr>ident_name := new_name\<rparr>, rename_update (ident_name i) new_name (ident_id i) t1, counter'))"

section \<open>Fresh names\<close>

lemma show_digits_inj:
  "show_digits radix m = show_digits radix n \<Longrightarrow> 2 \<le> radix \<Longrightarrow> radix \<le> 36 \<Longrightarrow> m = n"
proof (induction radix m arbitrary: n rule: show_digits.induct)
  case (1 radix m)
  have inj: "a = b" if "digit_char a = digit_char b" "a < radix" "b < radix" for a b
    using arg_cong[OF that(1), of "of_char :: char \<Rightarrow> nat"] that(2,3) 1(4) by (auto simp: of_char_digit split: if_splits)
  note m = show_digits.simps[of radix m] and n = show_digits.simps[of radix n]
  consider "m < radix" "n < radix" | "m < radix" "\<not> n < radix" | "\<not> m < radix" "n < radix"
    | "\<not> m < radix" "\<not> n < radix" by blast
  then show ?case
  proof cases
    case 4
    with 1(2,3) m n have "show_digits radix (m div radix) = show_digits radix (n div radix)"
      and "digit_char (m mod radix) = digit_char (n mod radix)" by simp_all
    with 1(1)[of "n div radix"] 1(3,4) 4 inj have "m div radix = n div radix" "m mod radix = n mod radix" by auto
    then show ?thesis by (metis div_mult_mod_eq)
  qed (use 1(2,3) m n inj show_digits_nonempty[symmetric] in auto)
qed

lemma unique_symbol_number:
  assumes "fst (unique_symbol a s i) = fst (unique_symbol b s' j)"
    and "s \<noteq> []" "last s \<notin> digit_char ` {..<10}" "s' \<noteq> []" "last s' \<notin> digit_char ` {..<10}"
  shows "i = j"
proof -
  let ?digit = "\<lambda>c. c \<in> digit_char ` {..<10}"
  have number: "takeWhile ?digit (rev (c @ t @ show_digits 10 n)) = rev (show_digits 10 n)"
    if t: "t \<noteq> []" "\<not> ?digit (last t)" for c t n
  proof -
    obtain t' x where "t = t' @ [x]" using t(1) by (cases t rule: rev_cases) auto
    moreover have "\<forall>d\<in>set (rev (show_digits 10 n)). ?digit d" using show_digits_chars[of 10 n] by auto
    ultimately show ?thesis using t(2) takeWhile_append2[of "rev (show_digits 10 n)" ?digit "x # rev t' @ rev c"] by simp
  qed
  have "a @ s @ show_digits 10 i = b @ s' @ show_digits 10 j" using assms(1) by (simp add: unique_symbol_def)
  then have "show_digits 10 i = show_digits 10 j"
    using number[OF assms(2,3), of a i] number[OF assms(4,5), of b j] by (metis rev_is_rev_conv)
  then show ?thesis by (rule show_digits_inj) simp_all
qed

text \<open>
  Names made by the assigner at different counters are different, whatever they are made from: the
  separators of the passes end in a character that is not a decimal digit, so the number can be
  read back.
\<close>

theorem unique_symbol_unique:
  assumes "fst (unique_symbol a s i) = fst (unique_symbol b s' j)"
    and "s \<noteq> []" "last s \<notin> digit_char ` {..<10}" "s' \<noteq> []" "last s' \<notin> digit_char ` {..<10}"
  shows "i = j"
  using assms by (rule unique_symbol_number)

theorem unique_symbol_unique_witness:
  "fst (unique_symbol ''x'' ''$#'' 1) \<noteq> fst (unique_symbol ''x$#'' ''$'' 11)"
proof
  assume eq: "fst (unique_symbol ''x'' ''$#'' 1) = fst (unique_symbol ''x$#'' ''$'' 11)"
  have "last ''$#'' \<notin> digit_char ` {..<10}" "last ''$'' \<notin> digit_char ` {..<10}"
    by code_simp+
  then have "(1::nat) = 11" by (intro unique_symbol_unique[OF eq]) simp_all
  then show False by simp
qed

section \<open>Scopes\<close>

lemma rename_lookup_update [simp]:
  "rename_lookup (rename_update s new nid t) x = (if x = s then Some new else rename_lookup t x)"
  by (cases t) (simp add: rename_update_def update_conv)

lemma rename_parent [simp]:
  "rt_parent (rename_update s new nid t) = rt_parent t" "rt_parent (ssa_push t) = Some t"
  by (simp_all add: rename_update_def ssa_push_def rename_table_new_def)

lemma rename_lookup_push [simp]: "rename_lookup (ssa_push t) x = rename_lookup t x"
  by (simp add: ssa_push_def rename_table_new_def)

interpretation rename_scopes: nested_scopes "\<lambda>_. True" "\<lambda>_. True" ssa_push "\<lambda>t. snd (ssa_pop t)"
  "\<lambda>s new. rename_update s new (node_of new)" rename_lookup for node_of :: "symbol \<Rightarrow> node_id"
  by unfold_locales (simp_all add: ssa_pop_def)

lemma local_names_update: "local_names (rename_update s new nid t) = index_insert s (local_names t)"
  by (simp add: local_names_def rename_update_def index_insert_def update_keys)

text \<open>
  Renaming inside a branch: between \<^verbatim>\<open>push\<close> and \<^verbatim>\<open>pop\<close> every name has its last new name, or the
  one it had outside; \<^verbatim>\<open>pop\<close> gives back the outer table unchanged, and the local names of the table it
  leaves are exactly the names written in the branch, each once.
\<close>

theorem rename_branch:
  "let inner = fold (\<lambda>(s, new). rename_update s new (node_of new)) kvs (ssa_push t) in
     rename_lookup inner x = (case map_of (rev kvs) x of Some new \<Rightarrow> Some new | None \<Rightarrow> rename_lookup t x) \<and>
     ssa_pop inner = (inner, t) \<and> set (local_names inner) = fst ` set kvs \<and> distinct (local_names inner)"
proof -
  have step: "rt_parent (fold (\<lambda>(s, new). rename_update s new (node_of new)) kvs u) = rt_parent u \<and>
      set (local_names (fold (\<lambda>(s, new). rename_update s new (node_of new)) kvs u)) = set (local_names u) \<union> fst ` set kvs \<and>
      (distinct (local_names u) \<longrightarrow>
         distinct (local_names (fold (\<lambda>(s, new). rename_update s new (node_of new)) kvs u)))" for u
    by (induction kvs arbitrary: u) (auto simp: local_names_update)
  have "local_names (ssa_push t) = []" by (simp add: local_names_def ssa_push_def rename_table_new_def)
  with step[of "ssa_push t"] rename_scopes.block_inside[where s = t and kvs = kvs and k = x and node_of = node_of] show ?thesis
    by (simp add: rename_scopes.bind_all_def ssa_pop_def)
qed

end
