(* ===== verification/Ssa_Forming.thy ===== *)
theory Ssa_Forming
  imports Symbol_Table Rename_Table
begin

text \<open>
  Static single assignment (\<^verbatim>\<open>crates/passes/src/static_single_assignment\<close>).  The visitor's state is a record:
  the rename table, the type table, the counter of the \<^verbatim>\<open>NodeBuilder\<close> and the counter of the \<^verbatim>\<open>Assigner\<close>.  A
  visitor method is a function from the state to a panic or a result with the new state; spans are
  dropped.  \<open>comps\<close> looks up the definition of a composite.
\<close>

section \<open>State\<close>

record ssa_state =
  ss_table :: rename_table
  ss_types :: "node_id \<rightharpoonup> leo_type"
  ss_next :: node_id
  ss_counter :: nat

record member =
  mem_mode :: mode
  mem_identifier :: ident
  mem_type :: leo_type
  mem_id :: node_id

record composite =
  comp_identifier :: ident
  comp_members :: "member list"
  comp_is_record :: bool
  comp_id :: node_id

type_synonym 'a ssa = "ssa_state \<Rightarrow> string + 'a \<times> ssa_state"

definition ssa_return :: "'a \<Rightarrow> 'a ssa" where
  "ssa_return a s = Inr (a, s)"

definition ssa_panic :: "string \<Rightarrow> 'a ssa" where
  "ssa_panic msg s = Inl msg"

definition ssa_bind :: "'a ssa \<Rightarrow> ('a \<Rightarrow> 'b ssa) \<Rightarrow> 'b ssa" where
  "ssa_bind m f s = (case m s of Inl e \<Rightarrow> Inl e | Inr (a, s') \<Rightarrow> f a s')"

definition ssa_expect :: "string \<Rightarrow> 'a option \<Rightarrow> 'a ssa" where
  "ssa_expect msg x = (case x of None \<Rightarrow> ssa_panic msg | Some a \<Rightarrow> ssa_return a)"

text \<open>Access to the parts of the state.\<close>

definition ssa_fresh :: "string \<Rightarrow> string \<Rightarrow> symbol ssa" where
  "ssa_fresh arg separator s =
     (let (name, c) = unique_symbol arg separator (ss_counter s) in Inr (name, s\<lparr>ss_counter := c\<rparr>))"

definition ssa_next_id :: "node_id ssa" where
  "ssa_next_id s = Inr (ss_next s, s\<lparr>ss_next := Suc (ss_next s)\<rparr>)"

definition ssa_get_type :: "string \<Rightarrow> node_id \<Rightarrow> leo_type ssa" where
  "ssa_get_type msg nid s = ssa_expect msg (ss_types s nid) s"

definition ssa_set_type :: "node_id \<Rightarrow> leo_type \<Rightarrow> unit ssa" where
  "ssa_set_type nid ty s = Inr ((), s\<lparr>ss_types := (ss_types s)(nid \<mapsto> ty)\<rparr>)"

definition ssa_update :: "symbol \<Rightarrow> symbol \<Rightarrow> node_id \<Rightarrow> unit ssa" where
  "ssa_update x new nid s = Inr ((), s\<lparr>ss_table := rename_update x new nid (ss_table s)\<rparr>)"

definition ssa_table :: "rename_table ssa" where
  "ssa_table s = Inr (ss_table s, s)"

definition ssa_put_table :: "rename_table \<Rightarrow> unit ssa" where
  "ssa_put_table t s = Inr ((), s\<lparr>ss_table := t\<rparr>)"

definition rename_identifier_m :: "ident \<Rightarrow> ident ssa" where
  "rename_identifier_m i s =
     (let (i', t, c) = rename_identifier i (ss_table s) (ss_counter s)
      in Inr (i', s\<lparr>ss_table := t, ss_counter := c\<rparr>))"

section \<open>Definitions of new variables\<close>

primrec expr_id :: "expression \<Rightarrow> node_id" where
  "expr_id (E_ArrayAccess _ _ i) = i"
| "expr_id (E_Async _ i) = i"
| "expr_id (E_Array _ i) = i"
| "expr_id (E_Binary _ _ _ i) = i"
| "expr_id (E_Intrinsic _ _ _ _ _ i) = i"
| "expr_id (E_Call _ _ _ i) = i"
| "expr_id (E_DynamicOp _ _ _ _ i) = i"
| "expr_id (E_Cast _ _ i) = i"
| "expr_id (E_Composite _ _ _ _ i) = i"
| "expr_id (E_Err i) = i"
| "expr_id (E_Path p) = path_id p"
| "expr_id (E_Literal l) = lit_id l"
| "expr_id (E_MemberAccess _ _ i) = i"
| "expr_id (E_Repeat _ _ i) = i"
| "expr_id (E_Ternary _ _ _ i) = i"
| "expr_id (E_Tuple _ i) = i"
| "expr_id (E_TupleAccess _ _ i) = i"
| "expr_id (E_Unary _ _ i) = i"
| "expr_id (E_Unit i) = i"

definition path_of_ident :: "ident \<Rightarrow> path" where
  "path_of_ident i = path_new None [] i (ident_id i)"

definition simple_definition :: "ident \<Rightarrow> expression \<Rightarrow> statement ssa" where
  "simple_definition i rhs =
     ssa_bind (ssa_get_type ''Type checking guarantees that all expressions have a type.'' (expr_id rhs)) (\<lambda>ty.
     ssa_bind (ssa_set_type (ident_id i) ty) (\<lambda>_.
     ssa_bind (ssa_update (ident_name i) (ident_name i) (ident_id i)) (\<lambda>_.
     ssa_bind ssa_next_id (\<lambda>nid.
     ssa_return (S_Definition (Single i) None rhs nid)))))"

definition unique_simple_definition :: "expression \<Rightarrow> (ident \<times> statement) ssa" where
  "unique_simple_definition e =
     ssa_bind (ssa_fresh ''$var'' ''$'') (\<lambda>name.
     ssa_bind ssa_next_id (\<lambda>nid.
     let place = \<lparr>ident_name = name, ident_id = nid\<rparr> in
     ssa_bind (simple_definition place e) (\<lambda>st.
     ssa_return (place, st))))"

fun is_atom :: "expression \<Rightarrow> bool" where
  "is_atom (E_Path _) = True"
| "is_atom (E_Unit _) = True"
| "is_atom (E_Err _) = True"
| "is_atom _ = False"

text \<open>The second half of \<^verbatim>\<open>consume_expression_and_define\<close>.\<close>

definition define_result :: "expression \<times> statement list \<Rightarrow> (expression \<times> statement list) ssa" where
  "define_result r =
     (if is_atom (fst r) then ssa_return r
      else ssa_bind (unique_simple_definition (fst r)) (\<lambda>(place, st).
           ssa_return (E_Path (to_local (path_of_ident place)), snd r @ [st])))"

section \<open>Expressions\<close>

definition consume_path :: "path \<Rightarrow> (expression \<times> statement list) ssa" where
  "consume_path p =
     (case try_local_symbol p of
        None \<Rightarrow> ssa_return (E_Path p, [])
      | Some name \<Rightarrow>
          ssa_bind ssa_table (\<lambda>t.
          ssa_bind (ssa_expect ''global path must not be empty''
             (with_updated_last_symbol p (case rename_lookup t name of Some n \<Rightarrow> n | None \<Rightarrow> name))) (\<lambda>p'.
          ssa_return (E_Path p', []))))"

text \<open>The copies of the fields of \<^verbatim>\<open>..base\<close> that are not listed.\<close>

fun copy_base_fields ::
  "expression \<Rightarrow> (symbol \<times> leo_type) list \<Rightarrow> (symbol \<times> field_initializer) list \<Rightarrow>
     (symbol \<times> field_initializer) list ssa" where
  "copy_base_fields base [] members = ssa_return members"
| "copy_base_fields base ((name, ty) # rest) members =
     (if map_of members name \<noteq> None then copy_base_fields base rest members
      else
        ssa_bind ssa_next_id (\<lambda>access_id.
        ssa_bind (ssa_set_type access_id ty) (\<lambda>_.
        ssa_bind ssa_next_id (\<lambda>name_id.
        ssa_bind ssa_next_id (\<lambda>ident_id.
        ssa_bind ssa_next_id (\<lambda>field_id.
        copy_base_fields base rest
          (AList.update name
             (Field_Init \<lparr>ident_name = name, ident_id = ident_id\<rparr>
                (Some (E_MemberAccess base \<lparr>ident_name = name, ident_id = name_id\<rparr> access_id)) field_id)
             members)))))))"

fun take_members :: "symbol list \<Rightarrow> (symbol \<times> 'a) list \<Rightarrow> 'a list option" where
  "take_members [] members = Some []"
| "take_members (name # names) members =
     (case map_of members name of
        None \<Rightarrow> None
      | Some m \<Rightarrow> map_option ((#) m) (take_members names (AList.delete name members)))"

definition member_names :: "composite \<Rightarrow> symbol list" where
  "member_names c = map (\<lambda>m. ident_name (mem_identifier m)) (comp_members c)"

text \<open>The order of the fields: that of the definition, with \<^verbatim>\<open>owner\<close> first in a record.\<close>

definition init_order :: "composite \<Rightarrow> symbol list" where
  "init_order c =
     (if comp_is_record c then ''owner'' # filter (\<lambda>n. n \<noteq> ''owner'') (member_names c) else member_names c)"

fun field_init_key :: "field_initializer \<Rightarrow> symbol" where
  "field_init_key (Field_Init i _ _) = ident_name i"

fun consume_expression ::
    "(location \<rightharpoonup> composite) \<Rightarrow> expression \<Rightarrow> (expression \<times> statement list) ssa"
  and consume_list :: "(location \<rightharpoonup> composite) \<Rightarrow> expression list \<Rightarrow> (expression list \<times> statement list) ssa"
  and consume_option ::
    "(location \<rightharpoonup> composite) \<Rightarrow> expression option \<Rightarrow> (expression option \<times> statement list) ssa"
  and consume_fields ::
    "(location \<rightharpoonup> composite) \<Rightarrow> field_initializer list \<Rightarrow> (field_initializer list \<times> statement list) ssa"
  and consume_dynamic_kind ::
    "(location \<rightharpoonup> composite) \<Rightarrow> dynamic_op_kind \<Rightarrow> (dynamic_op_kind \<times> statement list) ssa"
where
  "consume_expression comps (E_ArrayAccess array index nid) =
     ssa_bind (ssa_bind (consume_expression comps array) define_result) (\<lambda>(array', ss).
     ssa_return (E_ArrayAccess array' index nid, ss))"
| "consume_expression comps (E_MemberAccess inner name nid) =
     (if (case inner of E_Path p \<Rightarrow> ident_name (identifier_of p) = ''self'' | _ \<Rightarrow> False)
      then ssa_return (E_MemberAccess inner name nid, [])
      else
        ssa_bind (ssa_bind (consume_expression comps inner) define_result) (\<lambda>(inner', ss).
        ssa_return (E_MemberAccess inner' name nid, ss)))"
| "consume_expression comps (E_TupleAccess tuple index nid) =
     ssa_bind (ssa_bind (consume_expression comps tuple) define_result) (\<lambda>(tuple', ss).
     ssa_return (E_TupleAccess tuple' index nid, ss))"
| "consume_expression comps (E_Array elements nid) =
     ssa_bind (consume_list comps elements) (\<lambda>(elements', ss). ssa_return (E_Array elements' nid, ss))"
| "consume_expression comps (E_Binary left right op nid) =
     ssa_bind (ssa_bind (consume_expression comps left) define_result) (\<lambda>(left', ss).
     ssa_bind (ssa_bind (consume_expression comps right) define_result) (\<lambda>(right', right_ss).
     ssa_return (E_Binary left' right' op nid, ss @ right_ss)))"
| "consume_expression comps (E_Call f const_args args nid) =
     ssa_bind (consume_list comps args) (\<lambda>(args', ss). ssa_return (E_Call f const_args args' nid, ss))"
| "consume_expression comps (E_DynamicOp interface target network kind nid) =
     ssa_bind (ssa_bind (consume_expression comps target) define_result) (\<lambda>(target', target_ss).
     ssa_bind (consume_option comps network) (\<lambda>(network', network_ss).
     ssa_bind (consume_dynamic_kind comps kind) (\<lambda>(kind', kind_ss).
     ssa_return (E_DynamicOp interface target' network' kind' nid, target_ss @ network_ss @ kind_ss))))"
| "consume_expression comps (E_Cast e ty nid) =
     ssa_bind (ssa_bind (consume_expression comps e) define_result) (\<lambda>(e', ss). ssa_return (E_Cast e' ty nid, ss))"
| "consume_expression comps (E_Composite path const_args inits base nid) =
     ssa_bind (ssa_expect ''global location expected'' (try_global_location path)) (\<lambda>loc.
     ssa_bind (ssa_expect ''Type checking guarantees this definition exists.'' (comps loc)) (\<lambda>c.
     ssa_bind (consume_fields comps inits) (\<lambda>(inits', ss).
     let members = fold (\<lambda>f. AList.update (field_init_key f) f) inits' [] in
     ssa_bind (consume_option comps base) (\<lambda>(base', base_ss).
     ssa_bind
       (case base' of
          None \<Rightarrow> ssa_return members
        | Some b \<Rightarrow>
            copy_base_fields b (map (\<lambda>m. (ident_name (mem_identifier m), mem_type m)) (comp_members c)) members)
       (\<lambda>members'.
     ssa_bind (ssa_expect ''unwrap'' (take_members (init_order c) members')) (\<lambda>reordered.
     ssa_return (E_Composite path const_args reordered None nid, ss @ base_ss)))))))"
| "consume_expression comps (E_Path p) = consume_path p"
| "consume_expression comps (E_Literal l) = ssa_return (E_Literal l, [])"
| "consume_expression comps (E_Repeat e cnt nid) =
     ssa_bind (ssa_bind (consume_expression comps e) define_result) (\<lambda>(e', ss). ssa_return (E_Repeat e' cnt nid, ss))"
| "consume_expression comps (E_Ternary condition if_true if_false nid) =
     ssa_bind (ssa_bind (consume_expression comps condition) define_result) (\<lambda>(condition', ss).
     ssa_bind (ssa_bind (consume_expression comps if_true) define_result) (\<lambda>(if_true', true_ss).
     ssa_bind (ssa_bind (consume_expression comps if_false) define_result) (\<lambda>(if_false', false_ss).
     ssa_return (E_Ternary condition' if_true' if_false' nid, ss @ true_ss @ false_ss))))"
| "consume_expression comps (E_Tuple elements nid) =
     ssa_bind (consume_list comps elements) (\<lambda>(elements', ss). ssa_return (E_Tuple elements' nid, ss))"
| "consume_expression comps (E_Unary receiver op nid) =
     ssa_bind (ssa_bind (consume_expression comps receiver) define_result) (\<lambda>(receiver', ss).
     ssa_return (E_Unary receiver' op nid, ss))"
| "consume_expression comps (E_Unit nid) = ssa_return (E_Unit nid, [])"
| "consume_expression comps (E_Intrinsic name tys ins outs args nid) =
     ssa_bind (consume_list comps args) (\<lambda>(args', ss). ssa_return (E_Intrinsic name tys ins outs args' nid, ss))"
| "consume_expression comps (E_Async b nid) = ssa_return (E_Async b nid, [])"
| "consume_expression comps (E_Err nid) =
     ssa_panic ''ErrExpressions should not be in the AST at this phase of compilation.''"
| "consume_list comps [] = ssa_return ([], [])"
| "consume_list comps (e # es) =
     ssa_bind (ssa_bind (consume_expression comps e) define_result) (\<lambda>(e', ss).
     ssa_bind (consume_list comps es) (\<lambda>(es', rest_ss).
     ssa_return (e' # es', ss @ rest_ss)))"
| "consume_option comps None = ssa_return (None, [])"
| "consume_option comps (Some e) =
     ssa_bind (ssa_bind (consume_expression comps e) define_result) (\<lambda>(e', ss). ssa_return (Some e', ss))"
| "consume_fields comps [] = ssa_return ([], [])"
| "consume_fields comps (Field_Init i oe nid # inits) =
     ssa_bind
       (case oe of
          Some e \<Rightarrow> ssa_bind (consume_expression comps e) define_result
        | None \<Rightarrow> consume_path (to_local (path_of_ident i))) (\<lambda>(e', ss).
     ssa_bind (consume_fields comps inits) (\<lambda>(inits', rest_ss).
     ssa_return (Field_Init i (Some e') nid # inits', ss @ rest_ss)))"
| "consume_dynamic_kind comps (Dyn_Call f args) =
     ssa_bind (consume_list comps args) (\<lambda>(args', ss). ssa_return (Dyn_Call f args', ss))"
| "consume_dynamic_kind comps (Dyn_Read storage) = ssa_return (Dyn_Read storage, [])"
| "consume_dynamic_kind comps (Dyn_Op member op args) =
     ssa_bind (consume_list comps args) (\<lambda>(args', ss). ssa_return (Dyn_Op member op args', ss))"

definition consume_expression_and_define ::
  "(location \<rightharpoonup> composite) \<Rightarrow> expression \<Rightarrow> (expression \<times> statement list) ssa" where
  "consume_expression_and_define comps e = ssa_bind (consume_expression comps e) define_result"

section \<open>Statements\<close>

definition create_phi_argument :: "rename_table \<Rightarrow> symbol \<Rightarrow> expression ssa" where
  "create_phi_argument table x =
     ssa_bind (ssa_expect ''Symbol should exist in the program.'' (rename_lookup table x)) (\<lambda>name.
     ssa_bind (ssa_expect ''Symbol should exist in the rename table.'' (rename_lookup_id table name)) (\<lambda>nid.
     ssa_return (E_Path (to_local (path_of_ident \<lparr>ident_name = name, ident_id = nid\<rparr>)))))"

fun phi_functions ::
  "(location \<rightharpoonup> composite) \<Rightarrow> expression \<Rightarrow> rename_table \<Rightarrow> rename_table \<Rightarrow> symbol list \<Rightarrow> statement list ssa" where
  "phi_functions comps condition if_table else_table [] = ssa_return []"
| "phi_functions comps condition if_table else_table (x # xs) =
     ssa_bind ssa_table (\<lambda>t.
     if rename_lookup t x = None then phi_functions comps condition if_table else_table xs
     else
       ssa_bind (ssa_fresh x ''$'') (\<lambda>new_name.
       ssa_bind (create_phi_argument if_table x) (\<lambda>if_true.
       ssa_bind (create_phi_argument else_table x) (\<lambda>if_false.
       ssa_bind ssa_next_id (\<lambda>nid.
       ssa_bind (ssa_get_type ''Type checking guarantees that all expressions have a type.'' (expr_id if_true)) (\<lambda>ty.
       ssa_bind (ssa_set_type nid ty) (\<lambda>_.
       ssa_bind (consume_expression comps (E_Ternary condition if_true if_false nid)) (\<lambda>(value, ss).
       ssa_bind ssa_table (\<lambda>t'.
       ssa_bind (ssa_expect ''The ID for the symbol should already exist in the rename table.'' (rename_lookup_id t' x)) (\<lambda>xid.
       ssa_bind (ssa_update x new_name xid) (\<lambda>_.
       ssa_bind (simple_definition \<lparr>ident_name = new_name, ident_id = xid\<rparr> value) (\<lambda>st.
       ssa_bind (phi_functions comps condition if_table else_table xs) (\<lambda>rest.
       ssa_return (ss @ st # rest))))))))))))))"

definition write_set :: "rename_table \<Rightarrow> rename_table \<Rightarrow> symbol list" where
  "write_set if_table else_table =
     local_names if_table @ filter (\<lambda>x. x \<notin> set (local_names if_table)) (local_names else_table)"

definition ssa_push_m :: "unit ssa" where
  "ssa_push_m = ssa_bind ssa_table (\<lambda>t. ssa_put_table (ssa_push t))"

definition ssa_pop_m :: "rename_table ssa" where
  "ssa_pop_m = ssa_bind ssa_table (\<lambda>t. ssa_bind (ssa_put_table (snd (ssa_pop t))) (\<lambda>_. ssa_return (fst (ssa_pop t))))"

text \<open>
  The renamed place of an assignment to a part of a variable: the path at the root of the accesses
  is consumed, the accesses stay.
\<close>

fun consume_place :: "expression \<Rightarrow> (expression \<times> statement list) ssa" where
  "consume_place (E_ArrayAccess array index nid) =
     ssa_bind (consume_place array) (\<lambda>(a, ss). ssa_return (E_ArrayAccess a index nid, ss))"
| "consume_place (E_MemberAccess inner name nid) =
     ssa_bind (consume_place inner) (\<lambda>(a, ss). ssa_return (E_MemberAccess a name nid, ss))"
| "consume_place (E_TupleAccess tuple index nid) =
     ssa_bind (consume_place tuple) (\<lambda>(a, ss). ssa_return (E_TupleAccess a index nid, ss))"
| "consume_place (E_Path p) = consume_path p"
| "consume_place _ = ssa_panic ''Type checking should have ensured this is not possible.''"

fun rename_identifiers :: "ident list \<Rightarrow> ident list ssa" where
  "rename_identifiers [] = ssa_return []"
| "rename_identifiers (i # is) =
     ssa_bind (rename_identifier_m i) (\<lambda>i'. ssa_bind (rename_identifiers is) (\<lambda>is'. ssa_return (i' # is')))"

definition consume_assert ::
  "(location \<rightharpoonup> composite) \<Rightarrow> assert_variant \<Rightarrow> (assert_variant \<times> statement list) ssa" where
  "consume_assert comps variant =
     (case variant of
        Assert e \<Rightarrow>
          ssa_bind (consume_expression_and_define comps e) (\<lambda>(e', ss). ssa_return (Assert e', ss))
      | AssertEq left right \<Rightarrow>
          ssa_bind (consume_expression_and_define comps left) (\<lambda>(left', ss).
          ssa_bind (consume_expression_and_define comps right) (\<lambda>(right', right_ss).
          ssa_return (AssertEq left' right', ss @ right_ss)))
      | AssertNeq left right \<Rightarrow>
          ssa_bind (consume_expression_and_define comps left) (\<lambda>(left', ss).
          ssa_bind (consume_expression_and_define comps right) (\<lambda>(right', right_ss).
          ssa_return (AssertNeq left' right', ss @ right_ss))))"

fun consume_statement ::
    "bool \<Rightarrow> (location \<rightharpoonup> composite) \<Rightarrow> statement \<Rightarrow> statement list ssa"
  and consume_statements ::
    "bool \<Rightarrow> (location \<rightharpoonup> composite) \<Rightarrow> statement list \<Rightarrow> statement list ssa"
  and consume_otherwise ::
    "bool \<Rightarrow> (location \<rightharpoonup> composite) \<Rightarrow> statement option \<Rightarrow> statement option ssa"
where
  "consume_statement rename_defs comps (S_Assert variant nid) =
     ssa_bind (consume_assert comps variant) (\<lambda>(variant', ss). ssa_return (ss @ [S_Assert variant' nid]))"
| "consume_statement rename_defs comps (S_Assign place value nid) =
     ssa_bind (consume_expression comps value) (\<lambda>(value', ss).
     (case place of
        E_Path p \<Rightarrow>
          ssa_bind (rename_identifier_m (identifier_of p)) (\<lambda>new_place.
          ssa_bind (simple_definition new_place value') (\<lambda>st.
          ssa_return (ss @ [st])))
      | _ \<Rightarrow>
          ssa_bind (consume_place place) (\<lambda>(place', ss2).
          ssa_return (ss @ ss2 @ [S_Assign place' value' nid]))))"
| "consume_statement rename_defs comps (S_Block (Block ss nid)) = consume_statements rename_defs comps ss"
| "consume_statement rename_defs comps (S_Conditional condition (Block then_ss then_id) otherwise nid) =
     ssa_bind (consume_expression_and_define comps condition) (\<lambda>(condition', ss).
     ssa_bind ssa_push_m (\<lambda>_.
     ssa_bind (consume_statements rename_defs comps then_ss) (\<lambda>then_ss'.
     ssa_bind ssa_pop_m (\<lambda>if_table.
     ssa_bind ssa_push_m (\<lambda>_.
     ssa_bind (consume_otherwise rename_defs comps otherwise) (\<lambda>otherwise'.
     ssa_bind ssa_pop_m (\<lambda>else_table.
     ssa_bind (phi_functions comps condition' if_table else_table (write_set if_table else_table)) (\<lambda>phis.
     ssa_return (ss @ S_Conditional condition' (Block then_ss' then_id) otherwise' nid # phis)))))))))"
| "consume_statement rename_defs comps (S_Const _ _ _ _ _) = ssa_return []"
| "consume_statement rename_defs comps (S_Definition place ty value nid) =
     (case place of
        Single i \<Rightarrow>
          ssa_bind (consume_expression comps value) (\<lambda>(value', ss).
          ssa_bind (if rename_defs then rename_identifier_m i else ssa_return i) (\<lambda>i'.
          ssa_bind (simple_definition i' value') (\<lambda>st.
          ssa_return (ss @ [st]))))
      | Multiple is \<Rightarrow>
          ssa_bind (if rename_defs then rename_identifiers is else ssa_return is) (\<lambda>is'.
          ssa_bind (consume_expression comps value) (\<lambda>(value', ss).
          ssa_return (ss @ [S_Definition (Multiple is') None value' nid]))))"
| "consume_statement rename_defs comps (S_Expression e nid) =
     ssa_bind (consume_expression comps e) (\<lambda>(e', ss). ssa_return (ss @ [S_Expression e' nid]))"
| "consume_statement rename_defs comps (S_Iteration _ _ _ _ _ _ _) =
     ssa_panic ''IterationStatements should not be in the AST at this phase of compilation.''"
| "consume_statement rename_defs comps (S_Return e nid) =
     (case e of
        E_Tuple elements tid \<Rightarrow>
          ssa_bind (consume_list comps elements) (\<lambda>(elements', ss).
          ssa_return (ss @ [S_Return (E_Tuple elements' tid) nid]))
      | _ \<Rightarrow>
          ssa_bind (consume_expression_and_define comps e) (\<lambda>(e', ss). ssa_return (ss @ [S_Return e' nid])))"
| "consume_statements rename_defs comps [] = ssa_return []"
| "consume_statements rename_defs comps (st # sts) =
     ssa_bind (consume_statement rename_defs comps st) (\<lambda>ss.
     ssa_bind (consume_statements rename_defs comps sts) (\<lambda>rest.
     ssa_return (ss @ rest)))"
| "consume_otherwise rename_defs comps None = ssa_return None"
| "consume_otherwise rename_defs comps (Some st) =
     (case st of
        S_Block (Block ss nid) \<Rightarrow>
          ssa_bind (consume_statements rename_defs comps ss) (\<lambda>ss'. ssa_return (Some (S_Block (Block ss' nid))))
      | S_Conditional condition then_block otherwise nid \<Rightarrow>
          ssa_bind (consume_statement rename_defs comps (S_Conditional condition then_block otherwise nid)) (\<lambda>ss'.
          ssa_return (Some (S_Block (Block ss' nid))))
      | _ \<Rightarrow> ssa_panic ''Type checking guarantees that the otherwise-block of a conditional statement is a block or another conditional statement.'')"

section \<open>Functions and composites\<close>

record input_variable =
  in_identifier :: ident
  in_mode :: mode
  in_type :: leo_type
  in_id :: node_id

text \<open>The parts of a function that the pass reads or changes; the others stay as they are.\<close>

record leo_function =
  fn_variant :: variant
  fn_identifier :: ident
  fn_input :: "input_variable list"
  fn_output_type :: leo_type
  fn_block :: block
  fn_id :: node_id

fun rename_inputs :: "input_variable list \<Rightarrow> input_variable list ssa" where
  "rename_inputs [] = ssa_return []"
| "rename_inputs (input # rest) =
     ssa_bind (ssa_fresh (ident_name (in_identifier input)) ''$$'') (\<lambda>new_symbol.
     ssa_bind ssa_next_id (\<lambda>nid.
     ssa_bind (ssa_set_type nid (in_type input)) (\<lambda>_.
     let old = in_identifier input in
     ssa_bind (ssa_update (ident_name old) (ident_name old) (ident_id old)) (\<lambda>_.
     ssa_bind (ssa_update (ident_name old) new_symbol (ident_id old)) (\<lambda>_.
     ssa_bind (rename_inputs rest) (\<lambda>rest'.
     ssa_return (input\<lparr>in_identifier := \<lparr>ident_name = new_symbol, ident_id = nid\<rparr>\<rparr> # rest')))))))"

definition consume_function ::
  "bool \<Rightarrow> (location \<rightharpoonup> composite) \<Rightarrow> leo_function \<Rightarrow> leo_function ssa" where
  "consume_function rename_defs comps f =
     ssa_bind ssa_push_m (\<lambda>_.
     ssa_bind (if rename_defs then rename_inputs (fn_input f) else ssa_return (fn_input f)) (\<lambda>input'.
     case fn_block f of Block ss nid \<Rightarrow>
     ssa_bind (consume_statements rename_defs comps ss) (\<lambda>ss'.
     ssa_bind ssa_pop_m (\<lambda>_.
     ssa_return (f\<lparr>fn_input := input', fn_block := Block ss' nid\<rparr>)))))"

definition consume_constructor :: "bool \<Rightarrow> (location \<rightharpoonup> composite) \<Rightarrow> block \<Rightarrow> block ssa" where
  "consume_constructor rename_defs comps b =
     ssa_bind ssa_push_m (\<lambda>_.
     case b of Block ss nid \<Rightarrow>
     ssa_bind (consume_statements rename_defs comps ss) (\<lambda>ss'.
     ssa_bind ssa_pop_m (\<lambda>_.
     ssa_return (Block ss' nid))))"

definition consume_composite :: "composite \<Rightarrow> string + composite" where
  "consume_composite c =
     (if \<not> comp_is_record c then Inr c
      else
        let member_map = fold (\<lambda>m. AList.update (ident_name (mem_identifier m)) m) (comp_members c) []
        in case map_of member_map ''owner'' of
             None \<Rightarrow> Inl ''unwrap''
           | Some owner \<Rightarrow> Inr (c\<lparr>comp_members := owner # map snd (AList.delete ''owner'' member_map)\<rparr>))"

text \<open>The composites a program sees: records first, then structs.\<close>

definition composites_of :: "('f, composite, 'i) symbol_table \<Rightarrow> symbol \<Rightarrow> location \<rightharpoonup> composite" where
  "composites_of st program loc =
     (case lookup_record st program loc of Some c \<Rightarrow> Some c | None \<Rightarrow> lookup_struct st program loc)"

end
