(* ===== verification/Leo_Semantics.thy ===== *)
theory Leo_Semantics
  imports Ssa_Forming
begin

text \<open>
  A semantics of Leo function bodies, used to say what a pass preserves.  What the operations compute
  is the argument \<open>M\<close>; the semantics fixes the order of evaluation, variables, assignments, conditionals
  and returns.  Both branches of a ternary expression are evaluated, as in a circuit.  The state is
  a value for every name and a world, which calls and intrinsics may read and change.
\<close>

section \<open>Meaning of the operations\<close>

datatype op_head =
    H_ArrayAccess expression
  | H_Array
  | H_Binary binary_operation
  | H_Intrinsic symbol "leo_type list" "(mode \<times> leo_type) list" "(mode \<times> leo_type) list"
  | H_Call path "expression list"
  | H_DynCall leo_type ident bool
  | H_DynRead leo_type ident bool
  | H_DynOp leo_type ident ident bool
  | H_Cast leo_type
  | H_Composite path "expression list"
  | H_Repeat expression
  | H_Tuple
  | H_TupleAccess nat
  | H_Unary unary_operation

datatype access = A_Index expression | A_Member symbol | A_Tuple nat

record ('v, 'w) meaning =
  m_literal :: "literal_variant \<Rightarrow> 'v"
  m_unit :: 'v
  m_global :: "path \<Rightarrow> 'v"
  m_self :: "symbol \<Rightarrow> 'w \<Rightarrow> 'v"
  m_member :: "symbol \<Rightarrow> 'v \<Rightarrow> 'v option"
  m_op :: "op_head \<Rightarrow> 'v list \<Rightarrow> 'w \<Rightarrow> ('v \<times> 'w) option"
  m_truth :: "'v \<Rightarrow> bool option"
  m_equal :: "'v \<Rightarrow> 'v \<Rightarrow> bool"
  m_untuple :: "'v \<Rightarrow> 'v list option"
  m_set :: "access list \<Rightarrow> 'v \<Rightarrow> 'v \<Rightarrow> 'v option"

type_synonym 'v env = "symbol \<Rightarrow> 'v"

section \<open>Expressions\<close>

text \<open>The value of a composite: a listed field, or the field of the base.\<close>

definition field_value ::
  "('v, 'w) meaning \<Rightarrow> (symbol \<times> 'v) list \<Rightarrow> 'v option \<Rightarrow> symbol \<Rightarrow> 'v option" where
  "field_value M listed base name =
     (case map_of (rev listed) name of
        Some v \<Rightarrow> Some v
      | None \<Rightarrow> Option.bind base (m_member M name))"

definition build_composite ::
  "('v, 'w) meaning \<Rightarrow> (location \<rightharpoonup> composite) \<Rightarrow> path \<Rightarrow> expression list \<Rightarrow> (symbol \<times> 'v) list \<Rightarrow> 'v option \<Rightarrow>
     'w \<Rightarrow> ('v \<times> 'w) option" where
  "build_composite M comps path const_args listed base w =
     Option.bind (Option.bind (try_global_location path) comps) (\<lambda>c.
     Option.bind (collect_opt (map (field_value M listed base) (member_names c))) (\<lambda>vs.
     m_op M (H_Composite path const_args) vs w))"

definition read_path :: "('v, 'w) meaning \<Rightarrow> path \<Rightarrow> 'v env \<Rightarrow> 'v" where
  "read_path M p \<rho> = (case try_local_symbol p of Some x \<Rightarrow> \<rho> x | None \<Rightarrow> m_global M p)"

fun eval :: "('v, 'w) meaning \<Rightarrow> (location \<rightharpoonup> composite) \<Rightarrow> expression \<Rightarrow> 'v env \<Rightarrow> 'w \<Rightarrow> ('v \<times> 'w) option"
  and eval_list ::
    "('v, 'w) meaning \<Rightarrow> (location \<rightharpoonup> composite) \<Rightarrow> expression list \<Rightarrow> 'v env \<Rightarrow> 'w \<Rightarrow> ('v list \<times> 'w) option"
  and eval_option ::
    "('v, 'w) meaning \<Rightarrow> (location \<rightharpoonup> composite) \<Rightarrow> expression option \<Rightarrow> 'v env \<Rightarrow> 'w \<Rightarrow> ('v option \<times> 'w) option"
  and eval_fields ::
    "('v, 'w) meaning \<Rightarrow> (location \<rightharpoonup> composite) \<Rightarrow> field_initializer list \<Rightarrow> 'v env \<Rightarrow> 'w \<Rightarrow>
       ((symbol \<times> 'v) list \<times> 'w) option"
  and eval_kind ::
    "('v, 'w) meaning \<Rightarrow> (location \<rightharpoonup> composite) \<Rightarrow> leo_type \<Rightarrow> bool \<Rightarrow> dynamic_op_kind \<Rightarrow> 'v env \<Rightarrow> 'w \<Rightarrow>
       ((op_head \<times> 'v list) \<times> 'w) option"
where
  "eval M comps (E_ArrayAccess array index _) = (\<lambda>\<rho> w.
     Option.bind (eval M comps array \<rho> w) (\<lambda>(a, w1). m_op M (H_ArrayAccess index) [a] w1))"
| "eval M comps (E_MemberAccess inner name _) = (\<lambda>\<rho> w.
     (if (case inner of E_Path p \<Rightarrow> ident_name (identifier_of p) = ''self'' | _ \<Rightarrow> False)
      then Some (m_self M (ident_name name) w, w)
      else Option.bind (eval M comps inner \<rho> w) (\<lambda>(v, w1). map_option (\<lambda>r. (r, w1)) (m_member M (ident_name name) v))))"
| "eval M comps (E_TupleAccess tuple index _) = (\<lambda>\<rho> w.
     Option.bind (eval M comps tuple \<rho> w) (\<lambda>(v, w1). m_op M (H_TupleAccess index) [v] w1))"
| "eval M comps (E_Array elements _) = (\<lambda>\<rho> w.
     Option.bind (eval_list M comps elements \<rho> w) (\<lambda>(vs, w1). m_op M H_Array vs w1))"
| "eval M comps (E_Binary left right op _) = (\<lambda>\<rho> w.
     Option.bind (eval M comps left \<rho> w) (\<lambda>(a, w1).
     Option.bind (eval M comps right \<rho> w1) (\<lambda>(b, w2). m_op M (H_Binary op) [a, b] w2)))"
| "eval M comps (E_Call f const_args args _) = (\<lambda>\<rho> w.
     Option.bind (eval_list M comps args \<rho> w) (\<lambda>(vs, w1). m_op M (H_Call f const_args) vs w1))"
| "eval M comps (E_DynamicOp interface target network kind _) = (\<lambda>\<rho> w.
     Option.bind (eval M comps target \<rho> w) (\<lambda>(t, w1).
     Option.bind (eval_option M comps network \<rho> w1) (\<lambda>(n, w2).
     Option.bind (eval_kind M comps interface (n \<noteq> None) kind \<rho> w2) (\<lambda>((h, vs), w3).
     m_op M h (t # (case n of None \<Rightarrow> [] | Some v \<Rightarrow> [v]) @ vs) w3))))"
| "eval M comps (E_Cast e ty _) = (\<lambda>\<rho> w.
     Option.bind (eval M comps e \<rho> w) (\<lambda>(v, w1). m_op M (H_Cast ty) [v] w1))"
| "eval M comps (E_Composite path const_args inits base _) = (\<lambda>\<rho> w.
     Option.bind (eval_fields M comps inits \<rho> w) (\<lambda>(listed, w1).
     Option.bind (eval_option M comps base \<rho> w1) (\<lambda>(b, w2).
     build_composite M comps path const_args listed b w2)))"
| "eval M comps (E_Path p) = (\<lambda>\<rho> w.
     Some (read_path M p \<rho>, w))"
| "eval M comps (E_Literal l) = (\<lambda>\<rho> w.
     Some (m_literal M (lit_variant l), w))"
| "eval M comps (E_Repeat e cnt _) = (\<lambda>\<rho> w.
     Option.bind (eval M comps e \<rho> w) (\<lambda>(v, w1). m_op M (H_Repeat cnt) [v] w1))"
| "eval M comps (E_Ternary condition if_true if_false _) = (\<lambda>\<rho> w.
     Option.bind (eval M comps condition \<rho> w) (\<lambda>(c, w1).
     Option.bind (eval M comps if_true \<rho> w1) (\<lambda>(a, w2).
     Option.bind (eval M comps if_false \<rho> w2) (\<lambda>(b, w3).
     map_option (\<lambda>t. (if t then a else b, w3)) (m_truth M c)))))"
| "eval M comps (E_Tuple elements _) = (\<lambda>\<rho> w.
     Option.bind (eval_list M comps elements \<rho> w) (\<lambda>(vs, w1). m_op M H_Tuple vs w1))"
| "eval M comps (E_Unary receiver op _) = (\<lambda>\<rho> w.
     Option.bind (eval M comps receiver \<rho> w) (\<lambda>(v, w1). m_op M (H_Unary op) [v] w1))"
| "eval M comps (E_Unit _) = (\<lambda>\<rho> w.
     Some (m_unit M, w))"
| "eval M comps (E_Intrinsic name tys ins outs args _) = (\<lambda>\<rho> w.
     Option.bind (eval_list M comps args \<rho> w) (\<lambda>(vs, w1). m_op M (H_Intrinsic name tys ins outs) vs w1))"
| "eval M comps (E_Async _ _) = (\<lambda>\<rho> w.
     None)"
| "eval M comps (E_Err _) = (\<lambda>\<rho> w.
     None)"
| "eval_list M comps [] = (\<lambda>\<rho> w.
     Some ([], w))"
| "eval_list M comps (e # es) = (\<lambda>\<rho> w.
     Option.bind (eval M comps e \<rho> w) (\<lambda>(v, w1).
     Option.bind (eval_list M comps es \<rho> w1) (\<lambda>(vs, w2). Some (v # vs, w2))))"
| "eval_option M comps None = (\<lambda>\<rho> w.
     Some (None, w))"
| "eval_option M comps (Some e) = (\<lambda>\<rho> w.
     map_option (\<lambda>(v, w1). (Some v, w1)) (eval M comps e \<rho> w))"
| "eval_fields M comps [] = (\<lambda>\<rho> w.
     Some ([], w))"
| "eval_fields M comps (Field_Init i oe _ # inits) = (\<lambda>\<rho> w.
     Option.bind (case oe of Some e \<Rightarrow> eval M comps e \<rho> w | None \<Rightarrow> Some (\<rho> (ident_name i), w)) (\<lambda>(v, w1).
     Option.bind (eval_fields M comps inits \<rho> w1) (\<lambda>(vs, w2). Some ((ident_name i, v) # vs, w2))))"
| "eval_kind M comps interface net (Dyn_Call f args) = (\<lambda>\<rho> w.
     map_option (\<lambda>(vs, w1). ((H_DynCall interface f net, vs), w1)) (eval_list M comps args \<rho> w))"
| "eval_kind M comps interface net (Dyn_Read storage) = (\<lambda>\<rho> w.
     Some ((H_DynRead interface storage net, []), w))"
| "eval_kind M comps interface net (Dyn_Op member op args) = (\<lambda>\<rho> w.
     map_option (\<lambda>(vs, w1). ((H_DynOp interface member op net, vs), w1)) (eval_list M comps args \<rho> w))"

section \<open>Statements\<close>

datatype ('v, 'w) outcome = Halted | Returned 'v 'w | Running "'v env" 'w

definition continue_with :: "('v, 'w) outcome \<Rightarrow> ('v env \<Rightarrow> 'w \<Rightarrow> ('v, 'w) outcome) \<Rightarrow> ('v, 'w) outcome" where
  "continue_with r k = (case r of Running \<rho> w \<Rightarrow> k \<rho> w | _ \<Rightarrow> r)"

fun place_root :: "expression \<Rightarrow> (path \<times> access list) option" where
  "place_root (E_Path p) = Some (p, [])"
| "place_root (E_ArrayAccess a index _) = map_option (\<lambda>(p, as). (p, as @ [A_Index index])) (place_root a)"
| "place_root (E_MemberAccess a name _) = map_option (\<lambda>(p, as). (p, as @ [A_Member (ident_name name)])) (place_root a)"
| "place_root (E_TupleAccess a index _) = map_option (\<lambda>(p, as). (p, as @ [A_Tuple index])) (place_root a)"
| "place_root _ = None"

text \<open>An assignment to a variable, or to a part of one.\<close>

definition assign_place :: "('v, 'w) meaning \<Rightarrow> expression \<Rightarrow> 'v \<Rightarrow> 'v env \<Rightarrow> 'v env option" where
  "assign_place M place v \<rho> =
     (case place of
        E_Path p \<Rightarrow> Some (\<rho>(ident_name (identifier_of p) := v))
      | _ \<Rightarrow>
          Option.bind (place_root place) (\<lambda>(p, as).
          Option.bind (try_local_symbol p) (\<lambda>x.
          map_option (\<lambda>u. \<rho>(x := u)) (m_set M as (\<rho> x) v))))"

fun bind_names :: "ident list \<Rightarrow> 'v list \<Rightarrow> 'v env \<Rightarrow> 'v env" where
  "bind_names (i # is) (v # vs) \<rho> = bind_names is vs (\<rho>(ident_name i := v))"
| "bind_names _ _ \<rho> = \<rho>"

definition define_place :: "('v, 'w) meaning \<Rightarrow> definition_place \<Rightarrow> 'v \<Rightarrow> 'v env \<Rightarrow> 'v env option" where
  "define_place M place v \<rho> =
     (case place of
        Single i \<Rightarrow> Some (\<rho>(ident_name i := v))
      | Multiple is \<Rightarrow>
          Option.bind (m_untuple M v) (\<lambda>vs.
          if length vs = length is then Some (bind_names is vs \<rho>) else None))"

definition run_with :: "'v env option \<Rightarrow> 'w \<Rightarrow> ('v, 'w) outcome" where
  "run_with r w = (case r of None \<Rightarrow> Halted | Some \<rho> \<Rightarrow> Running \<rho> w)"

definition check_assert ::
  "('v, 'w) meaning \<Rightarrow> (location \<rightharpoonup> composite) \<Rightarrow> assert_variant \<Rightarrow> 'v env \<Rightarrow> 'w \<Rightarrow> ('v, 'w) outcome" where
  "check_assert M comps variant \<rho> w =
     (case variant of
        Assert e \<Rightarrow>
          (case eval M comps e \<rho> w of
             Some (v, w1) \<Rightarrow> if m_truth M v = Some True then Running \<rho> w1 else Halted
           | None \<Rightarrow> Halted)
      | AssertEq a b \<Rightarrow>
          (case eval_list M comps [a, b] \<rho> w of
             Some (vs, w1) \<Rightarrow> if m_equal M (vs ! 0) (vs ! 1) then Running \<rho> w1 else Halted
           | None \<Rightarrow> Halted)
      | AssertNeq a b \<Rightarrow>
          (case eval_list M comps [a, b] \<rho> w of
             Some (vs, w1) \<Rightarrow> if m_equal M (vs ! 0) (vs ! 1) then Halted else Running \<rho> w1
           | None \<Rightarrow> Halted))"

fun exec ::
    "('v, 'w) meaning \<Rightarrow> (location \<rightharpoonup> composite) \<Rightarrow> statement \<Rightarrow> 'v env \<Rightarrow> 'w \<Rightarrow> ('v, 'w) outcome"
  and exec_list ::
    "('v, 'w) meaning \<Rightarrow> (location \<rightharpoonup> composite) \<Rightarrow> statement list \<Rightarrow> 'v env \<Rightarrow> 'w \<Rightarrow> ('v, 'w) outcome"
  and exec_option ::
    "('v, 'w) meaning \<Rightarrow> (location \<rightharpoonup> composite) \<Rightarrow> statement option \<Rightarrow> 'v env \<Rightarrow> 'w \<Rightarrow> ('v, 'w) outcome"
where
  "exec M comps (S_Assert variant _) \<rho> w = check_assert M comps variant \<rho> w"
| "exec M comps (S_Assign place value _) \<rho> w =
     (case eval M comps value \<rho> w of
        None \<Rightarrow> Halted
      | Some (v, w1) \<Rightarrow> run_with (assign_place M place v \<rho>) w1)"
| "exec M comps (S_Block (Block ss _)) \<rho> w = exec_list M comps ss \<rho> w"
| "exec M comps (S_Conditional condition (Block then_ss _) otherwise _) \<rho> w =
     (case eval M comps condition \<rho> w of
        None \<Rightarrow> Halted
      | Some (v, w1) \<Rightarrow>
          (case m_truth M v of
             None \<Rightarrow> Halted
           | Some True \<Rightarrow> exec_list M comps then_ss \<rho> w1
           | Some False \<Rightarrow> exec_option M comps otherwise \<rho> w1))"
| "exec M comps (S_Const _ _ _ _ _) \<rho> w = Running \<rho> w"
| "exec M comps (S_Definition place _ value _) \<rho> w =
     (case eval M comps value \<rho> w of
        None \<Rightarrow> Halted
      | Some (v, w1) \<Rightarrow> run_with (define_place M place v \<rho>) w1)"
| "exec M comps (S_Expression e _) \<rho> w =
     (case eval M comps e \<rho> w of None \<Rightarrow> Halted | Some (v, w1) \<Rightarrow> Running \<rho> w1)"
| "exec M comps (S_Iteration _ _ _ _ _ _ _) \<rho> w = Halted"
| "exec M comps (S_Return e _) \<rho> w =
     (case eval M comps e \<rho> w of None \<Rightarrow> Halted | Some (v, w1) \<Rightarrow> Returned v w1)"
| "exec_list M comps [] \<rho> w = Running \<rho> w"
| "exec_list M comps (st # sts) \<rho> w = continue_with (exec M comps st \<rho> w) (exec_list M comps sts)"
| "exec_option M comps None \<rho> w = Running \<rho> w"
| "exec_option M comps (Some st) \<rho> w = exec M comps st \<rho> w"

lemma continue_with_simps [simp]:
  "continue_with (Running \<rho> w) k = k \<rho> w"
  "continue_with Halted k = Halted"
  "continue_with (Returned v w) k = Returned v w"
  by (simp_all add: continue_with_def)

lemma exec_list_append: "exec_list M comps (ss @ ts) \<rho> w = continue_with (exec_list M comps ss \<rho> w) (exec_list M comps ts)"
  by (induction ss arbitrary: \<rho> w) (auto simp: continue_with_def split: outcome.splits)

end
