(* ===== verification/Ssa_Steps.thy ===== *)
theory Ssa_Steps
  imports Leo_Semantics
begin

text \<open>
  How the visitor's state changes: fresh names, the steps that expressions and statements make, and
  the invariant of the rename table.
\<close>

section \<open>Generated names\<close>

definition separators :: "string set" where
  "separators = {''$'', ''$#'', ''$$''}"

definition generated :: "nat \<Rightarrow> symbol \<Rightarrow> bool" where
  "generated c n \<longleftrightarrow> (\<exists>a sep i. sep \<in> separators \<and> c \<le> i \<and> n = fst (unique_symbol a sep i))"

lemma separators_end:
  assumes "sep \<in> separators" shows "sep \<noteq> [] \<and> last sep \<notin> digit_char ` {..<10}"
proof -
  have "CHR ''$'' \<notin> digit_char ` {..<10}" "CHR ''#'' \<notin> digit_char ` {..<10}" by code_simp+
  with assms show ?thesis by (auto simp: separators_def)
qed

lemma unique_symbol_inj:
  assumes "fst (unique_symbol a s i) = fst (unique_symbol b s' j)" "s \<in> separators" "s' \<in> separators"
  shows "i = j"
  using unique_symbol_number[OF assms(1)] separators_end assms(2,3) by blast

lemma generated_mono: "generated c' n \<Longrightarrow> c \<le> c' \<Longrightarrow> generated c n"
  by (auto simp: generated_def intro: order.trans)

lemma generated_unique:
  assumes "sep \<in> separators"
  shows "generated c (fst (unique_symbol a sep i)) \<longleftrightarrow> c \<le> i"
proof
  assume "generated c (fst (unique_symbol a sep i))"
  then obtain b sep' j where "sep' \<in> separators" "c \<le> j" "fst (unique_symbol a sep i) = fst (unique_symbol b sep' j)"
    by (auto simp: generated_def)
  with unique_symbol_inj[OF this(3) assms] show "c \<le> i" by blast
qed (use assms in \<open>auto simp: generated_def\<close>)

lemma not_generated_plain: "CHR ''$'' \<notin> set x \<Longrightarrow> \<not> generated c x"
  by (auto simp: generated_def separators_def unique_symbol_def)

section \<open>Steps\<close>

definition step_by :: "(ssa_state \<Rightarrow> ssa_state \<Rightarrow> bool) \<Rightarrow> 'a ssa \<Rightarrow> bool" where
  "step_by R m \<longleftrightarrow> (\<forall>s a s'. m s = Inr (a, s') \<longrightarrow> R s s')"

lemma step_byD: "step_by R m \<Longrightarrow> m s = Inr (a, s') \<Longrightarrow> R s s'"
  by (auto simp: step_by_def)

lemma ssa_bind_Inr:
  "ssa_bind m f s = Inr r \<longleftrightarrow> (\<exists>a s1. m s = Inr (a, s1) \<and> f a s1 = Inr r)"
  by (auto simp: ssa_bind_def split: sum.splits prod.splits)

lemma ssa_return_Inr [simp]: "ssa_return a s = Inr (b, s') \<longleftrightarrow> b = a \<and> s' = s"
  by (auto simp: ssa_return_def)

lemma ssa_panic_Inr [simp]: "ssa_panic e s \<noteq> Inr r"
  by (simp add: ssa_panic_def)

lemma ssa_expect_Inr [simp]: "ssa_expect e x s = Inr (a, s') \<longleftrightarrow> x = Some a \<and> s' = s"
  by (cases x) (auto simp: ssa_expect_def)

text \<open>
  What consuming an expression does to the state: the counters grow, and only generated names are
  added to the innermost table, each mapped to itself.
\<close>

definition expr_step :: "ssa_state \<Rightarrow> ssa_state \<Rightarrow> bool" where
  "expr_step s s' \<longleftrightarrow>
     ss_counter s \<le> ss_counter s' \<and> rt_parent (ss_table s') = rt_parent (ss_table s) \<and>
     (\<forall>x. rename_lookup (ss_table s') x = rename_lookup (ss_table s) x \<or>
          rename_lookup (ss_table s') x = Some x \<and> generated (ss_counter s) x \<and> \<not> generated (ss_counter s') x) \<and>
     (\<forall>x \<in> set (local_names (ss_table s')). x \<in> set (local_names (ss_table s)) \<or> generated (ss_counter s) x)"

lemma expr_step_refl [simp]: "expr_step s s"
  by (simp add: expr_step_def)

lemma expr_step_trans: 
  assumes "expr_step s s1" "expr_step s1 s2" shows "expr_step s s2"
proof -
  have "generated (ss_counter s) x" if "generated (ss_counter s1) x" for x
    using generated_mono that assms(1) by (auto simp: expr_step_def)
  moreover have "\<not> generated (ss_counter s2) x" if "\<not> generated (ss_counter s1) x" for x
    using generated_mono[of "ss_counter s2" x "ss_counter s1"] that assms(2) by (auto simp: expr_step_def)
  ultimately show ?thesis using assms unfolding expr_step_def by (smt (verit) order.trans)
qed

lemma expr_step_bind [intro]:
  "step_by expr_step m \<Longrightarrow> (\<And>a. step_by expr_step (f a)) \<Longrightarrow> step_by expr_step (ssa_bind m f)"
  unfolding step_by_def ssa_bind_Inr by (meson expr_step_trans)

lemma expr_step_basic [intro, simp]:
  "step_by expr_step (ssa_return a)" "step_by expr_step (ssa_panic e)" "step_by expr_step (ssa_expect e x)"
  "step_by expr_step ssa_table" "step_by expr_step ssa_next_id" "step_by expr_step (ssa_set_type i ty)"
  "step_by expr_step (ssa_get_type msg i)"
  by (auto simp: step_by_def ssa_table_def ssa_next_id_def ssa_set_type_def ssa_get_type_def expr_step_def)

text \<open>The primitive operations, solved for their results.\<close>

lemma ssa_prims_Inr:
  "ssa_table s = Inr (t, s') \<longleftrightarrow> t = ss_table s \<and> s' = s"
  "ssa_next_id s = Inr (i, s') \<longleftrightarrow> i = ss_next s \<and> s' = s\<lparr>ss_next := Suc (ss_next s)\<rparr>"
  "ssa_set_type j ty s = Inr (u, s') \<longleftrightarrow> s' = s\<lparr>ss_types := (ss_types s)(j \<mapsto> ty)\<rparr>"
  "ssa_get_type msg j s = Inr (ty, s') \<longleftrightarrow> ss_types s j = Some ty \<and> s' = s"
  "ssa_update x new j s = Inr (u, s') \<longleftrightarrow> s' = s\<lparr>ss_table := rename_update x new j (ss_table s)\<rparr>"
  "ssa_put_table t s = Inr (u, s') \<longleftrightarrow> s' = s\<lparr>ss_table := t\<rparr>"
  "ssa_fresh a sep s = Inr (n, s') \<longleftrightarrow>
     n = fst (unique_symbol a sep (ss_counter s)) \<and> s' = s\<lparr>ss_counter := Suc (ss_counter s)\<rparr>"
  by (auto simp: ssa_table_def ssa_next_id_def ssa_set_type_def ssa_get_type_def ssa_update_def ssa_put_table_def
      ssa_fresh_def unique_symbol_def)

lemma simple_definition_Inr:
  "simple_definition i rhs s = Inr (st, s') \<longleftrightarrow>
     (\<exists>ty. ss_types s (expr_id rhs) = Some ty \<and> st = S_Definition (Single i) None rhs (ss_next s) \<and>
        s' = s\<lparr>ss_types := (ss_types s)(ident_id i \<mapsto> ty),
              ss_table := rename_update (ident_name i) (ident_name i) (ident_id i) (ss_table s),
              ss_next := Suc (ss_next s)\<rparr>)"
  by (auto simp: simple_definition_def ssa_bind_Inr ssa_prims_Inr)

lemma expr_step_fresh_definition:
  assumes "s' = s\<lparr>ss_types := tys, ss_table := rename_update n n i (ss_table s), ss_next := k, ss_counter := Suc (ss_counter s)\<rparr>"
    and "n = fst (unique_symbol a sep (ss_counter s))" "sep \<in> separators"
  shows "expr_step s s'"
  using assms generated_unique[OF assms(3), of "ss_counter s" a "ss_counter s"]
    generated_unique[OF assms(3), of "Suc (ss_counter s)" a "ss_counter s"]
  by (auto simp: expr_step_def local_names_update)

lemma expr_step_unique_definition [intro, simp]: "step_by expr_step (unique_simple_definition e)"
  unfolding step_by_def
proof (intro allI impI)
  fix s r s' assume "unique_simple_definition e s = Inr (r, s')"
  then show "expr_step s s'"
    by (intro expr_step_fresh_definition[where n = "fst (unique_symbol ''$var'' ''$'' (ss_counter s))"
            and a = "''$var''" and sep = "''$''" and i = "ss_next s" and k = "Suc (Suc (ss_next s))" and tys = "ss_types s'"])
       (auto simp: unique_simple_definition_def ssa_bind_Inr ssa_prims_Inr simple_definition_Inr separators_def Let_def)
qed

lemma expr_step_define [intro, simp]: "step_by expr_step (define_result r)"
  unfolding define_result_def by (auto split: prod.splits intro!: expr_step_bind)

lemma expr_step_path [intro, simp]: "step_by expr_step (consume_path p)"
  unfolding consume_path_def by (auto split: option.splits intro!: expr_step_bind)

lemma expr_step_copy [intro, simp]: "step_by expr_step (copy_base_fields b nts ms)"
  by (induction b nts ms rule: copy_base_fields.induct) (auto intro!: expr_step_bind)

lemma expr_step_consume:
  "step_by expr_step (consume_expression comps e)"
  "step_by expr_step (consume_list comps es)"
  "step_by expr_step (consume_option comps oe)"
  "step_by expr_step (consume_fields comps fs)"
  "step_by expr_step (consume_dynamic_kind comps k)"
  by (induction comps e and comps es and comps oe and comps fs and comps k
      rule: consume_expression_consume_list_consume_option_consume_fields_consume_dynamic_kind.induct)
     (auto simp: Let_def split: prod.splits option.splits intro!: expr_step_bind)

end
