(* ===== verification/Ssa_Exprs.thy ===== *)
theory Ssa_Exprs
  imports Ssa_Steps
begin

text \<open>
  Consuming an expression keeps its meaning: running the produced statements and then evaluating the
  produced expression gives what the original expression gives, and touches generated names only.
\<close>

section \<open>Variables that are read\<close>

fun expr_reads :: "expression \<Rightarrow> symbol list"
  and list_reads :: "expression list \<Rightarrow> symbol list"
  and option_reads :: "expression option \<Rightarrow> symbol list"
  and fields_reads :: "field_initializer list \<Rightarrow> symbol list"
  and kind_reads :: "dynamic_op_kind \<Rightarrow> symbol list"
where
  "expr_reads (E_ArrayAccess array _ _) = expr_reads array"
| "expr_reads (E_MemberAccess inner _ _) =
     (if (case inner of E_Path p \<Rightarrow> ident_name (identifier_of p) = ''self'' | _ \<Rightarrow> False) then [] else expr_reads inner)"
| "expr_reads (E_TupleAccess tuple _ _) = expr_reads tuple"
| "expr_reads (E_Array elements _) = list_reads elements"
| "expr_reads (E_Binary left right _ _) = expr_reads left @ expr_reads right"
| "expr_reads (E_Call _ _ args _) = list_reads args"
| "expr_reads (E_DynamicOp _ target network kind _) = expr_reads target @ option_reads network @ kind_reads kind"
| "expr_reads (E_Cast e _ _) = expr_reads e"
| "expr_reads (E_Composite _ _ inits base _) = fields_reads inits @ option_reads base"
| "expr_reads (E_Path p) =
     (case try_local_symbol p of
        Some x \<Rightarrow> [x]
      | None \<Rightarrow> if ident_name (identifier_of p) = ''self'' then [''self''] else [])"
| "expr_reads (E_Literal _) = []"
| "expr_reads (E_Repeat e _ _) = expr_reads e"
| "expr_reads (E_Ternary condition if_true if_false _) =
     expr_reads condition @ expr_reads if_true @ expr_reads if_false"
| "expr_reads (E_Tuple elements _) = list_reads elements"
| "expr_reads (E_Unary receiver _ _) = expr_reads receiver"
| "expr_reads (E_Unit _) = []"
| "expr_reads (E_Intrinsic _ _ _ _ args _) = list_reads args"
| "expr_reads (E_Async _ _) = []"
| "expr_reads (E_Err _) = []"
| "list_reads [] = []"
| "list_reads (e # es) = expr_reads e @ list_reads es"
| "option_reads None = []"
| "option_reads (Some e) = expr_reads e"
| "fields_reads [] = []"
| "fields_reads (Field_Init i oe _ # inits) =
     (case oe of Some e \<Rightarrow> expr_reads e | None \<Rightarrow> [ident_name i]) @ fields_reads inits"
| "kind_reads (Dyn_Call _ args) = list_reads args"
| "kind_reads (Dyn_Read _) = []"
| "kind_reads (Dyn_Op _ _ args) = list_reads args"

section \<open>Simulation\<close>

definition agree :: "nat \<Rightarrow> 'v env \<Rightarrow> 'v env \<Rightarrow> bool" where
  "agree c \<rho> \<rho>' \<longleftrightarrow> (\<forall>n. \<not> generated c n \<longrightarrow> \<rho>' n = \<rho> n)"

definition related :: "ssa_state \<Rightarrow> symbol set \<Rightarrow> 'v env \<Rightarrow> 'v env \<Rightarrow> bool" where
  "related s V \<rho> \<rho>' \<longleftrightarrow>
     (\<forall>x\<in>V. x \<noteq> ''self'' \<and> \<not> generated (ss_counter s) x \<and>
        (\<exists>n. rename_lookup (ss_table s) x = Some n \<and> \<rho>' n = \<rho> x \<and> \<not> generated (ss_counter s) n \<and> generated 0 n))"

lemma agree_refl [simp]: "agree c \<rho> \<rho>"
  by (simp add: agree_def)

lemma agree_trans: "agree c \<rho> \<rho>1 \<Longrightarrow> agree c' \<rho>1 \<rho>2 \<Longrightarrow> c \<le> c' \<Longrightarrow> agree c \<rho> \<rho>2"
  unfolding agree_def using generated_mono by metis

lemma related_step:
  assumes rel: "related s V \<rho> \<rho>'" and step: "expr_step s s'" and ag: "agree (ss_counter s) \<rho>' \<rho>''"
  shows "related s' V \<rho> \<rho>''"
  unfolding related_def
proof
  fix x assume "x \<in> V"
  with rel obtain n where n: "x \<noteq> ''self''" "\<not> generated (ss_counter s) x" "rename_lookup (ss_table s) x = Some n"
    "\<rho>' n = \<rho> x" "\<not> generated (ss_counter s) n" "generated 0 n" by (auto simp: related_def)
  have le: "ss_counter s \<le> ss_counter s'" using step by (simp add: expr_step_def)
  have "rename_lookup (ss_table s') x = Some n" using step n(2,3) unfolding expr_step_def by metis
  moreover have "\<rho>'' n = \<rho> x" using ag n(4,5) by (simp add: agree_def)
  ultimately show "x \<noteq> ''self'' \<and> \<not> generated (ss_counter s') x \<and>
      (\<exists>n. rename_lookup (ss_table s') x = Some n \<and> \<rho>'' n = \<rho> x \<and> \<not> generated (ss_counter s') n \<and> generated 0 n)"
    using n generated_mono[OF _ le] by blast
qed

definition sim_expr ::
  "('v, 'w) meaning \<Rightarrow> (location \<rightharpoonup> composite) \<Rightarrow> symbol set \<Rightarrow> ssa_state \<Rightarrow> ssa_state \<Rightarrow> statement list \<Rightarrow>
     ('v env \<Rightarrow> 'w \<Rightarrow> ('a \<times> 'w) option) \<Rightarrow> ('v env \<Rightarrow> 'w \<Rightarrow> ('a \<times> 'w) option) \<Rightarrow> bool" where
  "sim_expr M comps V s s' ss src tgt \<longleftrightarrow>
     (\<forall>\<rho> \<rho>' w. related s V \<rho> \<rho>' \<longrightarrow>
        exec_list M comps ss \<rho>' w = Halted \<and> src \<rho> w = None \<or>
        (\<exists>\<rho>1 w1. exec_list M comps ss \<rho>' w = Running \<rho>1 w1 \<and> agree (ss_counter s) \<rho>' \<rho>1 \<and>
           (\<forall>\<rho>2. agree (ss_counter s') \<rho>1 \<rho>2 \<longrightarrow> tgt \<rho>2 w1 = src \<rho> w)))"

definition sim_vals ::
  "('v, 'w) meaning \<Rightarrow> (location \<rightharpoonup> composite) \<Rightarrow> symbol set \<Rightarrow> ssa_state \<Rightarrow> ssa_state \<Rightarrow> statement list \<Rightarrow>
     ('v env \<Rightarrow> 'w \<Rightarrow> ('a \<times> 'w) option) \<Rightarrow> ('v env \<Rightarrow> 'w \<Rightarrow> ('a \<times> 'w) option) \<Rightarrow> bool" where
  "sim_vals M comps V s s' ss src tgt \<longleftrightarrow>
     (\<forall>\<rho> \<rho>' w. related s V \<rho> \<rho>' \<longrightarrow>
        exec_list M comps ss \<rho>' w = Halted \<and> src \<rho> w = None \<or>
        (\<exists>\<rho>1 w1 a. exec_list M comps ss \<rho>' w = Running \<rho>1 w1 \<and> agree (ss_counter s) \<rho>' \<rho>1 \<and> src \<rho> w = Some (a, w1) \<and>
           (\<forall>\<rho>2 w2. agree (ss_counter s') \<rho>1 \<rho>2 \<longrightarrow> tgt \<rho>2 w2 = Some (a, w2))))"

text \<open>Evaluation of two parts in order, and an operation on the result.\<close>

definition both :: "('e \<Rightarrow> 'w \<Rightarrow> ('a \<times> 'w) option) \<Rightarrow> ('e \<Rightarrow> 'w \<Rightarrow> ('b \<times> 'w) option) \<Rightarrow> 'e \<Rightarrow> 'w \<Rightarrow> (('a \<times> 'b) \<times> 'w) option" where
  "both f g \<rho> w = Option.bind (f \<rho> w) (\<lambda>(a, w1). Option.bind (g \<rho> w1) (\<lambda>(b, w2). Some ((a, b), w2)))"

definition post :: "('e \<Rightarrow> 'w \<Rightarrow> ('a \<times> 'w) option) \<Rightarrow> ('a \<Rightarrow> 'w \<Rightarrow> ('b \<times> 'w) option) \<Rightarrow> 'e \<Rightarrow> 'w \<Rightarrow> ('b \<times> 'w) option" where
  "post f k \<rho> w = Option.bind (f \<rho> w) (\<lambda>(a, w1). k a w1)"

lemma sim_valsE:
  assumes "sim_vals M comps V s s' ss src tgt" "related s V \<rho> \<rho>'"
  obtains (halts) "exec_list M comps ss \<rho>' w = Halted" "src \<rho> w = None"
  | (runs) \<rho>1 w1 a where "exec_list M comps ss \<rho>' w = Running \<rho>1 w1" "agree (ss_counter s) \<rho>' \<rho>1"
      "src \<rho> w = Some (a, w1)" "\<And>\<rho>2 w2. agree (ss_counter s') \<rho>1 \<rho>2 \<Longrightarrow> tgt \<rho>2 w2 = Some (a, w2)"
  using assms unfolding sim_vals_def by meson

lemma sim_exprE:
  assumes "sim_expr M comps V s s' ss src tgt" "related s V \<rho> \<rho>'"
  obtains (halts) "exec_list M comps ss \<rho>' w = Halted" "src \<rho> w = None"
  | (runs) \<rho>1 w1 where "exec_list M comps ss \<rho>' w = Running \<rho>1 w1" "agree (ss_counter s) \<rho>' \<rho>1"
      "\<And>\<rho>2. agree (ss_counter s') \<rho>1 \<rho>2 \<Longrightarrow> tgt \<rho>2 w1 = src \<rho> w"
  using assms unfolding sim_expr_def by meson

text \<open>To show a simulation, it is enough to look at one pair of environments.\<close>

definition runs_to ::
  "('v, 'w) meaning \<Rightarrow> (location \<rightharpoonup> composite) \<Rightarrow> ssa_state \<Rightarrow> ssa_state \<Rightarrow> statement list \<Rightarrow> 'v env \<Rightarrow> 'w \<Rightarrow>
     ('v env \<Rightarrow> 'w \<Rightarrow> bool) \<Rightarrow> bool" where
  "runs_to M comps s s' ss \<rho>' w P \<longleftrightarrow>
     (\<exists>\<rho>1 w1. exec_list M comps ss \<rho>' w = Running \<rho>1 w1 \<and> agree (ss_counter s) \<rho>' \<rho>1 \<and> P \<rho>1 w1)"

lemma sim_valsI:
  assumes "\<And>\<rho> \<rho>' w. related s V \<rho> \<rho>' \<Longrightarrow>
     exec_list M comps ss \<rho>' w = Halted \<and> src \<rho> w = None \<or>
     runs_to M comps s s' ss \<rho>' w (\<lambda>\<rho>1 w1. \<exists>a. src \<rho> w = Some (a, w1) \<and>
        (\<forall>\<rho>2 w2. agree (ss_counter s') \<rho>1 \<rho>2 \<longrightarrow> tgt \<rho>2 w2 = Some (a, w2)))"
  shows "sim_vals M comps V s s' ss src tgt"
  using assms unfolding sim_vals_def runs_to_def by blast

lemma sim_exprI:
  assumes "\<And>\<rho> \<rho>' w. related s V \<rho> \<rho>' \<Longrightarrow>
     exec_list M comps ss \<rho>' w = Halted \<and> src \<rho> w = None \<or>
     runs_to M comps s s' ss \<rho>' w (\<lambda>\<rho>1 w1. \<forall>\<rho>2. agree (ss_counter s') \<rho>1 \<rho>2 \<longrightarrow> tgt \<rho>2 w1 = src \<rho> w)"
  shows "sim_expr M comps V s s' ss src tgt"
  using assms unfolding sim_expr_def runs_to_def by blast

lemma sim_vals_both:
  assumes A: "sim_vals M comps V s s1 ss A A'" and B: "sim_vals M comps V s1 s2 ts B B'"
    and steps: "expr_step s s1" "expr_step s1 s2"
  shows "sim_vals M comps V s s2 (ss @ ts) (both A B) (both A' B')"
proof (rule sim_valsI, goal_cases)
  case (1 \<rho> \<rho>' w)
  have le: "ss_counter s \<le> ss_counter s1" "ss_counter s1 \<le> ss_counter s2" using steps by (simp_all add: expr_step_def)
  from A 1 show ?case
  proof (cases rule: sim_valsE[where w = w])
    case (runs \<rho>1 w1 a)
    note A1 = runs
    from B related_step[OF 1 steps(1) A1(2)] show ?thesis
    proof (cases rule: sim_valsE[where w = w1])
      case (runs \<rho>2 w2 b)
      have "both A' B' \<rho>3 w3 = Some ((a, b), w3)" if "agree (ss_counter s2) \<rho>2 \<rho>3" for \<rho>3 w3
        using A1(4)[OF agree_trans[OF runs(2) that le(2)]] runs(4)[OF that] by (simp add: both_def)
      then show ?thesis
        using A1(1,3) runs(1,3) agree_trans[OF A1(2) runs(2) le(1)]
        by (simp add: runs_to_def exec_list_append both_def)
    qed (simp add: A1 exec_list_append both_def)
  qed (simp add: exec_list_append both_def)
qed

lemma sim_vals_post:
  assumes "sim_vals M comps V s s' ss A A'"
  shows "sim_expr M comps V s s' ss (post A k) (post A' k)"
proof (rule sim_exprI, goal_cases)
  case (1 \<rho> \<rho>' w)
  from assms 1 show ?case
    by (cases rule: sim_valsE[where w = w]) (auto simp: runs_to_def post_def)
qed

lemma sim_vals_map:
  assumes "sim_vals M comps V s s' ss A A'"
  shows "sim_vals M comps V s s' ss (post A (\<lambda>a w. Some (f a, w))) (post A' (\<lambda>a w. Some (f a, w)))"
proof (rule sim_valsI, goal_cases)
  case (1 \<rho> \<rho>' w)
  from assms 1 show ?case
    by (cases rule: sim_valsE[where w = w]) (auto simp: runs_to_def post_def)
qed

lemma sim_vals_expr:
  assumes "sim_vals M comps V s s' ss A A'"
  shows "sim_expr M comps V s s' ss A A'"
proof (rule sim_exprI, goal_cases)
  case (1 \<rho> \<rho>' w)
  from assms 1 show ?case
    by (cases rule: sim_valsE[where w = w]) (auto simp: runs_to_def)
qed

lemma sim_vals_const [simp]: "sim_vals M comps V s s [] (\<lambda>\<rho> w. Some (a, w)) (\<lambda>\<rho> w. Some (a, w))"
  by (rule sim_valsI) (simp add: runs_to_def)

section \<open>Atoms\<close>

lemma atom_eval: "is_atom e \<Longrightarrow> (\<forall>i. e \<noteq> E_Err i) \<Longrightarrow> \<exists>v. \<forall>w. eval M comps e \<rho> w = Some (v, w)"
  by (cases e) auto

lemma sim_define_result:
  assumes sim: "sim_expr M comps V s s1 ss src (eval M comps e)" and no_err: "\<forall>i. e \<noteq> E_Err i"
    and le: "ss_counter s \<le> ss_counter s1"
    and d: "define_result (e, ss) s1 = Inr ((e', ss'), s')"
  shows "sim_vals M comps V s s' ss' src (eval M comps e')"
proof (cases "is_atom e")
  case True
  with d have e': "e' = e" "ss' = ss" "s' = s1" by (simp_all add: define_result_def)
  show ?thesis
  proof (rule sim_valsI, goal_cases)
    case (1 \<rho> \<rho>' w)
    from sim 1 show ?case
    proof (cases rule: sim_exprE[where w = w])
      case (runs \<rho>1 w1)
      obtain v where v: "\<forall>w. eval M comps e \<rho>1 w = Some (v, w)" using atom_eval[OF True no_err, of M comps \<rho>1] by blast
      then have src: "src \<rho> w = Some (v, w1)" using runs(3)[OF agree_refl] by simp
      have "eval M comps e \<rho>2 w2 = Some (v, w2)" if "agree (ss_counter s1) \<rho>1 \<rho>2" for \<rho>2 w2
        using atom_eval[OF True no_err, of M comps \<rho>2] runs(3)[OF that] src by auto
      with runs src show ?thesis by (auto simp: runs_to_def e')
    qed (simp add: e')
  qed
next
  case False
  define n where "n = fst (unique_symbol ''$var'' ''$'' (ss_counter s1))"
  obtain i nid where e': "e' = E_Path (to_local (path_of_ident \<lparr>ident_name = n, ident_id = i\<rparr>))"
    and ss': "ss' = ss @ [S_Definition (Single \<lparr>ident_name = n, ident_id = i\<rparr>) None e nid]"
    and s': "ss_counter s' = Suc (ss_counter s1)"
    using d False
    by (auto simp: define_result_def unique_simple_definition_def ssa_bind_Inr ssa_prims_Inr simple_definition_Inr
        Let_def n_def)
  have gen: "generated c n \<longleftrightarrow> c \<le> ss_counter s1" for c
    unfolding n_def by (rule generated_unique) (simp add: separators_def)
  have val: "eval M comps e' \<rho> w = Some (\<rho> n, w)" for \<rho> w
    by (simp add: e' read_path_def try_local_symbol_def to_local_def path_of_ident_def path_new_def)
  show ?thesis
  proof (rule sim_valsI, goal_cases)
    case (1 \<rho> \<rho>' w)
    from sim 1 show ?case
    proof (cases rule: sim_exprE[where w = w])
      case (runs \<rho>1 w1)
      have src: "eval M comps e \<rho>1 w1 = src \<rho> w" using runs(3) by simp
      show ?thesis
      proof (cases "src \<rho> w")
        case None
        with runs(1) src show ?thesis by (simp add: ss' exec_list_append)
      next
        case (Some r)
        obtain v w2 where r: "r = (v, w2)" by fastforce
        have "agree (ss_counter s) \<rho>' (\<rho>1(n := v))" using runs(2) gen le by (auto simp: agree_def)
        moreover have "\<rho>2 n = v" if "agree (ss_counter s') (\<rho>1(n := v)) \<rho>2" for \<rho>2
          using that gen s' by (auto simp: agree_def)
        ultimately show ?thesis
          using runs(1) src Some r by (simp add: runs_to_def ss' exec_list_append define_place_def run_with_def val)
      qed
    qed (simp add: ss' exec_list_append)
  qed
qed

lemma sim_path:
  assumes "consume_path p s = Inr ((e', ss), s')" and "set (expr_reads (E_Path p)) \<subseteq> V"
  shows "s' = s \<and> sim_vals M comps V s s ss (eval M comps (E_Path p)) (eval M comps e')"
proof (cases "try_local_symbol p")
  case None
  with assms(1) show ?thesis by (simp add: consume_path_def read_path_def)
next
  case (Some x)
  with assms(2) have x: "x \<in> V" by simp
  let ?n = "case rename_lookup (ss_table s) x of Some n \<Rightarrow> n | None \<Rightarrow> x"
  from assms(1) Some obtain p' where p': "with_updated_last_symbol p ?n = Some p'" "e' = E_Path p'" "ss = []" "s' = s"
    by (auto simp: consume_path_def ssa_bind_Inr ssa_prims_Inr)
  have local: "try_local_symbol p' = Some ?n"
    using p'(1) Some by (auto simp: with_updated_last_symbol_def try_local_symbol_def Let_def split: path_target.splits)
  have "sim_vals M comps V s s ss (eval M comps (E_Path p)) (eval M comps e')"
  proof (rule sim_valsI, goal_cases)
    case (1 \<rho> \<rho>' w)
    with x obtain n where "rename_lookup (ss_table s) x = Some n" "\<rho>' n = \<rho> x" "\<not> generated (ss_counter s) n"
      by (auto simp: related_def)
    then show ?case using Some local p'(2,3) by (auto simp: runs_to_def read_path_def agree_def)
  qed
  with p' show ?thesis by simp
qed

text \<open>A consumed expression is never the path \<^verbatim>\<open>self\<close>, nor an error node.\<close>

definition self_path :: "expression \<Rightarrow> bool" where
  "self_path e \<longleftrightarrow> (case e of E_Path p \<Rightarrow> ident_name (identifier_of p) = ''self'' | _ \<Rightarrow> False)"

lemma generated_not_self: "generated c n \<Longrightarrow> n \<noteq> ''self''"
  using not_generated_plain[of "''self''"] by force

lemma consume_no_err: "consume_expression comps e s = Inr ((E_Err i, ss), s') \<Longrightarrow> False"
  by (cases e)
     (auto simp: ssa_bind_Inr consume_path_def Let_def split: prod.splits option.splits if_splits)

lemma consume_path_not_self:
  assumes c: "consume_path p s = Inr ((e', ss), s')" and "set (expr_reads (E_Path p)) \<subseteq> V" and rel: "related s V \<rho> \<rho>'"
  shows "\<not> self_path e'"
proof (cases "try_local_symbol p")
  case None
  with assms show ?thesis by (auto simp: consume_path_def self_path_def related_def split: if_splits)
next
  case (Some x)
  with assms(2) rel obtain n where n: "rename_lookup (ss_table s) x = Some n" "generated 0 n"
    by (auto simp: related_def)
  from c Some n(1) obtain p' where "with_updated_last_symbol p n = Some p'" "e' = E_Path p'"
    by (auto simp: consume_path_def ssa_bind_Inr ssa_prims_Inr)
  then have "\<exists>p'. e' = E_Path p' \<and> ident_name (identifier_of p') = n"
    by (auto simp: with_updated_last_symbol_def Let_def split: path_target.splits if_splits)
  with generated_not_self[OF n(2)] show ?thesis by (auto simp: self_path_def)
qed

lemma define_not_self:
  assumes c: "ssa_bind (consume_expression comps e) define_result s = Inr ((e', ss), s')"
    and reads: "set (expr_reads e) \<subseteq> V" and rel: "related s V \<rho> \<rho>'"
  shows "\<not> self_path e'"
proof -
  from c obtain e1 ss1 s1 where c1: "consume_expression comps e s = Inr ((e1, ss1), s1)"
    and d: "define_result (e1, ss1) s1 = Inr ((e', ss), s')" by (auto simp: ssa_bind_Inr)
  show ?thesis
  proof (cases "is_atom e1")
    case True
    then have e': "e' = e1" using d by (simp add: define_result_def)
    show ?thesis
    proof (cases e1)
      case (E_Path p1)
      with c1 obtain p where p: "e = E_Path p"
        by (cases e) (auto simp: ssa_bind_Inr Let_def split: prod.splits option.splits if_splits)
      with c1 consume_path_not_self[of p s e1 ss1 s1 V \<rho> \<rho>'] reads rel e' show ?thesis by simp
    qed (use True e' in \<open>auto simp: self_path_def\<close>)
  next
    case False
    then obtain i where "e' = E_Path (to_local (path_of_ident
        \<lparr>ident_name = fst (unique_symbol ''$var'' ''$'' (ss_counter s1)), ident_id = i\<rparr>))"
      using d by (auto simp: define_result_def unique_simple_definition_def ssa_bind_Inr ssa_prims_Inr
          simple_definition_Inr Let_def)
    then show ?thesis
      by (simp add: self_path_def to_local_def path_of_ident_def path_new_def unique_symbol_def)
  qed
qed

section \<open>Composites\<close>

lemma define_atom:
  assumes "ssa_bind (consume_expression comps e) define_result s = Inr ((e', ss), s')"
  shows "is_atom e' \<and> (\<forall>j. e' \<noteq> E_Err j)"
proof -
  from assms obtain e1 ss1 s1 where c1: "consume_expression comps e s = Inr ((e1, ss1), s1)"
    and d: "define_result (e1, ss1) s1 = Inr ((e', ss), s')" by (auto simp: ssa_bind_Inr)
  show ?thesis
  proof (cases "is_atom e1")
    case True
    with d have "e' = e1" by (simp add: define_result_def)
    with True consume_no_err[of comps e s] c1 show ?thesis by auto
  qed (use d in \<open>auto simp: define_result_def ssa_bind_Inr split: prod.splits\<close>)
qed

lemma consume_path_atom: "consume_path p s = Inr ((e', ss), s') \<Longrightarrow> \<exists>p'. e' = E_Path p'"
  by (auto simp: consume_path_def ssa_bind_Inr split: option.splits)

definition atom_field :: "field_initializer \<Rightarrow> bool" where
  "atom_field f \<longleftrightarrow> (\<exists>i e n. f = Field_Init i (Some e) n \<and> is_atom e \<and> (\<forall>j. e \<noteq> E_Err j))"

lemma consume_fields_atoms:
  "consume_fields comps inits s = Inr ((inits', ss), s') \<Longrightarrow> f \<in> set inits' \<Longrightarrow> atom_field f"
proof (induction inits arbitrary: inits' ss s s')
  case (Cons g inits)
  obtain i oe nid where g: "g = Field_Init i oe nid" by (cases g) auto
  from Cons.prems(1) obtain e1 ss1 s1 inits1 ss2 where
    e1: "(case oe of Some e \<Rightarrow> ssa_bind (consume_expression comps e) define_result
          | None \<Rightarrow> consume_path (to_local (path_of_ident i))) s = Inr ((e1, ss1), s1)"
    and rest: "consume_fields comps inits s1 = Inr ((inits1, ss2), s')"
    and inits': "inits' = Field_Init i (Some e1) nid # inits1"
    by (auto simp: g ssa_bind_Inr split: prod.splits)
  have "is_atom e1 \<and> (\<forall>j. e1 \<noteq> E_Err j)"
    using e1 define_atom consume_path_atom by (cases oe) fastforce+
  with Cons.IH[OF rest] Cons.prems(2) inits' show ?case by (auto simp: atom_field_def)
qed simp

text \<open>A field whose expression neither reads nor changes the world.\<close>

definition pure_field ::
  "('v, 'w) meaning \<Rightarrow> (location \<rightharpoonup> composite) \<Rightarrow> 'v env \<Rightarrow> field_initializer \<Rightarrow> symbol \<Rightarrow> 'v option \<Rightarrow> bool" where
  "pure_field M comps \<rho> f name val \<longleftrightarrow>
     (\<exists>i e n. f = Field_Init i (Some e) n \<and> ident_name i = name \<and>
        (\<forall>w. eval M comps e \<rho> w = map_option (\<lambda>v. (v, w)) val))"

lemma eval_fields_pure:
  "list_all2 (\<lambda>n f. pure_field M comps \<rho> f n (F n)) names fs \<Longrightarrow>
     eval_fields M comps fs \<rho> w = map_option (\<lambda>vs. (zip names vs, w)) (collect_opt (map F names))"
proof (induction names fs rule: list_all2_induct)
  case (Cons n names f fs)
  then obtain i e m where f: "f = Field_Init i (Some e) m" "ident_name i = n"
    and e: "\<forall>w. eval M comps e \<rho> w = map_option (\<lambda>v. (v, w)) (F n)" by (auto simp: pure_field_def)
  show ?case
  proof (cases "F n")
    case (Some v)
    then show ?thesis using Cons.IH f e by (cases "collect_opt (map F names)") auto
  qed (use f e in simp)
qed simp

lemma atom_field_pure:
  "atom_field f \<Longrightarrow> \<exists>v. pure_field M comps \<rho> f (field_init_key f) (Some v)"
  using atom_eval[of _ M comps \<rho>] by (fastforce simp: atom_field_def pure_field_def)

lemma map_of_fold_update:
  "map_of (fold (\<lambda>f. AList.update (key f) f) fs ms) n =
     (case map_of (rev (map (\<lambda>f. (key f, f)) fs)) n of Some f \<Rightarrow> Some f | None \<Rightarrow> map_of ms n)"
  by (induction fs arbitrary: ms) (auto simp: update_conv map_add_def split: option.splits)

lemma map_of_values: "map_of (map (\<lambda>f. (key f, val f)) fs) n = map_option val (map_of (map (\<lambda>f. (key f, f)) fs) n)"
  by (induction fs) auto

lemma copy_base_fields_counter: "copy_base_fields b nts ms s = Inr (ms', s') \<Longrightarrow> ss_counter s' = ss_counter s"
  by (induction b nts ms arbitrary: s rule: copy_base_fields.induct)
     (fastforce simp: ssa_bind_Inr ssa_prims_Inr split: if_splits)+

lemma copy_base_fields_members:
  "copy_base_fields b nts ms s = Inr (ms', s') \<Longrightarrow>
     (\<forall>f. map_of ms n = Some f \<longrightarrow> map_of ms' n = Some f) \<and>
     (map_of ms n = None \<longrightarrow>
        (if n \<in> fst ` set nts
         then \<exists>i1 i2 i3 i4. map_of ms' n =
           Some (Field_Init \<lparr>ident_name = n, ident_id = i1\<rparr> (Some (E_MemberAccess b \<lparr>ident_name = n, ident_id = i2\<rparr> i3)) i4)
         else map_of ms' n = None))"
proof (induction b nts ms arbitrary: s rule: copy_base_fields.induct)
  case (2 base name ty rest members)
  show ?case
  proof (cases "map_of members name = None")
    case True
    from "2.prems" True obtain i1 i2 i3 i4 s1 where
      "copy_base_fields base rest (AList.update name (Field_Init \<lparr>ident_name = name, ident_id = i1\<rparr>
         (Some (E_MemberAccess base \<lparr>ident_name = name, ident_id = i2\<rparr> i3)) i4) members) s1 = Inr (ms', s')"
      by (auto simp: ssa_bind_Inr)
    from "2.IH"(2)[OF _ this] True show ?thesis by (cases "n = name") (auto simp: update_conv)
  next
    case False
    with "2.IH"(1)[of s] "2.prems" show ?thesis by (cases "n = name") auto
  qed
qed simp

lemma take_members_found: "take_members ns ms = Some fs \<Longrightarrow> list_all2 (\<lambda>n f. map_of ms n = Some f) ns fs"
proof (induction ns ms arbitrary: fs rule: take_members.induct)
  case (2 n ns ms)
  then obtain m fs' where m: "map_of ms n = Some m" "take_members ns (AList.delete n ms) = Some fs'" "fs = m # fs'"
    by (auto split: option.splits)
  have "list_all2 (\<lambda>n f. map_of (AList.delete n' ms) n = Some f) ns fs' \<Longrightarrow>
      list_all2 (\<lambda>n f. map_of ms n = Some f) ns fs'" for n'
    by (erule list_all2_mono) (auto simp: delete_conv split: if_splits)
  with "2.IH"[OF m(1,2)] m show ?case by auto
qed simp

lemma field_value_zip:
  assumes "collect_opt (map F order) = Some vals" "n \<in> set order"
  shows "field_value M (zip order vals) None n = F n"
proof -
  have eq: "map F order = map Some vals" using assms(1) by (simp add: collect_opt_Some_iff)
  then have len: "length vals = length order" by (metis length_map)
  have F: "F k = Some v" if "(k, v) \<in> set (zip order vals)" for k v
    using that eq len by (auto simp: in_set_zip) (metis length_map nth_map)
  have "n \<in> fst ` set (rev (zip order vals))" using assms(2) len by (metis map_fst_zip set_map set_rev)
  then obtain v where v: "map_of (rev (zip order vals)) n = Some v" using map_of_eq_None_iff by (metis not_None_eq)
  with F map_of_SomeD[OF v] show ?thesis by (simp add: field_value_def)
qed

lemma collect_opt_fails: "collect_opt xs = None \<longleftrightarrow> None \<in> set xs"
proof (induction xs)
  case (Cons x xs)
  then show ?case by (cases x) auto
qed simp

lemma set_init_order: "set (init_order c) = set (member_names c) \<union> (if comp_is_record c then {''owner''} else {})"
  by (auto simp: init_order_def)

lemma eval_composite_init:
  fixes M :: "('v, 'w) meaning"
  assumes fs: "\<forall>f\<in>set inits. atom_field f" and vs: "\<And>w. eval_fields M comps inits \<rho> w = Some (vs, w)"
    and base: "case base of None \<Rightarrow> bv = None \<and> members' = members
               | Some b \<Rightarrow> \<not> self_path b \<and> (\<exists>v. bv = Some v \<and> (\<forall>w. eval M comps b \<rho> w = Some (v, w))) \<and>
                   (\<exists>s s'. copy_base_fields b (map (\<lambda>m. (ident_name (mem_identifier m), mem_type m)) (comp_members c))
                      members s = Inr (members', s'))"
    and members: "members = fold (\<lambda>f. AList.update (field_init_key f) f) inits []"
    and take: "take_members (init_order c) members' = Some out"
    and c: "try_global_location path = Some loc" "comps loc = Some c"
  shows "eval M comps (E_Composite path cargs out None nid) \<rho> w = build_composite M comps path cargs vs bv w"
proof -
  let ?F = "field_value M vs bv"
  obtain val where val: "\<forall>f\<in>set inits. pure_field M comps \<rho> f (field_init_key f) (Some (val f))"
    using fs atom_field_pure[of _ M comps \<rho>] by metis
  have "list_all2 (\<lambda>n f. pure_field M comps \<rho> f n (Some (val f))) (map field_init_key inits) inits"
    using val by (auto simp: list_all2_conv_all_nth)
  have ev: "eval_fields M comps fs \<rho> w = Some (map (\<lambda>f. (field_init_key f, val f)) fs, w)" if "set fs \<subseteq> set inits" for fs w
    using that
  proof (induction fs)
    case (Cons f fs)
    then have "pure_field M comps \<rho> f (field_init_key f) (Some (val f))" using val by simp
    with Cons show ?case by (auto simp: pure_field_def)
  qed simp
  have listed: "map_of (rev vs) n = map_option val (map_of (rev (map (\<lambda>f. (field_init_key f, f)) inits)) n)" for n
    using vs[of w] ev[of inits w] map_of_values[of field_init_key val "rev inits" n] by (simp flip: rev_map)
  have mem: "map_of members n = map_of (rev (map (\<lambda>f. (field_init_key f, f)) inits)) n" for n
    by (simp add: members map_of_fold_update split: option.split)
  have old: "pure_field M comps \<rho> f n (?F n) \<and> ?F n \<noteq> None" if "map_of members n = Some f" for n f
  proof -
    from that mem have "map_of (rev (map (\<lambda>f. (field_init_key f, f)) inits)) n = Some f" by simp
    moreover from map_of_SomeD[OF this] have "f \<in> set inits" "field_init_key f = n" by auto
    ultimately show ?thesis using val listed[of n] by (auto simp: field_value_def)
  qed
  have pure: "pure_field M comps \<rho> f n (?F n) \<and> (n \<in> set (member_names c) \<or> ?F n \<noteq> None)" if f: "map_of members' n = Some f" for n f
  proof (cases "map_of members n")
    case (Some g)
    have "members' = members \<or> map_of members' n = Some g"
      using base Some copy_base_fields_members[of _ _ members _ members' _ n] by (auto split: option.splits)
    with Some f old show ?thesis by auto
  next
    case None
    then have no: "map_of (rev vs) n = None" using listed mem by simp
    obtain b v s s' where b: "base = Some b" "\<not> self_path b" "bv = Some v" "\<forall>w. eval M comps b \<rho> w = Some (v, w)"
      "copy_base_fields b (map (\<lambda>m. (ident_name (mem_identifier m), mem_type m)) (comp_members c)) members s = Inr (members', s')"
      using base None f by (auto split: option.splits)
    have "n \<in> fst ` set (map (\<lambda>m. (ident_name (mem_identifier m), mem_type m)) (comp_members c))"
      using copy_base_fields_members[OF b(5), of n] None f by (auto split: if_splits)
    then have "n \<in> set (member_names c)" "\<exists>i1 i2 i3 i4. f = Field_Init \<lparr>ident_name = n, ident_id = i1\<rparr>
        (Some (E_MemberAccess b \<lparr>ident_name = n, ident_id = i2\<rparr> i3)) i4"
      using copy_base_fields_members[OF b(5), of n] None f by (auto simp: member_names_def image_iff)
    with b no show ?thesis by (auto simp: pure_field_def field_value_def self_path_def)
  qed
  note found = take_members_found[OF take]
  then have "list_all2 (\<lambda>n f. pure_field M comps \<rho> f n (?F n)) (init_order c) out"
    using pure by (auto elim!: list_all2_mono)
  note out = eval_fields_pure[OF this]
  have sub: "set (member_names c) \<subseteq> set (init_order c)" by (auto simp: set_init_order)
  show ?thesis
  proof (cases "collect_opt (map ?F (init_order c))")
    case (Some vals)
    have "map (field_value M (zip (init_order c) vals) None) (member_names c) = map ?F (member_names c)"
      using field_value_zip[OF Some] sub by (auto intro!: map_cong)
    then show ?thesis using out Some c by (simp add: build_composite_def del: map_eq_conv)
  next
    case None
    then obtain n where n: "n \<in> set (init_order c)" "?F n = None" by (auto simp: collect_opt_fails)
    then obtain f where "map_of members' n = Some f" using found by (auto simp: list_all2_conv_all_nth in_set_conv_nth)
    with pure n(2) have "n \<in> set (member_names c)" by blast
    with n(2) have "collect_opt (map ?F (member_names c)) = None" by (force simp: collect_opt_fails)
    then show ?thesis using out None c by (simp add: build_composite_def)
  qed
qed

section \<open>Consuming expressions\<close>

text \<open>The evaluation of every kind of expression, as an operation after its operands.\<close>

lemma eval_as_post:
  "eval M comps (E_ArrayAccess a index i) = post (eval M comps a) (\<lambda>v. m_op M (H_ArrayAccess index) [v])"
  "eval M comps (E_TupleAccess a n i) = post (eval M comps a) (\<lambda>v. m_op M (H_TupleAccess n) [v])"
  "eval M comps (E_Cast a ty i) = post (eval M comps a) (\<lambda>v. m_op M (H_Cast ty) [v])"
  "eval M comps (E_Repeat a cnt i) = post (eval M comps a) (\<lambda>v. m_op M (H_Repeat cnt) [v])"
  "eval M comps (E_Unary a uop i) = post (eval M comps a) (\<lambda>v. m_op M (H_Unary uop) [v])"
  "eval M comps (E_Array es i) = post (eval_list M comps es) (\<lambda>vs. m_op M H_Array vs)"
  "eval M comps (E_Tuple es i) = post (eval_list M comps es) (\<lambda>vs. m_op M H_Tuple vs)"
  "eval M comps (E_Call f cargs es i) = post (eval_list M comps es) (\<lambda>vs. m_op M (H_Call f cargs) vs)"
  "eval M comps (E_Intrinsic name tys ins outs es i) =
     post (eval_list M comps es) (\<lambda>vs. m_op M (H_Intrinsic name tys ins outs) vs)"
  "eval M comps (E_Binary a b op i) = post (both (eval M comps a) (eval M comps b)) (\<lambda>(u, v). m_op M (H_Binary op) [u, v])"
  "eval M comps (E_Ternary a b c i) =
     post (both (eval M comps a) (both (eval M comps b) (eval M comps c)))
       (\<lambda>(t, u, v) w. map_option (\<lambda>t. (if t then u else v, w)) (m_truth M t))"
  by (simp_all add: fun_eq_iff post_def both_def split: Option.bind_split)

lemma eval_member_as_post:
  "\<not> self_path a \<Longrightarrow> eval M comps (E_MemberAccess a name i) =
     post (eval M comps a) (\<lambda>v w. map_option (\<lambda>r. (r, w)) (m_member M (ident_name name) v))"
  by (simp add: fun_eq_iff post_def self_path_def)

lemma eval_parts_as_map:
  "eval_list M comps (e # es) =
     post (both (eval M comps e) (eval_list M comps es)) (\<lambda>p w. Some ((\<lambda>(v, vs). v # vs) p, w))"
  "eval_option M comps (Some e) = post (eval M comps e) (\<lambda>v w. Some (Some v, w))"
  "eval_fields M comps (Field_Init i (Some e) n # inits) =
     post (both (eval M comps e) (eval_fields M comps inits)) (\<lambda>p w. Some ((\<lambda>(v, vs). (ident_name i, v) # vs) p, w))"
  "eval_kind M comps ifc net (Dyn_Call f es) = post (eval_list M comps es) (\<lambda>vs w. Some ((H_DynCall ifc f net, vs), w))"
  "eval_kind M comps ifc net (Dyn_Op m f es) = post (eval_list M comps es) (\<lambda>vs w. Some ((H_DynOp ifc m f net, vs), w))"
  by (auto simp: fun_eq_iff post_def both_def map_option_case split: Option.bind_split option.splits)

lemma eval_field_path:
  "eval_fields M comps (Field_Init i None n # inits) =
     eval_fields M comps (Field_Init i (Some (E_Path (to_local (path_of_ident i)))) n # inits)"
  by (simp add: fun_eq_iff read_path_def try_local_symbol_def to_local_def path_of_ident_def path_new_def)

definition sim_define where
  "sim_define M comps V e \<longleftrightarrow>
     (\<forall>s e' ss s'. ssa_bind (consume_expression comps e) define_result s = Inr ((e', ss), s') \<longrightarrow>
        sim_vals M comps V s s' ss (eval M comps e) (eval M comps e'))"

lemma sim_defineI:
  assumes "\<And>s e1 ss1 s1. consume_expression comps e s = Inr ((e1, ss1), s1) \<Longrightarrow>
     sim_expr M comps V s s1 ss1 (eval M comps e) (eval M comps e1)"
  shows "sim_define M comps V e"
  unfolding sim_define_def
proof (intro allI impI)
  fix s e' ss s' assume "ssa_bind (consume_expression comps e) define_result s = Inr ((e', ss), s')"
  then obtain e1 ss1 s1 where c1: "consume_expression comps e s = Inr ((e1, ss1), s1)"
    and d: "define_result (e1, ss1) s1 = Inr ((e', ss), s')" by (auto simp: ssa_bind_Inr)
  have "ss_counter s \<le> ss_counter s1" using step_byD[OF expr_step_consume(1) c1] by (simp add: expr_step_def)
  then show "sim_vals M comps V s s' ss (eval M comps e) (eval M comps e')"
    using sim_define_result[OF assms[OF c1] _ _ d] consume_no_err c1 by blast
qed

lemma sim_one:
  assumes "sim_define M comps V e"
    and "ssa_bind (ssa_bind (consume_expression comps e) define_result) (\<lambda>(e', ss). ssa_return (K e', ss)) s = Inr ((r, ss), s')"
    and "\<And>e1. ssa_bind (consume_expression comps e) define_result s = Inr ((e1, ss), s') \<Longrightarrow>
           f = post (eval M comps e) k \<and> eval M comps (K e1) = post (eval M comps e1) k"
  shows "sim_expr M comps V s s' ss f (eval M comps r)"
proof -
  from assms(2) obtain e1 where e1: "ssa_bind (consume_expression comps e) define_result s = Inr ((e1, ss), s')" "r = K e1"
    by (auto simp: ssa_bind_Inr[of "ssa_bind _ _"] split: prod.splits)
  then have "sim_vals M comps V s s' ss (eval M comps e) (eval M comps e1)"
    using assms(1) unfolding sim_define_def by blast
  with assms(3)[OF e1(1)] e1(2) show ?thesis using sim_vals_post by metis
qed

lemma sim_two:
  assumes "sim_define M comps V a" "sim_define M comps V b"
    and "ssa_bind (consume_expression comps a) define_result s = Inr ((a', ss), s1)"
    and "ssa_bind (consume_expression comps b) define_result s1 = Inr ((b', ts), s2)"
  shows "sim_vals M comps V s s2 (ss @ ts) (both (eval M comps a) (eval M comps b)) (both (eval M comps a') (eval M comps b'))"
proof -
  have step: "step_by expr_step (ssa_bind (consume_expression comps e) define_result)" for e
    by (intro expr_step_bind) (simp_all add: expr_step_consume)
  show ?thesis
    using assms step_byD[OF step assms(3)] step_byD[OF step assms(4)] unfolding sim_define_def
    by (intro sim_vals_both) blast+
qed

lemma define_step: "step_by expr_step (ssa_bind (consume_expression comps e) define_result)"
  by (intro expr_step_bind) (simp_all add: expr_step_consume)

lemma sim_expr_world: "sim_expr M comps V s s [] (\<lambda>\<rho>. g) (\<lambda>\<rho>. g)"
  by (rule sim_exprI) (simp add: runs_to_def)

lemma sim_composite:
  fixes M :: "('v, 'w) meaning"
  assumes inits: "sim_vals M comps V s s1 ss (eval_fields M comps inits) (eval_fields M comps inits')"
    and base: "sim_vals M comps V s1 s2 ts (eval_option M comps base) (eval_option M comps base')"
    and steps: "expr_step s s1" "expr_step s1 s2" "ss_counter s3 = ss_counter s2"
    and out: "\<And>(\<rho>0 :: 'v env) \<rho>1 \<rho>2 w2 vs bv. related s1 V \<rho>0 \<rho>1 \<Longrightarrow> (\<And>w. eval_fields M comps inits' \<rho>2 w = Some (vs, w)) \<Longrightarrow>
        (\<And>w. eval_option M comps base' \<rho>2 w = Some (bv, w)) \<Longrightarrow>
        eval M comps r \<rho>2 w2 = build_composite M comps path cargs vs bv w2"
  shows "sim_expr M comps V s s3 (ss @ ts) (eval M comps (E_Composite path cargs inits base nid)) (eval M comps r)"
proof (rule sim_exprI, goal_cases)
  case (1 \<rho> \<rho>' w)
  have le: "ss_counter s \<le> ss_counter s1" "ss_counter s1 \<le> ss_counter s2" using steps by (simp_all add: expr_step_def)
  from inits 1 show ?case
  proof (cases rule: sim_valsE[where w = w])
    case (runs \<rho>1 w1 vs)
    note A = runs
    note rel1 = related_step[OF 1 steps(1) A(2)]
    from base rel1 show ?thesis
    proof (cases rule: sim_valsE[where w = w1])
      case (runs \<rho>2 w2 bv)
      have "eval M comps r \<rho>3 w2 = build_composite M comps path cargs vs bv w2" if "agree (ss_counter s2) \<rho>2 \<rho>3" for \<rho>3
        using A(4)[OF agree_trans[OF runs(2) that le(2)]] runs(4)[OF that] by (intro out[OF rel1])
      then show ?thesis
        using A(1,3) runs(1,3) agree_trans[OF A(2) runs(2) le(1)] steps(3)
        by (simp add: runs_to_def exec_list_append)
    qed (simp add: A exec_list_append)
  qed (simp add: exec_list_append)
qed

declare eval.simps [simp del] eval_list.simps(2) [simp del] eval_option.simps(2) [simp del]
  eval_fields.simps(2) [simp del] eval_kind.simps [simp del]

lemma eval_dynamic_as_post:
  "eval M comps (E_DynamicOp ifc target network kind nid) =
     post (both (eval M comps target) (both (eval_option M comps network) (eval_kind M comps ifc (network \<noteq> None) kind)))
       (\<lambda>(t, n, h, vs). m_op M h (t # (case n of None \<Rightarrow> [] | Some v \<Rightarrow> [v]) @ vs))"
  by (cases network)
     (auto simp: fun_eq_iff post_def both_def eval.simps eval_option.simps map_option_case
           split: Option.bind_split option.splits)

lemma sim_expr_related:
  "(\<And>\<rho> \<rho>'. related s V (\<rho> :: 'v env) \<rho>' \<Longrightarrow> sim_expr (M :: ('v, 'w) meaning) comps V s s' ss f g) \<Longrightarrow>
     sim_expr M comps V s s' ss f g"
  unfolding sim_expr_def by blast

lemma consume_option_shape:
  assumes "consume_option comps oe s = Inr ((oe', ss), s')"
  shows "(oe' \<noteq> None) = (oe \<noteq> None) \<and> (\<forall>e'. oe' = Some e' \<longrightarrow> is_atom e' \<and> (\<forall>j. e' \<noteq> E_Err j))"
  using assms by (cases oe) (auto simp: ssa_bind_Inr[of "ssa_bind _ _"] dest: define_atom)

lemma consume_option_not_self:
  assumes "consume_option comps oe s = Inr ((Some e', ss), s')" "set (option_reads oe) \<subseteq> V" "related s V \<rho> \<rho>'"
  shows "\<not> self_path e'"
  using assms define_not_self[of comps _ s e' ss s' V \<rho> \<rho>'] by (cases oe) (auto simp: ssa_bind_Inr[of "ssa_bind _ _"])

lemma sim_consume_fields_Cons:
  assumes "sim_vals M comps V s s1 ss (eval M comps e) (eval M comps e1)" "expr_step s s1"
    and "sim_vals M comps V s1 s' ts (eval_fields M comps inits) (eval_fields M comps inits1)" "expr_step s1 s'"
  shows "sim_vals M comps V s s' (ss @ ts) (eval_fields M comps (Field_Init i (Some e) n # inits))
           (eval_fields M comps (Field_Init i (Some e1) n # inits1))"
  unfolding eval_parts_as_map using assms by (intro sim_vals_map sim_vals_both)

lemma sim_consume:
  "set (expr_reads e) \<subseteq> V \<Longrightarrow> \<forall>s e' ss s'. consume_expression comps e s = Inr ((e', ss), s') \<longrightarrow>
     sim_expr M comps V s s' ss (eval M comps e) (eval M comps e')"
  "set (list_reads es) \<subseteq> V \<Longrightarrow> \<forall>s es' ss s'. consume_list comps es s = Inr ((es', ss), s') \<longrightarrow>
     sim_vals M comps V s s' ss (eval_list M comps es) (eval_list M comps es')"
  "set (option_reads oe) \<subseteq> V \<Longrightarrow> \<forall>s oe' ss s'. consume_option comps oe s = Inr ((oe', ss), s') \<longrightarrow>
     sim_vals M comps V s s' ss (eval_option M comps oe) (eval_option M comps oe')"
  "set (fields_reads fs) \<subseteq> V \<Longrightarrow> \<forall>s fs' ss s'. consume_fields comps fs s = Inr ((fs', ss), s') \<longrightarrow>
     sim_vals M comps V s s' ss (eval_fields M comps fs) (eval_fields M comps fs')"
  "set (kind_reads k) \<subseteq> V \<Longrightarrow> \<forall>s k' ss s'. consume_dynamic_kind comps k s = Inr ((k', ss), s') \<longrightarrow>
     (\<forall>ifc net. sim_vals M comps V s s' ss (eval_kind M comps ifc net k) (eval_kind M comps ifc net k'))"
proof (induction comps e and comps es and comps oe and comps fs and comps k
    rule: consume_expression_consume_list_consume_option_consume_fields_consume_dynamic_kind.induct)
  case (1 comps array index nid)
  then have "sim_define M comps V array" by (intro sim_defineI) simp
  then show ?case by (auto elim!: sim_one[where K = "\<lambda>a. E_ArrayAccess a index nid"] simp: eval_as_post)
next
  case (2 comps inner name nid)
  show ?case
  proof (cases "self_path inner")
    case True
    then show ?thesis by (auto simp: self_path_def eval.simps sim_expr_world)
  next
    case False
    then have reads: "set (expr_reads inner) \<subseteq> V" using 2(2) by (simp add: self_path_def)
    then have d: "sim_define M comps V inner" using 2(1) False by (intro sim_defineI) (simp add: self_path_def)
    show ?thesis
    proof (intro allI impI, rule sim_expr_related)
      fix s e' ss s' \<rho> \<rho>' assume c: "consume_expression comps (E_MemberAccess inner name nid) s = Inr ((e', ss), s')"
        and rel: "related s V \<rho> \<rho>'"
      from c False have "ssa_bind (ssa_bind (consume_expression comps inner) define_result)
          (\<lambda>(a, ss). ssa_return (E_MemberAccess a name nid, ss)) s = Inr ((e', ss), s')" by (simp add: self_path_def)
      then show "sim_expr M comps V s s' ss (eval M comps (E_MemberAccess inner name nid)) (eval M comps e')"
        by (rule sim_one[OF d]) (use False define_not_self[OF _ reads rel] in \<open>auto simp: eval_member_as_post\<close>)
    qed
  qed
next
  case (3 comps tuple index nid)
  then have "sim_define M comps V tuple" by (intro sim_defineI) simp
  then show ?case by (auto elim!: sim_one[where K = "\<lambda>a. E_TupleAccess a index nid"] simp: eval_as_post)
next
  case (5 comps left right op nid)
  then have "sim_define M comps V left" "sim_define M comps V right" by (auto intro!: sim_defineI)
  then show ?case
    by (auto simp: ssa_bind_Inr[of "ssa_bind _ _"] eval_as_post intro!: sim_vals_post sim_two)
next
  case (7 comps interface target network kind nid)
  then have d: "sim_define M comps V target" by (auto intro!: sim_defineI)
  show ?case
  proof (intro allI impI)
    fix s r ss s' assume "consume_expression comps (E_DynamicOp interface target network kind nid) s = Inr ((r, ss), s')"
    then obtain target' ss1 s1 network' ss2 s2 kind' ss3 where
      c1: "ssa_bind (consume_expression comps target) define_result s = Inr ((target', ss1), s1)"
      and c2: "consume_option comps network s1 = Inr ((network', ss2), s2)"
      and c3: "consume_dynamic_kind comps kind s2 = Inr ((kind', ss3), s')"
      and r: "r = E_DynamicOp interface target' network' kind' nid" "ss = ss1 @ ss2 @ ss3"
      by (auto simp: ssa_bind_Inr[of "ssa_bind _ _"] ssa_bind_Inr[of "consume_option _ _"] ssa_bind_Inr[of "consume_dynamic_kind _ _"])
    have net: "(network' \<noteq> None) = (network \<noteq> None)" using consume_option_shape[OF c2] by simp
    have o: "sim_vals M comps V s1 s2 ss2 (eval_option M comps network) (eval_option M comps network')"
      and k: "sim_vals M comps V s2 s' ss3 (eval_kind M comps interface (network \<noteq> None) kind)
                (eval_kind M comps interface (network \<noteq> None) kind')"
      using 7 c2 c3 by auto
    note steps = step_byD[OF define_step c1] step_byD[OF expr_step_consume(3) c2] step_byD[OF expr_step_consume(5) c3]
    have t: "sim_vals M comps V s s1 ss1 (eval M comps target) (eval M comps target')"
      using d c1 unfolding sim_define_def by blast
    show "sim_expr M comps V s s' ss (eval M comps (E_DynamicOp interface target network kind nid)) (eval M comps r)"
      unfolding r eval_dynamic_as_post net
      by (intro sim_vals_post sim_vals_both[OF t sim_vals_both[OF o k steps(2,3)] steps(1) expr_step_trans[OF steps(2,3)]])
  qed
next
  case (8 comps e ty nid)
  then have "sim_define M comps V e" by (intro sim_defineI) simp
  then show ?case by (auto elim!: sim_one[where K = "\<lambda>a. E_Cast a ty nid"] simp: eval_as_post)
next
  case (9 comps path const_args inits base nid)
  show ?case
  proof (intro allI impI)
    fix s r ss s' assume "consume_expression comps (E_Composite path const_args inits base nid) s = Inr ((r, ss), s')"
    then obtain loc c inits' ss1 s1 base' ss2 s2 members' out where
      loc: "try_global_location path = Some loc" "comps loc = Some c"
      and c1: "consume_fields comps inits s = Inr ((inits', ss1), s1)"
      and c2: "consume_option comps base s1 = Inr ((base', ss2), s2)"
      and copy: "(case base' of
            None \<Rightarrow> ssa_return (fold (\<lambda>f. AList.update (field_init_key f) f) inits' [])
          | Some b \<Rightarrow> copy_base_fields b (map (\<lambda>m. (ident_name (mem_identifier m), mem_type m)) (comp_members c))
              (fold (\<lambda>f. AList.update (field_init_key f) f) inits' [])) s2 = Inr (members', s')"
      and take: "take_members (init_order c) members' = Some out"
      and r: "r = E_Composite path const_args out None nid" "ss = ss1 @ ss2"
      by (auto simp: Let_def ssa_bind_Inr)
    have "set (fields_reads inits) \<subseteq> V" "set (option_reads base) \<subseteq> V" using 9(3) by auto
    note sub = this
    have sims: "sim_vals M comps V s s1 ss1 (eval_fields M comps inits) (eval_fields M comps inits')"
      "sim_vals M comps V s1 s2 ss2 (eval_option M comps base) (eval_option M comps base')"
      using 9(1,2) sub c1 c2 by auto
    have counter: "ss_counter s' = ss_counter s2"
      using copy copy_base_fields_counter by (auto split: option.splits)
    have "eval M comps r \<rho>2 w2 = build_composite M comps path const_args vs bv w2"
      if rel: "related s1 V (\<rho>0 :: 'a env) \<rho>1" and vs: "\<And>w. eval_fields M comps inits' \<rho>2 w = Some (vs, w)"
        and bv: "\<And>w. eval_option M comps base' \<rho>2 w = Some (bv, w)" for \<rho>0 \<rho>1 \<rho>2 w2 vs bv
    proof -
      have "case base' of None \<Rightarrow> bv = None \<and> members' = fold (\<lambda>f. AList.update (field_init_key f) f) inits' []
          | Some b \<Rightarrow> \<not> self_path b \<and> (\<exists>v. bv = Some v \<and> (\<forall>w. eval M comps b \<rho>2 w = Some (v, w))) \<and>
              (\<exists>s s'. copy_base_fields b (map (\<lambda>m. (ident_name (mem_identifier m), mem_type m)) (comp_members c))
                 (fold (\<lambda>f. AList.update (field_init_key f) f) inits' []) s = Inr (members', s'))"
        using copy bv consume_option_not_self[OF _ sub(2) rel] c2 by (auto simp: eval_option.simps split: option.splits)
      then show ?thesis unfolding r
        using consume_fields_atoms[OF c1] vs take loc by (intro eval_composite_init) auto
    qed
    note out = this
    show "sim_expr M comps V s s' ss (eval M comps (E_Composite path const_args inits base nid)) (eval M comps r)"
      unfolding r(2)
      by (rule sim_composite[OF sims step_byD[OF expr_step_consume(4) c1] step_byD[OF expr_step_consume(3) c2] counter])
         (rule out, assumption+)
  qed
next
  case (10 comps p)
  show ?case
  proof (intro allI impI)
    fix s e' ss s' assume "consume_expression comps (E_Path p) s = Inr ((e', ss), s')"
    then have "consume_path p s = Inr ((e', ss), s')" by simp
    from sim_path[OF this 10] show "sim_expr M comps V s s' ss (eval M comps (E_Path p)) (eval M comps e')"
      by (auto intro: sim_vals_expr)
  qed
next
  case (12 comps e cnt nid)
  then have "sim_define M comps V e" by (intro sim_defineI) simp
  then show ?case by (auto elim!: sim_one[where K = "\<lambda>a. E_Repeat a cnt nid"] simp: eval_as_post)
next
  case (13 comps condition if_true if_false nid)
  then have d: "sim_define M comps V condition" "sim_define M comps V if_true" "sim_define M comps V if_false"
    by (auto intro!: sim_defineI)
  show ?case
  proof (intro allI impI)
    fix s r ss s' assume "consume_expression comps (E_Ternary condition if_true if_false nid) s = Inr ((r, ss), s')"
    then obtain a ss1 s1 b ss2 s2 c ss3 where
      c: "ssa_bind (consume_expression comps condition) define_result s = Inr ((a, ss1), s1)"
      "ssa_bind (consume_expression comps if_true) define_result s1 = Inr ((b, ss2), s2)"
      "ssa_bind (consume_expression comps if_false) define_result s2 = Inr ((c, ss3), s')"
      and r: "r = E_Ternary a b c nid" "ss = ss1 @ ss2 @ ss3"
      by (auto simp: ssa_bind_Inr[of "ssa_bind _ _"])
    note steps = step_byD[OF define_step c(1)] step_byD[OF define_step c(2)] step_byD[OF define_step c(3)]
    have "sim_vals M comps V s s1 ss1 (eval M comps condition) (eval M comps a)"
      using d(1) c(1) unfolding sim_define_def by blast
    from sim_vals_both[OF this sim_two[OF d(2,3) c(2,3)] steps(1) expr_step_trans[OF steps(2,3)]]
    show "sim_expr M comps V s s' ss (eval M comps (E_Ternary condition if_true if_false nid)) (eval M comps r)"
      unfolding r eval_as_post by (rule sim_vals_post)
  qed
next
  case (15 comps receiver op nid)
  then have "sim_define M comps V receiver" by (intro sim_defineI) simp
  then show ?case by (auto elim!: sim_one[where K = "\<lambda>a. E_Unary a op nid"] simp: eval_as_post)
next
  case (21 comps e es)
  then have d: "sim_define M comps V e" by (auto intro!: sim_defineI)
  show ?case
  proof (intro allI impI)
    fix s r ss s' assume "consume_list comps (e # es) s = Inr ((r, ss), s')"
    then obtain e1 ss1 s1 es1 ss2 where
      c1: "ssa_bind (consume_expression comps e) define_result s = Inr ((e1, ss1), s1)"
      and c2: "consume_list comps es s1 = Inr ((es1, ss2), s')" and r: "r = e1 # es1" "ss = ss1 @ ss2"
      by (auto simp: ssa_bind_Inr[of "ssa_bind _ _"] ssa_bind_Inr[of "consume_list _ _"])
    note steps = step_byD[OF define_step c1] step_byD[OF expr_step_consume(2) c2]
    have "sim_vals M comps V s s1 ss1 (eval M comps e) (eval M comps e1)"
      "sim_vals M comps V s1 s' ss2 (eval_list M comps es) (eval_list M comps es1)"
      using d c1 c2 21 unfolding sim_define_def by auto
    from sim_vals_both[OF this steps]
    show "sim_vals M comps V s s' ss (eval_list M comps (e # es)) (eval_list M comps r)"
      unfolding r eval_parts_as_map by (rule sim_vals_map)
  qed
next
  case (23 comps e)
  then have "sim_define M comps V e" by (intro sim_defineI) simp
  then show ?case
    by (auto simp: ssa_bind_Inr[of "ssa_bind _ _"] eval_parts_as_map sim_define_def intro!: sim_vals_map)
next
  case (25 comps i oe nid inits)
  show ?case
  proof (intro allI impI)
    fix s r ss s' assume "consume_fields comps (Field_Init i oe nid # inits) s = Inr ((r, ss), s')"
    then obtain e1 ss1 s1 inits1 ss2 where
      c1: "(case oe of Some e \<Rightarrow> ssa_bind (consume_expression comps e) define_result
            | None \<Rightarrow> consume_path (to_local (path_of_ident i))) s = Inr ((e1, ss1), s1)"
      and c2: "consume_fields comps inits s1 = Inr ((inits1, ss2), s')"
      and r: "r = Field_Init i (Some e1) nid # inits1" "ss = ss1 @ ss2"
      by (auto simp: ssa_bind_Inr split: prod.splits)
    have rest: "sim_vals M comps V s1 s' ss2 (eval_fields M comps inits) (eval_fields M comps inits1)" "expr_step s1 s'"
      using 25 c2 step_byD[OF expr_step_consume(4) c2] by auto
    show "sim_vals M comps V s s' ss (eval_fields M comps (Field_Init i oe nid # inits)) (eval_fields M comps r)"
    proof (cases oe)
      case None
      with c1 have p: "consume_path (to_local (path_of_ident i)) s = Inr ((e1, ss1), s1)" by simp
      have "set (expr_reads (E_Path (to_local (path_of_ident i)))) \<subseteq> V"
        using 25(3) None by (simp add: to_local_def path_of_ident_def path_new_def try_local_symbol_def)
      from sim_path[OF p this, of M comps] show ?thesis
        unfolding None eval_field_path r using rest by (intro sim_consume_fields_Cons) auto
    next
      case (Some e)
      then have "sim_define M comps V e" using 25 by (auto intro!: sim_defineI)
      with c1 Some show ?thesis
        unfolding Some r using rest step_byD[OF define_step, of comps e s]
        by (intro sim_consume_fields_Cons) (auto simp: sim_define_def)
    qed
  qed
qed (auto simp: ssa_bind_Inr eval_as_post eval_parts_as_map eval.simps(11,16,18) eval_kind.simps(2) intro!: sim_vals_post sim_vals_map sim_expr_world)

end
