(* ===== verification/Ssa_Stmts.thy ===== *)
theory Ssa_Stmts
  imports Ssa_Exprs
begin

text \<open>
  The statements of static single assignment: which programs the pass is meant for, the invariant of
  the rename table, and phi functions.
\<close>

section \<open>Well-scoped statements\<close>

fun assert_reads :: "assert_variant \<Rightarrow> symbol list" where
  "assert_reads (Assert e) = expr_reads e"
| "assert_reads (AssertEq a b) = expr_reads a @ expr_reads b"
| "assert_reads (AssertNeq a b) = expr_reads a @ expr_reads b"

text \<open>The variables whose parts are assigned.\<close>

fun mutated :: "statement \<Rightarrow> symbol list"
  and mutated_list :: "statement list \<Rightarrow> symbol list"
  and mutated_option :: "statement option \<Rightarrow> symbol list"
where
  "mutated (S_Assign place _ _) =
     (case place of
        E_Path _ \<Rightarrow> []
      | _ \<Rightarrow> (case place_root place of
                Some (p, _) \<Rightarrow> (case try_local_symbol p of Some x \<Rightarrow> [x] | None \<Rightarrow> [])
              | None \<Rightarrow> []))"
| "mutated (S_Block (Block ss _)) = mutated_list ss"
| "mutated (S_Conditional _ (Block ss _) otherwise _) = mutated_list ss @ mutated_option otherwise"
| "mutated _ = []"
| "mutated_list [] = []"
| "mutated_list (st # sts) = mutated st @ mutated_list sts"
| "mutated_option None = []"
| "mutated_option (Some st) = mutated st"

text \<open>
  \<open>scoped N V st\<close>: with the variables \<open>V\<close> in scope, \<open>st\<close> reads and assigns variables in scope only and declares names
  that \<open>N\<close> accepts; the result is the scope after it.  The names of a multiple definition are not read in it, and
  no part of a variable that is the bare condition of a conditional is assigned in its branches.
\<close>

definition keeps_condition :: "expression \<Rightarrow> symbol list \<Rightarrow> bool" where
  "keeps_condition c ms \<longleftrightarrow>
     (case c of E_Path p \<Rightarrow> (case try_local_symbol p of Some x \<Rightarrow> x \<notin> set ms | None \<Rightarrow> True) | _ \<Rightarrow> True)"

definition scoped_place :: "symbol list \<Rightarrow> expression \<Rightarrow> bool" where
  "scoped_place V place \<longleftrightarrow>
     (case place of
        E_Path p \<Rightarrow> ident_name (identifier_of p) \<in> set V
      | _ \<Rightarrow> (case place_root place of
                Some (p, _) \<Rightarrow> (case try_local_symbol p of Some x \<Rightarrow> x \<in> set V | None \<Rightarrow> False)
              | None \<Rightarrow> False))"

fun declares :: "definition_place \<Rightarrow> symbol list" where
  "declares (Single i) = [ident_name i]"
| "declares (Multiple is) = map ident_name is"

fun scoped :: "(symbol \<Rightarrow> bool) \<Rightarrow> symbol list \<Rightarrow> statement \<Rightarrow> symbol list option"
  and scoped_list :: "(symbol \<Rightarrow> bool) \<Rightarrow> symbol list \<Rightarrow> statement list \<Rightarrow> symbol list option"
  and scoped_option :: "(symbol \<Rightarrow> bool) \<Rightarrow> symbol list \<Rightarrow> statement option \<Rightarrow> symbol list option"
where
  "scoped N V (S_Assert variant _) = (if set (assert_reads variant) \<subseteq> set V then Some V else None)"
| "scoped N V (S_Assign place value _) =
     (if set (expr_reads value) \<subseteq> set V \<and> scoped_place V place then Some V else None)"
| "scoped N V (S_Block (Block ss _)) = (case scoped_list N V ss of None \<Rightarrow> None | Some _ \<Rightarrow> Some V)"
| "scoped N V (S_Conditional c (Block ss _) otherwise _) =
     (if set (expr_reads c) \<subseteq> set V \<and> keeps_condition c (mutated_list ss @ mutated_option otherwise) \<and>
         scoped_list N V ss \<noteq> None \<and> scoped_option N V otherwise \<noteq> None
      then Some V else None)"
| "scoped N V (S_Const _ _ _ _ _) = Some V"
| "scoped N V (S_Definition place _ value _) =
     (if set (expr_reads value) \<subseteq> set V \<and> list_all N (declares place) \<and>
         (case place of Single _ \<Rightarrow> True | Multiple _ \<Rightarrow> set (declares place) \<inter> set (expr_reads value) = {})
      then Some (declares place @ V) else None)"
| "scoped N V (S_Expression e _) = (if set (expr_reads e) \<subseteq> set V then Some V else None)"
| "scoped N V (S_Iteration _ _ _ _ _ _ _) = None"
| "scoped N V (S_Return e _) = (if set (expr_reads e) \<subseteq> set V then Some V else None)"
| "scoped_list N V [] = Some V"
| "scoped_list N V (st # sts) = (case scoped N V st of None \<Rightarrow> None | Some V' \<Rightarrow> scoped_list N V' sts)"
| "scoped_option N V None = Some V"
| "scoped_option N V (Some st) = scoped N V st"

lemma scoped_extends:
  "scoped N V st = Some V' \<Longrightarrow> set V \<subseteq> set V' \<and> set V' \<subseteq> set V \<union> Collect N"
  "scoped_list N V sts = Some V' \<Longrightarrow> set V \<subseteq> set V' \<and> set V' \<subseteq> set V \<union> Collect N"
  "scoped_option N V ost = Some V' \<Longrightarrow> set V \<subseteq> set V' \<and> set V' \<subseteq> set V \<union> Collect N"
proof (induction N V st and N V sts and N V ost arbitrary: V' and V' and V' rule: scoped_scoped_list_scoped_option.induct)
  case (11 N V st sts)
  then show ?case by (fastforce split: option.splits)
qed (auto simp: list_all_iff split: if_splits option.splits)

section \<open>The invariant of the rename table\<close>

definition tab_inv :: "nat \<Rightarrow> nat \<Rightarrow> rename_table \<Rightarrow> bool" where
  "tab_inv c0 c t \<longleftrightarrow>
     c0 \<le> c \<and>
     (\<forall>x n. rename_lookup t x = Some n \<longrightarrow>
        \<not> generated c n \<and> \<not> generated c x \<and> generated c0 n \<and> (generated c0 x \<longrightarrow> n = x)) \<and>
     (\<forall>x y n. rename_lookup t x = Some n \<longrightarrow> rename_lookup t y = Some n \<longrightarrow>
        \<not> generated c0 x \<longrightarrow> \<not> generated c0 y \<longrightarrow> x = y)"

lemma tab_inv_later: "tab_inv c0 c t \<Longrightarrow> c \<le> c' \<Longrightarrow> tab_inv c0 c' t"
  unfolding tab_inv_def using generated_mono by (meson order.trans)

lemma tab_inv_cong: "tab_inv c0 c t \<Longrightarrow> (\<And>x. rename_lookup t' x = rename_lookup t x) \<Longrightarrow> tab_inv c0 c t'"
  by (simp add: tab_inv_def)

text \<open>What a statement does to the state.\<close>

definition stmt_step :: "nat \<Rightarrow> ssa_state \<Rightarrow> ssa_state \<Rightarrow> bool" where
  "stmt_step c0 s s' \<longleftrightarrow>
     (tab_inv c0 (ss_counter s) (ss_table s) \<longrightarrow>
        tab_inv c0 (ss_counter s') (ss_table s') \<and> ss_counter s \<le> ss_counter s' \<and>
        rt_parent (ss_table s') = rt_parent (ss_table s) \<and>
        (\<forall>x. rename_lookup (ss_table s') x = rename_lookup (ss_table s) x \<or>
             (\<exists>n. rename_lookup (ss_table s') x = Some n \<and> generated (ss_counter s) n)) \<and>
        (\<forall>x\<in>set (local_names (ss_table s')).
           x \<in> set (local_names (ss_table s)) \<or> \<not> generated c0 x \<or> generated (ss_counter s) x))"

lemma stmt_step_refl [simp]: "stmt_step c0 s s"
  by (simp add: stmt_step_def)

lemma stmt_stepD:
  assumes "stmt_step c0 s s'" "tab_inv c0 (ss_counter s) (ss_table s)"
  shows "tab_inv c0 (ss_counter s') (ss_table s')" and "ss_counter s \<le> ss_counter s'"
    and "rt_parent (ss_table s') = rt_parent (ss_table s)"
    and "rename_lookup (ss_table s') x = rename_lookup (ss_table s) x \<or>
         (\<exists>n. rename_lookup (ss_table s') x = Some n \<and> generated (ss_counter s) n)"
    and "x \<in> set (local_names (ss_table s')) \<Longrightarrow>
         x \<in> set (local_names (ss_table s)) \<or> \<not> generated c0 x \<or> generated (ss_counter s) x"
  using assms unfolding stmt_step_def by blast+

lemma stmt_step_trans:
  assumes "stmt_step c0 s s1" "stmt_step c0 s1 s2" shows "stmt_step c0 s s2"
  unfolding stmt_step_def
proof (intro impI conjI allI ballI)
  assume i: "tab_inv c0 (ss_counter s) (ss_table s)"
  note d1 = stmt_stepD[OF assms(1) i] and d2 = stmt_stepD[OF assms(2) stmt_stepD(1)[OF assms(1) i]]
  show "tab_inv c0 (ss_counter s2) (ss_table s2)" "ss_counter s \<le> ss_counter s2"
    "rt_parent (ss_table s2) = rt_parent (ss_table s)" using d1 d2 by simp_all
  show "rename_lookup (ss_table s2) x = rename_lookup (ss_table s) x \<or>
      (\<exists>n. rename_lookup (ss_table s2) x = Some n \<and> generated (ss_counter s) n)" for x
    using d1(4)[of x] d2(4)[of x] generated_mono[OF _ d1(2)] by auto
  show "x \<in> set (local_names (ss_table s)) \<or> \<not> generated c0 x \<or> generated (ss_counter s) x"
    if "x \<in> set (local_names (ss_table s2))" for x
    using d1(5)[of x] d2(5)[OF that] generated_mono[OF _ d1(2)] by blast
qed

lemma expr_step_stmt_step: 
  assumes "expr_step s s'" shows "stmt_step c0 s s'"
  unfolding stmt_step_def
proof (intro impI conjI allI ballI)
  assume i: "tab_inv c0 (ss_counter s) (ss_table s)"
  have le: "ss_counter s \<le> ss_counter s'" "c0 \<le> ss_counter s" using assms i by (simp_all add: expr_step_def tab_inv_def)
  have look: "rename_lookup (ss_table s') x = rename_lookup (ss_table s) x \<or>
      rename_lookup (ss_table s') x = Some x \<and> generated (ss_counter s) x \<and> \<not> generated (ss_counter s') x" for x
    using assms by (simp add: expr_step_def)
  note i' = tab_inv_later[OF i le(1)]
  show "tab_inv c0 (ss_counter s') (ss_table s')"
    unfolding tab_inv_def
  proof (intro conjI allI impI)
    show "c0 \<le> ss_counter s'" using le by simp
  next
    fix x n assume "rename_lookup (ss_table s') x = Some n"
    then have "rename_lookup (ss_table s) x = Some n \<or> n = x \<and> generated (ss_counter s) x \<and> \<not> generated (ss_counter s') x"
      using look[of x] by auto
    then show "\<not> generated (ss_counter s') n" "\<not> generated (ss_counter s') x" "generated c0 n" "generated c0 x \<Longrightarrow> n = x"
      using i' generated_mono[OF _ le(2)] unfolding tab_inv_def by blast+
  next
    fix x y n assume "rename_lookup (ss_table s') x = Some n" "rename_lookup (ss_table s') y = Some n"
      "\<not> generated c0 x" "\<not> generated c0 y"
    moreover from this have "rename_lookup (ss_table s) x = Some n" "rename_lookup (ss_table s) y = Some n"
      using look[of x] look[of y] generated_mono[OF _ le(2)] by auto
    ultimately show "x = y" using i unfolding tab_inv_def by blast
  qed
  show "ss_counter s \<le> ss_counter s'" by (fact le)
  show "rt_parent (ss_table s') = rt_parent (ss_table s)" using assms by (simp add: expr_step_def)
  show "rename_lookup (ss_table s') x = rename_lookup (ss_table s) x \<or>
      (\<exists>n. rename_lookup (ss_table s') x = Some n \<and> generated (ss_counter s) n)" for x using look[of x] by auto
  show "x \<in> set (local_names (ss_table s)) \<or> \<not> generated c0 x \<or> generated (ss_counter s) x"
    if "x \<in> set (local_names (ss_table s'))" for x using assms that by (auto simp: expr_step_def)
qed

text \<open>A variable gets a fresh name, which may also become a key mapped to itself.\<close>

lemma stmt_step_rename:
  assumes new: "new = fst (unique_symbol x sep (ss_counter s))" "sep \<in> separators" and x: "\<not> generated c0 x"
    and s': "ss_counter s' = Suc (ss_counter s)" "rt_parent (ss_table s') = rt_parent (ss_table s)"
    and look: "\<And>y. rename_lookup (ss_table s') y =
        (if y = x \<or> y = new \<and> self then Some new else rename_lookup (ss_table s) y)"
    and names: "set (local_names (ss_table s')) \<subseteq> {x, new} \<union> set (local_names (ss_table s))"
  shows "stmt_step c0 s s'"
  unfolding stmt_step_def
proof (intro impI conjI allI ballI)
  let ?c = "ss_counter s"
  assume i: "tab_inv c0 ?c (ss_table s)"
  have c0: "c0 \<le> ?c" using i by (simp add: tab_inv_def)
  have gen: "generated c new \<longleftrightarrow> c \<le> ?c" for c unfolding new(1) by (rule generated_unique[OF new(2)])
  have i': "tab_inv c0 (Suc ?c) (ss_table s)" by (rule tab_inv_later[OF i]) simp
  have old: "n \<noteq> new" if "rename_lookup (ss_table s) y = Some n" for y n
    using that i gen[of ?c] unfolding tab_inv_def by blast
  have xc: "\<not> generated (Suc ?c) x" using x generated_mono c0 by (meson le_SucI)
  show "tab_inv c0 (ss_counter s') (ss_table s')"
    unfolding tab_inv_def s'(1)
  proof (intro conjI allI impI)
    fix y n assume y: "rename_lookup (ss_table s') y = Some n"
    show "\<not> generated (Suc ?c) n" "\<not> generated (Suc ?c) y" "generated c0 n" "generated c0 y \<Longrightarrow> n = y"
      using y look[of y] gen c0 i' x xc unfolding tab_inv_def by (auto split: if_splits)
  next
    fix y z n assume "rename_lookup (ss_table s') y = Some n" "rename_lookup (ss_table s') z = Some n"
      "\<not> generated c0 y" "\<not> generated c0 z"
    then show "y = z"
      using look[of y] look[of z] old gen[of c0] c0 i unfolding tab_inv_def by (auto split: if_splits)
  qed (use c0 in simp)
  show "rename_lookup (ss_table s') y = rename_lookup (ss_table s) y \<or>
      (\<exists>n. rename_lookup (ss_table s') y = Some n \<and> generated ?c n)" for y
    using look[of y] gen by auto
  show "y \<in> set (local_names (ss_table s)) \<or> \<not> generated c0 y \<or> generated ?c y"
    if "y \<in> set (local_names (ss_table s'))" for y using that names x gen by auto
qed (simp_all add: s')

section \<open>Renaming a variable\<close>

lemma rename_identifier_m_Inr:
  "rename_identifier_m i s = Inr (i', s') \<longleftrightarrow>
     i' = i\<lparr>ident_name := fst (unique_symbol (ident_name i) ''$#'' (ss_counter s))\<rparr> \<and>
     s' = s\<lparr>ss_table := rename_update (ident_name i) (fst (unique_symbol (ident_name i) ''$#'' (ss_counter s))) (ident_id i)
               (rename_update (ident_name i) (ident_name i) (ident_id i) (ss_table s)),
            ss_counter := Suc (ss_counter s)\<rparr>"
  by (auto simp: rename_identifier_m_def rename_identifier_def unique_symbol_def Let_def)

lemma separators_simps [simp]: "''$'' \<in> separators" "''$#'' \<in> separators" "''$$'' \<in> separators"
  by (simp_all add: separators_def)

lemma stmt_step_rename_identifier:
  assumes "rename_identifier_m i s = Inr (i', s')" "\<not> generated c0 (ident_name i)"
  shows "stmt_step c0 s s'"
  by (rule stmt_step_rename[where x = "ident_name i" and sep = "''$#''" and self = False, OF refl _ assms(2)])
     (use assms(1) in \<open>auto simp: rename_identifier_m_Inr local_names_update\<close>)

lemma stmt_step_rename_define:
  assumes "rename_identifier_m i s = Inr (i', s1)" "simple_definition i' v s1 = Inr (st, s')"
    "\<not> generated c0 (ident_name i)"
  shows "stmt_step c0 s s'"
  by (rule stmt_step_rename[where x = "ident_name i" and sep = "''$#''" and self = True, OF refl _ assms(3)])
     (use assms(1,2) in \<open>auto simp: rename_identifier_m_Inr simple_definition_Inr local_names_update\<close>)

lemma stmt_step_rename_identifiers:
  "rename_identifiers is s = Inr (is', s') \<Longrightarrow> \<forall>i\<in>set is. \<not> generated c0 (ident_name i) \<Longrightarrow> stmt_step c0 s s'"
proof (induction "is" arbitrary: s is' s')
  case (Cons i "is")
  then obtain i1 s1 is1 where i1: "rename_identifier_m i s = Inr (i1, s1)" "rename_identifiers is s1 = Inr (is1, s')"
    by (auto simp: ssa_bind_Inr)
  with Cons show ?case by (auto intro: stmt_step_trans stmt_step_rename_identifier)
qed simp

text \<open>Environments after a renaming.\<close>

lemma related_mono: "related s V \<rho> \<rho>' \<Longrightarrow> W \<subseteq> V \<Longrightarrow> related s W \<rho> \<rho>'"
  by (auto simp: related_def)

lemma related_rename:
  assumes rel: "related s V \<rho> \<rho>'" and new: "new = fst (unique_symbol x sep (ss_counter s))" "sep \<in> separators"
    and x: "x \<noteq> ''self''" "\<not> generated (Suc (ss_counter s)) x"
    and s': "ss_counter s' = Suc (ss_counter s)" "rename_lookup (ss_table s') x = Some new"
      "\<And>y. y \<in> V \<Longrightarrow> y \<noteq> x \<Longrightarrow> rename_lookup (ss_table s') y = rename_lookup (ss_table s) y"
  shows "related s' (insert x V) (\<rho>(x := u)) (\<rho>'(new := u))"
  unfolding related_def
proof
  have gen: "generated c new \<longleftrightarrow> c \<le> ss_counter s" for c unfolding new(1) by (rule generated_unique[OF new(2)])
  fix y assume y: "y \<in> insert x V"
  show "y \<noteq> ''self'' \<and> \<not> generated (ss_counter s') y \<and>
      (\<exists>n. rename_lookup (ss_table s') y = Some n \<and> (\<rho>'(new := u)) n = (\<rho>(x := u)) y \<and>
         \<not> generated (ss_counter s') n \<and> generated 0 n)"
  proof (cases "y = x")
    case True
    with s' x gen show ?thesis by auto
  next
    case False
    with y rel obtain n where n: "y \<noteq> ''self''" "\<not> generated (ss_counter s) y" "rename_lookup (ss_table s) y = Some n"
      "\<rho>' n = \<rho> y" "\<not> generated (ss_counter s) n" "generated 0 n" by (auto simp: related_def)
    have "\<not> generated (Suc (ss_counter s)) z" if "\<not> generated (ss_counter s) z" for z
      using that generated_mono by (meson le_SucI order.refl)
    moreover have "n \<noteq> new" using n(5) gen by auto
    ultimately show ?thesis using n s' False y by auto
  qed
qed

text \<open>Names that are not in the way of the pass.\<close>

definition source_names :: "nat \<Rightarrow> (symbol \<Rightarrow> bool) \<Rightarrow> bool" where
  "source_names c0 N \<longleftrightarrow> (\<forall>x. N x \<longrightarrow> x \<noteq> ''self'' \<and> \<not> generated c0 x)"

lemma related_rename_identifier:
  assumes "rename_identifier_m i s = Inr (i', s')" "related s V \<rho> \<rho>'"
    and "ident_name i \<noteq> ''self''" "\<not> generated c0 (ident_name i)" "c0 \<le> ss_counter s"
  shows "related s' (insert (ident_name i) V) (\<rho>(ident_name i := u)) (\<rho>'(ident_name i' := u))"
proof -
  have "\<not> generated (Suc (ss_counter s)) (ident_name i)" using assms(4,5) generated_mono by (meson le_SucI)
  with assms(1,3) show ?thesis
    by (intro related_rename[OF assms(2), where sep = "''$#''"]) (auto simp: rename_identifier_m_Inr)
qed

lemma related_rename_identifiers:
  "rename_identifiers is s = Inr (is', s') \<Longrightarrow> related s V \<rho> \<rho>' \<Longrightarrow> length vs = length is \<Longrightarrow>
     \<forall>i\<in>set is. ident_name i \<noteq> ''self'' \<and> \<not> generated c0 (ident_name i) \<Longrightarrow> c0 \<le> ss_counter s \<Longrightarrow>
     length is' = length is \<and> (\<forall>i\<in>set is'. generated (ss_counter s) (ident_name i)) \<and>
     related s' (ident_name ` set is \<union> V) (bind_names is vs \<rho>)
       (bind_names is' vs \<rho>')"
proof (induction "is" arbitrary: s is' s' V \<rho> \<rho>' vs)
  case (Cons i "is")
  then obtain i1 s1 is1 u us where i1: "rename_identifier_m i s = Inr (i1, s1)" "rename_identifiers is s1 = Inr (is1, s')"
    "is' = i1 # is1" "vs = u # us" by (auto simp: ssa_bind_Inr length_Suc_conv)
  have rel: "related s1 (insert (ident_name i) V) (\<rho>(ident_name i := u)) (\<rho>'(ident_name i1 := u))"
    using Cons.prems by (intro related_rename_identifier[OF i1(1)]) auto
  have c: "ss_counter s1 = Suc (ss_counter s)" "generated (ss_counter s) (ident_name i1)"
    using i1(1) generated_unique[of "''$#''"] by (auto simp: rename_identifier_m_Inr)
  have "length is1 = length is \<and> (\<forall>i\<in>set is1. generated (ss_counter s1) (ident_name i)) \<and>
     related s' (ident_name ` set is \<union> insert (ident_name i) V)
       (bind_names is us (\<rho>(ident_name i := u)))
       (bind_names is1 us (\<rho>'(ident_name i1 := u)))"
    using Cons.prems c i1(4) by (intro Cons.IH[OF i1(2) rel]) auto
  moreover have "generated (ss_counter s) n" if "generated (ss_counter s1) n" for n
    using that c(1) generated_mono by (metis le_SucI order.refl)
  ultimately show ?case using i1(3,4) c(2) by auto
qed simp

lemma bind_names_other:
  "\<forall>i\<in>set is. ident_name i \<noteq> n \<Longrightarrow> bind_names is vs \<rho> n = \<rho> n"
proof (induction "is" arbitrary: vs \<rho>)
  case (Cons i "is")
  then show ?case by (cases vs) auto
qed simp

section \<open>Phi functions\<close>

text \<open>An atom that stays as it is when it is consumed again.\<close>

definition stable :: "nat \<Rightarrow> expression \<Rightarrow> bool" where
  "stable c0 e \<longleftrightarrow>
     (\<exists>p. e = E_Path p \<and> (\<forall>m. try_local_symbol p = Some m \<longrightarrow> generated c0 m)) \<or> (\<exists>i. e = E_Unit i)"

lemma consume_stable:
  assumes inv: "tab_inv c0 c (ss_table s)" and e: "stable c0 e"
    and d: "ssa_bind (consume_expression comps e) define_result s = Inr ((e', ss), s')"
  shows "s' = s \<and> ss = [] \<and> stable c0 e' \<and> (\<forall>\<rho> w. eval M comps' e' \<rho> w = eval M comps' e \<rho> w)"
proof (cases "\<exists>p m. e = E_Path p \<and> try_local_symbol p = Some m")
  case True
  then obtain p m where p: "e = E_Path p" "try_local_symbol p = Some m" by blast
  with e have m: "generated c0 m" by (auto simp: stable_def)
  let ?n = "case rename_lookup (ss_table s) m of Some n \<Rightarrow> n | None \<Rightarrow> m"
  have n: "?n = m" using m inv by (auto simp: tab_inv_def split: option.split)
  from d p n obtain p' where p': "with_updated_last_symbol p m = Some p'" "e' = E_Path p'" "ss = []" "s' = s"
    by (auto simp: ssa_bind_Inr consume_path_def ssa_prims_Inr define_result_def)
  have "try_local_symbol p' = Some m"
    using p'(1) p(2) by (auto simp: with_updated_last_symbol_def try_local_symbol_def Let_def split: path_target.splits)
  with p p' m show ?thesis by (auto simp: stable_def eval.simps read_path_def)
next
  case False
  with e d show ?thesis
    by (auto simp: stable_def ssa_bind_Inr consume_path_def define_result_def split: option.splits)
qed

lemma stable_phi_path: "generated c0 n \<Longrightarrow> stable c0 (E_Path (to_local (path_of_ident \<lparr>ident_name = n, ident_id = i\<rparr>)))"
  by (simp add: stable_def to_local_def path_of_ident_def path_new_def try_local_symbol_def)

lemma eval_phi_path: "eval M comps (E_Path (to_local (path_of_ident \<lparr>ident_name = n, ident_id = i\<rparr>))) \<rho> w = Some (\<rho> n, w)"
  by (simp add: eval.simps read_path_def to_local_def path_of_ident_def path_new_def try_local_symbol_def)

lemma phi_one:
  fixes M :: "('v, 'w) meaning"
  assumes phi: "phi_functions comps cond T E (x # xs) s = Inr (out, s')"
    and bound: "rename_lookup (ss_table s) x \<noteq> None"
    and inv: "tab_inv c0 (ss_counter s) (ss_table s)" and cond: "stable c0 cond"
    and names: "\<forall>n. rename_lookup T x = Some n \<longrightarrow> generated c0 n" "\<forall>n. rename_lookup E x = Some n \<longrightarrow> generated c0 n"
  obtains new nT nE i val nid rest s2 where
    "new = fst (unique_symbol x ''$'' (ss_counter s))" "rename_lookup T x = Some nT" "rename_lookup E x = Some nE"
    "out = S_Definition (Single \<lparr>ident_name = new, ident_id = i\<rparr>) None val nid # rest"
    "phi_functions comps cond T E xs s2 = Inr (rest, s')" "ss_counter s2 = Suc (ss_counter s)"
    "ss_table s2 = rename_update new new i (rename_update x new i (ss_table s))"
    "\<forall>\<rho> w. eval M comps' val \<rho> w = Option.bind (eval M comps' cond \<rho> w) (\<lambda>(v, w1).
        map_option (\<lambda>b. (if b then \<rho> nT else \<rho> nE, w1)) (m_truth M v))"
proof -
  define new where "new = fst (unique_symbol x ''$'' (ss_counter s))"
  from phi bound obtain nT iT nE iE nid ty s1 val ss s3 i s4 st s5 rest where
    T: "rename_lookup T x = Some nT" and E: "rename_lookup E x = Some nE"
    and s1: "s1 = s\<lparr>ss_counter := Suc (ss_counter s), ss_next := Suc (ss_next s), ss_types := (ss_types s)(nid \<mapsto> ty)\<rparr>"
    and c: "consume_expression comps (E_Ternary cond (E_Path (to_local (path_of_ident \<lparr>ident_name = nT, ident_id = iT\<rparr>)))
          (E_Path (to_local (path_of_ident \<lparr>ident_name = nE, ident_id = iE\<rparr>))) nid) s1 = Inr ((val, ss), s3)"
    and s4: "s4 = s3\<lparr>ss_table := rename_update x new i (ss_table s3)\<rparr>"
    and st: "simple_definition \<lparr>ident_name = new, ident_id = i\<rparr> val s4 = Inr (st, s5)"
    and rest: "phi_functions comps cond T E xs s5 = Inr (rest, s')" "out = ss @ st # rest"
    by (auto simp: ssa_bind_Inr ssa_prims_Inr create_phi_argument_def new_def simp del: consume_expression.simps)
  have inv1: "tab_inv c0 (ss_counter s) (ss_table s1)" using inv by (simp add: s1)
  have gen: "generated c0 nT" "generated c0 nE" using names T E by simp_all
  from c obtain a s11 b s12 d where
    c1: "ssa_bind (consume_expression comps cond) define_result s1 = Inr ((a, []), s11) \<and> s11 = s1 \<and>
       (\<forall>\<rho> w. eval M comps' a \<rho> w = eval M comps' cond \<rho> w)"
    and c2: "ssa_bind (consume_expression comps (E_Path (to_local (path_of_ident \<lparr>ident_name = nT, ident_id = iT\<rparr>)))) define_result s11 = Inr ((b, []), s12) \<and> s12 = s11 \<and>
       (\<forall>\<rho> w. eval M comps' b \<rho> w = Some (\<rho> nT, w))"
    and c3: "ssa_bind (consume_expression comps (E_Path (to_local (path_of_ident \<lparr>ident_name = nE, ident_id = iE\<rparr>)))) define_result s12 = Inr ((d, []), s3) \<and> s3 = s12 \<and>
       (\<forall>\<rho> w. eval M comps' d \<rho> w = Some (\<rho> nE, w))"
    and val: "val = E_Ternary a b d nid" "ss = []"
    using consume_stable[OF inv1 cond, of comps _ _ _ M comps'] consume_stable[OF inv1 stable_phi_path[OF gen(1)], of comps _ _ _ _ M comps']
      consume_stable[OF inv1 stable_phi_path[OF gen(2)], of comps _ _ _ _ M comps']
    by (fastforce simp: ssa_bind_Inr[of "ssa_bind _ _"] eval_phi_path)
  have "s3 = s1" using c1 c2 c3 by simp
  have "\<forall>\<rho> w. eval M comps' val \<rho> w = Option.bind (eval M comps' cond \<rho> w) (\<lambda>(v, w1).
      map_option (\<lambda>b. (if b then \<rho> nT else \<rho> nE, w1)) (m_truth M v))"
    using c1 c2 c3 by (simp add: val eval.simps)
  then show ?thesis
    using that[OF new_def T E _ rest(1)] rest(2) st s4 \<open>s3 = s1\<close> s1 val(2) by (auto simp: simple_definition_Inr)
qed

definition phi_names :: "nat \<Rightarrow> ssa_state \<Rightarrow> rename_table \<Rightarrow> rename_table \<Rightarrow> symbol list \<Rightarrow> bool" where
  "phi_names c0 s T E xs \<longleftrightarrow>
     (\<forall>x\<in>set xs. \<not> generated (ss_counter s) x \<and> (rename_lookup (ss_table s) x \<noteq> None \<longrightarrow> \<not> generated c0 x) \<and>
        (\<forall>n. rename_lookup T x = Some n \<or> rename_lookup E x = Some n \<longrightarrow> generated c0 n \<and> \<not> generated (ss_counter s) n))"

lemma phi_step_one:
  assumes inv: "tab_inv c0 (ss_counter s) (ss_table s)" and names: "phi_names c0 s T E (x # xs)"
    and bound: "rename_lookup (ss_table s) x \<noteq> None"
    and new: "new = fst (unique_symbol x ''$'' (ss_counter s))"
    and s2: "ss_counter s2 = Suc (ss_counter s)" "ss_table s2 = rename_update new new i (rename_update x new i (ss_table s))"
  shows "stmt_step c0 s s2 \<and> phi_names c0 s2 T E xs"
proof
  have x: "\<not> generated c0 x" using names bound by (simp add: phi_names_def)
  show "stmt_step c0 s s2"
    by (rule stmt_step_rename[OF new _ x, where self = True]) (auto simp: s2 local_names_update)
  have later: "\<not> generated (Suc (ss_counter s)) n" if "\<not> generated (ss_counter s) n" for n
    using that generated_mono by (meson le_SucI order.refl)
  have "generated (ss_counter s) new" unfolding new by (simp add: generated_unique)
  then show "phi_names c0 s2 T E xs"
    using names x later by (auto simp: phi_names_def s2)
qed

text \<open>The table after the phi functions.\<close>

lemma phi_functions_step:
  assumes "phi_functions comps cond T E xs s = Inr (out, s')" "tab_inv c0 (ss_counter s) (ss_table s)" "stable c0 cond"
    "phi_names c0 s T E xs"
  shows "stmt_step c0 s s' \<and>
    (\<forall>y. y \<notin> set xs \<longrightarrow> \<not> generated (ss_counter s) y \<longrightarrow> rename_lookup (ss_table s') y = rename_lookup (ss_table s) y)"
  using assms
proof (induction xs arbitrary: s out)
  case (Cons x xs)
  show ?case
  proof (cases "rename_lookup (ss_table s) x = None")
    case True
    then have "phi_functions comps cond T E xs s = Inr (out, s')" using Cons.prems(1)
      by (simp add: ssa_bind_Inr ssa_prims_Inr)
    with Cons show ?thesis by (auto simp: phi_names_def)
  next
    case False
    have "\<forall>n. rename_lookup T x = Some n \<longrightarrow> generated c0 n" "\<forall>n. rename_lookup E x = Some n \<longrightarrow> generated c0 n"
      using Cons.prems(4) by (auto simp: phi_names_def)
    note one = phi_one[OF Cons.prems(1) False Cons.prems(2,3) this, where M = "undefined :: (unit, unit) meaning"]
    obtain new i rest s2 where
      n: "new = fst (unique_symbol x ''$'' (ss_counter s))" "phi_functions comps cond T E xs s2 = Inr (rest, s')"
        "ss_counter s2 = Suc (ss_counter s)" "ss_table s2 = rename_update new new i (rename_update x new i (ss_table s))"
      by (rule one, rule that)
    note step = phi_step_one[OF Cons.prems(2,4) False n(1,3,4)]
    note ih = Cons.IH[OF n(2) stmt_stepD(1)[OF conjunct1[OF step] Cons.prems(2)] Cons.prems(3) conjunct2[OF step]]
    have "generated (ss_counter s) new" unfolding n(1) by (simp add: generated_unique)
    moreover have "\<not> generated (ss_counter s2) y" if "\<not> generated (ss_counter s) y" for y
      using that n(3) generated_mono by (metis le_SucI order.refl)
    ultimately show ?thesis using step ih n(4) by (auto intro: stmt_step_trans)
  qed
qed simp

lemma phi_functions_run:
  assumes "phi_functions comps cond T E xs s = Inr (out, s')" "tab_inv c0 (ss_counter s) (ss_table s)" "stable c0 cond"
    "phi_names c0 s T E xs"
    and "\<And>\<rho>2. agree (ss_counter s) \<rho> \<rho>2 \<Longrightarrow> eval M comps' cond \<rho>2 w = Some (v, w)" "m_truth M v = Some b"
  shows "\<exists>\<rho>1. exec_list M comps' out \<rho> w = Running \<rho>1 w \<and> agree (ss_counter s) \<rho> \<rho>1 \<and>
    (\<forall>x\<in>set xs. rename_lookup (ss_table s) x \<noteq> None \<longrightarrow>
       (\<exists>m n. rename_lookup (if b then T else E) x = Some m \<and> rename_lookup (ss_table s') x = Some n \<and> \<rho>1 n = \<rho> m))"
  using assms
proof (induction xs arbitrary: s out \<rho>)
  case (Cons x xs)
  show ?case
  proof (cases "rename_lookup (ss_table s) x = None")
    case True
    then have "phi_functions comps cond T E xs s = Inr (out, s')" using Cons.prems(1)
      by (simp add: ssa_bind_Inr ssa_prims_Inr)
    moreover have "phi_names c0 s T E xs" using Cons.prems(4) by (simp add: phi_names_def)
    ultimately show ?thesis using Cons.IH[of s out \<rho>] Cons.prems True by auto
  next
    case False
    have gen: "\<forall>n. rename_lookup T x = Some n \<longrightarrow> generated c0 n" "\<forall>n. rename_lookup E x = Some n \<longrightarrow> generated c0 n"
      using Cons.prems(4) by (auto simp: phi_names_def)
    from phi_one[OF Cons.prems(1) False Cons.prems(2,3) gen, of M comps'] obtain new nT nE i val nid rest s2 where
      n: "new = fst (unique_symbol x ''$'' (ss_counter s))" "rename_lookup T x = Some nT" "rename_lookup E x = Some nE"
        "out = S_Definition (Single \<lparr>ident_name = new, ident_id = i\<rparr>) None val nid # rest"
        "phi_functions comps cond T E xs s2 = Inr (rest, s')" "ss_counter s2 = Suc (ss_counter s)"
        "ss_table s2 = rename_update new new i (rename_update x new i (ss_table s))"
      and val: "\<forall>\<rho> w. eval M comps' val \<rho> w = Option.bind (eval M comps' cond \<rho> w) (\<lambda>(v, w1).
        map_option (\<lambda>b. (if b then \<rho> nT else \<rho> nE, w1)) (m_truth M v))"
      by metis
    note step = phi_step_one[OF Cons.prems(2,4) False n(1,6,7)]
    note inv2 = stmt_stepD(1)[OF conjunct1[OF step] Cons.prems(2)]
    let ?m = "if b then nT else nE"
    let ?\<rho> = "\<rho>(new := \<rho> ?m)"
    have newgen: "generated c new \<longleftrightarrow> c \<le> ss_counter s" for c unfolding n(1) by (simp add: generated_unique)
    have ag: "agree (ss_counter s) \<rho> ?\<rho>" using newgen by (auto simp: agree_def)
    have "exec M comps' (S_Definition (Single \<lparr>ident_name = new, ident_id = i\<rparr>) None val nid) \<rho> w = Running ?\<rho> w"
      using val Cons.prems(5)[of \<rho>] Cons.prems(6) by (auto simp: define_place_def run_with_def)
    then have out: "exec_list M comps' out \<rho> w = exec_list M comps' rest ?\<rho> w" by (simp add: n(4))
    have "eval M comps' cond \<rho>2 w = Some (v, w)" if "agree (ss_counter s2) ?\<rho> \<rho>2" for \<rho>2
      using agree_trans[OF ag that] n(6) Cons.prems(5) by simp
    from Cons.IH[OF n(5) inv2 Cons.prems(3) conjunct2[OF step] this Cons.prems(6)] obtain \<rho>1 where
      r: "exec_list M comps' rest ?\<rho> w = Running \<rho>1 w" "agree (ss_counter s2) ?\<rho> \<rho>1"
        "\<forall>x\<in>set xs. rename_lookup (ss_table s2) x \<noteq> None \<longrightarrow>
           (\<exists>m n. rename_lookup (if b then T else E) x = Some m \<and> rename_lookup (ss_table s') x = Some n \<and> \<rho>1 n = ?\<rho> m)"
      by blast
    have ag1: "agree (ss_counter s) \<rho> \<rho>1" using agree_trans[OF ag r(2)] n(6) by simp
    have m_old: "\<not> generated (ss_counter s) m" if "rename_lookup (if b then T else E) y = Some m" "y \<in> set (x # xs)" for y m
      using that Cons.prems(4) by (auto simp: phi_names_def split: if_splits)
    have "\<exists>m n. rename_lookup (if b then T else E) y = Some m \<and> rename_lookup (ss_table s') y = Some n \<and> \<rho>1 n = \<rho> m"
      if y: "y \<in> set (x # xs)" "rename_lookup (ss_table s) y \<noteq> None" for y
    proof (cases "y \<in> set xs")
      case True
      then have "rename_lookup (ss_table s2) y \<noteq> None" using y(2) n(7) by simp
      with r(3) True obtain m n' where m: "rename_lookup (if b then T else E) y = Some m"
        "rename_lookup (ss_table s') y = Some n'" "\<rho>1 n' = ?\<rho> m" by blast
      moreover have "m \<noteq> new" using m_old[OF m(1) y(1)] newgen by auto
      ultimately show ?thesis by auto
    next
      case False
      with y have yx: "y = x" by simp
      have "\<not> generated (ss_counter s2) x"
        using Cons.prems(4) n(6) generated_mono by (metis le_SucI list.set_intros(1) order.refl phi_names_def)
      then have "rename_lookup (ss_table s') x = Some new"
        using phi_functions_step[OF n(5) inv2 Cons.prems(3) conjunct2[OF step]] False yx n(7) by simp
      moreover have "\<rho>1 new = \<rho> ?m" using r(2) newgen n(6) by (simp add: agree_def)
      ultimately show ?thesis using yx n(2,3) by auto
    qed
    then show ?thesis using out r(1) ag1 by auto
  qed
qed simp

end
