(* ===== verification/Ssa_Correct.thy ===== *)
theory Ssa_Correct
  imports Ssa_Stmts
begin

text \<open>
  Static single assignment keeps the meaning of statements: first the steps of the state, by
  induction over the pass, then the simulation of the two runs.
\<close>

section \<open>Steps of statements\<close>

definition bound :: "ssa_state \<Rightarrow> symbol set \<Rightarrow> bool" where
  "bound s V \<longleftrightarrow> (\<forall>x\<in>V. rename_lookup (ss_table s) x \<noteq> None)"

lemma bound_step: "stmt_step c0 s s' \<Longrightarrow> tab_inv c0 (ss_counter s) (ss_table s) \<Longrightarrow> bound s V \<Longrightarrow> bound s' V"
  using stmt_stepD(4) unfolding bound_def by (metis option.distinct(1))

lemma define_stable:
  assumes d: "ssa_bind (consume_expression comps e) define_result s = Inr ((e', ss), s')"
    and reads: "set (expr_reads e) \<subseteq> V" and V: "bound s V" and inv: "tab_inv c0 (ss_counter s) (ss_table s)"
  shows "stable c0 e'"
proof -
  from d obtain e1 ss1 s1 where c1: "consume_expression comps e s = Inr ((e1, ss1), s1)"
    and d1: "define_result (e1, ss1) s1 = Inr ((e', ss), s')" by (auto simp: ssa_bind_Inr)
  have c0: "c0 \<le> ss_counter s1"
    using inv step_byD[OF expr_step_consume(1) c1] by (simp add: tab_inv_def expr_step_def)
  show ?thesis
  proof (cases "is_atom e1")
    case True
    then have e': "e' = e1" using d1 by (simp add: define_result_def)
    show ?thesis
    proof (cases e1)
      case (E_Path p1)
      with c1 obtain p where p: "e = E_Path p" "consume_path p s = Inr ((e1, ss1), s1)"
        by (cases e) (auto simp: ssa_bind_Inr Let_def split: prod.splits option.splits if_splits)
      show ?thesis
      proof (cases "try_local_symbol p")
        case None
        with p e' show ?thesis by (auto simp: consume_path_def stable_def)
      next
        case (Some x)
        with reads V p obtain n where n: "rename_lookup (ss_table s) x = Some n" by (auto simp: bound_def)
        then have g: "generated c0 n" using inv by (auto simp: tab_inv_def)
        from p(2) Some n obtain p' where p': "with_updated_last_symbol p n = Some p'" "e1 = E_Path p'"
          by (auto simp: consume_path_def ssa_bind_Inr ssa_prims_Inr)
        have "try_local_symbol p' = Some n"
          using p'(1) Some by (auto simp: with_updated_last_symbol_def try_local_symbol_def Let_def split: path_target.splits)
        with p' e' g show ?thesis by (auto simp: stable_def)
      qed
    next
      case (E_Err i)
      with consume_no_err c1 show ?thesis by blast
    qed (use True e' in \<open>auto simp: stable_def\<close>)
  next
    case False
    then obtain i where "e' = E_Path (to_local (path_of_ident
        \<lparr>ident_name = fst (unique_symbol ''$var'' ''$'' (ss_counter s1)), ident_id = i\<rparr>))"
      using d1 by (auto simp: define_result_def unique_simple_definition_def ssa_bind_Inr ssa_prims_Inr
          simple_definition_Inr Let_def)
    then show ?thesis using c0 by (auto intro!: stable_phi_path simp: generated_unique)
  qed
qed

lemma local_names_bound: "x \<in> set (local_names t) \<Longrightarrow> rename_lookup t x \<noteq> None"
  by (cases t) (auto simp: local_names_def dest: weak_map_of_SomeI)

lemma lookup_not_local:
  "x \<notin> set (local_names t) \<Longrightarrow> rt_parent t = Some t1 \<Longrightarrow> rename_lookup t x = rename_lookup t1 x"
  by (cases t) (auto simp: local_names_def map_of_eq_None_iff[symmetric] split: option.splits)

lemma ssa_push_facts [simp]: "local_names (ssa_push t) = []"
  by (simp add: local_names_def ssa_push_def rename_table_new_def)

text \<open>One branch of a conditional, from the table \<open>t\<close> at the counter \<open>c\<close>.\<close>

definition branch :: "nat \<Rightarrow> nat \<Rightarrow> rename_table \<Rightarrow> ssa_state \<Rightarrow> bool" where
  "branch c0 c t s3 \<longleftrightarrow>
     rt_parent (ss_table s3) = Some t \<and> c \<le> ss_counter s3 \<and> tab_inv c0 (ss_counter s3) (ss_table s3) \<and>
     (\<forall>x\<in>set (local_names (ss_table s3)). \<not> generated c0 x \<or> generated c x)"

lemma branchI:
  assumes "stmt_step c0 s2 s3" "ss_table s2 = ssa_push t" "tab_inv c0 (ss_counter s2) t"
  shows "branch c0 (ss_counter s2) t s3"
proof -
  have "tab_inv c0 (ss_counter s2) (ss_table s2)" using assms(2,3) by (auto intro: tab_inv_cong)
  note d = stmt_stepD[OF assms(1) this]
  have "\<not> generated c0 x \<or> generated (ss_counter s2) x" if "x \<in> set (local_names (ss_table s3))" for x
    using d(5)[OF that] assms(2) by simp
  then show ?thesis using d(1-3) assms(2) by (simp add: branch_def)
qed

lemma branch_pop: "branch c0 c t s3 \<Longrightarrow> snd (ssa_pop (ss_table s3)) = t"
  by (simp add: branch_def ssa_pop_def)

lemma phi_names_branches:
  assumes T: "branch c0 c t sT" and E: "branch c0 c' t sE" and inv: "tab_inv c0 c t"
    and c: "c \<le> c'" "ss_counter sT \<le> ss_counter sE"
    and s7: "ss_table s7 = t" "ss_counter s7 = ss_counter sE"
  shows "phi_names c0 s7 (ss_table sT) (ss_table sE) (write_set (ss_table sT) (ss_table sE))"
  unfolding phi_names_def
proof (intro ballI conjI allI impI)
  have later: "generated (ss_counter sT) n" if "generated (ss_counter s7) n" for n
    using that c(2) s7(2) generated_mono by metis
  have invs: "tab_inv c0 (ss_counter sT) (ss_table sT)" "tab_inv c0 (ss_counter sE) (ss_table sE)"
    using T E by (simp_all add: branch_def)
  fix x assume "x \<in> set (write_set (ss_table sT) (ss_table sE))"
  then have x: "x \<in> set (local_names (ss_table sT)) \<or> x \<in> set (local_names (ss_table sE))"
    by (auto simp: write_set_def)
  then show "\<not> generated (ss_counter s7) x"
    using local_names_bound invs later s7(2) unfolding tab_inv_def by (metis not_None_eq)
  show "\<not> generated c0 x" if "rename_lookup (ss_table s7) x \<noteq> None"
  proof -
    have "\<not> generated c x" using that inv s7(1) by (auto simp: tab_inv_def)
    then have "\<not> generated c' x" using generated_mono c(1) by blast
    with \<open>\<not> generated c x\<close> x T E show ?thesis by (auto simp: branch_def)
  qed
  fix n assume "rename_lookup (ss_table sT) x = Some n \<or> rename_lookup (ss_table sE) x = Some n"
  then show "generated c0 n" "\<not> generated (ss_counter s7) n"
    using invs later s7(2) unfolding tab_inv_def by (metis, metis)
qed

text \<open>The parts of a consumed conditional.\<close>

lemma ssa_push_m_Inr: "ssa_push_m s = Inr (u, s') \<longleftrightarrow> s' = s\<lparr>ss_table := ssa_push (ss_table s)\<rparr>"
  by (auto simp: ssa_push_m_def ssa_bind_Inr ssa_prims_Inr)

lemma ssa_pop_m_Inr: "ssa_pop_m s = Inr (t, s') \<longleftrightarrow> t = ss_table s \<and> s' = s\<lparr>ss_table := snd (ssa_pop (ss_table s))\<rparr>"
  by (auto simp: ssa_pop_m_def ssa_bind_Inr ssa_prims_Inr ssa_pop_def)

lemma consume_conditional:
  assumes "consume_statement r comps (S_Conditional condition (Block then_ss bid) otherwise nid) s = Inr (out, s')"
  obtains cond ss s1 then' s3 o' s6 phis where
    "ssa_bind (consume_expression comps condition) define_result s = Inr ((cond, ss), s1)"
    "consume_statements r comps then_ss (s1\<lparr>ss_table := ssa_push (ss_table s1)\<rparr>) = Inr (then', s3)"
    "consume_otherwise r comps otherwise (s3\<lparr>ss_table := ssa_push (snd (ssa_pop (ss_table s3)))\<rparr>) = Inr (o', s6)"
    "phi_functions comps cond (ss_table s3) (ss_table s6) (write_set (ss_table s3) (ss_table s6))
       (s6\<lparr>ss_table := snd (ssa_pop (ss_table s6))\<rparr>) = Inr (phis, s')"
    "out = ss @ S_Conditional cond (Block then' bid) o' nid # phis"
  using assms that unfolding consume_expression_and_define_def[symmetric]
  by (auto simp: ssa_bind_Inr ssa_push_m_Inr ssa_pop_m_Inr)

lemma stmt_step_expr:
  "ssa_bind (consume_expression comps e) define_result s = Inr (a, s') \<Longrightarrow> stmt_step c0 s s'"
  "consume_expression comps e s = Inr (b, s') \<Longrightarrow> stmt_step c0 s s'"
  "consume_list comps es s = Inr (c, s') \<Longrightarrow> stmt_step c0 s s'"
  using step_byD[OF define_step] step_byD[OF expr_step_consume(1)] step_byD[OF expr_step_consume(2)]
  by (blast intro: expr_step_stmt_step)+

lemma consume_place_state: "consume_place place s = Inr ((place', ss), s') \<Longrightarrow> s' = s \<and> ss = []"
  by (induction place arbitrary: place' ss rule: consume_place.induct)
     (auto simp: ssa_bind_Inr consume_path_def ssa_prims_Inr split: option.splits)

lemma consume_assert_step: "consume_assert comps variant s = Inr (r, s') \<Longrightarrow> stmt_step c0 s s'"
  by (auto simp: consume_assert_def consume_expression_and_define_def ssa_bind_Inr[of "ssa_bind _ _"] split: assert_variant.splits
      dest!: stmt_step_expr(1)[of comps _ _ _ _ c0] intro: stmt_step_trans)

text \<open>After a conditional the table is the outer one with the phi functions.\<close>

lemma conditional_step:
  assumes inv: "tab_inv c0 (ss_counter s) (ss_table s)" and V: "bound s V" "set (expr_reads condition) \<subseteq> V"
    and cond: "ssa_bind (consume_expression comps condition) define_result s = Inr ((cond, ss), s1)"
    and th: "stmt_step c0 (s1\<lparr>ss_table := ssa_push (ss_table s1)\<rparr>) s3"
    and el: "stmt_step c0 (s3\<lparr>ss_table := ssa_push (snd (ssa_pop (ss_table s3)))\<rparr>) s6"
    and phi: "phi_functions comps cond (ss_table s3) (ss_table s6) (write_set (ss_table s3) (ss_table s6))
       (s6\<lparr>ss_table := snd (ssa_pop (ss_table s6))\<rparr>) = Inr (phis, s')"
  shows "stmt_step c0 s s1" "tab_inv c0 (ss_counter s1) (ss_table s1)"
    "branch c0 (ss_counter s1) (ss_table s1) s3" "branch c0 (ss_counter s3) (ss_table s1) s6"
    "stable c0 cond"
    "phi_names c0 (s6\<lparr>ss_table := ss_table s1\<rparr>) (ss_table s3) (ss_table s6) (write_set (ss_table s3) (ss_table s6))"
    "tab_inv c0 (ss_counter s6) (ss_table s1)" "stmt_step c0 (s6\<lparr>ss_table := ss_table s1\<rparr>) s'" "stmt_step c0 s s'"
proof -
  show s1: "stmt_step c0 s s1" using stmt_step_expr(1)[OF cond] .
  show inv1: "tab_inv c0 (ss_counter s1) (ss_table s1)" using stmt_stepD(1)[OF s1 inv] .
  show st: "stable c0 cond" using define_stable[OF cond V(2,1) inv] .
  show T: "branch c0 (ss_counter s1) (ss_table s1) s3" using branchI[OF th, of "ss_table s1"] inv1 by simp
  have c13: "ss_counter s1 \<le> ss_counter s3" using T by (simp add: branch_def)
  note pop3 = branch_pop[OF T]
  show E: "branch c0 (ss_counter s3) (ss_table s1) s6"
    using branchI[OF el, of "ss_table s1"] pop3 tab_inv_later[OF inv1 c13] by simp
  have c36: "ss_counter s3 \<le> ss_counter s6" using E by (simp add: branch_def)
  let ?s7 = "s6\<lparr>ss_table := ss_table s1\<rparr>"
  show names: "phi_names c0 ?s7 (ss_table s3) (ss_table s6) (write_set (ss_table s3) (ss_table s6))"
    by (rule phi_names_branches[OF T E inv1]) (use c13 c36 in auto)
  have c16: "ss_counter s1 \<le> ss_counter s6" using c13 c36 by simp
  show inv7: "tab_inv c0 (ss_counter s6) (ss_table s1)" by (rule tab_inv_later[OF inv1 c16])
  show p: "stmt_step c0 ?s7 s'"
    using phi_functions_step[OF _ _ st names] phi branch_pop[OF E] inv7 by simp
  have "stmt_step c0 s1 s'"
    unfolding stmt_step_def
  proof (intro impI conjI allI ballI)
    have i7: "tab_inv c0 (ss_counter ?s7) (ss_table ?s7)" using inv7 by simp
    note d = stmt_stepD[OF p i7]
    show "tab_inv c0 (ss_counter s') (ss_table s')" "rt_parent (ss_table s') = rt_parent (ss_table s1)"
      "ss_counter s1 \<le> ss_counter s'" using d(1-3) c16 by simp_all
    show "rename_lookup (ss_table s') x = rename_lookup (ss_table s1) x \<or>
        (\<exists>n. rename_lookup (ss_table s') x = Some n \<and> generated (ss_counter s1) n)" for x
      using d(4)[of x] generated_mono[OF _ c16] by auto
    show "x \<in> set (local_names (ss_table s1)) \<or> \<not> generated c0 x \<or> generated (ss_counter s1) x"
      if "x \<in> set (local_names (ss_table s'))" for x using d(5)[OF that] generated_mono[OF _ c16] by auto
  qed
  with s1 show "stmt_step c0 s s'" by (rule stmt_step_trans)
qed

lemma bound_subset: "bound s V \<Longrightarrow> W \<subseteq> V \<Longrightarrow> bound s W"
  by (auto simp: bound_def)

lemma bound_rename: "rename_identifier_m i s = Inr (i', s') \<Longrightarrow> bound s V \<Longrightarrow> bound s' (insert (ident_name i) V)"
  by (auto simp: rename_identifier_m_Inr bound_def)

lemma bound_simple_definition: "simple_definition i v s = Inr (st, s') \<Longrightarrow> bound s V \<Longrightarrow> bound s' V"
  by (auto simp: simple_definition_Inr bound_def)

lemma bound_renames:
  "rename_identifiers is s = Inr (is', s') \<Longrightarrow> bound s V \<Longrightarrow> bound s' (ident_name ` set is \<union> V)"
proof (induction "is" arbitrary: s is' V)
  case (Cons i "is")
  then obtain i1 s1 is1 where i1: "rename_identifier_m i s = Inr (i1, s1)" "rename_identifiers is s1 = Inr (is1, s')"
    by (auto simp: ssa_bind_Inr)
  from Cons.IH[OF i1(2) bound_rename[OF i1(1) Cons.prems(2)]] show ?case by simp
qed simp

lemma bound_expr: "consume_expression comps e s = Inr (b, s') \<Longrightarrow> bound s V \<Longrightarrow> bound s' V"
  using step_byD[OF expr_step_consume(1)] unfolding bound_def expr_step_def by (metis option.distinct(1))

lemma consume_statement_step:
  assumes N: "source_names c0 N"
  shows "r \<Longrightarrow> set V \<subseteq> Collect N \<Longrightarrow> scoped N V st = Some V' \<Longrightarrow> consume_statement r comps st s = Inr (out, s') \<Longrightarrow>
      tab_inv c0 (ss_counter s) (ss_table s) \<Longrightarrow> bound s (set V) \<Longrightarrow> stmt_step c0 s s' \<and> bound s' (set V')"
  and "r \<Longrightarrow> set V \<subseteq> Collect N \<Longrightarrow> scoped_list N V sts = Some V' \<Longrightarrow> consume_statements r comps sts s = Inr (out, s') \<Longrightarrow>
      tab_inv c0 (ss_counter s) (ss_table s) \<Longrightarrow> bound s (set V) \<Longrightarrow> stmt_step c0 s s' \<and> bound s' (set V')"
  and "r \<Longrightarrow> set V \<subseteq> Collect N \<Longrightarrow> scoped_option N V ost = Some V' \<Longrightarrow> consume_otherwise r comps ost s = Inr (oo, s') \<Longrightarrow>
      tab_inv c0 (ss_counter s) (ss_table s) \<Longrightarrow> bound s (set V) \<Longrightarrow> stmt_step c0 s s'"
proof (induction r comps st and r comps sts and r comps ost arbitrary: V V' s out s' and V V' s out s' and V V' s oo s'
    rule: consume_statement_consume_statements_consume_otherwise.induct)
  case (1 r comps variant nid)
  then have step: "stmt_step c0 s s'" by (auto simp: ssa_bind_Inr dest: consume_assert_step)
  with 1 bound_step show ?case by (auto split: if_splits)
next
  case (2 r comps place v nid)
  from 2 have V: "V' = V" "scoped_place V place" by (auto split: if_splits)
  from 2(4) obtain v' ss s1 where c: "consume_expression comps v s = Inr ((v', ss), s1)" by (auto simp: ssa_bind_Inr)
  have step1: "stmt_step c0 s s1" by (rule stmt_step_expr(2)[OF c])
  have "stmt_step c0 s1 s'"
  proof (cases "\<exists>p. place = E_Path p")
    case True
    then obtain p where p: "place = E_Path p" by blast
    from V(2) p 2(2) N have "\<not> generated c0 (ident_name (identifier_of p))"
      by (auto simp: scoped_place_def source_names_def)
    with 2(4) c p show ?thesis by (auto simp: ssa_bind_Inr intro: stmt_step_rename_define)
  next
    case False
    with 2(4) c have "\<exists>place' ss2. consume_place place s1 = Inr ((place', ss2), s')"
      by (cases place) (auto simp: ssa_bind_Inr)
    with consume_place_state show ?thesis by fastforce
  qed
  with step1 have "stmt_step c0 s s'" by (rule stmt_step_trans)
  with bound_step 2(5,6) V(1) show ?case by blast
next
  case (3 r comps ss nid)
  then obtain V1 where V1: "scoped_list N V ss = Some V1" "V' = V" by (auto split: option.splits)
  with 3 have "stmt_step c0 s s'" by auto
  with bound_step 3(6,7) V1 show ?case by blast
next
  case (4 r comps condition then_ss then_id otherwise nid)
  from 4(5) have V: "V' = V" "set (expr_reads condition) \<subseteq> set V" by (auto split: if_splits)
  from 4(5) obtain V1 V2 where sc: "scoped_list N V then_ss = Some V1" "scoped_option N V otherwise = Some V2"
    by (auto split: if_splits)
  obtain cond ss s1 then' s3 o' s6 phis where
    c: "ssa_bind (consume_expression comps condition) define_result s = Inr ((cond, ss), s1)"
    "consume_statements r comps then_ss (s1\<lparr>ss_table := ssa_push (ss_table s1)\<rparr>) = Inr (then', s3)"
    "consume_otherwise r comps otherwise (s3\<lparr>ss_table := ssa_push (snd (ssa_pop (ss_table s3)))\<rparr>) = Inr (o', s6)"
    "phi_functions comps cond (ss_table s3) (ss_table s6) (write_set (ss_table s3) (ss_table s6))
       (s6\<lparr>ss_table := snd (ssa_pop (ss_table s6))\<rparr>) = Inr (phis, s')"
    "out = ss @ S_Conditional cond (Block then' then_id) o' nid # phis" using 4(6) by (rule consume_conditional)
  have step1: "stmt_step c0 s s1" by (rule stmt_step_expr(1)[OF c(1)])
  have inv1: "tab_inv c0 (ss_counter s1) (ss_table s1)" and b1: "bound s1 (set V)"
    using stmt_stepD(1)[OF step1 4(7)] bound_step[OF step1 4(7,8)] by simp_all
  have push: "tab_inv c0 k (ssa_push t)" if "tab_inv c0 k t" for k t using that by (auto intro: tab_inv_cong)
  have th: "stmt_step c0 (s1\<lparr>ss_table := ssa_push (ss_table s1)\<rparr>) s3"
    using 4(1)[OF 4(3,4) sc(1) c(2)] push[OF inv1] b1 by (simp add: bound_def)
  then have T: "branch c0 (ss_counter s1) (ss_table s1) s3" using branchI[OF th, of "ss_table s1"] inv1 by simp
  have inv3: "tab_inv c0 (ss_counter s3) (ss_table s1)"
    using tab_inv_later[OF inv1] T by (simp add: branch_def)
  have el: "stmt_step c0 (s3\<lparr>ss_table := ssa_push (snd (ssa_pop (ss_table s3)))\<rparr>) s6"
    using 4(2)[OF 4(3,4) sc(2) c(3)] push[OF inv3] b1 branch_pop[OF T] by (simp add: bound_def)
  have "stmt_step c0 s s'" using conditional_step(9)[OF 4(7,8) V(2) c(1) th el c(4)] .
  with bound_step 4(7,8) V(1) show ?case by blast
next
  case (6 r comps place ty v nid)
  from 6(3) have V: "V' = declares place @ V" "\<forall>x\<in>set (declares place). N x" by (auto simp: list_all_iff split: if_splits)
  show ?case
  proof (cases place)
    case (Single i)
    with 6(1,4) obtain v' ss s1 i' s2 st where c: "consume_expression comps v s = Inr ((v', ss), s1)"
      "rename_identifier_m i s1 = Inr (i', s2)" "simple_definition i' v' s2 = Inr (st, s')"
      by (auto simp: ssa_bind_Inr)
    have "\<not> generated c0 (ident_name i)" using V(2) Single N by (simp add: source_names_def)
    from stmt_step_rename_define[OF c(2,3) this] stmt_step_expr(2)[OF c(1)]
    have "stmt_step c0 s s'" by (blast intro: stmt_step_trans)
    moreover have "bound s' (insert (ident_name i) (set V))"
      using bound_simple_definition[OF c(3) bound_rename[OF c(2) bound_expr[OF c(1) 6(6)]]] .
    ultimately show ?thesis using V(1) Single by simp
  next
    case (Multiple "is")
    with 6(1,4) obtain v' ss s1 is' where c: "rename_identifiers is s = Inr (is', s1)"
      "consume_expression comps v s1 = Inr ((v', ss), s')"
      by (auto simp: ssa_bind_Inr)
    have "\<forall>i\<in>set is. \<not> generated c0 (ident_name i)" using V(2) Multiple N by (simp add: source_names_def)
    from stmt_step_rename_identifiers[OF c(1) this] stmt_step_expr(2)[OF c(2)]
    have "stmt_step c0 s s'" by (rule stmt_step_trans)
    moreover have "bound s' (ident_name ` set is \<union> set V)"
      using bound_expr[OF c(2) bound_renames[OF c(1) 6(6)]] .
    ultimately show ?thesis using V(1) Multiple by simp
  qed
next
  case (7 r comps e nid)
  then have "stmt_step c0 s s'" by (auto simp: ssa_bind_Inr dest: stmt_step_expr(2))
  with 7 bound_step show ?case by (auto split: if_splits)
next
  case (9 r comps e nid)
  then have "stmt_step c0 s s'"
    by (cases e) (auto simp: ssa_bind_Inr[of "ssa_bind _ _"] ssa_bind_Inr[of "consume_list _ _"] consume_expression_and_define_def
        simp del: consume_expression.simps dest: stmt_step_expr)
  with 9 bound_step show ?case by (auto split: if_splits)
next
  case (11 r comps st sts)
  from 11(5) obtain V1 where V1: "scoped N V st = Some V1" "scoped_list N V1 sts = Some V'" by (auto split: option.splits)
  from 11(6) obtain ss s1 rest where c: "consume_statement r comps st s = Inr (ss, s1)"
    "consume_statements r comps sts s1 = Inr (rest, s')" by (auto simp: ssa_bind_Inr)
  have st: "stmt_step c0 s s1" "bound s1 (set V1)" using 11(1)[OF 11(3,4) V1(1) c(1) 11(7,8)] by simp_all
  have "set V1 \<subseteq> Collect N" using scoped_extends(1)[OF V1(1)] 11(4) by auto
  from 11(2)[OF 11(3) this V1(2) c(2) stmt_stepD(1)[OF st(1) 11(7)] st(2)] st(1)
  show ?case by (auto intro: stmt_step_trans)
next
  case (13 r comps st)
  show ?case
  proof (cases st)
    case (S_Block b)
    obtain ss nid where b: "b = Block ss nid" by (cases b)
    with 13 S_Block obtain V1 where "scoped_list N V ss = Some V1" by (auto split: option.splits)
    with 13 S_Block b show ?thesis by (auto simp: ssa_bind_Inr)
  next
    case (S_Conditional c b o' nid)
    with 13 show ?thesis by (auto simp: ssa_bind_Inr simp del: consume_statement.simps)
  qed (use 13 in auto)
qed auto

section \<open>Simulation of statements\<close>

text \<open>Names that a run leaves alone: all but new names and the names of variables whose parts are assigned.\<close>

definition kept :: "ssa_state \<Rightarrow> symbol list \<Rightarrow> 'v env \<Rightarrow> 'v env \<Rightarrow> bool" where
  "kept s ms \<rho> \<rho>1 \<longleftrightarrow>
     (\<forall>n. \<not> generated (ss_counter s) n \<longrightarrow> (\<forall>x\<in>set ms. rename_lookup (ss_table s) x \<noteq> Some n) \<longrightarrow> \<rho>1 n = \<rho> n)"

fun matches ::
  "ssa_state \<Rightarrow> ssa_state \<Rightarrow> symbol set \<Rightarrow> symbol list \<Rightarrow> 'v env \<Rightarrow> ('v, 'w) outcome \<Rightarrow> ('v, 'w) outcome \<Rightarrow> bool" where
  "matches s s' V ms \<rho>' Halted r \<longleftrightarrow> r = Halted"
| "matches s s' V ms \<rho>' (Returned v w) r \<longleftrightarrow> r = Returned v w"
| "matches s s' V ms \<rho>' (Running \<rho>1 w) r \<longleftrightarrow> (\<exists>\<rho>1'. r = Running \<rho>1' w \<and> related s' V \<rho>1 \<rho>1' \<and> kept s ms \<rho>' \<rho>1')"

lemma matches_mono:
  "matches s s' V ms \<rho>' r r' \<Longrightarrow> W \<subseteq> V \<Longrightarrow> matches s s' W ms \<rho>' r r'"
  by (cases r) (auto intro: related_mono)

lemma agree_kept: "agree (ss_counter s) \<rho> \<rho>1 \<Longrightarrow> kept s ms \<rho> \<rho>1"
  by (auto simp: agree_def kept_def)

lemma kept_later:
  assumes "agree (ss_counter s) \<rho> \<rho>1" "kept s1 ms \<rho>1 \<rho>2" "stmt_step c0 s s1" "tab_inv c0 (ss_counter s) (ss_table s)"
  shows "kept s ms \<rho> \<rho>2"
  unfolding kept_def
proof (intro allI impI)
  fix n assume n: "\<not> generated (ss_counter s) n" "\<forall>x\<in>set ms. rename_lookup (ss_table s) x \<noteq> Some n"
  note d = stmt_stepD[OF assms(3,4)]
  have "\<not> generated (ss_counter s1) n" using n(1) generated_mono[OF _ d(2)] by blast
  moreover have "\<forall>x\<in>set ms. rename_lookup (ss_table s1) x \<noteq> Some n" using n d(4) by (metis option.inject)
  ultimately show "\<rho>2 n = \<rho> n" using assms(1,2) n(1) by (simp add: kept_def agree_def)
qed

lemma kept_trans:
  assumes "kept s ms \<rho> \<rho>1" "kept s1 ms' \<rho>1 \<rho>2" "stmt_step c0 s s1" "tab_inv c0 (ss_counter s) (ss_table s)"
  shows "kept s (ms @ ms') \<rho> \<rho>2"
  unfolding kept_def
proof (intro allI impI)
  fix n assume n: "\<not> generated (ss_counter s) n" "\<forall>x\<in>set (ms @ ms'). rename_lookup (ss_table s) x \<noteq> Some n"
  note d = stmt_stepD[OF assms(3,4)]
  have "\<not> generated (ss_counter s1) n" using n(1) generated_mono[OF _ d(2)] by blast
  moreover have "\<forall>x\<in>set ms'. rename_lookup (ss_table s1) x \<noteq> Some n" using n d(4) by (metis option.inject set_append UnCI)
  ultimately show "\<rho>2 n = \<rho> n" using assms(1,2) n by (simp add: kept_def)
qed

text \<open>Running the statements of an expression first.\<close>

lemma matches_expr:
  assumes sim: "sim_expr M comps V s s1 ss src tgt" and step: "expr_step s s1" and rel: "related s V \<rho> \<rho>'"
    and halt: "src \<rho> w = None \<Longrightarrow> r = Halted" "\<And>\<rho>1 w1. tgt \<rho>1 w1 = None \<Longrightarrow> k \<rho>1 w1 = Halted"
    and run: "\<And>\<rho>1 w1 v w2. exec_list M comps ss \<rho>' w = Running \<rho>1 w1 \<Longrightarrow> agree (ss_counter s) \<rho>' \<rho>1 \<Longrightarrow>
        related s1 V \<rho> \<rho>1 \<Longrightarrow> src \<rho> w = Some (v, w2) \<Longrightarrow> tgt \<rho>1 w1 = Some (v, w2) \<Longrightarrow> matches s0 s' W ms \<rho>' r (k \<rho>1 w1)"
  shows "matches s0 s' W ms \<rho>' r (continue_with (exec_list M comps ss \<rho>' w) k)"
  using sim rel
proof (cases rule: sim_exprE[where w = w])
  case halts
  with halt show ?thesis by simp
next
  case (runs \<rho>1 w1)
  have tgt: "tgt \<rho>1 w1 = src \<rho> w" using runs(3) by simp
  show ?thesis
  proof (cases "src \<rho> w")
    case None
    with halt tgt runs show ?thesis by simp
  next
    case (Some a)
    then obtain v w2 where "src \<rho> w = Some (v, w2)" by (cases a) auto
    with run[OF runs(1,2) related_step[OF rel step runs(2)]] runs(1) tgt show ?thesis by simp
  qed
qed

lemma exec_list_snoc: "exec_list M comps (ss @ [st]) \<rho> w = continue_with (exec_list M comps ss \<rho> w) (exec M comps st)"
  by (simp add: exec_list_append) (simp add: continue_with_def fun_eq_iff split: outcome.split)

lemma related_define:
  assumes "simple_definition i v s = Inr (st, s')" "related s V \<rho> \<rho>'" "ident_name i \<notin> V"
  shows "related s' V \<rho> \<rho>'"
  using assms by (auto simp: simple_definition_Inr related_def)

lemma sim_assign_variable:
  assumes N: "source_names c0 N" and inv: "tab_inv c0 (ss_counter s) (ss_table s)" and V: "V \<subseteq> Collect N" "N (ident_name i)"
    and reads: "set (expr_reads v) \<subseteq> V" and rel: "related s V \<rho> \<rho>'"
    and c: "consume_expression comps v s = Inr ((v', ss), s1)" "rename_identifier_m i s1 = Inr (i', s2)"
      "simple_definition i' v' s2 = Inr (st, s')"
  shows "matches s s' (insert (ident_name i) V) ms \<rho>'
     (case eval M comps v \<rho> w of None \<Rightarrow> Halted | Some (u, w1) \<Rightarrow> Running (\<rho>(ident_name i := u)) w1)
     (exec_list M comps (ss @ [st]) \<rho>' w)"
  unfolding exec_list_snoc
proof (rule matches_expr[OF _ step_byD[OF expr_step_consume(1) c(1)] rel])
  show "sim_expr M comps V s s1 ss (eval M comps v) (eval M comps v')" using sim_consume(1)[OF reads] c(1) by blast
  have st: "\<exists>nid. st = S_Definition (Single i') None v' nid" using c(3) by (auto simp: simple_definition_Inr)
  show "exec M comps st \<rho>1 w1 = Halted" if "eval M comps v' \<rho>1 w1 = None" for \<rho>1 w1 using st that by auto
  fix \<rho>1 w1 u w2 assume ag: "agree (ss_counter s) \<rho>' \<rho>1" and rel1: "related s1 V \<rho> \<rho>1"
    and u: "eval M comps v \<rho> w = Some (u, w2)" "eval M comps v' \<rho>1 w1 = Some (u, w2)"
  have c01: "c0 \<le> ss_counter s" "ss_counter s \<le> ss_counter s1"
    using inv step_byD[OF expr_step_consume(1) c(1)] by (simp_all add: tab_inv_def expr_step_def)
  have x: "ident_name i \<noteq> ''self''" "\<not> generated c0 (ident_name i)" using N V(2) by (simp_all add: source_names_def)
  have gen: "generated (ss_counter s) (ident_name i')"
    using c(2) c01(2) by (auto simp: rename_identifier_m_Inr generated_unique)
  have rel2: "related s2 (insert (ident_name i) V) (\<rho>(ident_name i := u)) (\<rho>1(ident_name i' := u))"
    using x c01 by (intro related_rename_identifier[OF c(2) rel1, where ?c0.0 = c0]) auto
  have "ident_name i' \<notin> insert (ident_name i) V"
    using gen generated_mono[OF _ c01(1)] N V by (auto simp: source_names_def)
  from related_define[OF c(3) rel2 this]
  have "related s' (insert (ident_name i) V) (\<rho>(ident_name i := u)) (\<rho>1(ident_name i' := u))" .
  moreover have "kept s ms \<rho>' (\<rho>1(ident_name i' := u))"
    using ag gen by (intro agree_kept) (auto simp: agree_def)
  ultimately show "matches s s' (insert (ident_name i) V) ms \<rho>'
     (case eval M comps v \<rho> w of None \<Rightarrow> Halted | Some (u, w1) \<Rightarrow> Running (\<rho>(ident_name i := u)) w1) (exec M comps st \<rho>1 w1)"
    using st u by (auto simp: define_place_def run_with_def)
qed simp

lemma consume_place_root:
  assumes "consume_place place s = Inr ((place', ss), s')" "place_root place = Some (p, as)" "try_local_symbol p = Some x"
    "rename_lookup (ss_table s) x = Some n"
  shows "\<exists>p'. place_root place' = Some (p', as) \<and> try_local_symbol p' = Some n \<and>
     (\<forall>q. place' = E_Path q \<longrightarrow> (\<exists>q'. place = E_Path q'))"
  using assms
proof (induction place arbitrary: place' ss as rule: consume_place.induct)
  case (4 q)
  then obtain p' where p': "with_updated_last_symbol p n = Some p'" "place' = E_Path p'" "q = p" "as = []"
    by (auto simp: consume_path_def ssa_bind_Inr ssa_prims_Inr)
  then have "try_local_symbol p' = Some n"
    using 4 by (auto simp: with_updated_last_symbol_def try_local_symbol_def Let_def split: path_target.splits)
  with p' show ?case by simp
qed (fastforce simp: ssa_bind_Inr)+

lemma sim_assign_part:
  assumes N: "source_names c0 N" and inv: "tab_inv c0 (ss_counter s) (ss_table s)" and V: "V \<subseteq> Collect N" "x \<in> V"
    and reads: "set (expr_reads v) \<subseteq> V" and rel: "related s V \<rho> \<rho>'"
    and place: "\<forall>q. place \<noteq> E_Path q" "place_root place = Some (p, as)" "try_local_symbol p = Some x"
    and c: "consume_expression comps v s = Inr ((v', ss), s1)" "consume_place place s1 = Inr ((place', ss2), s')"
  shows "matches s s' V [x] \<rho>' (exec M comps (S_Assign place v nid) \<rho> w)
     (exec_list M comps (ss @ [S_Assign place' v' nid]) \<rho>' w)"
  unfolding exec_list_snoc
proof (rule matches_expr[OF _ step_byD[OF expr_step_consume(1) c(1)] rel])
  show "sim_expr M comps V s s1 ss (eval M comps v) (eval M comps v')" using sim_consume(1)[OF reads] c(1) by blast
  fix \<rho>1 w1 u w2 assume ag: "agree (ss_counter s) \<rho>' \<rho>1" and rel1: "related s1 V \<rho> \<rho>1"
    and u: "eval M comps v \<rho> w = Some (u, w2)" "eval M comps v' \<rho>1 w1 = Some (u, w2)"
  have s': "s' = s1" using consume_place_state[OF c(2)] by simp
  from rel1 V(2) obtain n where n: "rename_lookup (ss_table s1) x = Some n" "\<rho>1 n = \<rho> x" by (auto simp: related_def)
  from consume_place_root[OF c(2) place(2,3) n(1)] place(1) obtain p' where
    p': "place_root place' = Some (p', as)" "try_local_symbol p' = Some n" "\<forall>q. place' \<noteq> E_Path q" by blast
  have part: "assign_place M pl u r = map_option (\<lambda>b. r(y := b)) (m_set M as (r y) u)"
    if "\<forall>q. pl \<noteq> E_Path q" "place_root pl = Some (q', as)" "try_local_symbol q' = Some y" for pl q' y r
    using that by (cases pl) (auto simp: assign_place_def)
  note e1 = part[OF place, of \<rho>] and e2 = part[OF p'(3,1,2), of \<rho>1]
  have x: "\<not> generated (ss_counter s) x" using rel V(2) by (auto simp: related_def)
  have same: "rename_lookup (ss_table s1) x = rename_lookup (ss_table s) x"
    using step_byD[OF expr_step_consume(1) c(1)] x unfolding expr_step_def by metis
  have "tab_inv c0 (ss_counter s1) (ss_table s1)"
    using stmt_stepD(1)[OF stmt_step_expr(2)[OF c(1)] inv] .
  then have inj: "y = x" if "y \<in> V" "rename_lookup (ss_table s1) y = Some n" for y
    using that n(1) V N unfolding tab_inv_def source_names_def by blast
  have "related s1 V (\<rho>(x := b)) (\<rho>1(n := b))" for b
  proof -
    have upd: "(\<exists>m. rename_lookup (ss_table s1) y = Some m \<and> (\<rho>1(n := b)) m = (\<rho>(x := b)) y \<and>
        \<not> generated (ss_counter s1) m \<and> generated 0 m)" if y: "y \<in> V" for y
    proof -
      from rel1 y obtain m where m: "rename_lookup (ss_table s1) y = Some m" "\<rho>1 m = \<rho> y"
        "\<not> generated (ss_counter s1) m" "generated 0 m" by (auto simp: related_def)
      have "(m = n) = (y = x)" using inj[OF y] m(1) n(1) by auto
      with m show ?thesis by (intro exI[of _ m]) simp
    qed
    show ?thesis
      unfolding related_def using rel1[unfolded related_def] upd by blast
  qed
  moreover have "kept s [x] \<rho>' (\<rho>1(n := b))" for b
    using ag n(1) same by (auto simp: kept_def agree_def)
  ultimately show "matches s s' V [x] \<rho>' (exec M comps (S_Assign place v nid) \<rho> w) (exec M comps (S_Assign place' v' nid) \<rho>1 w1)"
    using u n(2) by (cases "m_set M as (\<rho> x) u") (auto simp: e1 e2 run_with_def s')
qed auto

section \<open>Conditionals\<close>

lemma kept_agree: "kept s ms \<rho> \<rho>1 \<Longrightarrow> agree c \<rho>1 \<rho>2 \<Longrightarrow> ss_counter s \<le> c \<Longrightarrow> kept s ms \<rho> \<rho>2"
  unfolding kept_def agree_def using generated_mono by metis

lemma kept_subset: "kept s ms \<rho> \<rho>1 \<Longrightarrow> set ms \<subseteq> set ms' \<Longrightarrow> kept s ms' \<rho> \<rho>1"
  by (auto simp: kept_def)

lemma mutated_named:
  "scoped N V st = Some V' \<Longrightarrow> set V \<subseteq> Collect N \<Longrightarrow> set (mutated st) \<subseteq> Collect N"
  "scoped_list N V sts = Some V' \<Longrightarrow> set V \<subseteq> Collect N \<Longrightarrow> set (mutated_list sts) \<subseteq> Collect N"
  "scoped_option N V ost = Some V' \<Longrightarrow> set V \<subseteq> Collect N \<Longrightarrow> set (mutated_option ost) \<subseteq> Collect N"
proof (induction N V st and N V sts and N V ost arbitrary: V' and V' and V' rule: scoped_scoped_list_scoped_option.induct)
  case (2 N V place v nid)
  then show ?case by (cases place) (auto simp: scoped_place_def split: if_splits option.splits)
next
  case (11 N V st sts)
  then obtain V1 where V1: "scoped N V st = Some V1" "scoped_list N V1 sts = Some V'" by (auto split: option.splits)
  have "set V1 \<subseteq> Collect N" using scoped_extends(1)[OF V1(1)] 11(4) by auto
  with 11 V1 show ?case by auto
qed (auto split: if_splits option.splits)

text \<open>The name of a condition is old, and the branches do not change it.\<close>

lemma condition_name:
  assumes d: "ssa_bind (consume_expression comps condition) define_result s = Inr ((cond, ss), s1)"
    and reads: "set (expr_reads condition) \<subseteq> V" and rel: "related s V \<rho> \<rho>'"
    and inv: "tab_inv c0 (ss_counter s) (ss_table s)" and N: "source_names c0 N" and V: "V \<subseteq> Collect N"
    and ms: "keeps_condition condition ms" "set ms \<subseteq> Collect N"
    and m: "cond = E_Path p" "try_local_symbol p = Some m"
  shows "\<not> generated (ss_counter s1) m \<and> (\<forall>x\<in>set ms. rename_lookup (ss_table s1) x \<noteq> Some m)"
proof -
  from d obtain e1 ss1 s' where c1: "consume_expression comps condition s = Inr ((e1, ss1), s')"
    and d1: "define_result (e1, ss1) s' = Inr ((cond, ss), s1)" by (auto simp: ssa_bind_Inr)
  have src: "\<not> generated c0 x" if "x \<in> set ms" for x using that ms(2) N by (auto simp: source_names_def)
  show ?thesis
  proof (cases "is_atom e1")
    case True
    then have e: "e1 = E_Path p" "s1 = s'" using d1 m(1) by (simp_all add: define_result_def)
    with c1 obtain q where q: "condition = E_Path q" "consume_path q s = Inr ((E_Path p, ss1), s')"
      by (cases condition) (auto simp: ssa_bind_Inr Let_def split: prod.splits option.splits if_splits)
    obtain y where y: "try_local_symbol q = Some y"
      using q(2) m(2) by (cases "try_local_symbol q") (auto simp: consume_path_def)
    with reads q have "y \<in> V" by simp
    with rel obtain n where n: "rename_lookup (ss_table s) y = Some n" "\<not> generated (ss_counter s) n"
      by (auto simp: related_def)
    from q(2) y n obtain p' where p': "with_updated_last_symbol q n = Some p'" "p = p'" "s' = s"
      by (auto simp: consume_path_def ssa_bind_Inr ssa_prims_Inr)
    have mn: "m = n"
      using p' y m(2) by (auto simp: with_updated_last_symbol_def try_local_symbol_def Let_def split: path_target.splits)
    have "y \<notin> set ms" using ms(1) q(1) y by (simp add: keeps_condition_def)
    moreover have "\<not> generated c0 y" using \<open>y \<in> V\<close> V N by (auto simp: source_names_def)
    ultimately have "rename_lookup (ss_table s) x \<noteq> Some m" if "x \<in> set ms" for x
      using inv that src[OF that] n(1) mn unfolding tab_inv_def by blast
    with n(2) mn p'(3) e(2) show ?thesis by simp
  next
    case False
    let ?n = "fst (unique_symbol ''$var'' ''$'' (ss_counter s'))"
    from d1 False m have mn: "m = ?n" and c: "ss_counter s1 = Suc (ss_counter s')"
      by (auto simp: define_result_def unique_simple_definition_def ssa_bind_Inr ssa_prims_Inr simple_definition_Inr
          Let_def to_local_def path_of_ident_def path_new_def try_local_symbol_def)
    have step: "expr_step s s1" using step_byD[OF define_step d] .
    have le: "ss_counter s \<le> ss_counter s'" "c0 \<le> ss_counter s"
      using step_byD[OF expr_step_consume(1) c1] inv by (simp_all add: expr_step_def tab_inv_def)
    have "rename_lookup (ss_table s1) x \<noteq> Some m" if x: "x \<in> set ms" for x
    proof
      assume l: "rename_lookup (ss_table s1) x = Some m"
      have "\<not> generated (ss_counter s) x" using src[OF x] generated_mono[OF _ le(2)] by blast
      then have "rename_lookup (ss_table s) x = Some m" using step l unfolding expr_step_def by metis
      then have "\<not> generated (ss_counter s) m" using inv by (auto simp: tab_inv_def)
      with mn le(1) show False by (simp add: generated_unique)
    qed
    with mn c show ?thesis by (simp add: generated_unique)
  qed
qed

lemma relatedD:
  "related s V \<rho> \<rho>' \<Longrightarrow> x \<in> V \<Longrightarrow> \<exists>n. rename_lookup (ss_table s) x = Some n \<and> \<rho>' n = \<rho> x \<and> \<not> generated (ss_counter s) n"
  by (auto simp: related_def)

lemma after_branch:
  assumes N: "source_names c0 N" and V: "V \<subseteq> Collect N" and inv1: "tab_inv c0 (ss_counter s1) (ss_table s1)"
    and b1: "bound s1 V"
    and T: "branch c0 cT (ss_table s1) sT" and E: "branch c0 cE (ss_table s1) sE"
    and cTE: "ss_counter sT \<le> ss_counter sE"
    and names: "phi_names c0 (sE\<lparr>ss_table := ss_table s1\<rparr>) (ss_table sT) (ss_table sE) (write_set (ss_table sT) (ss_table sE))"
    and inv7: "tab_inv c0 (ss_counter sE) (ss_table s1)" and cond: "stable c0 cond"
    and phi: "phi_functions comps cond (ss_table sT) (ss_table sE) (write_set (ss_table sT) (ss_table sE))
       (sE\<lparr>ss_table := ss_table s1\<rparr>) = Inr (phis, s')"
    and rel: "related (if b then sT else sE) V \<rho>2 \<rho>2'"
    and val: "\<And>\<rho>3. agree (ss_counter sE) \<rho>2' \<rho>3 \<Longrightarrow> eval M comps cond \<rho>3 w = Some (v, w)" "m_truth M v = Some b"
  shows "\<exists>\<rho>3. exec_list M comps phis \<rho>2' w = Running \<rho>3 w \<and> related s' V \<rho>2 \<rho>3 \<and> agree (ss_counter sE) \<rho>2' \<rho>3"
proof -
  let ?s7 = "sE\<lparr>ss_table := ss_table s1\<rparr>" and ?xs = "write_set (ss_table sT) (ss_table sE)"
  let ?B = "if b then ss_table sT else ss_table sE"
  have i7: "tab_inv c0 (ss_counter ?s7) (ss_table ?s7)" using inv7 by simp
  note st = phi_functions_step[OF phi i7 cond names]
  note d = stmt_stepD[OF conjunct1[OF st] i7]
  obtain \<rho>3 where r: "exec_list M comps phis \<rho>2' w = Running \<rho>3 w" "agree (ss_counter sE) \<rho>2' \<rho>3"
    "\<forall>x\<in>set ?xs. rename_lookup (ss_table s1) x \<noteq> None \<longrightarrow>
       (\<exists>m n. rename_lookup ?B x = Some m \<and> rename_lookup (ss_table s') x = Some n \<and> \<rho>3 n = \<rho>2' m)"
    using phi_functions_run[OF phi i7 cond names, of \<rho>2' M comps w v b] val by auto
  have c0: "c0 \<le> ss_counter s'" using d(1) by (simp add: tab_inv_def)
  have "y \<noteq> ''self'' \<and> \<not> generated (ss_counter s') y \<and>
      (\<exists>n. rename_lookup (ss_table s') y = Some n \<and> \<rho>3 n = \<rho>2 y \<and> \<not> generated (ss_counter s') n \<and> generated 0 n)"
    if y: "y \<in> V" for y
  proof -
    have src: "y \<noteq> ''self''" "\<not> generated c0 y" using y V N by (auto simp: source_names_def)
    have yc: "\<not> generated (ss_counter s') y" using src(2) generated_mono[OF _ c0] by blast
    obtain m where m: "rename_lookup ?B y = Some m" "\<rho>2' m = \<rho>2 y" "\<not> generated (ss_counter sE) m"
      using relatedD[OF rel y] generated_mono[OF _ cTE] by (auto split: if_splits)
    have out: "\<exists>n. rename_lookup (ss_table s') y = Some n \<and> \<rho>3 n = \<rho>2 y"
    proof (cases "y \<in> set ?xs")
      case True
      moreover have "rename_lookup (ss_table s1) y \<noteq> None" using b1 y by (simp add: bound_def)
      ultimately show ?thesis using r(3) m(1,2) by fastforce
    next
      case False
      then have "y \<notin> set (local_names ?B)" by (auto simp: write_set_def)
      then have "rename_lookup ?B y = rename_lookup (ss_table s1) y"
        using T E by (auto simp: branch_def lookup_not_local split: if_splits)
      moreover have "\<not> generated (ss_counter sE) y" using src(2) generated_mono[of "ss_counter sE" y c0] inv7 by (auto simp: tab_inv_def)
      ultimately have "rename_lookup (ss_table s') y = Some m" using st False m(1) by simp
      then show ?thesis using r(2) m(2,3) by (auto simp: agree_def)
    qed
    then obtain n where n: "rename_lookup (ss_table s') y = Some n" "\<rho>3 n = \<rho>2 y" by blast
    then have "\<not> generated (ss_counter s') n" "generated c0 n" using d(1) by (auto simp: tab_inv_def)
    then show ?thesis using n src(1) yc generated_mono[of c0 n 0] by auto
  qed
  then have "related s' V \<rho>2 \<rho>3" unfolding related_def by blast
  with r show ?thesis by blast
qed

lemma sim_conditional:
  assumes N: "source_names c0 N" and V: "set V \<subseteq> Collect N" and inv: "tab_inv c0 (ss_counter s) (ss_table s)"
    and b: "bound s (set V)" and reads: "set (expr_reads condition) \<subseteq> set V"
    and keep: "keeps_condition condition (mutated_list then_ss @ mutated_option otherwise)"
    and ms: "set (mutated_list then_ss @ mutated_option otherwise) \<subseteq> Collect N"
    and cond: "ssa_bind (consume_expression comps condition) define_result s = Inr ((cond, ss), s1)"
    and th: "stmt_step c0 (s1\<lparr>ss_table := ssa_push (ss_table s1)\<rparr>) s3"
    and el: "stmt_step c0 (s3\<lparr>ss_table := ssa_push (snd (ssa_pop (ss_table s3)))\<rparr>) s6"
    and phi: "phi_functions comps cond (ss_table s3) (ss_table s6) (write_set (ss_table s3) (ss_table s6))
       (s6\<lparr>ss_table := snd (ssa_pop (ss_table s6))\<rparr>) = Inr (phis, s')"
    and th_sim: "\<And>\<rho> \<rho>' w. related (s1\<lparr>ss_table := ssa_push (ss_table s1)\<rparr>) (set V) \<rho> \<rho>' \<Longrightarrow>
        matches (s1\<lparr>ss_table := ssa_push (ss_table s1)\<rparr>) s3 (set V) (mutated_list then_ss) \<rho>'
          (exec_list M comps then_ss \<rho> w) (exec_list M comps then' \<rho>' w)"
    and el_sim: "\<And>\<rho> \<rho>' w. related (s3\<lparr>ss_table := ssa_push (snd (ssa_pop (ss_table s3)))\<rparr>) (set V) \<rho> \<rho>' \<Longrightarrow>
        matches (s3\<lparr>ss_table := ssa_push (snd (ssa_pop (ss_table s3)))\<rparr>) s6 (set V) (mutated_option otherwise) \<rho>'
          (exec_option M comps otherwise \<rho> w) (exec_option M comps o' \<rho>' w)"
    and rel: "related s (set V) \<rho> \<rho>'"
  shows "matches s s' (set V) (mutated_list then_ss @ mutated_option otherwise) \<rho>'
     (exec M comps (S_Conditional condition (Block then_ss i) otherwise nid) \<rho> w)
     (exec_list M comps (ss @ S_Conditional cond (Block then' i) o' nid # phis) \<rho>' w)"
proof -
  note cs = conditional_step[OF inv b reads cond th el phi]
  let ?ms = "mutated_list then_ss @ mutated_option otherwise"
  have step: "expr_step s s1" using step_byD[OF define_step cond] .
  have pop: "snd (ssa_pop (ss_table s3)) = ss_table s1" "snd (ssa_pop (ss_table s6)) = ss_table s1"
    using branch_pop[OF cs(3)] branch_pop[OF cs(4)] by simp_all
  have c: "ss_counter s \<le> ss_counter s1" "ss_counter s1 \<le> ss_counter s3" "ss_counter s3 \<le> ss_counter s6"
    using step cs(3,4) by (simp_all add: expr_step_def branch_def)
  have b1: "bound s1 (set V)" using bound_step[OF cs(1) inv b] .
  have "sim_vals M comps (set V) s s1 ss (eval M comps condition) (eval M comps cond)"
    using sim_defineI[of comps condition M "set V"] sim_consume(1)[OF reads] cond unfolding sim_define_def by blast
  from this rel show ?thesis
  proof (cases rule: sim_valsE[where w = w])
    case halts
    then show ?thesis by (simp add: exec_list_append)
  next
    case (runs \<rho>1 w1 v)
    note rel1 = related_step[OF rel step runs(2)]
    have cond1: "eval M comps cond \<rho>1 w' = Some (v, w')" for w' using runs(4) by simp
    have cond_val: "eval M comps cond \<rho>3 w' = Some (v, w')"
      if k: "kept sp ms \<rho>1 \<rho>2" "ss_counter s1 \<le> ss_counter sp" "\<And>x. rename_lookup (ss_table sp) x = rename_lookup (ss_table s1) x"
        "set ms \<subseteq> set ?ms" and ag: "agree (ss_counter s6) \<rho>2 \<rho>3" for sp ms \<rho>2 \<rho>3 w'
    proof (cases "\<exists>p m. cond = E_Path p \<and> try_local_symbol p = Some m")
      case True
      then obtain p m where p: "cond = E_Path p" "try_local_symbol p = Some m" by blast
      have m: "\<not> generated (ss_counter s1) m" "\<forall>x\<in>set ?ms. rename_lookup (ss_table s1) x \<noteq> Some m"
        using condition_name[OF cond reads rel inv N V keep ms p] by simp_all
      have "\<not> generated (ss_counter sp) m" "\<not> generated (ss_counter s6) m"
        using m(1) generated_mono k(2) c by (meson order.trans)+
      then have "\<rho>3 m = \<rho>1 m" using k(1,3,4) m(2) ag by (auto simp: kept_def agree_def)
      then show ?thesis using cond1[of w'] p by (simp add: eval.simps read_path_def)
    next
      case False
      with cs(5) cond1[of w'] show ?thesis by (auto simp: stable_def eval.simps read_path_def split: option.splits)
    qed
    have fin: "matches s s' (set V) ?ms \<rho>' r (continue_with r' (exec_list M comps phis))"
      if mt: "matches sp (if bt then s3 else s6) (set V) ms \<rho>1 r r'" and bt: "m_truth M v = Some bt"
        and sp: "ss_counter s1 \<le> ss_counter sp" "\<And>x. rename_lookup (ss_table sp) x = rename_lookup (ss_table s1) x"
          "set ms \<subseteq> set ?ms" for sp bt ms r r'
    proof (cases r)
      case (Running \<rho>2 w2)
      with mt obtain \<rho>2' where r2: "r' = Running \<rho>2' w2" "related (if bt then s3 else s6) (set V) \<rho>2 \<rho>2'" "kept sp ms \<rho>1 \<rho>2'"
        by auto
      have phi': "phi_functions comps cond (ss_table s3) (ss_table s6) (write_set (ss_table s3) (ss_table s6))
          (s6\<lparr>ss_table := ss_table s1\<rparr>) = Inr (phis, s')" using phi pop(2) by simp
      obtain \<rho>3 where r3: "exec_list M comps phis \<rho>2' w2 = Running \<rho>3 w2" "related s' (set V) \<rho>2 \<rho>3"
        "agree (ss_counter s6) \<rho>2' \<rho>3"
        using after_branch[OF N V cs(2) b1 cs(3,4) c(3) cs(6,7,5) phi' r2(2) cond_val[OF r2(3) sp] bt] by blast
      have "kept s1 ms \<rho>1 \<rho>2'" 
        using r2(3) sp(2) generated_mono[OF _ sp(1)] unfolding kept_def by metis
      from kept_later[OF runs(2) this cs(1) inv] have "kept s ms \<rho>' \<rho>2'" .
      from kept_agree[OF kept_subset[OF this sp(3)] r3(3)] c have "kept s ?ms \<rho>' \<rho>3" by simp
      then show ?thesis using Running r2(1) r3 by auto
    qed (use mt in auto)
    have relT: "related (s1\<lparr>ss_table := ssa_push (ss_table s1)\<rparr>) (set V) \<rho> \<rho>1" using rel1 by (simp add: related_def)
    have relE: "related (s3\<lparr>ss_table := ssa_push (snd (ssa_pop (ss_table s3)))\<rparr>) (set V) \<rho> \<rho>1"
      using rel1 generated_mono[OF _ c(2)] unfolding related_def by (simp add: pop) blast
    show ?thesis
    proof (cases "m_truth M v")
      case None
      with runs cond1 show ?thesis by (simp add: exec_list_append)
    next
      case (Some bt)
      show ?thesis
      proof (cases bt)
        case True
        then show ?thesis
          using fin[of "s1\<lparr>ss_table := ssa_push (ss_table s1)\<rparr>" True "mutated_list then_ss"] th_sim[OF relT] Some runs(1,3) cond1
          by (simp add: exec_list_append)
      next
        case False
        then show ?thesis
          using fin[of "s3\<lparr>ss_table := ssa_push (snd (ssa_pop (ss_table s3)))\<rparr>" False "mutated_option otherwise"] el_sim[OF relE]
            Some runs(1,3) cond1 c pop
          by (simp add: exec_list_append)
      qed
    qed
  qed
qed

section \<open>All statements\<close>

lemma matches_vals:
  assumes sim: "sim_vals M comps V s s1 ss src tgt" and step: "expr_step s s1" and rel: "related s V \<rho> \<rho>'"
    and halt: "src \<rho> w = None \<Longrightarrow> r = Halted"
    and run: "\<And>\<rho>1 w1 a. agree (ss_counter s) \<rho>' \<rho>1 \<Longrightarrow> related s1 V \<rho> \<rho>1 \<Longrightarrow> src \<rho> w = Some (a, w1) \<Longrightarrow>
        tgt \<rho>1 w1 = Some (a, w1) \<Longrightarrow> matches s s' W ms \<rho>' r (k \<rho>1 w1)"
  shows "matches s s' W ms \<rho>' r (continue_with (exec_list M comps ss \<rho>' w) k)"
  using sim rel
proof (cases rule: sim_valsE[where w = w])
  case halts
  with halt show ?thesis by simp
next
  case (runs \<rho>1 w1 a)
  with run[OF runs(2) related_step[OF rel step runs(2)]] show ?thesis by simp
qed

lemma sim_defined:
  assumes "set (expr_reads e) \<subseteq> V" "ssa_bind (consume_expression comps e) define_result s = Inr ((e', ss), s')"
  shows "sim_vals M comps V s s' ss (eval M comps e) (eval M comps e')" "expr_step s s'"
  using sim_defineI[of comps e M V] sim_consume(1)[OF assms(1)] assms(2) step_byD[OF define_step assms(2)]
  unfolding sim_define_def by blast+

lemma sim_list:
  assumes "set (list_reads es) \<subseteq> V" "consume_list comps es s = Inr ((es', ss), s')"
  shows "sim_vals M comps V s s' ss (eval_list M comps es) (eval_list M comps es')" "expr_step s s'"
  using sim_consume(2)[OF assms(1)] assms(2) step_byD[OF expr_step_consume(2) assms(2)] by blast+

lemma consume_pair:
  assumes "ssa_bind (consume_expression comps a) define_result s = Inr ((a', ss), s1)"
    "ssa_bind (consume_expression comps b) define_result s1 = Inr ((b', ts), s')"
  shows "consume_list comps [a, b] s = Inr (([a', b'], ss @ ts), s')"
  using assms by (simp add: ssa_bind_def[of "ssa_bind _ _"] ssa_bind_def[of "ssa_return _"] ssa_return_def)

lemma consume_assert_list:
  assumes "consume_assert comps variant s = Inr ((variant', ss), s')"
  shows "case variant of
      Assert e \<Rightarrow> \<exists>e'. variant' = Assert e' \<and> ssa_bind (consume_expression comps e) define_result s = Inr ((e', ss), s')
    | AssertEq a b \<Rightarrow> \<exists>a' b'. variant' = AssertEq a' b' \<and> consume_list comps [a, b] s = Inr (([a', b'], ss), s')
    | AssertNeq a b \<Rightarrow> \<exists>a' b'. variant' = AssertNeq a' b' \<and> consume_list comps [a, b] s = Inr (([a', b'], ss), s')"
  using assms unfolding consume_assert_def consume_expression_and_define_def
  by (cases variant) (auto simp: ssa_bind_Inr[of "ssa_bind _ _"] simp del: consume_list.simps dest: consume_pair)

lemma sim_assert:
  assumes c: "consume_assert comps variant s = Inr ((variant', ss), s')" and reads: "set (assert_reads variant) \<subseteq> V"
    and rel: "related s V \<rho> \<rho>'"
  shows "matches s s' V [] \<rho>' (check_assert M comps variant \<rho> w) (exec_list M comps (ss @ [S_Assert variant' nid]) \<rho>' w)"
proof (cases variant)
  case (Assert e)
  from consume_assert_list[OF c] Assert obtain e' where e': "variant' = Assert e'"
    "ssa_bind (consume_expression comps e) define_result s = Inr ((e', ss), s')" by auto
  have r: "set (expr_reads e) \<subseteq> V" using reads Assert by simp
  show ?thesis unfolding exec_list_snoc
    by (rule matches_vals[OF sim_defined(1,2)[OF r e'(2)] rel]) (auto simp: check_assert_def Assert e'(1) intro: agree_kept)
next
  case (AssertEq a b)
  from consume_assert_list[OF c] AssertEq obtain a' b' where e': "variant' = AssertEq a' b'"
    "consume_list comps [a, b] s = Inr (([a', b'], ss), s')" by auto
  have r: "set (list_reads [a, b]) \<subseteq> V" using reads AssertEq by simp
  show ?thesis unfolding exec_list_snoc
    by (rule matches_vals[OF sim_list(1,2)[OF r e'(2)] rel])
       (auto simp: check_assert_def AssertEq e'(1) intro: agree_kept simp del: eval_list.simps)
next
  case (AssertNeq a b)
  from consume_assert_list[OF c] AssertNeq obtain a' b' where e': "variant' = AssertNeq a' b'"
    "consume_list comps [a, b] s = Inr (([a', b'], ss), s')" by auto
  have r: "set (list_reads [a, b]) \<subseteq> V" using reads AssertNeq by simp
  show ?thesis unfolding exec_list_snoc
    by (rule matches_vals[OF sim_list(1,2)[OF r e'(2)] rel])
       (auto simp: check_assert_def AssertNeq e'(1) intro: agree_kept simp del: eval_list.simps)
qed

lemma sim_return:
  assumes c: "consume_statement r comps (S_Return e nid) s = Inr (out, s')" and reads: "set (expr_reads e) \<subseteq> V"
    and rel: "related s V \<rho> \<rho>'"
  shows "matches s s' V [] \<rho>' (exec M comps (S_Return e nid) \<rho> w) (exec_list M comps out \<rho>' w)"
proof (cases "\<exists>es i. e = E_Tuple es i")
  case True
  then obtain es i where e: "e = E_Tuple es i" by blast
  with c obtain es' ss where es': "consume_list comps es s = Inr ((es', ss), s')" "out = ss @ [S_Return (E_Tuple es' i) nid]"
    by (auto simp: ssa_bind_Inr)
  have r: "set (list_reads es) \<subseteq> V" using reads e by simp
  show ?thesis unfolding es'(2) exec_list_snoc
    by (rule matches_vals[OF sim_list(1,2)[OF r es'(1)] rel]) (auto simp: e eval.simps split: option.split)
next
  case False
  with c obtain e' ss where e': "ssa_bind (consume_expression comps e) define_result s = Inr ((e', ss), s')"
    "out = ss @ [S_Return e' nid]"
    by (cases e) (auto simp: ssa_bind_Inr[of "ssa_bind _ _"] consume_expression_and_define_def simp del: consume_expression.simps)
  show ?thesis unfolding e'(2) exec_list_snoc
    by (rule matches_vals[OF sim_defined(1,2)[OF reads e'(1)] rel]) auto
qed

lemma sim_expression_statement:
  assumes c: "consume_expression comps e s = Inr ((e', ss), s')" and reads: "set (expr_reads e) \<subseteq> V"
    and rel: "related s V \<rho> \<rho>'"
  shows "matches s s' V [] \<rho>' (exec M comps (S_Expression e nid) \<rho> w)
     (exec_list M comps (ss @ [S_Expression e' nid]) \<rho>' w)"
  unfolding exec_list_snoc
proof (rule matches_expr[OF _ step_byD[OF expr_step_consume(1) c] rel])
  show "sim_expr M comps V s s' ss (eval M comps e) (eval M comps e')" using sim_consume(1)[OF reads] c by blast
qed (auto intro: agree_kept)

text \<open>A multiple definition renames its names before its value is consumed.\<close>

lemma related_rename_other:
  "rename_identifiers is s = Inr (is', s') \<Longrightarrow> related s V \<rho> \<rho>' \<Longrightarrow> ident_name ` set is \<inter> V = {} \<Longrightarrow> related s' V \<rho> \<rho>'"
proof (induction "is" arbitrary: s is')
  case (Cons i "is")
  then obtain i1 s1 is1 where i1: "rename_identifier_m i s = Inr (i1, s1)" "rename_identifiers is s1 = Inr (is1, s')"
    by (auto simp: ssa_bind_Inr)
  have c: "ss_counter s \<le> ss_counter s1" using i1(1) by (auto simp: rename_identifier_m_Inr)
  have "related s1 V \<rho> \<rho>'"
    using Cons.prems(2,3) i1(1) generated_mono[OF _ c] unfolding related_def by (fastforce simp: rename_identifier_m_Inr)
  with Cons.IH[OF i1(2)] Cons.prems(3) show ?case by simp
qed simp

lemma agree_bind_names: "agree c \<rho> \<rho>1 \<Longrightarrow> agree c (bind_names is vs \<rho>) (bind_names is vs \<rho>1)"
proof (induction "is" vs \<rho> arbitrary: \<rho>1 rule: bind_names.induct)
  case (1 i "is" v vs \<rho>)
  from 1(2) have "agree c (\<rho>(ident_name i := v)) (\<rho>1(ident_name i := v))" by (simp add: agree_def)
  from 1(1)[OF this] show ?case unfolding bind_names.simps .
qed simp_all

lemma sim_multiple:
  assumes N: "source_names c0 N" and inv: "tab_inv c0 (ss_counter s) (ss_table s)" and names: "\<forall>i\<in>set is. N (ident_name i)"
    and reads: "set (expr_reads v) \<subseteq> V" "ident_name ` set is \<inter> set (expr_reads v) = {}" and rel: "related s V \<rho> \<rho>'"
    and c: "rename_identifiers is s = Inr (is', s1)" "consume_expression comps v s1 = Inr ((v', ss), s')"
  shows "matches s s' (ident_name ` set is \<union> V) ms \<rho>' (exec M comps (S_Definition (Multiple is) ty v nid) \<rho> w)
     (exec_list M comps (ss @ [S_Definition (Multiple is') None v' nid]) \<rho>' w)"
proof -
  let ?R = "set (expr_reads v)"
  have c0: "c0 \<le> ss_counter s" using inv by (simp add: tab_inv_def)
  have src: "\<forall>i\<in>set is. ident_name i \<noteq> ''self'' \<and> \<not> generated c0 (ident_name i)" using N names by (auto simp: source_names_def)
  have step1: "stmt_step c0 s s1" using src by (intro stmt_step_rename_identifiers[OF c(1)]) auto
  note c01 = stmt_stepD(2)[OF step1 inv]
  have step: "expr_step s1 s'" using step_byD[OF expr_step_consume(1) c(2)] .
  have relR: "related s1 ?R \<rho> \<rho>'" using related_rename_other[OF c(1) related_mono[OF rel reads(1)] reads(2)] .
  show ?thesis unfolding exec_list_snoc
  proof (rule matches_expr[OF _ step relR])
    show "sim_expr M comps ?R s1 s' ss (eval M comps v) (eval M comps v')" using sim_consume(1)[OF order.refl] c(2) by blast
    fix \<rho>1 w1 u w2 assume ag: "agree (ss_counter s1) \<rho>' \<rho>1"
      and u: "eval M comps v \<rho> w = Some (u, w2)" "eval M comps v' \<rho>1 w1 = Some (u, w2)"
    have len: "length is' = length is"
      using related_rename_identifiers[OF c(1) rel _ src c0, of "replicate (length is) u"] by simp
    show "matches s s' (ident_name ` set is \<union> V) ms \<rho>' (exec M comps (S_Definition (Multiple is) ty v nid) \<rho> w)
       (exec M comps (S_Definition (Multiple is') None v' nid) \<rho>1 w1)"
    proof (cases "\<exists>vs. m_untuple M u = Some vs \<and> length vs = length is")
      case True
      then obtain vs where vs: "m_untuple M u = Some vs" "length vs = length is" by blast
      note r = related_rename_identifiers[OF c(1) rel vs(2) src c0]
      have ag': "agree (ss_counter s1) (bind_names is' vs \<rho>') (bind_names is' vs \<rho>1)" by (rule agree_bind_names[OF ag])
      have "related s' (ident_name ` set is \<union> V) (bind_names is vs \<rho>) (bind_names is' vs \<rho>1)"
        using related_step[OF _ step ag'] r by blast
      moreover have "agree (ss_counter s) \<rho>' (bind_names is' vs \<rho>1)"
        unfolding agree_def
      proof (intro allI impI)
        fix n assume n: "\<not> generated (ss_counter s) n"
        then have "bind_names is' vs \<rho>1 n = \<rho>1 n" using r by (intro bind_names_other) auto
        also have "\<rho>1 n = \<rho>' n" using n ag generated_mono[OF _ c01] by (auto simp: agree_def)
        finally show "bind_names is' vs \<rho>1 n = \<rho>' n" .
      qed
      ultimately show ?thesis using u vs len by (auto simp: define_place_def run_with_def intro: agree_kept)
    next
      case False
      with u len show ?thesis by (auto simp: define_place_def run_with_def split: Option.bind_split)
    qed
  qed auto
qed

lemma matches_subset: "matches s s' V ms \<rho>' r r' \<Longrightarrow> set ms \<subseteq> set ms' \<Longrightarrow> matches s s' V ms' \<rho>' r r'"
  by (cases r) (auto intro: kept_subset)

lemma exec_variable:
  "exec M comps (S_Assign (E_Path p) v nid) \<rho> w =
     (case eval M comps v \<rho> w of None \<Rightarrow> Halted | Some (u, w1) \<Rightarrow> Running (\<rho>(ident_name (identifier_of p) := u)) w1)"
  "exec M comps (S_Definition (Single i) ty v nid) \<rho> w =
     (case eval M comps v \<rho> w of None \<Rightarrow> Halted | Some (u, w1) \<Rightarrow> Running (\<rho>(ident_name i := u)) w1)"
  by (simp_all add: assign_place_def define_place_def run_with_def split: option.split)

lemma sim_statement:
  fixes M :: "('v, 'w) meaning"
  assumes N: "source_names c0 N"
  shows "r \<Longrightarrow> set V \<subseteq> Collect N \<Longrightarrow> scoped N V st = Some V' \<Longrightarrow> consume_statement r comps st s = Inr (out, s') \<Longrightarrow>
      tab_inv c0 (ss_counter s) (ss_table s) \<Longrightarrow> bound s (set V) \<Longrightarrow> related s (set V) \<rho> \<rho>' \<Longrightarrow>
      matches s s' (set V') (mutated st) \<rho>' (exec M comps st \<rho> w) (exec_list M comps out \<rho>' w)"
  and "r \<Longrightarrow> set V \<subseteq> Collect N \<Longrightarrow> scoped_list N V sts = Some V' \<Longrightarrow> consume_statements r comps sts s = Inr (out, s') \<Longrightarrow>
      tab_inv c0 (ss_counter s) (ss_table s) \<Longrightarrow> bound s (set V) \<Longrightarrow> related s (set V) \<rho> \<rho>' \<Longrightarrow>
      matches s s' (set V') (mutated_list sts) \<rho>' (exec_list M comps sts \<rho> w) (exec_list M comps out \<rho>' w)"
  and "r \<Longrightarrow> set V \<subseteq> Collect N \<Longrightarrow> scoped_option N V ost = Some V' \<Longrightarrow> consume_otherwise r comps ost s = Inr (oo, s') \<Longrightarrow>
      tab_inv c0 (ss_counter s) (ss_table s) \<Longrightarrow> bound s (set V) \<Longrightarrow> related s (set V) \<rho> \<rho>' \<Longrightarrow>
      matches s s' (set V) (mutated_option ost) \<rho>' (exec_option M comps ost \<rho> w) (exec_option M comps oo \<rho>' w)"
proof (induction r comps st and r comps sts and r comps ost
    arbitrary: V V' s out s' \<rho> \<rho>' w and V V' s out s' \<rho> \<rho>' w and V V' s oo s' \<rho> \<rho>' w
    rule: consume_statement_consume_statements_consume_otherwise.induct)
  case (1 r comps variant nid)
  then show ?case using sim_assert[of comps variant s _ _ s' "set V" \<rho> \<rho>' M w nid] by (auto simp: ssa_bind_Inr split: if_splits)
next
  case (2 r comps place v nid)
  from 2(3) have V: "V' = V" "scoped_place V place" "set (expr_reads v) \<subseteq> set V" by (auto split: if_splits)
  show ?case
  proof (cases "\<exists>p. place = E_Path p")
    case True
    then obtain p where p: "place = E_Path p" by blast
    from 2(4) p obtain v' ss s1 i' s2 st where c: "consume_expression comps v s = Inr ((v', ss), s1)"
      "rename_identifier_m (identifier_of p) s1 = Inr (i', s2)" "simple_definition i' v' s2 = Inr (st, s')" "out = ss @ [st]"
      by (auto simp: ssa_bind_Inr)
    have x: "ident_name (identifier_of p) \<in> set V" using V(2) p by (simp add: scoped_place_def)
    then have "N (ident_name (identifier_of p))" using 2(2) by blast
    from sim_assign_variable[OF N 2(5) 2(2) this V(3) 2(7) c(1-3), of "[]" M w] x
    show ?thesis by (simp add: p V(1) c(4) exec_variable(1) insert_absorb del: exec.simps)
  next
    case False
    with 2(4) obtain v' ss s1 place' ss2 where c: "consume_expression comps v s = Inr ((v', ss), s1)"
      "consume_place place s1 = Inr ((place', ss2), s')" "out = ss @ ss2 @ [S_Assign place' v' nid]"
      by (cases place) (auto simp: ssa_bind_Inr)
    have ss2: "ss2 = []" using consume_place_state[OF c(2)] by simp
    have np: "\<forall>q. place \<noteq> E_Path q" using False by blast
    with V(2) obtain q as x where q: "place_root place = Some (q, as)" "try_local_symbol q = Some x" "x \<in> set V"
      by (cases place) (auto simp: scoped_place_def split: option.splits)
    have m: "mutated (S_Assign place v nid) = [x]" using np q by (cases place) auto
    show ?thesis
      using sim_assign_part[OF N 2(5) 2(2) q(3) V(3) 2(7) np q(1,2) c(1,2)] c(3) ss2 unfolding m V(1) by (simp del: exec.simps)
  qed
next
  case (3 r comps ss nid)
  then obtain V1 where V1: "scoped_list N V ss = Some V1" "V' = V" by (auto split: option.splits)
  from 3 V1 have "matches s s' (set V1) (mutated_list ss) \<rho>' (exec_list M comps ss \<rho> w) (exec_list M comps out \<rho>' w)"
    by simp
  from matches_mono[OF this] scoped_extends(2)[OF V1(1)] V1(2) show ?case by simp
next
  case (4 r comps condition then_ss then_id otherwise nid)
  from 4(5) have V: "V' = V" "set (expr_reads condition) \<subseteq> set V"
    "keeps_condition condition (mutated_list then_ss @ mutated_option otherwise)" by (auto split: if_splits)
  from 4(5) obtain V1 V2 where sc: "scoped_list N V then_ss = Some V1" "scoped_option N V otherwise = Some V2"
    by (auto split: if_splits)
  obtain cond ss s1 then' s3 o' s6 phis where
    c: "ssa_bind (consume_expression comps condition) define_result s = Inr ((cond, ss), s1)"
    "consume_statements r comps then_ss (s1\<lparr>ss_table := ssa_push (ss_table s1)\<rparr>) = Inr (then', s3)"
    "consume_otherwise r comps otherwise (s3\<lparr>ss_table := ssa_push (snd (ssa_pop (ss_table s3)))\<rparr>) = Inr (o', s6)"
    "phi_functions comps cond (ss_table s3) (ss_table s6) (write_set (ss_table s3) (ss_table s6))
       (s6\<lparr>ss_table := snd (ssa_pop (ss_table s6))\<rparr>) = Inr (phis, s')"
    "out = ss @ S_Conditional cond (Block then' then_id) o' nid # phis" using 4(6) by (rule consume_conditional)
  let ?s2 = "s1\<lparr>ss_table := ssa_push (ss_table s1)\<rparr>" and ?s4 = "s3\<lparr>ss_table := ssa_push (snd (ssa_pop (ss_table s3)))\<rparr>"
  have step1: "stmt_step c0 s s1" by (rule stmt_step_expr(1)[OF c(1)])
  have inv1: "tab_inv c0 (ss_counter s1) (ss_table s1)" and b1: "bound s1 (set V)"
    using stmt_stepD(1)[OF step1 4(7)] bound_step[OF step1 4(7,8)] by simp_all
  have push: "tab_inv c0 k (ssa_push t)" if "tab_inv c0 k t" for k t using that by (auto intro: tab_inv_cong)
  have i2: "tab_inv c0 (ss_counter ?s2) (ss_table ?s2)" "bound ?s2 (set V)" using push[OF inv1] b1 by (simp_all add: bound_def)
  note th = conjunct1[OF consume_statement_step(2)[OF N 4(3,4) sc(1) c(2) i2]]
  have T: "branch c0 (ss_counter s1) (ss_table s1) s3" using branchI[OF th, of "ss_table s1"] inv1 by simp
  have inv3: "tab_inv c0 (ss_counter s3) (ss_table s1)" using tab_inv_later[OF inv1] T by (simp add: branch_def)
  have i4: "tab_inv c0 (ss_counter ?s4) (ss_table ?s4)" "bound ?s4 (set V)"
    using push[OF inv3] b1 branch_pop[OF T] by (simp_all add: bound_def)
  note el = consume_statement_step(3)[OF N 4(3,4) sc(2) c(3) i4]
  have ms: "set (mutated_list then_ss @ mutated_option otherwise) \<subseteq> Collect N"
    using mutated_named(2)[OF sc(1) 4(4)] mutated_named(3)[OF sc(2) 4(4)] by simp
  have th_sim: "matches ?s2 s3 (set V) (mutated_list then_ss) \<rho>' (exec_list M comps then_ss \<rho> w) (exec_list M comps then' \<rho>' w)"
    if "related ?s2 (set V) \<rho> \<rho>'" for \<rho> \<rho>' w
    using matches_mono[OF 4(1)[OF 4(3,4) sc(1) c(2) i2 that]] scoped_extends(2)[OF sc(1)] by blast
  have el_sim: "matches ?s4 s6 (set V) (mutated_option otherwise) \<rho>' (exec_option M comps otherwise \<rho> w) (exec_option M comps o' \<rho>' w)"
    if "related ?s4 (set V) \<rho> \<rho>'" for \<rho> \<rho>' w using 4(2)[OF 4(3,4) sc(2) c(3) i4 that] .
  show ?case
    using sim_conditional[OF N 4(4,7,8) V(2,3) ms c(1) th el c(4) th_sim el_sim 4(9)] by (simp add: c(5) V(1) del: exec.simps)
next
  case (5 r comps)
  then show ?case by (auto simp: kept_def)
next
  case (6 r comps place ty v nid)
  from 6(3) have V: "V' = declares place @ V" "\<forall>x\<in>set (declares place). N x" "set (expr_reads v) \<subseteq> set V"
    by (auto simp: list_all_iff split: if_splits)
  show ?case
  proof (cases place)
    case (Single i)
    with 6(1,4) obtain v' ss s1 i' s2 st where c: "consume_expression comps v s = Inr ((v', ss), s1)"
      "rename_identifier_m i s1 = Inr (i', s2)" "simple_definition i' v' s2 = Inr (st, s')" "out = ss @ [st]"
      by (auto simp: ssa_bind_Inr)
    have "N (ident_name i)" using V(2) Single by simp
    from sim_assign_variable[OF N 6(5) 6(2) this V(3) 6(7) c(1-3), of "[]" M w]
    show ?thesis by (simp add: Single V(1) c(4) exec_variable(2) del: exec.simps)
  next
    case (Multiple "is")
    with 6(1,4) obtain v' ss s1 is' where c: "rename_identifiers is s = Inr (is', s1)"
      "consume_expression comps v s1 = Inr ((v', ss), s')" "out = ss @ [S_Definition (Multiple is') None v' nid]"
      by (auto simp: ssa_bind_Inr)
    have "\<forall>i\<in>set is. N (ident_name i)" "ident_name ` set is \<inter> set (expr_reads v) = {}"
      using V(2) 6(3) Multiple by (auto split: if_splits)
    from sim_multiple[OF N 6(5) this(1) V(3) this(2) 6(7) c(1,2), of "[]" M ty nid w]
    show ?thesis by (simp add: Multiple V(1) c(3) del: exec.simps)
  qed
next
  case (7 r comps e nid)
  then obtain e' ss where c: "consume_expression comps e s = Inr ((e', ss), s')" "out = ss @ [S_Expression e' nid]"
    by (auto simp: ssa_bind_Inr)
  with 7 sim_expression_statement[OF c(1) _ 7(7)] show ?case by (auto split: if_splits simp del: exec.simps)
next
  case (9 r comps e nid)
  from 9(3) have V: "V' = V" "set (expr_reads e) \<subseteq> set V" by (auto split: if_splits)
  from sim_return[OF 9(4) V(2) 9(7)] show ?case by (simp add: V(1) del: exec.simps)
next
  case (10 r comps)
  then show ?case by (auto simp: kept_def)
next
  case (11 r comps st sts)
  from 11(5) obtain V1 where V1: "scoped N V st = Some V1" "scoped_list N V1 sts = Some V'" by (auto split: option.splits)
  from 11(6) obtain ss s1 rest where c: "consume_statement r comps st s = Inr (ss, s1)"
    "consume_statements r comps sts s1 = Inr (rest, s')" "out = ss @ rest" by (auto simp: ssa_bind_Inr)
  have st: "stmt_step c0 s s1" "bound s1 (set V1)" using consume_statement_step(1)[OF N 11(3,4) V1(1) c(1) 11(7,8)] by simp_all
  have V1N: "set V1 \<subseteq> Collect N" using scoped_extends(1)[OF V1(1)] 11(4) by auto
  note inv1 = stmt_stepD(1)[OF st(1) 11(7)]
  note m1 = 11(1)[OF 11(3,4) V1(1) c(1) 11(7,8,9), of w]
  show ?case
  proof (cases "exec M comps st \<rho> w")
    case (Running \<rho>1 w1)
    with m1 obtain \<rho>1' where r1: "exec_list M comps ss \<rho>' w = Running \<rho>1' w1" "related s1 (set V1) \<rho>1 \<rho>1'"
      "kept s (mutated st) \<rho>' \<rho>1'" by auto
    note m2 = 11(2)[OF 11(3) V1N V1(2) c(2) inv1 st(2) r1(2), of w1]
    show ?thesis
    proof (cases "exec_list M comps sts \<rho>1 w1")
      case Running2: (Running \<rho>2 w2)
      with m2 obtain \<rho>2' where "exec_list M comps rest \<rho>1' w1 = Running \<rho>2' w2" "related s' (set V') \<rho>2 \<rho>2'"
        "kept s1 (mutated_list sts) \<rho>1' \<rho>2'" by auto
      with kept_trans[OF r1(3) _ st(1) 11(7)] Running Running2 r1(1) c(3) show ?thesis by (simp add: exec_list_append)
    qed (use m2 Running r1(1) c(3) in \<open>simp_all add: exec_list_append\<close>)
  qed (use m1 c(3) in \<open>simp_all add: exec_list_append\<close>)
next
  case (12 r comps)
  then show ?case by (auto simp: kept_def)
next
  case (13 r comps st)
  show ?case
  proof (cases st)
    case (S_Block b)
    obtain ss nid where b: "b = Block ss nid" by (cases b)
    with 13 S_Block obtain V1 where V1: "scoped_list N V ss = Some V1" by (auto split: option.splits)
    from 13(6) S_Block b obtain ss' where c: "consume_statements r comps ss s = Inr (ss', s')" "oo = Some (S_Block (Block ss' nid))"
      by (auto simp: ssa_bind_Inr)
    from matches_mono[OF 13(1)[OF S_Block b 13(3,4) V1 c(1) 13(7,8,9), of w]] scoped_extends(2)[OF V1]
    show ?thesis by (simp add: S_Block b c(2))
  next
    case (S_Conditional cnd bl o' nid)
    from 13(6) S_Conditional obtain ss' where c: "consume_statement r comps st s = Inr (ss', s')"
      "oo = Some (S_Block (Block ss' nid))" by (auto simp: ssa_bind_Inr simp del: consume_statement.simps)
    have V: "scoped N V st = Some V'" using 13(5) by simp
    from matches_mono[OF 13(2)[OF S_Conditional 13(3,4) V[unfolded S_Conditional] c(1)[unfolded S_Conditional] 13(7,8,9), of w]]
      scoped_extends(1)[OF V]
    show ?thesis by (simp add: S_Conditional c(2) del: exec.simps(4) mutated.simps)
  qed (use 13 in auto)
qed auto

end
