(* ===== verification/Ssa_Form.thy ===== *)
theory Ssa_Form
  imports Ssa_Correct
begin

text \<open>
  The shape of what static single assignment produces: every variable is defined once, with a name that
  is new, no variable is assigned again, and operands are variables.
\<close>

section \<open>The normal form\<close>

fun operand :: "expression \<Rightarrow> bool" where
  "operand (E_Path _) = True"
| "operand (E_Unit _) = True"
| "operand _ = False"

text \<open>A field of a composite is an operand, or a field of an operand: the copy of a field of a base.\<close>

fun plain_field :: "field_initializer \<Rightarrow> bool" where
  "plain_field (Field_Init _ (Some e) _) \<longleftrightarrow>
     operand e \<or> (case e of E_MemberAccess b _ _ \<Rightarrow> operand b | _ \<Rightarrow> False)"
| "plain_field (Field_Init _ None _) \<longleftrightarrow> False"

fun flat_kind :: "dynamic_op_kind \<Rightarrow> bool" where
  "flat_kind (Dyn_Call _ args) \<longleftrightarrow> list_all operand args"
| "flat_kind (Dyn_Read _) \<longleftrightarrow> True"
| "flat_kind (Dyn_Op _ _ args) \<longleftrightarrow> list_all operand args"

fun flat :: "expression \<Rightarrow> bool" where
  "flat (E_ArrayAccess array _ _) \<longleftrightarrow> operand array"
| "flat (E_MemberAccess inner _ _) \<longleftrightarrow> operand inner"
| "flat (E_TupleAccess tuple _ _) \<longleftrightarrow> operand tuple"
| "flat (E_Array elements _) \<longleftrightarrow> list_all operand elements"
| "flat (E_Binary left right _ _) \<longleftrightarrow> operand left \<and> operand right"
| "flat (E_Call _ _ args _) \<longleftrightarrow> list_all operand args"
| "flat (E_DynamicOp _ target network kind _) \<longleftrightarrow> operand target \<and> pred_option operand network \<and> flat_kind kind"
| "flat (E_Cast e _ _) \<longleftrightarrow> operand e"
| "flat (E_Composite _ _ inits base _) \<longleftrightarrow> list_all plain_field inits \<and> base = None"
| "flat (E_Repeat e _ _) \<longleftrightarrow> operand e"
| "flat (E_Ternary condition if_true if_false _) \<longleftrightarrow> operand condition \<and> operand if_true \<and> operand if_false"
| "flat (E_Tuple elements _) \<longleftrightarrow> list_all operand elements"
| "flat (E_Unary receiver _ _) \<longleftrightarrow> operand receiver"
| "flat (E_Intrinsic _ _ _ _ args _) \<longleftrightarrow> list_all operand args"
| "flat (E_Err _) \<longleftrightarrow> False"
| "flat (E_Path _) \<longleftrightarrow> True"
| "flat (E_Literal _) \<longleftrightarrow> True"
| "flat (E_Unit _) \<longleftrightarrow> True"
| "flat (E_Async _ _) \<longleftrightarrow> True"

fun flat_assert :: "assert_variant \<Rightarrow> bool" where
  "flat_assert (Assert e) \<longleftrightarrow> operand e"
| "flat_assert (AssertEq a b) \<longleftrightarrow> operand a \<and> operand b"
| "flat_assert (AssertNeq a b) \<longleftrightarrow> operand a \<and> operand b"

fun normal :: "statement \<Rightarrow> bool"
  and normal_list :: "statement list \<Rightarrow> bool"
  and normal_option :: "statement option \<Rightarrow> bool"
where
  "normal (S_Assert variant _) \<longleftrightarrow> flat_assert variant"
| "normal (S_Assign place e _) \<longleftrightarrow> flat e \<and> (case place of E_Path _ \<Rightarrow> False | _ \<Rightarrow> True)"
| "normal (S_Block (Block ss _)) \<longleftrightarrow> normal_list ss"
| "normal (S_Conditional c (Block ss _) otherwise _) \<longleftrightarrow> operand c \<and> normal_list ss \<and> normal_option otherwise"
| "normal (S_Const _ _ _ _ _) \<longleftrightarrow> False"
| "normal (S_Definition _ ty e _) \<longleftrightarrow> ty = None \<and> flat e"
| "normal (S_Expression e _) \<longleftrightarrow> flat e"
| "normal (S_Iteration _ _ _ _ _ _ _) \<longleftrightarrow> False"
| "normal (S_Return e _) \<longleftrightarrow> operand e \<or> (case e of E_Tuple es _ \<Rightarrow> list_all operand es | _ \<Rightarrow> False)"
| "normal_list [] \<longleftrightarrow> True"
| "normal_list (st # sts) \<longleftrightarrow> normal st \<and> normal_list sts"
| "normal_option None \<longleftrightarrow> True"
| "normal_option (Some st) \<longleftrightarrow> normal st"

text \<open>The variables that statements define, in every branch.\<close>

fun definitions :: "statement \<Rightarrow> symbol list"
  and definitions_list :: "statement list \<Rightarrow> symbol list"
  and definitions_option :: "statement option \<Rightarrow> symbol list"
where
  "definitions (S_Definition place _ _ _) = declares place"
| "definitions (S_Block (Block ss _)) = definitions_list ss"
| "definitions (S_Conditional _ (Block ss _) otherwise _) = definitions_list ss @ definitions_option otherwise"
| "definitions _ = []"
| "definitions_list [] = []"
| "definitions_list (st # sts) = definitions st @ definitions_list sts"
| "definitions_option None = []"
| "definitions_option (Some st) = definitions st"

lemma shape_append [simp]:
  "normal_list (ss @ ts) \<longleftrightarrow> normal_list ss \<and> normal_list ts"
  "definitions_list (ss @ ts) = definitions_list ss @ definitions_list ts"
  by (induction ss) auto

section \<open>What is emitted\<close>

text \<open>The names with a number from \<open>c\<close> on and below \<open>c'\<close>.\<close>

definition fresh_in :: "nat \<Rightarrow> nat \<Rightarrow> symbol list \<Rightarrow> bool" where
  "fresh_in c c' ns \<longleftrightarrow> c \<le> c' \<and> distinct ns \<and> (\<forall>n\<in>set ns. generated c n \<and> \<not> generated c' n)"

lemma fresh_in_append:
  assumes "fresh_in c c1 ns" "fresh_in c1 c2 ms" shows "fresh_in c c2 (ns @ ms)" "fresh_in c c2 (ms @ ns)"
proof -
  have le: "c \<le> c1" "c1 \<le> c2" using assms by (simp_all add: fresh_in_def)
  have "generated c n" if "generated c1 n" for n using generated_mono that le(1) by blast
  moreover have "\<not> generated c2 n" if "\<not> generated c1 n" for n using generated_mono that le(2) by blast
  ultimately show "fresh_in c c2 (ns @ ms)" "fresh_in c c2 (ms @ ns)" using assms unfolding fresh_in_def by auto
qed

lemma fresh_in_Nil [simp]: "fresh_in c c' [] \<longleftrightarrow> c \<le> c'"
  by (simp add: fresh_in_def)

lemma fresh_in_unique: "sep \<in> separators \<Longrightarrow> fresh_in c (Suc c) [fst (unique_symbol a sep c)]"
  by (simp add: fresh_in_def generated_unique)

definition emits :: "('a \<Rightarrow> bool) \<Rightarrow> ('a \<times> statement list) ssa \<Rightarrow> bool" where
  "emits P m \<longleftrightarrow> (\<forall>s a ss s'. m s = Inr ((a, ss), s') \<longrightarrow>
     P a \<and> normal_list ss \<and> fresh_in (ss_counter s) (ss_counter s') (definitions_list ss))"

lemma emitsD:
  assumes "emits P m" "m s = Inr ((a, ss), s')"
  shows "P a" "normal_list ss" "fresh_in (ss_counter s) (ss_counter s') (definitions_list ss)"
  using assms unfolding emits_def by blast+

lemma emits_return: "P a \<Longrightarrow> emits P (ssa_return (a, []))"
  by (simp add: emits_def)

lemma emits_panic: "emits P (ssa_panic msg)"
  by (simp add: emits_def)

lemma emits_map: "emits P m \<Longrightarrow> (\<And>a. P a \<Longrightarrow> Q (K a)) \<Longrightarrow> emits Q (ssa_bind m (\<lambda>(a, ss). ssa_return (K a, ss)))"
  by (fastforce simp: emits_def ssa_bind_Inr)

lemma emits_both:
  assumes "emits P m" "emits Q m2" "\<And>a b. P a \<Longrightarrow> Q b \<Longrightarrow> R (K a b)"
  shows "emits R (ssa_bind m (\<lambda>(a, ss). ssa_bind m2 (\<lambda>(b, ts). ssa_return (K a b, ss @ ts))))"
  unfolding emits_def
proof (intro allI impI)
  fix s r us s' assume "ssa_bind m (\<lambda>(a, ss). ssa_bind m2 (\<lambda>(b, ts). ssa_return (K a b, ss @ ts))) s = Inr ((r, us), s')"
  then obtain a ss s1 b ts where m: "m s = Inr ((a, ss), s1)" "m2 s1 = Inr ((b, ts), s')" "r = K a b" "us = ss @ ts"
    by (auto simp: ssa_bind_Inr)
  note d = emitsD[OF assms(1) m(1)] emitsD[OF assms(2) m(2)]
  show "R r \<and> normal_list us \<and> fresh_in (ss_counter s) (ss_counter s') (definitions_list us)"
    using d(1,2,4,5) assms(3) m(3,4) fresh_in_append(1)[OF d(3,6)] by simp
qed

text \<open>Three parts are a part and a pair.\<close>

lemma ssa_bind_assoc: "ssa_bind (ssa_bind m f) g = ssa_bind m (\<lambda>a. ssa_bind (f a) g)"
  by (auto simp: ssa_bind_def fun_eq_iff split: sum.splits prod.splits)

lemma ssa_bind_return [simp]: "ssa_bind (ssa_return a) f = f a"
  by (simp add: ssa_bind_def ssa_return_def fun_eq_iff)

lemma emits_three:
  assumes "emits P m" "emits Q m2" "emits Q3 m3" "\<And>a b c. P a \<Longrightarrow> Q b \<Longrightarrow> Q3 c \<Longrightarrow> R (K a b c)"
  shows "emits R (ssa_bind m (\<lambda>(a, ss). ssa_bind m2 (\<lambda>(b, ts). ssa_bind m3 (\<lambda>(c, us).
     ssa_return (K a b c, ss @ ts @ us)))))"
proof -
  let ?m = "ssa_bind m2 (\<lambda>(b, ts). ssa_bind m3 (\<lambda>(c, us). ssa_return ((b, c), ts @ us)))"
  have "emits (\<lambda>(b, c). Q b \<and> Q3 c) ?m" by (rule emits_both[OF assms(2,3)]) simp
  from emits_both[OF assms(1) this, of R "\<lambda>a (b, c). K a b c"] assms(4)
  show ?thesis by (simp add: ssa_bind_assoc split_def)
qed

lemma emits_define:
  assumes "emits flat m" shows "emits operand (ssa_bind m define_result)"
  unfolding emits_def
proof (intro allI impI)
  fix s e' us s' assume "ssa_bind m define_result s = Inr ((e', us), s')"
  then obtain e ss s1 where e: "m s = Inr ((e, ss), s1)" "define_result (e, ss) s1 = Inr ((e', us), s')"
    by (auto simp: ssa_bind_Inr)
  note d = emitsD[OF assms e(1)]
  show "operand e' \<and> normal_list us \<and> fresh_in (ss_counter s) (ss_counter s') (definitions_list us)"
  proof (cases "is_atom e")
    case True
    with d e(2) show ?thesis by (cases e) (auto simp: define_result_def)
  next
    case False
    let ?n = "fst (unique_symbol ''$var'' ''$'' (ss_counter s1))"
    from e(2) False have "operand e'" "\<exists>i nid. us = ss @ [S_Definition (Single \<lparr>ident_name = ?n, ident_id = i\<rparr>) None e nid]"
      and "ss_counter s' = Suc (ss_counter s1)"
      by (auto simp: define_result_def unique_simple_definition_def ssa_bind_Inr ssa_prims_Inr simple_definition_Inr Let_def)
    with d fresh_in_append(1)[OF d(3) fresh_in_unique[of "''$''"]] show ?thesis by auto
  qed
qed

lemma emits_path: "emits operand (consume_path p)"
  by (auto simp: emits_def consume_path_def ssa_bind_Inr ssa_prims_Inr split: option.splits)

lemma operand_flat: "operand e \<Longrightarrow> flat e"
  by (cases e) auto

lemma emits_mono: "emits P m \<Longrightarrow> (\<And>a. P a \<Longrightarrow> Q a) \<Longrightarrow> emits Q m"
  by (auto simp: emits_def)

lemma atom_plain_field: "atom_field f \<Longrightarrow> plain_field f"
  unfolding atom_field_def by (elim exE conjE) (case_tac e; auto)

text \<open>The fields of a composite after the copies of the fields of its base.\<close>

lemma composite_fields_plain:
  assumes inits: "\<forall>f\<in>set inits. atom_field f" and base: "pred_option operand base"
    and copy: "(case base of None \<Rightarrow> ssa_return members | Some b \<Rightarrow> copy_base_fields b nts members) s = Inr (members', s')"
    and members: "members = fold (\<lambda>f. AList.update (field_init_key f) f) inits []"
    and take: "take_members ns members' = Some out"
  shows "list_all plain_field out"
  unfolding list_all_iff
proof
  fix f assume "f \<in> set out"
  then obtain n where n: "map_of members' n = Some f"
    using take_members_found[OF take] by (auto simp: list_all2_conv_all_nth in_set_conv_nth)
  show "plain_field f"
  proof (cases "map_of members n")
    case (Some g)
    then have "g \<in> set inits"
      unfolding members map_of_fold_update by (auto split: option.splits dest!: map_of_SomeD)
    moreover have "map_of members' n = Some g"
      using copy Some copy_base_fields_members[of _ nts members s members' s' n] by (auto split: option.splits)
    ultimately show ?thesis using inits n atom_plain_field by simp
  next
    case None
    then obtain b where b: "base = Some b" using copy n by (cases base) auto
    with copy have "copy_base_fields b nts members s = Inr (members', s')" by simp
    from copy_base_fields_members[OF this, of n] None n b base show ?thesis by (auto split: if_splits)
  qed
qed

lemma emits_composite:
  assumes inits: "emits (list_all atom_field) (consume_fields comps inits)" and base: "emits (pred_option operand) (consume_option comps base)"
  shows "emits flat (consume_expression comps (E_Composite path const_args inits base nid))"
  unfolding emits_def
proof (intro allI impI)
  fix s e us s'
  assume "consume_expression comps (E_Composite path const_args inits base nid) s = Inr ((e, us), s')"
  then obtain c inits' ss s1 base' ts s2 members' out where
    i: "consume_fields comps inits s = Inr ((inits', ss), s1)" and b: "consume_option comps base s1 = Inr ((base', ts), s2)"
    and m: "(case base' of None \<Rightarrow> ssa_return (fold (\<lambda>f. AList.update (field_init_key f) f) inits' [])
        | Some b \<Rightarrow> copy_base_fields b (map (\<lambda>m. (ident_name (mem_identifier m), mem_type m)) (comp_members c))
             (fold (\<lambda>f. AList.update (field_init_key f) f) inits' [])) s2 = Inr (members', s')"
    and out: "take_members (init_order c) members' = Some out" "e = E_Composite path const_args out None nid" "us = ss @ ts"
    by (auto simp: ssa_bind_Inr Let_def)
  note d = emitsD[OF inits i] emitsD[OF base b]
  have "list_all plain_field out"
    using composite_fields_plain[OF _ d(4) m refl out(1)] d(1) by (simp add: list_all_iff)
  moreover have "ss_counter s' = ss_counter s2" using m copy_base_fields_counter by (auto split: option.splits)
  ultimately show "flat e \<and> normal_list us \<and> fresh_in (ss_counter s) (ss_counter s') (definitions_list us)"
    using d(2,5) out fresh_in_append(1)[OF d(3,6)] by simp
qed

lemma emits_consume:
  "emits flat (consume_expression comps e)"
  "emits (list_all operand) (consume_list comps es)"
  "emits (pred_option operand) (consume_option comps oe)"
  "emits (list_all atom_field) (consume_fields comps fs)"
  "emits flat_kind (consume_dynamic_kind comps k)"
proof (induction comps e and comps es and comps oe and comps fs and comps k
    rule: consume_expression_consume_list_consume_option_consume_fields_consume_dynamic_kind.induct)
  case (2 comps inner name nid)
  show ?case
  proof (cases "case inner of E_Path p \<Rightarrow> ident_name (identifier_of p) = ''self'' | _ \<Rightarrow> False")
    case True
    then have "operand inner" by (cases inner) auto
    with True show ?thesis by (simp add: emits_return)
  next
    case False
    with 2 show ?thesis by (auto intro!: emits_map[OF emits_define])
  qed
next
  case (9 comps path const_args inits base nid)
  show ?case by (rule emits_composite[OF 9(1) 9(2)[OF refl]])
next
  case (10 comps p)
  then show ?case using emits_mono[OF emits_path operand_flat] by simp
next
  case (21 comps e es)
  then show ?case unfolding consume_list.simps by (intro emits_both[OF emits_define]) auto
next
  case (25 comps i oe nid inits)
  have "emits (\<lambda>e. operand e) (case oe of Some e \<Rightarrow> ssa_bind (consume_expression comps e) define_result
      | None \<Rightarrow> consume_path (to_local (path_of_ident i)))"
    using 25 by (cases oe) (auto intro: emits_define emits_path)
  moreover have "atom_field (Field_Init i (Some e) nid)" if "operand e" for e
    using that by (cases e) (auto simp: atom_field_def)
  ultimately show ?case unfolding consume_fields.simps by (intro emits_both[where P = operand, OF _ 25(2)]) auto
qed (auto intro!: emits_return emits_map[OF emits_define] emits_both[OF emits_define emits_define] emits_three[OF emits_define]
      emits_map emits_define emits_panic)

section \<open>Statements\<close>

text \<open>A new name that was made before the statements of its value.\<close>

lemma normal_definition:
  assumes "emits flat m" "m s = Inr ((v, ss), s')" "fresh_in c (ss_counter s) (declares place)"
  shows "normal_list (ss @ [S_Definition place None v nid])"
    "fresh_in c (ss_counter s') (definitions_list (ss @ [S_Definition place None v nid]))"
  using emitsD[OF assms(1,2)] fresh_in_append(2)[OF assms(3) emitsD(3)[OF assms(1,2)]] by simp_all

lemma shape_rename:
  assumes "rename_identifier_m i s = Inr (i', s1)" "simple_definition i' v s1 = Inr (st, s')" "flat v"
  shows "normal st \<and> fresh_in (ss_counter s) (ss_counter s') (definitions st)"
  using assms fresh_in_unique[of "''$#''"] by (auto simp: rename_identifier_m_Inr simple_definition_Inr)

lemma fresh_rename_identifiers:
  "rename_identifiers is s = Inr (is', s') \<Longrightarrow> fresh_in (ss_counter s) (ss_counter s') (map ident_name is')"
proof (induction "is" arbitrary: s is')
  case (Cons i "is")
  then obtain i1 s1 is1 where i1: "rename_identifier_m i s = Inr (i1, s1)" "rename_identifiers is s1 = Inr (is1, s')"
    "is' = i1 # is1" by (auto simp: ssa_bind_Inr)
  have "fresh_in (ss_counter s) (ss_counter s1) [ident_name i1]"
    using i1(1) fresh_in_unique[of "''$#''"] by (auto simp: rename_identifier_m_Inr)
  from fresh_in_append(1)[OF this Cons.IH[OF i1(2)]] i1(3) show ?case by simp
qed auto

lemma shape_phi_functions:
  "phi_functions comps cond if_table else_table xs s = Inr (phis, s') \<Longrightarrow>
     normal_list phis \<and> fresh_in (ss_counter s) (ss_counter s') (definitions_list phis)"
proof (induction xs arbitrary: s phis)
  case (Cons x xs)
  show ?case
  proof (cases "rename_lookup (ss_table s) x = None")
    case True
    with Cons show ?thesis by (auto simp: ssa_bind_Inr ssa_prims_Inr)
  next
    case False
    let ?n = "fst (unique_symbol x ''$'' (ss_counter s))"
    from Cons.prems False obtain if_true if_false v ss s5 tys tys' xid t rest where
      v: "consume_expression comps (E_Ternary cond if_true if_false (ss_next s))
           (s\<lparr>ss_counter := Suc (ss_counter s), ss_next := Suc (ss_next s), ss_types := tys\<rparr>) = Inr ((v, ss), s5)"
      and rest: "phi_functions comps cond if_table else_table xs
           (s5\<lparr>ss_types := tys', ss_table := t, ss_next := Suc (ss_next s5)\<rparr>) = Inr (rest, s')"
      and phis: "phis = ss @ S_Definition (Single \<lparr>ident_name = ?n, ident_id = xid\<rparr>) None v (ss_next s5) # rest"
      by (auto simp: ssa_bind_Inr ssa_prims_Inr create_phi_argument_def simple_definition_Inr simp del: consume_expression.simps)
    let ?s4 = "s\<lparr>ss_counter := Suc (ss_counter s), ss_next := Suc (ss_next s), ss_types := tys\<rparr>"
    have "fresh_in (ss_counter s) (ss_counter ?s4) (declares (Single \<lparr>ident_name = ?n, ident_id = xid\<rparr>))"
      using fresh_in_unique[of "''$''"] by simp
    note d = normal_definition[OF emits_consume(1) v this, of "ss_next s5"]
    have r: "normal_list rest" "fresh_in (ss_counter s5) (ss_counter s') (definitions_list rest)"
      using Cons.IH[OF rest] by auto
    from d(1) r(1) fresh_in_append(1)[OF d(2) r(2)] show ?thesis by (simp add: phis)
  qed
qed auto

text \<open>Statements: with renaming of definitions, every definition is new.\<close>

definition shaped :: "nat \<Rightarrow> nat \<Rightarrow> statement list \<Rightarrow> bool" where
  "shaped c c' ss \<longleftrightarrow> normal_list ss \<and> fresh_in c c' (definitions_list ss)"

lemma shaped_append: "shaped c c1 ss \<Longrightarrow> shaped c1 c2 ts \<Longrightarrow> shaped c c2 (ss @ ts)"
  using fresh_in_append(1)[of c c1 "definitions_list ss" c2 "definitions_list ts"] by (simp add: shaped_def)

lemma shaped_emitted: "emits P m \<Longrightarrow> m s = Inr ((a, ss), s') \<Longrightarrow> shaped (ss_counter s) (ss_counter s') ss"
  unfolding shaped_def by (intro conjI; elim emitsD)

lemma shaped_then: "shaped c c1 ss \<Longrightarrow> normal st \<Longrightarrow> fresh_in c1 c2 (definitions st) \<Longrightarrow> shaped c c2 (ss @ [st])"
  by (rule shaped_append) (auto simp: shaped_def)

lemma shaped_snoc: "shaped c c1 ss \<Longrightarrow> normal st \<Longrightarrow> definitions st = [] \<Longrightarrow> shaped c c1 (ss @ [st])"
  by (auto intro: shaped_then)

lemma consume_assert_emits: "emits flat_assert (consume_assert comps variant)"
  unfolding consume_assert_def consume_expression_and_define_def
  by (cases variant) (auto intro!: emits_map[OF emits_define[OF emits_consume(1)]]
      emits_both[OF emits_define[OF emits_consume(1)] emits_define[OF emits_consume(1)]])

lemma shaped_conditional:
  assumes "shaped c c1 ss" "operand cond" "shaped c1 c2 then'" "normal_option o'" "fresh_in c2 c3 (definitions_option o')"
    "shaped c3 c4 phis"
  shows "shaped c c4 (ss @ S_Conditional cond (Block then' i) o' nid # phis)"
proof -
  have "fresh_in c1 c3 (definitions (S_Conditional cond (Block then' i) o' nid))"
    using fresh_in_append(1)[OF _ assms(5)] assms(3) by (simp add: shaped_def)
  then have "shaped c c3 (ss @ [S_Conditional cond (Block then' i) o' nid])"
    using assms(2-4) by (intro shaped_then[OF assms(1)]) (auto simp: shaped_def)
  from shaped_append[OF this assms(6)] show ?thesis by simp
qed

lemma consume_statement_shape:
  "r \<Longrightarrow> consume_statement r comps st s = Inr (out, s') \<Longrightarrow> shaped (ss_counter s) (ss_counter s') out"
  "r \<Longrightarrow> consume_statements r comps sts s = Inr (out, s') \<Longrightarrow> shaped (ss_counter s) (ss_counter s') out"
  "r \<Longrightarrow> consume_otherwise r comps ost s = Inr (oo, s') \<Longrightarrow>
     normal_option oo \<and> fresh_in (ss_counter s) (ss_counter s') (definitions_option oo)"
proof (induction r comps st and r comps sts and r comps ost arbitrary: s out s' and s out s' and s oo s'
    rule: consume_statement_consume_statements_consume_otherwise.induct)
  case (1 r comps variant nid)
  then obtain variant' ss where c: "consume_assert comps variant s = Inr ((variant', ss), s')" "out = ss @ [S_Assert variant' nid]"
    by (auto simp: ssa_bind_Inr)
  with shaped_emitted[OF consume_assert_emits c(1)] emitsD(1)[OF consume_assert_emits c(1)] show ?case by (auto intro: shaped_snoc)
next
  case (2 r comps place v nid)
  then obtain v' ss s1 where c: "consume_expression comps v s = Inr ((v', ss), s1)" by (auto simp: ssa_bind_Inr)
  note v' = emitsD(1)[OF emits_consume(1) c] and sh = shaped_emitted[OF emits_consume(1) c]
  show ?case
  proof (cases "\<exists>p. place = E_Path p")
    case True
    with 2(2) c obtain i i' s2 st where "rename_identifier_m i s1 = Inr (i', s2)" "simple_definition i' v' s2 = Inr (st, s')"
      "out = ss @ [st]" by (auto simp: ssa_bind_Inr)
    with shape_rename[OF _ _ v'] shaped_then[OF sh] show ?thesis by blast
  next
    case False
    with 2(2) c obtain place' ss2 where p: "consume_place place s1 = Inr ((place', ss2), s')" "out = ss @ ss2 @ [S_Assign place' v' nid]"
      by (cases place) (auto simp: ssa_bind_Inr)
    have "\<forall>q. place' \<noteq> E_Path q" using p(1) False by (cases place) (auto simp: ssa_bind_Inr)
    then have "normal (S_Assign place' v' nid)" using v' by (cases place') auto
    with p consume_place_state[OF p(1)] shaped_snoc[OF sh] show ?thesis by simp
  qed
next
  case (4 r comps condition then_ss then_id otherwise nid)
  obtain cond ss s1 then' s3 o' s6 phis where
    c: "ssa_bind (consume_expression comps condition) define_result s = Inr ((cond, ss), s1)"
    "consume_statements r comps then_ss (s1\<lparr>ss_table := ssa_push (ss_table s1)\<rparr>) = Inr (then', s3)"
    "consume_otherwise r comps otherwise (s3\<lparr>ss_table := ssa_push (snd (ssa_pop (ss_table s3)))\<rparr>) = Inr (o', s6)"
    "phi_functions comps cond (ss_table s3) (ss_table s6) (write_set (ss_table s3) (ss_table s6))
       (s6\<lparr>ss_table := snd (ssa_pop (ss_table s6))\<rparr>) = Inr (phis, s')"
    "out = ss @ S_Conditional cond (Block then' then_id) o' nid # phis" using 4(4) by (rule consume_conditional)
  note e = emits_define[OF emits_consume(1)]
  have "shaped (ss_counter s6) (ss_counter s') phis" using shape_phi_functions[OF c(4)] by (simp add: shaped_def)
  with 4(1)[OF 4(3) c(2)] 4(2)[OF 4(3) c(3)] shaped_emitted[OF e c(1)] emitsD(1)[OF e c(1)]
  show ?case unfolding c(5) by (intro shaped_conditional) auto
next
  case (6 r comps place ty v nid)
  show ?case
  proof (cases place)
    case (Single i)
    with 6 obtain v' ss s1 i' s2 st where c: "consume_expression comps v s = Inr ((v', ss), s1)"
      "rename_identifier_m i s1 = Inr (i', s2)" "simple_definition i' v' s2 = Inr (st, s')" "out = ss @ [st]"
      by (auto simp: ssa_bind_Inr)
    with shape_rename[OF c(2,3) emitsD(1)[OF emits_consume(1) c(1)]] shaped_then[OF shaped_emitted[OF emits_consume(1) c(1)]]
    show ?thesis by blast
  next
    case (Multiple "is")
    with 6 obtain v' ss s1 is' where c: "rename_identifiers is s = Inr (is', s1)"
      "consume_expression comps v s1 = Inr ((v', ss), s')" "out = ss @ [S_Definition (Multiple is') None v' nid]"
      by (auto simp: ssa_bind_Inr)
    have "fresh_in (ss_counter s) (ss_counter s1) (declares (Multiple is'))" using fresh_rename_identifiers[OF c(1)] by simp
    from normal_definition[OF emits_consume(1) c(2) this] c(3) show ?thesis unfolding shaped_def by blast
  qed
next
  case (7 r comps e nid)
  then obtain e' ss where c: "consume_expression comps e s = Inr ((e', ss), s')" "out = ss @ [S_Expression e' nid]"
    by (auto simp: ssa_bind_Inr)
  with shaped_emitted[OF emits_consume(1) c(1)] emitsD(1)[OF emits_consume(1) c(1)] show ?case by (auto intro: shaped_snoc)
next
  case (9 r comps e nid)
  show ?case
  proof (cases "\<exists>es i. e = E_Tuple es i")
    case True
    with 9 obtain es es' i ss where c: "consume_list comps es s = Inr ((es', ss), s')" "out = ss @ [S_Return (E_Tuple es' i) nid]"
      by (auto simp: ssa_bind_Inr)
    with shaped_emitted[OF emits_consume(2) c(1)] emitsD(1)[OF emits_consume(2) c(1)] show ?thesis by (auto intro: shaped_snoc)
  next
    case False
    with 9 obtain e' ss where c: "ssa_bind (consume_expression comps e) define_result s = Inr ((e', ss), s')"
      "out = ss @ [S_Return e' nid]"
      by (cases e) (auto simp: ssa_bind_Inr[of "ssa_bind _ _"] consume_expression_and_define_def simp del: consume_expression.simps)
    note em = emits_define[OF emits_consume(1)]
    from c shaped_emitted[OF em c(1)] emitsD(1)[OF em c(1)] show ?thesis by (auto intro: shaped_snoc)
  qed
next
  case (11 r comps st sts)
  then obtain ss s1 rest where c: "consume_statement r comps st s = Inr (ss, s1)"
    "consume_statements r comps sts s1 = Inr (rest, s')" "out = ss @ rest" by (auto simp: ssa_bind_Inr)
  from shaped_append[OF 11(1)[OF 11(3) c(1)] 11(2)[OF 11(3) c(2)]] c(3) show ?case by simp
next
  case (13 r comps st)
  show ?case
  proof (cases st)
    case (S_Block b)
    then show ?thesis using 13 by (cases b) (auto simp: ssa_bind_Inr shaped_def)
  next
    case (S_Conditional cnd b o' nid)
    with 13 show ?thesis by (auto simp: ssa_bind_Inr shaped_def simp del: consume_statement.simps)
  qed (use 13 in auto)
qed (auto simp: shaped_def)

end
