(* ===== verification/Ssa_Program.thy ===== *)
theory Ssa_Program
  imports Ssa_Forming
begin

text \<open>
  Static single assignment over whole programs (\<^verbatim>\<open>static_single_assignment/program.rs\<close> and \<^verbatim>\<open>mod.rs\<close>): scopes,
  modules, libraries and stubs, in the order in which the visitor consumes them.  The parts of a program that
  the pass does not read stay as they are and are left out.  \<open>comps\<close> gives the composites that each program sees;
  the visitor's field \<^verbatim>\<open>program\<close>, which selects among them, is set on entry to every scope and module.
\<close>

section \<open>Programs\<close>

record program_scope =
  sc_program :: symbol
  sc_composites :: "(symbol \<times> composite) list"
  sc_functions :: "(symbol \<times> leo_function) list"
  sc_constructor :: "block option"

record leo_module =
  mod_unit :: symbol
  mod_path :: "symbol list"
  mod_composites :: "(symbol \<times> composite) list"
  mod_functions :: "(symbol \<times> leo_function) list"

text \<open>Programs depend on stubs, which are programs, libraries or deployed programs in Aleo instructions.\<close>

datatype 'a leo_program =
  Leo_Program (pr_modules: "(symbol list \<times> leo_module) list") (pr_stubs: "(symbol \<times> 'a stub) list")
    (pr_scopes: "(symbol \<times> program_scope) list")
and 'a stub =
    From_Leo "'a leo_program" "symbol list"
  | From_Aleo 'a "symbol list"
  | From_Library "'a library" "symbol list"
and 'a library =
  Library (lib_name: symbol) (lib_modules: "(symbol list \<times> leo_module) list") (lib_functions: "(symbol \<times> leo_function) list")
    (lib_stubs: "(symbol \<times> 'a stub) list")

section \<open>The pass\<close>

fun ssa_map :: "('a \<Rightarrow> 'b ssa) \<Rightarrow> ('k \<times> 'a) list \<Rightarrow> ('k \<times> 'b) list ssa" where
  "ssa_map m [] = ssa_return []"
| "ssa_map m ((k, a) # rest) =
     ssa_bind (m a) (\<lambda>b. ssa_bind (ssa_map m rest) (\<lambda>rest'. ssa_return ((k, b) # rest')))"

definition consume_composite_m :: "composite \<Rightarrow> composite ssa" where
  "consume_composite_m c = (case consume_composite c of Inl msg \<Rightarrow> ssa_panic msg | Inr c' \<Rightarrow> ssa_return c')"

definition consume_program_scope ::
  "(symbol \<Rightarrow> location \<rightharpoonup> composite) \<Rightarrow> bool \<Rightarrow> program_scope \<Rightarrow> program_scope ssa" where
  "consume_program_scope comps rename_defs scope =
     ssa_bind (ssa_map consume_composite_m (sc_composites scope)) (\<lambda>cs.
     ssa_bind (ssa_map (consume_function rename_defs (comps (sc_program scope))) (sc_functions scope)) (\<lambda>fs.
     ssa_bind
       (case sc_constructor scope of
          None \<Rightarrow> ssa_return None
        | Some c \<Rightarrow> ssa_bind (consume_constructor rename_defs (comps (sc_program scope)) c) (\<lambda>c'. ssa_return (Some c'))) (\<lambda>c.
     ssa_return (scope\<lparr>sc_composites := cs, sc_functions := fs, sc_constructor := c\<rparr>))))"

definition consume_module :: "(symbol \<Rightarrow> location \<rightharpoonup> composite) \<Rightarrow> bool \<Rightarrow> leo_module \<Rightarrow> leo_module ssa" where
  "consume_module comps rename_defs m =
     ssa_bind (ssa_map consume_composite_m (mod_composites m)) (\<lambda>cs.
     ssa_bind (ssa_map (consume_function rename_defs (comps (mod_unit m))) (mod_functions m)) (\<lambda>fs.
     ssa_return (m\<lparr>mod_composites := cs, mod_functions := fs\<rparr>)))"

text \<open>The functions of a library come after its modules, of which the last one has set \<^verbatim>\<open>program\<close>.\<close>

definition library_program :: "symbol \<Rightarrow> (symbol list \<times> leo_module) list \<Rightarrow> symbol" where
  "library_program name modules = (if modules = [] then name else mod_unit (snd (last modules)))"

fun consume_library :: "(symbol \<Rightarrow> location \<rightharpoonup> composite) \<Rightarrow> bool \<Rightarrow> 'a library \<Rightarrow> 'a library ssa" where
  "consume_library comps rename_defs (Library name modules functions stubs) =
     ssa_bind (ssa_map (consume_module comps rename_defs) modules) (\<lambda>ms.
     ssa_bind (ssa_map (consume_function rename_defs (comps (library_program name modules))) functions) (\<lambda>fs.
     ssa_return (Library name ms fs stubs)))"

fun consume_program :: "(symbol \<Rightarrow> location \<rightharpoonup> composite) \<Rightarrow> bool \<Rightarrow> 'a leo_program \<Rightarrow> 'a leo_program ssa"
  and consume_stub :: "(symbol \<Rightarrow> location \<rightharpoonup> composite) \<Rightarrow> bool \<Rightarrow> 'a stub \<Rightarrow> 'a stub ssa"
  and consume_stubs ::
    "(symbol \<Rightarrow> location \<rightharpoonup> composite) \<Rightarrow> bool \<Rightarrow> (symbol \<times> 'a stub) list \<Rightarrow> (symbol \<times> 'a stub) list ssa"
where
  "consume_program comps rename_defs (Leo_Program modules stubs scopes) =
     ssa_bind (ssa_map (consume_module comps rename_defs) modules) (\<lambda>ms.
     ssa_bind (consume_stubs comps rename_defs stubs) (\<lambda>ss.
     ssa_bind (ssa_map (consume_program_scope comps rename_defs) scopes) (\<lambda>scs.
     ssa_return (Leo_Program ms ss scs))))"
| "consume_stub comps rename_defs (From_Leo p parents) =
     ssa_bind (consume_program comps rename_defs p) (\<lambda>p'. ssa_return (From_Leo p' parents))"
| "consume_stub comps rename_defs (From_Library l parents) =
     ssa_bind (consume_library comps rename_defs l) (\<lambda>l'. ssa_return (From_Library l' parents))"
| "consume_stub comps rename_defs (From_Aleo a parents) = ssa_return (From_Aleo a parents)"
| "consume_stubs comps rename_defs [] = ssa_return []"
| "consume_stubs comps rename_defs ((name, st) # rest) =
     ssa_bind (consume_stub comps rename_defs st) (\<lambda>st'.
     ssa_bind (consume_stubs comps rename_defs rest) (\<lambda>rest'.
     ssa_return ((name, st') # rest')))"

text \<open>The pass itself: a program from an empty rename table, a library unchanged.\<close>

definition ssa_forming ::
  "(symbol \<Rightarrow> location \<rightharpoonup> composite) \<Rightarrow> bool \<Rightarrow> 'a leo_program + 'a library \<Rightarrow> ssa_state \<Rightarrow>
     string + ('a leo_program + 'a library) \<times> ssa_state" where
  "ssa_forming comps rename_defs ast s =
     (case ast of
        Inl p \<Rightarrow>
          ssa_bind (consume_program comps rename_defs p) (\<lambda>p'. ssa_return (Inl p')) (s\<lparr>ss_table := rename_table_new None\<rparr>)
      | Inr l \<Rightarrow> Inr (Inr l, s))"

end
