(* ===== verification/Ssa_Props.thy ===== *)
theory Ssa_Props
  imports Ssa_Form Ssa_Program
begin

text \<open>
  Whole functions and whole programs: static single assignment keeps what functions compute, and its result is
  in single-assignment form.
\<close>

section \<open>Runs of functions\<close>

fun finish :: "('v, 'w) meaning \<Rightarrow> ('v, 'w) outcome \<Rightarrow> ('v \<times> 'w) option" where
  "finish M Halted = None"
| "finish M (Returned v w) = Some (v, w)"
| "finish M (Running \<rho> w) = Some (m_unit M, w)"

definition run_function ::
  "('v, 'w) meaning \<Rightarrow> (location \<rightharpoonup> composite) \<Rightarrow> leo_function \<Rightarrow> 'v list \<Rightarrow> 'v env \<Rightarrow> 'w \<Rightarrow> ('v \<times> 'w) option" where
  "run_function M comps f args \<rho> w =
     (if length args = length (fn_input f)
      then case fn_block f of Block ss _ \<Rightarrow>
             finish M (exec_list M comps ss (bind_names (map in_identifier (fn_input f)) args \<rho>) w)
      else None)"

text \<open>
  Functions the earlier passes leave: names without \<^verbatim>\<open>$\<close>, which no identifier of the language has, and
  variables that are declared before they are used.
\<close>

definition plain_name :: "symbol \<Rightarrow> bool" where
  "plain_name x \<longleftrightarrow> CHR ''$'' \<notin> set x \<and> x \<noteq> ''self''"

definition input_names :: "leo_function \<Rightarrow> symbol list" where
  "input_names f = map (\<lambda>i. ident_name (in_identifier i)) (fn_input f)"

definition well_scoped :: "leo_function \<Rightarrow> bool" where
  "well_scoped f \<longleftrightarrow>
     list_all plain_name (input_names f) \<and>
     (case fn_block f of Block ss _ \<Rightarrow> scoped_list plain_name (rev (input_names f)) ss \<noteq> None)"

definition function_definitions :: "leo_function \<Rightarrow> symbol list" where
  "function_definitions f = input_names f @ (case fn_block f of Block ss _ \<Rightarrow> definitions_list ss)"

lemma source_names_plain: "source_names c plain_name"
  by (auto simp: source_names_def plain_name_def not_generated_plain)

section \<open>Inputs\<close>

lemma rename_inputs_Cons:
  assumes "rename_inputs (input # rest) s = Inr (ins, s')"
  obtains new s1 ins' where
    "new = fst (unique_symbol (ident_name (in_identifier input)) ''$$'' (ss_counter s))"
    "ss_counter s1 = Suc (ss_counter s)" "rt_parent (ss_table s1) = rt_parent (ss_table s)"
    "\<forall>y. rename_lookup (ss_table s1) y =
       (if y = ident_name (in_identifier input) then Some new else rename_lookup (ss_table s) y)"
    "set (local_names (ss_table s1)) \<subseteq> {ident_name (in_identifier input)} \<union> set (local_names (ss_table s))"
    "rename_inputs rest s1 = Inr (ins', s')"
    "ins = input\<lparr>in_identifier := \<lparr>ident_name = new, ident_id = ss_next s\<rparr>\<rparr> # ins'"
proof -
  let ?x = "ident_name (in_identifier input)" and ?j = "ident_id (in_identifier input)"
  let ?new = "fst (unique_symbol ?x ''$$'' (ss_counter s))"
  let ?s1 = "s\<lparr>ss_counter := Suc (ss_counter s), ss_next := Suc (ss_next s),
     ss_types := (ss_types s)(ss_next s \<mapsto> in_type input),
     ss_table := rename_update ?x ?new ?j (rename_update ?x ?x ?j (ss_table s))\<rparr>"
  from assms obtain ins' where r: "rename_inputs rest ?s1 = Inr (ins', s')"
    "ins = input\<lparr>in_identifier := \<lparr>ident_name = ?new, ident_id = ss_next s\<rparr>\<rparr> # ins'"
    by (auto simp: ssa_bind_Inr ssa_prims_Inr Let_def)
  show ?thesis by (rule that[OF refl _ _ _ _ r]) (auto simp: local_names_update)
qed

lemma rename_inputs_step:
  "rename_inputs ins s = Inr (ins', s') \<Longrightarrow>
     ((\<forall>i\<in>set ins. \<not> generated c0 (ident_name (in_identifier i))) \<longrightarrow> stmt_step c0 s s') \<and>
     fresh_in (ss_counter s) (ss_counter s') (map (\<lambda>i. ident_name (in_identifier i)) ins') \<and> length ins' = length ins"
proof (induction ins arbitrary: s ins')
  case (Cons i ins)
  let ?x = "ident_name (in_identifier i)"
  from Cons.prems(1) obtain new s1 ins1 where n: "new = fst (unique_symbol ?x ''$$'' (ss_counter s))"
    "ss_counter s1 = Suc (ss_counter s)" "rt_parent (ss_table s1) = rt_parent (ss_table s)"
    "\<forall>y. rename_lookup (ss_table s1) y = (if y = ?x then Some new else rename_lookup (ss_table s) y)"
    "set (local_names (ss_table s1)) \<subseteq> {?x} \<union> set (local_names (ss_table s))"
    "rename_inputs ins s1 = Inr (ins1, s')" "ins' = i\<lparr>in_identifier := \<lparr>ident_name = new, ident_id = ss_next s\<rparr>\<rparr> # ins1"
    by (rule rename_inputs_Cons)
  have "stmt_step c0 s s1" if "\<not> generated c0 ?x"
    by (rule stmt_step_rename[where x = ?x and sep = "''$$''" and self = False, OF n(1)]) (use n that in auto)
  moreover have "fresh_in (ss_counter s) (ss_counter s1) [new]" using fresh_in_unique[of "''$$''"] n(1,2) by simp
  moreover note rest = Cons.IH[OF n(6)]
  ultimately show ?case
    using fresh_in_append(1)[of "ss_counter s" "ss_counter s1" "[new]"] n(7) by (auto intro: stmt_step_trans)
qed auto

lemma rename_inputs_related:
  "rename_inputs ins s = Inr (ins', s') \<Longrightarrow> related s V \<rho> \<rho>' \<Longrightarrow> length vs = length ins \<Longrightarrow>
     \<forall>i\<in>set ins. ident_name (in_identifier i) \<noteq> ''self'' \<and> \<not> generated c0 (ident_name (in_identifier i)) \<Longrightarrow>
     c0 \<le> ss_counter s \<Longrightarrow>
     related s' ((\<lambda>i. ident_name (in_identifier i)) ` set ins \<union> V) (bind_names (map in_identifier ins) vs \<rho>)
       (bind_names (map in_identifier ins') vs \<rho>')"
proof (induction ins arbitrary: s ins' V \<rho> \<rho>' vs)
  case (Cons i ins)
  let ?x = "ident_name (in_identifier i)"
  from Cons.prems(1) obtain new s1 ins1 where n: "new = fst (unique_symbol ?x ''$$'' (ss_counter s))"
    "ss_counter s1 = Suc (ss_counter s)" "rt_parent (ss_table s1) = rt_parent (ss_table s)"
    "\<forall>y. rename_lookup (ss_table s1) y = (if y = ?x then Some new else rename_lookup (ss_table s) y)"
    "set (local_names (ss_table s1)) \<subseteq> {?x} \<union> set (local_names (ss_table s))"
    "rename_inputs ins s1 = Inr (ins1, s')" "ins' = i\<lparr>in_identifier := \<lparr>ident_name = new, ident_id = ss_next s\<rparr>\<rparr> # ins1"
    by (rule rename_inputs_Cons)
  from Cons.prems(3) obtain u us where vs: "vs = u # us" by (cases vs) auto
  have "\<not> generated (Suc (ss_counter s)) ?x" using Cons.prems(4,5) generated_mono[of "Suc (ss_counter s)" ?x c0] by auto
  then have "related s1 (insert ?x V) (\<rho>(?x := u)) (\<rho>'(new := u))"
    using Cons.prems(4) n(4) by (intro related_rename[OF Cons.prems(2) n(1) _ _ _ n(2)]) auto
  from Cons.IH[OF n(6) this, of us] Cons.prems(3-5) vs n(2,7) show ?case by (simp add: fun_upd_def)
qed auto

section \<open>Functions\<close>

lemma tab_inv_new: "tab_inv c c (ssa_push (rename_table_new None))"
  by (auto simp: tab_inv_def ssa_push_def rename_table_new_def)

lemma consume_function_parts:
  assumes "consume_function True comps f s = Inr (f', s')" "fn_block f = Block ss nid"
  obtains ins s1 ss' s2 where
    "rename_inputs (fn_input f) (s\<lparr>ss_table := ssa_push (ss_table s)\<rparr>) = Inr (ins, s1)"
    "consume_statements True comps ss s1 = Inr (ss', s2)" "s' = s2\<lparr>ss_table := snd (ssa_pop (ss_table s2))\<rparr>"
    "f' = f\<lparr>fn_input := ins, fn_block := Block ss' nid\<rparr>"
  using assms that by (auto simp: consume_function_def ssa_bind_Inr ssa_push_m_Inr ssa_pop_m_Inr)

text \<open>The state after the inputs of a function are renamed.\<close>

lemma function_facts:
  assumes r: "rename_inputs (fn_input f) (s\<lparr>ss_table := ssa_push (ss_table s)\<rparr>) = Inr (ins, s1)"
    and t: "ss_table s = rename_table_new None" and wf: "well_scoped f"
  shows "stmt_step (ss_counter s) (s\<lparr>ss_table := ssa_push (ss_table s)\<rparr>) s1"
    "tab_inv (ss_counter s) (ss_counter s1) (ss_table s1)" "bound s1 (set (rev (input_names f)))"
    "set (rev (input_names f)) \<subseteq> Collect plain_name"
    "tab_inv (ss_counter s) (ss_counter (s\<lparr>ss_table := ssa_push (ss_table s)\<rparr>)) (ss_table (s\<lparr>ss_table := ssa_push (ss_table s)\<rparr>))"
    "length ins = length (fn_input f)"
    "length args = length (fn_input f) \<Longrightarrow> related s1 (set (rev (input_names f)))
       (bind_names (map in_identifier (fn_input f)) args \<rho>) (bind_names (map in_identifier ins) args \<rho>)"
proof -
  let ?s0 = "s\<lparr>ss_table := ssa_push (ss_table s)\<rparr>" and ?c = "ss_counter s" and ?V = "rev (input_names f)"
  have names: "\<forall>i\<in>set (fn_input f). plain_name (ident_name (in_identifier i))"
    using wf by (auto simp: well_scoped_def input_names_def list_all_iff)
  then have src: "\<forall>i\<in>set (fn_input f). ident_name (in_identifier i) \<noteq> ''self'' \<and> \<not> generated ?c (ident_name (in_identifier i))"
    by (auto simp: plain_name_def not_generated_plain)
  show step: "stmt_step ?c ?s0 s1" and len: "length ins = length (fn_input f)"
    using rename_inputs_step[OF r, of ?c] src by auto
  show inv0: "tab_inv ?c (ss_counter ?s0) (ss_table ?s0)" using tab_inv_new t by simp
  show "tab_inv ?c (ss_counter s1) (ss_table s1)" by (rule stmt_stepD(1)[OF step inv0])
  show "set ?V \<subseteq> Collect plain_name" using names by (auto simp: input_names_def)
  have "related ?s0 {} \<rho> \<rho>" by (simp add: related_def)
  from rename_inputs_related[OF r this _ src]
  have rel: "related s1 (set ?V) (bind_names (map in_identifier (fn_input f)) as \<rho>) (bind_names (map in_identifier ins) as \<rho>)"
    if "length as = length (fn_input f)" for as
    using that by (simp add: input_names_def)
  then show "length args = length (fn_input f) \<Longrightarrow> related s1 (set (rev (input_names f)))
       (bind_names (map in_identifier (fn_input f)) args \<rho>) (bind_names (map in_identifier ins) args \<rho>)" .
  show "bound s1 (set ?V)" unfolding bound_def
    using relatedD[OF rel[of "replicate (length (fn_input f)) undefined"]] by fastforce
qed

lemma function_meaning:
  assumes c: "consume_function True comps f s = Inr (f', s')" and t: "ss_table s = rename_table_new None" and wf: "well_scoped f"
  shows "run_function M comps f' args \<rho> w = run_function M comps f args \<rho> w"
proof -
  obtain ss nid where b: "fn_block f = Block ss nid" by (cases "fn_block f")
  let ?V = "rev (input_names f)"
  obtain ins s1 ss' s2 where p: "rename_inputs (fn_input f) (s\<lparr>ss_table := ssa_push (ss_table s)\<rparr>) = Inr (ins, s1)"
    "consume_statements True comps ss s1 = Inr (ss', s2)" "s' = s2\<lparr>ss_table := snd (ssa_pop (ss_table s2))\<rparr>"
    "f' = f\<lparr>fn_input := ins, fn_block := Block ss' nid\<rparr>"
    using c b by (rule consume_function_parts)
  from wf b obtain V' where sc: "scoped_list plain_name ?V ss = Some V'" by (auto simp: well_scoped_def)
  note f = function_facts[OF p(1) t wf]
  show ?thesis
  proof (cases "length args = length (fn_input f)")
    case True
    let ?\<rho> = "bind_names (map in_identifier (fn_input f)) args \<rho>" and ?\<rho>' = "bind_names (map in_identifier ins) args \<rho>"
    have "matches s1 s2 (set V') (mutated_list ss) ?\<rho>' (exec_list M comps ss ?\<rho> w) (exec_list M comps ss' ?\<rho>' w)"
      by (rule sim_statement(2)[OF source_names_plain _ f(4) sc p(2) f(2,3) f(7)[OF True]]) simp
    then have "finish M (exec_list M comps ss' ?\<rho>' w) = finish M (exec_list M comps ss ?\<rho> w)"
      by (cases "exec_list M comps ss ?\<rho> w") auto
    then show ?thesis using True f(6) b p(4) by (simp add: run_function_def)
  qed (use f(6) p(4) in \<open>simp add: run_function_def\<close>)
qed

lemma function_table:
  assumes c: "consume_function True comps f s = Inr (f', s')" and t: "ss_table s = rename_table_new None" and wf: "well_scoped f"
  shows "ss_table s' = rename_table_new None"
proof -
  obtain ss nid where b: "fn_block f = Block ss nid" by (cases "fn_block f")
  let ?s0 = "s\<lparr>ss_table := ssa_push (ss_table s)\<rparr>" and ?c = "ss_counter s" and ?V = "rev (input_names f)"
  obtain ins s1 ss' s2 where p: "rename_inputs (fn_input f) ?s0 = Inr (ins, s1)"
    "consume_statements True comps ss s1 = Inr (ss', s2)" "s' = s2\<lparr>ss_table := snd (ssa_pop (ss_table s2))\<rparr>"
    "f' = f\<lparr>fn_input := ins, fn_block := Block ss' nid\<rparr>"
    using c b by (rule consume_function_parts)
  note f = function_facts[OF p(1) t wf]
  from wf b obtain V' where sc: "scoped_list plain_name ?V ss = Some V'" by (auto simp: well_scoped_def)
  have "stmt_step ?c s1 s2"
    using consume_statement_step(2)[OF source_names_plain _ f(4) sc p(2) f(2,3)] by simp
  from stmt_stepD(3)[OF this f(2)] stmt_stepD(3)[OF f(1) f(5)] p(3) t show ?thesis
    by (simp add: ssa_push_def rename_table_new_def ssa_pop_def)
qed

lemma function_shape:
  assumes c: "consume_function True comps f s = Inr (f', s')"
  shows "fresh_in (ss_counter s) (ss_counter s') (function_definitions f')"
    and "case fn_block f' of Block ss _ \<Rightarrow> normal_list ss"
proof -
  obtain ss nid where b: "fn_block f = Block ss nid" by (cases "fn_block f")
  obtain ins s1 ss' s2 where p: "rename_inputs (fn_input f) (s\<lparr>ss_table := ssa_push (ss_table s)\<rparr>) = Inr (ins, s1)"
    "consume_statements True comps ss s1 = Inr (ss', s2)" "s' = s2\<lparr>ss_table := snd (ssa_pop (ss_table s2))\<rparr>"
    "f' = f\<lparr>fn_input := ins, fn_block := Block ss' nid\<rparr>"
    using c b by (rule consume_function_parts)
  have "shaped (ss_counter s1) (ss_counter s2) ss'" by (rule consume_statement_shape(2)[OF _ p(2)]) simp
  moreover have "fresh_in (ss_counter s) (ss_counter s1) (map (\<lambda>i. ident_name (in_identifier i)) ins)"
    using rename_inputs_step[OF p(1), of "ss_counter s"] by simp
  ultimately show "fresh_in (ss_counter s) (ss_counter s') (function_definitions f')"
    "case fn_block f' of Block ss _ \<Rightarrow> normal_list ss"
    using fresh_in_append(1) p(3,4) by (auto simp: function_definitions_def input_names_def shaped_def)
qed

section \<open>Programs\<close>

text \<open>
  The functions of a program with the program whose composites they see, in the order in which they are
  consumed.  A constructor counts as a function without inputs.
\<close>

definition constructor_function :: "block \<Rightarrow> leo_function" where
  "constructor_function b =
     \<lparr>fn_variant = Finalize, fn_identifier = \<lparr>ident_name = ''constructor'', ident_id = 0\<rparr>, fn_input = [],
      fn_output_type = T_Unit, fn_block = b, fn_id = 0\<rparr>"

definition tagged :: "symbol \<Rightarrow> ('k \<times> leo_function) list \<Rightarrow> (symbol \<times> leo_function) list" where
  "tagged p fs = map (\<lambda>(k, f). (p, f)) fs"

definition scope_functions :: "program_scope \<Rightarrow> (symbol \<times> leo_function) list" where
  "scope_functions sc =
     tagged (sc_program sc) (sc_functions sc) @
     (case sc_constructor sc of None \<Rightarrow> [] | Some b \<Rightarrow> [(sc_program sc, constructor_function b)])"

definition module_functions :: "leo_module \<Rightarrow> (symbol \<times> leo_function) list" where
  "module_functions m = tagged (mod_unit m) (mod_functions m)"

fun library_functions :: "'a library \<Rightarrow> (symbol \<times> leo_function) list" where
  "library_functions (Library name modules functions stubs) =
     concat (map (module_functions \<circ> snd) modules) @ tagged (library_program name modules) functions"

fun program_functions :: "'a leo_program \<Rightarrow> (symbol \<times> leo_function) list"
  and stub_functions :: "'a stub \<Rightarrow> (symbol \<times> leo_function) list"
  and stubs_functions :: "(symbol \<times> 'a stub) list \<Rightarrow> (symbol \<times> leo_function) list"
where
  "program_functions (Leo_Program modules stubs scopes) =
     concat (map (module_functions \<circ> snd) modules) @ stubs_functions stubs @ concat (map (scope_functions \<circ> snd) scopes)"
| "stub_functions (From_Leo p _) = program_functions p"
| "stub_functions (From_Library l _) = library_functions l"
| "stub_functions (From_Aleo _ _) = []"
| "stubs_functions [] = []"
| "stubs_functions ((_, st) # rest) = stub_functions st @ stubs_functions rest"

text \<open>The definitions of functions, and functions in normal form.\<close>

definition all_definitions :: "(symbol \<times> leo_function) list \<Rightarrow> symbol list" where
  "all_definitions fs = concat (map (function_definitions \<circ> snd) fs)"

definition normal_function :: "leo_function \<Rightarrow> bool" where
  "normal_function f \<longleftrightarrow> (case fn_block f of Block ss _ \<Rightarrow> normal_list ss)"

definition same_run ::
  "('v, 'w) meaning \<Rightarrow> (symbol \<Rightarrow> location \<rightharpoonup> composite) \<Rightarrow> symbol \<times> leo_function \<Rightarrow> symbol \<times> leo_function \<Rightarrow> bool" where
  "same_run M comps = (\<lambda>(p, f) (p', f').
     p' = p \<and> (\<forall>args \<rho> w. run_function M (comps p) f' args \<rho> w = run_function M (comps p) f args \<rho> w))"

text \<open>What consuming a part of a program does to its functions.\<close>

definition formed ::
  "('v, 'w) meaning \<Rightarrow> (symbol \<Rightarrow> location \<rightharpoonup> composite) \<Rightarrow> ssa_state \<Rightarrow> ssa_state \<Rightarrow>
     (symbol \<times> leo_function) list \<Rightarrow> (symbol \<times> leo_function) list \<Rightarrow> bool" where
  "formed M comps s s' fs fs' \<longleftrightarrow>
     fresh_in (ss_counter s) (ss_counter s') (all_definitions fs') \<and> list_all (normal_function \<circ> snd) fs' \<and>
     (ss_table s = rename_table_new None \<and> list_all (well_scoped \<circ> snd) fs \<longrightarrow>
        ss_table s' = rename_table_new None \<and> list_all2 (same_run M comps) fs fs')"

lemma formed_Nil [simp]: "formed M comps s s [] []"
  by (simp add: formed_def all_definitions_def)

lemma formed_append:
  assumes "formed M comps s s1 fs fs'" "formed M comps s1 s2 gs gs'" shows "formed M comps s s2 (fs @ gs) (fs' @ gs')"
proof -
  have "fresh_in (ss_counter s) (ss_counter s2) (all_definitions fs' @ all_definitions gs')"
    using assms by (intro fresh_in_append(1)) (auto simp: formed_def)
  then show ?thesis using assms by (auto simp: formed_def all_definitions_def intro: list_all2_appendI)
qed

lemma formed_function:
  assumes "consume_function True (comps p) f s = Inr (f', s')" shows "formed M comps s s' [(p, f)] [(p, f')]"
  using function_shape[OF assms] function_table[OF assms] function_meaning[OF assms, of M]
  by (auto simp: formed_def all_definitions_def normal_function_def same_run_def)

lemma formed_ssa_map:
  assumes "\<And>a s b s'. m a s = Inr (b, s') \<Longrightarrow> formed M comps s s' (F a) (F b)" "ssa_map m xs s = Inr (ys, s')"
  shows "formed M comps s s' (concat (map (F \<circ> snd) xs)) (concat (map (F \<circ> snd) ys))"
  using assms(2)
proof (induction xs arbitrary: s ys)
  case (Cons x xs)
  obtain k a where x: "x = (k, a)" by (cases x)
  with Cons.prems obtain b s1 ys1 where b: "m a s = Inr (b, s1)" "ssa_map m xs s1 = Inr (ys1, s')" "ys = (k, b) # ys1"
    by (auto simp: ssa_bind_Inr)
  from formed_append[OF assms(1)[OF b(1)] Cons.IH[OF b(2)]] x b(3) show ?case by simp
qed simp

lemma formed_functions:
  fixes fs :: "('k \<times> leo_function) list"
  assumes "ssa_map (consume_function True (comps p)) fs s = Inr (fs', s')"
  shows "formed M comps s s' (tagged p fs) (tagged p fs')"
proof -
  have tagged: "tagged p gs = concat (map ((\<lambda>f. [(p, f)]) \<circ> snd) gs)" for gs :: "('k \<times> leo_function) list"
    by (induction gs) (auto simp: tagged_def)
  have "formed M comps s s' [(p, a)] [(p, b)]" if "consume_function True (comps p) a s = Inr (b, s')" for a b s s'
    using that by (rule formed_function)
  from formed_ssa_map[where F = "\<lambda>f. [(p, f)]", OF this assms] show ?thesis unfolding tagged .
qed

lemma ssa_map_composites: "ssa_map consume_composite_m cs s = Inr (cs', s') \<Longrightarrow> s' = s"
proof (induction cs arbitrary: s cs')
  case (Cons c cs)
  then show ?case by (cases c) (auto simp: ssa_bind_Inr consume_composite_m_def split: sum.splits)
qed simp

lemma consume_constructor_function:
  "consume_constructor True comps b s = Inr (b', s') \<Longrightarrow>
     consume_function True comps (constructor_function b) s = Inr (constructor_function b', s')"
  by (cases b) (auto simp: consume_constructor_def consume_function_def constructor_function_def ssa_bind_def ssa_return_def
      split: sum.splits)

lemma formed_scope:
  assumes "consume_program_scope comps True sc s = Inr (sc', s')"
  shows "formed M comps s s' (scope_functions sc) (scope_functions sc')"
proof -
  let ?p = "sc_program sc"
  from assms obtain cs s1 fs s2 c where
    c: "ssa_map consume_composite_m (sc_composites sc) s = Inr (cs, s1)"
    "ssa_map (consume_function True (comps ?p)) (sc_functions sc) s1 = Inr (fs, s2)"
    "(case sc_constructor sc of None \<Rightarrow> ssa_return None
      | Some c \<Rightarrow> ssa_bind (consume_constructor True (comps ?p) c) (\<lambda>c'. ssa_return (Some c'))) s2 = Inr (c, s')"
    "sc' = sc\<lparr>sc_composites := cs, sc_functions := fs, sc_constructor := c\<rparr>"
    by (auto simp: consume_program_scope_def ssa_bind_Inr)
  have "formed M comps s2 s' (case sc_constructor sc of None \<Rightarrow> [] | Some b \<Rightarrow> [(?p, constructor_function b)])
      (case c of None \<Rightarrow> [] | Some b \<Rightarrow> [(?p, constructor_function b)])"
    using c(3) by (auto simp: ssa_bind_Inr dest!: consume_constructor_function split: option.splits intro: formed_function)
  from formed_append[OF formed_functions[of comps ?p, OF c(2)] this] ssa_map_composites[OF c(1)] c(4) show ?thesis
    by (simp add: scope_functions_def cong: option.case_cong)
qed

lemma formed_module:
  assumes "consume_module comps True m s = Inr (m', s')" shows "formed M comps s s' (module_functions m) (module_functions m')"
  using assms formed_functions ssa_map_composites by (fastforce simp: consume_module_def module_functions_def ssa_bind_Inr)

lemma library_program_kept:
  "ssa_map (consume_module comps True) ms s = Inr (ms', s') \<Longrightarrow> library_program name ms' = library_program name ms"
proof (induction ms arbitrary: s ms')
  case (Cons m ms)
  obtain k a where m: "m = (k, a)" by (cases m)
  with Cons.prems obtain b s1 ms1 where b: "consume_module comps True a s = Inr (b, s1)"
    "ssa_map (consume_module comps True) ms s1 = Inr (ms1, s')" "ms' = (k, b) # ms1" by (auto simp: ssa_bind_Inr)
  have "mod_unit b = mod_unit a" using b(1) by (auto simp: consume_module_def ssa_bind_Inr)
  moreover have "ms1 = [] \<longleftrightarrow> ms = []" using b(2) by (cases ms) (auto simp: ssa_bind_Inr)
  ultimately show ?case using Cons.IH[OF b(2)] m b(3) by (auto simp: library_program_def)
qed simp

lemma formed_library:
  assumes "consume_library comps True l s = Inr (l', s')" shows "formed M comps s s' (library_functions l) (library_functions l')"
proof -
  obtain name ms fs sts where l: "l = Library name ms fs sts" by (cases l)
  with assms obtain ms' s1 fs' where c: "ssa_map (consume_module comps True) ms s = Inr (ms', s1)"
    "ssa_map (consume_function True (comps (library_program name ms))) fs s1 = Inr (fs', s')" "l' = Library name ms' fs' sts"
    by (auto simp: ssa_bind_Inr)
  from formed_append[OF formed_ssa_map[OF formed_module c(1)] formed_functions[of comps "library_program name ms", OF c(2)]] l c(3) library_program_kept[OF c(1)]
  show ?thesis by simp
qed

lemma formed_program:
  fixes p :: "'a leo_program" and st :: "'a stub" and sts :: "(symbol \<times> 'a stub) list"
  shows "consume_program comps True p s = Inr (p', s') \<Longrightarrow> formed M comps s s' (program_functions p) (program_functions p')"
  "consume_stub comps True st s = Inr (st', s') \<Longrightarrow> formed M comps s s' (stub_functions st) (stub_functions st')"
  "consume_stubs comps True sts s = Inr (sts', s') \<Longrightarrow> formed M comps s s' (stubs_functions sts) (stubs_functions sts')"
proof (induction p and st and sts arbitrary: s p' s' and s st' s' and s sts' s' rule: program_functions_stub_functions_stubs_functions.induct)
  case (1 modules stubs scopes)
  then obtain ms s1 sts s2 scs where c: "ssa_map (consume_module comps True) modules s = Inr (ms, s1)"
    "consume_stubs comps True stubs s1 = Inr (sts, s2)" "ssa_map (consume_program_scope comps True) scopes s2 = Inr (scs, s')"
    "p' = Leo_Program ms sts scs" by (auto simp: ssa_bind_Inr)
  from formed_append[OF formed_ssa_map[OF formed_module c(1)] formed_append[OF 1(1)[OF c(2)] formed_ssa_map[OF formed_scope c(3)]]]
  show ?case by (simp add: c(4))
next
  case (6 n st rest)
  then obtain st1 s1 rest1 where c: "consume_stub comps True st s = Inr (st1, s1)"
    "consume_stubs comps True rest s1 = Inr (rest1, s')" "sts' = (n, st1) # rest1" by (auto simp: ssa_bind_Inr)
  from formed_append[OF 6(1)[OF c(1)] 6(2)[OF c(2)]] c(3) show ?case by simp
qed (auto simp: ssa_bind_Inr intro: formed_library)

section \<open>Records\<close>

lemma update_new: "k \<notin> fst ` set al \<Longrightarrow> AList.update k v al = al @ [(k, v)]"
  by (induction al) auto

lemma fold_update_distinct:
  "distinct (map fst al @ map key ms) \<Longrightarrow>
     fold (\<lambda>m. AList.update (key m) m) ms al = al @ map (\<lambda>m. (key m, m)) ms"
  by (induction ms arbitrary: al) (auto simp: update_new)

lemma owner_first:
  fixes key :: "'a \<Rightarrow> symbol"
  assumes "distinct (map key ms)" "x \<in> key ` set ms"
  shows "\<exists>m. map_of (map (\<lambda>m. (key m, m)) ms) x = Some m \<and> key m = x \<and>
     mset (m # map snd (AList.delete x (map (\<lambda>m. (key m, m)) ms))) = mset ms"
proof -
  from assms(2) obtain m where m: "m \<in> set ms" "key m = x" by blast
  then have "map_of (map (\<lambda>m. (key m, m)) ms) x = Some m" using assms(1) by (force simp: comp_def)
  moreover have "AList.delete x (map (\<lambda>m. (key m, m)) ms) = map (\<lambda>m. (key m, m)) (filter (\<lambda>m. key m \<noteq> x) ms)"
    by (simp add: AList.delete_eq filter_map comp_def eq_commute)
  moreover have "filter (\<lambda>n. key n = x) ms = [m]"
    using assms(1) m by (induction ms) (force simp: filter_empty_conv image_iff)+
  then have "mset (filter (\<lambda>n. key n = x) ms) + mset (filter (\<lambda>n. key n \<noteq> x) ms) = add_mset m (mset (filter (\<lambda>n. key n \<noteq> x) ms))"
    by simp
  then have "add_mset m (mset (filter (\<lambda>n. key n \<noteq> x) ms)) = mset ms"
    by (metis mset_filter multiset_partition)
  ultimately show ?thesis using m(2) by (intro exI[of _ m]) (simp add: comp_def)
qed

section \<open>An example\<close>

text \<open>\<^verbatim>\<open>fn f(x: field, b: bool) -> field { let y = x; if b { y = y + x; } return y * x; }\<close> on integers.\<close>

definition var :: "string \<Rightarrow> node_id \<Rightarrow> expression" where
  "var x n = E_Path (to_local (path_of_ident \<lparr>ident_name = x, ident_id = n\<rparr>))"

definition example_function :: leo_function where
  "example_function =
     \<lparr>fn_variant = Fn, fn_identifier = \<lparr>ident_name = ''f'', ident_id = 0\<rparr>,
      fn_input = [\<lparr>in_identifier = \<lparr>ident_name = ''x'', ident_id = 1\<rparr>, in_mode = Mode_None, in_type = T_Field, in_id = 2\<rparr>,
                  \<lparr>in_identifier = \<lparr>ident_name = ''b'', ident_id = 3\<rparr>, in_mode = Mode_None, in_type = T_Boolean, in_id = 4\<rparr>],
      fn_output_type = T_Field,
      fn_block = Block
        [S_Definition (Single \<lparr>ident_name = ''y'', ident_id = 5\<rparr>) (Some T_Field) (var ''x'' 6) 7,
         S_Conditional (var ''b'' 8)
           (Block [S_Assign (var ''y'' 9) (E_Binary (var ''y'' 10) (var ''x'' 11) Add 12) 13] 14) None 15,
         S_Return (E_Binary (var ''y'' 16) (var ''x'' 17) Mul 18) 19] 20,
      fn_id = 21\<rparr>"

definition example_state :: ssa_state where
  "example_state = \<lparr>ss_table = rename_table_new None, ss_types = (\<lambda>_. Some T_Field), ss_next = 22, ss_counter = 0\<rparr>"

definition example_op :: "op_head \<Rightarrow> int list \<Rightarrow> unit \<Rightarrow> (int \<times> unit) option" where
  "example_op h vs w =
     (case h of
        H_Binary Add \<Rightarrow> Some (sum_list vs, w)
      | H_Binary Mul \<Rightarrow> Some (prod_list vs, w)
      | _ \<Rightarrow> None)"

definition example_meaning :: "(int, unit) meaning" where
  "example_meaning =
     \<lparr>m_literal = (\<lambda>_. 0), m_unit = 0, m_global = (\<lambda>_. 0), m_self = (\<lambda>_ _. 0), m_member = (\<lambda>_ v. Some v), m_op = example_op,
      m_truth = (\<lambda>v. Some (v \<noteq> 0)), m_equal = (=), m_untuple = (\<lambda>_. None), m_set = (\<lambda>_ _ v. Some v)\<rparr>"

lemma example_scoped: "well_scoped example_function"
  by (simp add: well_scoped_def example_function_def input_names_def var_def to_local_def path_of_ident_def path_new_def
      plain_name_def try_local_symbol_def scoped_place_def keeps_condition_def)

lemma example_run: "run_function example_meaning (\<lambda>_. None) example_function [3, 1] (\<lambda>_. 0) () = Some (18, ())"
  by (simp add: run_function_def example_function_def example_meaning_def example_op_def var_def to_local_def path_of_ident_def
      path_new_def eval.simps read_path_def try_local_symbol_def define_place_def assign_place_def run_with_def)

definition example_record :: composite where
  "example_record =
     \<lparr>comp_identifier = \<lparr>ident_name = ''Token'', ident_id = 0\<rparr>,
      comp_members =
        [\<lparr>mem_mode = Mode_None, mem_identifier = \<lparr>ident_name = ''amount'', ident_id = 1\<rparr>, mem_type = T_Field, mem_id = 2\<rparr>,
         \<lparr>mem_mode = Mode_None, mem_identifier = \<lparr>ident_name = ''owner'', ident_id = 3\<rparr>, mem_type = T_Address, mem_id = 4\<rparr>],
      comp_is_record = True, comp_id = 5\<rparr>"

definition example_program :: "unit leo_program" where
  "example_program =
     Leo_Program [] [(''dep'', From_Leo (Leo_Program [] [] [(''dep'', \<lparr>sc_program = ''dep'', sc_composites = [],
         sc_functions = [(''f'', example_function)], sc_constructor = None\<rparr>)]) [])]
       [(''main'', \<lparr>sc_program = ''main'', sc_composites = [], sc_functions = [(''f'', example_function)],
          sc_constructor = Some (Block [] 0)\<rparr>)]"

definition program_result :: "unit leo_program option" where
  "program_result =
     (case ssa_forming (\<lambda>_ _. None) True (Inl example_program :: unit leo_program + unit library) example_state of
        Inr (Inl p, _) \<Rightarrow> Some p | _ \<Rightarrow> None)"

lemma program_formed:
  "\<exists>p' s'. ssa_forming (\<lambda>_ _. None) True (Inl example_program :: unit leo_program + unit library) example_state =
     Inr (Inl p', s')"
proof -
  have "program_result \<noteq> None" by code_simp
  then show ?thesis by (auto simp: program_result_def split: sum.splits)
qed

lemma ssa_forming_formed:
  assumes "ssa_forming comps True (Inl p) s = Inr (Inl p', s')"
  shows "formed M comps (s\<lparr>ss_table := rename_table_new None\<rparr>) s' (program_functions p) (program_functions p')"
  using assms formed_program(1) by (fastforce simp: ssa_forming_def ssa_bind_Inr)

section \<open>Properties\<close>

text \<open>
  Property C1.  Static single assignment keeps the meaning of programs: when the functions of a program, of its
  modules, dependencies and constructors are well scoped, each of them computes the same result, with the same
  effects and on the same arguments, after the pass as before, whatever the operations, calls and intrinsics do.
\<close>

theorem ssa_keeps_meaning:
  assumes "ssa_forming comps True (Inl p) s = Inr (Inl p', s')" "list_all (well_scoped \<circ> snd) (program_functions p)"
  shows "list_all2 (\<lambda>(prog, f) (prog', f'). prog' = prog \<and>
      (\<forall>args \<rho> w. run_function M (comps prog) f' args \<rho> w = run_function M (comps prog) f args \<rho> w))
    (program_functions p) (program_functions p')"
  using ssa_forming_formed[OF assms(1), of M] assms(2) by (simp add: formed_def same_run_def)

theorem ssa_keeps_meaning_witness:
  "\<exists>p' s'. ssa_forming (\<lambda>_ _. None) True (Inl example_program :: unit leo_program + unit library) example_state = Inr (Inl p', s') \<and>
     run_function example_meaning (\<lambda>_. None) (snd (hd (program_functions p'))) [3, 1] (\<lambda>_. 0) () = Some (18, ())"
proof -
  obtain p' s' where c: "ssa_forming (\<lambda>_ _. None) True (Inl example_program :: unit leo_program + unit library) example_state =
      Inr (Inl p', s')" using program_formed by blast
  have scoped: "list_all (well_scoped \<circ> snd) (program_functions example_program)"
    using example_scoped by (simp add: example_program_def scope_functions_def tagged_def constructor_function_def well_scoped_def
        input_names_def)
  obtain rest where first: "program_functions example_program = (''dep'', example_function) # rest"
    by (simp add: example_program_def scope_functions_def tagged_def)
  from ssa_keeps_meaning[OF c scoped, of example_meaning] first example_run
  have "run_function example_meaning (\<lambda>_. None) (snd (hd (program_functions p'))) [3, 1] (\<lambda>_. 0) () = Some (18, ())"
    by (cases "program_functions p'") auto
  with c show ?thesis by blast
qed

text \<open>
  Property C8.  After static single assignment no variable is defined twice in a program: over all functions, inputs
  and branches every definition has a name of its own, which was not in use before and is no name of a program.
\<close>

theorem ssa_defines_once:
  assumes "ssa_forming comps True (Inl p) s = Inr (Inl p', s')"
  shows "distinct (all_definitions (program_functions p')) \<and>
     (\<forall>n\<in>set (all_definitions (program_functions p')). \<not> plain_name n \<and> generated (ss_counter s) n \<and> \<not> generated (ss_counter s') n)"
proof -
  fix M :: "(unit, unit) meaning"
  have "fresh_in (ss_counter s) (ss_counter s') (all_definitions (program_functions p'))"
    using ssa_forming_formed[OF assms, of M] by (simp add: formed_def)
  then show ?thesis using not_generated_plain[of _ "ss_counter s"] by (auto simp: fresh_in_def plain_name_def)
qed

theorem ssa_defines_once_witness:
  "\<exists>p' s'. ssa_forming (\<lambda>_ _. None) True (Inl example_program :: unit leo_program + unit library) example_state = Inr (Inl p', s') \<and>
     distinct (all_definitions (program_functions p'))"
  using program_formed ssa_defines_once by blast

text \<open>
  Property C38.  After static single assignment the functions of a program are in normal form: operands, conditions,
  arguments and returned values are variables, fields of a composite are variables or copied fields of a variable,
  no constant or loop is left, and assignments change parts of variables only.
\<close>

theorem ssa_normal_form:
  assumes "ssa_forming comps True (Inl p) s = Inr (Inl p', s')"
  shows "list_all (\<lambda>(prog, f). case fn_block f of Block ss _ \<Rightarrow> normal_list ss) (program_functions p')"
proof -
  fix M :: "(unit, unit) meaning"
  show ?thesis using ssa_forming_formed[OF assms, of M] by (auto simp: formed_def normal_function_def list_all_iff)
qed

theorem ssa_normal_form_witness:
  "\<exists>p' s'. ssa_forming (\<lambda>_ _. None) True (Inl example_program :: unit leo_program + unit library) example_state = Inr (Inl p', s') \<and>
     list_all (\<lambda>(prog, f). case fn_block f of Block ss _ \<Rightarrow> normal_list ss) (program_functions p')"
  using program_formed ssa_normal_form by blast

text \<open>
  The pass keeps the members of a composite and puts the owner of a record first, in the order in which
  it lists the fields of the composite expressions of that type.
\<close>

theorem record_members_in_init_order:
  assumes "distinct (member_names c)" "comp_is_record c \<Longrightarrow> ''owner'' \<in> set (member_names c)"
  shows "\<exists>c'. consume_composite c = Inr c' \<and> member_names c' = init_order c \<and> mset (comp_members c') = mset (comp_members c)"
proof (cases "comp_is_record c")
  case True
  let ?key = "\<lambda>m. ident_name (mem_identifier m)"
  from owner_first[of ?key "comp_members c" "''owner''"] assms True obtain m where
    m: "map_of (map (\<lambda>m. (?key m, m)) (comp_members c)) ''owner'' = Some m" "?key m = ''owner''"
    "mset (m # map snd (AList.delete ''owner'' (map (\<lambda>m. (?key m, m)) (comp_members c)))) = mset (comp_members c)"
    by (auto simp: member_names_def)
  have "fold (\<lambda>m. AList.update (?key m) m) (comp_members c) [] = map (\<lambda>m. (?key m, m)) (comp_members c)"
    using fold_update_distinct[of "[]" ?key] assms(1) by (simp add: member_names_def)
  then have "consume_composite c =
      Inr (c\<lparr>comp_members := m # map snd (AList.delete ''owner'' (map (\<lambda>m. (?key m, m)) (comp_members c)))\<rparr>)"
    using True m(1) by (simp add: consume_composite_def)
  with m(2,3) True show ?thesis
    by (simp add: init_order_def member_names_def AList.delete_eq filter_map comp_def eq_commute)
qed (simp add: consume_composite_def init_order_def)

theorem record_members_in_init_order_witness:
  "\<exists>c'. consume_composite example_record = Inr c' \<and> member_names c' = [''owner'', ''amount'']"
proof -
  have "member_names example_record = [''amount'', ''owner'']" by (simp add: example_record_def member_names_def)
  moreover have "init_order example_record = [''owner'', ''amount'']"
    by (simp add: init_order_def member_names_def example_record_def)
  ultimately show ?thesis using record_members_in_init_order[of example_record] by auto
qed

end
