(* ===== verification/Dead_Code.thy ===== *)
theory Dead_Code
  imports Ssa_Program Leo_Intrinsics
begin

text \<open>
  Which expressions may be dropped (\<^verbatim>\<open>crates/passes/src/common/mod.rs\<close>) and dead code elimination
  (\<^verbatim>\<open>crates/passes/src/dead_code_elimination\<close>), on top of the default traversal of
  \<^verbatim>\<open>crates/ast/src/passes/reconstructor.rs\<close>.
\<close>

section \<open>Expressions that may be discarded\<close>

definition path_is_storage_read :: "('f, 'c, 'i) symbol_table \<Rightarrow> path \<Rightarrow> bool" where
  "path_is_storage_read st p =
     (case try_global_location p of
        None \<Rightarrow> False
      | Some loc \<Rightarrow>
          (case lookup_global st (loc_program loc) loc of
             None \<Rightarrow> False
           | Some var \<Rightarrow>
               var_declaration var = VT_Storage \<and>
               (case var_type var of None \<Rightarrow> True | Some ty \<Rightarrow> \<not> is_mapping ty \<and> \<not> is_vector ty)))"

definition intrinsic_can_be_discarded :: "intrinsic \<Rightarrow> bool" where
  "intrinsic_can_be_discarded i \<longleftrightarrow> i \<notin> {OptionalUnwrap, VectorGet, VectorLen} \<and> intrinsic_is_pure i"

text \<open>\<open>storage\<close> tells the paths that read storage.\<close>

fun contains_non_discardable_operation :: "(path \<Rightarrow> bool) \<Rightarrow> expression \<Rightarrow> bool" where
  "contains_non_discardable_operation storage (E_Intrinsic name tys _ _ args _) \<longleftrightarrow>
     (case intrinsic_from_symbol name tys of None \<Rightarrow> False | Some i \<Rightarrow> \<not> intrinsic_can_be_discarded i) \<or>
     list_ex (contains_non_discardable_operation storage) args"
| "contains_non_discardable_operation storage (E_Array es _) \<longleftrightarrow> list_ex (contains_non_discardable_operation storage) es"
| "contains_non_discardable_operation storage (E_ArrayAccess array index _) \<longleftrightarrow>
     contains_non_discardable_operation storage array \<or> contains_non_discardable_operation storage index"
| "contains_non_discardable_operation storage (E_Binary left right _ _) \<longleftrightarrow>
     contains_non_discardable_operation storage left \<or> contains_non_discardable_operation storage right"
| "contains_non_discardable_operation storage (E_Composite _ const_args inits _ _) \<longleftrightarrow>
     list_ex (contains_non_discardable_operation storage) const_args \<or>
     list_ex (\<lambda>f. case f of Field_Init _ (Some e) _ \<Rightarrow> contains_non_discardable_operation storage e | _ \<Rightarrow> False) inits"
| "contains_non_discardable_operation storage (E_MemberAccess inner _ _) \<longleftrightarrow> contains_non_discardable_operation storage inner"
| "contains_non_discardable_operation storage (E_Repeat e cnt _) \<longleftrightarrow>
     contains_non_discardable_operation storage e \<or> contains_non_discardable_operation storage cnt"
| "contains_non_discardable_operation storage (E_Ternary c t f _) \<longleftrightarrow>
     contains_non_discardable_operation storage c \<or> contains_non_discardable_operation storage t \<or>
     contains_non_discardable_operation storage f"
| "contains_non_discardable_operation storage (E_Tuple es _) \<longleftrightarrow> list_ex (contains_non_discardable_operation storage) es"
| "contains_non_discardable_operation storage (E_TupleAccess tuple _ _) \<longleftrightarrow> contains_non_discardable_operation storage tuple"
| "contains_non_discardable_operation storage (E_Unary receiver _ _) \<longleftrightarrow> contains_non_discardable_operation storage receiver"
| "contains_non_discardable_operation storage (E_Path p) \<longleftrightarrow> storage p"
| "contains_non_discardable_operation storage (E_Async _ _) \<longleftrightarrow> False"
| "contains_non_discardable_operation storage (E_Call _ _ _ _) \<longleftrightarrow> False"
| "contains_non_discardable_operation storage (E_Cast _ _ _) \<longleftrightarrow> False"
| "contains_non_discardable_operation storage (E_DynamicOp _ _ _ _ _) \<longleftrightarrow> False"
| "contains_non_discardable_operation storage (E_Err _) \<longleftrightarrow> False"
| "contains_non_discardable_operation storage (E_Literal _) \<longleftrightarrow> False"
| "contains_non_discardable_operation storage (E_Unit _) \<longleftrightarrow> False"

definition expression_can_be_discarded :: "(node_id \<Rightarrow> leo_type) \<Rightarrow> (path \<Rightarrow> bool) \<Rightarrow> expression \<Rightarrow> bool" where
  "expression_can_be_discarded get_type storage e \<longleftrightarrow>
     is_pure get_type e \<and> \<not> contains_non_discardable_operation storage e"

section \<open>The traversal\<close>

text \<open>
  The visitor keeps the set of variables that are used later.  A method returns a panic or the reconstructed
  node with the new set; \<open>discard\<close> is \<^verbatim>\<open>can_discard\<close>.
\<close>

type_synonym 'a dce = "symbol set \<Rightarrow> string + 'a \<times> symbol set"

definition dce_return :: "'a \<Rightarrow> 'a dce" where
  "dce_return a u = Inr (a, u)"

definition dce_panic :: "string \<Rightarrow> 'a dce" where
  "dce_panic msg u = Inl msg"

definition dce_bind :: "'a dce \<Rightarrow> ('a \<Rightarrow> 'b dce) \<Rightarrow> 'b dce" where
  "dce_bind m f u = (case m u of Inl e \<Rightarrow> Inl e | Inr (a, u') \<Rightarrow> f a u')"

definition dce_use :: "symbol \<Rightarrow> unit dce" where
  "dce_use x u = Inr ((), insert x u)"

definition dce_used :: "symbol set dce" where
  "dce_used u = Inr (u, u)"

definition dce_seq :: "'a dce list \<Rightarrow> 'a list dce" where
  "dce_seq ms = foldr (\<lambda>m r. dce_bind m (\<lambda>a. dce_bind r (\<lambda>as. dce_return (a # as)))) ms (dce_return [])"

definition dce_seq_moded :: "(mode \<times> 'a dce) list \<Rightarrow> (mode \<times> 'a) list dce" where
  "dce_seq_moded ms = dce_seq (map (\<lambda>(mode, m). dce_bind m (\<lambda>a. dce_return (mode, a))) ms)"

definition dce_seq_option :: "'a dce option \<Rightarrow> 'a option dce" where
  "dce_seq_option m = (case m of None \<Rightarrow> dce_return None | Some m' \<Rightarrow> dce_bind m' (\<lambda>a. dce_return (Some a)))"

text \<open>The statements of a block are visited from the last one to the first.\<close>

definition dce_seq_back :: "statement dce list \<Rightarrow> statement list dce" where
  "dce_seq_back ms =
     foldr (\<lambda>m r. dce_bind r (\<lambda>sts. dce_bind m (\<lambda>st. dce_return (if is_removable st then sts else st # sts)))) ms (dce_return [])"

primrec dce_type :: "(expression \<Rightarrow> bool) \<Rightarrow> leo_type \<Rightarrow> leo_type dce"
  and dce_expr :: "(expression \<Rightarrow> bool) \<Rightarrow> expression \<Rightarrow> expression dce"
  and dce_field :: "(expression \<Rightarrow> bool) \<Rightarrow> field_initializer \<Rightarrow> field_initializer dce"
  and dce_kind :: "(expression \<Rightarrow> bool) \<Rightarrow> dynamic_op_kind \<Rightarrow> dynamic_op_kind dce"
  and dce_assert :: "(expression \<Rightarrow> bool) \<Rightarrow> assert_variant \<Rightarrow> assert_variant dce"
  and dce_block :: "(expression \<Rightarrow> bool) \<Rightarrow> block \<Rightarrow> block dce"
  and dce_statement :: "(expression \<Rightarrow> bool) \<Rightarrow> statement \<Rightarrow> statement dce"
where
  "dce_type discard (T_Array ty len) =
     dce_bind (dce_type discard ty) (\<lambda>ty'. dce_bind (dce_expr discard len) (\<lambda>len'. dce_return (T_Array ty' len')))"
| "dce_type discard (T_Composite p args) =
     dce_bind (dce_seq (map (dce_expr discard) args)) (\<lambda>args'. dce_return (T_Composite p args'))"
| "dce_type discard (T_Future tys loc b) =
     dce_bind (dce_seq (map (dce_type discard) tys)) (\<lambda>tys'. dce_return (T_Future tys' loc b))"
| "dce_type discard (T_Mapping k v) =
     dce_bind (dce_type discard k) (\<lambda>k'. dce_bind (dce_type discard v) (\<lambda>v'. dce_return (T_Mapping k' v')))"
| "dce_type discard (T_Optional ty) = dce_bind (dce_type discard ty) (\<lambda>ty'. dce_return (T_Optional ty'))"
| "dce_type discard (T_Tuple tys) = dce_bind (dce_seq (map (dce_type discard) tys)) (\<lambda>tys'. dce_return (T_Tuple tys'))"
| "dce_type discard (T_Vector ty) = dce_bind (dce_type discard ty) (\<lambda>ty'. dce_return (T_Vector ty'))"
| "dce_type discard T_Address = dce_return T_Address"
| "dce_type discard T_Boolean = dce_return T_Boolean"
| "dce_type discard T_Field = dce_return T_Field"
| "dce_type discard T_Group = dce_return T_Group"
| "dce_type discard T_Identifier = dce_return T_Identifier"
| "dce_type discard T_DynRecord = dce_return T_DynRecord"
| "dce_type discard (T_Ident i) = dce_return (T_Ident i)"
| "dce_type discard (T_Integer i) = dce_return (T_Integer i)"
| "dce_type discard T_Scalar = dce_return T_Scalar"
| "dce_type discard T_Signature = dce_return T_Signature"
| "dce_type discard T_String = dce_return T_String"
| "dce_type discard T_Numeric = dce_return T_Numeric"
| "dce_type discard T_Unit = dce_return T_Unit"
| "dce_type discard T_Err = dce_return T_Err"
| "dce_expr discard (E_ArrayAccess array index nid) =
     dce_bind (dce_expr discard array) (\<lambda>array'.
     dce_bind (dce_expr discard index) (\<lambda>index'. dce_return (E_ArrayAccess array' index' nid)))"
| "dce_expr discard (E_Async b nid) = dce_bind (dce_block discard b) (\<lambda>b'. dce_return (E_Async b' nid))"
| "dce_expr discard (E_Array es nid) = dce_bind (dce_seq (map (dce_expr discard) es)) (\<lambda>es'. dce_return (E_Array es' nid))"
| "dce_expr discard (E_Binary left right op nid) =
     dce_bind (dce_expr discard left) (\<lambda>left'.
     dce_bind (dce_expr discard right) (\<lambda>right'. dce_return (E_Binary left' right' op nid)))"
| "dce_expr discard (E_Intrinsic name tys ins outs args nid) =
     dce_bind (dce_seq (map (dce_type discard) tys)) (\<lambda>tys'.
     dce_bind (dce_seq_moded (map (map_prod id (dce_type discard)) ins)) (\<lambda>ins'.
     dce_bind (dce_seq_moded (map (map_prod id (dce_type discard)) outs)) (\<lambda>outs'.
     dce_bind (dce_seq (map (dce_expr discard) args)) (\<lambda>args'. dce_return (E_Intrinsic name tys' ins' outs' args' nid)))))"
| "dce_expr discard (E_Call f const_args args nid) =
     dce_bind (dce_seq (map (dce_expr discard) const_args)) (\<lambda>const_args'.
     dce_bind (dce_seq (map (dce_expr discard) args)) (\<lambda>args'. dce_return (E_Call f const_args' args' nid)))"
| "dce_expr discard (E_DynamicOp interface target network kind nid) =
     dce_bind (dce_type discard interface) (\<lambda>interface'.
     dce_bind (dce_expr discard target) (\<lambda>target'.
     dce_bind (dce_seq_option (map_option (dce_expr discard) network)) (\<lambda>network'.
     dce_bind (dce_kind discard kind) (\<lambda>kind'. dce_return (E_DynamicOp interface' target' network' kind' nid)))))"
| "dce_expr discard (E_Cast e ty nid) = dce_bind (dce_expr discard e) (\<lambda>e'. dce_return (E_Cast e' ty nid))"
| "dce_expr discard (E_Composite path const_args inits base nid) =
     dce_bind (dce_seq (map (dce_field discard) inits)) (\<lambda>inits'. dce_return (E_Composite path const_args inits' base nid))"
| "dce_expr discard (E_Err nid) = dce_panic ''ErrExpressions should not be in the AST at this phase of compilation.''"
| "dce_expr discard (E_Path p) = dce_bind (dce_use (ident_name (identifier_of p))) (\<lambda>_. dce_return (E_Path p))"
| "dce_expr discard (E_Literal l) = dce_return (E_Literal l)"
| "dce_expr discard (E_MemberAccess inner name nid) =
     dce_bind (dce_expr discard inner) (\<lambda>inner'. dce_return (E_MemberAccess inner' name nid))"
| "dce_expr discard (E_Repeat e cnt nid) =
     dce_bind (dce_expr discard e) (\<lambda>e'. dce_bind (dce_expr discard cnt) (\<lambda>cnt'. dce_return (E_Repeat e' cnt' nid)))"
| "dce_expr discard (E_Ternary c t f nid) =
     dce_bind (dce_expr discard c) (\<lambda>c'.
     dce_bind (dce_expr discard t) (\<lambda>t'.
     dce_bind (dce_expr discard f) (\<lambda>f'. dce_return (E_Ternary c' t' f' nid))))"
| "dce_expr discard (E_Tuple es nid) = dce_bind (dce_seq (map (dce_expr discard) es)) (\<lambda>es'. dce_return (E_Tuple es' nid))"
| "dce_expr discard (E_TupleAccess tuple index nid) =
     dce_bind (dce_expr discard tuple) (\<lambda>tuple'. dce_return (E_TupleAccess tuple' index nid))"
| "dce_expr discard (E_Unary receiver op nid) =
     dce_bind (dce_expr discard receiver) (\<lambda>receiver'. dce_return (E_Unary receiver' op nid))"
| "dce_expr discard (E_Unit nid) = dce_return (E_Unit nid)"
| "dce_field discard (Field_Init i oe nid) =
     dce_bind
       (case map_option (dce_expr discard) oe of
          Some m \<Rightarrow> dce_bind m (\<lambda>e'. dce_return (Some e'))
        | None \<Rightarrow> dce_bind (dce_use (ident_name i)) (\<lambda>_. dce_return None)) (\<lambda>oe'.
     dce_return (Field_Init i oe' nid))"
| "dce_kind discard (Dyn_Call f args) = dce_bind (dce_seq (map (dce_expr discard) args)) (\<lambda>args'. dce_return (Dyn_Call f args'))"
| "dce_kind discard (Dyn_Read storage) = dce_return (Dyn_Read storage)"
| "dce_kind discard (Dyn_Op member op args) = dce_bind (dce_seq (map (dce_expr discard) args)) (\<lambda>args'. dce_return (Dyn_Op member op args'))"
| "dce_assert discard (Assert e) = dce_bind (dce_expr discard e) (\<lambda>e'. dce_return (Assert e'))"
| "dce_assert discard (AssertEq a b) =
     dce_bind (dce_expr discard a) (\<lambda>a'. dce_bind (dce_expr discard b) (\<lambda>b'. dce_return (AssertEq a' b')))"
| "dce_assert discard (AssertNeq a b) =
     dce_bind (dce_expr discard a) (\<lambda>a'. dce_bind (dce_expr discard b) (\<lambda>b'. dce_return (AssertNeq a' b')))"
| "dce_block discard (Block ss nid) = dce_bind (dce_seq_back (map (dce_statement discard) ss)) (\<lambda>ss'. dce_return (Block ss' nid))"
| "dce_statement discard (S_Assert variant nid) =
     dce_bind (dce_assert discard variant) (\<lambda>variant'. dce_return (S_Assert variant' nid))"
| "dce_statement discard (S_Assign _ _ _) =
     dce_panic ''AssignStatements should not exist in the AST at this phase of compilation.''"
| "dce_statement discard (S_Block b) = dce_bind (dce_block discard b) (\<lambda>b'. dce_return (S_Block b'))"
| "dce_statement discard (S_Conditional condition then_block otherwise nid) =
     dce_bind (dce_expr discard condition) (\<lambda>condition'.
     dce_bind (dce_block discard then_block) (\<lambda>then_block'.
     dce_bind (dce_seq_option (map_option (dce_statement discard) otherwise)) (\<lambda>otherwise'.
     dce_return (S_Conditional condition' then_block' otherwise' nid))))"
| "dce_statement discard (S_Const exported place ty e nid) =
     dce_bind (dce_type discard ty) (\<lambda>ty'.
     dce_bind (dce_expr discard e) (\<lambda>e'. dce_return (S_Const exported place ty' e' nid)))"
| "dce_statement discard (S_Definition place ty e nid) =
     dce_bind dce_used (\<lambda>used.
     let lhs_is_used = (case place of Single i \<Rightarrow> ident_name i \<in> used | Multiple is \<Rightarrow> list_ex (\<lambda>i. ident_name i \<in> used) is) in
     if \<not> lhs_is_used \<and> discard e then dce_return statement_dummy
     else dce_bind (dce_expr discard e) (\<lambda>e'. dce_return (S_Definition place ty e' nid)))"
| "dce_statement discard (S_Expression e nid) =
     (if discard e then dce_return statement_dummy
      else dce_bind (dce_expr discard e) (\<lambda>e'. dce_return (S_Expression e' nid)))"
| "dce_statement discard (S_Iteration _ _ _ _ _ _ _) =
     dce_panic ''IterationStatements should not be in the AST at this phase of compilation.''"
| "dce_statement discard (S_Return e nid) = dce_bind (dce_expr discard e) (\<lambda>e'. dce_return (S_Return e' nid))"

text \<open>The same on lists and options.\<close>

fun dce_types :: "(expression \<Rightarrow> bool) \<Rightarrow> leo_type list \<Rightarrow> leo_type list dce" where
  "dce_types discard [] = dce_return []"
| "dce_types discard (ty # tys) =
     dce_bind (dce_type discard ty) (\<lambda>ty'. dce_bind (dce_types discard tys) (\<lambda>tys'. dce_return (ty' # tys')))"

fun dce_moded :: "(expression \<Rightarrow> bool) \<Rightarrow> (mode \<times> leo_type) list \<Rightarrow> (mode \<times> leo_type) list dce" where
  "dce_moded discard [] = dce_return []"
| "dce_moded discard ((m, ty) # tys) =
     dce_bind (dce_type discard ty) (\<lambda>ty'. dce_bind (dce_moded discard tys) (\<lambda>tys'. dce_return ((m, ty') # tys')))"

fun dce_exprs :: "(expression \<Rightarrow> bool) \<Rightarrow> expression list \<Rightarrow> expression list dce" where
  "dce_exprs discard [] = dce_return []"
| "dce_exprs discard (e # es) =
     dce_bind (dce_expr discard e) (\<lambda>e'. dce_bind (dce_exprs discard es) (\<lambda>es'. dce_return (e' # es')))"

fun dce_option :: "(expression \<Rightarrow> bool) \<Rightarrow> expression option \<Rightarrow> expression option dce" where
  "dce_option discard None = dce_return None"
| "dce_option discard (Some e) = dce_bind (dce_expr discard e) (\<lambda>e'. dce_return (Some e'))"

fun dce_fields :: "(expression \<Rightarrow> bool) \<Rightarrow> field_initializer list \<Rightarrow> field_initializer list dce" where
  "dce_fields discard [] = dce_return []"
| "dce_fields discard (Field_Init i oe nid # inits) =
     dce_bind
       (case oe of
          Some e \<Rightarrow> dce_bind (dce_expr discard e) (\<lambda>e'. dce_return (Some e'))
        | None \<Rightarrow> dce_bind (dce_use (ident_name i)) (\<lambda>_. dce_return None)) (\<lambda>oe'.
     dce_bind (dce_fields discard inits) (\<lambda>inits'. dce_return (Field_Init i oe' nid # inits')))"

fun dce_statements :: "(expression \<Rightarrow> bool) \<Rightarrow> statement list \<Rightarrow> statement list dce" where
  "dce_statements discard [] = dce_return []"
| "dce_statements discard (st # sts) =
     dce_bind (dce_statements discard sts) (\<lambda>sts'.
     dce_bind (dce_statement discard st) (\<lambda>st'. dce_return (if is_removable st' then sts' else st' # sts')))"

fun dce_otherwise :: "(expression \<Rightarrow> bool) \<Rightarrow> statement option \<Rightarrow> statement option dce" where
  "dce_otherwise discard None = dce_return None"
| "dce_otherwise discard (Some st) = dce_bind (dce_statement discard st) (\<lambda>st'. dce_return (Some st'))"

lemma dce_seq_simps [simp]:
  "dce_seq [] = dce_return []"
  "dce_seq (m # ms) = dce_bind m (\<lambda>a. dce_bind (dce_seq ms) (\<lambda>as. dce_return (a # as)))"
  by (simp_all add: dce_seq_def)

lemma dce_bind_assoc: "dce_bind (dce_bind m f) g = dce_bind m (\<lambda>a. dce_bind (f a) g)"
  by (auto simp: dce_bind_def fun_eq_iff split: sum.splits)

lemma dce_bind_return: "dce_bind (dce_return a) f = f a"
  by (simp add: dce_bind_def dce_return_def fun_eq_iff)

lemma dce_seqs_simps [simp]:
  "dce_seq_moded [] = dce_return []"
  "dce_seq_moded ((mode, m) # ms) = dce_bind m (\<lambda>a. dce_bind (dce_seq_moded ms) (\<lambda>as. dce_return ((mode, a) # as)))"
  "dce_seq_option None = dce_return None"
  "dce_seq_option (Some m') = dce_bind m' (\<lambda>a. dce_return (Some a))"
  "dce_seq_back [] = dce_return []"
  "dce_seq_back (m'' # ms'') =
     dce_bind (dce_seq_back ms'') (\<lambda>sts. dce_bind m'' (\<lambda>st. dce_return (if is_removable st then sts else st # sts)))"
  by (simp_all add: dce_seq_moded_def dce_seq_option_def dce_seq_back_def dce_bind_assoc dce_bind_return)

lemma dce_folds [simp]:
  "dce_seq (map (dce_type discard) tys) = dce_types discard tys"
  "dce_seq_moded (map (map_prod id (dce_type discard)) ms) = dce_moded discard ms"
  "dce_seq (map (dce_expr discard) es) = dce_exprs discard es"
  "dce_seq_option (map_option (dce_expr discard) oe) = dce_option discard oe"
  "dce_seq (map (dce_field discard) fs) = dce_fields discard fs"
  "dce_seq_back (map (dce_statement discard) sts) = dce_statements discard sts"
  "dce_seq_option (map_option (dce_statement discard) oth) = dce_otherwise discard oth"
proof -
  show "dce_seq (map (dce_type discard) tys) = dce_types discard tys" by (induction tys) simp_all
  show "dce_seq_moded (map (map_prod id (dce_type discard)) ms) = dce_moded discard ms"
    by (induction ms) auto
  show "dce_seq (map (dce_expr discard) es) = dce_exprs discard es" by (induction es) simp_all
  show "dce_seq_option (map_option (dce_expr discard) oe) = dce_option discard oe" by (cases oe) simp_all
  show "dce_seq_option (map_option (dce_statement discard) oth) = dce_otherwise discard oth"
    by (cases oth) simp_all
  show "dce_seq_back (map (dce_statement discard) sts) = dce_statements discard sts"
    by (induction sts) simp_all
  show "dce_seq (map (dce_field discard) fs) = dce_fields discard fs"
  proof (induction fs)
    case (Cons f fs)
    then show ?case by (cases f) (simp add: dce_bind_assoc dce_bind_return split: option.split)
  qed simp
qed

declare dce_field.simps [simp del]

section \<open>Functions and scopes\<close>

text \<open>\<^verbatim>\<open>used_variables\<close> is cleared before every function and constructor.\<close>

definition dce_function :: "(expression \<Rightarrow> bool) \<Rightarrow> leo_function \<Rightarrow> string + leo_function" where
  "dce_function discard f =
     (case dce_block discard (fn_block f) {} of Inl msg \<Rightarrow> Inl msg | Inr (b, _) \<Rightarrow> Inr (f\<lparr>fn_block := b\<rparr>))"

text \<open>The second result tells whether the error for an empty \<^verbatim>\<open>@custom\<close> constructor is emitted.\<close>

definition dce_constructor :: "(expression \<Rightarrow> bool) \<Rightarrow> bool \<Rightarrow> block \<Rightarrow> string + block \<times> bool" where
  "dce_constructor discard is_custom b =
     (case dce_block discard b {} of
        Inl msg \<Rightarrow> Inl msg
      | Inr (b', _) \<Rightarrow> Inr (b', is_custom \<and> (case b' of Block ss _ \<Rightarrow> list_all statement_is_empty ss)))"

text \<open>Functions that were inlined everywhere are dropped; a function without a call count is a panic.\<close>

definition keeps_function :: "(location \<Rightarrow> nat option) \<Rightarrow> symbol \<Rightarrow> symbol \<Rightarrow> leo_function \<Rightarrow> string + bool" where
  "keeps_function call_count unit_name name f =
     (case call_count \<lparr>loc_program = unit_name, loc_path = [name]\<rparr> of
        None \<Rightarrow> Inl ''unwrap''
      | Some n \<Rightarrow> Inr (case fn_variant f of Fn \<Rightarrow> 0 < n | FinalFn \<Rightarrow> False | _ \<Rightarrow> True))"

fun dce_keep ::
  "(location \<Rightarrow> nat option) \<Rightarrow> symbol \<Rightarrow> (symbol \<times> leo_function) list \<Rightarrow> string + (symbol \<times> leo_function) list" where
  "dce_keep call_count unit_name [] = Inr []"
| "dce_keep call_count unit_name ((name, f) # fs) =
     (case keeps_function call_count unit_name name f of
        Inl msg \<Rightarrow> Inl msg
      | Inr k \<Rightarrow>
          (case dce_keep call_count unit_name fs of
             Inl msg \<Rightarrow> Inl msg
           | Inr fs' \<Rightarrow> Inr (if k then (name, f) # fs' else fs')))"

fun dce_functions :: "(expression \<Rightarrow> bool) \<Rightarrow> (symbol \<times> leo_function) list \<Rightarrow> string + (symbol \<times> leo_function) list" where
  "dce_functions discard [] = Inr []"
| "dce_functions discard ((name, f) # fs) =
     (case dce_function discard f of
        Inl msg \<Rightarrow> Inl msg
      | Inr f' \<Rightarrow>
          (case dce_functions discard fs of Inl msg \<Rightarrow> Inl msg | Inr fs' \<Rightarrow> Inr ((name, f') # fs')))"

definition dce_program_scope ::
  "(expression \<Rightarrow> bool) \<Rightarrow> (location \<Rightarrow> nat option) \<Rightarrow> bool \<Rightarrow> program_scope \<Rightarrow> string + program_scope \<times> bool" where
  "dce_program_scope discard call_count is_custom scope =
     (case dce_keep call_count (sc_program scope) (sc_functions scope) of
        Inl msg \<Rightarrow> Inl msg
      | Inr kept \<Rightarrow>
          (case dce_functions discard kept of
             Inl msg \<Rightarrow> Inl msg
           | Inr fs \<Rightarrow>
               (case sc_constructor scope of
                  None \<Rightarrow> Inr (scope\<lparr>sc_functions := fs\<rparr>, False)
                | Some c \<Rightarrow>
                    (case dce_constructor discard is_custom c of
                       Inl msg \<Rightarrow> Inl msg
                     | Inr (c', err) \<Rightarrow> Inr (scope\<lparr>sc_functions := fs, sc_constructor := Some c'\<rparr>, err)))))"

end
