(* ===== verification/Leo_Runs.thy ===== *)
theory Leo_Runs
  imports Ssa_Props
begin

text \<open>Facts on the evaluation of expressions and on definitions, shared by the passes after static single assignment.\<close>

lemma bind_Some: "Option.bind x f = Some r \<longleftrightarrow> (\<exists>a. x = Some a \<and> f a = Some r)"
  by (cases x) auto

text \<open>Evaluation depends on the variables that are read.\<close>

lemma eval_cong:
  "\<forall>x\<in>set (expr_reads e). \<rho> x = \<rho>' x \<Longrightarrow> eval M comps e \<rho> w = eval M comps e \<rho>' w"
  "\<forall>x\<in>set (list_reads es). \<rho> x = \<rho>' x \<Longrightarrow> eval_list M comps es \<rho> w = eval_list M comps es \<rho>' w"
  "\<forall>x\<in>set (option_reads oe). \<rho> x = \<rho>' x \<Longrightarrow> eval_option M comps oe \<rho> w = eval_option M comps oe \<rho>' w"
  "\<forall>x\<in>set (fields_reads fs). \<rho> x = \<rho>' x \<Longrightarrow> eval_fields M comps fs \<rho> w = eval_fields M comps fs \<rho>' w"
  "\<forall>x\<in>set (kind_reads k). \<rho> x = \<rho>' x \<Longrightarrow> eval_kind M comps ifc net k \<rho> w = eval_kind M comps ifc net k \<rho>' w"
proof (induction e and es and oe and fs and k arbitrary: w and w and w and w and w ifc net
    rule: expr_reads_list_reads_option_reads_fields_reads_kind_reads.induct)
  case (25 i oe nid inits)
  then show ?case by (cases oe) (auto simp: eval_fields.simps intro!: Option.bind_option_cong)
qed (auto simp: eval.simps eval_list.simps eval_option.simps eval_fields.simps eval_kind.simps read_path_def ball_Un
    intro!: Option.bind_option_cong map_option_cong split: option.splits if_splits)

text \<open>Several names defined at once.\<close>

lemma bind_names_agree: "\<rho>' x = \<rho> x \<Longrightarrow> bind_names is vs \<rho>' x = bind_names is vs \<rho> x"
proof (induction "is" vs \<rho> arbitrary: \<rho>' rule: bind_names.induct)
  case (1 i "is" v vs \<rho>)
  have "(\<rho>'(ident_name i := v)) x = (\<rho>(ident_name i := v)) x" using 1(2) by simp
  then show ?case unfolding bind_names.simps by (rule 1(1))
qed simp_all

end
