(* ===== verification/Dead_Code_Props.thy ===== *)
theory Dead_Code_Props
  imports Dead_Code Leo_Runs
begin

text \<open>
  Dead code elimination keeps what functions compute.  The programs it is meant for are settled: async
  blocks, struct updates, assignments and loops are gone, and local paths spell the variable they denote.
\<close>

section \<open>Settled code\<close>

definition names_itself :: "path \<Rightarrow> bool" where
  "names_itself p \<longleftrightarrow> (case try_local_symbol p of Some x \<Rightarrow> x = ident_name (identifier_of p) | None \<Rightarrow> True)"

fun settled_type :: "leo_type \<Rightarrow> bool"
  and settled :: "expression \<Rightarrow> bool"
  and settled_field :: "field_initializer \<Rightarrow> bool"
  and settled_kind :: "dynamic_op_kind \<Rightarrow> bool"
where
  "settled_type (T_Array ty len) \<longleftrightarrow> settled_type ty \<and> settled len"
| "settled_type (T_Composite _ args) \<longleftrightarrow> list_all settled args"
| "settled_type (T_Future tys _ _) \<longleftrightarrow> list_all settled_type tys"
| "settled_type (T_Mapping k v) \<longleftrightarrow> settled_type k \<and> settled_type v"
| "settled_type (T_Optional ty) \<longleftrightarrow> settled_type ty"
| "settled_type (T_Tuple tys) \<longleftrightarrow> list_all settled_type tys"
| "settled_type (T_Vector ty) \<longleftrightarrow> settled_type ty"
| "settled_type _ \<longleftrightarrow> True"
| "settled (E_ArrayAccess array index _) \<longleftrightarrow> settled array \<and> settled index"
| "settled (E_Async _ _) \<longleftrightarrow> False"
| "settled (E_Array es _) \<longleftrightarrow> list_all settled es"
| "settled (E_Binary left right _ _) \<longleftrightarrow> settled left \<and> settled right"
| "settled (E_Intrinsic _ tys ins outs args _) \<longleftrightarrow>
     list_all settled_type tys \<and> list_all (\<lambda>m. settled_type (snd m)) ins \<and> list_all (\<lambda>m. settled_type (snd m)) outs \<and>
     list_all settled args"
| "settled (E_Call _ const_args args _) \<longleftrightarrow> list_all settled const_args \<and> list_all settled args"
| "settled (E_DynamicOp interface target network kind _) \<longleftrightarrow>
     settled_type interface \<and> settled target \<and> (case network of None \<Rightarrow> True | Some e \<Rightarrow> settled e) \<and> settled_kind kind"
| "settled (E_Cast e _ _) \<longleftrightarrow> settled e"
| "settled (E_Composite _ _ inits base _) \<longleftrightarrow> list_all settled_field inits \<and> base = None"
| "settled (E_Err _) \<longleftrightarrow> False"
| "settled (E_Path p) \<longleftrightarrow> names_itself p"
| "settled (E_Literal _) \<longleftrightarrow> True"
| "settled (E_MemberAccess inner _ _) \<longleftrightarrow> settled inner"
| "settled (E_Repeat e cnt _) \<longleftrightarrow> settled e \<and> settled cnt"
| "settled (E_Ternary c t f _) \<longleftrightarrow> settled c \<and> settled t \<and> settled f"
| "settled (E_Tuple es _) \<longleftrightarrow> list_all settled es"
| "settled (E_TupleAccess tuple _ _) \<longleftrightarrow> settled tuple"
| "settled (E_Unary receiver _ _) \<longleftrightarrow> settled receiver"
| "settled (E_Unit _) \<longleftrightarrow> True"
| "settled_field (Field_Init _ oe _) \<longleftrightarrow> (case oe of None \<Rightarrow> True | Some e \<Rightarrow> settled e)"
| "settled_kind (Dyn_Call _ args) \<longleftrightarrow> list_all settled args"
| "settled_kind (Dyn_Read _) \<longleftrightarrow> True"
| "settled_kind (Dyn_Op _ _ args) \<longleftrightarrow> list_all settled args"

fun settled_assert :: "assert_variant \<Rightarrow> bool" where
  "settled_assert (Assert e) \<longleftrightarrow> settled e"
| "settled_assert (AssertEq a b) \<longleftrightarrow> settled a \<and> settled b"
| "settled_assert (AssertNeq a b) \<longleftrightarrow> settled a \<and> settled b"

fun settled_statement :: "statement \<Rightarrow> bool"
  and settled_statements :: "statement list \<Rightarrow> bool"
  and settled_otherwise :: "statement option \<Rightarrow> bool"
where
  "settled_statement (S_Assert variant _) \<longleftrightarrow> settled_assert variant"
| "settled_statement (S_Assign _ _ _) \<longleftrightarrow> False"
| "settled_statement (S_Block (Block ss _)) \<longleftrightarrow> settled_statements ss"
| "settled_statement (S_Conditional c (Block ss _) otherwise _) \<longleftrightarrow>
     settled c \<and> settled_statements ss \<and> settled_otherwise otherwise"
| "settled_statement (S_Const _ _ ty e _) \<longleftrightarrow> settled_type ty \<and> settled e"
| "settled_statement (S_Definition _ _ e _) \<longleftrightarrow> settled e"
| "settled_statement (S_Expression e _) \<longleftrightarrow> settled e"
| "settled_statement (S_Iteration _ _ _ _ _ _ _) \<longleftrightarrow> False"
| "settled_statement (S_Return e _) \<longleftrightarrow> settled e"
| "settled_statements [] \<longleftrightarrow> True"
| "settled_statements (st # sts) \<longleftrightarrow> settled_statement st \<and> settled_statements sts"
| "settled_otherwise None \<longleftrightarrow> True"
| "settled_otherwise (Some st) \<longleftrightarrow> settled_statement st"

section \<open>Expressions\<close>

lemma dce_bind_Inr: "dce_bind m f u = Inr r \<longleftrightarrow> (\<exists>a u1. m u = Inr (a, u1) \<and> f a u1 = Inr r)"
  by (auto simp: dce_bind_def split: sum.splits prod.splits)

text \<open>\<open>keeps V m a\<close>: \<open>m\<close> returns \<open>a\<close> and marks the variables \<open>V\<close> as used.\<close>

definition keeps :: "symbol set \<Rightarrow> 'a dce \<Rightarrow> 'a \<Rightarrow> bool" where
  "keeps V m a \<longleftrightarrow> (\<forall>u. \<exists>u'. m u = Inr (a, u') \<and> u \<subseteq> u' \<and> V \<subseteq> u')"

lemma keeps_return: "keeps {} (dce_return a) a"
  by (auto simp: keeps_def dce_return_def)

lemma keeps_use: "keeps {x} (dce_use x) ()"
  by (auto simp: keeps_def dce_use_def)

lemma keeps_bind: "keeps V m a \<Longrightarrow> keeps W (f a) b \<Longrightarrow> keeps (V \<union> W) (dce_bind m f) b"
  unfolding keeps_def dce_bind_def
proof
  fix u assume m: "\<forall>u. \<exists>u'. m u = Inr (a, u') \<and> u \<subseteq> u' \<and> V \<subseteq> u'" and f: "\<forall>u. \<exists>u'. f a u = Inr (b, u') \<and> u \<subseteq> u' \<and> W \<subseteq> u'"
  from m obtain u1 where u1: "m u = Inr (a, u1)" "u \<subseteq> u1" "V \<subseteq> u1" by blast
  from f obtain u2 where "f a u1 = Inr (b, u2)" "u1 \<subseteq> u2" "W \<subseteq> u2" by blast
  with u1 show "\<exists>u'. (case m u of Inl e \<Rightarrow> Inl e | Inr (a, u') \<Rightarrow> f a u') = Inr (b, u') \<and> u \<subseteq> u' \<and> V \<union> W \<subseteq> u'" by auto
qed

lemma keeps_mono: "keeps V m a \<Longrightarrow> W \<subseteq> V \<Longrightarrow> keeps W m a"
  unfolding keeps_def by (metis order.trans)

text \<open>As rules that go through a chain of binds and collect what is left to be marked.\<close>

lemma keeps_step: "keeps V m a \<Longrightarrow> keeps (U - V) (f a) b \<Longrightarrow> keeps U (dce_bind m f) b"
  by (rule keeps_mono[OF keeps_bind]) auto

lemma keeps_done: "U = {} \<Longrightarrow> keeps U (dce_return a) a"
  by (simp add: keeps_return)

lemma keeps_exprs:
  "(\<And>e. e \<in> set es \<Longrightarrow> keeps (set (expr_reads e)) (dce_expr discard e) e) \<Longrightarrow>
     keeps (set (list_reads es)) (dce_exprs discard es) es"
proof (induction es)
  case (Cons e es)
  then have "keeps (set (expr_reads e)) (dce_expr discard e) e" "keeps (set (list_reads es)) (dce_exprs discard es) es" by auto
  then show ?case by (auto intro!: keeps_step keeps_done)
qed (simp add: keeps_return)

lemma keeps_types:
  "(\<And>t. t \<in> set tys \<Longrightarrow> keeps {} (dce_type discard t) t) \<Longrightarrow> keeps {} (dce_types discard tys) tys"
proof (induction tys)
  case (Cons t tys)
  then have "keeps {} (dce_type discard t) t" "keeps {} (dce_types discard tys) tys" by auto
  then show ?case by (auto intro!: keeps_step keeps_done)
qed (simp add: keeps_return)

lemma keeps_moded:
  "(\<And>m. m \<in> set ms \<Longrightarrow> keeps {} (dce_type discard (snd m)) (snd m)) \<Longrightarrow> keeps {} (dce_moded discard ms) ms"
proof (induction ms)
  case (Cons m ms)
  obtain a t where m: "m = (a, t)" by (cases m)
  from Cons have "keeps {} (dce_type discard (snd m)) (snd m)" "keeps {} (dce_moded discard ms) ms" by auto
  then show ?case using m by (auto intro!: keeps_step keeps_done)
qed (simp add: keeps_return)

definition keeps_field :: "(expression \<Rightarrow> bool) \<Rightarrow> field_initializer \<Rightarrow> bool" where
  "keeps_field discard f = (case f of Field_Init i oe n \<Rightarrow>
     (case oe of None \<Rightarrow> True | Some e \<Rightarrow> keeps (set (expr_reads e)) (dce_expr discard e) e))"

lemma keeps_fields:
  "(\<And>f. f \<in> set fs \<Longrightarrow> keeps_field discard f) \<Longrightarrow> keeps (set (fields_reads fs)) (dce_fields discard fs) fs"
proof (induction fs)
  case (Cons f fs)
  obtain i oe n where f: "f = Field_Init i oe n" by (cases f)
  from Cons have rest: "keeps (set (fields_reads fs)) (dce_fields discard fs) fs" and hd: "keeps_field discard f" by auto
  have "keeps (set (fields_reads [f])) (case oe of Some e \<Rightarrow> dce_bind (dce_expr discard e) (\<lambda>e'. dce_return (Some e'))
      | None \<Rightarrow> dce_bind (dce_use (ident_name i)) (\<lambda>_. dce_return None)) oe"
    using hd f keeps_use[of "ident_name i"] by (cases oe) (auto simp: keeps_field_def intro!: keeps_step keeps_done)
  then show ?case using rest f by (auto intro!: keeps_step keeps_done)
qed (simp add: keeps_return)

lemma keeps_settled:
  "settled_type ty \<Longrightarrow> keeps {} (dce_type discard ty) ty"
  "settled e \<Longrightarrow> keeps (set (expr_reads e)) (dce_expr discard e) e"
  "settled_field f \<Longrightarrow> keeps_field discard f"
  "settled_kind k \<Longrightarrow> keeps (set (kind_reads k)) (dce_kind discard k) k"
proof (induction ty and e and f and k rule: settled_type_settled_settled_field_settled_kind.induct)
  case (15 interface target network kind nid)
  have "keeps (set (option_reads network)) (dce_option discard network) network"
    using 15 by (cases network) (auto intro!: keeps_step keeps_done)
  with 15 show ?case by (auto simp del: dce_option.simps intro!: keeps_step keeps_done)
next
  case (19 p)
  then show ?case by (auto simp: names_itself_def intro!: keeps_step keeps_done keeps_use split: option.splits)
qed (auto simp: keeps_return keeps_field_def list_all_iff intro!: keeps_exprs keeps_types keeps_moded keeps_fields keeps_step keeps_done split: option.splits)

section \<open>Effects\<close>

text \<open>The operations that may be discarded.\<close>

fun quiet_head :: "op_head \<Rightarrow> bool" where
  "quiet_head (H_Call _ _) \<longleftrightarrow> False"
| "quiet_head (H_DynCall _ _ _) \<longleftrightarrow> False"
| "quiet_head (H_DynRead _ _ _) \<longleftrightarrow> False"
| "quiet_head (H_DynOp _ _ _ _) \<longleftrightarrow> False"
| "quiet_head (H_Cast _) \<longleftrightarrow> False"
| "quiet_head (H_Intrinsic name tys _ _) \<longleftrightarrow>
     (case intrinsic_from_symbol name tys of None \<Rightarrow> False | Some i \<Rightarrow> intrinsic_can_be_discarded i)"
| "quiet_head _ \<longleftrightarrow> True"

text \<open>Operators, accesses, constructions and the discardable intrinsics do not change the world.\<close>

definition quiet :: "('v, 'w) meaning \<Rightarrow> bool" where
  "quiet M \<longleftrightarrow> (\<forall>h vs w v w'. quiet_head h \<longrightarrow> m_op M h vs w = Some (v, w') \<longrightarrow> w' = w)"

lemma quietD: "quiet M \<Longrightarrow> m_op M h vs w = Some (v, w') \<Longrightarrow> quiet_head h \<Longrightarrow> w' = w"
  by (auto simp: quiet_def)

lemma quiet_eval:
  assumes M: "quiet M"
  shows "expression_can_be_discarded gt st e \<Longrightarrow> settled e \<Longrightarrow> eval M comps e \<rho> w = Some (v, w') \<Longrightarrow> w' = w"
    and "list_all (\<lambda>e. expression_can_be_discarded gt st e \<and> settled e) es \<Longrightarrow> eval_list M comps es \<rho> w = Some (vs, w') \<Longrightarrow> w' = w"
    and "oe = None \<Longrightarrow> eval_option M comps oe \<rho> w = Some (ov, w') \<Longrightarrow> w' = w"
    and "list_all (\<lambda>f. case f of Field_Init _ (Some e) _ \<Rightarrow> expression_can_be_discarded gt st e \<and> settled e | _ \<Rightarrow> True) fs \<Longrightarrow>
       eval_fields M comps fs \<rho> w = Some (nvs, w') \<Longrightarrow> w' = w"
    and "kind_reads k = kind_reads k"
proof (induction e and es and oe and fs and k arbitrary: w v w' and w vs w' and w ov w' and w nvs w'
    rule: expr_reads_list_reads_option_reads_fields_reads_kind_reads.induct)
  case (9 path const_args inits base nid)
  have "list_all (\<lambda>f. case f of Field_Init _ (Some e) _ \<Rightarrow> expression_can_be_discarded gt st e \<and> settled e | _ \<Rightarrow> True) inits"
    using 9(3,4) by (auto simp: expression_can_be_discarded_def list_all_iff list_ex_iff split: field_initializer.splits option.splits)
  with 9 show ?case
    by (auto simp: eval.simps eval_option.simps bind_Some build_composite_def dest!: quietD[OF M])
next
  case (17 name tys ins outs args nid)
  then show ?case
    by (auto simp: eval.simps bind_Some expression_can_be_discarded_def list_all_iff list_ex_iff split: option.splits dest!: quietD[OF M])
next
  case (25 i oe nid inits)
  then show ?case by (cases oe) (fastforce simp: eval_fields.simps bind_Some)+
qed (fastforce simp: eval.simps eval_list.simps eval_option.simps eval_fields.simps bind_Some expression_can_be_discarded_def
    list_all_iff list_ex_iff split: if_splits dest!: quietD[OF M])+

section \<open>Statements\<close>

text \<open>
  Along a run, the expressions that the pass may discard do not halt.  Every run that ends without an error is
  such a run; for the others it says that \<^verbatim>\<open>is_pure\<close> is right about the values at hand.
\<close>

fun discards_run ::
    "('v, 'w) meaning \<Rightarrow> (location \<rightharpoonup> composite) \<Rightarrow> (expression \<Rightarrow> bool) \<Rightarrow> statement \<Rightarrow> 'v env \<Rightarrow> 'w \<Rightarrow> bool"
  and discards_runs ::
    "('v, 'w) meaning \<Rightarrow> (location \<rightharpoonup> composite) \<Rightarrow> (expression \<Rightarrow> bool) \<Rightarrow> statement list \<Rightarrow> 'v env \<Rightarrow> 'w \<Rightarrow> bool"
  and discards_otherwise ::
    "('v, 'w) meaning \<Rightarrow> (location \<rightharpoonup> composite) \<Rightarrow> (expression \<Rightarrow> bool) \<Rightarrow> statement option \<Rightarrow> 'v env \<Rightarrow> 'w \<Rightarrow> bool"
where
  "discards_run M comps discard (S_Block (Block ss _)) \<rho> w \<longleftrightarrow> discards_runs M comps discard ss \<rho> w"
| "discards_run M comps discard (S_Conditional condition (Block ss _) otherwise _) \<rho> w \<longleftrightarrow>
     (case eval M comps condition \<rho> w of
        None \<Rightarrow> True
      | Some (v, w1) \<Rightarrow>
          (case m_truth M v of
             None \<Rightarrow> True
           | Some True \<Rightarrow> discards_runs M comps discard ss \<rho> w1
           | Some False \<Rightarrow> discards_otherwise M comps discard otherwise \<rho> w1))"
| "discards_run M comps discard (S_Definition place _ e _) \<rho> w \<longleftrightarrow>
     (discard e \<longrightarrow> (case eval M comps e \<rho> w of None \<Rightarrow> False | Some (v, _) \<Rightarrow> define_place M place v \<rho> \<noteq> None))"
| "discards_run M comps discard (S_Expression e _) \<rho> w \<longleftrightarrow> (discard e \<longrightarrow> eval M comps e \<rho> w \<noteq> None)"
| "discards_run M comps discard _ \<rho> w \<longleftrightarrow> True"
| "discards_runs M comps discard [] \<rho> w \<longleftrightarrow> True"
| "discards_runs M comps discard (st # sts) \<rho> w \<longleftrightarrow>
     discards_run M comps discard st \<rho> w \<and>
     (case exec M comps st \<rho> w of Running \<rho>1 w1 \<Rightarrow> discards_runs M comps discard sts \<rho>1 w1 | _ \<Rightarrow> True)"
| "discards_otherwise M comps discard None \<rho> w \<longleftrightarrow> True"
| "discards_otherwise M comps discard (Some st) \<rho> w \<longleftrightarrow> discards_run M comps discard st \<rho> w"

text \<open>The two runs agree on the variables that are used later.\<close>

fun same_outcome :: "symbol set \<Rightarrow> ('v, 'w) outcome \<Rightarrow> ('v, 'w) outcome \<Rightarrow> bool" where
  "same_outcome u Halted r \<longleftrightarrow> r = Halted"
| "same_outcome u (Returned v w) r \<longleftrightarrow> r = Returned v w"
| "same_outcome u (Running \<rho> w) r \<longleftrightarrow> (\<exists>\<rho>'. r = Running \<rho>' w \<and> (\<forall>x\<in>u. \<rho>' x = \<rho> x))"

lemma same_outcome_mono: "same_outcome u r r' \<Longrightarrow> v \<subseteq> u \<Longrightarrow> same_outcome v r r'"
  by (cases r) auto

lemma exec_dummy: "is_removable st \<Longrightarrow> exec M comps st \<rho> w = Running \<rho> w"
  by (cases st rule: statement_is_empty.cases) (auto simp: is_removable_def binary_halts_def binary_halts_on_integers_def)

lemma keepsE:
  assumes "keeps V m a" "m u = Inr (b, u')" shows "b = a" "u \<subseteq> u'" "V \<subseteq> u'"
  using assms unfolding keeps_def by (metis Inr_inject prod.inject)+

lemma keeps_assert: "settled_assert v \<Longrightarrow> keeps (set (assert_reads v)) (dce_assert discard v) v"
  by (cases v) (auto intro!: keeps_step keeps_done keeps_settled)

lemma check_assert_cong:
  assumes "\<forall>x\<in>set (assert_reads v). \<rho> x = \<rho>' x" "\<forall>x\<in>u. \<rho>' x = \<rho> x"
  shows "same_outcome u (check_assert M comps v \<rho> w) (check_assert M comps v \<rho>' w)"
proof (cases v)
  case (Assert e)
  then have "eval M comps e \<rho> w = eval M comps e \<rho>' w" using assms by (intro eval_cong) simp
  then show ?thesis using assms Assert by (auto simp: check_assert_def split: option.splits)
next
  case (AssertEq a b)
  then have "eval_list M comps [a, b] \<rho> w = eval_list M comps [a, b] \<rho>' w" using assms by (intro eval_cong) simp
  then show ?thesis using assms AssertEq by (auto simp: check_assert_def split: option.splits)
next
  case (AssertNeq a b)
  then have "eval_list M comps [a, b] \<rho> w = eval_list M comps [a, b] \<rho>' w" using assms by (intro eval_cong) simp
  then show ?thesis using assms AssertNeq by (auto simp: check_assert_def split: option.splits)
qed

text \<open>Settled code is reconstructed without a panic, and no used variable is forgotten.\<close>

definition grows :: "'a dce \<Rightarrow> bool" where
  "grows m \<longleftrightarrow> (\<forall>u. \<exists>a u'. m u = Inr (a, u') \<and> u \<subseteq> u')"

lemma grows_return: "grows (dce_return a)"
  by (auto simp: grows_def dce_return_def)

lemma grows_bind:
  assumes "grows m" "\<And>a. grows (f a)" shows "grows (dce_bind m f)"
  unfolding grows_def dce_bind_def
proof
  fix u
  from assms(1) obtain a u1 where m: "m u = Inr (a, u1)" "u \<subseteq> u1" unfolding grows_def by blast
  from assms(2) obtain b u2 where "f a u1 = Inr (b, u2)" "u1 \<subseteq> u2" unfolding grows_def by blast
  with m show "\<exists>a u'. (case m u of Inl e \<Rightarrow> Inl e | Inr (a, u') \<Rightarrow> f a u') = Inr (a, u') \<and> u \<subseteq> u'" by auto
qed

lemma grows_keeps: "keeps V m a \<Longrightarrow> grows m"
  unfolding keeps_def grows_def by blast

lemma grows_used: "grows dce_used"
  by (auto simp: grows_def dce_used_def)

lemma dce_grows:
  "settled_statement st \<Longrightarrow> grows (dce_statement discard st)"
  "settled_statements sts \<Longrightarrow> grows (dce_statements discard sts)"
  "settled_otherwise oth \<Longrightarrow> grows (dce_otherwise discard oth)"
proof (induction st and sts and oth rule: settled_statement_settled_statements_settled_otherwise.induct)
  case (6 place ty e nid)
  then have "grows (dce_expr discard e)" by (simp add: grows_keeps[OF keeps_settled(2)])
  then show ?case by (simp add: Let_def) (intro grows_bind grows_used; simp add: grows_bind grows_return)
next
  case (1 variant nid)
  then show ?case by (simp add: grows_bind grows_return grows_keeps[OF keeps_assert])
next
  case (5 ex place ty e nid)
  then have "grows (dce_type discard ty)" "grows (dce_expr discard e)" by (auto intro: grows_keeps keeps_settled(1,2))
  then show ?case by (simp add: grows_bind grows_return)
qed (simp_all add: grows_bind grows_return grows_keeps[OF keeps_settled(2)])

lemma growsE: "grows m \<Longrightarrow> m u = Inr (a, u') \<Longrightarrow> u \<subseteq> u'"
  unfolding grows_def by (metis Inr_inject prod.inject)

definition place_names :: "definition_place \<Rightarrow> symbol set" where
  "place_names place = (case place of Single i \<Rightarrow> {ident_name i} | Multiple is \<Rightarrow> ident_name ` set is)"

lemma define_place_other:
  "define_place M place v \<rho> = Some \<rho>1 \<Longrightarrow> x \<notin> place_names place \<Longrightarrow> \<rho>1 x = \<rho> x"
  by (auto simp: define_place_def place_names_def bind_Some image_iff split: definition_place.splits if_splits
      intro!: bind_names_other)

lemma define_place_agree:
  "\<forall>x\<in>u. \<rho>' x = \<rho> x \<Longrightarrow> same_outcome u (run_with (define_place M place v \<rho>) w) (run_with (define_place M place v \<rho>') w)"
  by (auto simp: define_place_def run_with_def bind_names_agree split: definition_place.splits option.splits bind_splits)

text \<open>The run of the eliminated code follows the run of the code.\<close>

lemma dce_follows:
  assumes quiet: "\<And>e \<rho> w v w'. discard e \<Longrightarrow> settled e \<Longrightarrow> eval M comps e \<rho> w = Some (v, w') \<Longrightarrow> w' = w"
  shows "settled_statement st \<Longrightarrow> dce_statement discard st u = Inr (st', u') \<Longrightarrow> discards_run M comps discard st \<rho> w \<Longrightarrow>
      \<forall>x\<in>u'. \<rho>' x = \<rho> x \<Longrightarrow> same_outcome u (exec M comps st \<rho> w) (exec M comps st' \<rho>' w)"
    and "settled_statements sts \<Longrightarrow> dce_statements discard sts u = Inr (sts', u') \<Longrightarrow> discards_runs M comps discard sts \<rho> w \<Longrightarrow>
      \<forall>x\<in>u'. \<rho>' x = \<rho> x \<Longrightarrow> same_outcome u (exec_list M comps sts \<rho> w) (exec_list M comps sts' \<rho>' w)"
    and "settled_otherwise oth \<Longrightarrow> dce_otherwise discard oth u = Inr (oth', u') \<Longrightarrow> discards_otherwise M comps discard oth \<rho> w \<Longrightarrow>
      \<forall>x\<in>u'. \<rho>' x = \<rho> x \<Longrightarrow> same_outcome u (exec_option M comps oth \<rho> w) (exec_option M comps oth' \<rho>' w)"
proof (induction st and sts and oth arbitrary: u u' st' \<rho> \<rho>' w and u u' sts' \<rho> \<rho>' w and u u' oth' \<rho> \<rho>' w
    rule: settled_statement_settled_statements_settled_otherwise.induct)
  case (1 variant nid)
  then have k: "keeps (set (assert_reads variant)) (dce_assert discard variant) variant" by (simp add: keeps_assert)
  from 1(2) obtain v where v: "dce_assert discard variant u = Inr (v, u')" "st' = S_Assert v nid"
    by (auto simp: dce_bind_Inr dce_return_def)
  note this keepsE[OF k v(1)]
  with 1(4) show ?case by (auto intro!: check_assert_cong)
next
  case (3 ss nid)
  then show ?case by (auto simp: dce_bind_Inr dce_return_def)
next
  case (4 c ss nid otherwise nid')
  from 4(3) have c: "keeps (set (expr_reads c)) (dce_expr discard c) c" by (simp add: keeps_settled)
  from 4(4) obtain c' u1 ss' u2 oth' where d: "dce_expr discard c u = Inr (c', u1)" "dce_statements discard ss u1 = Inr (ss', u2)"
      "dce_otherwise discard otherwise u2 = Inr (oth', u')" "st' = S_Conditional c' (Block ss' nid) oth' nid'"
    by (auto simp: dce_bind_Inr dce_return_def)
  note c = keepsE[OF c d(1)]
  have g: "u1 \<subseteq> u2" "u2 \<subseteq> u'" using dce_grows growsE d 4(3) by (meson settled_statement.simps(4))+
  then have "set (expr_reads c) \<subseteq> u'" using c by blast
  then have "\<forall>x\<in>set (expr_reads c). \<rho> x = \<rho>' x" using 4(6) by auto
  then have e: "eval M comps c \<rho> w = eval M comps c \<rho>' w" by (rule eval_cong)
  have "same_outcome u (exec_list M comps ss \<rho> w1) (exec_list M comps ss' \<rho>' w1)" if "discards_runs M comps discard ss \<rho> w1" for w1
    by (rule same_outcome_mono[OF 4(1)[OF _ d(2) that]]) (use 4(3,6) g c in auto)
  moreover have "same_outcome u (exec_option M comps otherwise \<rho> w1) (exec_option M comps oth' \<rho>' w1)"
    if "discards_otherwise M comps discard otherwise \<rho> w1" for w1
    by (rule same_outcome_mono[OF 4(2)[OF _ d(3) that]]) (use 4(3,6) g c in auto)
  ultimately show ?case using 4(5) d(4) c e by (auto split: option.splits bool.splits)
next
  case (5 ex place ty e nid)
  then have k: "keeps {} (dce_type discard ty) ty" "keeps (set (expr_reads e)) (dce_expr discard e) e" by (auto simp: keeps_settled)
  from 5(2) obtain ty' u1 e' where d: "dce_type discard ty u = Inr (ty', u1)" "dce_expr discard e u1 = Inr (e', u')"
      "st' = S_Const ex place ty' e' nid" by (auto simp: dce_bind_Inr dce_return_def)
  then show ?case using keepsE[OF k(1) d(1)] keepsE[OF k(2) d(2)] 5(4) by auto
next
  case (6 place ty e nid)
  have e: "keeps (set (expr_reads e)) (dce_expr discard e) e" using 6(1) by (simp add: keeps_settled)
  show ?case
  proof (cases "discard e \<and> place_names place \<inter> u = {}")
    case True
    then have st': "st' = statement_dummy" "u' = u" using 6(2)
      by (auto simp: dce_bind_Inr dce_used_def dce_return_def Let_def place_names_def list_ex_iff split: definition_place.splits if_splits)
    from 6(3) True obtain v w1 \<rho>1 where r: "eval M comps e \<rho> w = Some (v, w1)" "define_place M place v \<rho> = Some \<rho>1"
      by (auto split: option.splits)
    have "w1 = w" using quiet r 6(1) True by auto
    moreover have "\<forall>x\<in>u. \<rho>1 x = \<rho> x" using True define_place_other[OF r(2)] by blast
    ultimately show ?thesis using r st' 6(4) by (auto simp: run_with_def statement_dummy_def)
  next
    case False
    then obtain e' where d: "dce_expr discard e u = Inr (e', u')" "st' = S_Definition place ty e' nid" using 6(2)
      by (auto simp: dce_bind_Inr dce_used_def dce_return_def Let_def place_names_def list_ex_iff split: definition_place.splits if_splits)
    note k = keepsE[OF e d(1)]
    then have "eval M comps e \<rho> w = eval M comps e \<rho>' w" using 6(4) by (intro eval_cong) auto
    then show ?thesis using d k 6(4) by (auto intro!: define_place_agree split: option.splits)
  qed
next
  case (7 e nid)
  have e: "keeps (set (expr_reads e)) (dce_expr discard e) e" using 7(1) by (simp add: keeps_settled)
  show ?case
  proof (cases "discard e")
    case True
    then have "st' = statement_dummy" "u' = u" using 7(2) by (auto simp: dce_return_def)
    moreover obtain v w1 where r: "eval M comps e \<rho> w = Some (v, w1)" using 7(3) True by auto
    moreover have "w1 = w" using quiet r 7(1) True by auto
    ultimately show ?thesis using 7(4) by (auto simp: statement_dummy_def)
  next
    case False
    then obtain e' where d: "dce_expr discard e u = Inr (e', u')" "st' = S_Expression e' nid" using 7(2)
      by (auto simp: dce_bind_Inr dce_return_def)
    note k = keepsE[OF e d(1)]
    then have "eval M comps e \<rho> w = eval M comps e \<rho>' w" using 7(4) by (intro eval_cong) auto
    then show ?thesis using d k 7(4) by (auto split: option.splits)
  qed
next
  case (9 e nid)
  have e: "keeps (set (expr_reads e)) (dce_expr discard e) e" using 9(1) by (simp add: keeps_settled)
  from 9(2) obtain e' where d: "dce_expr discard e u = Inr (e', u')" "st' = S_Return e' nid"
    by (auto simp: dce_bind_Inr dce_return_def)
  note k = keepsE[OF e d(1)]
  then have "eval M comps e \<rho> w = eval M comps e \<rho>' w" using 9(4) by (intro eval_cong) auto
  then show ?case using d k by (auto split: option.splits)
next
  case (11 st sts)
  from 11(4) obtain sts1 u1 st1 where d: "dce_statements discard sts u = Inr (sts1, u1)" "dce_statement discard st u1 = Inr (st1, u')"
      "sts' = (if is_removable st1 then sts1 else st1 # sts1)"
    by (auto simp: dce_bind_Inr dce_return_def)
  have hd: "same_outcome u1 (exec M comps st \<rho> w) (exec M comps st1 \<rho>' w)"
    using 11(1)[OF _ d(2)] 11(3,5,6) by auto
  have l: "exec_list M comps sts' \<rho>' w = continue_with (exec M comps st1 \<rho>' w) (exec_list M comps sts1)"
    using d(3) by (auto simp: exec_dummy)
  show ?case
  proof (cases "exec M comps st \<rho> w")
    case (Running \<rho>1 w1)
    with hd obtain \<rho>2 where "exec M comps st1 \<rho>' w = Running \<rho>2 w1" "\<forall>x\<in>u1. \<rho>2 x = \<rho>1 x" by auto
    then show ?thesis using 11(2)[OF _ d(1)] 11(3,5) Running l by auto
  qed (use hd l in auto)
next
  case (13 st)
  then show ?case by (auto simp: dce_bind_Inr dce_return_def)
qed (auto simp: dce_panic_def dce_return_def)

lemma not_halted_discards:
  "exec M comps st \<rho> w \<noteq> Halted \<Longrightarrow> discards_run M comps discard st \<rho> w"
  "exec_list M comps sts \<rho> w \<noteq> Halted \<Longrightarrow> discards_runs M comps discard sts \<rho> w"
  "exec_option M comps oth \<rho> w \<noteq> Halted \<Longrightarrow> discards_otherwise M comps discard oth \<rho> w"
proof (induction M comps discard st \<rho> w and M comps discard sts \<rho> w and M comps discard oth \<rho> w
    rule: discards_run_discards_runs_discards_otherwise.induct)
qed (auto simp: run_with_def continue_with_def split: option.splits bool.splits outcome.splits)

section \<open>One pass is enough\<close>

lemma dce_again:
  "settled_statement st \<Longrightarrow> dce_statement discard st u = Inr (st', u') \<Longrightarrow> dce_statement discard st' u = Inr (st', u')"
  "settled_statements sts \<Longrightarrow> dce_statements discard sts u = Inr (sts', u') \<Longrightarrow> dce_statements discard sts' u = Inr (sts', u')"
  "settled_otherwise oth \<Longrightarrow> dce_otherwise discard oth u = Inr (oth', u') \<Longrightarrow> dce_otherwise discard oth' u = Inr (oth', u')"
proof (induction st and sts and oth arbitrary: u u' st' and u u' sts' and u u' oth'
    rule: settled_statement_settled_statements_settled_otherwise.induct)
  case (1 variant nid)
  from 1(2) obtain a where d: "dce_assert discard variant u = Inr (a, u')" "st' = S_Assert a nid"
    by (auto simp: dce_bind_Inr dce_return_def)
  then have "a = variant" using keepsE(1)[OF keeps_assert] 1(1) by simp
  with d show ?case by (simp add: dce_bind_def dce_return_def)
next
  case (4 c ss nid otherwise nid')
  from 4(4) obtain a u1 ss' u2 oth' where d: "dce_expr discard c u = Inr (a, u1)" "dce_statements discard ss u1 = Inr (ss', u2)"
      "dce_otherwise discard otherwise u2 = Inr (oth', u')" "st' = S_Conditional a (Block ss' nid) oth' nid'"
    by (auto simp: dce_bind_Inr dce_return_def)
  then have "a = c" using keepsE(1)[OF keeps_settled(2)] 4(3) by simp
  with d 4(1)[OF _ d(2)] 4(2)[OF _ d(3)] 4(3) show ?case by (simp add: dce_bind_def dce_return_def)
next
  case (5 ex place ty e nid)
  from 5(2) obtain ty' u1 a where d: "dce_type discard ty u = Inr (ty', u1)" "dce_expr discard e u1 = Inr (a, u')"
      "st' = S_Const ex place ty' a nid" by (auto simp: dce_bind_Inr dce_return_def)
  then have "ty' = ty" "a = e" using keepsE(1)[OF keeps_settled(1)] keepsE(1)[OF keeps_settled(2)] 5(1) by simp_all
  with d show ?case by (simp add: dce_bind_def dce_return_def)
next
  case (6 place ty e nid)
  have a: "a = e" if "dce_expr discard e u = Inr (a, u')" for a using that keepsE(1)[OF keeps_settled(2)] 6(1) by simp
  show ?case
  proof (cases "st' = statement_dummy")
    case True
    then show ?thesis using 6(2)
      by (auto simp: dce_bind_def dce_return_def dce_used_def Let_def statement_dummy_def split: if_splits sum.splits prod.splits)
  next
    case False
    then obtain b where "dce_expr discard e u = Inr (b, u')" "st' = S_Definition place ty b nid"
      using 6(2) by (auto simp: dce_bind_Inr dce_return_def dce_used_def Let_def split: if_splits)
    then show ?thesis using 6(2) a by simp
  qed
next
  case (7 e nid)
  have a: "a = e" if "dce_expr discard e u = Inr (a, u')" for a using that keepsE(1)[OF keeps_settled(2)] 7(1) by simp
  show ?case
  proof (cases "discard e")
    case True
    then show ?thesis using 7(2) by (auto simp: dce_bind_def dce_return_def statement_dummy_def)
  next
    case False
    then obtain b where "dce_expr discard e u = Inr (b, u')" "st' = S_Expression b nid"
      using 7(2) by (auto simp: dce_bind_Inr dce_return_def)
    then show ?thesis using 7(2) a by simp
  qed
next
  case (9 e nid)
  from 9(2) obtain a where d: "dce_expr discard e u = Inr (a, u')" "st' = S_Return a nid"
    by (auto simp: dce_bind_Inr dce_return_def)
  then have "a = e" using keepsE(1)[OF keeps_settled(2)] 9(1) by simp
  with d show ?case by (simp add: dce_bind_def dce_return_def)
next
  case (11 st sts)
  from 11(4) obtain sts1 u1 st1 where d: "dce_statements discard sts u = Inr (sts1, u1)" "dce_statement discard st u1 = Inr (st1, u')"
      "sts' = (if is_removable st1 then sts1 else st1 # sts1)"
    by (auto simp: dce_bind_Inr dce_return_def)
  have "dce_statements discard sts1 u = Inr (sts1, u1)" "dce_statement discard st1 u1 = Inr (st1, u')"
    using 11(2)[OF _ d(1)] 11(1)[OF _ d(2)] 11(3) by auto
  moreover have "u' = u1" if "is_removable st1" using that calculation(2)
    by (cases st1 rule: statement_is_empty.cases) (auto simp: is_removable_def dce_bind_def dce_return_def)
  ultimately show ?case using d(3) by (auto simp: dce_bind_def dce_return_def)
next
  case (3 ss nid)
  from 3(3) obtain ss' where d: "dce_statements discard ss u = Inr (ss', u')" "st' = S_Block (Block ss' nid)"
    by (auto simp: dce_bind_Inr dce_return_def)
  with 3(1)[OF _ d(1)] 3(2) show ?case by (simp add: dce_bind_def dce_return_def)
next
  case (13 st)
  from 13(3) obtain st1 where d: "dce_statement discard st u = Inr (st1, u')" "oth' = Some st1"
    by (auto simp: dce_bind_Inr dce_return_def)
  with 13(1)[OF _ d(1)] 13(2) show ?case by (simp add: dce_bind_def dce_return_def)
qed (simp_all add: dce_bind_def dce_return_def dce_panic_def)

section \<open>Functions\<close>

definition settled_function :: "leo_function \<Rightarrow> bool" where
  "settled_function f \<longleftrightarrow> (case fn_block f of Block ss _ \<Rightarrow> settled_statements ss)"

definition discards_function ::
  "('v, 'w) meaning \<Rightarrow> (location \<rightharpoonup> composite) \<Rightarrow> (expression \<Rightarrow> bool) \<Rightarrow> leo_function \<Rightarrow> 'v list \<Rightarrow> 'v env \<Rightarrow> 'w \<Rightarrow> bool" where
  "discards_function M comps discard f args \<rho> w \<longleftrightarrow>
     (case fn_block f of Block ss _ \<Rightarrow>
        discards_runs M comps discard ss (bind_names (map in_identifier (fn_input f)) args \<rho>) w)"

lemma dce_function_parts:
  assumes "settled_function f" "fn_block f = Block ss nid"
  obtains ss' u where "dce_statements discard ss {} = Inr (ss', u)" "dce_function discard f = Inr (f\<lparr>fn_block := Block ss' nid\<rparr>)"
proof -
  have "grows (dce_statements discard ss)" using assms dce_grows(2) by (simp add: settled_function_def)
  then obtain ss' u where "dce_statements discard ss {} = Inr (ss', u)" unfolding grows_def by blast
  then show ?thesis using assms(2) by (intro that) (auto simp: dce_function_def dce_bind_def dce_return_def)
qed

lemma same_outcome_finish: "same_outcome u r r' \<Longrightarrow> finish M r' = finish M r"
  by (cases r) auto

lemma run_discards: "run_function M comps f args \<rho> w = Some r \<Longrightarrow> discards_function M comps discard f args \<rho> w"
  by (cases "fn_block f") (auto simp: run_function_def discards_function_def split: if_splits intro!: not_halted_discards)

lemma dce_function_runs:
  assumes M: "quiet M" and f: "settled_function f" and d: "dce_function (expression_can_be_discarded gt storage) f = Inr f'"
    and "discards_function M comps (expression_can_be_discarded gt storage) f args \<rho> w \<or> run_function M comps f args \<rho> w \<noteq> None"
  shows "run_function M comps f' args \<rho> w = run_function M comps f args \<rho> w"
proof -
  have run: "discards_function M comps (expression_can_be_discarded gt storage) f args \<rho> w"
    using assms(4) run_discards by fastforce
  obtain ss nid where b: "fn_block f = Block ss nid" by (cases "fn_block f")
  obtain ss' u where ss': "dce_statements (expression_can_be_discarded gt storage) ss {} = Inr (ss', u)"
      "f' = f\<lparr>fn_block := Block ss' nid\<rparr>"
    using dce_function_parts[OF f b] d by (metis Inr_inject)
  have "settled_statements ss" using f b by (simp add: settled_function_def)
  then have "same_outcome {} (exec_list M comps ss (bind_names (map in_identifier (fn_input f)) args \<rho>) w)
      (exec_list M comps ss' (bind_names (map in_identifier (fn_input f)) args \<rho>) w)"
    using ss' run b quiet_eval(1)[OF M] by (intro dce_follows(2)) (auto simp: discards_function_def)
  then show ?thesis using ss' b by (simp add: run_function_def same_outcome_finish)
qed

lemma dce_functions_runs:
  assumes "quiet M"
  shows "list_all (settled_function \<circ> snd) fs \<Longrightarrow>
    \<exists>fs'. dce_functions (expression_can_be_discarded gt storage) fs = Inr fs' \<and>
      list_all2 (\<lambda>(name, f) (name', f'). name' = name \<and>
        (\<forall>args \<rho> w. discards_function M comps (expression_can_be_discarded gt storage) f args \<rho> w \<or> run_function M comps f args \<rho> w \<noteq> None \<longrightarrow>
           run_function M comps f' args \<rho> w = run_function M comps f args \<rho> w)) fs fs'"
proof (induction fs)
  case (Cons nf fs)
  obtain name f where nf: "nf = (name, f)" by (cases nf)
  with Cons have f: "settled_function f" by simp
  obtain ss nid where b: "fn_block f = Block ss nid" by (cases "fn_block f")
  obtain f' where "dce_function (expression_can_be_discarded gt storage) f = Inr f'" using dce_function_parts[OF f b] by metis
  then show ?case using Cons nf dce_function_runs[OF assms f] by auto
qed simp

lemma dce_keep_counted:
  "\<forall>(name, f)\<in>set fs. call_count \<lparr>loc_program = prog, loc_path = [name]\<rparr> \<noteq> None \<Longrightarrow>
     dce_keep call_count prog fs =
       Inr (filter (\<lambda>(name, f). fn_variant f \<noteq> FinalFn \<and>
         (fn_variant f = Fn \<longrightarrow> call_count \<lparr>loc_program = prog, loc_path = [name]\<rparr> \<noteq> Some 0)) fs)"
  by (induction fs) (auto simp: keeps_function_def split: variant.splits)

section \<open>An example\<close>

text \<open>The world counts the calls.\<close>

definition counting_op :: "op_head \<Rightarrow> int list \<Rightarrow> nat \<Rightarrow> (int \<times> nat) option" where
  "counting_op h vs w =
     (case h of
        H_Binary _ \<Rightarrow> Some (sum_list vs, w)
      | H_Composite _ _ \<Rightarrow> Some (sum_list vs, w)
      | H_Call _ _ \<Rightarrow> Some (7, Suc w)
      | _ \<Rightarrow> None)"

definition counting :: "(int, nat) meaning" where
  "counting =
     \<lparr>m_literal = (\<lambda>_. 1), m_unit = 0, m_global = (\<lambda>_. 0), m_self = (\<lambda>_ _. 0), m_member = (\<lambda>_ v. Some v), m_op = counting_op,
      m_truth = (\<lambda>v. Some (v \<noteq> 0)), m_equal = (=), m_untuple = (\<lambda>_. None), m_set = (\<lambda>_ _ v. Some v)\<rparr>"

lemma quiet_counting: "quiet counting"
  unfolding quiet_def
proof (intro allI impI)
  fix h vs w v w' assume "quiet_head h" "m_op counting h vs w = Some (v, w')"
  then show "w' = w" by (cases h) (auto simp: counting_def counting_op_def)
qed

definition dead_function :: leo_function where
  "dead_function =
     \<lparr>fn_variant = EntryPoint, fn_identifier = \<lparr>ident_name = ''main'', ident_id = 1\<rparr>,
      fn_input = [\<lparr>in_identifier = \<lparr>ident_name = ''x'', ident_id = 2\<rparr>, in_mode = Mode_None, in_type = T_Field, in_id = 3\<rparr>],
      fn_output_type = T_Field,
      fn_block = Block
        [S_Definition (Single \<lparr>ident_name = ''y'', ident_id = 4\<rparr>) None (E_Call (path_of_ident \<lparr>ident_name = ''f'', ident_id = 5\<rparr>) [] [] 6) 7,
         S_Definition (Single \<lparr>ident_name = ''z'', ident_id = 8\<rparr>) None (E_Binary (var ''x'' 9) (var ''y'' 10) Eq 11) 12,
         S_Definition (Single \<lparr>ident_name = ''u'', ident_id = 13\<rparr>) None (E_Binary (var ''z'' 14) (var ''x'' 15) Neq 16) 17,
         S_Return (var ''x'' 18) 19] 20,
      fn_id = 21\<rparr>"

definition dead_scope :: program_scope where
  "dead_scope = \<lparr>sc_program = ''main'', sc_composites = [],
     sc_functions = [(''main'', dead_function), (''g'', dead_function\<lparr>fn_variant := Fn\<rparr>)], sc_constructor = None\<rparr>"

lemmas dead_defs = dead_function_def dead_scope_def var_def to_local_def path_of_ident_def path_new_def

lemma dead_settled: "settled_function dead_function"
  by (simp add: settled_function_def dead_defs names_itself_def try_local_symbol_def)

lemma dead_run: "run_function counting comps dead_function [5] (\<lambda>_. 0) 0 = Some (5, 1)"
  by (simp add: run_function_def dead_defs counting_def counting_op_def eval.simps eval_list.simps read_path_def try_local_symbol_def
      define_place_def run_with_def)

lemma dead_result:
  "dce_function (expression_can_be_discarded (\<lambda>_. T_Field) (\<lambda>_. False)) dead_function =
     Inr (dead_function\<lparr>fn_block := Block
        [S_Definition (Single \<lparr>ident_name = ''y'', ident_id = 4\<rparr>) None (E_Call (path_of_ident \<lparr>ident_name = ''f'', ident_id = 5\<rparr>) [] [] 6) 7,
         S_Return (var ''x'' 18) 19] 20\<rparr>)"
  by (simp add: dce_function_def dead_defs dce_bind_def dce_return_def dce_use_def dce_used_def expression_can_be_discarded_def
      statement_dummy_def is_removable_def binary_halts_def binary_halts_on_integers_def)



section \<open>Properties\<close>

text \<open>
  Property C2.  Dead code elimination keeps the meaning of a program.  When discardable operations have no effects
  and every function has a call count, the pass does not panic; the functions it drops are the final functions and
  the functions without a call, and every other function computes the same result with the same effects, on every
  run in which the discardable expressions do not halt, in particular on every run that does not halt.
\<close>

theorem dce_keeps_meaning:
  assumes "quiet M" "list_all (settled_function \<circ> snd) (sc_functions scope)" "case sc_constructor scope of None \<Rightarrow> True | Some (Block ss _) \<Rightarrow> settled_statements ss"
    and "\<forall>(name, f)\<in>set (sc_functions scope). call_count \<lparr>loc_program = sc_program scope, loc_path = [name]\<rparr> \<noteq> None"
  shows "\<exists>scope' err. dce_program_scope (expression_can_be_discarded gt storage) call_count is_custom scope = Inr (scope', err) \<and>
    list_all2 (\<lambda>(name, f) (name', f'). name' = name \<and> (\<forall>args \<rho> w.
        discards_function M comps (expression_can_be_discarded gt storage) f args \<rho> w \<or> run_function M comps f args \<rho> w \<noteq> None \<longrightarrow>
          run_function M comps f' args \<rho> w = run_function M comps f args \<rho> w))
      (filter (\<lambda>(name, f). fn_variant f \<noteq> FinalFn \<and>
         (fn_variant f = Fn \<longrightarrow> call_count \<lparr>loc_program = sc_program scope, loc_path = [name]\<rparr> \<noteq> Some 0)) (sc_functions scope))
      (sc_functions scope')"
proof -
  let ?d = "expression_can_be_discarded gt storage"
  let ?kept = "filter (\<lambda>(name, f). fn_variant f \<noteq> FinalFn \<and>
         (fn_variant f = Fn \<longrightarrow> call_count \<lparr>loc_program = sc_program scope, loc_path = [name]\<rparr> \<noteq> Some 0)) (sc_functions scope)"
  have "list_all (settled_function \<circ> snd) ?kept" using assms(2) by (auto simp: list_all_iff)
  from dce_functions_runs[OF assms(1) this, of gt storage comps] obtain fs' where fs': "dce_functions ?d ?kept = Inr fs'"
    "list_all2 (\<lambda>(name, f) (name', f'). name' = name \<and> (\<forall>args \<rho> w. discards_function M comps ?d f args \<rho> w \<or> run_function M comps f args \<rho> w \<noteq> None \<longrightarrow>
           run_function M comps f' args \<rho> w = run_function M comps f args \<rho> w)) ?kept fs'" by blast
  have c: "\<exists>c' u. dce_block ?d c {} = Inr (c', u)" if "sc_constructor scope = Some c" for c
  proof (cases c)
    case (Block ss nid)
    then have "grows (dce_statements ?d ss)" using that assms(3) by (intro dce_grows) simp
    then obtain ss' u where "dce_statements ?d ss {} = Inr (ss', u)" unfolding grows_def by blast
    then show ?thesis using Block by (simp add: dce_bind_def dce_return_def)
  qed
  have "\<exists>scope' err. dce_program_scope ?d call_count is_custom scope = Inr (scope', err) \<and> sc_functions scope' = fs'"
    using dce_keep_counted[OF assms(4)] fs'(1) c
    by (auto simp: dce_program_scope_def dce_constructor_def split: option.splits)
  with fs'(2) show ?thesis by blast
qed

theorem dce_keeps_meaning_witness:
  "\<exists>scope' err. dce_program_scope (expression_can_be_discarded (\<lambda>_. T_Field) (\<lambda>_. False)) (\<lambda>_. Some 0) False dead_scope = Inr (scope', err) \<and>
     map fst (sc_functions scope') = [''main''] \<and>
     run_function counting (\<lambda>_. None) (snd (hd (sc_functions scope'))) [5] (\<lambda>_. 0) 0 = Some (5, 1)"
proof -
  have "settled_function (dead_function\<lparr>fn_variant := Fn\<rparr>)" using dead_settled by (simp add: settled_function_def)
  then have s: "list_all (settled_function \<circ> snd) (sc_functions dead_scope)" using dead_settled by (simp add: dead_scope_def)
  have c: "case sc_constructor dead_scope of None \<Rightarrow> True | Some (Block ss _) \<Rightarrow> settled_statements ss" by (simp add: dead_scope_def)
  have n: "\<forall>(name, f)\<in>set (sc_functions dead_scope). (Some 0 :: nat option) \<noteq> None" by (simp add: dead_scope_def)
  have v: "fn_variant dead_function = EntryPoint" by (simp add: dead_function_def)
  show ?thesis
    using dce_keeps_meaning[OF quiet_counting s c n, of "\<lambda>_. T_Field" "\<lambda>_. False" False "\<lambda>_. None"] v dead_run[of "\<lambda>_. None"]
    by (auto simp: dead_scope_def list_all2_Cons1)
qed

text \<open>
  Property C40.  One run of dead code elimination is enough: running it on its result changes nothing, so that no
  definition is left that can be discarded and is not used.
\<close>

theorem dce_once:
  assumes "settled_function f" "dce_function discard f = Inr f'"
  shows "dce_function discard f' = Inr f'"
proof -
  obtain ss nid where b: "fn_block f = Block ss nid" by (cases "fn_block f")
  obtain ss' u where ss': "dce_statements discard ss {} = Inr (ss', u)" "f' = f\<lparr>fn_block := Block ss' nid\<rparr>"
    using dce_function_parts[OF assms(1) b] assms(2) by (metis Inr_inject)
  have "dce_statements discard ss' {} = Inr (ss', u)"
    using dce_again(2)[OF _ ss'(1)] assms(1) b by (simp add: settled_function_def)
  then show ?thesis using ss'(2) by (simp add: dce_function_def dce_bind_def dce_return_def)
qed

theorem dce_once_witness:
  "\<exists>f'. dce_function (expression_can_be_discarded (\<lambda>_. T_Field) (\<lambda>_. False)) dead_function = Inr f' \<and>
     dce_function (expression_can_be_discarded (\<lambda>_. T_Field) (\<lambda>_. False)) f' = Inr f'"
  using dce_once[OF dead_settled dead_result] dead_result by blast


end
