(* ===== verification/Common_Subexpr.thy ===== *)
theory Common_Subexpr
  imports Ssa_Program Leo_Types
begin

text \<open>
  Common subexpression elimination (\<^verbatim>\<open>crates/passes/src/common_subexpression_elimination\<close>).  The visitor keeps a
  stack of scopes, which map expressions over atoms to the variable that holds their value; the innermost scope
  is first.  A method stops with \<open>No_Atom\<close> where the code returns \<^verbatim>\<open>None\<close>, and with a panic.
\<close>

section \<open>Atoms and expressions over atoms\<close>

datatype cse_atom = A_Path "symbol list" | A_Literal literal_variant

datatype cse_expr =
    X_Atom cse_atom
  | X_Array "cse_atom list"
  | X_ArrayAccess cse_atom cse_atom
  | X_Binary binary_operation cse_atom cse_atom
  | X_Repeat cse_atom cse_atom
  | X_Ternary cse_atom cse_atom cse_atom
  | X_Unary unary_operation cse_atom

text \<open>
  The derived order of atoms, which puts the operands of commutative operations in one order.  Symbols are compared by
  their index in the interner, \<open>index\<close>.
\<close>

fun less_list :: "('a \<Rightarrow> 'a \<Rightarrow> bool) \<Rightarrow> 'a list \<Rightarrow> 'a list \<Rightarrow> bool" where
  "less_list lt _ [] \<longleftrightarrow> False"
| "less_list lt [] (_ # _) \<longleftrightarrow> True"
| "less_list lt (x # xs) (y # ys) \<longleftrightarrow> lt x y \<or> \<not> lt y x \<and> less_list lt xs ys"

definition less_string :: "string \<Rightarrow> string \<Rightarrow> bool" where
  "less_string = less_list (\<lambda>a b. (of_char a :: nat) < of_char b)"

primrec integer_type_rank :: "integer_type \<Rightarrow> nat" where
  "integer_type_rank U8 = 0"
| "integer_type_rank U16 = 1"
| "integer_type_rank U32 = 2"
| "integer_type_rank U64 = 3"
| "integer_type_rank U128 = 4"
| "integer_type_rank I8 = 5"
| "integer_type_rank I16 = 6"
| "integer_type_rank I32 = 7"
| "integer_type_rank I64 = 8"
| "integer_type_rank I128 = 9"

primrec literal_key :: "literal_variant \<Rightarrow> nat \<times> nat \<times> string" where
  "literal_key (Lit_Address s) = (0, 0, s)"
| "literal_key (Lit_Boolean b) = (1, if b then 1 else 0, [])"
| "literal_key (Lit_Field s) = (2, 0, s)"
| "literal_key (Lit_Group s) = (3, 0, s)"
| "literal_key (Lit_Integer ty s) = (4, integer_type_rank ty, s)"
| "literal_key Lit_None = (5, 0, [])"
| "literal_key (Lit_Identifier s) = (6, 0, s)"
| "literal_key (Lit_Scalar s) = (7, 0, s)"
| "literal_key (Lit_Signature s) = (8, 0, s)"
| "literal_key (Lit_String s) = (9, 0, s)"
| "literal_key (Lit_Unsuffixed s) = (10, 0, s)"

definition literal_less :: "literal_variant \<Rightarrow> literal_variant \<Rightarrow> bool" where
  "literal_less a b =
     (case (literal_key a, literal_key b) of
        ((i, j, s), (i', j', s')) \<Rightarrow> i < i' \<or> i = i' \<and> (j < j' \<or> j = j' \<and> less_string s s'))"

fun atom_less :: "(symbol \<Rightarrow> nat) \<Rightarrow> cse_atom \<Rightarrow> cse_atom \<Rightarrow> bool" where
  "atom_less index (A_Path p) (A_Path q) = less_list (\<lambda>x y. index x < index y) p q"
| "atom_less index (A_Path _) (A_Literal _) = True"
| "atom_less index (A_Literal _) (A_Path _) = False"
| "atom_less index (A_Literal l) (A_Literal m) = literal_less l m"

section \<open>The visitor\<close>

record cse_state =
  cse_scopes :: "(cse_expr \<rightharpoonup> symbol) list"
  cse_types :: "node_id \<rightharpoonup> leo_type"
  cse_next :: node_id

datatype cse_stop = No_Atom | Panic string

type_synonym 'a cse = "cse_state \<Rightarrow> cse_stop + 'a \<times> cse_state"

definition cse_return :: "'a \<Rightarrow> 'a cse" where
  "cse_return a s = Inr (a, s)"

definition cse_stop :: "cse_stop \<Rightarrow> 'a cse" where
  "cse_stop r s = Inl r"

definition cse_bind :: "'a cse \<Rightarrow> ('a \<Rightarrow> 'b cse) \<Rightarrow> 'b cse" where
  "cse_bind m f s = (case m s of Inl r \<Rightarrow> Inl r | Inr (a, s') \<Rightarrow> f a s')"

definition cse_expect :: "string \<Rightarrow> 'a cse \<Rightarrow> 'a cse" where
  "cse_expect msg m s = (case m s of Inl No_Atom \<Rightarrow> Inl (Panic msg) | r \<Rightarrow> r)"

fun cse_map :: "('a \<Rightarrow> 'b cse) \<Rightarrow> 'a list \<Rightarrow> 'b list cse" where
  "cse_map m [] = cse_return []"
| "cse_map m (a # as) = cse_bind (m a) (\<lambda>b. cse_bind (cse_map m as) (\<lambda>bs. cse_return (b # bs)))"

definition in_scope :: "'a cse \<Rightarrow> 'a cse" where
  "in_scope m s =
     (case m (s\<lparr>cse_scopes := Map.empty # cse_scopes s\<rparr>) of
        Inl r \<Rightarrow> Inl r
      | Inr (a, s') \<Rightarrow> Inr (a, s'\<lparr>cse_scopes := tl (cse_scopes s')\<rparr>))"

fun find_expr :: "cse_expr \<Rightarrow> (cse_expr \<rightharpoonup> symbol) list \<Rightarrow> symbol option" where
  "find_expr k [] = None"
| "find_expr k (m # ms) = (case m k of Some name \<Rightarrow> Some name | None \<Rightarrow> find_expr k ms)"

definition insert_expr :: "cse_expr \<Rightarrow> symbol \<Rightarrow> unit cse" where
  "insert_expr k name s =
     (case cse_scopes s of
        [] \<Rightarrow> Inl (Panic ''unwrap'')
      | m # ms \<Rightarrow> Inr ((), s\<lparr>cse_scopes := m(k \<mapsto> name) # ms\<rparr>))"

text \<open>A path to a variable, with a new node id.\<close>

definition fresh_path :: "symbol \<Rightarrow> path cse" where
  "fresh_path name s =
     Inr (to_local (path_of_ident \<lparr>ident_name = name, ident_id = cse_next s\<rparr>), s\<lparr>cse_next := Suc (cse_next s)\<rparr>)"

definition copy_type :: "node_id \<Rightarrow> node_id \<Rightarrow> unit cse" where
  "copy_type from to s =
     (case cse_types s from of
        None \<Rightarrow> Inl No_Atom
      | Some ty \<Rightarrow> Inr ((), s\<lparr>cse_types := (cse_types s)(to \<mapsto> ty)\<rparr>))"

definition has_type :: "node_id \<Rightarrow> unit cse" where
  "has_type nid s = (case cse_types s nid of None \<Rightarrow> Inl No_Atom | Some _ \<Rightarrow> Inr ((), s))"

fun try_atom :: "expression \<Rightarrow> (cse_atom \<times> expression) cse" where
  "try_atom (E_Literal l) = cse_return (A_Literal (lit_variant l), E_Literal l)"
| "try_atom (E_Path p) = (\<lambda>s.
     (case find_expr (X_Atom (A_Path (segments p))) (cse_scopes s) of
        Some name \<Rightarrow>
          cse_bind (has_type (path_id p)) (\<lambda>_.
          cse_bind (fresh_path name) (\<lambda>q.
          cse_bind (copy_type (path_id p) (path_id q)) (\<lambda>_. cse_return (A_Path [name], E_Path q)))) s
      | None \<Rightarrow> cse_return (A_Path (segments p), E_Path p) s))"
| "try_atom _ = cse_stop No_Atom"

definition try_atoms :: "expression list \<Rightarrow> (cse_atom \<times> expression) list cse" where
  "try_atoms = cse_map try_atom"

text \<open>The operands, and the operands of the operations that are not shared.\<close>

definition try_operand :: "expression \<Rightarrow> expression cse" where
  "try_operand e = cse_bind (try_atom e) (\<lambda>r. cse_return (snd r))"

fun try_field :: "field_initializer \<Rightarrow> field_initializer cse" where
  "try_field (Field_Init i (Some e) nid) = cse_bind (try_operand e) (\<lambda>e'. cse_return (Field_Init i (Some e') nid))"
| "try_field (Field_Init i None nid) = cse_return (Field_Init i None nid)"

fun try_kind :: "dynamic_op_kind \<Rightarrow> dynamic_op_kind cse" where
  "try_kind (Dyn_Call f args) = cse_bind (cse_map try_operand args) (\<lambda>args'. cse_return (Dyn_Call f args'))"
| "try_kind (Dyn_Op member op args) = cse_bind (cse_map try_operand args) (\<lambda>args'. cse_return (Dyn_Op member op args'))"
| "try_kind (Dyn_Read storage) = cse_return (Dyn_Read storage)"

definition commutative :: "binary_operation \<Rightarrow> bool" where
  "commutative op \<longleftrightarrow>
     op \<in> {Add, AddWrapped, BitwiseAnd, BitwiseOr, Eq, Neq, Mul, And, Or, Xor, Nand, Nor}"

definition order_operands ::
  "(symbol \<Rightarrow> nat) \<Rightarrow> binary_operation \<Rightarrow> cse_atom \<Rightarrow> cse_atom \<Rightarrow> cse_atom \<times> cse_atom" where
  "order_operands index op left right =
     (if commutative op \<and> atom_less index right left then (right, left) else (left, right))"

text \<open>
  The end of \<^verbatim>\<open>try_expr\<close>: an expression that a variable holds already is replaced by the variable; otherwise the
  variable that is being defined holds it from now on.
\<close>

definition share :: "cse_expr \<Rightarrow> expression \<Rightarrow> symbol option \<Rightarrow> (expression \<times> bool) cse" where
  "share k e place s =
     (case find_expr k (cse_scopes s) of
        Some name \<Rightarrow>
          cse_bind (fresh_path name) (\<lambda>q.
          cse_bind (copy_type (expr_id e) (path_id q)) (\<lambda>_.
          (case place of
             Some x \<Rightarrow> cse_bind (insert_expr (X_Atom (A_Path [x])) name) (\<lambda>_. cse_return (E_Path q, True))
           | None \<Rightarrow> cse_return (E_Path q, False)))) s
      | None \<Rightarrow>
          (case place of
             Some x \<Rightarrow> cse_bind (insert_expr k x) (\<lambda>_. cse_return (e, False))
           | None \<Rightarrow> cse_return (e, False)) s)"

fun try_expr :: "(symbol \<Rightarrow> nat) \<Rightarrow> expression \<Rightarrow> symbol option \<Rightarrow> (expression \<times> bool) cse"
  and try_exprs :: "(symbol \<Rightarrow> nat) \<Rightarrow> expression list \<Rightarrow> expression list cse"
where
  "try_expr index (E_ArrayAccess array idx nid) place =
     cse_bind (try_atom array) (\<lambda>(a, array').
     cse_bind (try_atom idx) (\<lambda>(i, idx'). share (X_ArrayAccess a i) (E_ArrayAccess array' idx' nid) place))"
| "try_expr index (E_Array elements nid) place =
     cse_bind (try_atoms elements) (\<lambda>rs. share (X_Array (map fst rs)) (E_Array (map snd rs) nid) place)"
| "try_expr index (E_Binary left right op nid) place =
     cse_bind (try_atom left) (\<lambda>(l, left').
     cse_bind (try_atom right) (\<lambda>(r, right').
     case order_operands index op l r of (l', r') \<Rightarrow> share (X_Binary op l' r') (E_Binary left' right' op nid) place))"
| "try_expr index (E_Literal l) place = share (X_Atom (A_Literal (lit_variant l))) (E_Literal l) place"
| "try_expr index (E_Path p) place = share (X_Atom (A_Path (segments p))) (E_Path p) place"
| "try_expr index (E_Repeat e cnt nid) place =
     cse_bind (try_atom e) (\<lambda>(v, e').
     cse_bind (try_atom cnt) (\<lambda>(c, cnt'). share (X_Repeat v c) (E_Repeat e' cnt' nid) place))"
| "try_expr index (E_Ternary condition if_true if_false nid) place =
     cse_bind (try_atom condition) (\<lambda>(c, condition').
     cse_bind (try_atom if_true) (\<lambda>(t, if_true').
     cse_bind (try_atom if_false) (\<lambda>(f, if_false').
     share (X_Ternary c t f) (E_Ternary condition' if_true' if_false' nid) place)))"
| "try_expr index (E_Unary receiver op nid) place =
     cse_bind (try_atom receiver) (\<lambda>(r, receiver'). share (X_Unary op r) (E_Unary receiver' op nid) place)"
| "try_expr index (E_Intrinsic name tys ins outs args nid) place =
     cse_bind (cse_map try_operand args) (\<lambda>args'. cse_return (E_Intrinsic name tys ins outs args' nid, False))"
| "try_expr index (E_Call f const_args args nid) place =
     cse_bind (cse_map try_operand args) (\<lambda>args'. cse_return (E_Call f const_args args' nid, False))"
| "try_expr index (E_Cast e ty nid) place = cse_bind (try_operand e) (\<lambda>e'. cse_return (E_Cast e' ty nid, False))"
| "try_expr index (E_MemberAccess inner name nid) place =
     cse_bind (try_operand inner) (\<lambda>inner'. cse_return (E_MemberAccess inner' name nid, False))"
| "try_expr index (E_Composite path const_args inits base nid) place =
     cse_bind (cse_map try_field inits) (\<lambda>inits'. cse_return (E_Composite path const_args inits' base nid, False))"
| "try_expr index (E_Tuple elements nid) place =
     cse_bind (try_exprs index elements) (\<lambda>elements'. cse_return (E_Tuple elements' nid, False))"
| "try_expr index (E_TupleAccess _ _ _) place = cse_stop (Panic ''Tuple access expressions should not exist in this pass.'')"
| "try_expr index (E_DynamicOp interface target network kind nid) place =
     cse_bind (try_operand target) (\<lambda>target'.
     cse_bind
       (case network of None \<Rightarrow> cse_return None | Some n \<Rightarrow> cse_bind (try_operand n) (\<lambda>n'. cse_return (Some n'))) (\<lambda>network'.
     cse_bind (try_kind kind) (\<lambda>kind'. cse_return (E_DynamicOp interface target' network' kind' nid, False))))"
| "try_expr index (E_Async b nid) place = cse_return (E_Async b nid, False)"
| "try_expr index (E_Err nid) place = cse_return (E_Err nid, False)"
| "try_expr index (E_Unit nid) place = cse_return (E_Unit nid, False)"
| "try_exprs index [] = cse_return []"
| "try_exprs index (e # es) =
     cse_bind (try_expr index e None) (\<lambda>r. cse_bind (try_exprs index es) (\<lambda>es'. cse_return (fst r # es')))"

section \<open>Statements\<close>

definition cse_expression :: "(symbol \<Rightarrow> nat) \<Rightarrow> expression \<Rightarrow> expression cse" where
  "cse_expression index e =
     cse_bind (cse_expect ''CSE Error: Error reconstructing expression'' (try_expr index e None)) (\<lambda>r. cse_return (fst r))"

fun cse_type :: "(symbol \<Rightarrow> nat) \<Rightarrow> leo_type \<Rightarrow> leo_type cse"
  and cse_type_list :: "(symbol \<Rightarrow> nat) \<Rightarrow> leo_type list \<Rightarrow> leo_type list cse"
where
  "cse_type index (T_Array ty len) =
     cse_bind (cse_type index ty) (\<lambda>ty'. cse_bind (cse_expression index len) (\<lambda>len'. cse_return (T_Array ty' len')))"
| "cse_type index (T_Composite p args) =
     cse_bind (cse_map (cse_expression index) args) (\<lambda>args'. cse_return (T_Composite p args'))"
| "cse_type index (T_Future tys loc b) = cse_bind (cse_type_list index tys) (\<lambda>tys'. cse_return (T_Future tys' loc b))"
| "cse_type index (T_Mapping k v) =
     cse_bind (cse_type index k) (\<lambda>k'. cse_bind (cse_type index v) (\<lambda>v'. cse_return (T_Mapping k' v')))"
| "cse_type index (T_Optional ty) = cse_bind (cse_type index ty) (\<lambda>ty'. cse_return (T_Optional ty'))"
| "cse_type index (T_Tuple tys) = cse_bind (cse_type_list index tys) (\<lambda>tys'. cse_return (T_Tuple tys'))"
| "cse_type index (T_Vector ty) = cse_bind (cse_type index ty) (\<lambda>ty'. cse_return (T_Vector ty'))"
| "cse_type index ty = cse_return ty"
| "cse_type_list index [] = cse_return []"
| "cse_type_list index (ty # tys) =
     cse_bind (cse_type index ty) (\<lambda>ty'. cse_bind (cse_type_list index tys) (\<lambda>tys'. cse_return (ty' # tys')))"

fun cse_assert :: "(symbol \<Rightarrow> nat) \<Rightarrow> assert_variant \<Rightarrow> assert_variant cse" where
  "cse_assert index (Assert e) = cse_bind (cse_expression index e) (\<lambda>e'. cse_return (Assert e'))"
| "cse_assert index (AssertEq a b) =
     cse_bind (cse_expression index a) (\<lambda>a'. cse_bind (cse_expression index b) (\<lambda>b'. cse_return (AssertEq a' b')))"
| "cse_assert index (AssertNeq a b) =
     cse_bind (cse_expression index a) (\<lambda>a'. cse_bind (cse_expression index b) (\<lambda>b'. cse_return (AssertNeq a' b')))"

fun cse_block :: "(symbol \<Rightarrow> nat) \<Rightarrow> block \<Rightarrow> block cse"
  and cse_statement :: "(symbol \<Rightarrow> nat) \<Rightarrow> statement \<Rightarrow> statement cse"
  and cse_statements :: "(symbol \<Rightarrow> nat) \<Rightarrow> statement list \<Rightarrow> statement list cse"
  and cse_otherwise :: "(symbol \<Rightarrow> nat) \<Rightarrow> statement option \<Rightarrow> statement option cse"
where
  "cse_block index (Block ss nid) = in_scope (cse_bind (cse_statements index ss) (\<lambda>ss'. cse_return (Block ss' nid)))"
| "cse_statement index (S_Assert variant nid) =
     cse_bind (cse_assert index variant) (\<lambda>variant'. cse_return (S_Assert variant' nid))"
| "cse_statement index (S_Assign place e nid) =
     cse_bind (cse_expression index place) (\<lambda>place'.
     cse_bind (cse_expression index e) (\<lambda>e'. cse_return (S_Assign place' e' nid)))"
| "cse_statement index (S_Block b) = cse_bind (cse_block index b) (\<lambda>b'. cse_return (S_Block b'))"
| "cse_statement index (S_Conditional condition then_block otherwise nid) =
     cse_bind (cse_expression index condition) (\<lambda>condition'.
     cse_bind (cse_block index then_block) (\<lambda>then_block'.
     cse_bind (cse_otherwise index otherwise) (\<lambda>otherwise'.
     cse_return (S_Conditional condition' then_block' otherwise' nid))))"
| "cse_statement index (S_Const exported place ty e nid) =
     cse_bind (cse_type index ty) (\<lambda>ty'.
     cse_bind (cse_expression index e) (\<lambda>e'. cse_return (S_Const exported place ty' e' nid)))"
| "cse_statement index (S_Definition place ty e nid) =
     (case place of
        Single i \<Rightarrow>
          cse_bind (cse_expect ''CSE Error: Error reconstructing single definition'' (try_expr index e (Some (ident_name i)))) (\<lambda>(e', not_needed).
          cse_return (if not_needed then statement_dummy else S_Definition place ty e' nid))
      | Multiple _ \<Rightarrow>
          cse_bind (cse_expect ''CSE Error: Error reconstructing multiple definitions'' (try_expr index e None)) (\<lambda>(e', _).
          cse_return (S_Definition place ty e' nid)))"
| "cse_statement index (S_Expression e nid) = cse_bind (cse_expression index e) (\<lambda>e'. cse_return (S_Expression e' nid))"
| "cse_statement index (S_Iteration _ _ _ _ _ _ _) =
     cse_stop (Panic ''IterationStatements should not be in the AST at this phase of compilation.'')"
| "cse_statement index (S_Return e nid) = cse_bind (cse_expression index e) (\<lambda>e'. cse_return (S_Return e' nid))"
| "cse_statements index [] = cse_return []"
| "cse_statements index (st # sts) =
     cse_bind (cse_statement index st) (\<lambda>st'. cse_bind (cse_statements index sts) (\<lambda>sts'. cse_return (st' # sts')))"
| "cse_otherwise index None = cse_return None"
| "cse_otherwise index (Some st) = cse_bind (cse_statement index st) (\<lambda>st'. cse_return (Some st'))"

section \<open>Programs\<close>

definition cse_function :: "(symbol \<Rightarrow> nat) \<Rightarrow> leo_function \<Rightarrow> leo_function cse" where
  "cse_function index f = cse_bind (cse_block index (fn_block f)) (\<lambda>b. cse_return (f\<lparr>fn_block := b\<rparr>))"

definition cse_named :: "('a \<Rightarrow> 'b cse) \<Rightarrow> 'k \<times> 'a \<Rightarrow> ('k \<times> 'b) cse" where
  "cse_named m = (\<lambda>(k, a). cse_bind (m a) (\<lambda>b. cse_return (k, b)))"

definition cse_program_scope :: "(symbol \<Rightarrow> nat) \<Rightarrow> program_scope \<Rightarrow> program_scope cse" where
  "cse_program_scope index scope =
     cse_bind (cse_map (cse_named (cse_function index)) (sc_functions scope)) (\<lambda>fs.
     cse_bind
       (case sc_constructor scope of
          None \<Rightarrow> cse_return None
        | Some c \<Rightarrow> cse_bind (cse_block index c) (\<lambda>c'. cse_return (Some c'))) (\<lambda>c.
     cse_return (scope\<lparr>sc_functions := fs, sc_constructor := c\<rparr>)))"

definition cse_module :: "(symbol \<Rightarrow> nat) \<Rightarrow> leo_module \<Rightarrow> leo_module cse" where
  "cse_module index m =
     cse_bind (cse_map (cse_named (cse_function index)) (mod_functions m)) (\<lambda>fs. cse_return (m\<lparr>mod_functions := fs\<rparr>))"

text \<open>Libraries and programs in Aleo instructions stay as they are.\<close>

fun cse_program :: "(symbol \<Rightarrow> nat) \<Rightarrow> 'a leo_program \<Rightarrow> 'a leo_program cse"
  and cse_stub :: "(symbol \<Rightarrow> nat) \<Rightarrow> 'a stub \<Rightarrow> 'a stub cse"
  and cse_stubs :: "(symbol \<Rightarrow> nat) \<Rightarrow> (symbol \<times> 'a stub) list \<Rightarrow> (symbol \<times> 'a stub) list cse"
where
  "cse_program index (Leo_Program modules stubs scopes) =
     cse_bind (cse_stubs index stubs) (\<lambda>stubs'.
     cse_bind (cse_map (cse_named (cse_program_scope index)) scopes) (\<lambda>scopes'.
     cse_bind (cse_map (cse_named (cse_module index)) modules) (\<lambda>modules'.
     cse_return (Leo_Program modules' stubs' scopes'))))"
| "cse_stub index (From_Leo p parents) = cse_bind (cse_program index p) (\<lambda>p'. cse_return (From_Leo p' parents))"
| "cse_stub index (From_Aleo a parents) = cse_return (From_Aleo a parents)"
| "cse_stub index (From_Library l parents) = cse_return (From_Library l parents)"
| "cse_stubs index [] = cse_return []"
| "cse_stubs index ((name, st) # rest) =
     cse_bind (cse_stub index st) (\<lambda>st'. cse_bind (cse_stubs index rest) (\<lambda>rest'. cse_return ((name, st') # rest')))"

definition cse_pass ::
  "(symbol \<Rightarrow> nat) \<Rightarrow> 'a leo_program + 'a library \<Rightarrow> (node_id \<rightharpoonup> leo_type) \<Rightarrow> node_id \<Rightarrow> cse_stop + ('a leo_program + 'a library) \<times> cse_state" where
  "cse_pass index ast types next =
     (case ast of
        Inl p \<Rightarrow> cse_bind (cse_program index p) (\<lambda>p'. cse_return (Inl p'))
      | Inr l \<Rightarrow> cse_return (Inr l)) \<lparr>cse_scopes = [], cse_types = types, cse_next = next\<rparr>"

end
