(* ===== verification/Common_Subexpr_Exprs.thy ===== *)
theory Common_Subexpr_Exprs
  imports Common_Subexpr Leo_Runs
begin

text \<open>
  Common subexpression elimination on expressions.  The code it is meant for is in single-assignment form, with
  atoms as operands; what the scopes hold is an invariant that relates the runs of the code and of the new code.
\<close>

section \<open>Code in single-assignment form\<close>

text \<open>
  \<open>N\<close> are the names of local variables, \<open>D\<close> the variables that are defined.  Operands are literals and defined
  variables; arguments may also be global names, which no local variable shares.
\<close>

fun cse_operand :: "symbol list \<Rightarrow> expression \<Rightarrow> bool" where
  "cse_operand D (E_Literal _) \<longleftrightarrow> True"
| "cse_operand D (E_Path p) \<longleftrightarrow>
     (case try_local_symbol p of None \<Rightarrow> False | Some x \<Rightarrow> x \<in> set D \<and> segments p = [x])"
| "cse_operand D _ \<longleftrightarrow> False"

fun cse_argument :: "(symbol \<Rightarrow> bool) \<Rightarrow> symbol list \<Rightarrow> expression \<Rightarrow> bool" where
  "cse_argument N D (E_Path p) \<longleftrightarrow>
     cse_operand D (E_Path p) \<or>
     try_local_symbol p = None \<and> \<not> (qualifier p = [] \<and> N (ident_name (identifier_of p)))"
| "cse_argument N D e \<longleftrightarrow> cse_operand D e"

definition is_self :: "expression \<Rightarrow> bool" where
  "is_self e \<longleftrightarrow> (case e of E_Path p \<Rightarrow> ident_name (identifier_of p) = ''self'' | _ \<Rightarrow> False)"

fun is_literal :: "expression \<Rightarrow> bool" where
  "is_literal (E_Literal _) \<longleftrightarrow> True"
| "is_literal _ \<longleftrightarrow> False"

fun cse_ready :: "(symbol \<Rightarrow> bool) \<Rightarrow> symbol list \<Rightarrow> expression \<Rightarrow> bool" where
  "cse_ready N D (E_ArrayAccess array index _) \<longleftrightarrow> cse_operand D array \<and> is_literal index"
| "cse_ready N D (E_Array es _) \<longleftrightarrow> list_all (cse_operand D) es"
| "cse_ready N D (E_Binary left right _ _) \<longleftrightarrow> cse_operand D left \<and> cse_operand D right"
| "cse_ready N D (E_Literal _) \<longleftrightarrow> True"
| "cse_ready N D (E_Path p) \<longleftrightarrow> cse_operand D (E_Path p)"
| "cse_ready N D (E_Repeat e cnt _) \<longleftrightarrow> cse_operand D e \<and> is_literal cnt"
| "cse_ready N D (E_Ternary c t f _) \<longleftrightarrow> cse_operand D c \<and> cse_operand D t \<and> cse_operand D f"
| "cse_ready N D (E_Unary e _ _) \<longleftrightarrow> cse_operand D e"
| "cse_ready N D (E_Intrinsic _ _ _ _ args _) \<longleftrightarrow> list_all (cse_argument N D) args"
| "cse_ready N D (E_Call _ _ args _) \<longleftrightarrow> list_all (cse_argument N D) args"
| "cse_ready N D (E_Cast e _ _) \<longleftrightarrow> cse_argument N D e"
| "cse_ready N D (E_MemberAccess inner _ _) \<longleftrightarrow> cse_argument N D inner \<or> is_self inner"
| "cse_ready N D (E_Composite _ _ inits base _) \<longleftrightarrow>
     list_all (\<lambda>f. case f of Field_Init _ (Some e) _ \<Rightarrow> cse_argument N D e | _ \<Rightarrow> False) inits \<and> base = None"
| "cse_ready N D (E_Tuple es _) \<longleftrightarrow> list_all (cse_ready N D) es"
| "cse_ready N D (E_TupleAccess _ _ _) \<longleftrightarrow> False"
| "cse_ready N D (E_DynamicOp _ target network kind _) \<longleftrightarrow>
     cse_argument N D target \<and> (case network of None \<Rightarrow> True | Some e \<Rightarrow> cse_argument N D e) \<and>
     (case kind of Dyn_Call _ args \<Rightarrow> list_all (cse_argument N D) args | Dyn_Op _ _ args \<Rightarrow> list_all (cse_argument N D) args
      | Dyn_Read _ \<Rightarrow> True)"
| "cse_ready N D (E_Async _ _) \<longleftrightarrow> True"
| "cse_ready N D (E_Err _) \<longleftrightarrow> True"
| "cse_ready N D (E_Unit _) \<longleftrightarrow> True"

section \<open>Laws of the shared operations\<close>

fun shared_head :: "op_head \<Rightarrow> bool" where
  "shared_head H_Array \<longleftrightarrow> True"
| "shared_head (H_ArrayAccess _) \<longleftrightarrow> True"
| "shared_head (H_Binary _) \<longleftrightarrow> True"
| "shared_head (H_Repeat _) \<longleftrightarrow> True"
| "shared_head (H_Unary _) \<longleftrightarrow> True"
| "shared_head _ \<longleftrightarrow> False"

text \<open>
  The result of a shared operation depends on the operands only, commutative operations commute, and a literal
  index or count stands for the same number wherever it is written.
\<close>

definition shares :: "('v, 'w) meaning \<Rightarrow> bool" where
  "shares M \<longleftrightarrow>
     (\<forall>h vs w v w'. shared_head h \<longrightarrow> m_op M h vs w = Some (v, w') \<longrightarrow> w' = w \<and> (\<forall>w2. m_op M h vs w2 = Some (v, w2))) \<and>
     (\<forall>op a b w. commutative op \<longrightarrow> m_op M (H_Binary op) [a, b] w = m_op M (H_Binary op) [b, a] w) \<and>
     (\<forall>l l' vs w. lit_variant l = lit_variant l' \<longrightarrow>
        m_op M (H_ArrayAccess (E_Literal l)) vs w = m_op M (H_ArrayAccess (E_Literal l')) vs w \<and>
        m_op M (H_Repeat (E_Literal l)) vs w = m_op M (H_Repeat (E_Literal l')) vs w)"

section \<open>What the scopes hold\<close>

fun atom_value :: "('v, 'w) meaning \<Rightarrow> 'v env \<Rightarrow> cse_atom \<Rightarrow> 'v" where
  "atom_value M \<rho> (A_Literal l) = m_literal M l"
| "atom_value M \<rho> (A_Path ps) = \<rho> (hd ps)"

fun atom_in :: "symbol list \<Rightarrow> cse_atom \<Rightarrow> bool" where
  "atom_in D (A_Literal _) \<longleftrightarrow> True"
| "atom_in D (A_Path ps) \<longleftrightarrow> (\<exists>x\<in>set D. ps = [x])"

text \<open>The value of an operation that does not depend on the world.\<close>

definition op_value :: "('v, 'w) meaning \<Rightarrow> op_head \<Rightarrow> 'v list \<Rightarrow> 'v \<Rightarrow> bool" where
  "op_value M h vs v \<longleftrightarrow> (\<forall>w. m_op M h vs w = Some (v, w))"

fun key_value :: "('v, 'w) meaning \<Rightarrow> 'v env \<Rightarrow> cse_expr \<Rightarrow> 'v \<Rightarrow> bool" where
  "key_value M \<rho> (X_Atom a) v \<longleftrightarrow> v = atom_value M \<rho> a"
| "key_value M \<rho> (X_Array as) v \<longleftrightarrow> op_value M H_Array (map (atom_value M \<rho>) as) v"
| "key_value M \<rho> (X_ArrayAccess a i) v \<longleftrightarrow>
     (\<exists>l. i = A_Literal (lit_variant l) \<and> op_value M (H_ArrayAccess (E_Literal l)) [atom_value M \<rho> a] v)"
| "key_value M \<rho> (X_Binary op a b) v \<longleftrightarrow> op_value M (H_Binary op) [atom_value M \<rho> a, atom_value M \<rho> b] v"
| "key_value M \<rho> (X_Repeat a c) v \<longleftrightarrow>
     (\<exists>l. c = A_Literal (lit_variant l) \<and> op_value M (H_Repeat (E_Literal l)) [atom_value M \<rho> a] v)"
| "key_value M \<rho> (X_Ternary c a b) v \<longleftrightarrow>
     map_option (\<lambda>t. if t then atom_value M \<rho> a else atom_value M \<rho> b) (m_truth M (atom_value M \<rho> c)) = Some v"
| "key_value M \<rho> (X_Unary op a) v \<longleftrightarrow> op_value M (H_Unary op) [atom_value M \<rho> a] v"

fun key_atoms :: "cse_expr \<Rightarrow> cse_atom list" where
  "key_atoms (X_Atom a) = [a]"
| "key_atoms (X_Array as) = as"
| "key_atoms (X_ArrayAccess a i) = [a, i]"
| "key_atoms (X_Binary _ a b) = [a, b]"
| "key_atoms (X_Repeat a c) = [a, c]"
| "key_atoms (X_Ternary c a b) = [c, a, b]"
| "key_atoms (X_Unary _ a) = [a]"

text \<open>
  A variable of the code that the scopes map to another one has the value of that one in the new code, other
  variables have their own value, and a mapped expression has the value of its variable.
\<close>

definition key_sem :: "('v, 'w) meaning \<Rightarrow> 'v env \<Rightarrow> 'v env \<Rightarrow> cse_expr \<Rightarrow> 'v \<Rightarrow> bool" where
  "key_sem M \<rho> \<rho>' k v \<longleftrightarrow> (case k of X_Atom (A_Path ps) \<Rightarrow> v = \<rho> (hd ps) | _ \<Rightarrow> key_value M \<rho>' k v)"

definition entry_holds :: "('v, 'w) meaning \<Rightarrow> symbol list \<Rightarrow> 'v env \<Rightarrow> 'v env \<Rightarrow> cse_expr \<Rightarrow> symbol \<Rightarrow> bool" where
  "entry_holds M D \<rho> \<rho>' k y \<longleftrightarrow>
     y \<in> set D \<and> list_all (atom_in D) (key_atoms k) \<and> key_sem M \<rho> \<rho>' k (\<rho>' y)"

definition tracks :: "('v, 'w) meaning \<Rightarrow> symbol list \<Rightarrow> (cse_expr \<rightharpoonup> symbol) list \<Rightarrow> 'v env \<Rightarrow> 'v env \<Rightarrow> bool" where
  "tracks M D sc \<rho> \<rho>' \<longleftrightarrow>
     (\<forall>m\<in>set sc. \<forall>k y. m k = Some y \<longrightarrow> entry_holds M D \<rho> \<rho>' k y) \<and>
     (\<forall>x\<in>set D. find_expr (X_Atom (A_Path [x])) sc = None \<longrightarrow> \<rho>' x = \<rho> x)"

lemma find_expr_entry: "find_expr k sc = Some y \<Longrightarrow> \<exists>m\<in>set sc. m k = Some y"
  by (induction sc) (auto split: option.splits)

lemma tracks_find: "tracks M D sc \<rho> \<rho>' \<Longrightarrow> find_expr k sc = Some y \<Longrightarrow> entry_holds M D \<rho> \<rho>' k y"
  unfolding tracks_def by (meson find_expr_entry)

text \<open>Values that agree on the defined variables.\<close>

lemma atom_value_cong: "\<forall>x\<in>set D. \<rho>' x = \<rho> x \<Longrightarrow> atom_in D a \<Longrightarrow> atom_value M \<rho>' a = atom_value M \<rho> a"
  by (cases a) auto

lemma key_value_cong:
  assumes "\<forall>x\<in>set D. \<rho>' x = \<rho> x" "list_all (atom_in D) (key_atoms k)"
  shows "key_value M \<rho>' k v = key_value M \<rho> k v"
proof -
  have a: "\<forall>a\<in>set (key_atoms k). atom_value M \<rho>' a = atom_value M \<rho> a"
    using assms atom_value_cong by (metis list_all_iff)
  then show ?thesis by (cases k) (auto cong: map_cong)
qed

lemma atom_in_mono: "atom_in D a \<Longrightarrow> set D \<subseteq> set D' \<Longrightarrow> atom_in D' a"
  by (cases a) auto

lemma key_sem_cong:
  assumes "\<forall>x\<in>set D. \<rho>1 x = \<rho> x \<and> \<rho>1' x = \<rho>' x" "list_all (atom_in D) (key_atoms k)"
  shows "key_sem M \<rho>1 \<rho>1' k v = key_sem M \<rho> \<rho>' k v"
proof -
  have "\<rho>1 (hd ps) = \<rho> (hd ps)" if "k = X_Atom (A_Path ps)" for ps using that assms by auto
  moreover have "key_value M \<rho>1' k v = key_value M \<rho>' k v" using assms by (intro key_value_cong) auto
  ultimately show ?thesis unfolding key_sem_def by (auto simp del: key_value.simps split: cse_expr.splits cse_atom.splits)
qed

lemma entry_cong:
  assumes e: "entry_holds M D \<rho> \<rho>' k y" and agree: "\<forall>x\<in>set D. \<rho>1 x = \<rho> x \<and> \<rho>1' x = \<rho>' x" and D: "set D \<subseteq> set D'"
  shows "entry_holds M D' \<rho>1 \<rho>1' k y"
proof -
  have k: "y \<in> set D" "list_all (atom_in D) (key_atoms k)" using e by (auto simp: entry_holds_def)
  then have "list_all (atom_in D') (key_atoms k)" using D atom_in_mono by (metis list_all_iff)
  then show ?thesis using e k agree D key_sem_cong[OF agree k(2)] by (auto simp: entry_holds_def)
qed

lemma tracks_frame:
  "tracks M D sc \<rho> \<rho>' \<Longrightarrow> \<forall>x\<in>set D. \<rho>1 x = \<rho> x \<and> \<rho>1' x = \<rho>' x \<Longrightarrow> tracks M D sc \<rho>1 \<rho>1'"
  unfolding tracks_def using entry_cong[of M D \<rho> \<rho>' _ _ \<rho>1 \<rho>1' D] by auto

text \<open>A new variable, without and with a new entry.\<close>

lemma tracks_new:
  assumes "tracks M D sc \<rho> \<rho>'" "n \<notin> set D"
  shows "tracks M (n # D) sc (\<rho>(n := v)) (\<rho>'(n := v))"
proof -
  have "entry_holds M (n # D) (\<rho>(n := v)) (\<rho>'(n := v)) k y" if "m \<in> set sc" "m k = Some y" for m k y
  proof -
    have "entry_holds M D \<rho> \<rho>' k y" using assms(1) that unfolding tracks_def by blast
    then show ?thesis by (rule entry_cong) (use assms(2) in auto)
  qed
  then show ?thesis using assms by (auto simp: tracks_def)
qed

lemma tracks_insert:
  assumes t: "tracks M D (m # ms) \<rho> \<rho>'" and n: "n \<notin> set D" and e: "entry_holds M (n # D) (\<rho>(n := v)) \<rho>1' k y"
    and agree: "\<forall>x\<in>set D. \<rho>1' x = \<rho>' x" and new: "k = X_Atom (A_Path [n]) \<or> \<rho>1' n = v"
  shows "tracks M (n # D) (m(k \<mapsto> y) # ms) (\<rho>(n := v)) \<rho>1'"
proof -
  have old: "entry_holds M (n # D) (\<rho>(n := v)) \<rho>1' k' y'" if "l \<in> set (m # ms)" "l k' = Some y'" for l k' y'
  proof -
    have "entry_holds M D \<rho> \<rho>' k' y'" using t that unfolding tracks_def by blast
    then show ?thesis by (rule entry_cong) (use agree n in auto)
  qed
  have "find_expr k' (m # ms) = None" if "find_expr k' (m(k \<mapsto> y) # ms) = None" for k'
    using that by (auto split: option.splits if_splits)
  then have "\<rho>1' x = (\<rho>(n := v)) x" if "x \<in> set (n # D)" "find_expr (X_Atom (A_Path [x])) (m(k \<mapsto> y) # ms) = None" for x
    using that t n agree new by (auto simp: tracks_def split: if_splits)
  then show ?thesis unfolding tracks_def using e old by (auto split: if_splits)
qed

lemma find_none: "tracks M D sc \<rho> \<rho>' \<Longrightarrow> n \<notin> set D \<Longrightarrow> find_expr (X_Atom (A_Path [n])) sc = None"
  using tracks_find[of M D sc \<rho> \<rho>' "X_Atom (A_Path [n])"]
  by (cases "find_expr (X_Atom (A_Path [n])) sc") (auto simp: entry_holds_def)

section \<open>Expressions\<close>

lemma cse_bind_Inr: "cse_bind m f s = Inr r \<longleftrightarrow> (\<exists>a s1. m s = Inr (a, s1) \<and> f a s1 = Inr r)"
  by (auto simp: cse_bind_def split: sum.splits prod.splits)

lemma cse_return_Inr [simp]: "cse_return a s = Inr r \<longleftrightarrow> r = (a, s)"
  by (auto simp: cse_return_def)

lemma cse_stop_Inr [simp]: "cse_stop r s = Inr x \<longleftrightarrow> False"
  by (simp add: cse_stop_def)

lemma fresh_path_Inr:
  "fresh_path name s = Inr (q, s') \<Longrightarrow> cse_scopes s' = cse_scopes s \<and> try_local_symbol q = Some name"
  by (auto simp: fresh_path_def try_local_symbol_def to_local_def path_of_ident_def path_new_def)

lemma copy_type_Inr: "copy_type a b s = Inr (u, s') \<Longrightarrow> cse_scopes s' = cse_scopes s"
  by (auto simp: copy_type_def split: option.splits)

lemma has_type_Inr: "has_type a s = Inr (u, s') \<Longrightarrow> s' = s"
  by (auto simp: has_type_def split: option.splits)

text \<open>The atom of an operand.\<close>

lemma try_atom_operand:
  assumes "try_atom e s = Inr ((a, e'), s')" "cse_operand D e" "tracks M D (cse_scopes s) \<rho> \<rho>'"
  shows "cse_scopes s' = cse_scopes s" "atom_in D a" "eval M comps e' \<rho>' w = Some (atom_value M \<rho>' a, w)"
    "eval M comps e \<rho> w = Some (atom_value M \<rho>' a, w)"
proof -
  have "cse_scopes s' = cse_scopes s \<and> atom_in D a \<and> eval M comps e' \<rho>' w = Some (atom_value M \<rho>' a, w) \<and>
    eval M comps e \<rho> w = Some (atom_value M \<rho>' a, w)"
  proof (cases e)
    case (E_Path p)
    with assms(2) obtain x where x: "try_local_symbol p = Some x" "x \<in> set D" "segments p = [x]" by (auto split: option.splits)
    show ?thesis
    proof (cases "find_expr (X_Atom (A_Path [x])) (cse_scopes s)")
      case None
      then show ?thesis using assms x E_Path by (auto simp: eval.simps read_path_def tracks_def)
    next
      case (Some y)
      then have "y \<in> set D" "\<rho> x = \<rho>' y" using tracks_find[OF assms(3) Some] by (auto simp: entry_holds_def key_sem_def)
      then show ?thesis using assms(1) x E_Path Some
        by (auto simp: eval.simps read_path_def cse_bind_Inr dest!: fresh_path_Inr copy_type_Inr has_type_Inr)
    qed
  qed (use assms in \<open>auto simp: eval.simps\<close>)
  then show "cse_scopes s' = cse_scopes s" "atom_in D a" "eval M comps e' \<rho>' w = Some (atom_value M \<rho>' a, w)"
    "eval M comps e \<rho> w = Some (atom_value M \<rho>' a, w)" by blast+
qed

lemma try_atom_literal: "try_atom e s = Inr ((a, e'), s') \<Longrightarrow> is_literal e \<Longrightarrow> \<exists>l. e = E_Literal l \<and> e' = e \<and> a = A_Literal (lit_variant l) \<and> s' = s"
  by (cases e) auto

text \<open>An argument, which may be a global name.\<close>

lemma segments_single: "segments p = [x] \<longleftrightarrow> qualifier p = [] \<and> ident_name (identifier_of p) = x"
  by (auto simp: segments_def)

lemma find_global:
  assumes "tracks M D (cse_scopes s) \<rho> \<rho>'" "\<forall>x\<in>set D. N x" "\<not> (qualifier p = [] \<and> N (ident_name (identifier_of p)))"
  shows "find_expr (X_Atom (A_Path (segments p))) (cse_scopes s) = None"
proof (rule ccontr)
  assume "\<not> ?thesis"
  then obtain y where "find_expr (X_Atom (A_Path (segments p))) (cse_scopes s) = Some y" by auto
  from tracks_find[OF assms(1) this] show False using assms(2,3) by (auto simp: entry_holds_def segments_single)
qed

lemma try_operand_self:
  assumes "try_operand e s = Inr (e', s')" "is_self e" "tracks M D (cse_scopes s) \<rho> \<rho>'" "\<forall>x\<in>set D. N x" "\<not> N ''self''"
  shows "s' = s" "e' = e"
proof -
  obtain p where p: "e = E_Path p" "ident_name (identifier_of p) = ''self''" using assms(2) by (cases e) (auto simp: is_self_def)
  with find_global[OF assms(3,4), of p] assms(1,5) show "s' = s" "e' = e" by (auto simp: try_operand_def cse_bind_Inr)
qed

lemma try_operand_argument:
  assumes "try_operand e s = Inr (e', s')" "cse_argument N D e" "tracks M D (cse_scopes s) \<rho> \<rho>'" "\<forall>x\<in>set D. N x" "\<not> N ''self''"
  shows "cse_scopes s' = cse_scopes s" "is_self e' = is_self e" "eval M comps e' \<rho>' w = eval M comps e \<rho> w"
proof -
  have "cse_scopes s' = cse_scopes s \<and> is_self e' = is_self e \<and> eval M comps e' \<rho>' w = eval M comps e \<rho> w"
  proof (cases "cse_operand D e")
    case True
    from assms(1) obtain a where a: "try_atom e s = Inr ((a, e'), s')" by (auto simp: try_operand_def cse_bind_Inr)
    have "\<not> is_self e" using True assms(4,5) by (cases e) (auto simp: is_self_def segments_single split: option.splits)
    moreover have "\<not> is_self e'" if "atom_in D a"
      using a that assms(4,5) calculation by (cases e)
        (auto simp: is_self_def cse_bind_Inr fresh_path_def to_local_def path_of_ident_def path_new_def split: option.splits)
    ultimately show ?thesis using try_atom_operand[OF a True assms(3)] by auto
  next
    case False
    then obtain p where p: "e = E_Path p" "try_local_symbol p = None" "\<not> (qualifier p = [] \<and> N (ident_name (identifier_of p)))"
      using assms(2) by (cases e) auto
    then show ?thesis using assms(1) find_global[OF assms(3,4) p(3)]
      by (auto simp: try_operand_def cse_bind_Inr is_self_def eval.simps read_path_def)
  qed
  then show "cse_scopes s' = cse_scopes s" "is_self e' = is_self e" "eval M comps e' \<rho>' w = eval M comps e \<rho> w" by blast+
qed

lemma try_operands_arguments:
  assumes "\<forall>x\<in>set D. N x" "\<not> N ''self''"
  shows "cse_map try_operand es s = Inr (es', s') \<Longrightarrow> list_all (cse_argument N D) es \<Longrightarrow> tracks M D (cse_scopes s) \<rho> \<rho>' \<Longrightarrow>
    cse_scopes s' = cse_scopes s \<and> eval_list M comps es' \<rho>' w = eval_list M comps es \<rho> w"
proof (induction es arbitrary: s es' w)
  case (Cons e es)
  then obtain e' s1 es1 where d: "try_operand e s = Inr (e', s1)" "cse_map try_operand es s1 = Inr (es1, s')" "es' = e' # es1"
    by (auto simp: cse_bind_Inr)
  have e: "cse_argument N D e" using Cons.prems(2) by simp
  note t = try_operand_argument[OF d(1) e Cons.prems(3) assms]
  have "cse_scopes s' = cse_scopes s1 \<and> eval_list M comps es1 \<rho>' w = eval_list M comps es \<rho> w" for w
    using Cons.IH[OF d(2)] Cons.prems t(1) by auto
  then show ?case using t Cons.prems d(3) by (simp add: eval_list.simps)
qed (simp add: eval_list.simps)

lemma try_network_arguments:
  assumes "\<forall>x\<in>set D. N x" "\<not> N ''self''"
    and "(case n of None \<Rightarrow> cse_return None | Some e \<Rightarrow> cse_bind (try_operand e) (\<lambda>e'. cse_return (Some e'))) s = Inr (n', s')"
    "case n of None \<Rightarrow> True | Some e \<Rightarrow> cse_argument N D e" "tracks M D (cse_scopes s) \<rho> \<rho>'"
  shows "cse_scopes s' = cse_scopes s \<and> eval_option M comps n' \<rho>' w = eval_option M comps n \<rho> w"
proof (cases n)
  case (Some e)
  with assms obtain e' where d: "try_operand e s = Inr (e', s')" "n' = Some e'" "cse_argument N D e" by (auto simp: cse_bind_Inr)
  then show ?thesis using try_operand_argument[OF d(1,3) assms(5,1,2)] Some by (simp add: eval_option.simps)
qed (use assms in \<open>auto simp: eval_option.simps\<close>)

lemma try_kind_arguments:
  assumes "\<forall>x\<in>set D. N x" "\<not> N ''self''" and "try_kind k s = Inr (k', s')"
    "case k of Dyn_Call _ args \<Rightarrow> list_all (cse_argument N D) args | Dyn_Op _ _ args \<Rightarrow> list_all (cse_argument N D) args | Dyn_Read _ \<Rightarrow> True"
    "tracks M D (cse_scopes s) \<rho> \<rho>'"
  shows "cse_scopes s' = cse_scopes s \<and> eval_kind M comps ifc net k' \<rho>' w = eval_kind M comps ifc net k \<rho> w"
  using assms(3-) try_operands_arguments[OF assms(1,2), of _ s _ s' M \<rho> \<rho>' comps w]
  by (cases k) (auto simp: cse_bind_Inr eval_kind.simps)

lemma try_fields_arguments:
  assumes "\<forall>x\<in>set D. N x" "\<not> N ''self''"
  shows "cse_map try_field fs s = Inr (fs', s') \<Longrightarrow>
    list_all (\<lambda>f. case f of Field_Init _ (Some e) _ \<Rightarrow> cse_argument N D e | _ \<Rightarrow> False) fs \<Longrightarrow> tracks M D (cse_scopes s) \<rho> \<rho>' \<Longrightarrow>
    cse_scopes s' = cse_scopes s \<and> eval_fields M comps fs' \<rho>' w = eval_fields M comps fs \<rho> w"
proof (induction fs arbitrary: s fs' w)
  case (Cons f fs)
  then obtain i e nid where f: "f = Field_Init i (Some e) nid" "cse_argument N D e" by (auto split: field_initializer.splits option.splits)
  with Cons.prems(1) obtain e' s1 fs1 where d: "try_operand e s = Inr (e', s1)" "cse_map try_field fs s1 = Inr (fs1, s')"
    "fs' = Field_Init i (Some e') nid # fs1" by (auto simp: cse_bind_Inr)
  note t = try_operand_argument[OF d(1) f(2) Cons.prems(3) assms]
  have "cse_scopes s' = cse_scopes s1 \<and> eval_fields M comps fs1 \<rho>' w = eval_fields M comps fs \<rho> w" for w
    using Cons.IH[OF d(2)] Cons.prems t(1) by auto
  then show ?case using t Cons.prems d(3) f by (simp add: eval_fields.simps)
qed (simp add: eval_fields.simps)

lemma try_atoms_operands:
  "try_atoms es s = Inr (rs, s') \<Longrightarrow> list_all (cse_operand D) es \<Longrightarrow> tracks M D (cse_scopes s) \<rho> \<rho>' \<Longrightarrow>
    cse_scopes s' = cse_scopes s \<and> list_all (atom_in D) (map fst rs) \<and>
    eval_list M comps (map snd rs) \<rho>' w = Some (map (atom_value M \<rho>' \<circ> fst) rs, w) \<and>
    eval_list M comps es \<rho> w = Some (map (atom_value M \<rho>' \<circ> fst) rs, w)"
  unfolding try_atoms_def
proof (induction es arbitrary: s rs w)
  case (Cons e es)
  then obtain a e' s1 rs1 where d: "try_atom e s = Inr ((a, e'), s1)" "cse_map try_atom es s1 = Inr (rs1, s')" "rs = (a, e') # rs1"
    by (auto simp: cse_bind_Inr)
  have e: "cse_operand D e" using Cons.prems(2) by simp
  note t = try_atom_operand[OF d(1) e Cons.prems(3)]
  show ?case using Cons.IH[OF d(2)] Cons.prems t d(3) by (auto simp: eval_list.simps)
qed (simp add: eval_list.simps)

lemma share_keeps:
  assumes sh: "share k e1 place s = Inr ((r, nn), s1)" and t: "tracks M D (cse_scopes s) \<rho> \<rho>'" and k: "list_all (atom_in D) (key_atoms k)"
    and e: "\<And>w v w1. eval M comps e \<rho> w = Some (v, w1) \<longleftrightarrow> w1 = w \<and> key_sem M \<rho> \<rho>' k v"
    and e1: "\<And>w. find_expr k (cse_scopes s) = None \<Longrightarrow> eval M comps e1 \<rho>' w = eval M comps e \<rho> w"
    and n: "\<And>n. place = Some n \<Longrightarrow> n \<notin> set D"
  shows "eval M comps r \<rho>' w = eval M comps e \<rho> w"
    and "place = None \<Longrightarrow> cse_scopes s1 = cse_scopes s"
    and "place = Some n \<Longrightarrow> tl (cse_scopes s1) = tl (cse_scopes s) \<and> cse_scopes s1 \<noteq> []"
    and "place = Some n \<Longrightarrow> eval M comps e \<rho> w = Some (v, w1) \<Longrightarrow>
      (nn \<longrightarrow> w1 = w) \<and> tracks M (n # D) (cse_scopes s1) (\<rho>(n := v)) (if nn then \<rho>' else \<rho>'(n := v))"
proof -
  have "eval M comps r \<rho>' w = eval M comps e \<rho> w \<and> (place = None \<longrightarrow> cse_scopes s1 = cse_scopes s) \<and>
    (place = Some n \<longrightarrow> tl (cse_scopes s1) = tl (cse_scopes s) \<and> cse_scopes s1 \<noteq> []) \<and>
    (place = Some n \<longrightarrow> eval M comps e \<rho> w = Some (v, w1) \<longrightarrow>
      (nn \<longrightarrow> w1 = w) \<and> tracks M (n # D) (cse_scopes s1) (\<rho>(n := v)) (if nn then \<rho>' else \<rho>'(n := v)))"
  proof (cases "find_expr k (cse_scopes s)")
    case (Some y)
    have y: "y \<in> set D" "key_sem M \<rho> \<rho>' k (\<rho>' y)" using tracks_find[OF t Some] by (auto simp: entry_holds_def)
    have ey: "eval M comps e \<rho> w = Some (\<rho>' y, w)" using e y(2) by blast
    from sh Some obtain q s2 where q: "r = E_Path q" "try_local_symbol q = Some y" "cse_scopes s2 = cse_scopes s"
      "(case place of None \<Rightarrow> s1 = s2 \<and> \<not> nn | Some n \<Rightarrow> insert_expr (X_Atom (A_Path [n])) y s2 = Inr ((), s1) \<and> nn)"
      by (fastforce simp: share_def cse_bind_Inr split: option.splits dest: fresh_path_Inr copy_type_Inr)
    have r: "eval M comps r \<rho>' w = Some (\<rho>' y, w)" using q by (simp add: eval.simps read_path_def)
    show ?thesis
    proof (cases place)
      case None
      then show ?thesis using r ey q by auto
    next
      case (Some n')
      with q obtain m ms where m: "cse_scopes s = m # ms" "cse_scopes s1 = m(X_Atom (A_Path [n']) \<mapsto> y) # ms" "nn"
        by (auto simp: insert_expr_def split: list.splits)
      have n': "n' \<notin> set D" using n Some by auto
      have "entry_holds M (n' # D) (\<rho>(n' := \<rho>' y)) \<rho>' (X_Atom (A_Path [n'])) y" using y by (auto simp: entry_holds_def key_sem_def)
      then have "tracks M (n' # D) (cse_scopes s1) (\<rho>(n' := \<rho>' y)) \<rho>'"
        using tracks_insert[of M D m ms \<rho> \<rho>' n' "\<rho>' y" \<rho>'] t n' m by simp
      then show ?thesis using r ey m Some by auto
    qed
  next
    case None
    note e1 = e1[OF None]
    show ?thesis
    proof (cases place)
      case None
      then show ?thesis using sh \<open>find_expr k _ = None\<close> e1 by (auto simp: share_def)
    next
      case (Some n')
      with sh \<open>find_expr k _ = None\<close> obtain m ms where m: "cse_scopes s = m # ms" "cse_scopes s1 = m(k \<mapsto> n') # ms" "\<not> nn" "r = e1"
        by (auto simp: share_def cse_bind_Inr insert_expr_def split: list.splits)
      have n': "n' \<notin> set D" using n Some by auto
      have "entry_holds M (n' # D) (\<rho>(n' := v)) (\<rho>'(n' := v)) k n'" if "eval M comps e \<rho> w = Some (v, w1)" for v w w1
      proof -
        have "key_sem M \<rho> \<rho>' k v" using that e by blast
        then have "key_sem M (\<rho>(n' := v)) (\<rho>'(n' := v)) k v" using key_sem_cong[OF _ k] n' by (metis fun_upd_apply)
        then show ?thesis using k atom_in_mono[of D _ "n' # D"] by (auto simp: entry_holds_def list_all_iff)
      qed
      then have "tracks M (n' # D) (cse_scopes s1) (\<rho>(n' := v)) (\<rho>'(n' := v))" if "eval M comps e \<rho> w = Some (v, w1)" for v w w1
        using tracks_insert[of M D m ms \<rho> \<rho>' n' v "\<rho>'(n' := v)" k n'] t n' m that by auto
      then show ?thesis using m e1 Some by auto
    qed
  qed
  then show "eval M comps r \<rho>' w = eval M comps e \<rho> w" "place = None \<Longrightarrow> cse_scopes s1 = cse_scopes s"
    "place = Some n \<Longrightarrow> tl (cse_scopes s1) = tl (cse_scopes s) \<and> cse_scopes s1 \<noteq> []"
    "place = Some n \<Longrightarrow> eval M comps e \<rho> w = Some (v, w1) \<Longrightarrow>
      (nn \<longrightarrow> w1 = w) \<and> tracks M (n # D) (cse_scopes s1) (\<rho>(n := v)) (if nn then \<rho>' else \<rho>'(n := v))" by blast+
qed

lemma op_value_iff: "shares M \<Longrightarrow> shared_head h \<Longrightarrow> m_op M h vs w = Some (v, w1) \<longleftrightarrow> w1 = w \<and> op_value M h vs v"
  unfolding shares_def op_value_def by blast

lemma op_value_order:
  "shares M \<Longrightarrow> order_operands index op a b = (a', b') \<Longrightarrow> op_value M (H_Binary op) [atom_value M \<rho> a', atom_value M \<rho> b'] v =
     op_value M (H_Binary op) [atom_value M \<rho> a, atom_value M \<rho> b] v"
  by (auto simp: order_operands_def op_value_def shares_def split: if_splits)

lemma op_value_literal:
  assumes "shares M" "lit_variant l = lit_variant l'"
  shows "op_value M (H_ArrayAccess (E_Literal l)) vs v = op_value M (H_ArrayAccess (E_Literal l')) vs v"
    "op_value M (H_Repeat (E_Literal l)) vs v = op_value M (H_Repeat (E_Literal l')) vs v"
  using assms unfolding op_value_def shares_def by metis+

lemma key_sem_literal:
  assumes "shares M"
  shows "key_sem M \<rho> \<rho>' (X_ArrayAccess a (A_Literal (lit_variant l))) v = op_value M (H_ArrayAccess (E_Literal l)) [atom_value M \<rho>' a] v"
    "key_sem M \<rho> \<rho>' (X_Repeat a (A_Literal (lit_variant l))) v = op_value M (H_Repeat (E_Literal l)) [atom_value M \<rho>' a] v"
proof -
  show "key_sem M \<rho> \<rho>' (X_ArrayAccess a (A_Literal (lit_variant l))) v = op_value M (H_ArrayAccess (E_Literal l)) [atom_value M \<rho>' a] v"
    unfolding key_sem_def cse_expr.case key_value.simps cse_atom.inject by (metis op_value_literal(1)[OF assms])
  show "key_sem M \<rho> \<rho>' (X_Repeat a (A_Literal (lit_variant l))) v = op_value M (H_Repeat (E_Literal l)) [atom_value M \<rho>' a] v"
    unfolding key_sem_def cse_expr.case key_value.simps cse_atom.inject by (metis op_value_literal(2)[OF assms])
qed

text \<open>What the visitor does to an expression: the same value, the same scopes or one more entry.\<close>

definition keeps_expr ::
  "('v, 'w) meaning \<Rightarrow> (location \<rightharpoonup> composite) \<Rightarrow> symbol list \<Rightarrow> 'v env \<Rightarrow> 'v env \<Rightarrow> cse_state \<Rightarrow> expression \<Rightarrow> symbol option \<Rightarrow>
     expression \<Rightarrow> bool \<Rightarrow> cse_state \<Rightarrow> bool" where
  "keeps_expr M comps D \<rho> \<rho>' s e place r nn s1 \<longleftrightarrow>
     (\<forall>w. eval M comps r \<rho>' w = eval M comps e \<rho> w) \<and>
     (place = None \<longrightarrow> cse_scopes s1 = cse_scopes s) \<and>
     (\<forall>n. place = Some n \<longrightarrow> tl (cse_scopes s1) = tl (cse_scopes s) \<and> (cse_scopes s \<noteq> [] \<longrightarrow> cse_scopes s1 \<noteq> []) \<and>
        (\<forall>w v w1. eval M comps e \<rho> w = Some (v, w1) \<longrightarrow>
           (nn \<longrightarrow> w1 = w) \<and> tracks M (n # D) (cse_scopes s1) (\<rho>(n := v)) (if nn then \<rho>' else \<rho>'(n := v))))"

lemma keeps_shared:
  assumes "share k e1 place s1 = Inr ((r, nn), s2)" "cse_scopes s1 = cse_scopes s" "tracks M D (cse_scopes s) \<rho> \<rho>'"
    "list_all (atom_in D) (key_atoms k)" "\<And>w v w1. eval M comps e \<rho> w = Some (v, w1) \<longleftrightarrow> w1 = w \<and> key_sem M \<rho> \<rho>' k v"
    "\<And>w. find_expr k (cse_scopes s) = None \<Longrightarrow> eval M comps e1 \<rho>' w = eval M comps e \<rho> w"
    "\<And>n. place = Some n \<Longrightarrow> n \<notin> set D"
  shows "keeps_expr M comps D \<rho> \<rho>' s e place r nn s2"
proof -
  have t: "tracks M D (cse_scopes s1) \<rho> \<rho>'" using assms(2,3) by simp
  have e1: "find_expr k (cse_scopes s1) = None \<Longrightarrow> eval M comps e1 \<rho>' w = eval M comps e \<rho> w" for w using assms(2,6) by simp
  note sh = share_keeps[OF assms(1) t assms(4,5) e1 assms(7)]
  show ?thesis unfolding keeps_expr_def assms(2)[symmetric]
  proof (intro conjI allI impI)
    fix n w v w1 assume "place = Some n" "eval M comps e \<rho> w = Some (v, w1)"
    from sh(4)[OF _ _ this] show "nn \<Longrightarrow> w1 = w" "tracks M (n # D) (cse_scopes s2) (\<rho>(n := v)) (if nn then \<rho>' else \<rho>'(n := v))"
      by simp_all
  qed (use sh(1,2,3) in simp_all)
qed

lemma keeps_unshared:
  assumes "cse_scopes s1 = cse_scopes s" "tracks M D (cse_scopes s) \<rho> \<rho>'" "\<And>w. eval M comps r \<rho>' w = eval M comps e \<rho> w"
    "\<And>n. place = Some n \<Longrightarrow> n \<notin> set D"
  shows "keeps_expr M comps D \<rho> \<rho>' s e place r False s1"
  unfolding keeps_expr_def using assms tracks_new by auto

lemma try_expr_keeps:
  assumes M: "shares M" and N: "\<forall>x\<in>set D. N x" "\<not> N ''self''"
  shows "try_expr index e place s = Inr ((r, nn), s1) \<Longrightarrow> cse_ready N D e \<Longrightarrow> tracks M D (cse_scopes s) \<rho> \<rho>' \<Longrightarrow>
      (\<And>n. place = Some n \<Longrightarrow> n \<notin> set D) \<Longrightarrow> keeps_expr M comps D \<rho> \<rho>' s e place r nn s1"
    and "try_exprs index es s = Inr (rs, s1) \<Longrightarrow> list_all (cse_ready N D) es \<Longrightarrow> tracks M D (cse_scopes s) \<rho> \<rho>' \<Longrightarrow>
      cse_scopes s1 = cse_scopes s \<and> (\<forall>w. eval_list M comps rs \<rho>' w = eval_list M comps es \<rho> w)"
proof (induction index e place and index es arbitrary: s r nn s1 and s rs s1 rule: try_expr_try_exprs.induct)
  case (1 index array idx nid place)
  from 1(1) obtain a array' s2 i idx' s3 where d: "try_atom array s = Inr ((a, array'), s2)" "try_atom idx s2 = Inr ((i, idx'), s3)"
    "share (X_ArrayAccess a i) (E_ArrayAccess array' idx' nid) place s3 = Inr ((r, nn), s1)" by (auto simp: cse_bind_Inr)
  have op: "cse_operand D array" "is_literal idx" using 1(2) by auto
  note a = try_atom_operand[OF d(1) op(1) 1(3)]
  from try_atom_literal[OF d(2) op(2)] obtain l where l: "idx = E_Literal l" "idx' = idx" "i = A_Literal (lit_variant l)" "s3 = s2" by auto
  have "eval M comps (E_ArrayAccess array idx nid) \<rho> w = Some (v, w1) \<longleftrightarrow> w1 = w \<and> key_sem M \<rho> \<rho>' (X_ArrayAccess a i) v" for w v w1
    by (simp add: eval.simps a(4) l op_value_iff[OF M] key_sem_literal[OF M])
  then show ?case using 1(4) by (intro keeps_shared[OF d(3) _ 1(3)]) (simp_all add: a l eval.simps)
next
  case (2 index elements nid place)
  from 2(1) obtain rs s2 where d: "try_atoms elements s = Inr (rs, s2)"
    "share (X_Array (map fst rs)) (E_Array (map snd rs) nid) place s2 = Inr ((r, nn), s1)" by (auto simp: cse_bind_Inr)
  have es: "list_all (cse_operand D) elements" using 2(2) by simp
  note a = try_atoms_operands[OF d(1) es 2(3)]
  have "eval M comps (E_Array elements nid) \<rho> w = Some (v, w1) \<longleftrightarrow> w1 = w \<and> key_sem M \<rho> \<rho>' (X_Array (map fst rs)) v" for w v w1
    using a[of _ w] by (simp add: eval.simps op_value_iff[OF M] key_sem_def)
  then show ?case using 2(4) a by (intro keeps_shared[OF d(2) _ 2(3)]) (simp_all add: eval.simps)
next
  case (3 index left right op nid place)
  from 3(1) obtain a left' s2 b right' s3 a' b' where d: "try_atom left s = Inr ((a, left'), s2)" "try_atom right s2 = Inr ((b, right'), s3)"
    "order_operands index op a b = (a', b')" "share (X_Binary op a' b') (E_Binary left' right' op nid) place s3 = Inr ((r, nn), s1)"
    by (auto simp: cse_bind_Inr split: prod.splits) (metis surj_pair)
  have op: "cse_operand D left" "cse_operand D right" using 3(2) by auto
  note a = try_atom_operand[OF d(1) op(1) 3(3)]
  note b = try_atom_operand[OF d(2) op(2) 3(3)[folded a(1)]]
  have "atom_in D a'" "atom_in D b'" using a(2) b(2) d(3) by (auto simp: order_operands_def split: if_splits)
  moreover have "eval M comps (E_Binary left right op nid) \<rho> w = Some (v, w1) \<longleftrightarrow> w1 = w \<and> key_sem M \<rho> \<rho>' (X_Binary op a' b') v" for w v w1
    by (simp add: eval.simps a(4) b(4) op_value_iff[OF M] op_value_order[OF M d(3)] key_sem_def)
  ultimately show ?case using 3(4) by (intro keeps_shared[OF d(4) _ 3(3)]) (simp_all add: a b eval.simps)
next
  case (4 index l place)
  show ?case
    by (rule keeps_shared[OF 4(1)[simplified] refl 4(3) _ _ _ 4(4)]) (auto simp: eval.simps key_sem_def)
next
  case (5 index p place)
  from 5(2) obtain x where x: "try_local_symbol p = Some x" "x \<in> set D" "segments p = [x]" by (auto split: option.splits)
  show ?case
    by (rule keeps_shared[OF 5(1)[simplified] refl 5(3) _ _ _ 5(4)])
      (use x 5(3) in \<open>auto simp: eval.simps key_sem_def read_path_def tracks_def\<close>)
next
  case (6 index e cnt nid place)
  from 6(1) obtain a e' s2 c cnt' s3 where d: "try_atom e s = Inr ((a, e'), s2)" "try_atom cnt s2 = Inr ((c, cnt'), s3)"
    "share (X_Repeat a c) (E_Repeat e' cnt' nid) place s3 = Inr ((r, nn), s1)" by (auto simp: cse_bind_Inr)
  have op: "cse_operand D e" "is_literal cnt" using 6(2) by auto
  note a = try_atom_operand[OF d(1) op(1) 6(3)]
  from try_atom_literal[OF d(2) op(2)] obtain l where l: "cnt = E_Literal l" "cnt' = cnt" "c = A_Literal (lit_variant l)" "s3 = s2" by auto
  have "eval M comps (E_Repeat e cnt nid) \<rho> w = Some (v, w1) \<longleftrightarrow> w1 = w \<and> key_sem M \<rho> \<rho>' (X_Repeat a c) v" for w v w1
    by (simp add: eval.simps a(4) l op_value_iff[OF M] key_sem_literal[OF M])
  then show ?case using 6(4) by (intro keeps_shared[OF d(3) _ 6(3)]) (simp_all add: a l eval.simps)
next
  case (7 index c t f nid place)
  from 7(1) obtain c1 c' s2 t1 t' s3 f1 f' s4 where d: "try_atom c s = Inr ((c1, c'), s2)" "try_atom t s2 = Inr ((t1, t'), s3)"
    "try_atom f s3 = Inr ((f1, f'), s4)" "share (X_Ternary c1 t1 f1) (E_Ternary c' t' f' nid) place s4 = Inr ((r, nn), s1)"
    by (auto simp: cse_bind_Inr)
  have op: "cse_operand D c" "cse_operand D t" "cse_operand D f" using 7(2) by auto
  note a = try_atom_operand[OF d(1) op(1) 7(3)]
  note b = try_atom_operand[OF d(2) op(2) 7(3)[folded a(1)]]
  note c = try_atom_operand[OF d(3) op(3) 7(3)[folded a(1) b(1)]]
  have "eval M comps (E_Ternary c t f nid) \<rho> w = Some (v, w1) \<longleftrightarrow> w1 = w \<and> key_sem M \<rho> \<rho>' (X_Ternary c1 t1 f1) v" for w v w1
    by (auto simp: eval.simps a(4) b(4) c(4) key_sem_def)
  then show ?case using 7(4) by (intro keeps_shared[OF d(4) _ 7(3)]) (simp_all add: a b c eval.simps)
next
  case (8 index receiver op nid place)
  from 8(1) obtain a receiver' s2 where d: "try_atom receiver s = Inr ((a, receiver'), s2)"
    "share (X_Unary op a) (E_Unary receiver' op nid) place s2 = Inr ((r, nn), s1)" by (auto simp: cse_bind_Inr)
  have op: "cse_operand D receiver" using 8(2) by auto
  note a = try_atom_operand[OF d(1) op 8(3)]
  have "eval M comps (E_Unary receiver op nid) \<rho> w = Some (v, w1) \<longleftrightarrow> w1 = w \<and> key_sem M \<rho> \<rho>' (X_Unary op a) v" for w v w1
    by (simp add: eval.simps a(4) op_value_iff[OF M] key_sem_def)
  then show ?case using 8(4) by (intro keeps_shared[OF d(2) _ 8(3)]) (simp_all add: a eval.simps)
next
  case (9 index name tys ins outs args nid place)
  from 9(1) obtain args' where d: "cse_map try_operand args s = Inr (args', s1)" "r = E_Intrinsic name tys ins outs args' nid" "nn = False"
    by (auto simp: cse_bind_Inr)
  note a = try_operands_arguments[OF N d(1) _ 9(3)]
  show ?case unfolding d(2,3) by (rule keeps_unshared[OF _ 9(3) _ 9(4)]) (use a 9(2) in \<open>simp_all add: eval.simps\<close>)
next
  case (10 index f const_args args nid place)
  from 10(1) obtain args' where d: "cse_map try_operand args s = Inr (args', s1)" "r = E_Call f const_args args' nid" "nn = False"
    by (auto simp: cse_bind_Inr)
  note a = try_operands_arguments[OF N d(1) _ 10(3)]
  show ?case unfolding d(2,3) by (rule keeps_unshared[OF _ 10(3) _ 10(4)]) (use a 10(2) in \<open>simp_all add: eval.simps\<close>)
next
  case (11 index e ty nid place)
  from 11(1) obtain e' where d: "try_operand e s = Inr (e', s1)" "r = E_Cast e' ty nid" "nn = False" by (auto simp: cse_bind_Inr)
  have e: "cse_argument N D e" using 11(2) by simp
  note a = try_operand_argument[OF d(1) e 11(3) N]
  show ?case unfolding d(2,3) by (rule keeps_unshared[OF _ 11(3) _ 11(4)]) (simp_all add: a eval.simps)
next
  case (12 index inner name nid place)
  from 12(1) obtain inner' where d: "try_operand inner s = Inr (inner', s1)" "r = E_MemberAccess inner' name nid" "nn = False"
    by (auto simp: cse_bind_Inr)
  show ?case
  proof (cases "is_self inner")
    case True
    note a = try_operand_self[OF d(1) True 12(3) N]
    show ?thesis unfolding d(2,3)
      by (rule keeps_unshared[OF _ 12(3) _ 12(4)]) (use a True in \<open>auto simp: eval.simps is_self_def split: expression.splits\<close>)
  next
    case False
    then have e: "cse_argument N D inner" using 12(2) by simp
    note a = try_operand_argument[OF d(1) e 12(3) N]
    have "\<not> is_self inner'" using a(2) False by simp
    with False show ?thesis unfolding d(2,3)
      by (intro keeps_unshared[OF _ 12(3) _ 12(4)]) (simp_all add: a eval.simps flip: is_self_def)
  qed
next
  case (13 index path const_args inits base nid place)
  from 13(1) obtain inits' where d: "cse_map try_field inits s = Inr (inits', s1)" "r = E_Composite path const_args inits' base nid" "nn = False"
    by (auto simp: cse_bind_Inr)
  note a = try_fields_arguments[OF N d(1) _ 13(3)]
  show ?case unfolding d(2,3) by (rule keeps_unshared[OF _ 13(3) _ 13(4)]) (use a 13(2) in \<open>simp_all add: eval.simps eval_option.simps\<close>)
next
  case (14 index elements nid place)
  from 14(2) obtain elements' where d: "try_exprs index elements s = Inr (elements', s1)" "r = E_Tuple elements' nid" "nn = False"
    by (auto simp: cse_bind_Inr)
  note a = 14(1)[OF d(1) _ 14(4)]
  show ?case unfolding d(2,3) by (rule keeps_unshared[OF _ 14(4) _ 14(5)]) (use a 14(3) in \<open>simp_all add: eval.simps\<close>)
next
  case (16 index interface target network kind nid place)
  from 16(1) obtain target' s2 network' s3 kind' where d: "try_operand target s = Inr (target', s2)"
    "(case network of None \<Rightarrow> cse_return None | Some n \<Rightarrow> cse_bind (try_operand n) (\<lambda>n'. cse_return (Some n'))) s2 = Inr (network', s3)"
    "try_kind kind s3 = Inr (kind', s1)" "r = E_DynamicOp interface target' network' kind' nid" "nn = False"
    by (auto simp: cse_bind_Inr)
  have t: "cse_argument N D target" using 16(2) by simp
  note a = try_operand_argument[OF d(1) t 16(3) N]
  note b = try_network_arguments[OF N d(2) _ 16(3)[folded a(1)]]
  have b': "cse_scopes s3 = cse_scopes s2" "eval_option M comps network' \<rho>' w = eval_option M comps network \<rho> w" for w
    using b 16(2) by auto
  note c = try_kind_arguments[OF N d(3) _ 16(3)[folded a(1) b'(1)]]
  show ?case unfolding d(4,5) by (rule keeps_unshared[OF _ 16(3) _ 16(4)]) (use a b' c 16(2) in \<open>simp_all add: eval.simps\<close>)
next
  case (21 index e es)
  from 21(3) obtain e' nn s2 es' where d: "try_expr index e None s = Inr ((e', nn), s2)" "try_exprs index es s2 = Inr (es', s1)" "rs = e' # es'"
    by (auto simp: cse_bind_Inr)
  have e: "keeps_expr M comps D \<rho> \<rho>' s e None e' nn s2" using 21(1)[OF d(1)] 21(4,5) by simp
  then have s2: "cse_scopes s2 = cse_scopes s" by (simp add: keeps_expr_def)
  show ?case using 21(2)[OF d(2)] 21(4,5) e s2 d(3) by (simp add: keeps_expr_def eval_list.simps)
qed (auto simp: cse_bind_Inr eval_list.simps eval.simps intro!: keeps_unshared)

end
