(* ===== verification/Common_Subexpr_Props.thy ===== *)
theory Common_Subexpr_Props
  imports Common_Subexpr_Exprs
begin

text \<open>
  Common subexpression elimination keeps what functions compute: statements, functions and whole programs.
\<close>

section \<open>Statements\<close>

definition names_new :: "(symbol \<Rightarrow> bool) \<Rightarrow> symbol list \<Rightarrow> symbol list \<Rightarrow> bool" where
  "names_new N D xs \<longleftrightarrow> distinct xs \<and> list_all (\<lambda>x. N x \<and> x \<notin> set D) xs"

fun is_branch :: "statement \<Rightarrow> bool" where
  "is_branch (S_Block _) \<longleftrightarrow> True"
| "is_branch (S_Conditional _ _ _ _) \<longleftrightarrow> True"
| "is_branch _ \<longleftrightarrow> False"

fun cse_scoped :: "(symbol \<Rightarrow> bool) \<Rightarrow> symbol list \<Rightarrow> statement \<Rightarrow> symbol list option"
  and cse_scoped_list :: "(symbol \<Rightarrow> bool) \<Rightarrow> symbol list \<Rightarrow> statement list \<Rightarrow> symbol list option"
  and cse_scoped_option :: "(symbol \<Rightarrow> bool) \<Rightarrow> symbol list \<Rightarrow> statement option \<Rightarrow> bool"
where
  "cse_scoped N D (S_Assert variant _) =
     (if (case variant of Assert e \<Rightarrow> cse_ready N D e | AssertEq a b \<Rightarrow> cse_ready N D a \<and> cse_ready N D b
          | AssertNeq a b \<Rightarrow> cse_ready N D a \<and> cse_ready N D b) then Some D else None)"
| "cse_scoped N D (S_Assign _ _ _) = None"
| "cse_scoped N D (S_Block (Block ss _)) = (if cse_scoped_list N D ss \<noteq> None then Some D else None)"
| "cse_scoped N D (S_Conditional c (Block ss _) otherwise _) =
     (if cse_ready N D c \<and> cse_scoped_list N D ss \<noteq> None \<and> cse_scoped_option N D otherwise then Some D else None)"
| "cse_scoped N D (S_Const _ _ _ _ _) = None"
| "cse_scoped N D (S_Definition place _ e _) =
     (let xs = (case place of Single i \<Rightarrow> [ident_name i] | Multiple is \<Rightarrow> map ident_name is) in
      if cse_ready N D e \<and> names_new N D xs then Some (rev xs @ D) else None)"
| "cse_scoped N D (S_Expression e _) = (if cse_ready N D e then Some D else None)"
| "cse_scoped N D (S_Iteration _ _ _ _ _ _ _) = None"
| "cse_scoped N D (S_Return e _) = (if cse_ready N D e then Some D else None)"
| "cse_scoped_list N D [] = Some D"
| "cse_scoped_list N D (st # sts) = (case cse_scoped N D st of None \<Rightarrow> None | Some D' \<Rightarrow> cse_scoped_list N D' sts)"
| "cse_scoped_option N D None \<longleftrightarrow> True"
| "cse_scoped_option N D (Some st) \<longleftrightarrow> is_branch st \<and> cse_scoped N D st \<noteq> None"

text \<open>The runs of the code and of the new code after a statement.\<close>

fun follows ::
  "('v, 'w) meaning \<Rightarrow> symbol list \<Rightarrow> symbol list \<Rightarrow> (cse_expr \<rightharpoonup> symbol) list \<Rightarrow> 'v env \<Rightarrow> 'v env \<Rightarrow> ('v, 'w) outcome \<Rightarrow>
     ('v, 'w) outcome \<Rightarrow> bool" where
  "follows M D D' sc \<rho> \<rho>' Halted r \<longleftrightarrow> r = Halted"
| "follows M D D' sc \<rho> \<rho>' (Returned v w) r \<longleftrightarrow> r = Returned v w"
| "follows M D D' sc \<rho> \<rho>' (Running \<rho>1 w) r \<longleftrightarrow>
     (\<exists>\<rho>1'. r = Running \<rho>1' w \<and> tracks M D' sc \<rho>1 \<rho>1' \<and> (\<forall>x\<in>set D. \<rho>1 x = \<rho> x \<and> \<rho>1' x = \<rho>' x))"

lemma cse_expect_Inr [simp]: "cse_expect msg m s = Inr r \<longleftrightarrow> m s = Inr r"
  by (auto simp: cse_expect_def split: sum.splits cse_stop.splits)

lemma cse_expression_keeps:
  assumes "shares M" "\<forall>x\<in>set D. N x" "\<not> N ''self''" "cse_expression index e s = Inr (e', s')" "cse_ready N D e"
    "tracks M D (cse_scopes s) \<rho> \<rho>'"
  shows "cse_scopes s' = cse_scopes s" "eval M comps e' \<rho>' w = eval M comps e \<rho> w"
proof -
  from assms(4) obtain nn where d: "try_expr index e None s = Inr ((e', nn), s')" by (auto simp: cse_expression_def cse_bind_Inr)
  have "keeps_expr M comps D \<rho> \<rho>' s e None e' nn s'" using try_expr_keeps(1)[OF assms(1-3) d assms(5,6)] by simp
  then show "cse_scopes s' = cse_scopes s" "eval M comps e' \<rho>' w = eval M comps e \<rho> w" by (auto simp: keeps_expr_def)
qed

lemma follows_leave:
  assumes "follows M D D' sc \<rho> \<rho>' r r'" "tracks M D sc0 \<rho> \<rho>'"
  shows "follows M D D sc0 \<rho> \<rho>' r r'"
  using assms tracks_frame[OF assms(2)] by (cases r) auto

text \<open>Blocks leave the scopes as they were.\<close>

definition tail :: "cse_state \<Rightarrow> cse_state \<Rightarrow> bool" where
  "tail s s' \<longleftrightarrow> tl (cse_scopes s') = tl (cse_scopes s) \<and> (cse_scopes s \<noteq> [] \<longrightarrow> cse_scopes s' \<noteq> [])"

definition still :: "'a cse \<Rightarrow> bool" where
  "still m \<longleftrightarrow> (\<forall>s a s'. m s = Inr (a, s') \<longrightarrow> cse_scopes s' = cse_scopes s)"

lemma still_return: "still (cse_return a)"
  by (simp add: still_def)

lemma still_stop: "still (cse_stop r)"
  by (simp add: still_def)

lemma still_bind: "still m \<Longrightarrow> (\<And>a. still (f a)) \<Longrightarrow> still (cse_bind m f)"
  unfolding still_def cse_bind_Inr by metis

lemma still_map: "(\<And>a. a \<in> set as \<Longrightarrow> still (m a)) \<Longrightarrow> still (cse_map m as)"
  by (induction as) (auto intro!: still_bind still_return)

lemma still_try_atom: "still (try_atom e)"
  by (cases e) (auto simp: still_def cse_bind_Inr split: option.splits dest!: fresh_path_Inr copy_type_Inr has_type_Inr)

lemma still_try_operand: "still (try_operand e)"
  unfolding try_operand_def by (intro still_bind still_try_atom still_return)

lemma still_share: "still (share k e None)"
  by (auto simp: still_def share_def cse_bind_Inr split: option.splits dest!: fresh_path_Inr copy_type_Inr)

lemma still_try_field: "still (try_field f)"
  by (cases f rule: try_field.cases) (auto intro!: still_bind still_try_operand still_return)

lemma still_try_kind: "still (try_kind k)"
  by (cases k) (auto intro!: still_bind still_map still_try_operand still_return)

lemma still_try_expr: "place = None \<Longrightarrow> still (try_expr index e place)" "still (try_exprs index es)"
proof (induction index e place and index es rule: try_expr_try_exprs.induct)
  case (3 index left right op nid place)
  then show ?case by (auto intro!: still_bind still_try_atom still_share split: prod.splits)
qed (auto simp: try_atoms_def split: option.splits prod.splits
    intro!: still_bind still_return still_stop still_map still_try_atom still_try_operand still_try_field still_try_kind still_share)

lemma still_expression: "still (cse_expression index e)"
  unfolding cse_expression_def using still_try_expr(1)[OF refl] by (auto simp: still_def cse_bind_Inr)

definition shift :: "'a cse \<Rightarrow> bool" where
  "shift m \<longleftrightarrow> (\<forall>s a s'. m s = Inr (a, s') \<longrightarrow> tail s s')"

lemma still_shift: "still m \<Longrightarrow> shift m"
  by (auto simp: still_def shift_def tail_def)

lemma shift_bind: "shift m \<Longrightarrow> (\<And>a. shift (f a)) \<Longrightarrow> shift (cse_bind m f)"
  unfolding shift_def tail_def cse_bind_Inr by metis

lemma shift_expect: "shift m \<Longrightarrow> shift (cse_expect msg m)"
  by (simp add: shift_def)

lemma shift_share: "shift (share k e place)"
proof -
  have i: "shift (insert_expr k n)" for k n by (auto simp: shift_def tail_def insert_expr_def split: list.splits)
  have f: "shift (fresh_path n)" for n by (auto simp: shift_def tail_def dest: fresh_path_Inr)
  have c: "shift (copy_type a b)" for a b by (auto simp: shift_def tail_def dest: copy_type_Inr)
  note rules = shift_bind i f c still_shift[OF still_return]
  have "shift (cse_bind (fresh_path name) (\<lambda>q. cse_bind (copy_type (expr_id e) (path_id q)) (\<lambda>_.
      (case place of Some x \<Rightarrow> cse_bind (insert_expr (X_Atom (A_Path [x])) name) (\<lambda>_. cse_return (E_Path q, True))
       | None \<Rightarrow> cse_return (E_Path q, False)))))" for name
    by (cases place) (auto intro!: rules)
  moreover have "shift (case place of Some x \<Rightarrow> cse_bind (insert_expr k x) (\<lambda>_. cse_return (e, False)) | None \<Rightarrow> cse_return (e, False))"
    by (cases place) (auto intro!: rules)
  ultimately show ?thesis unfolding shift_def share_def by (simp split: option.splits)
qed

lemmas still_rules = still_bind still_return still_stop still_map still_try_atom still_try_operand still_try_field still_try_kind
  still_try_expr still_expression
lemmas shift_rules = shift_bind shift_share shift_expect still_shift[OF still_return] still_shift[OF still_stop]
  still_shift[OF still_try_atom] still_shift[OF still_try_operand] still_shift[OF still_try_kind] still_shift[OF still_map]
  still_shift[OF still_try_expr(2)] still_shift[OF still_expression]

lemma shift_try_expr: "shift (try_expr index e place)"
proof (cases e)
  case (E_DynamicOp interface target network kind nid)
  then show ?thesis by (auto intro!: shift_rules still_rules split: option.splits)
qed (auto simp: try_atoms_def intro!: shift_rules still_rules split: prod.splits)

lemma still_type: "still (cse_type index ty)" "still (cse_type_list index tys)"
  by (induction index ty and index tys rule: cse_type_cse_type_list.induct) (auto intro!: still_rules)

lemma still_assert: "still (cse_assert index v)"
  by (cases v) (auto intro!: still_rules)

lemma still_in_scope: "shift m \<Longrightarrow> still (in_scope m)"
  by (fastforce simp: still_def shift_def tail_def in_scope_def split: sum.splits prod.splits)

lemma cse_shifts:
  "still (cse_block index b)" "shift (cse_statement index st)" "shift (cse_statements index sts)" "shift (cse_otherwise index oth)"
proof (induction index b and index st and index sts and index oth rule: cse_block_cse_statement_cse_statements_cse_otherwise.induct)
  case (7 index place ty e nid)
  then show ?case by (auto intro!: shift_rules shift_try_expr split: definition_place.splits)
qed (auto intro!: shift_rules still_in_scope still_shift[OF still_assert] still_shift[OF still_type(1)] intro: still_shift)

lemma scoped_grows:
  "cse_scoped N D st = Some D' \<Longrightarrow> \<forall>x\<in>set D. N x \<Longrightarrow> (\<forall>x\<in>set D'. N x) \<and> set D \<subseteq> set D'"
proof (cases st)
  case (S_Definition place ty e nid)
  then show "cse_scoped N D st = Some D' \<Longrightarrow> \<forall>x\<in>set D. N x \<Longrightarrow> ?thesis"
    by (auto simp: Let_def names_new_def list_all_iff split: if_splits)
next
  case (S_Block b)
  then show "cse_scoped N D st = Some D' \<Longrightarrow> \<forall>x\<in>set D. N x \<Longrightarrow> ?thesis" by (cases b) (auto split: if_splits)
next
  case (S_Conditional c b oth nid)
  then show "cse_scoped N D st = Some D' \<Longrightarrow> \<forall>x\<in>set D. N x \<Longrightarrow> ?thesis" by (cases b) (auto split: if_splits)
qed (auto split: if_splits)

lemma tracks_push: "tracks M D (Map.empty # sc) \<rho> \<rho>' = tracks M D sc \<rho> \<rho>'"
  by (auto simp: tracks_def)

lemma tracks_names:
  "tracks M D sc \<rho> \<rho>' \<Longrightarrow> names_new N D (map ident_name is) \<Longrightarrow> length vs = length is \<Longrightarrow>
     tracks M (rev (map ident_name is) @ D) sc (bind_names is vs \<rho>) (bind_names is vs \<rho>')"
proof (induction "is" arbitrary: vs D \<rho> \<rho>')
  case (Cons i "is")
  then obtain v vs' where v: "vs = v # vs'" by (cases vs) auto
  have "tracks M (ident_name i # D) sc (\<rho>(ident_name i := v)) (\<rho>'(ident_name i := v))"
    using Cons.prems by (intro tracks_new) (auto simp: names_new_def)
  moreover have "names_new N (ident_name i # D) (map ident_name is)" using Cons.prems(2) by (auto simp: names_new_def list_all_iff) (metis imageI)
  ultimately have "tracks M (rev (map ident_name is) @ ident_name i # D) sc (bind_names is vs' (\<rho>(ident_name i := v)))
      (bind_names is vs' (\<rho>'(ident_name i := v)))"
    using Cons.IH Cons.prems(3) v by simp
  then show ?case using v by simp
qed simp

text \<open>A definition that is not needed: its value is a variable.\<close>

lemma not_needed_path: "try_expr index e place s = Inr ((r, True), s') \<Longrightarrow> \<exists>q. r = E_Path q"
proof -
  have sh: "\<exists>q. r = E_Path q" if "share k e1 pl s1 = Inr ((r, True), s2)" for k e1 pl s1 s2
    using that by (auto simp: share_def cse_bind_Inr split: option.splits)
  show "try_expr index e place s = Inr ((r, True), s') \<Longrightarrow> \<exists>q. r = E_Path q"
  proof (cases e)
    case (E_Binary left right op nid)
    then show "try_expr index e place s = Inr ((r, True), s') \<Longrightarrow> \<exists>q. r = E_Path q"
      by (auto simp: cse_bind_Inr order_operands_def split: if_splits elim!: sh)
  qed (auto simp: cse_bind_Inr elim!: sh)
qed

lemma define_follows:
  assumes M: "shares M" and N: "\<forall>x\<in>set D. N x" "\<not> N ''self''" and c: "cse_statement index (S_Definition place ty e nid) s = Inr (st', s')"
    and sc: "cse_scoped N D (S_Definition place ty e nid) = Some D'" and t: "tracks M D (cse_scopes s) \<rho> \<rho>'"
  shows "follows M D D' (cse_scopes s') \<rho> \<rho>' (exec M comps (S_Definition place ty e nid) \<rho> w) (exec M comps st' \<rho>' w)"
proof (cases place)
  case (Single i)
  let ?n = "ident_name i"
  from sc Single have e: "cse_ready N D e" "?n \<notin> set D" "D' = ?n # D" by (auto simp: names_new_def split: if_splits)
  from c Single obtain e' nn where d: "try_expr index e (Some ?n) s = Inr ((e', nn), s')"
    "st' = (if nn then statement_dummy else S_Definition place ty e' nid)" by (auto simp: cse_bind_Inr)
  have k: "keeps_expr M comps D \<rho> \<rho>' s e (Some ?n) e' nn s'" using try_expr_keeps(1)[OF M N d(1) e(1) t] e(2) by simp
  show ?thesis
  proof (cases "eval M comps e \<rho> w")
    case None
    with k have n: "eval M comps e' \<rho>' w = None" by (simp add: keeps_expr_def)
    moreover have "\<not> nn" using not_needed_path[of index e "Some ?n" s e' s'] d(1) n by (cases nn) (auto simp: eval.simps)
    ultimately show ?thesis using None d by simp
  next
    case (Some r)
    obtain v w1 where r: "r = (v, w1)" by (cases r)
    with k Some have k': "eval M comps e' \<rho>' w = Some (v, w1)" "nn \<Longrightarrow> w1 = w"
      "tracks M D' (cse_scopes s') (\<rho>(?n := v)) (if nn then \<rho>' else \<rho>'(?n := v))" using e(3) by (auto simp: keeps_expr_def)
    show ?thesis
    proof (cases nn)
      case True
      then show ?thesis using k' Some r Single d(2) e(2) by (auto simp: define_place_def run_with_def statement_dummy_def)
    next
      case False
      then show ?thesis using k' Some r Single d(2) e(2) by (auto simp: define_place_def run_with_def)
    qed
  qed
next
  case (Multiple "is")
  let ?xs = "map ident_name is"
  from sc Multiple have e: "cse_ready N D e" "names_new N D ?xs" "D' = rev ?xs @ D" by (auto simp: Let_def split: if_splits)
  from c Multiple obtain e' nn where d: "try_expr index e None s = Inr ((e', nn), s')" "st' = S_Definition place ty e' nid"
    by (auto simp: cse_bind_Inr)
  have "keeps_expr M comps D \<rho> \<rho>' s e None e' nn s'" using try_expr_keeps(1)[OF M N d(1) e(1) t] by simp
  then have k: "eval M comps e' \<rho>' w = eval M comps e \<rho> w" "cse_scopes s' = cse_scopes s" by (auto simp: keeps_expr_def)
  have "bind_names is vs \<rho>0 x = \<rho>0 x" if "x \<in> set D" for vs \<rho>0 x
    using that e(2) by (intro bind_names_other) (auto simp: names_new_def list_all_iff)
  then show ?thesis using d(2) k Multiple e(3) tracks_names[OF t e(2)]
    by (auto simp: define_place_def run_with_def bind_Some split: option.splits bind_splits)
qed

text \<open>The other statements.\<close>

lemma assert_follows:
  assumes M: "shares M" and N: "\<forall>x\<in>set D. N x" "\<not> N ''self''" and c: "cse_assert index v s = Inr (v', s')"
    and sc: "cse_scoped N D (S_Assert v nid) = Some D'" and t: "tracks M D (cse_scopes s) \<rho> \<rho>'"
  shows "follows M D D' (cse_scopes s') \<rho> \<rho>' (check_assert M comps v \<rho> w) (check_assert M comps v' \<rho>' w)"
proof -
  have s': "cse_scopes s' = cse_scopes s" using still_assert c unfolding still_def by blast
  have "D' = D" using sc by (auto split: if_splits)
  note e = cse_expression_keeps[OF M N]
  have two: "eval_list M comps [a', b'] \<rho>' w = eval_list M comps [a, b] \<rho> w"
    if "cse_expression index a s = Inr (a', s1)" "cse_expression index b s1 = Inr (b', s2)" "cse_ready N D a" "cse_ready N D b" for a b a' b' s1 s2
  proof -
    note a = e[OF that(1,3) t]
    note b = e[OF that(2,4) t[folded a(1)]]
    show ?thesis by (simp add: eval_list.simps a b)
  qed
  show ?thesis
  proof (cases v)
    case (Assert x)
    with c obtain x' where "cse_expression index x s = Inr (x', s')" "v' = Assert x'" by (auto simp: cse_bind_Inr)
    moreover have "cse_ready N D x" using sc Assert by (auto split: if_splits)
    ultimately show ?thesis using Assert t s' \<open>D' = D\<close> e(2)[of index x s x' s' \<rho> \<rho>' comps w] by (auto simp: check_assert_def split: option.splits)
  next
    case (AssertEq a b)
    with c obtain a' s1 b' where "cse_expression index a s = Inr (a', s1)" "cse_expression index b s1 = Inr (b', s')" "v' = AssertEq a' b'"
      by (auto simp: cse_bind_Inr)
    moreover have "cse_ready N D a" "cse_ready N D b" using sc AssertEq by (auto split: if_splits)
    ultimately show ?thesis using AssertEq t s' \<open>D' = D\<close> two[of a a' s1 b b' s'] by (auto simp: check_assert_def split: option.splits)
  next
    case (AssertNeq a b)
    with c obtain a' s1 b' where "cse_expression index a s = Inr (a', s1)" "cse_expression index b s1 = Inr (b', s')" "v' = AssertNeq a' b'"
      by (auto simp: cse_bind_Inr)
    moreover have "cse_ready N D a" "cse_ready N D b" using sc AssertNeq by (auto split: if_splits)
    ultimately show ?thesis using AssertNeq t s' \<open>D' = D\<close> two[of a a' s1 b b' s'] by (auto simp: check_assert_def split: option.splits)
  qed
qed

lemma block_parts:
  assumes "cse_block index (Block ss nid) s = Inr (b', s')"
  shows "\<exists>ss' s1. cse_statements index ss (s\<lparr>cse_scopes := Map.empty # cse_scopes s\<rparr>) = Inr (ss', s1) \<and> b' = Block ss' nid"
  using assms by (auto simp: in_scope_def cse_bind_Inr split: sum.splits)

lemma still_branch:
  "still (cse_block index b)" "is_branch st \<Longrightarrow> cse_scoped N D st \<noteq> None \<Longrightarrow> still (cse_statement index st)" "shift (cse_statements index sts)"
  "cse_scoped_option N D oth \<Longrightarrow> still (cse_otherwise index oth)"
proof (induction index b and index st and index sts and index oth rule: cse_block_cse_statement_cse_statements_cse_otherwise.induct)
  case (5 index condition then_block otherwise nid)
  then show ?case using cse_shifts(1) by (cases then_block) (auto intro!: still_rules simp del: cse_block.simps split: if_splits)
qed (auto simp: cse_shifts simp del: cse_block.simps cse_statements.simps intro!: still_rules)

lemma cse_follows:
  assumes M: "shares M" and self: "\<not> N ''self''"
  shows "cse_block index b s = Inr (b', s') \<Longrightarrow> cse_scoped N D (S_Block b) \<noteq> None \<Longrightarrow> \<forall>x\<in>set D. N x \<Longrightarrow>
      tracks M D (cse_scopes s) \<rho> \<rho>' \<Longrightarrow> follows M D D (cse_scopes s) \<rho> \<rho>' (exec M comps (S_Block b) \<rho> w) (exec M comps (S_Block b') \<rho>' w)"
    and "cse_statement index st s = Inr (st', s') \<Longrightarrow> cse_scoped N D st = Some D' \<Longrightarrow> \<forall>x\<in>set D. N x \<Longrightarrow>
      tracks M D (cse_scopes s) \<rho> \<rho>' \<Longrightarrow> follows M D D' (cse_scopes s') \<rho> \<rho>' (exec M comps st \<rho> w) (exec M comps st' \<rho>' w)"
    and "cse_statements index sts s = Inr (sts', s') \<Longrightarrow> cse_scoped_list N D sts = Some D' \<Longrightarrow> \<forall>x\<in>set D. N x \<Longrightarrow>
      tracks M D (cse_scopes s) \<rho> \<rho>' \<Longrightarrow> follows M D D' (cse_scopes s') \<rho> \<rho>' (exec_list M comps sts \<rho> w) (exec_list M comps sts' \<rho>' w)"
    and "cse_otherwise index oth s = Inr (oth', s') \<Longrightarrow> cse_scoped_option N D oth \<Longrightarrow> \<forall>x\<in>set D. N x \<Longrightarrow>
      tracks M D (cse_scopes s) \<rho> \<rho>' \<Longrightarrow> follows M D D (cse_scopes s) \<rho> \<rho>' (exec_option M comps oth \<rho> w) (exec_option M comps oth' \<rho>' w)"
proof (induction index b and index st and index sts and index oth
    arbitrary: s b' s' D \<rho> \<rho>' w and s st' s' D D' \<rho> \<rho>' w and s sts' s' D D' \<rho> \<rho>' w and s oth' s' D \<rho> \<rho>' w
    rule: cse_block_cse_statement_cse_statements_cse_otherwise.induct)
  case (1 index ss nid)
  from block_parts[OF 1(2)] obtain ss' s1 where d: "cse_statements index ss (s\<lparr>cse_scopes := Map.empty # cse_scopes s\<rparr>) = Inr (ss', s1)"
    "b' = Block ss' nid" by blast
  from 1(3) obtain D' where "cse_scoped_list N D ss = Some D'" by (auto split: if_splits)
  from 1(1)[OF d(1) this 1(4), of \<rho> \<rho>' w] 1(5) d(2) show ?case
    by (auto simp: tracks_push intro: follows_leave)
next
  case (2 index variant nid)
  from 2(1) obtain v' where "cse_assert index variant s = Inr (v', s')" "st' = S_Assert v' nid" by (auto simp: cse_bind_Inr)
  then show ?case using assert_follows[OF M 2(3) self _ 2(2,4)] by simp
next
  case (4 index b)
  from 4(2) obtain b' where b: "cse_block index b s = Inr (b', s')" "st' = S_Block b'" by (auto simp: cse_bind_Inr)
  have "cse_scopes s' = cse_scopes s" using cse_shifts(1) b(1) unfolding still_def by blast
  moreover have "cse_scoped N D (S_Block b) \<noteq> None" "D' = D" using 4(3) by (cases b, auto split: if_splits)+
  ultimately show ?case using 4(1)[OF b(1) _ 4(4,5)] b(2) by simp
next
  case (5 index condition then_block otherwise nid)
  from 5(3) obtain c' s1 b' s2 oth' where d: "cse_expression index condition s = Inr (c', s1)" "cse_block index then_block s1 = Inr (b', s2)"
    "cse_otherwise index otherwise s2 = Inr (oth', s')" "st' = S_Conditional c' b' oth' nid" by (auto simp: cse_bind_Inr)
  obtain ss bid ss' bid' where b: "then_block = Block ss bid" "b' = Block ss' bid'" by (cases then_block, cases b')
  have sc: "cse_ready N D condition" "cse_scoped N D (S_Block then_block) \<noteq> None" "cse_scoped_option N D otherwise" "D' = D"
    using 5(4) b by (auto split: if_splits)
  note c = cse_expression_keeps[OF M 5(5) self d(1) sc(1) 5(6)]
  have s2: "cse_scopes s2 = cse_scopes s1" using cse_shifts(1) d(2) unfolding still_def by blast
  have t1: "tracks M D (cse_scopes s1) \<rho> \<rho>'" "tracks M D (cse_scopes s2) \<rho> \<rho>'" using 5(6) c(1) s2 by auto
  note th = 5(1)[OF d(2) sc(2) 5(5) t1(1)] and el = 5(2)[OF d(3) sc(3) 5(5) t1(2)]
  have s': "cse_scopes s' = cse_scopes s" using still_branch(4)[OF sc(3)] d(3) s2 c(1) unfolding still_def by metis
  show ?case
  proof (cases "eval M comps condition \<rho> w")
    case (Some r)
    then show ?thesis using th el c s2 s' sc(4) b d(4) by (cases r) (auto split: option.splits bool.splits)
  qed (use c b d(4) in simp)
next
  case (7 index place ty e nid)
  show ?case by (rule define_follows[OF M 7(3) self 7(1,2,4)])
next
  case (8 index e nid)
  from 8(1) obtain e' where d: "cse_expression index e s = Inr (e', s')" "st' = S_Expression e' nid" by (auto simp: cse_bind_Inr)
  have sc: "cse_ready N D e" "D' = D" using 8(2) by (auto split: if_splits)
  show ?case using cse_expression_keeps[OF M 8(3) self d(1) sc(1) 8(4)] d(2) sc(2) 8(4) by (auto split: option.splits)
next
  case (10 index e nid)
  from 10(1) obtain e' where d: "cse_expression index e s = Inr (e', s')" "st' = S_Return e' nid" by (auto simp: cse_bind_Inr)
  have sc: "cse_ready N D e" "D' = D" using 10(2) by (auto split: if_splits)
  show ?case using cse_expression_keeps[OF M 10(3) self d(1) sc(1) 10(4)] d(2) by (auto split: option.splits)
next
  case (12 index st sts)
  from 12(3) obtain st1 s1 sts1 where d: "cse_statement index st s = Inr (st1, s1)" "cse_statements index sts s1 = Inr (sts1, s')"
    "sts' = st1 # sts1" by (auto simp: cse_bind_Inr)
  from 12(4) obtain D1 where D1: "cse_scoped N D st = Some D1" "cse_scoped_list N D1 sts = Some D'" by (auto split: option.splits)
  note g = scoped_grows[OF D1(1) 12(5)]
  have hd: "follows M D D1 (cse_scopes s1) \<rho> \<rho>' (exec M comps st \<rho> w) (exec M comps st1 \<rho>' w)" using 12(1)[OF d(1) D1(1) 12(5,6)] .
  show ?case
  proof (cases "exec M comps st \<rho> w")
    case (Running \<rho>1 w1)
    with hd obtain \<rho>1' where r: "exec M comps st1 \<rho>' w = Running \<rho>1' w1" "tracks M D1 (cse_scopes s1) \<rho>1 \<rho>1'"
      "\<forall>x\<in>set D. \<rho>1 x = \<rho> x \<and> \<rho>1' x = \<rho>' x" by auto
    have "follows M D1 D' (cse_scopes s') \<rho>1 \<rho>1' (exec_list M comps sts \<rho>1 w1) (exec_list M comps sts1 \<rho>1' w1)"
      using 12(2)[OF d(2) D1(2) _ r(2)] g by blast
    then have "follows M D D' (cse_scopes s') \<rho> \<rho>' (exec_list M comps sts \<rho>1 w1) (exec_list M comps sts1 \<rho>1' w1)"
      using r(3) g by (cases "exec_list M comps sts \<rho>1 w1") fastforce+
    then show ?thesis using Running r(1) d(3) by simp
  qed (use hd d(3) in auto)
next
  case (14 index st)
  from 14(2) obtain st1 where d: "cse_statement index st s = Inr (st1, s')" "oth' = Some st1" by (auto simp: cse_bind_Inr)
  from 14(3) obtain D' where "cse_scoped N D st = Some D'" by auto
  from follows_leave[OF 14(1)[OF d(1) this 14(4,5)] 14(5)] d(2) show ?case by simp
qed (auto simp: cse_bind_Inr split: if_splits)

section \<open>Code in single-assignment form does not make the visitor stop\<close>

definition typed :: "cse_state \<Rightarrow> bool" where
  "typed s \<longleftrightarrow> (\<forall>nid. cse_types s nid \<noteq> None)"

definition works :: "'a cse \<Rightarrow> bool" where
  "works m \<longleftrightarrow> (\<forall>s. typed s \<longrightarrow> cse_scopes s \<noteq> [] \<longrightarrow> (\<exists>a s'. m s = Inr (a, s') \<and> typed s'))"

lemma works_return: "works (cse_return a)"
  by (auto simp: works_def cse_return_def)

lemma works_bind:
  assumes "works m" "shift m" "\<And>a. works (f a)" shows "works (cse_bind m f)"
  unfolding works_def
proof (intro allI impI)
  fix s assume s: "typed s" "cse_scopes s \<noteq> []"
  with assms(1) obtain a s1 where m: "m s = Inr (a, s1)" "typed s1" unfolding works_def by blast
  with assms(2) s have "cse_scopes s1 \<noteq> []" unfolding shift_def tail_def by blast
  with assms(3) m(2) obtain b s2 where "f a s1 = Inr (b, s2)" "typed s2" unfolding works_def by blast
  with m(1) show "\<exists>a s'. cse_bind m f s = Inr (a, s') \<and> typed s'" by (auto simp: cse_bind_def)
qed

lemma works_map: "(\<And>a. a \<in> set as \<Longrightarrow> works (m a)) \<Longrightarrow> (\<And>a. a \<in> set as \<Longrightarrow> still (m a)) \<Longrightarrow> works (cse_map m as)"
  by (induction as) (auto intro!: works_bind works_return still_shift[OF still_map] intro: still_shift)

lemma works_expect: "works m \<Longrightarrow> works (cse_expect msg m)"
  unfolding works_def cse_expect_def by (metis sum.simps(6))

lemma works_atom: "works (try_atom (E_Literal l))" "works (try_atom (E_Path p))"
proof -
  show "works (try_atom (E_Literal l))" by (simp add: works_return)
  have "\<exists>a s'. cse_bind (has_type (path_id p)) (\<lambda>_. cse_bind (fresh_path name) (\<lambda>q.
      cse_bind (copy_type (path_id p) (path_id q)) (\<lambda>_. cse_return (A_Path [name], E_Path q)))) s = Inr (a, s') \<and> typed s'"
    if "typed s" for name s
    using that by (auto simp: cse_bind_def has_type_def fresh_path_def copy_type_def cse_return_def typed_def split: option.splits)
  then show "works (try_atom (E_Path p))" by (auto simp: works_def cse_return_def split: option.splits)
qed

lemma works_operand: "cse_operand D e \<Longrightarrow> works (try_atom e)"
  using works_atom by (cases e) (simp_all del: try_atom.simps)

lemma works_argument: "cse_argument N D e \<Longrightarrow> works (try_operand e)"
  unfolding try_operand_def using works_atom
  by (cases e) (auto simp del: try_atom.simps intro!: works_bind works_return still_shift[OF still_try_atom])

lemma works_share: "works (share k e place)"
proof -
  have i: "\<exists>s'. insert_expr k n s = Inr ((), s') \<and> typed s'" if "typed s" "cse_scopes s \<noteq> []" for k n s
    using that by (cases "cse_scopes s") (auto simp: insert_expr_def typed_def)
  have f: "\<exists>q s'. fresh_path n s = Inr (q, s') \<and> typed s' \<and> cse_scopes s' = cse_scopes s" if "typed s" for n s
    using that by (auto simp: fresh_path_def typed_def)
  have c: "\<exists>s'. copy_type a b s = Inr ((), s') \<and> typed s' \<and> cse_scopes s' = cse_scopes s" if "typed s" for a b s
    using that by (auto simp: copy_type_def typed_def split: option.splits)
  have ins: "works (insert_expr k n)" for k n unfolding works_def using i by blast
  have fr: "works (fresh_path n)" "shift (fresh_path n)" for n
    unfolding works_def shift_def tail_def using f by (blast, metis Inr_inject fresh_path_Inr)
  have co: "works (copy_type a b)" "shift (copy_type a b)" for a b
    unfolding works_def shift_def tail_def using c by (blast, metis copy_type_Inr)
  have si: "shift (insert_expr k n)" for k n by (auto simp: shift_def tail_def insert_expr_def split: list.splits)
  have "works (cse_bind (fresh_path name) (\<lambda>q. cse_bind (copy_type (expr_id e) (path_id q)) (\<lambda>_.
      (case place of Some x \<Rightarrow> cse_bind (insert_expr (X_Atom (A_Path [x])) name) (\<lambda>_. cse_return (E_Path q, True))
       | None \<Rightarrow> cse_return (E_Path q, False)))))" for name
    by (cases place) (auto intro!: works_bind ins fr co si works_return)
  moreover have "works (case place of Some x \<Rightarrow> cse_bind (insert_expr k x) (\<lambda>_. cse_return (e, False)) | None \<Rightarrow> cse_return (e, False))"
    by (cases place) (auto intro!: works_bind ins si works_return)
  ultimately show ?thesis unfolding works_def share_def by (simp split: option.splits)
qed

lemma works_literal: "is_literal e \<Longrightarrow> works (try_atom e)"
  by (cases e) (simp_all add: works_return)

lemma works_kind:
  "(case k of Dyn_Call _ args \<Rightarrow> list_all (cse_argument N D) args | Dyn_Op _ _ args \<Rightarrow> list_all (cse_argument N D) args | Dyn_Read _ \<Rightarrow> True) \<Longrightarrow>
     works (try_kind k)"
  by (cases k) (auto simp: list_all_iff intro!: works_bind works_return works_map works_argument shift_rules still_rules)

lemma works_fields:
  "list_all (\<lambda>f. case f of Field_Init _ (Some e) _ \<Rightarrow> cse_argument N D e | _ \<Rightarrow> False) fs \<Longrightarrow> works (cse_map try_field fs)"
proof (intro works_map still_try_field)
  fix f assume "list_all (\<lambda>f. case f of Field_Init _ (Some e) _ \<Rightarrow> cse_argument N D e | _ \<Rightarrow> False) fs" "f \<in> set fs"
  then show "works (try_field f)"
    by (cases f rule: try_field.cases) (auto simp: list_all_iff intro!: works_bind works_return works_argument shift_rules)
qed

lemma works_self: "is_self e \<Longrightarrow> works (try_operand e)"
  unfolding try_operand_def using works_atom
  by (cases e) (auto simp: is_self_def simp del: try_atom.simps intro!: works_bind works_return still_shift[OF still_try_atom])

lemmas works_rules = works_bind works_return works_map works_share
lemmas works_leaves = works_operand works_argument works_literal works_kind works_fields works_self

lemma works_try_expr:
  "cse_ready N D e \<Longrightarrow> works (try_expr index e place)"
  "list_all (cse_ready N D) es \<Longrightarrow> works (try_exprs index es)"
proof (induction index e place and index es rule: try_expr_try_exprs.induct)
  case (16 index interface target network kind nid place)
  then show ?case by (auto intro!: works_rules shift_rules still_rules intro: works_leaves split: option.splits)
next
  case (13 index path const_args inits base nid place)
  then show ?case by (auto intro!: works_bind works_return shift_rules still_rules intro: works_fields)
qed (auto simp: try_atoms_def list_all_iff intro!: works_rules shift_rules still_rules shift_try_expr intro: works_leaves split: prod.splits)

lemma works_expression: "cse_ready N D e \<Longrightarrow> works (cse_expression index e)"
  unfolding cse_expression_def by (auto intro!: works_bind works_return works_expect shift_expect shift_try_expr intro: works_try_expr)

lemma works_in_scope:
  assumes "works m" "typed s" shows "\<exists>a s'. in_scope m s = Inr (a, s') \<and> typed s'"
proof -
  have "typed (s\<lparr>cse_scopes := Map.empty # cse_scopes s\<rparr>)" using assms(2) by (simp add: typed_def)
  then obtain a s' where "m (s\<lparr>cse_scopes := Map.empty # cse_scopes s\<rparr>) = Inr (a, s')" "typed s'"
    using assms(1) unfolding works_def by fastforce
  then show ?thesis by (auto simp: in_scope_def typed_def)
qed

lemma cse_works:
  "cse_scoped N D (S_Block b) \<noteq> None \<Longrightarrow> typed s \<Longrightarrow> \<exists>b' s'. cse_block index b s = Inr (b', s') \<and> typed s'"
  "cse_scoped N D st \<noteq> None \<Longrightarrow> works (cse_statement index st)"
  "cse_scoped_list N D sts \<noteq> None \<Longrightarrow> works (cse_statements index sts)"
  "cse_scoped_option N D oth \<Longrightarrow> works (cse_otherwise index oth)"
proof (induction index b and index st and index sts and index oth arbitrary: D s and D and D and D
    rule: cse_block_cse_statement_cse_statements_cse_otherwise.induct)
  case (1 index ss nid)
  then have "works (cse_bind (cse_statements index ss) (\<lambda>ss'. cse_return (Block ss' nid)))"
    by (auto intro!: works_bind works_return cse_shifts split: if_splits)
  from works_in_scope[OF this 1(3)] show ?case by simp
next
  case (2 index variant nid)
  then show ?case
    by (cases variant) (auto intro!: works_bind works_return shift_rules intro: works_expression split: if_splits)
next
  case (4 index b)
  have "works (cse_block index b)" unfolding works_def using 4 by (cases b) (auto split: if_splits)
  then show ?case by (auto intro!: works_bind works_return still_shift[OF cse_shifts(1)])
next
  case (5 index condition then_block otherwise nid)
  have "cse_scoped N D (S_Block then_block) \<noteq> None" using 5(3) by (cases then_block) (auto split: if_splits)
  then have "works (cse_block index then_block)" unfolding works_def using 5(1) by blast
  moreover have "works (cse_otherwise index otherwise)" "cse_ready N D condition" using 5 by (cases then_block; auto split: if_splits)+
  ultimately show ?case
    by (auto intro!: works_bind works_return shift_rules still_shift[OF cse_shifts(1)] cse_shifts intro: works_expression)
next
  case (7 index place ty e nid)
  then have "cse_ready N D e" by (auto simp: Let_def split: if_splits)
  then show ?case
    by (cases place) (auto intro!: works_bind works_return works_expect shift_expect shift_try_expr intro: works_try_expr)
next
  case (12 index st sts)
  then obtain D' where "cse_scoped N D st = Some D'" "cse_scoped_list N D' sts \<noteq> None" by (auto split: option.splits)
  with 12 show ?case by (auto intro!: works_bind works_return cse_shifts)
next
  case (14 index st)
  then show ?case by (auto intro!: works_bind works_return cse_shifts)
qed (auto intro!: works_bind works_return shift_rules intro: works_expression split: if_splits)

section \<open>Functions and programs\<close>

definition cse_form :: "(symbol \<Rightarrow> bool) \<Rightarrow> leo_function \<Rightarrow> bool" where
  "cse_form N f \<longleftrightarrow>
     \<not> N ''self'' \<and> list_all N (input_names f) \<and> cse_scoped N (input_names f) (S_Block (fn_block f)) \<noteq> None"

text \<open>The same result and effects, on every run.\<close>

definition cse_result ::
  "('v, 'w) meaning \<Rightarrow> (symbol \<Rightarrow> location \<rightharpoonup> composite) \<Rightarrow> symbol \<times> leo_function \<Rightarrow> symbol \<times> leo_function \<Rightarrow> bool" where
  "cse_result M comps = (\<lambda>(p, f) (p', f'). p' = p \<and>
     (\<forall>args \<rho> w. run_function M (comps p) f' args \<rho> w = run_function M (comps p) f args \<rho> w))"

lemma follows_finish: "follows M D D' sc \<rho> \<rho>' r r' \<Longrightarrow> finish K r' = finish K r"
  by (cases r) auto

lemma cse_function_runs:
  assumes M: "shares M" and f: "cse_form N f" and s: "typed s" "cse_scopes s = []"
  shows "\<exists>f' s'. cse_function index f s = Inr (f', s') \<and> typed s' \<and> cse_scopes s' = [] \<and> cse_result M comps (p, f) (p, f')"
proof -
  from f have sc: "cse_scoped N (input_names f) (S_Block (fn_block f)) \<noteq> None" and N: "\<forall>x\<in>set (input_names f). N x" "\<not> N ''self''"
    by (auto simp: cse_form_def list_all_iff)
  from cse_works(1)[OF sc s(1)] obtain b' s' where b': "cse_block index (fn_block f) s = Inr (b', s')" "typed s'" by blast
  have "cse_scopes s' = []" using cse_shifts(1) b'(1) s(2) unfolding still_def by metis
  moreover have "follows M (input_names f) (input_names f) [] \<rho> \<rho> (exec M comps (S_Block (fn_block f)) \<rho> w) (exec M comps (S_Block b') \<rho> w)" for comps \<rho> w
    using cse_follows(1)[OF M N(2) b'(1) sc N(1), of \<rho> \<rho> comps w] s(2) by (simp add: tracks_def)
  then have "finish M (exec M comps (S_Block b') \<rho> w) = finish M (exec M comps (S_Block (fn_block f)) \<rho> w)" for comps \<rho> w
    by (rule follows_finish)
  then have "run_function M comps (f\<lparr>fn_block := b'\<rparr>) args \<rho> w = run_function M comps f args \<rho> w" for comps args \<rho> w
    by (cases b'; cases "fn_block f") (simp add: run_function_def)
  ultimately show ?thesis using b' by (auto simp: cse_function_def cse_bind_def cse_return_def cse_result_def)
qed

text \<open>A part of a program whose functions are \<open>F a\<close>.\<close>

definition part_works ::
  "('v, 'w) meaning \<Rightarrow> (symbol \<Rightarrow> location \<rightharpoonup> composite) \<Rightarrow> 'a cse \<Rightarrow> (symbol \<times> leo_function) list \<Rightarrow> ('a \<Rightarrow> (symbol \<times> leo_function) list) \<Rightarrow> bool" where
  "part_works M comps m fs F \<longleftrightarrow>
     (\<forall>s. typed s \<longrightarrow> cse_scopes s = [] \<longrightarrow>
        (\<exists>a s'. m s = Inr (a, s') \<and> typed s' \<and> cse_scopes s' = [] \<and> list_all2 (cse_result M comps) fs (F a)))"

lemma part_function:
  "shares M \<Longrightarrow> cse_form N f \<Longrightarrow> part_works M comps (cse_function index f) [(p, f)] (\<lambda>f'. [(p, f')])"
  unfolding part_works_def using cse_function_runs[of M N f _ index comps p] by fastforce

lemma part_worksE:
  assumes "part_works M comps m fs F" "typed s" "cse_scopes s = []"
  obtains a s' where "m s = Inr (a, s')" "typed s'" "cse_scopes s' = []" "list_all2 (cse_result M comps) fs (F a)"
  using assms unfolding part_works_def by blast

lemma part_map:
  "(\<And>k a. (k, a) \<in> set xs \<Longrightarrow> part_works M comps (m a) (F a) F) \<Longrightarrow>
     part_works M comps (cse_map (cse_named m) xs) (concat (map (F \<circ> snd) xs)) (\<lambda>ys. concat (map (F \<circ> snd) ys))"
proof (induction xs)
  case (Cons x xs)
  obtain k a where x: "x = (k, a)" by (cases x)
  have hd: "part_works M comps (m a) (F a) F" using Cons.prems x by auto
  have tl: "part_works M comps (cse_map (cse_named m) xs) (concat (map (F \<circ> snd) xs)) (\<lambda>ys. concat (map (F \<circ> snd) ys))"
    by (rule Cons.IH) (use Cons.prems in auto)
  show ?case unfolding part_works_def
  proof (intro allI impI)
    fix s assume s: "typed s" "cse_scopes s = []"
    obtain b s1 where b: "m a s = Inr (b, s1)" "typed s1" "cse_scopes s1 = []" "list_all2 (cse_result M comps) (F a) (F b)"
      by (rule part_worksE[OF hd s])
    obtain ys s2 where ys: "cse_map (cse_named m) xs s1 = Inr (ys, s2)" "typed s2" "cse_scopes s2 = []"
      "list_all2 (cse_result M comps) (concat (map (F \<circ> snd) xs)) (concat (map (F \<circ> snd) ys))"
      by (rule part_worksE[OF tl b(2,3)])
    show "\<exists>r s'. cse_map (cse_named m) (x # xs) s = Inr (r, s') \<and> typed s' \<and> cse_scopes s' = [] \<and>
        list_all2 (cse_result M comps) (concat (map (F \<circ> snd) (x # xs))) (concat (map (F \<circ> snd) r))"
      using b ys x by (auto simp: cse_bind_def cse_named_def cse_return_def list_all2_appendI)
  qed
qed (simp add: part_works_def cse_return_def)

lemma tagged_concat: "tagged p fs = concat (map ((\<lambda>f. [(p, f)]) \<circ> snd) fs)"
  by (induction fs) (auto simp: tagged_def)

lemma part_functions:
  "shares M \<Longrightarrow> list_all (cse_form N \<circ> snd) (tagged p fs) \<Longrightarrow>
     part_works M comps (cse_map (cse_named (cse_function index)) fs) (tagged p fs) (tagged p)"
  unfolding tagged_concat by (intro part_map part_function[of M N]) (auto simp: list_all_iff)

lemma part_scope:
  assumes M: "shares M" and f: "list_all (cse_form N \<circ> snd) (scope_functions sc)"
  shows "part_works M comps (cse_program_scope index sc) (scope_functions sc) scope_functions"
  unfolding part_works_def
proof (intro allI impI)
  fix s assume s: "typed s" "cse_scopes s = []"
  let ?p = "sc_program sc"
  have "part_works M comps (cse_map (cse_named (cse_function index)) (sc_functions sc)) (tagged ?p (sc_functions sc)) (tagged ?p)"
    using f by (intro part_functions[OF M, of N]) (auto simp: scope_functions_def)
  then obtain fs s1 where fs: "cse_map (cse_named (cse_function index)) (sc_functions sc) s = Inr (fs, s1)" "typed s1" "cse_scopes s1 = []"
    "list_all2 (cse_result M comps) (tagged ?p (sc_functions sc)) (tagged ?p fs)" by (rule part_worksE[OF _ s])
  show "\<exists>a s'. cse_program_scope index sc s = Inr (a, s') \<and> typed s' \<and> cse_scopes s' = [] \<and>
      list_all2 (cse_result M comps) (scope_functions sc) (scope_functions a)"
  proof (cases "sc_constructor sc")
    case None
    then show ?thesis using fs by (simp add: cse_program_scope_def cse_bind_def cse_return_def scope_functions_def)
  next
    case (Some c)
    then have "cse_form N (constructor_function c)" using f by (simp add: scope_functions_def)
    from cse_function_runs[OF M this fs(2,3)] obtain c' s2 where "cse_function index (constructor_function c) s1 = Inr (c', s2)" "typed s2"
      "cse_scopes s2 = []" "cse_result M comps (?p, constructor_function c) (?p, c')" by blast
    then obtain b where "cse_block index c s1 = Inr (b, s2)" "typed s2" "cse_scopes s2 = []"
      "cse_result M comps (?p, constructor_function c) (?p, constructor_function b)"
      by (auto simp: cse_function_def cse_bind_Inr constructor_function_def)
    then show ?thesis using Some fs
      by (simp add: cse_program_scope_def cse_bind_def cse_return_def scope_functions_def list_all2_appendI)
  qed
qed

lemma part_module:
  assumes "shares M" "list_all (cse_form N \<circ> snd) (module_functions m)"
  shows "part_works M comps (cse_module index m) (module_functions m) module_functions"
  unfolding part_works_def
proof (intro allI impI)
  fix s assume s: "typed s" "cse_scopes s = []"
  have "part_works M comps (cse_map (cse_named (cse_function index)) (mod_functions m)) (tagged (mod_unit m) (mod_functions m)) (tagged (mod_unit m))"
    using assms(2) by (intro part_functions[OF assms(1), of N]) (simp add: module_functions_def)
  from part_worksE[OF this s] obtain fs s' where
    "cse_map (cse_named (cse_function index)) (mod_functions m) s = Inr (fs, s')" "typed s'" "cse_scopes s' = []"
    "list_all2 (cse_result M comps) (tagged (mod_unit m) (mod_functions m)) (tagged (mod_unit m) fs)" by blast
  then show "\<exists>a s'. cse_module index m s = Inr (a, s') \<and> typed s' \<and> cse_scopes s' = [] \<and>
      list_all2 (cse_result M comps) (module_functions m) (module_functions a)"
    by (simp add: cse_module_def cse_bind_def cse_return_def module_functions_def)
qed

text \<open>The programs the pass is meant for; libraries are not looked at.\<close>

fun cse_program_form :: "(symbol \<Rightarrow> bool) \<Rightarrow> 'a leo_program \<Rightarrow> bool"
  and cse_stub_form :: "(symbol \<Rightarrow> bool) \<Rightarrow> 'a stub \<Rightarrow> bool"
  and cse_stubs_form :: "(symbol \<Rightarrow> bool) \<Rightarrow> (symbol \<times> 'a stub) list \<Rightarrow> bool"
where
  "cse_program_form N (Leo_Program modules stubs scopes) \<longleftrightarrow>
     list_all (\<lambda>m. list_all (cse_form N \<circ> snd) (module_functions (snd m))) modules \<and> cse_stubs_form N stubs \<and>
     list_all (\<lambda>sc. list_all (cse_form N \<circ> snd) (scope_functions (snd sc))) scopes"
| "cse_stub_form N (From_Leo p _) \<longleftrightarrow> cse_program_form N p"
| "cse_stub_form N (From_Aleo _ _) \<longleftrightarrow> True"
| "cse_stub_form N (From_Library _ _) \<longleftrightarrow> True"
| "cse_stubs_form N [] \<longleftrightarrow> True"
| "cse_stubs_form N ((_, st) # rest) \<longleftrightarrow> cse_stub_form N st \<and> cse_stubs_form N rest"

lemma cse_result_refl: "list_all2 (cse_result M comps) fs fs"
  by (rule list_all2_refl) (auto simp: cse_result_def)

lemma part_program:
  fixes p :: "'a leo_program" and st :: "'a stub" and sts :: "(symbol \<times> 'a stub) list"
  assumes M: "shares M"
  shows "cse_program_form N p \<Longrightarrow> part_works M comps (cse_program index p) (program_functions p) program_functions"
    and "cse_stub_form N st \<Longrightarrow> part_works M comps (cse_stub index st) (stub_functions st) stub_functions"
    and "cse_stubs_form N sts \<Longrightarrow> part_works M comps (cse_stubs index sts) (stubs_functions sts) stubs_functions"
proof (induction p and st and sts rule: program_functions_stub_functions_stubs_functions.induct)
  case (1 modules stubs scopes)
  have a: "part_works M comps (cse_stubs index stubs) (stubs_functions stubs) stubs_functions" using 1 by simp
  have b: "part_works M comps (cse_map (cse_named (cse_program_scope index)) scopes)
      (concat (map (scope_functions \<circ> snd) scopes)) (\<lambda>ys. concat (map (scope_functions \<circ> snd) ys))"
    using 1(2) by (intro part_map part_scope[OF M, of N]) (auto simp: list_all_iff)
  have c: "part_works M comps (cse_map (cse_named (cse_module index)) modules)
      (concat (map (module_functions \<circ> snd) modules)) (\<lambda>ys. concat (map (module_functions \<circ> snd) ys))"
    using 1(2) by (intro part_map part_module[OF M, of N]) (auto simp: list_all_iff)
  show ?case unfolding part_works_def
  proof (intro allI impI)
    fix s assume s: "typed s" "cse_scopes s = []"
    obtain stubs' s1 where 1: "cse_stubs index stubs s = Inr (stubs', s1)" "typed s1" "cse_scopes s1 = []"
      "list_all2 (cse_result M comps) (stubs_functions stubs) (stubs_functions stubs')" by (rule part_worksE[OF a s])
    obtain scopes' s2 where 2: "cse_map (cse_named (cse_program_scope index)) scopes s1 = Inr (scopes', s2)" "typed s2" "cse_scopes s2 = []"
      "list_all2 (cse_result M comps) (concat (map (scope_functions \<circ> snd) scopes)) (concat (map (scope_functions \<circ> snd) scopes'))"
      by (rule part_worksE[OF b 1(2,3)])
    obtain modules' s3 where 3: "cse_map (cse_named (cse_module index)) modules s2 = Inr (modules', s3)" "typed s3" "cse_scopes s3 = []"
      "list_all2 (cse_result M comps) (concat (map (module_functions \<circ> snd) modules)) (concat (map (module_functions \<circ> snd) modules'))"
      by (rule part_worksE[OF c 2(2,3)])
    from 1 2 3 show "\<exists>p' s'. cse_program index (Leo_Program modules stubs scopes) s = Inr (p', s') \<and> typed s' \<and> cse_scopes s' = [] \<and>
        list_all2 (cse_result M comps) (program_functions (Leo_Program modules stubs scopes)) (program_functions p')"
      by (auto simp: cse_bind_def cse_return_def intro!: list_all2_appendI)
  qed
next
  case (2 p parents)
  then have p: "part_works M comps (cse_program index p) (program_functions p) program_functions" by simp
  show ?case unfolding part_works_def
  proof (intro allI impI)
    fix s assume s: "typed s" "cse_scopes s = []"
    obtain p' s' where "cse_program index p s = Inr (p', s')" "typed s'" "cse_scopes s' = []"
      "list_all2 (cse_result M comps) (program_functions p) (program_functions p')" by (rule part_worksE[OF p s])
    then show "\<exists>r s'. cse_stub index (From_Leo p parents) s = Inr (r, s') \<and> typed s' \<and> cse_scopes s' = [] \<and>
        list_all2 (cse_result M comps) (stub_functions (From_Leo p parents)) (stub_functions r)"
      by (simp add: cse_bind_def cse_return_def)
  qed
next
  case (6 name st rest)
  have hd: "part_works M comps (cse_stub index st) (stub_functions st) stub_functions"
    and tl: "part_works M comps (cse_stubs index rest) (stubs_functions rest) stubs_functions" using 6 by auto
  show ?case unfolding part_works_def
  proof (intro allI impI)
    fix s assume s: "typed s" "cse_scopes s = []"
    obtain st' s1 where 1: "cse_stub index st s = Inr (st', s1)" "typed s1" "cse_scopes s1 = []"
      "list_all2 (cse_result M comps) (stub_functions st) (stub_functions st')" by (rule part_worksE[OF hd s])
    obtain rest' s2 where 2: "cse_stubs index rest s1 = Inr (rest', s2)" "typed s2" "cse_scopes s2 = []"
      "list_all2 (cse_result M comps) (stubs_functions rest) (stubs_functions rest')" by (rule part_worksE[OF tl 1(2,3)])
    from 1 2 show "\<exists>r s'. cse_stubs index ((name, st) # rest) s = Inr (r, s') \<and> typed s' \<and> cse_scopes s' = [] \<and>
        list_all2 (cse_result M comps) (stubs_functions ((name, st) # rest)) (stubs_functions r)"
      by (auto simp: cse_bind_def cse_return_def intro!: list_all2_appendI)
  qed
qed (auto simp: part_works_def cse_return_def cse_result_refl)

section \<open>An example\<close>

text \<open>\<open>let y = x + z; let u = z + x; let v = y; return u * v;\<close>\<close>

definition shared_function :: leo_function where
  "shared_function =
     \<lparr>fn_variant = EntryPoint, fn_identifier = \<lparr>ident_name = ''f'', ident_id = 1\<rparr>,
      fn_input = [\<lparr>in_identifier = \<lparr>ident_name = ''x'', ident_id = 2\<rparr>, in_mode = Mode_None, in_type = T_Field, in_id = 3\<rparr>,
                  \<lparr>in_identifier = \<lparr>ident_name = ''z'', ident_id = 4\<rparr>, in_mode = Mode_None, in_type = T_Field, in_id = 5\<rparr>],
      fn_output_type = T_Field,
      fn_block = Block
        [S_Definition (Single \<lparr>ident_name = ''y'', ident_id = 6\<rparr>) None (E_Binary (var ''x'' 7) (var ''z'' 8) Add 9) 10,
         S_Definition (Single \<lparr>ident_name = ''u'', ident_id = 11\<rparr>) None (E_Binary (var ''z'' 12) (var ''x'' 13) Add 14) 15,
         S_Definition (Single \<lparr>ident_name = ''v'', ident_id = 16\<rparr>) None (var ''y'' 17) 18,
         S_Return (E_Binary (var ''u'' 19) (var ''v'' 20) Mul 21) 22] 23,
      fn_id = 24\<rparr>"

definition shared_program :: "unit leo_program" where
  "shared_program =
     Leo_Program [] [] [(''main'', \<lparr>sc_program = ''main'', sc_composites = [], sc_functions = [(''f'', shared_function)],
       sc_constructor = None\<rparr>)]"

lemma shares_example: "shares example_meaning"
  unfolding shares_def
proof (intro conjI allI impI)
  fix op and a b :: int and w :: unit
  show "m_op example_meaning (H_Binary op) [a, b] w = m_op example_meaning (H_Binary op) [b, a] w"
    by (cases op) (auto simp: example_meaning_def example_op_def)
qed (auto simp: example_meaning_def example_op_def)

lemmas shared_defs = shared_function_def var_def to_local_def path_of_ident_def path_new_def

lemma shared_form: "cse_program_form (\<lambda>n. n \<in> {''x'', ''z'', ''y'', ''u'', ''v''}) shared_program"
  by (simp add: shared_program_def scope_functions_def tagged_def cse_form_def input_names_def shared_defs names_new_def
      try_local_symbol_def segments_def)

lemma shared_run: "run_function example_meaning comps shared_function [2, 3] (\<lambda>_. 0) () = Some (25, ())"
  by (simp add: run_function_def shared_defs example_meaning_def example_op_def eval.simps read_path_def try_local_symbol_def
      define_place_def run_with_def)

section \<open>Properties\<close>

text \<open>
  Property C4.  Common subexpression elimination keeps the meaning of programs.  When the functions are in
  single-assignment form, every node has a type and the shared operations depend on their operands only, the pass
  does not panic, and every function, module function, dependency and constructor computes the same result
  with the same effects as before.
\<close>

theorem cse_keeps_meaning:
  assumes "shares M" "cse_program_form N p" "\<forall>nid. types nid \<noteq> None"
  shows "\<exists>p' s'. cse_pass index (Inl p) types next = Inr (Inl p', s') \<and>
    list_all2 (\<lambda>(prog, f) (prog', f'). prog' = prog \<and>
        (\<forall>args \<rho> w. run_function M (comps prog) f' args \<rho> w = run_function M (comps prog) f args \<rho> w))
      (program_functions p) (program_functions p')"
proof -
  let ?s = "\<lparr>cse_scopes = [], cse_types = types, cse_next = next\<rparr>"
  have s: "typed ?s" "cse_scopes ?s = []" using assms(3) by (simp_all add: typed_def)
  obtain p' s' where "cse_program index p ?s = Inr (p', s')" "typed s'" "cse_scopes s' = []"
    "list_all2 (cse_result M comps) (program_functions p) (program_functions p')"
    by (rule part_worksE[OF part_program(1)[OF assms(1,2), of comps index] s])
  then show ?thesis by (auto simp: cse_pass_def cse_bind_def cse_return_def cse_result_def)
qed

theorem cse_keeps_meaning_witness:
  "\<exists>p' s'. cse_pass length (Inl shared_program :: unit leo_program + unit library) (\<lambda>_. Some T_Field) 25 = Inr (Inl p', s') \<and>
     run_function example_meaning (\<lambda>_. None) (snd (hd (program_functions p'))) [2, 3] (\<lambda>_. 0) () = Some (25, ())"
proof -
  have "program_functions shared_program = [(''main'', shared_function)]" by (simp add: shared_program_def scope_functions_def tagged_def)
  then show ?thesis
    using cse_keeps_meaning[OF shares_example shared_form, of "\<lambda>_. Some T_Field" length 25 "\<lambda>_ _. None"] shared_run[of "\<lambda>_. None"]
    by (auto simp: list_all2_Cons1)
qed

end
