(* ===== verification/Pass_Composition.thy ===== *)
theory Pass_Composition
  imports Dead_Code_Props Common_Subexpr_Props
begin

text \<open>
  Common subexpression elimination leaves code that dead code elimination accepts: it keeps code settled.
\<close>

lemma settled_atom:
  "try_atom e s = Inr ((a, e'), s') \<Longrightarrow> settled e \<Longrightarrow> settled e'"
  by (cases e) (auto simp: cse_bind_Inr fresh_path_def names_itself_def try_local_symbol_def to_local_def path_of_ident_def path_new_def
      split: option.splits)

lemma settled_operand: "try_operand e s = Inr (e', s') \<Longrightarrow> settled e \<Longrightarrow> settled e'"
  by (auto simp: try_operand_def cse_bind_Inr dest: settled_atom)

lemma settled_operands: "cse_map try_operand es s = Inr (es', s') \<Longrightarrow> list_all settled es \<Longrightarrow> list_all settled es'"
  by (induction es arbitrary: s es') (auto simp: cse_bind_Inr dest: settled_operand)

lemma settled_atoms: "cse_map try_atom es s = Inr (rs, s') \<Longrightarrow> list_all settled es \<Longrightarrow> list_all settled (map snd rs)"
  by (induction es arbitrary: s rs) (auto simp: cse_bind_Inr dest: settled_atom)

lemma settled_fields: "cse_map try_field fs s = Inr (fs', s') \<Longrightarrow> list_all settled_field fs \<Longrightarrow> list_all settled_field fs'"
proof (induction fs arbitrary: s fs')
  case (Cons f fs)
  then show ?case by (cases f rule: try_field.cases) (auto simp: cse_bind_Inr dest: settled_operand)
qed simp

lemma settled_share: "share k e place s = Inr ((r, nn), s') \<Longrightarrow> settled e \<Longrightarrow> settled r"
  by (auto simp: share_def cse_bind_Inr fresh_path_def names_itself_def try_local_symbol_def to_local_def path_of_ident_def path_new_def
      split: option.splits)

lemma settled_try_expr:
  "try_expr index e place s = Inr ((r, nn), s') \<Longrightarrow> settled e \<Longrightarrow> settled r"
  "try_exprs index es s = Inr (rs, s') \<Longrightarrow> list_all settled es \<Longrightarrow> list_all settled rs"
proof (induction index e place and index es arbitrary: s r nn s' and s rs s' rule: try_expr_try_exprs.induct)
  case (3 index left right op nid place)
  then show ?case by (auto simp: cse_bind_Inr order_operands_def split: if_splits elim!: settled_share dest: settled_atom)
next
  case (16 index interface target network kind nid place)
  then show ?case
    by (cases kind) (auto simp: cse_bind_Inr dest!: settled_operands settled_operand split: option.splits)
qed (auto simp: cse_bind_Inr try_atoms_def elim!: settled_share dest: settled_atom settled_atoms settled_operand settled_operands settled_fields)

lemma settled_expression: "cse_expression index e s = Inr (e', s') \<Longrightarrow> settled e \<Longrightarrow> settled e'"
  by (auto simp: cse_expression_def cse_bind_Inr dest: settled_try_expr)

lemma settled_cse_types:
  "cse_type index ty s = Inr (ty', s') \<Longrightarrow> settled_type ty \<Longrightarrow> settled_type ty'"
  "cse_type_list index tys s = Inr (tys', s') \<Longrightarrow> list_all settled_type tys \<Longrightarrow> list_all settled_type tys'"
proof (induction index ty and index tys arbitrary: s ty' s' and s tys' s' rule: cse_type_cse_type_list.induct)
  case (2 index p args)
  have "list_all settled as'" if "cse_map (cse_expression index) as t = Inr (as', t')" "list_all settled as" for as as' t t'
    using that by (induction as arbitrary: t as') (auto simp: cse_bind_Inr dest: settled_expression)
  with 2 show ?case by (auto simp: cse_bind_Inr)
qed (auto simp: cse_bind_Inr dest: settled_expression)

lemma settled_cse_assert: "cse_assert index v s = Inr (v', s') \<Longrightarrow> settled_assert v \<Longrightarrow> settled_assert v'"
  by (cases v) (auto simp: cse_bind_Inr dest: settled_expression)

lemma settled_cse:
  "cse_block index b s = Inr (b', s') \<Longrightarrow> settled_statement (S_Block b) \<Longrightarrow> settled_statement (S_Block b')"
  "cse_statement index st s = Inr (st', s') \<Longrightarrow> settled_statement st \<Longrightarrow> settled_statement st'"
  "cse_statements index sts s = Inr (sts', s') \<Longrightarrow> settled_statements sts \<Longrightarrow> settled_statements sts'"
  "cse_otherwise index oth s = Inr (oth', s') \<Longrightarrow> settled_otherwise oth \<Longrightarrow> settled_otherwise oth'"
proof (induction index b and index st and index sts and index oth arbitrary: s b' s' and s st' s' and s sts' s' and s oth' s'
    rule: cse_block_cse_statement_cse_statements_cse_otherwise.induct)
  case (1 index ss nid)
  from block_parts[OF 1(2)] 1(1,3) show ?case by auto
next
  case (5 index condition then_block otherwise nid)
  from 5(3) obtain c' s1 b' s2 oth' where d: "cse_expression index condition s = Inr (c', s1)" "cse_block index then_block s1 = Inr (b', s2)"
    "cse_otherwise index otherwise s2 = Inr (oth', s')" "st' = S_Conditional c' b' oth' nid" by (auto simp: cse_bind_Inr)
  obtain ss bid ss' bid' where b: "then_block = Block ss bid" "b' = Block ss' bid'" by (cases then_block, cases b')
  show ?case using 5(1)[OF d(2)] 5(2)[OF d(3)] settled_expression[OF d(1)] 5(4) d(4) b by simp
next
  case (7 index place ty e nid)
  then show ?case
    by (cases place) (auto simp: cse_bind_Inr statement_dummy_def dest: settled_try_expr split: if_splits)
qed (auto simp: cse_bind_Inr dest: settled_expression settled_cse_types settled_cse_assert)

text \<open>The example of common subexpression elimination is settled code.\<close>

lemma shared_settled: "settled_function shared_function"
  by (simp add: settled_function_def shared_defs names_itself_def try_local_symbol_def)

lemma quiet_example: "quiet example_meaning"
  by (auto simp: quiet_def)

lemma shared_function_form: "cse_form (\<lambda>n. n \<in> {''x'', ''z'', ''y'', ''u'', ''v''}) shared_function"
  using shared_form by (simp add: shared_program_def scope_functions_def tagged_def)

end
