(* ===== verification/Ssa_Const_Prop.thy ===== *)
theory Ssa_Const_Prop
  imports Dead_Code Const_Eval
begin

text \<open>
  Constant propagation on code in single-assignment form (\<^verbatim>\<open>crates/passes/src/ssa_const_propagation\<close>), on top of
  the default traversal of \<^verbatim>\<open>crates/ast/src/passes/reconstructor.rs\<close>.  Reconstructing an expression returns the new
  expression and its value, when that is known.  The errors that the visitor emits are collected in its state.
\<close>

section \<open>The visitor\<close>

record 'e scp_env =
  scp_svm :: "'e snarkvm"
  scp_codec :: "'e svm_codec"
  scp_structs :: "symbol \<Rightarrow> location \<Rightarrow> (symbol \<times> leo_type) list"
  scp_storage :: "path \<Rightarrow> bool"

record 'e scp_state =
  scp_program :: symbol
  scp_constants :: "symbol \<rightharpoonup> 'e const_value"
  scp_composites :: "symbol \<rightharpoonup> (symbol \<rightharpoonup> expression)"
  scp_changed :: bool
  scp_types :: "node_id \<rightharpoonup> leo_type"
  scp_next :: node_id
  scp_errors :: "const_error list"

type_synonym ('e, 'a) scp = "'e scp_state \<Rightarrow> string + 'a \<times> 'e scp_state"

definition scp_return :: "'a \<Rightarrow> ('e, 'a) scp" where
  "scp_return a s = Inr (a, s)"

definition scp_panic :: "string \<Rightarrow> ('e, 'a) scp" where
  "scp_panic msg s = Inl msg"

definition scp_bind :: "('e, 'a) scp \<Rightarrow> ('a \<Rightarrow> ('e, 'b) scp) \<Rightarrow> ('e, 'b) scp" where
  "scp_bind m f s = (case m s of Inl msg \<Rightarrow> Inl msg | Inr (a, s') \<Rightarrow> f a s')"

definition scp_change :: "'a \<Rightarrow> ('e, 'a) scp" where
  "scp_change a s = Inr (a, s\<lparr>scp_changed := True\<rparr>)"

definition scp_type_of :: "node_id \<Rightarrow> ('e, leo_type option) scp" where
  "scp_type_of nid s = Inr (scp_types s nid, s)"

definition scp_fresh :: "leo_type \<Rightarrow> ('e, node_id) scp" where
  "scp_fresh ty s =
     Inr (scp_next s, s\<lparr>scp_next := Suc (scp_next s), scp_types := (scp_types s)(scp_next s \<mapsto> ty)\<rparr>)"

text \<open>A panic of constant evaluation is a panic of the pass, another error is not.\<close>

definition scp_ok :: "'a const_result \<Rightarrow> ('e, 'a option) scp" where
  "scp_ok r = (case r of Inr a \<Rightarrow> scp_return (Some a) | Inl (Const_Value.Panic msg) \<Rightarrow> scp_panic msg | Inl _ \<Rightarrow> scp_return None)"

text \<open>\<^verbatim>\<open>emit_err\<close> in the case of an error.\<close>

definition scp_emit :: "'a const_result \<Rightarrow> ('e, 'a option) scp" where
  "scp_emit r s =
     (case r of
        Inr a \<Rightarrow> Inr (Some a, s)
      | Inl (Const_Value.Panic msg) \<Rightarrow> Inl msg
      | Inl err \<Rightarrow> Inr (None, s\<lparr>scp_errors := scp_errors s @ [err]\<rparr>))"

definition scp_expect :: "string \<Rightarrow> 'a option const_result \<Rightarrow> ('e, 'a) scp" where
  "scp_expect msg r = scp_bind (scp_ok r) (\<lambda>a. case a of Some (Some b) \<Rightarrow> scp_return b | _ \<Rightarrow> scp_panic msg)"

definition is_ssa_atom :: "expression \<Rightarrow> bool" where
  "is_ssa_atom e = (case e of E_Path _ \<Rightarrow> True | E_Literal _ \<Rightarrow> True | _ \<Rightarrow> False)"

definition parse_literal_value :: "string \<Rightarrow> int option" where
  "parse_literal_value s = res_ok (from_str_by_radix I128 (remove_underscores s))"

fun is_zero_literal :: "literal_variant \<Rightarrow> bool" where
  "is_zero_literal (Lit_Integer _ s) \<longleftrightarrow> parse_literal_value s = Some 0"
| "is_zero_literal (Lit_Field s) \<longleftrightarrow> parse_literal_value s = Some 0"
| "is_zero_literal (Lit_Group s) \<longleftrightarrow> parse_literal_value s = Some 0"
| "is_zero_literal (Lit_Scalar s) \<longleftrightarrow> parse_literal_value s = Some 0"
| "is_zero_literal (Lit_Unsuffixed s) \<longleftrightarrow> parse_literal_value s = Some 0"
| "is_zero_literal (Lit_Boolean b) \<longleftrightarrow> \<not> b"
| "is_zero_literal _ \<longleftrightarrow> False"

fun is_one_literal :: "literal_variant \<Rightarrow> bool" where
  "is_one_literal (Lit_Integer _ s) \<longleftrightarrow> parse_literal_value s = Some 1"
| "is_one_literal (Lit_Field s) \<longleftrightarrow> parse_literal_value s = Some 1"
| "is_one_literal (Lit_Scalar s) \<longleftrightarrow> parse_literal_value s = Some 1"
| "is_one_literal (Lit_Unsuffixed s) \<longleftrightarrow> parse_literal_value s = Some 1"
| "is_one_literal (Lit_Boolean b) \<longleftrightarrow> b"
| "is_one_literal _ \<longleftrightarrow> False"

definition same_ssa_atom :: "expression \<Rightarrow> expression \<Rightarrow> bool" where
  "same_ssa_atom a b =
     (case (a, b) of
        (E_Path p, E_Path q) \<Rightarrow> try_local_symbol p = try_local_symbol q \<and> try_local_symbol p \<noteq> None
      | _ \<Rightarrow> False)"

text \<open>The types of the nodes of an expression that was built from a value of type \<open>ty\<close>.\<close>

fun copy_types_recursively ::
    "(location \<Rightarrow> (symbol \<times> leo_type) list) \<Rightarrow> expression \<Rightarrow> leo_type \<Rightarrow> (node_id \<rightharpoonup> leo_type) \<Rightarrow> (node_id \<rightharpoonup> leo_type)"
  and copy_types_list ::
    "(location \<Rightarrow> (symbol \<times> leo_type) list) \<Rightarrow> expression list \<Rightarrow> leo_type list \<Rightarrow> (node_id \<rightharpoonup> leo_type) \<Rightarrow> (node_id \<rightharpoonup> leo_type)"
  and copy_types_members ::
    "(location \<Rightarrow> (symbol \<times> leo_type) list) \<Rightarrow> field_initializer list \<Rightarrow> leo_type list \<Rightarrow> (node_id \<rightharpoonup> leo_type) \<Rightarrow> (node_id \<rightharpoonup> leo_type)"
where
  "copy_types_recursively structs e ty types =
     (let types = types(expression_id e \<mapsto> ty) in
      case e of
        E_Array es _ \<Rightarrow> (case ty of T_Array elem _ \<Rightarrow> copy_types_list structs es (replicate (length es) elem) types | _ \<Rightarrow> types)
      | E_Tuple es _ \<Rightarrow> (case ty of T_Tuple tys \<Rightarrow> copy_types_list structs es tys types | _ \<Rightarrow> types)
      | E_Composite _ _ inits _ _ \<Rightarrow>
          (case ty of
             T_Composite path _ \<Rightarrow>
               copy_types_members structs inits
                 (case try_global_location path of None \<Rightarrow> [] | Some loc \<Rightarrow> map snd (structs loc)) types
           | _ \<Rightarrow> types)
      | _ \<Rightarrow> types)"
| "copy_types_list structs (e # es) (ty # tys) types =
     copy_types_list structs es tys (copy_types_recursively structs e ty types)"
| "copy_types_list structs _ _ types = types"
| "copy_types_members structs (Field_Init _ (Some e) _ # inits) (ty # tys) types =
     copy_types_members structs inits tys (copy_types_recursively structs e ty types)"
| "copy_types_members structs (Field_Init _ None _ # inits) (_ # tys) types = copy_types_members structs inits tys types"
| "copy_types_members structs _ _ types = types"

definition value_error :: string where
  "value_error = ''A non-future value should always be able to be converted into an expression''"

text \<open>\<^verbatim>\<open>value_to_expression\<close>, with the \<^verbatim>\<open>expect\<close> of every caller.\<close>

definition value_to_expression :: "'e scp_env \<Rightarrow> 'e const_value \<Rightarrow> node_id \<Rightarrow> ('e, expression) scp" where
  "value_to_expression env v nid s =
     (case scp_types s nid of
        None \<Rightarrow> Inl value_error
      | Some ty \<Rightarrow>
          let structs = scp_structs env (scp_program s) in
          (case to_expression (scp_codec env) structs v ty (scp_next s) of
             Inl (Const_Value.Panic msg) \<Rightarrow> Inl msg
           | Inr (Some (e, n)) \<Rightarrow>
               Inr (e, s\<lparr>scp_next := n, scp_types := copy_types_recursively structs e ty (scp_types s)\<rparr>)
           | _ \<Rightarrow> Inl value_error))"

text \<open>An expression that is replaced by its value.\<close>

definition fold_value :: "'e scp_env \<Rightarrow> 'e const_value \<Rightarrow> node_id \<Rightarrow> ('e, expression \<times> 'e const_value option) scp" where
  "fold_value env v nid = scp_bind (value_to_expression env v nid) (\<lambda>e. scp_change (e, Some v))"

section \<open>Expressions\<close>

definition value_bool :: "'e const_value option \<Rightarrow> bool option" where
  "value_bool v = (case v of Some u \<Rightarrow> (case try_literal u of Some (L_Boolean b) \<Rightarrow> Some b | _ \<Rightarrow> None) | None \<Rightarrow> None)"

definition scp_path :: "'e scp_env \<Rightarrow> path \<Rightarrow> ('e, expression \<times> 'e const_value option) scp" where
  "scp_path env p s =
     (case scp_constants s (ident_name (identifier_of p)) of
        Some v \<Rightarrow> fold_value env v (path_id p) s
      | None \<Rightarrow> Inr ((E_Path p, None), s))"

definition forwarded_atom :: "'e scp_state \<Rightarrow> expression \<Rightarrow> symbol \<Rightarrow> expression option" where
  "forwarded_atom s inner name =
     (case inner of
        E_Path p \<Rightarrow> Option.bind (Option.bind (try_local_symbol p) (scp_composites s)) (\<lambda>atoms. atoms name)
      | _ \<Rightarrow> None)"

definition scp_member :: "'e scp_env \<Rightarrow> expression \<Rightarrow> ident \<Rightarrow> node_id \<Rightarrow> ('e, expression \<times> 'e const_value option) scp" where
  "scp_member env inner name nid s =
     (case forwarded_atom s inner (ident_name name) of
        None \<Rightarrow> Inr ((E_MemberAccess inner name nid, None), s)
      | Some (E_Literal l) \<Rightarrow>
          scp_bind (scp_ok (literal_to_value (scp_codec env) l (scp_types s (lit_id l)))) (\<lambda>v. scp_change (E_Literal l, v)) s
      | Some (E_Path p) \<Rightarrow> scp_change (E_Path p, Option.bind (try_local_symbol p) (scp_constants s)) s
      | Some _ \<Rightarrow> Inl ''atom_fielded_composites fields must be Path or Literal'')"

definition unwrap_optional :: "leo_type option \<Rightarrow> leo_type option" where
  "unwrap_optional ty = (case ty of Some (T_Optional inner) \<Rightarrow> Some inner | _ \<Rightarrow> ty)"

text \<open>An unsuffixed literal gets the suffix of its type.\<close>

definition suffix_literal :: "literal \<Rightarrow> string \<Rightarrow> leo_type option \<Rightarrow> ('e, literal) scp" where
  "suffix_literal l s ty =
     (case ty of
        None \<Rightarrow> scp_panic ''Expected type information to be available''
      | Some (T_Integer ity) \<Rightarrow> scp_return (l\<lparr>lit_variant := Lit_Integer ity s\<rparr>)
      | Some T_Field \<Rightarrow> scp_return (l\<lparr>lit_variant := Lit_Field s\<rparr>)
      | Some T_Group \<Rightarrow> scp_return (l\<lparr>lit_variant := Lit_Group s\<rparr>)
      | Some T_Scalar \<Rightarrow> scp_return (l\<lparr>lit_variant := Lit_Scalar s\<rparr>)
      | Some _ \<Rightarrow> scp_panic ''Type checking should have prevented this.'')"

definition ends_with :: "string \<Rightarrow> string \<Rightarrow> bool" where
  "ends_with s suffix \<longleftrightarrow> length suffix \<le> length s \<and> drop (length s - length suffix) s = suffix"

definition scp_literal :: "'e scp_env \<Rightarrow> literal \<Rightarrow> ('e, expression \<times> 'e const_value option) scp" where
  "scp_literal env l =
     scp_bind (scp_type_of (lit_id l)) (\<lambda>ty0. let ty = unwrap_optional ty0 in
     scp_bind (scp_ok (literal_to_value (scp_codec env) l ty)) (\<lambda>v.
     case v of
       None \<Rightarrow> scp_return (E_Literal l, None)
     | Some value \<Rightarrow>
         (case lit_variant l of
            Lit_Address s \<Rightarrow> scp_return (E_Literal l, if ends_with s ''aleo'' then None else Some value)
          | Lit_Unsuffixed s \<Rightarrow> scp_bind (suffix_literal l s ty) (\<lambda>l'. scp_return (E_Literal l', Some value))
          | _ \<Rightarrow> scp_return (E_Literal l, Some value))))"

text \<open>
  The algebraic simplifications of binary expressions: which operand is the result, or which boolean.
\<close>

datatype simplified = Keep | Take_Left | Take_Right | Take_Bool bool

definition literal_such :: "(literal_variant \<Rightarrow> bool) \<Rightarrow> expression \<Rightarrow> bool" where
  "literal_such P e = (case e of E_Literal l \<Rightarrow> P (lit_variant l) | _ \<Rightarrow> False)"

fun first_rule :: "(bool \<times> simplified) list \<Rightarrow> simplified" where
  "first_rule [] = Keep"
| "first_rule ((c, r) # rest) = (if c then r else first_rule rest)"

definition simplify_binary :: "binary_operation \<Rightarrow> expression \<Rightarrow> expression \<Rightarrow> leo_type option \<Rightarrow> simplified" where
  "simplify_binary op left right ty =
     (let left_is_zero = literal_such is_zero_literal left; right_is_zero = literal_such is_zero_literal right;
          left_is_one = literal_such is_one_literal left; right_is_one = literal_such is_one_literal right;
          left_is_bool = (\<lambda>b. literal_such (\<lambda>v. v = Lit_Boolean b) left);
          right_is_bool = (\<lambda>b. literal_such (\<lambda>v. v = Lit_Boolean b) right);
          absorbs = (case ty of Some (T_Integer _) \<Rightarrow> True | Some T_Field \<Rightarrow> True | _ \<Rightarrow> False) in
      first_rule
        (if op \<in> {Add, AddWrapped} then [(right_is_zero, Take_Left), (left_is_zero, Take_Right)]
         else if op \<in> {Sub, SubWrapped} then [(right_is_zero, Take_Left)]
         else if op \<in> {Mul, MulWrapped} then
           [(right_is_one, Take_Left), (left_is_one, Take_Right), (absorbs \<and> right_is_zero, Take_Right),
            (absorbs \<and> left_is_zero, Take_Left)]
         else if op \<in> {Div, DivWrapped} then [(right_is_one, Take_Left)]
         else if op = And then
           [(right_is_bool True, Take_Left), (left_is_bool True, Take_Right), (right_is_bool False, Take_Right),
            (left_is_bool False, Take_Left)]
         else if op = Or then
           [(right_is_bool False, Take_Left), (left_is_bool False, Take_Right), (right_is_bool True, Take_Right),
            (left_is_bool True, Take_Left)]
         else if op = BitwiseAnd then
           [(right_is_zero, Take_Right), (left_is_zero, Take_Left), (right_is_bool True, Take_Left),
            (left_is_bool True, Take_Right)]
         else if op = BitwiseOr then
           [(right_is_zero, Take_Left), (left_is_zero, Take_Right), (right_is_bool True, Take_Right),
            (left_is_bool True, Take_Left)]
         else if op = Xor then [(right_is_zero, Take_Left), (left_is_zero, Take_Right)]
         else if op = Eq then [(same_ssa_atom left right, Take_Bool True)]
         else if op = Neq then [(same_ssa_atom left right, Take_Bool False)]
         else []))"

definition bool_literal :: "bool \<Rightarrow> node_id \<Rightarrow> expression" where
  "bool_literal b nid = E_Literal \<lparr>lit_variant = Lit_Boolean b, lit_id = nid\<rparr>"

definition scp_binary ::
  "'e scp_env \<Rightarrow> binary_operation \<Rightarrow> node_id \<Rightarrow> expression \<times> 'e const_value option \<Rightarrow> expression \<times> 'e const_value option \<Rightarrow>
     ('e, expression \<times> 'e const_value option) scp" where
  "scp_binary env op nid l r =
     scp_bind (scp_type_of nid) (\<lambda>ty.
     case (snd l, snd r) of
       (Some a, Some b) \<Rightarrow>
         scp_bind (scp_emit (evaluate_binary (scp_svm env) (scp_codec env) op a b ty)) (\<lambda>v.
         case v of
           Some c \<Rightarrow> fold_value env c nid
         | None \<Rightarrow> scp_return (E_Binary (fst l) (fst r) op nid, None))
     | _ \<Rightarrow>
         (case simplify_binary op (fst l) (fst r) ty of
            Keep \<Rightarrow> scp_return (E_Binary (fst l) (fst r) op nid, None)
          | Take_Left \<Rightarrow> scp_change l
          | Take_Right \<Rightarrow> scp_change r
          | Take_Bool b \<Rightarrow>
              scp_bind (scp_fresh T_Boolean) (\<lambda>n. scp_change (bool_literal b n, Some (value_of_literal (L_Boolean b))))))"

text \<open>Double negations.\<close>

definition undo_unary :: "unary_operation \<Rightarrow> expression \<Rightarrow> expression option" where
  "undo_unary op receiver =
     (case receiver of
        E_Unary inner op' _ \<Rightarrow> if op \<in> {Not, Negate} \<and> op' = op then Some inner else None
      | _ \<Rightarrow> None)"

definition scp_unary ::
  "'e scp_env \<Rightarrow> unary_operation \<Rightarrow> node_id \<Rightarrow> expression \<times> 'e const_value option \<Rightarrow>
     ('e, expression \<times> 'e const_value option) scp" where
  "scp_unary env op nid r =
     (let rest = (case undo_unary op (fst r) of
                    Some inner \<Rightarrow> scp_change (inner, None)
                  | None \<Rightarrow> scp_return (E_Unary (fst r) op nid, None)) in
      case snd r of
        None \<Rightarrow> rest
      | Some a \<Rightarrow>
          scp_bind (scp_type_of nid) (\<lambda>ty.
          scp_bind (scp_emit (evaluate_unary (scp_svm env) (scp_codec env) op a ty)) (\<lambda>v.
          case v of Some c \<Rightarrow> fold_value env c nid | None \<Rightarrow> rest)))"

definition can_discard :: "'e scp_env \<Rightarrow> expression \<Rightarrow> ('e, bool) scp" where
  "can_discard env e s = Inr (expression_can_be_discarded (\<lambda>nid. the (scp_types s nid)) (scp_storage env) e, s)"

definition scp_ternary ::
  "'e scp_env \<Rightarrow> node_id \<Rightarrow> expression \<times> 'e const_value option \<Rightarrow> expression \<times> 'e const_value option \<Rightarrow>
     expression \<times> 'e const_value option \<Rightarrow> ('e, expression \<times> 'e const_value option) scp" where
  "scp_ternary env nid c t f =
     scp_bind (can_discard env (fst t)) (\<lambda>drop_true.
     scp_bind (can_discard env (fst f)) (\<lambda>drop_false.
     if value_bool (snd c) = Some True \<and> drop_false then scp_change t
     else if value_bool (snd c) = Some False \<and> drop_true then scp_change f
     else
       (case (value_bool (snd t), value_bool (snd f)) of
          (Some True, Some False) \<Rightarrow> scp_change (fst c, None)
        | (Some False, Some True) \<Rightarrow>
            scp_bind (scp_fresh T_Boolean) (\<lambda>n. scp_change (E_Unary (fst c) Not n, None))
        | (Some _, Some _) \<Rightarrow> scp_change t
        | _ \<Rightarrow>
            if same_ssa_atom (fst t) (fst f) then scp_change t
            else scp_return (E_Ternary (fst c) (fst t) (fst f) nid, None))))"

definition scp_array_access ::
  "'e scp_env \<Rightarrow> node_id \<Rightarrow> expression \<times> 'e const_value option \<Rightarrow> expression \<times> 'e const_value option \<Rightarrow>
     ('e, expression \<times> 'e const_value option) scp" where
  "scp_array_access env nid array index =
     (case (snd array, snd index) of
        (Some a, Some i) \<Rightarrow>
          (case value_as_u32 i of
             None \<Rightarrow> scp_panic ''unwrap''
           | Some n \<Rightarrow>
               scp_bind (scp_expect ''We already checked bounds.'' (array_index a (nat n))) (\<lambda>v. fold_value env v nid))
      | _ \<Rightarrow> scp_return (E_ArrayAccess (fst array) (fst index) nid, None))"

text \<open>The elements of arrays and tuples: whether a node is new, and the values when all are known.\<close>

definition note_changed :: "expression list \<Rightarrow> expression list \<Rightarrow> ('e, unit) scp" where
  "note_changed old new = (if map expression_id old \<noteq> map expression_id new then scp_change () else scp_return ())"

definition known_values :: "(expression \<times> 'e const_value option) list \<Rightarrow> 'e const_value list option" where
  "known_values rs =
     (let values = List.map_filter snd rs in if length values = length rs then Some values else None)"

definition scp_array ::
  "node_id \<Rightarrow> expression list \<Rightarrow> (expression \<times> 'e const_value option) list \<Rightarrow> ('e, expression \<times> 'e const_value option) scp" where
  "scp_array nid old rs =
     scp_bind (note_changed old (map fst rs)) (\<lambda>_.
     case known_values rs of
       None \<Rightarrow> scp_return (E_Array (map fst rs) nid, None)
     | Some values \<Rightarrow> scp_bind (scp_ok (make_array values)) (\<lambda>v. scp_return (E_Array (map fst rs) nid, v)))"

definition scp_tuple ::
  "node_id \<Rightarrow> expression list \<Rightarrow> (expression \<times> 'e const_value option) list \<Rightarrow> ('e, expression \<times> 'e const_value option) scp" where
  "scp_tuple nid old rs =
     scp_bind (note_changed old (map fst rs)) (\<lambda>_.
     scp_return (E_Tuple (map fst rs) nid, map_option make_tuple (known_values rs)))"

section \<open>Definitions\<close>

definition set_constant :: "symbol \<Rightarrow> 'e const_value \<Rightarrow> ('e, unit) scp" where
  "set_constant x v s = Inr ((), s\<lparr>scp_constants := (scp_constants s)(x \<mapsto> v)\<rparr>)"

fun set_elements :: "'e const_value \<Rightarrow> nat \<Rightarrow> ident list \<Rightarrow> ('e, unit) scp" where
  "set_elements v i [] = scp_return ()"
| "set_elements v i (x # xs) =
     scp_bind (scp_ok (tuple_index v i)) (\<lambda>r.
     scp_bind (case r of Some (Some u) \<Rightarrow> set_constant (ident_name x) u | _ \<Rightarrow> scp_return ()) (\<lambda>_. set_elements v (Suc i) xs))"

text \<open>The fields of a composite whose initializers are all atoms.\<close>

fun atom_fields :: "field_initializer list \<Rightarrow> (symbol \<rightharpoonup> expression) \<Rightarrow> (symbol \<rightharpoonup> expression) option" where
  "atom_fields [] atoms = Some atoms"
| "atom_fields (Field_Init i (Some e) _ # inits) atoms =
     (if is_ssa_atom e then atom_fields inits (atoms(ident_name i \<mapsto> e)) else None)"
| "atom_fields (Field_Init i None _ # inits) atoms = None"

definition track_definition :: "definition_place \<Rightarrow> expression \<Rightarrow> 'e const_value option \<Rightarrow> ('e, unit) scp" where
  "track_definition place e value =
     (case value of
        Some v \<Rightarrow> (case place of Single i \<Rightarrow> set_constant (ident_name i) v | Multiple is \<Rightarrow> set_elements v 0 is)
      | None \<Rightarrow>
          (case (place, e) of
             (Single i, E_Composite _ _ inits _ _) \<Rightarrow>
               (case atom_fields inits Map.empty of
                  Some atoms \<Rightarrow> (\<lambda>s. Inr ((), s\<lparr>scp_composites := (scp_composites s)(ident_name i \<mapsto> atoms)\<rparr>))
                | None \<Rightarrow> scp_return ())
           | _ \<Rightarrow> scp_return ()))"

section \<open>The traversal\<close>

definition scp_seq :: "('e, 'a) scp list \<Rightarrow> ('e, 'a list) scp" where
  "scp_seq ms = foldr (\<lambda>m r. scp_bind m (\<lambda>a. scp_bind r (\<lambda>as. scp_return (a # as)))) ms (scp_return [])"

definition scp_seq_moded :: "(mode \<times> ('e, 'a) scp) list \<Rightarrow> ('e, (mode \<times> 'a) list) scp" where
  "scp_seq_moded ms = scp_seq (map (\<lambda>(mode, m). scp_bind m (\<lambda>a. scp_return (mode, a))) ms)"

definition scp_seq_option :: "('e, 'a) scp option \<Rightarrow> ('e, 'a option) scp" where
  "scp_seq_option m = (case m of None \<Rightarrow> scp_return None | Some m' \<Rightarrow> scp_bind m' (\<lambda>a. scp_return (Some a)))"

primrec scp_type :: "'e scp_env \<Rightarrow> leo_type \<Rightarrow> ('e, leo_type) scp"
  and scp_expr :: "'e scp_env \<Rightarrow> expression \<Rightarrow> ('e, expression \<times> 'e const_value option) scp"
  and scp_field :: "'e scp_env \<Rightarrow> field_initializer \<Rightarrow> ('e, field_initializer) scp"
  and scp_kind :: "'e scp_env \<Rightarrow> dynamic_op_kind \<Rightarrow> ('e, dynamic_op_kind) scp"
  and scp_assert :: "'e scp_env \<Rightarrow> assert_variant \<Rightarrow> ('e, assert_variant) scp"
  and scp_block :: "'e scp_env \<Rightarrow> block \<Rightarrow> ('e, block) scp"
  and scp_statement :: "'e scp_env \<Rightarrow> statement \<Rightarrow> ('e, statement) scp"
where
  "scp_type env (T_Array ty len) =
     scp_bind (scp_type env ty) (\<lambda>ty'. scp_bind (scp_expr env len) (\<lambda>len'. scp_return (T_Array ty' (fst len'))))"
| "scp_type env (T_Composite p args) =
     scp_bind (scp_seq (map (scp_expr env) args)) (\<lambda>args'. scp_return (T_Composite p (map fst args')))"
| "scp_type env (T_Future tys loc b) = scp_bind (scp_seq (map (scp_type env) tys)) (\<lambda>tys'. scp_return (T_Future tys' loc b))"
| "scp_type env (T_Mapping k v) =
     scp_bind (scp_type env k) (\<lambda>k'. scp_bind (scp_type env v) (\<lambda>v'. scp_return (T_Mapping k' v')))"
| "scp_type env (T_Optional ty) = scp_bind (scp_type env ty) (\<lambda>ty'. scp_return (T_Optional ty'))"
| "scp_type env (T_Tuple tys) = scp_bind (scp_seq (map (scp_type env) tys)) (\<lambda>tys'. scp_return (T_Tuple tys'))"
| "scp_type env (T_Vector ty) = scp_bind (scp_type env ty) (\<lambda>ty'. scp_return (T_Vector ty'))"
| "scp_type env T_Address = scp_return T_Address"
| "scp_type env T_Boolean = scp_return T_Boolean"
| "scp_type env T_Field = scp_return T_Field"
| "scp_type env T_Group = scp_return T_Group"
| "scp_type env T_Identifier = scp_return T_Identifier"
| "scp_type env T_DynRecord = scp_return T_DynRecord"
| "scp_type env (T_Ident i) = scp_return (T_Ident i)"
| "scp_type env (T_Integer i) = scp_return (T_Integer i)"
| "scp_type env T_Scalar = scp_return T_Scalar"
| "scp_type env T_Signature = scp_return T_Signature"
| "scp_type env T_String = scp_return T_String"
| "scp_type env T_Numeric = scp_return T_Numeric"
| "scp_type env T_Unit = scp_return T_Unit"
| "scp_type env T_Err = scp_return T_Err"
| "scp_expr env (E_ArrayAccess array index nid) =
     scp_bind (scp_expr env array) (\<lambda>a. scp_bind (scp_expr env index) (\<lambda>i. scp_array_access env nid a i))"
| "scp_expr env (E_Async b nid) = scp_bind (scp_block env b) (\<lambda>b'. scp_return (E_Async b' nid, None))"
| "scp_expr env (E_Array es nid) = scp_bind (scp_seq (map (scp_expr env) es)) (\<lambda>rs. scp_array nid es rs)"
| "scp_expr env (E_Binary left right op nid) =
     scp_bind (scp_expr env left) (\<lambda>l. scp_bind (scp_expr env right) (\<lambda>r. scp_binary env op nid l r))"
| "scp_expr env (E_Intrinsic name tys ins outs args nid) =
     scp_bind (scp_seq (map (scp_type env) tys)) (\<lambda>tys'.
     scp_bind (scp_seq_moded (map (map_prod id (scp_type env)) ins)) (\<lambda>ins'.
     scp_bind (scp_seq_moded (map (map_prod id (scp_type env)) outs)) (\<lambda>outs'.
     scp_bind (scp_seq (map (scp_expr env) args)) (\<lambda>args'. scp_return (E_Intrinsic name tys' ins' outs' (map fst args') nid, None)))))"
| "scp_expr env (E_Call f const_args args nid) =
     scp_bind (scp_seq (map (scp_expr env) const_args)) (\<lambda>const_args'.
     scp_bind (scp_seq (map (scp_expr env) args)) (\<lambda>args'. scp_return (E_Call f (map fst const_args') (map fst args') nid, None)))"
| "scp_expr env (E_DynamicOp interface target network kind nid) =
     scp_bind (scp_type env interface) (\<lambda>interface'.
     scp_bind (scp_expr env target) (\<lambda>target'.
     scp_bind (scp_seq_option (map_option (scp_expr env) network)) (\<lambda>network'.
     scp_bind (scp_kind env kind) (\<lambda>kind'.
     scp_return (E_DynamicOp interface' (fst target') (map_option fst network') kind' nid, None)))))"
| "scp_expr env (E_Cast e ty nid) = scp_bind (scp_expr env e) (\<lambda>e'. scp_return (E_Cast (fst e') ty nid, None))"
| "scp_expr env (E_Composite path const_args inits base nid) =
     scp_bind (scp_seq (map (scp_expr env) const_args)) (\<lambda>const_args'.
     scp_bind (scp_seq (map (scp_field env) inits)) (\<lambda>inits'.
     scp_bind (scp_seq_option (map_option (scp_expr env) base)) (\<lambda>base'.
     scp_return (E_Composite path (map fst const_args') inits' (map_option fst base') nid, None))))"
| "scp_expr env (E_Err nid) = scp_panic ''ErrExpressions should not be in the AST at this phase of compilation.''"
| "scp_expr env (E_Path p) = scp_path env p"
| "scp_expr env (E_Literal l) = scp_literal env l"
| "scp_expr env (E_MemberAccess inner name nid) =
     scp_bind (scp_expr env inner) (\<lambda>inner'. scp_member env (fst inner') name nid)"
| "scp_expr env (E_Repeat e cnt nid) =
     scp_bind (scp_expr env e) (\<lambda>e'. scp_bind (scp_expr env cnt) (\<lambda>cnt'. scp_return (E_Repeat (fst e') (fst cnt') nid, None)))"
| "scp_expr env (E_Ternary c t f nid) =
     scp_bind (scp_expr env c) (\<lambda>c'.
     scp_bind (scp_expr env t) (\<lambda>t'.
     scp_bind (scp_expr env f) (\<lambda>f'. scp_ternary env nid c' t' f')))"
| "scp_expr env (E_Tuple es nid) = scp_bind (scp_seq (map (scp_expr env) es)) (\<lambda>rs. scp_tuple nid es rs)"
| "scp_expr env (E_TupleAccess tuple index nid) =
     scp_bind (scp_expr env tuple) (\<lambda>tuple'. scp_return (E_TupleAccess (fst tuple') index nid, None))"
| "scp_expr env (E_Unary receiver op nid) = scp_bind (scp_expr env receiver) (\<lambda>r. scp_unary env op nid r)"
| "scp_expr env (E_Unit nid) = scp_return (E_Unit nid, None)"
| "scp_field env (Field_Init i oe nid) =
     scp_bind (scp_seq_option (map_option (scp_expr env) oe)) (\<lambda>oe'. scp_return (Field_Init i (map_option fst oe') nid))"
| "scp_kind env (Dyn_Call f args) = scp_bind (scp_seq (map (scp_expr env) args)) (\<lambda>args'. scp_return (Dyn_Call f (map fst args')))"
| "scp_kind env (Dyn_Read storage) = scp_return (Dyn_Read storage)"
| "scp_kind env (Dyn_Op member op args) =
     scp_bind (scp_seq (map (scp_expr env) args)) (\<lambda>args'. scp_return (Dyn_Op member op (map fst args')))"
| "scp_assert env (Assert e) = scp_bind (scp_expr env e) (\<lambda>e'. scp_return (Assert (fst e')))"
| "scp_assert env (AssertEq a b) =
     scp_bind (scp_expr env a) (\<lambda>a'. scp_bind (scp_expr env b) (\<lambda>b'. scp_return (AssertEq (fst a') (fst b'))))"
| "scp_assert env (AssertNeq a b) =
     scp_bind (scp_expr env a) (\<lambda>a'. scp_bind (scp_expr env b) (\<lambda>b'. scp_return (AssertNeq (fst a') (fst b'))))"
| "scp_block env (Block ss nid) = scp_bind (scp_seq (map (scp_statement env) ss)) (\<lambda>ss'. scp_return (Block ss' nid))"
| "scp_statement env (S_Assert variant nid) =
     scp_bind (scp_assert env variant) (\<lambda>variant'. scp_return (S_Assert variant' nid))"
| "scp_statement env (S_Assign _ _ _) = scp_panic ''there should be no assignments at this stage''"
| "scp_statement env (S_Block b) = scp_bind (scp_block env b) (\<lambda>b'. scp_return (S_Block b'))"
| "scp_statement env (S_Conditional condition then_block otherwise nid) =
     scp_bind (scp_expr env condition) (\<lambda>c.
     (case value_bool (snd c) of
        Some True \<Rightarrow> scp_bind (scp_change ()) (\<lambda>_. scp_bind (scp_block env then_block) (\<lambda>b. scp_return (S_Block b)))
      | Some False \<Rightarrow>
          scp_bind (scp_change ()) (\<lambda>_.
          scp_bind (scp_seq_option (map_option (scp_statement env) otherwise)) (\<lambda>st. scp_return (case st of Some st' \<Rightarrow> st' | None \<Rightarrow> statement_dummy)))
      | None \<Rightarrow>
          scp_bind (scp_block env then_block) (\<lambda>then_block'.
          scp_bind (scp_seq_option (map_option (scp_statement env) otherwise)) (\<lambda>otherwise'.
          scp_return (S_Conditional (fst c) then_block' otherwise' nid)))))"
| "scp_statement env (S_Const exported place ty e nid) =
     scp_bind (scp_type env ty) (\<lambda>ty'.
     scp_bind (scp_expr env e) (\<lambda>e'. scp_return (S_Const exported place ty' (fst e') nid)))"
| "scp_statement env (S_Definition place ty e nid) =
     scp_bind (scp_expr env e) (\<lambda>r.
     scp_bind (track_definition place (fst r) (snd r)) (\<lambda>_. scp_return (S_Definition place ty (fst r) nid)))"
| "scp_statement env (S_Expression e nid) = scp_bind (scp_expr env e) (\<lambda>e'. scp_return (S_Expression (fst e') nid))"
| "scp_statement env (S_Iteration x ty start stop inclusive b nid) =
     scp_bind (scp_seq_option (map_option (scp_type env) ty)) (\<lambda>ty'.
     scp_bind (scp_expr env start) (\<lambda>start'.
     scp_bind (scp_expr env stop) (\<lambda>stop'.
     scp_bind (scp_block env b) (\<lambda>b'. scp_return (S_Iteration x ty' (fst start') (fst stop') inclusive b' nid)))))"
| "scp_statement env (S_Return e nid) = scp_bind (scp_expr env e) (\<lambda>e'. scp_return (S_Return (fst e') nid))"

section \<open>Programs\<close>

text \<open>The maps are cleared before and after every function and constructor.\<close>

definition clear_maps :: "('e, unit) scp" where
  "clear_maps s = Inr ((), s\<lparr>scp_constants := Map.empty, scp_composites := Map.empty\<rparr>)"

definition scp_body :: "'e scp_env \<Rightarrow> block \<Rightarrow> ('e, block) scp" where
  "scp_body env b =
     scp_bind clear_maps (\<lambda>_. scp_bind (scp_block env b) (\<lambda>b'. scp_bind clear_maps (\<lambda>_. scp_return b')))"

definition scp_function :: "'e scp_env \<Rightarrow> leo_function \<Rightarrow> ('e, leo_function) scp" where
  "scp_function env f = scp_bind (scp_body env (fn_block f)) (\<lambda>b. scp_return (f\<lparr>fn_block := b\<rparr>))"

fun scp_map :: "('a \<Rightarrow> ('e, 'b) scp) \<Rightarrow> ('k \<times> 'a) list \<Rightarrow> ('e, ('k \<times> 'b) list) scp" where
  "scp_map m [] = scp_return []"
| "scp_map m ((k, a) # rest) =
     scp_bind (m a) (\<lambda>b. scp_bind (scp_map m rest) (\<lambda>rest'. scp_return ((k, b) # rest')))"

definition scp_program_scope :: "'e scp_env \<Rightarrow> program_scope \<Rightarrow> ('e, program_scope) scp" where
  "scp_program_scope env scope =
     scp_bind (\<lambda>s. Inr ((), s\<lparr>scp_program := sc_program scope\<rparr>)) (\<lambda>_.
     scp_bind (scp_map (scp_function env) (sc_functions scope)) (\<lambda>fs.
     scp_bind
       (case sc_constructor scope of
          None \<Rightarrow> scp_return None
        | Some c \<Rightarrow> scp_bind (scp_body env c) (\<lambda>c'. scp_return (Some c'))) (\<lambda>c.
     scp_return (scope\<lparr>sc_functions := fs, sc_constructor := c\<rparr>))))"

definition scp_module :: "'e scp_env \<Rightarrow> leo_module \<Rightarrow> ('e, leo_module) scp" where
  "scp_module env m =
     scp_bind (scp_map (scp_function env) (mod_functions m)) (\<lambda>fs. scp_return (m\<lparr>mod_functions := fs\<rparr>))"

fun scp_program_unit :: "'e scp_env \<Rightarrow> 'a leo_program \<Rightarrow> ('e, 'a leo_program) scp"
  and scp_stub :: "'e scp_env \<Rightarrow> 'a stub \<Rightarrow> ('e, 'a stub) scp"
  and scp_stubs :: "'e scp_env \<Rightarrow> (symbol \<times> 'a stub) list \<Rightarrow> ('e, (symbol \<times> 'a stub) list) scp"
where
  "scp_program_unit env (Leo_Program modules stubs scopes) =
     scp_bind (scp_stubs env stubs) (\<lambda>stubs'.
     scp_bind (scp_map (scp_program_scope env) scopes) (\<lambda>scopes'.
     scp_bind (scp_map (scp_module env) modules) (\<lambda>modules'.
     scp_return (Leo_Program modules' stubs' scopes'))))"
| "scp_stub env (From_Leo p parents) = scp_bind (scp_program_unit env p) (\<lambda>p'. scp_return (From_Leo p' parents))"
| "scp_stub env (From_Aleo a parents) = scp_return (From_Aleo a parents)"
| "scp_stub env (From_Library l parents) = scp_return (From_Library l parents)"
| "scp_stubs env [] = scp_return []"
| "scp_stubs env ((name, st) # rest) =
     scp_bind (scp_stub env st) (\<lambda>st'. scp_bind (scp_stubs env rest) (\<lambda>rest'. scp_return ((name, st') # rest')))"

text \<open>
  The pass repeats until nothing changes, at most 1024 times; errors end it.  The handler holds no error when
  the pass starts.
\<close>

datatype scp_stop = Scp_Panic string | Scp_Errors "const_error list"

fun scp_rounds ::
  "'e scp_env \<Rightarrow> nat \<Rightarrow> 'a leo_program \<Rightarrow> (node_id \<rightharpoonup> leo_type) \<Rightarrow> node_id \<Rightarrow>
     scp_stop + 'a leo_program \<times> (node_id \<rightharpoonup> leo_type) \<times> node_id" where
  "scp_rounds env 0 p types next = Inl (Scp_Panic ''ran out of loops'')"
| "scp_rounds env (Suc k) p types next =
     (case scp_program_unit env p
        \<lparr>scp_program = [], scp_constants = Map.empty, scp_composites = Map.empty, scp_changed = False,
         scp_types = types, scp_next = next, scp_errors = []\<rparr> of
        Inl msg \<Rightarrow> Inl (Scp_Panic msg)
      | Inr (p', s) \<Rightarrow>
          if scp_errors s \<noteq> [] then Inl (Scp_Errors (scp_errors s))
          else if \<not> scp_changed s then Inr (p', scp_types s, scp_next s)
          else scp_rounds env k p' (scp_types s) (scp_next s))"

definition scp_pass ::
  "'e scp_env \<Rightarrow> 'a leo_program + 'a library \<Rightarrow> (node_id \<rightharpoonup> leo_type) \<Rightarrow> node_id \<Rightarrow>
     scp_stop + ('a leo_program + 'a library) \<times> (node_id \<rightharpoonup> leo_type) \<times> node_id" where
  "scp_pass env ast types next =
     (case ast of
        Inl p \<Rightarrow> map_sum id (\<lambda>(p', r). (Inl p', r)) (scp_rounds env 1024 p types next)
      | Inr l \<Rightarrow> Inr (Inr l, types, next))"

end
