(* ===== verification/Ssa_Const_Machine.thy ===== *)
theory Ssa_Const_Machine
  imports Ssa_Const_Prop Dead_Code_Props Const_Props
begin

text \<open>
  Constant propagation keeps the value of expressions.  The locale \<open>folding_machine\<close> says what is expected of the
  machine that runs the code: it computes what constant evaluation computes, and it obeys the algebraic laws behind
  the simplifications.
\<close>

section \<open>Steps of the visitor\<close>

lemma scp_bind_Inr: "scp_bind m f s = Inr r \<longleftrightarrow> (\<exists>a s1. m s = Inr (a, s1) \<and> f a s1 = Inr r)"
  by (auto simp: scp_bind_def split: sum.splits)

lemma scp_return_Inr [simp]: "scp_return a s = Inr r \<longleftrightarrow> r = (a, s)"
  by (auto simp: scp_return_def)

lemma scp_panic_Inr [simp]: "scp_panic msg s = Inr r \<longleftrightarrow> False"
  by (simp add: scp_panic_def)

lemma scp_change_Inr [simp]: "scp_change a s = Inr r \<longleftrightarrow> r = (a, s\<lparr>scp_changed := True\<rparr>)"
  by (auto simp: scp_change_def)

lemma scp_type_of_Inr [simp]: "scp_type_of nid s = Inr r \<longleftrightarrow> r = (scp_types s nid, s)"
  by (auto simp: scp_type_of_def)

lemma scp_ok_Inr: "scp_ok x s = Inr (r, s') \<longleftrightarrow> s' = s \<and> (case x of Inr a \<Rightarrow> r = Some a | Inl e \<Rightarrow> r = None \<and> (\<forall>msg. e \<noteq> Const_Value.Panic msg))"
  by (auto simp: scp_ok_def split: sum.splits const_error.splits)

lemma scp_seq_simps [simp]:
  "scp_seq [] = scp_return []"
  "scp_seq (m # ms) = scp_bind m (\<lambda>a. scp_bind (scp_seq ms) (\<lambda>as. scp_return (a # as)))"
  by (simp_all add: scp_seq_def)

lemma scp_seq_option_simps [simp]:
  "scp_seq_option None = scp_return None"
  "scp_seq_option (Some m) = scp_bind m (\<lambda>a. scp_return (Some a))"
  by (simp_all add: scp_seq_option_def)

lemma scp_seq_moded_simps [simp]:
  "scp_seq_moded [] = scp_return []"
  "scp_seq_moded ((mode, m) # ms) s = Inr r \<longleftrightarrow>
     scp_bind m (\<lambda>a. scp_bind (scp_seq_moded ms) (\<lambda>as. scp_return ((mode, a) # as))) s = Inr r"
  by (auto simp: scp_seq_moded_def scp_bind_Inr)

text \<open>What expressions leave alone.\<close>

definition same_maps :: "'e scp_state \<Rightarrow> 'e scp_state \<Rightarrow> bool" where
  "same_maps s s' \<longleftrightarrow> scp_constants s' = scp_constants s \<and> scp_composites s' = scp_composites s"

lemma same_maps_refl [simp]: "same_maps s s"
  by (simp add: same_maps_def)

lemma same_maps_trans: "same_maps s s1 \<Longrightarrow> same_maps s1 s2 \<Longrightarrow> same_maps s s2"
  by (simp add: same_maps_def)

lemma same_maps_update [simp]:
  "same_maps s (s\<lparr>scp_changed := b\<rparr>)" "same_maps s (s\<lparr>scp_errors := es\<rparr>)"
  "same_maps s (s'\<lparr>scp_changed := b\<rparr>) \<longleftrightarrow> same_maps s s'"
  by (simp_all add: same_maps_def)

lemma scp_emit_Inr: "scp_emit x s = Inr (r, s') \<Longrightarrow> same_maps s s' \<and> (\<forall>a. r = Some a \<longrightarrow> x = Inr a)"
  by (auto simp: scp_emit_def same_maps_def split: sum.splits const_error.splits)

lemma scp_fresh_Inr: "scp_fresh ty s = Inr (n, s') \<Longrightarrow> same_maps s s'"
  by (auto simp: scp_fresh_def same_maps_def)

section \<open>Code in single-assignment form\<close>

text \<open>
  Literals have a suffix.  They are not scalars, since a scalar zero that multiplies a group does not absorb it, and not
  signatures, which do not survive as literals.
\<close>

fun good_literal :: "literal_variant \<Rightarrow> bool" where
  "good_literal (Lit_Unsuffixed _) \<longleftrightarrow> False"
| "good_literal (Lit_Scalar _) \<longleftrightarrow> False"
| "good_literal (Lit_Signature _) \<longleftrightarrow> False"
| "good_literal _ \<longleftrightarrow> True"

definition is_good :: "expression \<Rightarrow> bool" where
  "is_good e = literal_such good_literal e"

text \<open>
  Expressions without effects: \<open>N\<close> are the names of local variables, \<open>D\<close> the variables that are defined.
\<close>

primrec calm :: "(symbol \<Rightarrow> bool) \<Rightarrow> symbol list \<Rightarrow> expression \<Rightarrow> bool"
  and calm_field :: "(symbol \<Rightarrow> bool) \<Rightarrow> symbol list \<Rightarrow> field_initializer \<Rightarrow> bool"
where
  "calm N D (E_ArrayAccess array index _) \<longleftrightarrow> calm N D array \<and> is_good index"
| "calm N D (E_Async _ _) \<longleftrightarrow> False"
| "calm N D (E_Array es _) \<longleftrightarrow> list_all (calm N D) es"
| "calm N D (E_Binary left right _ _) \<longleftrightarrow> calm N D left \<and> calm N D right"
| "calm N D (E_Intrinsic _ _ _ _ _ _) \<longleftrightarrow> False"
| "calm N D (E_Call _ _ _ _) \<longleftrightarrow> False"
| "calm N D (E_DynamicOp _ _ _ _ _) \<longleftrightarrow> False"
| "calm N D (E_Cast _ _ _) \<longleftrightarrow> False"
| "calm N D (E_Composite _ const_args inits base _) \<longleftrightarrow> const_args = [] \<and> list_all (calm_field N D) inits \<and> base = None"
| "calm N D (E_Err _) \<longleftrightarrow> False"
| "calm N D (E_Path p) \<longleftrightarrow>
     (case try_local_symbol p of
        Some x \<Rightarrow> x \<in> set D \<and> ident_name (identifier_of p) = x
      | None \<Rightarrow> \<not> N (ident_name (identifier_of p)) \<and> ident_name (identifier_of p) \<noteq> ''self'')"
| "calm N D (E_Literal l) \<longleftrightarrow> good_literal (lit_variant l)"
| "calm N D (E_MemberAccess inner _ _) \<longleftrightarrow>
     (case inner of E_Path p \<Rightarrow> try_local_symbol p = None \<and> ident_name (identifier_of p) = ''self'' | _ \<Rightarrow> False) \<or> calm N D inner"
| "calm N D (E_Repeat e cnt _) \<longleftrightarrow> calm N D e \<and> is_good cnt"
| "calm N D (E_Ternary c t f _) \<longleftrightarrow> calm N D c \<and> calm N D t \<and> calm N D f"
| "calm N D (E_Tuple es _) \<longleftrightarrow> list_all (calm N D) es"
| "calm N D (E_TupleAccess tuple _ _) \<longleftrightarrow> calm N D tuple"
| "calm N D (E_Unary receiver _ _) \<longleftrightarrow> calm N D receiver"
| "calm N D (E_Unit _) \<longleftrightarrow> True"
| "calm_field N D (Field_Init _ oe _) \<longleftrightarrow> (case map_option (calm N D) oe of Some b \<Rightarrow> b | None \<Rightarrow> False)"

text \<open>The constants that are propagated.\<close>

primrec plain_literal :: "'e svm_literal \<Rightarrow> bool" where
  "plain_literal (L_Int ty x) \<longleftrightarrow> in_range ty x"
| "plain_literal (L_Boolean _) \<longleftrightarrow> True"
| "plain_literal (L_Field _) \<longleftrightarrow> True"
| "plain_literal (L_Group _) \<longleftrightarrow> True"
| "plain_literal (L_Scalar _) \<longleftrightarrow> False"
| "plain_literal (L_Address _) \<longleftrightarrow> True"
| "plain_literal (L_Signature _) \<longleftrightarrow> False"
| "plain_literal (L_String _) \<longleftrightarrow> True"
| "plain_literal (L_Identifier _) \<longleftrightarrow> True"

primrec plain :: "'e plaintext \<Rightarrow> bool" where
  "plain (P_Literal l) \<longleftrightarrow> plain_literal l"
| "plain (P_Struct _) \<longleftrightarrow> False"
| "plain (P_Array ps) \<longleftrightarrow> list_all plain ps"

primrec const_ok :: "'e const_value \<Rightarrow> bool"
  and contents_ok :: "'e value_variants \<Rightarrow> bool"
where
  "const_ok (Value i c) \<longleftrightarrow> i = None \<and> contents_ok c"
| "contents_ok V_Unit \<longleftrightarrow> False"
| "contents_ok (V_Svm x) \<longleftrightarrow> (case x of SV_Plaintext p \<Rightarrow> plain p | _ \<Rightarrow> False)"
| "contents_ok (V_Tuple vs) \<longleftrightarrow> list_all const_ok vs"
| "contents_ok (V_Unsuffixed _) \<longleftrightarrow> False"
| "contents_ok (V_Future _) \<longleftrightarrow> False"
| "contents_ok (V_String _) \<longleftrightarrow> True"

lemma const_ok_simps [simp]:
  "const_ok (value_of_literal l) \<longleftrightarrow> plain_literal l"
  "const_ok (value_of_plaintext p) \<longleftrightarrow> plain p"
  "const_ok (make_tuple vs) \<longleftrightarrow> list_all const_ok vs"
  "const_ok (make_string str)"
  by (simp_all add: value_of_literal_def value_of_plaintext_def value_of_contents_def make_tuple_def make_string_def)

lemma plain_literal_iff: "plain_literal l \<longleftrightarrow> wf_literal l \<and> (\<forall>x. l \<noteq> L_Scalar x \<and> l \<noteq> L_Signature x)"
  by (cases l) auto

lemma eval_binary_plain:
  assumes "plain_literal l" "plain_literal r" "eval_binary svm op l r = Inr z"
  shows "plain_literal z"
proof -
  have "wf_literal z" using eval_binary_wf[OF _ _ assms(3)] assms(1,2) by (simp add: plain_literal_iff)
  moreover have "z \<noteq> L_Scalar x \<and> z \<noteq> L_Signature x" for x
    using assms
    by (cases op) (auto simp: eval_defs eval_shapes bind_res_def map_res_def ok_or_def Let_def
        split: svm_literal.splits if_splits option.splits sum.splits)
  ultimately show ?thesis by (simp add: plain_literal_iff)
qed

lemma eval_unary_plain:
  assumes "plain_literal l" "eval_unary svm op l = Inr z"
  shows "plain_literal z"
proof -
  have "wf_literal z" using eval_unary_wf[OF _ assms(2)] assms(1) by (simp add: plain_literal_iff)
  moreover have "z \<noteq> L_Scalar x \<and> z \<noteq> L_Signature x" for x
    using assms by (cases op) (auto simp: map_res_def ok_or_def split: svm_literal.splits if_splits option.splits sum.splits)
  ultimately show ?thesis by (simp add: plain_literal_iff)
qed

lemma const_not_unsuffixed: "const_ok v \<Longrightarrow> contents v \<noteq> V_Unsuffixed str"
  by (cases v) auto

lemma resolve_const [simp]: "const_ok v \<Longrightarrow> resolve_if_unsuffixed codec v ty = Inr v"
  using const_not_unsuffixed[of v] by (simp add: resolve_if_unsuffixed_def split: value_variants.split)

lemma try_literal_const: "const_ok v \<Longrightarrow> try_literal v = Some l \<Longrightarrow> plain_literal l \<and> v = value_of_literal l"
  by (cases v) (auto simp: try_literal_def value_of_literal_def value_of_plaintext_def value_of_contents_def
      split: value_variants.splits svm_value.splits plaintext.splits)

lemma resolve_binary_const:
  assumes "const_ok a" "const_ok b"
  shows "resolve_unsuffixed_binary_op_operands codec a b op ty = Inr (a, b)"
  using assms by (simp add: resolve_unsuffixed_binary_op_operands_def resolve_mul_operand_def Let_def
      split: option.split leo_type.split)

lemma evaluate_binary_const:
  assumes "const_ok a" "const_ok b" "evaluate_binary svm codec op a b ty = Inr c"
  shows "const_ok c"
proof -
  from assms(3) have "evaluate_binary_inner svm codec op a b ty = Inr c"
    by (auto simp: evaluate_binary_def map_reason_def split: sum.splits const_error.splits)
  then show ?thesis using assms(1,2)
    by (auto simp: evaluate_binary_inner_def resolve_binary_const map_res_eq_Inr split: if_splits option.splits
        dest!: try_literal_const intro: eval_binary_plain)
qed

lemma evaluate_unary_const:
  assumes "const_ok a" "evaluate_unary svm codec op a ty = Inr c"
  shows "const_ok c"
proof -
  from assms(2) have "evaluate_unary_inner svm codec op a ty = Inr c"
    by (auto simp: evaluate_unary_def map_reason_def split: sum.splits const_error.splits)
  then show ?thesis using assms(1)
    by (auto simp: evaluate_unary_inner_def resolve_unsuffixed_unary_op_operand_def map_res_eq_Inr simp del: eval_unary.simps
        split: if_splits option.splits dest!: try_literal_const intro: eval_unary_plain)
qed

lemma literal_to_value_const:
  assumes "literal_to_value codec l ty = Inr c" "good_literal (lit_variant l)"
  shows "const_ok c"
  using assms
  by (cases "lit_variant l") (auto simp: literal_to_value_def map_res_eq_Inr expect_int_def
      split: if_splits sum.splits dest: from_str_by_radix_in_range)

section \<open>The machine\<close>

definition right_neutral :: "binary_operation \<Rightarrow> literal_variant \<Rightarrow> bool" where
  "right_neutral op z \<longleftrightarrow>
     op \<in> {Add, AddWrapped, Sub, SubWrapped, BitwiseOr, Xor} \<and> is_zero_literal z \<or>
     op \<in> {Mul, MulWrapped, Div, DivWrapped} \<and> is_one_literal z \<or>
     op \<in> {And, BitwiseAnd} \<and> z = Lit_Boolean True \<or> op = Or \<and> z = Lit_Boolean False"

definition left_neutral :: "binary_operation \<Rightarrow> literal_variant \<Rightarrow> bool" where
  "left_neutral op z \<longleftrightarrow>
     op \<in> {Add, AddWrapped, BitwiseOr, Xor} \<and> is_zero_literal z \<or> op \<in> {Mul, MulWrapped} \<and> is_one_literal z \<or>
     op \<in> {And, BitwiseAnd} \<and> z = Lit_Boolean True \<or> op = Or \<and> z = Lit_Boolean False"

definition absorbing :: "binary_operation \<Rightarrow> literal_variant \<Rightarrow> bool" where
  "absorbing op z \<longleftrightarrow>
     op \<in> {Mul, MulWrapped, BitwiseAnd} \<and> is_zero_literal z \<or> op = And \<and> z = Lit_Boolean False \<or>
     op \<in> {Or, BitwiseOr} \<and> z = Lit_Boolean True"

text \<open>
  \<open>den\<close> gives the machine's value of a constant.  The machine reads the literals as constant evaluation does, also those
  that are printed from constants; where constant evaluation succeeds the machine computes the same; literals
  that are neutral or absorbing are so for the machine, when its operation succeeds; and a member of a composite is
  what the composite was built from.
\<close>

locale folding_machine =
  fixes M :: "('v, 'w) meaning" and den :: "'e const_value \<Rightarrow> 'v" and env :: "'e scp_env" and comps :: "location \<rightharpoonup> composite"
  assumes quiet_machine: "quiet M"
    and literal_value: "good_literal (lit_variant l) \<Longrightarrow> literal_to_value (scp_codec env) l ty = Inr c \<Longrightarrow> m_literal M (lit_variant l) = den c"
    and literal_printed: "plain_literal k \<Longrightarrow> literal_to_expression (scp_codec env) k i n = Inr (Some (E_Literal l, n')) \<Longrightarrow>
      m_literal M (lit_variant l) = den (value_of_literal k)"
    and binary_folds: "const_ok a \<Longrightarrow> const_ok b \<Longrightarrow> evaluate_binary (scp_svm env) (scp_codec env) op a b ty = Inr c \<Longrightarrow>
      m_op M (H_Binary op) [den a, den b] w = Some (den c, w)"
    and unary_folds: "const_ok a \<Longrightarrow> evaluate_unary (scp_svm env) (scp_codec env) uop a ty = Inr c \<Longrightarrow> m_op M (H_Unary uop) [den a] w = Some (den c, w)"
    and array_folds: "list_all const_ok vs \<Longrightarrow> make_array vs = Inr c \<Longrightarrow> m_op M H_Array (map den vs) w = Some (den c, w)"
    and tuple_folds: "list_all const_ok vs \<Longrightarrow> m_op M H_Tuple (map den vs) w = Some (den (make_tuple vs), w)"
    and access_folds: "const_ok a \<Longrightarrow> good_literal (lit_variant l) \<Longrightarrow> literal_to_value (scp_codec env) l ty = Inr idx \<Longrightarrow> value_as_u32 idx = Some j \<Longrightarrow>
      array_index a (nat j) = Inr (Some c) \<Longrightarrow> m_op M (H_ArrayAccess (E_Literal l)) [den a] w = Some (den c, w)"
    and truth: "m_truth M v = Some t \<longleftrightarrow> v = den (value_of_literal (L_Boolean t))"
    and untuple: "list_all const_ok vs \<Longrightarrow> m_untuple M (den (make_tuple vs)) = Some (map den vs)"
    and right_unit: "right_neutral op z \<Longrightarrow> m_op M (H_Binary op) [v, m_literal M z] w = Some (r, w') \<Longrightarrow> r = v"
    and left_unit: "left_neutral op z \<Longrightarrow> m_op M (H_Binary op) [m_literal M z, v] w = Some (r, w') \<Longrightarrow> r = v"
    and right_zero: "absorbing op z \<Longrightarrow> good_literal z \<Longrightarrow> m_op M (H_Binary op) [v, m_literal M z] w = Some (r, w') \<Longrightarrow> r = m_literal M z"
    and left_zero: "absorbing op z \<Longrightarrow> good_literal z \<Longrightarrow> m_op M (H_Binary op) [m_literal M z, v] w = Some (r, w') \<Longrightarrow> r = m_literal M z"
    and same_operands: "m_op M (H_Binary Eq) [v, v] w = Some (r, w') \<Longrightarrow> r = m_literal M (Lit_Boolean True)"
      "m_op M (H_Binary Neq) [v, v] w = Some (r, w') \<Longrightarrow> r = m_literal M (Lit_Boolean False)"
    and double: "uop \<in> {Not, Negate} \<Longrightarrow> m_op M (H_Unary uop) [v] w = Some (u, w1) \<Longrightarrow> m_op M (H_Unary uop) [u] w1 = Some (r, w2) \<Longrightarrow> r = v"
    and member_built: "Option.bind (try_global_location path) comps = Some cmp \<Longrightarrow> length us = length (member_names cmp) \<Longrightarrow>
      m_op M (H_Composite path cargs) us w = Some (r, w') \<Longrightarrow> m_member M m r = map_of (zip (member_names cmp) us) m"
begin

text \<open>An expression without effects and its value, when it is known.\<close>

definition good :: "(symbol \<Rightarrow> bool) \<Rightarrow> symbol list \<Rightarrow> expression \<times> 'e const_value option \<Rightarrow> bool" where
  "good N D x \<longleftrightarrow> calm N D (fst x) \<and> (\<forall>k. snd x = Some k \<longrightarrow> const_ok k)"

definition denotes :: "'v env \<Rightarrow> 'w \<Rightarrow> expression \<times> 'e const_value option \<Rightarrow> 'v \<Rightarrow> bool" where
  "denotes \<rho> w x v \<longleftrightarrow> eval M comps (fst x) \<rho> w = Some (v, w) \<and> (\<forall>k. snd x = Some k \<longrightarrow> v = den k)"

lemma quiet_op: "m_op M h vs w = Some (v, w') \<Longrightarrow> quiet_head h \<Longrightarrow> w' = w"
  using quietD[OF quiet_machine] by blast

text \<open>Literals that are printed from constants.\<close>

lemma literal_built:
  assumes "literal_to_expression (scp_codec env) k i n = Inr (Some (e, n'))" "plain_literal k"
  shows "calm N D e" "eval M comps e \<rho> w = Some (den (value_of_literal k), w)"
proof -
  from assms obtain l where l: "e = E_Literal l" "good_literal (lit_variant l)"
    by (cases k) (auto simp: literal_expr_def map_res_def split: sum.splits)
  then show "calm N D e" by simp
  show "eval M comps e \<rho> w = Some (den (value_of_literal k), w)"
    using literal_printed[OF assms(2)] assms(1) l by (simp add: eval.simps)
qed

lemma elements_built:
  "(\<And>p n e n'. p \<in> set ps \<Longrightarrow> plaintext_to_expression (scp_codec env) lookup p ty n = Inr (Some (e, n')) \<Longrightarrow> plain p \<Longrightarrow>
       calm N D e \<and> (\<forall>\<rho> w. eval M comps e \<rho> w = Some (den (value_of_plaintext p), w))) \<Longrightarrow>
     elements_to_expressions (scp_codec env) lookup ps ty n = Inr (Some (es, n')) \<Longrightarrow> list_all plain ps \<Longrightarrow>
     list_all (calm N D) es \<and> (\<forall>\<rho> w. eval_list M comps es \<rho> w = Some (map (den \<circ> value_of_plaintext) ps, w))"
proof (induction ps arbitrary: n es)
  case (Cons p ps)
  from Cons.prems(2) obtain e n1 es1 where e: "plaintext_to_expression (scp_codec env) lookup p ty n = Inr (Some (e, n1))"
    and es1: "elements_to_expressions (scp_codec env) lookup ps ty n1 = Inr (Some (es1, n'))" and es: "es = e # es1"
    by (auto simp: bind_build_def split: sum.splits option.splits)
  have "calm N D e \<and> (\<forall>\<rho> w. eval M comps e \<rho> w = Some (den (value_of_plaintext p), w))"
    using Cons.prems(1)[OF _ e] Cons.prems(3) by simp
  moreover have "list_all (calm N D) es1 \<and> (\<forall>\<rho> w. eval_list M comps es1 \<rho> w = Some (map (den \<circ> value_of_plaintext) ps, w))"
    using Cons.IH[OF Cons.prems(1) es1] Cons.prems(3) by simp
  ultimately show ?case using es by (simp add: eval_list.simps)
qed (simp add: eval_list.simps)

lemma collect_plaintexts_values: "collect_plaintexts msg (map value_of_plaintext ps) = Inr ps"
  by (induction ps) (simp_all add: try_plaintext_def value_of_plaintext_def value_of_contents_def ok_or_def)

lemma plaintext_built:
  "plaintext_to_expression (scp_codec env) lookup p ty n = Inr (Some (e, n')) \<Longrightarrow> plain p \<Longrightarrow>
     calm N D e \<and> (\<forall>\<rho> w. eval M comps e \<rho> w = Some (den (value_of_plaintext p), w))"
proof (induction p arbitrary: ty n e n')
  case (P_Literal l)
  from P_Literal.prems show ?case using literal_built[of l n "Suc n" e n']
    by (simp add: plaintext_to_expression.simps value_of_literal_def)
next
  case (P_Array ps)
  from P_Array.prems(1) obtain elem len es m where ty: "ty = T_Array elem len" and
    es: "elements_to_expressions (scp_codec env) lookup ps elem (Suc n) = Inr (Some (es, m))" "e = E_Array es n"
    by (auto simp: plaintext_to_expression.simps bind_build_def split: leo_type.splits sum.splits option.splits)
  have b: "list_all (calm N D) es \<and> (\<forall>\<rho> w. eval_list M comps es \<rho> w = Some (map (den \<circ> value_of_plaintext) ps, w))"
    by (rule elements_built[OF _ es(1)]) (use P_Array in auto)
  have "m_op M H_Array (map den (map value_of_plaintext ps)) w = Some (den (value_of_plaintext (P_Array ps)), w)" for w
    using P_Array.prems(2) by (intro array_folds) (auto simp: list_all_iff make_array_def collect_plaintexts_values)
  then show ?case using b es(2) by (simp add: eval.simps)
qed simp

lemma value_built:
  "to_expression (scp_codec env) lookup v ty n = Inr (Some (e, n')) \<Longrightarrow> const_ok v \<Longrightarrow>
     calm N D e \<and> (\<forall>\<rho> w. eval M comps e \<rho> w = Some (den v, w))"
  "tuple_to_expressions (scp_codec env) lookup vs tys n = Inr (Some (es, n')) \<Longrightarrow> list_all const_ok vs \<Longrightarrow> length vs = length tys \<Longrightarrow>
     list_all (calm N D) es \<and> (\<forall>\<rho> w. eval_list M comps es \<rho> w = Some (map den vs, w))"
proof (induction "scp_codec env" lookup v ty n and "scp_codec env" lookup vs tys n arbitrary: e n' and es n'
    rule: to_expression_tuple_to_expressions.induct)
  case (1 lookup v ty n)
  obtain c where v: "v = Value None c" "contents_ok c" using "1.prems"(2) by (cases v) auto
  show ?case
  proof (cases c)
    case (V_Svm x)
    then obtain p where x: "x = SV_Plaintext p" "plain p" using v(2) by (cases x) auto
    then have "value_of_plaintext p = v" using v V_Svm by (simp add: value_of_plaintext_def value_of_contents_def)
    then show ?thesis using plaintext_built[of lookup p ty "Suc n" e n' N D] "1.prems"(1) v V_Svm x
      by (simp add: to_expression.simps)
  next
    case (V_Tuple vs)
    from "1.prems"(1) obtain tys es where ty: "ty = T_Tuple tys" "length vs = length tys" and
      es: "tuple_to_expressions (scp_codec env) lookup vs tys (Suc n) = Inr (Some (es, n'))" "e = E_Tuple es n"
      by (auto simp: to_expression.simps v V_Tuple bind_build_def split: leo_type.splits sum.splits option.splits if_splits)
    have ok: "list_all const_ok vs" using v V_Tuple by simp
    have "contents v = V_Tuple vs" using v V_Tuple by simp
    from "1.hyps"[OF this ty(1) _ es(1) ok ty(2)] ty(2) have
      b: "list_all (calm N D) es \<and> (\<forall>\<rho> w. eval_list M comps es \<rho> w = Some (map den vs, w))" by simp
    have "v = make_tuple vs" using v V_Tuple by (simp add: make_tuple_def value_of_contents_def)
    then show ?thesis using b es(2) tuple_folds[OF ok] by (simp add: eval.simps)
  next
    case (V_String str)
    have "good_literal (Lit_String str)" by simp
    then have "m_literal M (Lit_String str) = den (make_string str)"
      using literal_value[of "\<lparr>lit_variant = Lit_String str, lit_id = n\<rparr>" None] by (simp add: literal_to_value_def)
    then show ?thesis using "1.prems"(1) v V_String
      by (auto simp: to_expression.simps literal_expr_def eval.simps make_string_def value_of_contents_def)
  qed (use v in auto)
next
  case (4 lookup v vs ty tys n)
  from "4.prems"(1) obtain e n1 es1 where e: "to_expression (scp_codec env) lookup v ty n = Inr (Some (e, n1))"
    and es1: "tuple_to_expressions (scp_codec env) lookup vs tys n1 = Inr (Some (es1, n'))" and es: "es = e # es1"
    by (auto simp: bind_build_def split: sum.splits option.splits)
  from "4.hyps"(1)[OF e] "4.hyps"(2)[OF e es1] "4.prems" es show ?case by (simp add: eval_list.simps)
qed (auto simp: eval_list.simps)

lemma fold_value_keeps:
  assumes "fold_value env v nid s = Inr (x, s')" "const_ok v"
  shows "same_maps s s'" "good N D x" "denotes \<rho> w x (den v)"
proof -
  from assms(1) obtain e s1 where e: "value_to_expression env v nid s = Inr (e, s1)" and x: "x = (e, Some v)" "s' = s1\<lparr>scp_changed := True\<rparr>"
    by (auto simp: fold_value_def scp_bind_Inr)
  from e obtain ty n where "to_expression (scp_codec env) (scp_structs env (scp_program s)) v ty (scp_next s) = Inr (Some (e, n))"
    and s1: "same_maps s s1"
    by (auto simp: value_to_expression_def Let_def same_maps_def split: option.splits sum.splits const_error.splits)
  from value_built(1)[OF this(1) assms(2)] x assms(2) show "good N D x" "denotes \<rho> w x (den v)" by (auto simp: good_def denotes_def)
  show "same_maps s s'" using s1 x by simp
qed

section \<open>The helpers\<close>

lemma literal_such_iff: "literal_such P e \<longleftrightarrow> (\<exists>z. e = E_Literal z \<and> P (lit_variant z))"
  by (cases e) (simp_all add: literal_such_def)

lemma simplify_Take_Left:
  "simplify_binary op l r ty = Take_Left \<Longrightarrow>
     (\<exists>z. r = E_Literal z \<and> right_neutral op (lit_variant z)) \<or> (\<exists>z. l = E_Literal z \<and> absorbing op (lit_variant z))"
  by (cases op) (auto simp: simplify_binary_def Let_def right_neutral_def absorbing_def literal_such_iff split: if_splits)

lemma simplify_Take_Right:
  "simplify_binary op l r ty = Take_Right \<Longrightarrow>
     (\<exists>z. l = E_Literal z \<and> left_neutral op (lit_variant z)) \<or> (\<exists>z. r = E_Literal z \<and> absorbing op (lit_variant z))"
  by (cases op) (auto simp: simplify_binary_def Let_def left_neutral_def absorbing_def literal_such_iff split: if_splits)

lemma simplify_Take_Bool:
  "simplify_binary op l r ty = Take_Bool b \<Longrightarrow> same_ssa_atom l r \<and> op = (if b then Eq else Neq)"
  by (cases op) (auto simp: simplify_binary_def Let_def split: if_splits)

lemma same_atom_eval: "same_ssa_atom l r \<Longrightarrow> eval M comps l \<rho> w = eval M comps r \<rho> w"
  by (auto simp: same_ssa_atom_def eval.simps read_path_def split: expression.splits option.splits)

lemma bool_denotes: "denotes \<rho> w (bool_literal b n, Some (value_of_literal (L_Boolean b))) (m_literal M (Lit_Boolean b))"
  using literal_value[of "\<lparr>lit_variant = Lit_Boolean b, lit_id = n\<rparr>" None]
  by (simp add: denotes_def bool_literal_def eval.simps literal_to_value_def)

lemma scp_binary_keeps:
  assumes b: "scp_binary env op nid l r s = Inr (x, s')" and l: "good N D l" and r: "good N D r"
  shows "same_maps s s' \<and> good N D x \<and>
    (\<forall>\<rho> w va vb v w1. denotes \<rho> w l va \<longrightarrow> denotes \<rho> w r vb \<longrightarrow> m_op M (H_Binary op) [va, vb] w = Some (v, w1) \<longrightarrow>
       w1 = w \<and> denotes \<rho> w x v)"
proof (cases "snd l \<noteq> None \<and> snd r \<noteq> None")
  case True
  then obtain a k where ak: "snd l = Some a" "snd r = Some k" by auto
  then have ok: "const_ok a" "const_ok k" using l r by (auto simp: good_def)
  from b ak obtain c s1 where c: "scp_emit (evaluate_binary (scp_svm env) (scp_codec env) op a k (scp_types s nid)) s = Inr (c, s1)"
    and x: "(case c of Some c' \<Rightarrow> fold_value env c' nid | None \<Rightarrow> scp_return (E_Binary (fst l) (fst r) op nid, None)) s1 = Inr (x, s')"
    by (auto simp: scp_binary_def scp_bind_Inr)
  note e = scp_emit_Inr[OF c]
  show ?thesis
  proof (cases c)
    case None
    then have "x = (E_Binary (fst l) (fst r) op nid, None)" "s' = s1" using x by auto
    then show ?thesis using e l r quiet_op[of "H_Binary op"] by (auto simp: good_def denotes_def eval.simps)
  next
    case (Some c')
    have "const_ok c'" using evaluate_binary_const[OF ok] e Some by blast
    note f = fold_value_keeps[OF _ this, of nid s1 x s']
    have "m_op M (H_Binary op) [den a, den k] w = Some (den c', w)" for w
      by (rule binary_folds[OF ok]) (use e Some in blast)
    then show ?thesis using f x Some e ak same_maps_trans by (auto simp: denotes_def)
  qed
next
  case False
  let ?r = "simplify_binary op (fst l) (fst r) (scp_types s nid)"
  from b False have x: "(case ?r of
            Keep \<Rightarrow> scp_return (E_Binary (fst l) (fst r) op nid, None)
          | Take_Left \<Rightarrow> scp_change l
          | Take_Right \<Rightarrow> scp_change r
          | Take_Bool b \<Rightarrow>
              scp_bind (scp_fresh T_Boolean) (\<lambda>n. scp_change (bool_literal b n, Some (value_of_literal (L_Boolean b))))) s = Inr (x, s')"
    by (cases "snd l"; cases "snd r"; simp add: scp_binary_def scp_bind_Inr)
  have q: "m_op M (H_Binary op) vs w = Some (v, w1) \<Longrightarrow> w1 = w" for vs w v w1 using quiet_op by simp
  show ?thesis
  proof (cases ?r)
    case Keep
    then have "x = (E_Binary (fst l) (fst r) op nid, None)" "s' = s" using x by auto
    then show ?thesis using l r q by (auto simp: good_def denotes_def eval.simps)
  next
    case Take_Left
    then have x': "x = l" "s' = s\<lparr>scp_changed := True\<rparr>" using x by auto
    have "v = va" if "denotes \<rho> w l va" "denotes \<rho> w r vb" "m_op M (H_Binary op) [va, vb] w = Some (v, w1)" for \<rho> w va vb v w1
      using simplify_Take_Left[OF Take_Left]
    proof (elim disjE exE conjE)
      fix z assume z: "fst r = E_Literal z" "right_neutral op (lit_variant z)"
      then have "vb = m_literal M (lit_variant z)" using that(2) by (simp add: denotes_def eval.simps)
      then show "v = va" using right_unit[OF z(2)] that(3) by blast
    next
      fix z assume z: "fst l = E_Literal z" "absorbing op (lit_variant z)"
      then have "va = m_literal M (lit_variant z)" "good_literal (lit_variant z)"
        using that(1) l by (simp_all add: denotes_def eval.simps good_def)
      then show "v = va" using left_zero[OF z(2)] that(3) by blast
    qed
    then have "denotes \<rho> w x v" if "denotes \<rho> w l va" "denotes \<rho> w r vb" "m_op M (H_Binary op) [va, vb] w = Some (v, w1)" for \<rho> w va vb v w1
      using that x'(1) by metis
    moreover have "same_maps s s'" "good N D x" using x' l by simp_all
    ultimately show ?thesis using q by blast
  next
    case Take_Right
    then have x': "x = r" "s' = s\<lparr>scp_changed := True\<rparr>" using x by auto
    have "v = vb" if "denotes \<rho> w l va" "denotes \<rho> w r vb" "m_op M (H_Binary op) [va, vb] w = Some (v, w1)" for \<rho> w va vb v w1
      using simplify_Take_Right[OF Take_Right]
    proof (elim disjE exE conjE)
      fix z assume z: "fst l = E_Literal z" "left_neutral op (lit_variant z)"
      then have "va = m_literal M (lit_variant z)" using that(1) by (simp add: denotes_def eval.simps)
      then show "v = vb" using left_unit[OF z(2)] that(3) by blast
    next
      fix z assume z: "fst r = E_Literal z" "absorbing op (lit_variant z)"
      then have "vb = m_literal M (lit_variant z)" "good_literal (lit_variant z)"
        using that(2) r by (simp_all add: denotes_def eval.simps good_def)
      then show "v = vb" using right_zero[OF z(2)] that(3) by blast
    qed
    then have "denotes \<rho> w x v" if "denotes \<rho> w l va" "denotes \<rho> w r vb" "m_op M (H_Binary op) [va, vb] w = Some (v, w1)" for \<rho> w va vb v w1
      using that x'(1) by metis
    moreover have "same_maps s s'" "good N D x" using x' r by simp_all
    ultimately show ?thesis using q by blast
  next
    case (Take_Bool b)
    note same = simplify_Take_Bool[OF Take_Bool]
    from x Take_Bool obtain n where x': "x = (bool_literal b n, Some (value_of_literal (L_Boolean b)))" and s': "same_maps s s'"
      by (auto simp: scp_bind_Inr dest!: scp_fresh_Inr)
    have "v = m_literal M (Lit_Boolean b)" if "denotes \<rho> w l va" "denotes \<rho> w r vb" "m_op M (H_Binary op) [va, vb] w = Some (v, w1)"
      for \<rho> w va vb v w1
      using same that same_operands same_atom_eval[of "fst l" "fst r" \<rho> w] by (cases b) (auto simp: denotes_def)
    moreover have "good N D x" using x' by (simp add: good_def bool_literal_def)
    ultimately show ?thesis using x' s' q bool_denotes[of _ _ b n] by blast
  qed
qed

end

end
