(* ===== verification/Ssa_Const_Exprs.thy ===== *)
theory Ssa_Const_Exprs
  imports Ssa_Const_Machine
begin

text \<open>Constant propagation keeps the value of expressions: every helper, and the traversal.\<close>

context folding_machine
begin

section \<open>Expressions without effects\<close>

lemma calm_quiet:
  "calm N D e \<Longrightarrow> eval M comps e \<rho> w = Some (v, w1) \<Longrightarrow> w1 = w"
  "list_all (calm N D) es \<Longrightarrow> eval_list M comps es \<rho> w = Some (vs, w1) \<Longrightarrow> w1 = w"
  "oe = None \<Longrightarrow> eval_option M comps oe \<rho> w = Some (ov, w1) \<Longrightarrow> w1 = w"
  "list_all (calm_field N D) fs \<Longrightarrow> eval_fields M comps fs \<rho> w = Some (nvs, w1) \<Longrightarrow> w1 = w"
  "False \<Longrightarrow> eval_kind M comps ifc net k \<rho> w = Some (kv, w1) \<Longrightarrow> w1 = w"
proof (induction e and es and oe and fs and k arbitrary: w v w1 and w vs w1 and w ov w1 and w nvs w1 and w kv w1
    rule: expr_reads_list_reads_option_reads_fields_reads_kind_reads.induct)
  case (2 inner name nid)
  show ?case
  proof (cases "case inner of E_Path p \<Rightarrow> ident_name (identifier_of p) = ''self'' | _ \<Rightarrow> False")
    case True
    then show ?thesis using "2.prems"(2) by (simp add: eval.simps)
  next
    case False
    then have "calm N D inner" using "2.prems"(1) by (auto split: expression.splits)
    with False 2 show ?thesis by (auto simp: eval.simps bind_Some)
  qed
next
  case (9 path const_args inits base nid)
  from "9.prems" obtain listed w2 where "eval_fields M comps inits \<rho> w = Some (listed, w2)"
    "build_composite M comps path [] listed None w2 = Some (v, w1)" "list_all (calm_field N D) inits"
    by (auto simp: eval.simps eval_option.simps bind_Some)
  with "9.IH"(1) show ?case by (auto simp: build_composite_def bind_Some dest: quiet_op)
next
  case (25 i oe nid inits)
  then show ?case by (cases oe) (fastforce simp: eval_fields.simps bind_Some)+
qed (fastforce simp: eval.simps eval_list.simps eval_option.simps eval_fields.simps bind_Some split: if_splits dest!: quiet_op)+

section \<open>The helpers\<close>

lemma undo_unary_value:
  assumes "undo_unary op e = Some inner" "calm N D e" "eval M comps e \<rho> w = Some (a, w)" "m_op M (H_Unary op) [a] w = Some (v, w1)"
  shows "calm N D inner \<and> eval M comps inner \<rho> w = Some (v, w)"
proof -
  from assms(1) obtain nid where e: "e = E_Unary inner op nid" "op \<in> {Not, Negate}"
    by (auto simp: undo_unary_def split: expression.splits if_splits)
  then obtain u w2 where u: "eval M comps inner \<rho> w = Some (u, w2)" "m_op M (H_Unary op) [u] w2 = Some (a, w)"
    using assms(3) by (auto simp: eval.simps bind_Some)
  have i: "calm N D inner" using assms(2) e by simp
  have "v = u" using double[OF e(2) u(2) assms(4)] .
  then show ?thesis using u(1) i calm_quiet(1)[OF i u(1)] by simp
qed

lemma scp_unary_keeps:
  assumes x: "scp_unary env op nid r s = Inr (x, s')" and r: "good N D r"
  shows "same_maps s s' \<and> good N D x \<and>
    (\<forall>\<rho> w va v w1. denotes \<rho> w r va \<longrightarrow> m_op M (H_Unary op) [va] w = Some (v, w1) \<longrightarrow> w1 = w \<and> denotes \<rho> w x v)"
proof -
  let ?rest = "(case undo_unary op (fst r) of Some inner \<Rightarrow> scp_change (inner, None) | None \<Rightarrow> scp_return (E_Unary (fst r) op nid, None))"
  have q: "m_op M (H_Unary op) vs w = Some (v, w1) \<Longrightarrow> w1 = w" for vs w v w1 using quiet_op by simp
  have rest: "same_maps s s' \<and> good N D x \<and>
      (\<forall>\<rho> w va v w1. denotes \<rho> w r va \<longrightarrow> m_op M (H_Unary op) [va] w = Some (v, w1) \<longrightarrow> w1 = w \<and> denotes \<rho> w x v)"
    if "?rest s1 = Inr (x, s')" "same_maps s s1" for s1
  proof (cases "undo_unary op (fst r)")
    case None
    then show ?thesis using that r q by (auto simp: good_def denotes_def eval.simps)
  next
    case (Some inner)
    then have x': "x = (inner, None)" "same_maps s s'" using that by auto
    have "calm N D inner" using Some r by (auto simp: undo_unary_def good_def split: expression.splits if_splits)
    moreover have "denotes \<rho> w x v" if "denotes \<rho> w r va" "m_op M (H_Unary op) [va] w = Some (v, w1)" for \<rho> w va v w1
      using undo_unary_value[OF Some _ _ that(2), of N D \<rho>] that(1) r x' by (simp add: denotes_def good_def)
    ultimately show ?thesis using x' q by (auto simp: good_def)
  qed
  show ?thesis
  proof (cases "snd r")
    case None
    then show ?thesis using rest[of s] x by (simp add: scp_unary_def Let_def)
  next
    case (Some a)
    have ok: "const_ok a" using r Some by (simp add: good_def)
    from x Some obtain c s1 where c: "scp_emit (evaluate_unary (scp_svm env) (scp_codec env) op a (scp_types s nid)) s = Inr (c, s1)"
      and x': "(case c of Some c' \<Rightarrow> fold_value env c' nid | None \<Rightarrow> ?rest) s1 = Inr (x, s')"
      by (auto simp: scp_unary_def scp_bind_Inr Let_def)
    note e = scp_emit_Inr[OF c]
    show ?thesis
    proof (cases c)
      case None
      then show ?thesis using rest[of s1] x' e by simp
    next
      case (Some c')
      have "const_ok c'" using evaluate_unary_const[OF ok] e Some by blast
      note f = fold_value_keeps[OF _ this, of nid s1 x s']
      have "m_op M (H_Unary op) [den a] w = Some (den c', w)" for w by (rule unary_folds[OF ok]) (use e Some in blast)
      then show ?thesis using f x' e Some \<open>snd r = Some a\<close> same_maps_trans by (auto simp: denotes_def)
    qed
  qed
qed

lemma value_bool_denotes: "value_bool (snd x) = Some b \<Longrightarrow> good N D x \<Longrightarrow> denotes \<rho> w x v \<Longrightarrow> v = den (value_of_literal (L_Boolean b))"
  by (auto simp: value_bool_def good_def denotes_def split: option.splits svm_literal.splits dest!: try_literal_const)

lemma not_truth: "m_truth M v = Some b \<Longrightarrow> m_op M (H_Unary Not) [v] w = Some (den (value_of_literal (L_Boolean (\<not> b))), w)"
proof -
  assume "m_truth M v = Some b"
  then have v: "v = den (value_of_literal (L_Boolean b))" by (simp add: truth)
  show ?thesis unfolding v
    by (rule unary_folds[where ty = None]) (simp_all add: evaluate_unary_def map_reason_def evaluate_unary_inner_def resolve_unsuffixed_unary_op_operand_def)
qed

lemma scp_ternary_keeps:
  assumes x: "scp_ternary env nid c t f s = Inr (x, s')" and c: "good N D c" and t: "good N D t" and f: "good N D f"
  shows "same_maps s s' \<and> good N D x \<and>
    (\<forall>\<rho> w vc vt vf b. denotes \<rho> w c vc \<longrightarrow> denotes \<rho> w t vt \<longrightarrow> denotes \<rho> w f vf \<longrightarrow> m_truth M vc = Some b \<longrightarrow>
       denotes \<rho> w x (if b then vt else vf))"
proof -
  have bool: "b = b'" if "value_bool (snd c) = Some b'" "denotes \<rho> w c vc" "m_truth M vc = Some b" for \<rho> w vc b b'
    using value_bool_denotes[OF that(1) c that(2)] that(3) truth[of vc b'] by simp
  have tt: "vt = den (value_of_literal (L_Boolean b'))" if "value_bool (snd t) = Some b'" "denotes \<rho> w t vt" for \<rho> w vt b'
    using value_bool_denotes[OF that(1) t that(2)] .
  have ff: "vf = den (value_of_literal (L_Boolean b'))" if "value_bool (snd f) = Some b'" "denotes \<rho> w f vf" for \<rho> w vf b'
    using value_bool_denotes[OF that(1) f that(2)] .
  consider (T) "x = t" "same_maps s s'" "value_bool (snd c) = Some True"
    | (F) "x = f" "same_maps s s'" "value_bool (snd c) = Some False"
    | (C) "x = (fst c, None)" "same_maps s s'" "value_bool (snd t) = Some True" "value_bool (snd f) = Some False"
    | (NC) n where "x = (E_Unary (fst c) Not n, None)" "same_maps s s'" "value_bool (snd t) = Some False" "value_bool (snd f) = Some True"
    | (TF) b where "x = t" "same_maps s s'" "value_bool (snd t) = Some b" "value_bool (snd f) = Some b"
    | (S) "x = t" "same_maps s s'" "same_ssa_atom (fst t) (fst f)"
    | (K) "x = (E_Ternary (fst c) (fst t) (fst f) nid, None)" "same_maps s s'"
    using x by (auto simp: scp_ternary_def can_discard_def scp_bind_Inr split: if_splits option.splits bool.splits dest!: scp_fresh_Inr)
  then show ?thesis
  proof cases
    case T
    then show ?thesis using t bool by fastforce
  next
    case F
    then show ?thesis using f bool by fastforce
  next
    case C
    have "denotes \<rho> w x (if b then vt else vf)"
      if "denotes \<rho> w c vc" "denotes \<rho> w t vt" "denotes \<rho> w f vf" "m_truth M vc = Some b" for \<rho> w vc vt vf b
      using that C tt[OF C(3) that(2)] ff[OF C(4) that(3)] truth[of vc b] by (simp add: denotes_def)
    then show ?thesis using C c by (simp add: good_def)
  next
    case NC
    have "denotes \<rho> w x (if b then vt else vf)"
      if "denotes \<rho> w c vc" "denotes \<rho> w t vt" "denotes \<rho> w f vf" "m_truth M vc = Some b" for \<rho> w vc vt vf b
      using that NC tt[OF NC(3) that(2)] ff[OF NC(4) that(3)] not_truth[OF that(4)] by (simp add: denotes_def eval.simps)
    then show ?thesis using NC c by (simp add: good_def)
  next
    case TF
    have "vt = vf" if "denotes \<rho> w t vt" "denotes \<rho> w f vf" for \<rho> w vt vf
      using tt[OF TF(3) that(1)] ff[OF TF(4) that(2)] by simp
    then show ?thesis using TF t by (metis (full_types))
  next
    case S
    have "vt = vf" if "denotes \<rho> w t vt" "denotes \<rho> w f vf" for \<rho> w vt vf
      using same_atom_eval[OF S(3)] that by (simp add: denotes_def)
    then show ?thesis using S t by (metis (full_types))
  next
    case K
    then show ?thesis using c t f by (auto simp: good_def denotes_def eval.simps)
  qed
qed

lemma scp_literal_keeps:
  assumes "scp_literal env l s = Inr (x, s')" "good_literal (lit_variant l)"
  shows "s' = s" "fst x = E_Literal l" "\<forall>k. snd x = Some k \<longrightarrow> (\<exists>ty. literal_to_value (scp_codec env) l ty = Inr k)"
proof -
  let ?v = "literal_to_value (scp_codec env) l (unwrap_optional (scp_types s (lit_id l)))"
  have "s' = s \<and> fst x = E_Literal l \<and> (\<forall>k. snd x = Some k \<longrightarrow> ?v = Inr k)"
    using assms by (cases ?v; cases "lit_variant l") (auto simp: scp_literal_def scp_bind_Inr scp_ok_Inr Let_def split: if_splits)
  then show "s' = s" "fst x = E_Literal l" "\<forall>k. snd x = Some k \<longrightarrow> (\<exists>ty. literal_to_value (scp_codec env) l ty = Inr k)" by blast+
qed

lemma scp_literal_good:
  assumes "scp_literal env l s = Inr (x, s')" "good_literal (lit_variant l)"
  shows "same_maps s s' \<and> good N D x \<and> denotes \<rho> w x (m_literal M (lit_variant l))"
  using scp_literal_keeps[OF assms] assms(2) literal_value[OF assms(2)] literal_to_value_const[OF _ assms(2)]
  by (auto simp: good_def denotes_def eval.simps)

lemma array_index_const: "const_ok a \<Longrightarrow> array_index a j = Inr (Some c) \<Longrightarrow> const_ok c"
  by (cases a) (auto simp: array_index_def try_plaintext_def list_all_length
      split: value_variants.splits svm_value.splits plaintext.splits option.splits if_splits)

lemma scp_array_access_keeps:
  assumes x: "scp_array_access env nid a i s = Inr (x, s')" and a: "good N D a"
    and i: "fst i = E_Literal l" "good_literal (lit_variant l)" "\<forall>k. snd i = Some k \<longrightarrow> (\<exists>ty. literal_to_value (scp_codec env) l ty = Inr k)"
  shows "same_maps s s' \<and> good N D x \<and>
    (\<forall>\<rho> w va v w1. denotes \<rho> w a va \<longrightarrow> m_op M (H_ArrayAccess (E_Literal l)) [va] w = Some (v, w1) \<longrightarrow> w1 = w \<and> denotes \<rho> w x v)"
proof (cases "snd a \<noteq> None \<and> snd i \<noteq> None")
  case True
  then obtain k idx where k: "snd a = Some k" "snd i = Some idx" by auto
  then have ok: "const_ok k" using a by (simp add: good_def)
  from i(3) k(2) obtain ty where ty: "literal_to_value (scp_codec env) l ty = Inr idx" by blast
  from x k obtain j c where c: "value_as_u32 idx = Some j" "array_index k (nat j) = Inr (Some c)" "fold_value env c nid s = Inr (x, s')"
    by (auto simp: scp_array_access_def scp_bind_Inr scp_expect_def scp_ok_Inr split: option.splits sum.splits)
  note f = fold_value_keeps[OF c(3) array_index_const[OF ok c(2)]]
  have "m_op M (H_ArrayAccess (E_Literal l)) [den k] w = Some (den c, w)" for w by (rule access_folds[OF ok i(2) ty c(1,2)])
  then show ?thesis using f k by (auto simp: denotes_def)
next
  case False
  then have "x = (E_ArrayAccess (fst a) (fst i) nid, None)" "s' = s"
    using x by (auto simp: scp_array_access_def split: option.splits)
  then show ?thesis using a i quiet_op[of "H_ArrayAccess (E_Literal l)"]
    by (auto simp: good_def denotes_def eval.simps is_good_def literal_such_def)
qed

text \<open>The elements of arrays and tuples.\<close>

lemma map_filter_all:
  "length (List.map_filter f xs) \<le> length xs"
  "length (List.map_filter f xs) = length xs \<Longrightarrow> map f xs = map Some (List.map_filter f xs)"
proof -
  show le: "length (List.map_filter f xs) \<le> length xs" for xs
    by (induction xs) (auto simp: List.map_filter_simps split: option.split)
  show "length (List.map_filter f xs) = length xs \<Longrightarrow> map f xs = map Some (List.map_filter f xs)"
  proof (induction xs)
    case (Cons r rs)
    then show ?case using le[of rs] by (cases "f r") (auto simp: List.map_filter_simps)
  qed (simp add: List.map_filter_simps)
qed

lemma known_values_Some: "known_values rs = Some vs \<Longrightarrow> map snd rs = map Some vs"
  using map_filter_all(2)[of snd rs] by (simp add: known_values_def Let_def split: if_splits)

lemma note_changed_Inr: "note_changed es es' s = Inr (u, s') \<Longrightarrow> same_maps s s'"
  by (auto simp: note_changed_def split: if_splits)

lemma denotes_list: "list_all2 (denotes \<rho> w) rs vs \<Longrightarrow> eval_list M comps (map fst rs) \<rho> w = Some (vs, w)"
  by (induction rs vs rule: list_all2_induct) (auto simp: denotes_def eval_list.simps)

lemma known_denotes: "list_all2 (denotes \<rho> w) rs us \<Longrightarrow> map snd rs = map Some vs \<Longrightarrow> us = map den vs"
proof (induction rs us arbitrary: vs rule: list_all2_induct)
  case (Cons r rs u us)
  then show ?case by (cases vs) (auto simp: denotes_def)
qed simp

lemma known_good: "list_all (good N D) rs \<Longrightarrow> map snd rs = map Some vs \<Longrightarrow> list_all const_ok vs"
proof (induction rs arbitrary: vs)
  case (Cons r rs)
  then show ?case by (cases vs) (auto simp: good_def)
qed simp

lemma good_calm: "list_all (good N D) rs \<Longrightarrow> list_all (calm N D) (map fst rs)"
  by (simp add: list_all_iff good_def)

lemma collect_plaintexts_const: "list_all const_ok vs \<Longrightarrow> collect_plaintexts msg vs = Inr ps \<Longrightarrow> list_all plain ps"
proof (induction vs arbitrary: ps)
  case (Cons v vs)
  then show ?case by (cases v) (auto simp: bind_res_eq_Inr map_res_eq_Inr ok_or_def try_plaintext_def
      split: option.splits value_variants.splits svm_value.splits)
qed simp

lemma make_array_const: "list_all const_ok vs \<Longrightarrow> make_array vs = Inr c \<Longrightarrow> const_ok c"
  by (auto simp: make_array_def map_res_eq_Inr dest: collect_plaintexts_const)

lemma scp_array_keeps:
  assumes x: "scp_array nid es rs s = Inr (x, s')" and rs: "list_all (good N D) rs"
  shows "same_maps s s' \<and> good N D x \<and>
    (\<forall>\<rho> w us v w1. list_all2 (denotes \<rho> w) rs us \<longrightarrow> m_op M H_Array us w = Some (v, w1) \<longrightarrow> w1 = w \<and> denotes \<rho> w x v)"
proof -
  from x obtain s1 where s1: "note_changed es (map fst rs) s = Inr ((), s1)" and
    x1: "(case known_values rs of
       None \<Rightarrow> scp_return (E_Array (map fst rs) nid, None)
     | Some values \<Rightarrow> scp_bind (scp_ok (make_array values)) (\<lambda>v. scp_return (E_Array (map fst rs) nid, v))) s1 = Inr (x, s')"
    by (auto simp: scp_array_def scp_bind_Inr)
  have x': "fst x = E_Array (map fst rs) nid \<and> s' = s1 \<and>
      (\<forall>k. snd x = Some k \<longrightarrow> (\<exists>vs. known_values rs = Some vs \<and> make_array vs = Inr k))"
  proof (cases "known_values rs")
    case (Some vs)
    with x1 show ?thesis by (cases "make_array vs") (auto simp: scp_bind_Inr scp_ok_Inr)
  qed (use x1 in simp)
  then have k: "\<exists>vs. known_values rs = Some vs \<and> make_array vs = Inr k" if "snd x = Some k" for k using that by blast
  have v: "map snd rs = map Some vs" "list_all const_ok vs" if "known_values rs = Some vs" for vs
    using known_values_Some[OF that] known_good[OF rs] by simp_all
  have "good N D x" using x' k v good_calm[OF rs] make_array_const by (fastforce simp: good_def)
  moreover have "w1 = w \<and> denotes \<rho> w x r" if u: "list_all2 (denotes \<rho> w) rs us" "m_op M H_Array us w = Some (r, w1)" for \<rho> w us r w1
  proof -
    have "r = den kk" if kk: "snd x = Some kk" for kk
    proof -
      obtain vs where vs: "known_values rs = Some vs" "make_array vs = Inr kk" using k[OF kk] by blast
      then show ?thesis using known_denotes[OF u(1) v(1)[OF vs(1)]] array_folds[OF v(2)[OF vs(1)] vs(2), of w] u(2) by simp
    qed
    then show ?thesis using u x' denotes_list[OF u(1)] quiet_op[OF u(2)] by (auto simp: denotes_def eval.simps)
  qed
  ultimately show ?thesis using note_changed_Inr[OF s1] x' by blast
qed

lemma scp_tuple_keeps:
  assumes x: "scp_tuple nid es rs s = Inr (x, s')" and rs: "list_all (good N D) rs"
  shows "same_maps s s' \<and> good N D x \<and>
    (\<forall>\<rho> w us v w1. list_all2 (denotes \<rho> w) rs us \<longrightarrow> m_op M H_Tuple us w = Some (v, w1) \<longrightarrow> w1 = w \<and> denotes \<rho> w x v)"
proof -
  from x have s1: "note_changed es (map fst rs) s = Inr ((), s')" and x': "x = (E_Tuple (map fst rs) nid, map_option make_tuple (known_values rs))"
    by (auto simp: scp_tuple_def scp_bind_Inr)
  have v: "map snd rs = map Some vs" "list_all const_ok vs" if "known_values rs = Some vs" for vs
    using known_values_Some[OF that] known_good[OF rs] by simp_all
  have "good N D x" using x' v good_calm[OF rs] by (auto simp: good_def)
  moreover have "w1 = w \<and> denotes \<rho> w x r" if u: "list_all2 (denotes \<rho> w) rs us" "m_op M H_Tuple us w = Some (r, w1)" for \<rho> w us r w1
  proof -
    have "r = den (make_tuple vs)" if "known_values rs = Some vs" for vs
      using known_denotes[OF u(1)] v[OF that] tuple_folds[OF v(2)[OF that], of w] u(2) by simp
    then show ?thesis using u x' denotes_list[OF u(1)] quiet_op[OF u(2)] by (auto simp: denotes_def eval.simps)
  qed
  ultimately show ?thesis using note_changed_Inr[OF s1] by blast
qed

section \<open>What the maps hold\<close>

text \<open>
  The constants belong to local variables.  For a variable in scope that is a composite of atoms, the atoms are in scope.
\<close>

definition tracked :: "(symbol \<Rightarrow> bool) \<Rightarrow> symbol list \<Rightarrow> 'e scp_state \<Rightarrow> bool" where
  "tracked N D s \<longleftrightarrow>
     (\<forall>x k. scp_constants s x = Some k \<longrightarrow> N x \<and> const_ok k) \<and>
     (\<forall>x\<in>set D. \<forall>atoms m a. scp_composites s x = Some atoms \<longrightarrow> atoms m = Some a \<longrightarrow> is_ssa_atom a \<and> calm N D a)"

definition knows :: "symbol list \<Rightarrow> 'e scp_state \<Rightarrow> 'v env \<Rightarrow> bool" where
  "knows D s \<rho> \<longleftrightarrow>
     (\<forall>x\<in>set D. (\<forall>k. scp_constants s x = Some k \<longrightarrow> \<rho> x = den k) \<and>
       (\<forall>atoms m a r w. scp_composites s x = Some atoms \<longrightarrow> atoms m = Some a \<longrightarrow> m_member M m (\<rho> x) = Some r \<longrightarrow>
          eval M comps a \<rho> w = Some (r, w)))"

lemma maps_tracked: "same_maps s s' \<Longrightarrow> tracked N D s' = tracked N D s" "same_maps s s' \<Longrightarrow> knows D s' \<rho> = knows D s \<rho>"
  by (simp_all add: same_maps_def tracked_def knows_def)

definition keeps_value ::
  "(symbol \<Rightarrow> bool) \<Rightarrow> symbol list \<Rightarrow> 'e scp_state \<Rightarrow> 'e scp_state \<Rightarrow> expression \<Rightarrow> expression \<times> 'e const_value option \<Rightarrow> bool" where
  "keeps_value N D s s' e x \<longleftrightarrow> same_maps s s' \<and> good N D x \<and>
     (\<forall>\<rho> w v w1. knows D s \<rho> \<longrightarrow> eval M comps e \<rho> w = Some (v, w1) \<longrightarrow> w1 = w \<and> denotes \<rho> w x v)"

lemma scp_path_keeps:
  assumes x: "scp_path env p s = Inr (x, s')" and p: "calm N D (E_Path p)" and t: "tracked N D s"
  shows "keeps_value N D s s' (E_Path p) x"
proof (cases "scp_constants s (ident_name (identifier_of p))")
  case None
  then show ?thesis using x p by (auto simp: scp_path_def keeps_value_def good_def denotes_def eval.simps)
next
  case (Some k)
  then have k: "N (ident_name (identifier_of p))" "const_ok k" using t by (auto simp: tracked_def)
  with p obtain y where y: "try_local_symbol p = Some y" "y \<in> set D" "ident_name (identifier_of p) = y" by (auto split: option.splits)
  from x Some have "fold_value env k (path_id p) s = Inr (x, s')" by (simp add: scp_path_def)
  note f = fold_value_keeps[OF this k(2)]
  have "read_path M p \<rho> = den k" if "knows D s \<rho>" for \<rho> using that Some y by (simp add: knows_def read_path_def)
  then show ?thesis using f by (auto simp: keeps_value_def eval.simps)
qed

lemma scp_self:
  assumes "scp_path env p s = Inr (x, s')" "tracked N D s" "\<not> N ''self''" "ident_name (identifier_of p) = ''self''"
  shows "x = (E_Path p, None) \<and> s' = s"
proof -
  have "scp_constants s (ident_name (identifier_of p)) = None" using assms(2-4) by (cases "scp_constants s ''self''") (auto simp: tracked_def)
  with assms(1) show ?thesis by (simp add: scp_path_def)
qed

lemma calm_not_self:
  assumes "calm N D e" "\<forall>x\<in>set D. N x" "\<not> N ''self''"
  shows "\<not> (case e of E_Path p \<Rightarrow> ident_name (identifier_of p) = ''self'' | _ \<Rightarrow> False)"
  using assms by (cases e) (auto split: option.splits)

lemma scp_member_keeps:
  assumes x: "scp_member env inner name nid s = Inr (x, s')" and i: "calm N D inner" and t: "tracked N D s"
    and N: "\<forall>x\<in>set D. N x" "\<not> N ''self''"
  shows "keeps_value N D s s' (E_MemberAccess inner name nid) x"
proof (cases "forwarded_atom s inner (ident_name name)")
  case None
  then have x': "x = (E_MemberAccess inner name nid, None)" "s' = s" using x by (auto simp: scp_member_def)
  have c: "calm N D (E_MemberAccess inner name nid)" using i by simp
  show ?thesis using x' c calm_quiet(1)[OF c] by (auto simp: keeps_value_def good_def denotes_def)
next
  case (Some a)
  then obtain p y atoms where y: "inner = E_Path p" "try_local_symbol p = Some y" "scp_composites s y = Some atoms" "atoms (ident_name name) = Some a"
    by (auto simp: forwarded_atom_def bind_Some split: expression.splits)
  have D: "y \<in> set D" using i y by simp
  then have a: "is_ssa_atom a" "calm N D a" using t y by (auto simp: tracked_def)
  have v: "w1 = w \<and> eval M comps a \<rho> w = Some (v, w)" if "knows D s \<rho>" "eval M comps (E_MemberAccess inner name nid) \<rho> w = Some (v, w1)" for \<rho> w v w1
    using that y D calm_not_self[OF i N] unfolding knows_def by (auto simp: eval.simps read_path_def)
  show ?thesis
  proof (cases a)
    case (E_Literal l)
    then obtain c where c: "x = (a, c)" "same_maps s s'" "\<forall>k. c = Some k \<longrightarrow> literal_to_value (scp_codec env) l (scp_types s (lit_id l)) = Inr k"
      using x Some by (cases "literal_to_value (scp_codec env) l (scp_types s (lit_id l))") (auto simp: scp_member_def scp_bind_Inr scp_ok_Inr)
    have l: "good_literal (lit_variant l)" using a E_Literal by simp
    have "good N D x" using a c literal_to_value_const[OF _ l] by (auto simp: good_def)
    moreover have "denotes \<rho> w x v" if "eval M comps a \<rho> w = Some (v, w)" for \<rho> w v
      using that c literal_value[OF l] E_Literal by (auto simp: denotes_def eval.simps)
    ultimately show ?thesis using c v by (simp add: keeps_value_def)
  next
    case (E_Path q)
    then have c: "x = (a, Option.bind (try_local_symbol q) (scp_constants s))" "same_maps s s'"
      using x Some by (auto simp: scp_member_def)
    have "good N D x" using a(2) c t by (auto simp: good_def tracked_def bind_Some)
    moreover have "denotes \<rho> w x v" if k: "knows D s \<rho>" "eval M comps a \<rho> w = Some (v, w)" for \<rho> w v
    proof -
      have "v = den k" if "try_local_symbol q = Some z" "scp_constants s z = Some k" for z k
        using that k a(2) E_Path by (auto simp: knows_def eval.simps read_path_def)
      then show ?thesis using k c by (auto simp: denotes_def bind_Some)
    qed
    ultimately show ?thesis using c v by (simp add: keeps_value_def)
  qed (use a in \<open>simp_all add: is_ssa_atom_def\<close>)
qed

section \<open>The traversal\<close>

lemma is_good_iff: "is_good e \<longleftrightarrow> (\<exists>l. e = E_Literal l \<and> good_literal (lit_variant l))"
  by (auto simp: is_good_def literal_such_iff)

lemma keepsD:
  assumes "keeps_value N D s s' e x"
  shows "same_maps s s'" "good N D x" "calm N D (fst x)"
    "knows D s \<rho> \<Longrightarrow> eval M comps e \<rho> w = Some (v, w1) \<Longrightarrow> w1 = w \<and> denotes \<rho> w x v"
  using assms by (auto simp: keeps_value_def good_def)

lemma keeps_next: "keeps_value N D s s1 e x \<Longrightarrow> tracked N D s \<Longrightarrow> tracked N D s1"
  using maps_tracked(1) by (auto simp: keeps_value_def)

lemma keeps_after: "keeps_value N D s1 s2 e x \<Longrightarrow> same_maps s s1 \<Longrightarrow> keeps_value N D s s2 e x"
  using maps_tracked(2) same_maps_trans unfolding keeps_value_def by blast

text \<open>An expression that is rebuilt around a new operand, with no known value.\<close>

lemma keeps_rebuilt:
  assumes k: "keeps_value N D s s1 e x" "same_maps s1 s'" and c: "calm N D e'" "calm N D r"
    and e: "\<And>\<rho> w. eval M comps e' \<rho> w = Option.bind (eval M comps e \<rho> w) (\<lambda>(v, w1). f v w1)"
      "\<And>\<rho> w. eval M comps r \<rho> w = Option.bind (eval M comps (fst x) \<rho> w) (\<lambda>(v, w1). f v w1)"
  shows "keeps_value N D s s' e' (r, None)"
  unfolding keeps_value_def
proof (intro conjI allI impI)
  show "same_maps s s'" "good N D (r, None)" using k c same_maps_trans by (auto simp: keeps_value_def good_def)
  fix \<rho> w v w1 assume a: "knows D s \<rho>" "eval M comps e' \<rho> w = Some (v, w1)"
  then show w1: "w1 = w" using calm_quiet(1)[OF c(1)] by blast
  from a(2) e(1) obtain u w2 where u: "eval M comps e \<rho> w = Some (u, w2)" "f u w2 = Some (v, w1)" by (auto simp: bind_Some)
  then show "denotes \<rho> w (r, None) v" using keepsD(4)[OF k(1) a(1) u(1)] w1 e(2) by (simp add: denotes_def)
qed

lemma keeps_access:
  assumes k: "keeps_value N D s s1 array a" and i: "scp_expr env index s1 = Inr (i, s2)" "is_good index"
    and x: "scp_array_access env nid a i s2 = Inr (x, s')"
  shows "keeps_value N D s s' (E_ArrayAccess array index nid) x"
proof -
  from i(2) obtain l where l: "index = E_Literal l" "good_literal (lit_variant l)" by (auto simp: is_good_iff)
  then have "scp_literal env l s1 = Inr (i, s2)" using i by simp
  note i = scp_literal_keeps[OF this l(2)]
  note r = scp_array_access_keeps[OF x keepsD(2)[OF k] i(2) l(2) i(3)]
  show ?thesis unfolding keeps_value_def
  proof (intro conjI allI impI)
    show "same_maps s s'" "good N D x" using r i(1) keepsD(1)[OF k] same_maps_trans by auto
    fix \<rho> w v w1 assume a: "knows D s \<rho>" "eval M comps (E_ArrayAccess array index nid) \<rho> w = Some (v, w1)"
    then obtain u w2 where u: "eval M comps array \<rho> w = Some (u, w2)" "m_op M (H_ArrayAccess (E_Literal l)) [u] w2 = Some (v, w1)"
      using l(1) by (auto simp: eval.simps bind_Some)
    then show "w1 = w" "denotes \<rho> w x v" using r keepsD(4)[OF k a(1) u(1)] by blast+
  qed
qed

lemma keeps_unary:
  assumes k: "keeps_value N D s s1 e r" and x: "scp_unary env op nid r s1 = Inr (x, s')"
  shows "keeps_value N D s s' (E_Unary e op nid) x"
proof -
  note h = scp_unary_keeps[OF x keepsD(2)[OF k]]
  show ?thesis unfolding keeps_value_def
  proof (intro conjI allI impI)
    show "same_maps s s'" "good N D x" using h keepsD(1)[OF k] same_maps_trans by auto
    fix \<rho> w v w1 assume a: "knows D s \<rho>" "eval M comps (E_Unary e op nid) \<rho> w = Some (v, w1)"
    then obtain u w2 where u: "eval M comps e \<rho> w = Some (u, w2)" "m_op M (H_Unary op) [u] w2 = Some (v, w1)"
      by (auto simp: eval.simps bind_Some)
    then show "w1 = w" "denotes \<rho> w x v" using h keepsD(4)[OF k a(1) u(1)] by blast+
  qed
qed

lemma keeps_binary:
  assumes kl: "keeps_value N D s s1 left l" and kr: "keeps_value N D s s2 right r" and s: "same_maps s s2"
    and x: "scp_binary env op nid l r s2 = Inr (x, s')"
  shows "keeps_value N D s s' (E_Binary left right op nid) x"
proof -
  note h = scp_binary_keeps[OF x keepsD(2)[OF kl] keepsD(2)[OF kr]]
  show ?thesis unfolding keeps_value_def
  proof (intro conjI allI impI)
    show "same_maps s s'" "good N D x" using h s same_maps_trans by auto
    fix \<rho> w v w1 assume a: "knows D s \<rho>" "eval M comps (E_Binary left right op nid) \<rho> w = Some (v, w1)"
    then obtain u w2 u' w3 where u: "eval M comps left \<rho> w = Some (u, w2)" "eval M comps right \<rho> w2 = Some (u', w3)"
      "m_op M (H_Binary op) [u, u'] w3 = Some (v, w1)"
      by (auto simp: eval.simps bind_Some)
    then show "w1 = w" "denotes \<rho> w x v" using h keepsD(4)[OF kl a(1) u(1)] keepsD(4)[OF kr a(1), of w u' w3] by blast+
  qed
qed

lemma keeps_ternary:
  assumes kc: "keeps_value N D s s1 c rc" and kt: "keeps_value N D s s2 t rt" and kf: "keeps_value N D s s3 f rf"
    and x: "scp_ternary env nid rc rt rf s3 = Inr (x, s')"
  shows "keeps_value N D s s' (E_Ternary c t f nid) x"
proof -
  note h = scp_ternary_keeps[OF x keepsD(2)[OF kc] keepsD(2)[OF kt] keepsD(2)[OF kf]]
  show ?thesis unfolding keeps_value_def
  proof (intro conjI allI impI)
    show "same_maps s s'" "good N D x" using h keepsD(1)[OF kf] same_maps_trans by auto
    fix \<rho> w v w1 assume a: "knows D s \<rho>" "eval M comps (E_Ternary c t f nid) \<rho> w = Some (v, w1)"
    then obtain vc w2 vt w3 vf w4 b where u: "eval M comps c \<rho> w = Some (vc, w2)" "eval M comps t \<rho> w2 = Some (vt, w3)"
      "eval M comps f \<rho> w3 = Some (vf, w4)" "m_truth M vc = Some b" "v = (if b then vt else vf)" "w1 = w4"
      by (auto simp: eval.simps bind_Some)
    have w: "w2 = w" "denotes \<rho> w rc vc" using keepsD(4)[OF kc a(1) u(1)] by auto
    have w3: "w3 = w" "denotes \<rho> w rt vt" using keepsD(4)[OF kt a(1) u(2)] w by auto
    have w4: "w4 = w" "denotes \<rho> w rf vf" using keepsD(4)[OF kf a(1) u(3)] w3 by auto
    show "w1 = w" using u(6) w4 by simp
    show "denotes \<rho> w x v" using h w(2) w3(2) w4(2) u(4) unfolding u(5) by blast
  qed
qed

text \<open>Lists of expressions and of fields.\<close>

definition keeps_list ::
  "(symbol \<Rightarrow> bool) \<Rightarrow> symbol list \<Rightarrow> 'e scp_state \<Rightarrow> 'e scp_state \<Rightarrow> expression list \<Rightarrow> (expression \<times> 'e const_value option) list \<Rightarrow> bool" where
  "keeps_list N D s s' es rs \<longleftrightarrow> same_maps s s' \<and> list_all (good N D) rs \<and>
     (\<forall>\<rho> w vs w1. knows D s \<rho> \<longrightarrow> eval_list M comps es \<rho> w = Some (vs, w1) \<longrightarrow> w1 = w \<and> list_all2 (denotes \<rho> w) rs vs)"

definition keeps_inits ::
  "(symbol \<Rightarrow> bool) \<Rightarrow> symbol list \<Rightarrow> 'e scp_state \<Rightarrow> 'e scp_state \<Rightarrow> field_initializer list \<Rightarrow> field_initializer list \<Rightarrow> bool" where
  "keeps_inits N D s s' fs fs' \<longleftrightarrow> same_maps s s' \<and> list_all (calm_field N D) fs' \<and>
     (\<forall>\<rho> w nvs w1. knows D s \<rho> \<longrightarrow> eval_fields M comps fs \<rho> w = Some (nvs, w1) \<longrightarrow> w1 = w \<and> eval_fields M comps fs' \<rho> w = Some (nvs, w))"

lemma keeps_list_Cons:
  assumes k: "keeps_value N D s s1 e r" and ks: "keeps_list N D s1 s' es rs"
  shows "keeps_list N D s s' (e # es) (r # rs)"
  unfolding keeps_list_def
proof (intro conjI allI impI)
  have s: "same_maps s s1" using k by (rule keepsD)
  show "same_maps s s'" "list_all (good N D) (r # rs)" using ks s keepsD(2)[OF k] same_maps_trans by (auto simp: keeps_list_def)
  fix \<rho> w vs w1 assume a: "knows D s \<rho>" "eval_list M comps (e # es) \<rho> w = Some (vs, w1)"
  then obtain v w2 us where u: "eval M comps e \<rho> w = Some (v, w2)" "eval_list M comps es \<rho> w2 = Some (us, w1)" "vs = v # us"
    by (auto simp: eval_list.simps bind_Some)
  have "knows D s1 \<rho>" using a(1) maps_tracked(2)[OF s] by simp
  then show "w1 = w" "list_all2 (denotes \<rho> w) (r # rs) vs" using keepsD(4)[OF k a(1) u(1)] ks u unfolding keeps_list_def by auto
qed

lemma keeps_inits_Cons:
  assumes k: "keeps_value N D s s1 e r" and ks: "keeps_inits N D s1 s' fs fs'"
  shows "keeps_inits N D s s' (Field_Init i (Some e) nid # fs) (Field_Init i (Some (fst r)) nid # fs')"
  unfolding keeps_inits_def
proof (intro conjI allI impI)
  have s: "same_maps s s1" using k by (rule keepsD)
  show "same_maps s s'" "list_all (calm_field N D) (Field_Init i (Some (fst r)) nid # fs')"
    using ks s keepsD(3)[OF k] same_maps_trans by (auto simp: keeps_inits_def)
  fix \<rho> w nvs w1 assume a: "knows D s \<rho>" "eval_fields M comps (Field_Init i (Some e) nid # fs) \<rho> w = Some (nvs, w1)"
  then obtain v w2 us where u: "eval M comps e \<rho> w = Some (v, w2)" "eval_fields M comps fs \<rho> w2 = Some (us, w1)" "nvs = (ident_name i, v) # us"
    by (auto simp: eval_fields.simps bind_Some)
  have "knows D s1 \<rho>" using a(1) maps_tracked(2)[OF s] by simp
  then show "w1 = w" "eval_fields M comps (Field_Init i (Some (fst r)) nid # fs') \<rho> w = Some (nvs, w)"
    using keepsD(4)[OF k a(1) u(1)] ks u unfolding keeps_inits_def by (auto simp: denotes_def eval_fields.simps)
qed

lemma keeps_elements:
  assumes ks: "keeps_list N D s s1 es rs" and h: "same_maps s1 s' \<and> good N D x \<and>
      (\<forall>\<rho> w us v w1. list_all2 (denotes \<rho> w) rs us \<longrightarrow> m_op M h us w = Some (v, w1) \<longrightarrow> w1 = w \<and> denotes \<rho> w x v)"
    and e: "\<And>\<rho> w. eval M comps e \<rho> w = Option.bind (eval_list M comps es \<rho> w) (\<lambda>(vs, w1). m_op M h vs w1)"
  shows "keeps_value N D s s' e x"
  unfolding keeps_value_def
proof (intro conjI allI impI)
  show "same_maps s s'" "good N D x" using ks h same_maps_trans by (auto simp: keeps_list_def)
  fix \<rho> w v w1 assume a: "knows D s \<rho>" "eval M comps e \<rho> w = Some (v, w1)"
  then obtain us w2 where u: "eval_list M comps es \<rho> w = Some (us, w2)" "m_op M h us w2 = Some (v, w1)" using e by (auto simp: bind_Some)
  have "w2 = w" "list_all2 (denotes \<rho> w) rs us" using ks a(1) u(1) unfolding keeps_list_def by blast+
  then show "w1 = w" "denotes \<rho> w x v" using h u(2) by blast+
qed

lemma keeps_composite:
  assumes ks: "keeps_inits N D s s' inits inits'"
  shows "keeps_value N D s s' (E_Composite path [] inits None nid) (E_Composite path [] inits' None nid, None)"
  unfolding keeps_value_def
proof (intro conjI allI impI)
  let ?e = "E_Composite path [] inits None nid" and ?e' = "E_Composite path [] inits' None nid"
  have c: "calm N D ?e'" using ks by (simp add: keeps_inits_def)
  then show "same_maps s s'" "good N D (?e', None)" using ks by (simp_all add: keeps_inits_def good_def)
  fix \<rho> w v w1 assume a: "knows D s \<rho>" "eval M comps ?e \<rho> w = Some (v, w1)"
  then obtain l w2 where l: "eval_fields M comps inits \<rho> w = Some (l, w2)" "build_composite M comps path [] l None w2 = Some (v, w1)"
    by (auto simp: eval.simps eval_option.simps bind_Some)
  then have "eval_fields M comps inits' \<rho> w = Some (l, w)" "w2 = w" using ks a(1) unfolding keeps_inits_def by blast+
  then have e': "eval M comps ?e' \<rho> w = Some (v, w1)" using l(2) by (simp add: eval.simps eval_option.simps)
  then show "w1 = w" using calm_quiet(1)[OF c] by blast
  with e' show "denotes \<rho> w (?e', None) v" by (simp add: denotes_def)
qed

lemma keeps_member:
  assumes k: "keeps_value N D s s1 inner r" and t: "tracked N D s" and c: "calm N D inner" and x: "scp_member env (fst r) name nid s1 = Inr (x, s')"
    and N: "\<forall>x\<in>set D. N x" "\<not> N ''self''"
  shows "keeps_value N D s s' (E_MemberAccess inner name nid) x"
proof -
  have s: "same_maps s s1" using k by (rule keepsD)
  note h = scp_member_keeps[OF x keepsD(3)[OF k] keeps_next[OF k t] N]
  show ?thesis unfolding keeps_value_def
  proof (intro conjI allI impI)
    show "same_maps s s'" "good N D x" using h s same_maps_trans by (auto simp: keeps_value_def)
    fix \<rho> w v w1 assume a: "knows D s \<rho>" "eval M comps (E_MemberAccess inner name nid) \<rho> w = Some (v, w1)"
    then obtain u w2 where u: "eval M comps inner \<rho> w = Some (u, w2)" "m_member M (ident_name name) u = Some v" "w1 = w2"
      using calm_not_self[OF c N] by (auto simp: eval.simps bind_Some)
    then have "eval M comps (E_MemberAccess (fst r) name nid) \<rho> w = Some (v, w)"
      using keepsD(4)[OF k a(1) u(1)] calm_not_self[OF keepsD(3)[OF k] N] by (simp add: denotes_def eval.simps)
    moreover have "knows D s1 \<rho>" using a(1) maps_tracked(2)[OF s] by simp
    ultimately show "w1 = w" "denotes \<rho> w x v" using h keepsD(4)[OF k a(1) u(1)] u(3) unfolding keeps_value_def by blast+
  qed
qed

lemma scp_expr_keeps:
  assumes N: "\<forall>x\<in>set D. N x" "\<not> N ''self''"
  shows "scp_expr env e s = Inr (x, s') \<Longrightarrow> calm N D e \<Longrightarrow> tracked N D s \<Longrightarrow> keeps_value N D s s' e x"
    and "scp_seq (map (scp_expr env) es) s = Inr (rs, s') \<Longrightarrow> list_all (calm N D) es \<Longrightarrow> tracked N D s \<Longrightarrow> keeps_list N D s s' es rs"
    and "(oe :: expression option) = oe \<Longrightarrow> True"
    and "scp_seq (map (scp_field env) fs) s = Inr (fs', s') \<Longrightarrow> list_all (calm_field N D) fs \<Longrightarrow> tracked N D s \<Longrightarrow> keeps_inits N D s s' fs fs'"
    and "(k :: dynamic_op_kind) = k \<Longrightarrow> True"
proof (induction e and es and oe and fs and k arbitrary: s x s' and s rs s' and and s fs' s' and
    rule: expr_reads_list_reads_option_reads_fields_reads_kind_reads.induct)
  case (1 array index nid)
  then obtain a s1 i s2 where r: "scp_expr env array s = Inr (a, s1)" "scp_expr env index s1 = Inr (i, s2)"
    "scp_array_access env nid a i s2 = Inr (x, s')" by (auto simp: scp_bind_Inr)
  show ?case by (rule keeps_access[OF _ r(2) _ r(3)]) (use "1.IH"[OF r(1)] 1 in simp_all)
next
  case (2 inner name nid)
  from "2.prems"(1) obtain r s1 where r: "scp_expr env inner s = Inr (r, s1)" "scp_member env (fst r) name nid s1 = Inr (x, s')"
    by (auto simp: scp_bind_Inr)
  show ?case
  proof (cases "calm N D inner")
    case True
    have "\<not> (case inner of E_Path p \<Rightarrow> ident_name (identifier_of p) = ''self'' | _ \<Rightarrow> False)" by (rule calm_not_self[OF True N])
    from "2.IH"[OF this r(1) True "2.prems"(3)] show ?thesis using keeps_member[OF _ "2.prems"(3) True r(2) N] by blast
  next
    case False
    then obtain p where p: "inner = E_Path p" "try_local_symbol p = None" "ident_name (identifier_of p) = ''self''"
      using "2.prems"(2) by (auto split: expression.splits)
    then have "r = (inner, None)" "s1 = s" using scp_self[OF _ "2.prems"(3) N(2) p(3)] r(1) by auto
    then have "x = (E_MemberAccess inner name nid, None)" "s' = s" using r(2) p by (auto simp: scp_member_def forwarded_atom_def)
    then show ?thesis using p "2.prems"(2) by (auto simp: keeps_value_def good_def denotes_def eval.simps)
  qed
next
  case (3 tuple index nid)
  then obtain r where r: "scp_expr env tuple s = Inr (r, s')" "x = (E_TupleAccess (fst r) index nid, None)" by (auto simp: scp_bind_Inr)
  have k: "keeps_value N D s s' tuple r" using "3.IH"[OF r(1)] 3 by simp
  show ?case unfolding r(2)
    by (rule keeps_rebuilt[OF k, where f = "\<lambda>v. m_op M (H_TupleAccess index) [v]"]) (use 3 keepsD(3)[OF k] in \<open>simp_all add: eval.simps\<close>)
next
  case (4 elements nid)
  then obtain rs s1 where r: "scp_seq (map (scp_expr env) elements) s = Inr (rs, s1)" "scp_array nid elements rs s1 = Inr (x, s')"
    by (auto simp: scp_bind_Inr)
  have ks: "keeps_list N D s s1 elements rs" using "4.IH"[OF r(1)] 4 by simp
  show ?case by (rule keeps_elements[OF ks scp_array_keeps[OF r(2)]]) (use ks in \<open>simp_all add: keeps_list_def eval.simps\<close>)
next
  case (5 left right op nid)
  then obtain l s1 r s2 where r: "scp_expr env left s = Inr (l, s1)" "scp_expr env right s1 = Inr (r, s2)" "scp_binary env op nid l r s2 = Inr (x, s')"
    by (auto simp: scp_bind_Inr)
  have kl: "keeps_value N D s s1 left l" using "5.IH"(1)[OF r(1)] 5 by simp
  have kr: "keeps_value N D s s2 right r" using keeps_after[OF "5.IH"(2)[OF r(2) _ keeps_next[OF kl]] keepsD(1)[OF kl]] 5 by simp
  show ?case using keeps_binary[OF kl kr keepsD(1)[OF kr] r(3)] .
next
  case (9 path const_args inits base nid)
  then have c: "const_args = []" "base = None" "list_all (calm_field N D) inits" by auto
  then obtain inits' where r: "scp_seq (map (scp_field env) inits) s = Inr (inits', s')" "x = (E_Composite path [] inits' None nid, None)"
    using "9.prems"(1) by (auto simp: scp_bind_Inr)
  show ?case unfolding r(2) c(1,2) by (rule keeps_composite) (use "9.IH"(1)[OF r(1) c(3)] 9 in simp)
next
  case (10 p)
  then show ?case using scp_path_keeps by simp
next
  case (11 l)
  then have l: "scp_literal env l s = Inr (x, s')" "good_literal (lit_variant l)" by simp_all
  show ?case using scp_literal_good[OF l] by (auto simp: keeps_value_def eval.simps)
next
  case (12 e cnt nid)
  then obtain l where l: "cnt = E_Literal l" "good_literal (lit_variant l)" by (auto simp: is_good_iff)
  with 12 obtain r s1 i where r: "scp_expr env e s = Inr (r, s1)" "scp_literal env l s1 = Inr (i, s')" "x = (E_Repeat (fst r) (fst i) nid, None)"
    by (auto simp: scp_bind_Inr)
  note i = scp_literal_keeps[OF r(2) l(2)]
  have k: "keeps_value N D s s1 e r" using "12.IH"[OF r(1)] 12 by simp
  show ?case unfolding r(3) i(2)
    by (rule keeps_rebuilt[OF k, where f = "\<lambda>v. m_op M (H_Repeat cnt) [v]"]) (use 12 i l keepsD(3)[OF k] in \<open>simp_all add: eval.simps\<close>)
next
  case (13 c t f nid)
  then obtain rc s1 rt s2 rf s3 where r: "scp_expr env c s = Inr (rc, s1)" "scp_expr env t s1 = Inr (rt, s2)" "scp_expr env f s2 = Inr (rf, s3)"
    "scp_ternary env nid rc rt rf s3 = Inr (x, s')" by (auto simp: scp_bind_Inr)
  have kc: "keeps_value N D s s1 c rc" using "13.IH"(1)[OF r(1)] 13 by simp
  have kt: "keeps_value N D s s2 t rt" using keeps_after[OF "13.IH"(2)[OF r(2) _ keeps_next[OF kc]] keepsD(1)[OF kc]] 13 by simp
  have kf: "keeps_value N D s s3 f rf" using keeps_after[OF "13.IH"(3)[OF r(3) _ keeps_next[OF kt]] keepsD(1)[OF kt]] 13 by simp
  show ?case using keeps_ternary[OF kc kt kf r(4)] .
next
  case (14 elements nid)
  then obtain rs s1 where r: "scp_seq (map (scp_expr env) elements) s = Inr (rs, s1)" "scp_tuple nid elements rs s1 = Inr (x, s')"
    by (auto simp: scp_bind_Inr)
  have ks: "keeps_list N D s s1 elements rs" using "14.IH"[OF r(1)] 14 by simp
  show ?case by (rule keeps_elements[OF ks scp_tuple_keeps[OF r(2)]]) (use ks in \<open>simp_all add: keeps_list_def eval.simps\<close>)
next
  case (15 e op nid)
  then obtain r s1 where r: "scp_expr env e s = Inr (r, s1)" "scp_unary env op nid r s1 = Inr (x, s')" by (auto simp: scp_bind_Inr)
  show ?case by (rule keeps_unary[OF _ r(2)]) (use "15.IH"[OF r(1)] 15 in simp)
next
  case (16 nid)
  then show ?case by (simp add: keeps_value_def good_def denotes_def eval.simps)
next
  case 20
  then show ?case by (simp add: keeps_list_def eval_list.simps)
next
  case (21 e es)
  then obtain r s1 rs1 where r: "scp_expr env e s = Inr (r, s1)" "scp_seq (map (scp_expr env) es) s1 = Inr (rs1, s')" "rs = r # rs1"
    by (auto simp: scp_bind_Inr)
  have k: "keeps_value N D s s1 e r" using "21.IH"(1)[OF r(1)] 21 by simp
  show ?case unfolding r(3) by (rule keeps_list_Cons[OF k]) (use "21.IH"(2)[OF r(2) _ keeps_next[OF k]] 21 in simp)
next
  case 24
  then show ?case by (simp add: keeps_inits_def eval_fields.simps)
next
  case (25 i oe nid inits)
  then obtain e where e: "oe = Some e" "calm N D e" by (cases oe) auto
  with 25 obtain r s1 fs1 where r: "scp_expr env e s = Inr (r, s1)" "scp_seq (map (scp_field env) inits) s1 = Inr (fs1, s')"
    "fs' = Field_Init i (Some (fst r)) nid # fs1" by (auto simp: scp_bind_Inr)
  have k: "keeps_value N D s s1 e r" using "25.IH"(1)[OF e(1) r(1) e(2)] 25 by simp
  show ?case unfolding r(3) e(1) by (rule keeps_inits_Cons[OF k]) (use "25.IH"(2)[OF r(2) _ keeps_next[OF k]] 25 in simp)
qed simp_all

end

end
