(* ===== verification/Ssa_Const_Stmts.thy ===== *)
theory Ssa_Const_Stmts
  imports Ssa_Const_Exprs Common_Subexpr_Props
begin

text \<open>Constant propagation keeps what statements do, as long as the original code does not halt.\<close>

section \<open>Expressions with effects\<close>

text \<open>Types that the traversal does not change.\<close>

primrec fixed_type :: "leo_type \<Rightarrow> bool" where
  "fixed_type (T_Array ty len) \<longleftrightarrow> fixed_type ty \<and> is_good len"
| "fixed_type (T_Composite _ args) \<longleftrightarrow> args = []"
| "fixed_type (T_Future tys _ _) \<longleftrightarrow> list_all fixed_type tys"
| "fixed_type (T_Mapping k v) \<longleftrightarrow> fixed_type k \<and> fixed_type v"
| "fixed_type (T_Optional ty) \<longleftrightarrow> fixed_type ty"
| "fixed_type (T_Tuple tys) \<longleftrightarrow> list_all fixed_type tys"
| "fixed_type (T_Vector ty) \<longleftrightarrow> fixed_type ty"
| "fixed_type T_Address \<longleftrightarrow> True"
| "fixed_type T_Boolean \<longleftrightarrow> True"
| "fixed_type T_Field \<longleftrightarrow> True"
| "fixed_type T_Group \<longleftrightarrow> True"
| "fixed_type T_Identifier \<longleftrightarrow> True"
| "fixed_type T_DynRecord \<longleftrightarrow> True"
| "fixed_type (T_Ident _) \<longleftrightarrow> True"
| "fixed_type (T_Integer _) \<longleftrightarrow> True"
| "fixed_type T_Scalar \<longleftrightarrow> True"
| "fixed_type T_Signature \<longleftrightarrow> True"
| "fixed_type T_String \<longleftrightarrow> True"
| "fixed_type T_Numeric \<longleftrightarrow> True"
| "fixed_type T_Unit \<longleftrightarrow> True"
| "fixed_type T_Err \<longleftrightarrow> True"

definition fixed_types :: "(mode \<times> leo_type) list \<Rightarrow> bool" where
  "fixed_types tys \<longleftrightarrow> list_all (\<lambda>m. fixed_type (snd m)) tys"

fun ready_kind :: "(symbol \<Rightarrow> bool) \<Rightarrow> symbol list \<Rightarrow> dynamic_op_kind \<Rightarrow> bool" where
  "ready_kind N D (Dyn_Call _ args) \<longleftrightarrow> list_all (calm N D) args"
| "ready_kind N D (Dyn_Read _) \<longleftrightarrow> True"
| "ready_kind N D (Dyn_Op _ _ args) \<longleftrightarrow> list_all (calm N D) args"

fun ready :: "(symbol \<Rightarrow> bool) \<Rightarrow> symbol list \<Rightarrow> expression \<Rightarrow> bool" where
  "ready N D (E_Intrinsic _ tys ins outs args _) \<longleftrightarrow>
     list_all fixed_type tys \<and> fixed_types ins \<and> fixed_types outs \<and> list_all (calm N D) args"
| "ready N D (E_Call _ const_args args _) \<longleftrightarrow> const_args = [] \<and> list_all (calm N D) args"
| "ready N D (E_DynamicOp interface target network kind _) \<longleftrightarrow>
     fixed_type interface \<and> calm N D target \<and> pred_option (calm N D) network \<and> ready_kind N D kind"
| "ready N D (E_Cast e _ _) \<longleftrightarrow> calm N D e"
| "ready N D e \<longleftrightarrow> calm N D e"

lemma calm_ready: "calm N D e \<Longrightarrow> ready N D e"
  by (cases e) auto

lemma seq_same: "(\<And>a s r s'. a \<in> set as \<Longrightarrow> m a s = Inr (r, s') \<Longrightarrow> r = a \<and> s' = s) \<Longrightarrow> scp_seq (map m as) s = Inr (rs, s') \<Longrightarrow> rs = as \<and> s' = s"
proof (induction as arbitrary: rs s)
  case (Cons a as)
  then obtain r s1 rs1 where r: "m a s = Inr (r, s1)" "scp_seq (map m as) s1 = Inr (rs1, s')" "rs = r # rs1" by (auto simp: scp_bind_Inr)
  have "r = a \<and> s1 = s" by (rule Cons.prems(1)[OF _ r(1)]) simp
  moreover have "rs1 = as \<and> s' = s1" by (rule Cons.IH[OF _ r(2)]) (use Cons.prems(1) in auto)
  ultimately show ?case using r(3) by simp
qed simp

lemma good_unchanged: "is_good e \<Longrightarrow> scp_expr env e s = Inr (r, s') \<Longrightarrow> fst r = e \<and> s' = s"
proof -
  assume e: "is_good e" "scp_expr env e s = Inr (r, s')"
  then obtain l where l: "e = E_Literal l" "good_literal (lit_variant l)" by (auto simp: is_good_def literal_such_def split: expression.splits)
  let ?v = "literal_to_value (scp_codec env) l (unwrap_optional (scp_types s (lit_id l)))"
  show ?thesis using e(2) l
    by (cases ?v; cases "lit_variant l") (auto simp: scp_literal_def scp_bind_Inr scp_ok_Inr Let_def split: if_splits)
qed

lemma fixed_type_same:
  "scp_type env ty s = Inr (ty', s') \<Longrightarrow> fixed_type ty \<Longrightarrow> ty' = ty \<and> s' = s"
  "settled e \<Longrightarrow> True" "settled_field f \<Longrightarrow> True" "settled_kind k \<Longrightarrow> True"
proof (induction ty and e and f and k arbitrary: s ty' s' and and and rule: settled_type_settled_settled_field_settled_kind.induct)
  case (1 ty len)
  then show ?case using good_unchanged[of len env] by (auto simp: scp_bind_Inr) blast+
next
  case (3 tys loc b)
  then obtain tys' where t: "scp_seq (map (scp_type env) tys) s = Inr (tys', s')" "ty' = T_Future tys' loc b" by (auto simp: scp_bind_Inr)
  have "tys' = tys \<and> s' = s" by (rule seq_same[OF _ t(1)]) (use 3 in \<open>auto simp: list_all_iff\<close>)
  then show ?case using t by simp
next
  case (6 tys)
  then obtain tys' where t: "scp_seq (map (scp_type env) tys) s = Inr (tys', s')" "ty' = T_Tuple tys'" by (auto simp: scp_bind_Inr)
  have "tys' = tys \<and> s' = s" by (rule seq_same[OF _ t(1)]) (use 6 in \<open>auto simp: list_all_iff\<close>)
  then show ?case using t by simp
next
  case (4 k v)
  then obtain k' s1 v' where t: "scp_type env k s = Inr (k', s1)" "scp_type env v s1 = Inr (v', s')" "ty' = T_Mapping k' v'"
    by (auto simp: scp_bind_Inr)
  show ?case using "4.IH"(1)[OF t(1)] "4.IH"(2)[OF t(2)] "4.prems"(2) t(3) by simp
qed (auto simp: scp_bind_Inr)

lemma fixed_types_same:
  "scp_seq (map (scp_type env) tys) s = Inr (tys', s') \<Longrightarrow> list_all fixed_type tys \<Longrightarrow> tys' = tys \<and> s' = s"
  using seq_same[of tys "scp_type env" s tys' s'] fixed_type_same(1)[of env] by (auto simp: list_all_iff)

lemma fixed_moded_same:
  "scp_seq_moded (map (map_prod id (scp_type env)) ms) s = Inr (ms', s') \<Longrightarrow> fixed_types ms \<Longrightarrow> ms' = ms \<and> s' = s"
proof (induction ms arbitrary: s ms')
  case (Cons m ms)
  obtain mode ty where m: "m = (mode, ty)" by (cases m)
  from Cons.prems m obtain ty' s1 ms1 where t: "scp_type env ty s = Inr (ty', s1)"
    "scp_seq_moded (map (map_prod id (scp_type env)) ms) s1 = Inr (ms1, s')" "ms' = (mode, ty') # ms1" by (auto simp: scp_bind_Inr id_def)
  have "fixed_type ty" "fixed_types ms" using Cons.prems(2) m by (simp_all add: fixed_types_def)
  then show ?case using fixed_type_same(1)[OF t(1)] Cons.IH[OF t(2)] t(3) m by simp
qed simp

context folding_machine
begin

definition keeps_ready ::
  "(symbol \<Rightarrow> bool) \<Rightarrow> symbol list \<Rightarrow> 'e scp_state \<Rightarrow> 'e scp_state \<Rightarrow> expression \<Rightarrow> expression \<times> 'e const_value option \<Rightarrow> bool" where
  "keeps_ready N D s s' e x \<longleftrightarrow> same_maps s s' \<and> ready N D (fst x) \<and> (\<forall>k. snd x = Some k \<longrightarrow> const_ok k) \<and>
     (\<forall>\<rho> w v w1. knows D s \<rho> \<longrightarrow> eval M comps e \<rho> w = Some (v, w1) \<longrightarrow>
        eval M comps (fst x) \<rho> w = Some (v, w1) \<and> (\<forall>k. snd x = Some k \<longrightarrow> v = den k \<and> w1 = w))"

lemma keeps_is_ready: "keeps_value N D s s' e x \<Longrightarrow> keeps_ready N D s s' e x"
  using calm_ready[of N D "fst x"] by (fastforce simp: keeps_value_def keeps_ready_def good_def denotes_def)

lemma keeps_list_runs:
  assumes "keeps_list N D s s' es rs" "knows D s \<rho>" "eval_list M comps es \<rho> w = Some (vs, w1)"
  shows "w1 = w" "eval_list M comps (map fst rs) \<rho> w = Some (vs, w)"
  using assms denotes_list unfolding keeps_list_def by blast+

lemma keeps_kind:
  assumes N: "\<forall>x\<in>set D. N x" "\<not> N ''self''"
    and k: "scp_kind env kind s = Inr (kind', s')" "ready_kind N D kind" "tracked N D s"
  shows "same_maps s s' \<and> ready_kind N D kind' \<and>
    (\<forall>\<rho> w r w1. knows D s \<rho> \<longrightarrow> eval_kind M comps ifc net kind \<rho> w = Some (r, w1) \<longrightarrow> eval_kind M comps ifc net kind' \<rho> w = Some (r, w1))"
proof (cases kind)
  case (Dyn_Call f args)
  then obtain rs where rs: "scp_seq (map (scp_expr env) args) s = Inr (rs, s')" "kind' = Dyn_Call f (map fst rs)" "list_all (calm N D) args"
    using k by (auto simp: scp_bind_Inr)
  note ks = scp_expr_keeps(2)[OF N rs(1,3) k(3)]
  then show ?thesis using rs(2) Dyn_Call good_calm keeps_list_runs[OF ks] by (fastforce simp: keeps_list_def eval_kind.simps)
next
  case (Dyn_Op m f args)
  then obtain rs where rs: "scp_seq (map (scp_expr env) args) s = Inr (rs, s')" "kind' = Dyn_Op m f (map fst rs)" "list_all (calm N D) args"
    using k by (auto simp: scp_bind_Inr)
  note ks = scp_expr_keeps(2)[OF N rs(1,3) k(3)]
  then show ?thesis using rs(2) Dyn_Op good_calm keeps_list_runs[OF ks] by (fastforce simp: keeps_list_def eval_kind.simps)
qed (use k in auto)

lemma scp_dynamic_keeps:
  assumes N: "\<forall>x\<in>set D. N x" "\<not> N ''self''" and x: "scp_expr env (E_DynamicOp interface target network kind nid) s = Inr (x, s')"
    and r: "ready N D (E_DynamicOp interface target network kind nid)" and t: "tracked N D s"
  shows "keeps_ready N D s s' (E_DynamicOp interface target network kind nid) x"
proof -
  from r have r': "fixed_type interface" "calm N D target" "pred_option (calm N D) network" "ready_kind N D kind" by auto
  from x obtain interface' s1 target' s2 network' s3 kind' where i: "scp_type env interface s = Inr (interface', s1)"
    and tg: "scp_expr env target s1 = Inr (target', s2)" and nw: "scp_seq_option (map_option (scp_expr env) network) s2 = Inr (network', s3)"
    and kd: "scp_kind env kind s3 = Inr (kind', s')" and x': "x = (E_DynamicOp interface' (fst target') (map_option fst network') kind' nid, None)"
    by (auto simp: scp_bind_Inr)
  have i': "interface' = interface" "s1 = s" using fixed_type_same(1)[OF i r'(1)] by auto
  note kt = scp_expr_keeps(1)[OF N tg[unfolded i'] r'(2) t]
  have n: "same_maps s s3 \<and> pred_option (calm N D) (map_option fst network') \<and> (network' = None \<longleftrightarrow> network = None) \<and>
     (\<forall>\<rho> w v w1. knows D s \<rho> \<longrightarrow> eval_option M comps network \<rho> w = Some (v, w1) \<longrightarrow> eval_option M comps (map_option fst network') \<rho> w = Some (v, w1))"
  proof (cases network)
    case None
    then show ?thesis using nw keepsD(1)[OF kt] by simp
  next
    case (Some e)
    then obtain e' where e': "scp_expr env e s2 = Inr (e', s3)" "network' = Some e'" using nw by (auto simp: scp_bind_Inr)
    have "calm N D e" using r'(3) Some by simp
    from keeps_after[OF scp_expr_keeps(1)[OF N e'(1) this keeps_next[OF kt t]] keepsD(1)[OF kt]] have "keeps_value N D s s3 e e'" .
    then show ?thesis using Some e'(2) by (fastforce simp: keeps_value_def good_def denotes_def eval_option.simps)
  qed
  have t3: "tracked N D s3" using n t maps_tracked(1) by blast
  have "ready N D (fst x)" using x' i' r'(1) keepsD(3)[OF kt] n keeps_kind[OF N kd r'(4) t3] by auto
  moreover have "eval M comps (fst x) \<rho> w = Some (v, w1)"
    if a: "knows D s \<rho>" "eval M comps (E_DynamicOp interface target network kind nid) \<rho> w = Some (v, w1)" for \<rho> w v w1
  proof -
    from a(2) obtain vt w2 vn w3 h vs w4 where e: "eval M comps target \<rho> w = Some (vt, w2)" "eval_option M comps network \<rho> w2 = Some (vn, w3)"
      "eval_kind M comps interface (vn \<noteq> None) kind \<rho> w3 = Some ((h, vs), w4)" "m_op M h (vt # (case vn of None \<Rightarrow> [] | Some v \<Rightarrow> [v]) @ vs) w4 = Some (v, w1)"
      by (auto simp: eval.simps bind_Some)
    have "eval M comps (fst target') \<rho> w = Some (vt, w2)" using keepsD(4)[OF kt a(1) e(1)] by (simp add: denotes_def)
    moreover have "eval_option M comps (map_option fst network') \<rho> w2 = Some (vn, w3)" using n a(1) e(2) by blast
    moreover have "knows D s3 \<rho>" using a(1) n maps_tracked(2) by blast
    then have "eval_kind M comps interface (vn \<noteq> None) kind' \<rho> w3 = Some ((h, vs), w4)" using keeps_kind[OF N kd r'(4) t3] e(3) by blast
    ultimately show ?thesis using e(4) x' i' by (simp add: eval.simps)
  qed
  moreover have "same_maps s s'" using n keeps_kind[OF N kd r'(4) t3] same_maps_trans by blast
  ultimately show ?thesis using x' by (simp add: keeps_ready_def)
qed

lemma keeps_call:
  assumes ks: "keeps_list N D s s' args rs" and r: "ready N D e'"
    and e: "\<And>\<rho> w. eval M comps e \<rho> w = Option.bind (eval_list M comps args \<rho> w) (\<lambda>(vs, w1). m_op M h vs w1)"
      "\<And>\<rho> w. eval M comps e' \<rho> w = Option.bind (eval_list M comps (map fst rs) \<rho> w) (\<lambda>(vs, w1). m_op M h vs w1)"
  shows "keeps_ready N D s s' e (e', None)"
  using ks r keeps_list_runs[OF ks] e by (fastforce simp: keeps_ready_def keeps_list_def bind_Some)

lemma scp_ready_keeps:
  assumes N: "\<forall>x\<in>set D. N x" "\<not> N ''self''" and x: "scp_expr env e s = Inr (x, s')" and r: "ready N D e" and t: "tracked N D s"
  shows "keeps_ready N D s s' e x"
proof (cases "calm N D e")
  case True
  then show ?thesis using keeps_is_ready scp_expr_keeps(1)[OF N x _ t] by blast
next
  case False
  then consider (I) name tys ins outs args nid where "e = E_Intrinsic name tys ins outs args nid"
    | (C) f args nid where "e = E_Call f [] args nid"
    | (Dy) interface target network kind nid where "e = E_DynamicOp interface target network kind nid"
    | (T) a ty nid where "e = E_Cast a ty nid"
    using r by (cases e) auto
  then show ?thesis
  proof cases
    case I
    then have f: "list_all fixed_type tys" "fixed_types ins" "fixed_types outs" "list_all (calm N D) args" using r by auto
    from x I obtain tys' s1 ins' s2 outs' s3 rs where y: "scp_seq (map (scp_type env) tys) s = Inr (tys', s1)"
      "scp_seq_moded (map (map_prod id (scp_type env)) ins) s1 = Inr (ins', s2)" "scp_seq_moded (map (map_prod id (scp_type env)) outs) s2 = Inr (outs', s3)"
      "scp_seq (map (scp_expr env) args) s3 = Inr (rs, s')" "x = (E_Intrinsic name tys' ins' outs' (map fst rs) nid, None)"
      by (auto simp: scp_bind_Inr id_def)
    have u: "tys' = tys" "ins' = ins" "outs' = outs" "s3 = s"
      using fixed_types_same[OF y(1) f(1)] fixed_moded_same[OF y(2) f(2)] fixed_moded_same[OF y(3) f(3)] by auto
    note ks = scp_expr_keeps(2)[OF N y(4)[unfolded u] f(4) t]
    have "list_all (calm N D) (map fst rs)" using ks good_calm by (auto simp: keeps_list_def)
    then show ?thesis unfolding y(5) I u by (intro keeps_call[OF ks]) (use f in \<open>simp_all add: eval.simps\<close>)
  next
    case C
    then obtain rs where y: "scp_seq (map (scp_expr env) args) s = Inr (rs, s')" "x = (E_Call f [] (map fst rs) nid, None)" "list_all (calm N D) args"
      using x r by (auto simp: scp_bind_Inr)
    note ks = scp_expr_keeps(2)[OF N y(1,3) t]
    have "list_all (calm N D) (map fst rs)" using ks good_calm by (auto simp: keeps_list_def)
    then show ?thesis unfolding y(2) C by (intro keeps_call[OF ks]) (simp_all add: eval.simps)
  next
    case Dy
    then show ?thesis using scp_dynamic_keeps[OF N _ _ t] x r by simp
  next
    case T
    then obtain a' where y: "scp_expr env a s = Inr (a', s')" "x = (E_Cast (fst a') ty nid, None)" "calm N D a" using x r by (auto simp: scp_bind_Inr)
    note k = scp_expr_keeps(1)[OF N y(1,3) t]
    show ?thesis using keepsD[OF k] y(2) T by (fastforce simp: keeps_ready_def eval.simps bind_Some denotes_def)
  qed
qed

section \<open>Changes of the maps\<close>

text \<open>What a statement that defines \<open>xs\<close> leaves alone, and the names it may define.\<close>

definition outside :: "symbol list \<Rightarrow> 'e scp_state \<Rightarrow> 'e scp_state \<Rightarrow> bool" where
  "outside xs s s' \<longleftrightarrow>
     (\<forall>x. x \<notin> set xs \<longrightarrow> scp_constants s' x = scp_constants s x \<and> scp_composites s' x = scp_composites s x)"

definition unmapped :: "symbol list \<Rightarrow> 'e scp_state \<Rightarrow> bool" where
  "unmapped xs s \<longleftrightarrow> distinct xs \<and> (\<forall>x\<in>set xs. scp_constants s x = None \<and> scp_composites s x = None)"

lemma outside_same: "same_maps s s' \<Longrightarrow> outside xs s s'"
  by (simp add: outside_def same_maps_def)

lemma outside_trans: "outside xs s s1 \<Longrightarrow> outside ys s1 s2 \<Longrightarrow> set xs \<union> set ys \<subseteq> set zs \<Longrightarrow> outside zs s s2"
  unfolding outside_def by (metis Un_iff subset_iff)

lemma unmapped_same: "same_maps s s' \<Longrightarrow> unmapped xs s' = unmapped xs s"
  by (simp add: unmapped_def same_maps_def)

lemma unmapped_append: "unmapped (xs @ ys) s \<Longrightarrow> outside xs s s1 \<Longrightarrow> unmapped xs s \<and> unmapped ys s1"
  by (fastforce simp: unmapped_def outside_def)

lemma calm_atom_reads: "is_ssa_atom a \<Longrightarrow> calm N D a \<Longrightarrow> \<forall>x\<in>set D. \<rho> x = \<rho>' x \<Longrightarrow> eval M comps a \<rho> w = eval M comps a \<rho>' w"
  by (auto simp: is_ssa_atom_def eval.simps read_path_def split: expression.splits option.splits)

lemma calm_atom_mono: "is_ssa_atom a \<Longrightarrow> calm N D a \<Longrightarrow> set D \<subseteq> set D' \<Longrightarrow> calm N D' a"
  by (auto simp: is_ssa_atom_def split: expression.splits option.splits)

lemma leave_scope:
  assumes "tracked N D s" "tracked N D' s'" "outside xs s s'" "set xs \<inter> set D = {}"
  shows "tracked N D s'" "knows D s \<rho> \<Longrightarrow> \<forall>x\<in>set D. \<rho>1 x = \<rho> x \<Longrightarrow> knows D s' \<rho>1"
proof -
  have same: "scp_constants s' x = scp_constants s x \<and> scp_composites s' x = scp_composites s x" if "x \<in> set D" for x
    using assms(3,4) that unfolding outside_def by blast
  show "tracked N D s'" using assms(1,2) same by (simp add: tracked_def)
  assume k: "knows D s \<rho>" and r: "\<forall>x\<in>set D. \<rho>1 x = \<rho> x"
  have "eval M comps a \<rho>1 w = Some (v, w)"
    if "x \<in> set D" "scp_composites s x = Some atoms" "atoms m = Some a" "m_member M m (\<rho> x) = Some v" for x atoms m a v w
  proof -
    have "is_ssa_atom a \<and> calm N D a" using assms(1) that unfolding tracked_def by blast
    then have "eval M comps a \<rho>1 w = eval M comps a \<rho> w" using r calm_atom_reads[of a N D \<rho>1 \<rho>] by simp
    then show ?thesis using k that unfolding knows_def by simp
  qed
  then show "knows D s' \<rho>1" using k r same unfolding knows_def by simp
qed

text \<open>A definition that adds names.\<close>

lemma extend_scope:
  assumes t: "tracked N D s" and o: "outside xs s s'" and n: "set xs \<inter> set D = {}" "list_all N xs"
    and c: "\<forall>x\<in>set xs. \<forall>k. scp_constants s' x = Some k \<longrightarrow> const_ok k"
    and a: "\<forall>x\<in>set xs. \<forall>atoms m a. scp_composites s' x = Some atoms \<longrightarrow> atoms m = Some a \<longrightarrow> is_ssa_atom a \<and> calm N D a"
    and D': "set D' = set xs \<union> set D"
  shows "tracked N D' s'"
    and "knows D s \<rho> \<Longrightarrow> \<forall>x\<in>set D. \<rho>1 x = \<rho> x \<Longrightarrow> \<forall>x\<in>set xs. \<forall>k. scp_constants s' x = Some k \<longrightarrow> \<rho>1 x = den k \<Longrightarrow>
      \<forall>x\<in>set xs. \<forall>atoms m a r w. scp_composites s' x = Some atoms \<longrightarrow> atoms m = Some a \<longrightarrow> m_member M m (\<rho>1 x) = Some r \<longrightarrow>
        eval M comps a \<rho> w = Some (r, w) \<Longrightarrow> knows D' s' \<rho>1"
proof -
  have same: "scp_constants s' x = scp_constants s x \<and> scp_composites s' x = scp_composites s x" if "x \<notin> set xs" for x
    using o that unfolding outside_def by blast
  have at: "is_ssa_atom e \<and> calm N D e" if "x \<in> set D'" "scp_composites s' x = Some atoms" "atoms m = Some e" for x atoms m e
  proof (cases "x \<in> set xs")
    case True
    then show ?thesis using a that by blast
  next
    case False
    then have "x \<in> set D" "scp_composites s x = Some atoms" using same[OF False] that D' by auto
    then show ?thesis using t that(3) unfolding tracked_def by blast
  qed
  have "calm N D' e" if "x \<in> set D'" "scp_composites s' x = Some atoms" "atoms m = Some e" for x atoms m e
    using at[OF that] calm_atom_mono[of e N D D'] D' by auto
  moreover have "N x \<and> const_ok k" if "scp_constants s' x = Some k" for x k
    using that c n(2) t same[of x] by (cases "x \<in> set xs") (auto simp: tracked_def list_all_iff)
  ultimately show "tracked N D' s'" unfolding tracked_def using at by blast
  assume k: "knows D s \<rho>" "\<forall>x\<in>set D. \<rho>1 x = \<rho> x" "\<forall>x\<in>set xs. \<forall>k. scp_constants s' x = Some k \<longrightarrow> \<rho>1 x = den k"
    "\<forall>x\<in>set xs. \<forall>atoms m a r w. scp_composites s' x = Some atoms \<longrightarrow> atoms m = Some a \<longrightarrow> m_member M m (\<rho>1 x) = Some r \<longrightarrow>
        eval M comps a \<rho> w = Some (r, w)"
  show "knows D' s' \<rho>1" unfolding knows_def
  proof (intro ballI conjI allI impI)
    fix x k' assume "x \<in> set D'" "scp_constants s' x = Some k'"
    then show "\<rho>1 x = den k'" using k(1-3) same[of x] D' n unfolding knows_def by (cases "x \<in> set xs") auto
  next
    fix x atoms m e r w assume y: "x \<in> set D'" "scp_composites s' x = Some atoms" "atoms m = Some e" "m_member M m (\<rho>1 x) = Some r"
    have "eval M comps e \<rho> w = Some (r, w)"
    proof (cases "x \<in> set xs")
      case True
      then show ?thesis using k(4) y by blast
    next
      case False
      then have "x \<in> set D" "\<rho>1 x = \<rho> x" using y(1) D' k(2) by auto
      then show ?thesis using k(1) y same[OF False] unfolding knows_def by auto
    qed
    moreover have "eval M comps e \<rho>1 w = eval M comps e \<rho> w" using calm_atom_reads[of e N D \<rho>1 \<rho>] at[OF y(1-3)] k(2) by simp
    ultimately show "eval M comps e \<rho>1 w = Some (r, w)" by simp
  qed
qed

section \<open>Definitions\<close>

lemma set_elements_tuple:
  "set_elements (make_tuple vs) j is s = Inr (u, s') \<Longrightarrow> distinct (map ident_name is) \<Longrightarrow>
     outside (map ident_name is) s s' \<and> scp_composites s' = scp_composites s \<and>
     (\<forall>i<length is. j + i < length vs \<and> scp_constants s' (ident_name (is ! i)) = Some (vs ! (j + i)))"
proof (induction "is" arbitrary: j s)
  case (Cons x xs)
  let ?s1 = "s\<lparr>scp_constants := (scp_constants s)(ident_name x \<mapsto> vs ! j)\<rparr>"
  from Cons.prems(1) have r: "j < length vs" "set_elements (make_tuple vs) (Suc j) xs ?s1 = Inr (u, s')"
    by (auto simp: scp_bind_Inr scp_ok_Inr tuple_index_def make_tuple_def value_of_contents_def set_constant_def split: if_splits)
  note ih = Cons.IH[OF r(2)]
  have o: "outside (map ident_name xs) ?s1 s'" "scp_composites s' = scp_composites s" using ih Cons.prems(2) by auto
  have "ident_name x \<notin> set (map ident_name xs)" using Cons.prems(2) by simp
  then have "scp_constants s' (ident_name x) = scp_constants ?s1 (ident_name x)" using o(1) unfolding outside_def by blast
  then have "j + i < length vs \<and> scp_constants s' (ident_name ((x # xs) ! i)) = Some (vs ! (j + i))" if "i < length (x # xs)" for i
    using that ih Cons.prems(2) r(1) by (cases i) auto
  moreover have "outside (map ident_name (x # xs)) s s'" using o by (auto simp: outside_def)
  ultimately show ?case using o(2) by blast
qed (auto simp: outside_def)

lemma set_elements_other:
  "\<forall>vs. contents k \<noteq> V_Tuple vs \<Longrightarrow> set_elements k j is s = Inr (u, s') \<Longrightarrow> s' = s"
  by (induction "is" arbitrary: j s) (auto simp: scp_bind_Inr scp_ok_Inr tuple_index_def split: value_variants.splits)

lemma bind_names_at:
  "distinct (map ident_name is) \<Longrightarrow> length vs = length is \<Longrightarrow>
     (\<forall>i<length is. bind_names is vs \<rho> (ident_name (is ! i)) = vs ! i) \<and> (\<forall>x. x \<notin> set (map ident_name is) \<longrightarrow> bind_names is vs \<rho> x = \<rho> x)"
proof (induction "is" arbitrary: vs \<rho>)
  case (Cons i "is")
  then obtain v us where vs: "vs = v # us" by (cases vs) auto
  define \<rho>1 where "\<rho>1 = \<rho>(ident_name i := v)"
  have b: "bind_names (i # is) vs \<rho> = bind_names is us \<rho>1" "\<rho>1 (ident_name i) = v" "\<And>x. x \<noteq> ident_name i \<Longrightarrow> \<rho>1 x = \<rho> x"
    using vs by (simp_all add: \<rho>1_def)
  note ih = Cons.IH[of us \<rho>1]
  have "bind_names (i # is) vs \<rho> (ident_name ((i # is) ! n)) = vs ! n" if "n < length (i # is)" for n
    unfolding b(1) using that ih Cons.prems vs by (cases n) (auto simp: b(2))
  then show ?case unfolding b(1) using ih Cons.prems vs by (auto simp: b(3))
qed simp

lemma collect_at: "collect_opt (map f xs) = Some vs \<Longrightarrow> map_of (zip xs vs) m = Some r \<Longrightarrow> f m = Some r"
  unfolding collect_opt_Some_iff
proof (induction xs arbitrary: vs)
  case (Cons x xs)
  then show ?case by (cases vs) (auto split: if_splits)
qed simp

lemma collect_length: "collect_opt (map f xs) = Some vs \<Longrightarrow> length vs = length xs"
  unfolding collect_opt_Some_iff by (metis length_map)

lemma atom_fields_calm:
  "atom_fields inits atoms0 = Some atoms \<Longrightarrow> list_all (calm_field N D) inits \<Longrightarrow> atoms m = Some a \<Longrightarrow>
     atoms0 m = Some a \<or> is_ssa_atom a \<and> calm N D a"
  by (induction inits atoms0 rule: atom_fields.induct) (auto split: if_splits)

lemma atom_fields_eval:
  "atom_fields inits atoms0 = Some atoms \<Longrightarrow> eval_fields M comps inits \<rho> w = Some (listed, w1) \<Longrightarrow> atoms m = Some a \<Longrightarrow>
     (case map_of (rev listed) m of Some r \<Rightarrow> \<forall>w. eval M comps a \<rho> w = Some (r, w) | None \<Rightarrow> atoms0 m = Some a)"
proof (induction inits atoms0 arbitrary: w listed rule: atom_fields.induct)
  case (2 i e nid inits atoms0)
  from "2.prems" have at: "is_ssa_atom e" "atom_fields inits (atoms0(ident_name i \<mapsto> e)) = Some atoms" by (auto split: if_splits)
  from "2.prems"(2) obtain v w2 l where l: "eval M comps e \<rho> w = Some (v, w2)" "eval_fields M comps inits \<rho> w2 = Some (l, w1)"
    "listed = (ident_name i, v) # l" by (auto simp: eval_fields.simps bind_Some)
  have "eval M comps e \<rho> w' = Some (v, w')" for w' using at(1) l(1) by (auto simp: is_ssa_atom_def eval.simps split: expression.splits)
  then show ?case using "2.IH"[OF at l(2) "2.prems"(3)] l(3) by (auto simp: map_add_def split: option.splits if_splits)
qed (auto simp: eval_fields.simps)

lemma composite_member:
  assumes "eval M comps (E_Composite path cargs inits None nid) \<rho> w = Some (v, w1)" "atom_fields inits Map.empty = Some atoms"
    "atoms m = Some a" "m_member M m v = Some r"
  shows "eval M comps a \<rho> w' = Some (r, w')"
proof -
  from assms(1) obtain l w2 c vs where l: "eval_fields M comps inits \<rho> w = Some (l, w2)" and c: "Option.bind (try_global_location path) comps = Some c"
    and vs: "collect_opt (map (field_value M l None) (member_names c)) = Some vs" "m_op M (H_Composite path cargs) vs w2 = Some (v, w1)"
    by (auto simp: eval.simps eval_option.simps build_composite_def bind_Some)
  have "map_of (zip (member_names c) vs) m = Some r"
    using member_built[OF c _ vs(2)] collect_length[OF vs(1)] assms(4) by simp
  from collect_at[OF vs(1) this] have "map_of (rev l) m = Some r" by (simp add: field_value_def split: option.splits)
  then show ?thesis using atom_fields_eval[OF assms(2) l assms(3)] by simp
qed

text \<open>The definition of names with a value that is known, or of a composite of atoms.\<close>

definition tracks_definition ::
  "(symbol \<Rightarrow> bool) \<Rightarrow> symbol list \<Rightarrow> 'e scp_state \<Rightarrow> 'e scp_state \<Rightarrow> definition_place \<Rightarrow> expression \<times> 'e const_value option \<Rightarrow> bool" where
  "tracks_definition N D s s' place x \<longleftrightarrow> outside (declares place) s s' \<and> tracked N (rev (declares place) @ D) s' \<and>
     (\<forall>\<rho> w v w1 \<rho>1. knows D s \<rho> \<longrightarrow> eval M comps (fst x) \<rho> w = Some (v, w1) \<longrightarrow> (\<forall>k. snd x = Some k \<longrightarrow> v = den k) \<longrightarrow>
        define_place M place v \<rho> = Some \<rho>1 \<longrightarrow> knows (rev (declares place) @ D) s' \<rho>1 \<and> (\<forall>y\<in>set D. \<rho>1 y = \<rho> y))"

lemma define_keeps_names:
  assumes "define_place M place v \<rho> = Some \<rho>1" "names_new N D (declares place)"
  shows "\<forall>y\<in>set D. \<rho>1 y = \<rho> y"
proof (cases place)
  case (Multiple "is")
  then obtain vs where vs: "length vs = length is" "\<rho>1 = bind_names is vs \<rho>"
    using assms(1) by (auto simp: define_place_def bind_Some split: if_splits)
  moreover have "distinct (map ident_name is)" "\<forall>y\<in>set D. y \<notin> set (map ident_name is)"
    using assms(2) Multiple by (auto simp: names_new_def list_all_iff)
  ultimately show ?thesis using bind_names_at[of "is" vs \<rho>] by auto
qed (use assms in \<open>auto simp: define_place_def names_new_def\<close>)

lemma tracks_nothing:
  assumes t: "tracked N D s" and n: "names_new N D (declares place)" and u: "unmapped (declares place) s" and m: "same_maps s s'"
  shows "tracks_definition N D s s' place x"
proof -
  have x: "scp_constants s' y = None \<and> scp_composites s' y = None" if "y \<in> set (declares place)" for y
    using u m that by (simp add: unmapped_def same_maps_def)
  have o: "outside (declares place) s s'" using m by (rule outside_same)
  have ns: "set (declares place) \<inter> set D = {}" "list_all N (declares place)" using n by (auto simp: names_new_def list_all_iff)
  note e = extend_scope[OF t o ns, where D' = "rev (declares place) @ D"]
  show ?thesis unfolding tracks_definition_def
  proof (intro conjI allI impI)
    show "outside (declares place) s s'" by fact
    show "tracked N (rev (declares place) @ D) s'" by (rule e(1)) (use x in auto)
    fix \<rho> w v w1 \<rho>1 assume k: "knows D s \<rho>" and d: "define_place M place v \<rho> = Some \<rho>1"
    show same: "\<forall>y\<in>set D. \<rho>1 y = \<rho> y" using define_keeps_names[OF d n] .
    show "knows (rev (declares place) @ D) s' \<rho>1" by (rule e(2)[OF _ _ _ k same]) (use x in auto)
  qed
qed

lemma tracks_constant:
  assumes t: "tracked N D s" and n: "names_new N D [ident_name i]" and u: "unmapped [ident_name i] s" and k: "const_ok k"
  shows "tracks_definition N D s (s\<lparr>scp_constants := (scp_constants s)(ident_name i \<mapsto> k)\<rparr>) (Single i) (x, Some k)"
proof -
  let ?s = "s\<lparr>scp_constants := (scp_constants s)(ident_name i \<mapsto> k)\<rparr>"
  have o: "outside [ident_name i] s ?s" by (simp add: outside_def)
  have ns: "set [ident_name i] \<inter> set D = {}" "list_all N [ident_name i]" using n by (auto simp: names_new_def)
  note e = extend_scope[OF t o ns, where D' = "ident_name i # D"]
  show ?thesis unfolding tracks_definition_def
  proof (intro conjI allI impI)
    show "outside (declares (Single i)) s ?s" using o by simp
    have "tracked N (ident_name i # D) ?s" by (rule e(1)) (use u k in \<open>auto simp: unmapped_def\<close>)
    then show "tracked N (rev (declares (Single i)) @ D) ?s" by simp
    fix \<rho> w v w1 \<rho>1 assume kn: "knows D s \<rho>" and d: "define_place M (Single i) v \<rho> = Some \<rho>1"
      and v: "\<forall>ka. snd (x, Some k) = Some ka \<longrightarrow> v = den ka"
    show same: "\<forall>y\<in>set D. \<rho>1 y = \<rho> y" using define_keeps_names[OF d] n by simp
    have "knows (ident_name i # D) ?s \<rho>1" by (rule e(2)[OF _ _ _ kn same]) (use u k d v in \<open>auto simp: unmapped_def define_place_def\<close>)
    then show "knows (rev (declares (Single i)) @ D) ?s \<rho>1" by simp
  qed
qed

lemma tracks_composite:
  assumes t: "tracked N D s" and n: "names_new N D [ident_name i]" and u: "unmapped [ident_name i] s"
    and c: "calm N D (E_Composite path cargs inits base nid)" and a: "atom_fields inits Map.empty = Some atoms"
  shows "tracks_definition N D s (s\<lparr>scp_composites := (scp_composites s)(ident_name i \<mapsto> atoms)\<rparr>) (Single i)
    (E_Composite path cargs inits base nid, None)"
proof -
  let ?s = "s\<lparr>scp_composites := (scp_composites s)(ident_name i \<mapsto> atoms)\<rparr>"
  have o: "outside [ident_name i] s ?s" by (simp add: outside_def)
  have ns: "set [ident_name i] \<inter> set D = {}" "list_all N [ident_name i]" using n by (auto simp: names_new_def)
  have at: "is_ssa_atom e \<and> calm N D e" if "atoms m = Some e" for m e using atom_fields_calm[OF a _ that, of N D] c by simp
  have b: "base = None" using c by simp
  note e = extend_scope[OF t o ns, where D' = "ident_name i # D"]
  show ?thesis unfolding tracks_definition_def
  proof (intro conjI allI impI)
    show "outside (declares (Single i)) s ?s" using o by simp
    have "tracked N (ident_name i # D) ?s" by (rule e(1)) (use u at in \<open>auto simp: unmapped_def\<close>)
    then show "tracked N (rev (declares (Single i)) @ D) ?s" by simp
    fix \<rho> w v w1 \<rho>1 assume kn: "knows D s \<rho>" and d: "define_place M (Single i) v \<rho> = Some \<rho>1"
      and v: "eval M comps (fst (E_Composite path cargs inits base nid, None :: 'e const_value option)) \<rho> w = Some (v, w1)"
    show same: "\<forall>y\<in>set D. \<rho>1 y = \<rho> y" using define_keeps_names[OF d] n by simp
    have r: "\<rho>1 (ident_name i) = v" using d by (auto simp: define_place_def)
    have m: "eval M comps e1 \<rho> w' = Some (r, w')" if "atoms m = Some e1" "m_member M m v = Some r" for m e1 r w'
      using composite_member[of path cargs inits nid \<rho> w v w1 atoms m e1 r w'] v a that b by simp
    have "knows (ident_name i # D) ?s \<rho>1" by (rule e(2)[OF _ _ _ kn same]) (use u at r m in \<open>auto simp: unmapped_def\<close>)
    then show "knows (rev (declares (Single i)) @ D) ?s \<rho>1" by simp
  qed
qed

lemma tracks_elements:
  assumes t: "tracked N D s" and n: "names_new N D (map ident_name is)" and u: "unmapped (map ident_name is) s" and k: "const_ok k"
    and st: "set_elements k 0 is s = Inr (r, s')"
  shows "tracks_definition N D s s' (Multiple is) (x, Some k)"
proof (cases "\<exists>vs. contents k = V_Tuple vs")
  case False
  then have "s' = s" using set_elements_other[OF _ st] by blast
  then show ?thesis using tracks_nothing[OF t, of "Multiple is" s "(x, Some k)"] n u by simp
next
  case True
  then obtain vs where vs: "k = make_tuple vs" using k by (cases k) (auto simp: make_tuple_def value_of_contents_def)
  have ok: "list_all const_ok vs" using k vs by simp
  have dist: "distinct (map ident_name is)" using n by (simp add: names_new_def)
  note el = set_elements_tuple[OF st[unfolded vs] dist]
  have o: "outside (map ident_name is) s s'" using el by blast
  have ns: "set (map ident_name is) \<inter> set D = {}" "list_all N (map ident_name is)" using n by (auto simp: names_new_def list_all_iff)
  have at: "\<exists>i<length is. y = ident_name (is ! i) \<and> i < length vs \<and> scp_constants s' y = Some (vs ! i) \<and> scp_composites s' y = None"
    if "y \<in> set (map ident_name is)" for y
  proof -
    from that obtain i where "i < length is" "y = ident_name (is ! i)" by (auto simp: in_set_conv_nth)
    then show ?thesis using el u that unfolding unmapped_def by auto
  qed
  note e = extend_scope[OF t o ns, where D' = "rev (map ident_name is) @ D"]
  have c: "\<forall>y\<in>set (map ident_name is). \<forall>ka. scp_constants s' y = Some ka \<longrightarrow> const_ok ka"
    using at ok by (fastforce simp: list_all_length)
  have a: "\<forall>y\<in>set (map ident_name is). scp_composites s' y = None" using at by blast
  show ?thesis unfolding tracks_definition_def
  proof (intro conjI allI impI)
    show "outside (declares (Multiple is)) s s'" using o by simp
    have "tracked N (rev (map ident_name is) @ D) s'" by (rule e(1)[OF c]) (use a in auto)
    then show "tracked N (rev (declares (Multiple is)) @ D) s'" by simp
    fix \<rho> w v w1 \<rho>1 assume kn: "knows D s \<rho>" and d: "define_place M (Multiple is) v \<rho> = Some \<rho>1"
      and v: "\<forall>ka. snd (x, Some k) = Some ka \<longrightarrow> v = den ka"
    show same: "\<forall>y\<in>set D. \<rho>1 y = \<rho> y" using define_keeps_names[OF d] n by simp
    have "v = den (make_tuple vs)" using v vs by simp
    then have len: "length vs = length is" "\<rho>1 = bind_names is (map den vs) \<rho>"
      using d untuple[OF ok] by (auto simp: define_place_def split: if_splits)
    then have b: "\<forall>i<length is. \<rho>1 (ident_name (is ! i)) = den (vs ! i)" using bind_names_at[OF dist, of "map den vs" \<rho>] by simp
    have b': "\<rho>1 y = den ka" if "y \<in> set (map ident_name is)" "scp_constants s' y = Some ka" for y ka
      using at[OF that(1)] that(2) b by auto
    have "knows (rev (map ident_name is) @ D) s' \<rho>1" by (rule e(2)[OF c _ _ kn same]) (use a b' in auto)
    then show "knows (rev (declares (Multiple is)) @ D) s' \<rho>1" by simp
  qed
qed

lemma track_definition_keeps:
  assumes d: "track_definition place (fst x) (snd x) s = Inr (u, s')" and t: "tracked N D s" and n: "names_new N D (declares place)"
    and m: "unmapped (declares place) s" and r: "ready N D (fst x)" and k: "\<forall>k. snd x = Some k \<longrightarrow> const_ok k"
  shows "tracks_definition N D s s' place x"
proof (cases "snd x")
  case (Some k')
  then have x: "x = (fst x, Some k')" "const_ok k'" using k by (cases x, auto)
  show ?thesis
  proof (cases place)
    case (Single i)
    then show ?thesis using d Some n m tracks_constant[OF t, of i k' "fst x"] x by (simp add: track_definition_def set_constant_def)
  next
    case (Multiple "is")
    then show ?thesis using d Some n m tracks_elements[OF t, of "is" k' u s' "fst x"] x by (simp add: track_definition_def)
  qed
next
  case None
  consider (C) i path cargs inits base nid atoms where "place = Single i" "fst x = E_Composite path cargs inits base nid"
      "atom_fields inits Map.empty = Some atoms" "s' = s\<lparr>scp_composites := (scp_composites s)(ident_name i \<mapsto> atoms)\<rparr>"
    | (S) "s' = s"
    using d None by (auto simp: track_definition_def split: definition_place.splits expression.splits option.splits)
  then show ?thesis
  proof cases
    case C
    have x: "x = (E_Composite path cargs inits base nid, None)" using C(2) None by (cases x) auto
    have "calm N D (E_Composite path cargs inits base nid)" using r C(2) by simp
    then show ?thesis using tracks_composite[OF t _ _ _ C(3), of i path cargs base nid] n m C x by simp
  next
    case S
    then show ?thesis using tracks_nothing[OF t n m] by simp
  qed
qed

end

end
