(* ===== verification/Ssa_Const_Correct.thy ===== *)
theory Ssa_Const_Correct
  imports Ssa_Const_Stmts
begin

text \<open>
  Constant propagation refines statements and function bodies: where the original code does not halt, the new code does the
  same, and it is again in the form the pass expects.
\<close>

section \<open>Statements in single-assignment form\<close>

fun ready_assert :: "(symbol \<Rightarrow> bool) \<Rightarrow> symbol list \<Rightarrow> assert_variant \<Rightarrow> bool" where
  "ready_assert N D (Assert e) \<longleftrightarrow> ready N D e"
| "ready_assert N D (AssertEq a b) \<longleftrightarrow> ready N D a \<and> ready N D b"
| "ready_assert N D (AssertNeq a b) \<longleftrightarrow> ready N D a \<and> ready N D b"

fun scp_scoped :: "(symbol \<Rightarrow> bool) \<Rightarrow> symbol list \<Rightarrow> statement \<Rightarrow> symbol list option"
  and scp_scoped_list :: "(symbol \<Rightarrow> bool) \<Rightarrow> symbol list \<Rightarrow> statement list \<Rightarrow> symbol list option"
  and scp_scoped_option :: "(symbol \<Rightarrow> bool) \<Rightarrow> symbol list \<Rightarrow> statement option \<Rightarrow> bool"
where
  "scp_scoped N D (S_Assert variant _) = (if ready_assert N D variant then Some D else None)"
| "scp_scoped N D (S_Block (Block ss _)) = (if scp_scoped_list N D ss \<noteq> None then Some D else None)"
| "scp_scoped N D (S_Conditional c (Block ss _) otherwise _) =
     (if ready N D c \<and> scp_scoped_list N D ss \<noteq> None \<and> scp_scoped_option N D otherwise then Some D else None)"
| "scp_scoped N D (S_Definition place _ e _) =
     (if ready N D e \<and> names_new N D (declares place) then Some (rev (declares place) @ D) else None)"
| "scp_scoped N D (S_Expression e _) = (if ready N D e then Some D else None)"
| "scp_scoped N D (S_Return e _) = (if ready N D e then Some D else None)"
| "scp_scoped N D _ = None"
| "scp_scoped_list N D [] = Some D"
| "scp_scoped_list N D (st # sts) = (case scp_scoped N D st of None \<Rightarrow> None | Some D' \<Rightarrow> scp_scoped_list N D' sts)"
| "scp_scoped_option N D None \<longleftrightarrow> True"
| "scp_scoped_option N D (Some st) \<longleftrightarrow> is_branch st \<and> scp_scoped N D st \<noteq> None"

lemma branch_scoped: "is_branch st \<Longrightarrow> scp_scoped N D st = Some D' \<Longrightarrow> D' = D"
proof (cases st)
  case (S_Block b)
  then show "scp_scoped N D st = Some D' \<Longrightarrow> D' = D" by (cases b) (auto split: if_splits)
next
  case (S_Conditional c b oth nid)
  then show "scp_scoped N D st = Some D' \<Longrightarrow> D' = D" by (cases b) (auto split: if_splits)
qed auto

lemma scoped_definitions:
  "scp_scoped N D st = Some D' \<Longrightarrow> set (definitions st) \<inter> set D = {} \<and> set D \<subseteq> set D' \<and> (\<forall>x\<in>set D'. x \<in> set D \<or> N x)"
  "scp_scoped_list N D sts = Some D' \<Longrightarrow> set (definitions_list sts) \<inter> set D = {} \<and> set D \<subseteq> set D' \<and> (\<forall>x\<in>set D'. x \<in> set D \<or> N x)"
  "scp_scoped_option N D oth \<Longrightarrow> set (definitions_option oth) \<inter> set D = {}"
proof (induction N D st and N D sts and N D oth arbitrary: D' and D' rule: scp_scoped_scp_scoped_list_scp_scoped_option.induct)
  case (4 N D place ty e nid)
  then show ?case by (auto simp: names_new_def list_all_iff split: if_splits)
next
  case (9 N D st sts)
  then obtain D1 where D1: "scp_scoped N D st = Some D1" "scp_scoped_list N D1 sts = Some D'" by (auto split: option.splits)
  show ?case using "9.IH"(1)[OF D1(1)] "9.IH"(2)[OF D1] by auto
qed (auto split: if_splits)

section \<open>Runs\<close>

context folding_machine
begin

definition refines ::
  "symbol list \<Rightarrow> symbol list \<Rightarrow> 'e scp_state \<Rightarrow> 'e scp_state \<Rightarrow> ('v env \<Rightarrow> 'w \<Rightarrow> ('v, 'w) outcome) \<Rightarrow>
     ('v env \<Rightarrow> 'w \<Rightarrow> ('v, 'w) outcome) \<Rightarrow> bool" where
  "refines D D' s s' r r' \<longleftrightarrow>
     (\<forall>\<rho> w. knows D s \<rho> \<longrightarrow> r \<rho> w \<noteq> Halted \<longrightarrow>
        r' \<rho> w = r \<rho> w \<and> (\<forall>\<rho>1 w1. r \<rho> w = Running \<rho>1 w1 \<longrightarrow> knows D' s' \<rho>1 \<and> (\<forall>x\<in>set D. \<rho>1 x = \<rho> x)))"

text \<open>Code that defines \<open>xs\<close>, and the new code, that defines \<open>xs'\<close>.\<close>

definition stays ::
  "(symbol \<Rightarrow> bool) \<Rightarrow> symbol list \<Rightarrow> symbol list \<Rightarrow> symbol list \<Rightarrow> symbol list \<Rightarrow> 'e scp_state \<Rightarrow> 'e scp_state \<Rightarrow>
     ('v env \<Rightarrow> 'w \<Rightarrow> ('v, 'w) outcome) \<Rightarrow> ('v env \<Rightarrow> 'w \<Rightarrow> ('v, 'w) outcome) \<Rightarrow> bool" where
  "stays N D D' xs xs' s s' r r' \<longleftrightarrow>
     outside xs s s' \<and> tracked N D' s' \<and> set xs' \<subseteq> set xs \<and> distinct xs' \<and> refines D D' s s' r r'"

lemma refines_Running:
  assumes "refines D D' s s' r r'" "knows D s \<rho>" "r \<rho> w = Running \<rho>1 w1"
  shows "r' \<rho> w = Running \<rho>1 w1" "knows D' s' \<rho>1" "\<forall>x\<in>set D. \<rho>1 x = \<rho> x"
  using assms unfolding refines_def by (metis outcome.distinct(3))+

lemma refines_Returned: "refines D D' s s' r r' \<Longrightarrow> knows D s \<rho> \<Longrightarrow> r \<rho> w = Returned v w1 \<Longrightarrow> r' \<rho> w = Returned v w1"
  unfolding refines_def by (metis outcome.distinct(1))

lemma stays_leave:
  assumes "stays N D D' xs xs' s s' r r'" "tracked N D s" "set xs \<inter> set D = {}"
  shows "stays N D D xs xs' s s' r r'"
proof -
  have o: "outside xs s s'" "tracked N D' s'" using assms(1) by (simp_all add: stays_def)
  have "knows D s' \<rho>1" if "knows D s \<rho>" "\<forall>x\<in>set D. \<rho>1 x = \<rho> x" for \<rho> \<rho>1
    using leave_scope(2)[OF assms(2) o(2,1) assms(3) that] .
  then have "refines D D s s' r r'" using assms(1) unfolding stays_def refines_def by blast
  then show ?thesis using assms(1) leave_scope(1)[OF assms(2) o(2,1) assms(3)] by (simp add: stays_def)
qed

lemma stays_seq:
  assumes a: "stays N D D1 xs xs' s s1 r r'" and b: "stays N D1 D2 ys ys' s1 s2 q q'" and D: "set D \<subseteq> set D1" "distinct (xs @ ys)"
  shows "stays N D D2 (xs @ ys) (xs' @ ys') s s2 (\<lambda>\<rho> w. continue_with (r \<rho> w) q) (\<lambda>\<rho> w. continue_with (r' \<rho> w) q')"
proof -
  have ra: "refines D D1 s s1 r r'" and rb: "refines D1 D2 s1 s2 q q'" using a b by (simp_all add: stays_def)
  have "refines D D2 s s2 (\<lambda>\<rho> w. continue_with (r \<rho> w) q) (\<lambda>\<rho> w. continue_with (r' \<rho> w) q')"
    unfolding refines_def
  proof (intro allI impI)
    fix \<rho> w assume k: "knows D s \<rho>" and h: "continue_with (r \<rho> w) q \<noteq> Halted"
    show "continue_with (r' \<rho> w) q' = continue_with (r \<rho> w) q \<and>
      (\<forall>\<rho>1 w1. continue_with (r \<rho> w) q = Running \<rho>1 w1 \<longrightarrow> knows D2 s2 \<rho>1 \<and> (\<forall>x\<in>set D. \<rho>1 x = \<rho> x))"
    proof (cases "r \<rho> w")
      case (Running \<rho>1 w1)
      note r1 = refines_Running[OF ra k Running]
      have "q \<rho>1 w1 \<noteq> Halted" using h Running by simp
      then have "q' \<rho>1 w1 = q \<rho>1 w1 \<and> (\<forall>\<rho>2 w2. q \<rho>1 w1 = Running \<rho>2 w2 \<longrightarrow> knows D2 s2 \<rho>2 \<and> (\<forall>x\<in>set D1. \<rho>2 x = \<rho>1 x))"
        using rb r1(2) unfolding refines_def by blast
      then show ?thesis using Running r1 D(1) by auto
    next
      case (Returned v w1)
      then show ?thesis using refines_Returned[OF ra k Returned] by simp
    qed (use h in simp)
  qed
  moreover have "outside (xs @ ys) s s2" using a b outside_trans[of xs s s1 ys s2 "xs @ ys"] by (simp add: stays_def)
  ultimately show ?thesis using a b D(2) unfolding stays_def by auto
qed

text \<open>A statement that evaluates expressions, and defines no names.\<close>

lemma stays_same:
  assumes "same_maps s s'" "tracked N D s"
    "\<And>\<rho> w. knows D s \<rho> \<Longrightarrow> r \<rho> w \<noteq> Halted \<Longrightarrow> r' \<rho> w = r \<rho> w \<and> (\<forall>\<rho>1 w1. r \<rho> w = Running \<rho>1 w1 \<longrightarrow> \<rho>1 = \<rho>)"
  shows "stays N D D [] [] s s' r r'"
  using assms maps_tracked[OF assms(1)] by (auto simp: stays_def refines_def outside_same)

lemma keeps_readyD:
  assumes "keeps_ready N D s s' e x"
  shows "same_maps s s'" "ready N D (fst x)" "knows D s \<rho> \<Longrightarrow> eval M comps e \<rho> w = Some (v, w1) \<Longrightarrow> eval M comps (fst x) \<rho> w = Some (v, w1)"
    "tracked N D s' = tracked N D s"
  using assms maps_tracked(1) by (auto simp: keeps_ready_def)

lemma keeps_ready_after: "keeps_ready N D s1 s2 e x \<Longrightarrow> same_maps s s1 \<Longrightarrow> keeps_ready N D s s2 e x"
  using maps_tracked(2) same_maps_trans unfolding keeps_ready_def by blast

lemma assert_stays:
  assumes N: "\<forall>x\<in>set D. N x" "\<not> N ''self''" and v: "scp_assert env variant s = Inr (variant', s')"
    and r: "ready_assert N D variant" and t: "tracked N D s"
  shows "ready_assert N D variant' \<and> stays N D D [] [] s s' (check_assert M comps variant) (check_assert M comps variant')"
proof -
  have two: "same_maps s s2 \<and> ready N D (fst ra) \<and> ready N D (fst rb) \<and>
      (\<forall>\<rho> w r. knows D s \<rho> \<longrightarrow> eval_list M comps [a, b] \<rho> w = Some r \<longrightarrow> eval_list M comps [fst ra, fst rb] \<rho> w = Some r)"
    if "scp_expr env a s = Inr (ra, s1)" "scp_expr env b s1 = Inr (rb, s2)" "ready N D a" "ready N D b" for a b ra rb s1 s2
  proof -
    note ka = scp_ready_keeps[OF N that(1,3) t]
    have "tracked N D s1" using keeps_readyD(4)[OF ka] t by simp
    note kb = keeps_ready_after[OF scp_ready_keeps[OF N that(2,4) this] keeps_readyD(1)[OF ka]]
    show ?thesis using keeps_readyD(1,2)[OF kb] keeps_readyD(2)[OF ka] keeps_readyD(3)[OF ka] keeps_readyD(3)[OF kb]
      by (fastforce simp: eval_list.simps bind_Some)
  qed
  show ?thesis
  proof (cases variant)
    case (Assert e)
    then obtain x where x: "scp_expr env e s = Inr (x, s')" "variant' = Assert (fst x)" "ready N D e" using v r by (auto simp: scp_bind_Inr)
    note k = scp_ready_keeps[OF N x(1,3) t]
    have "stays N D D [] [] s s' (check_assert M comps variant) (check_assert M comps variant')"
      by (rule stays_same[OF keeps_readyD(1)[OF k] t]) (use keeps_readyD(3)[OF k] x Assert in \<open>auto simp: check_assert_def split: option.splits if_splits\<close>)
    then show ?thesis using x keeps_readyD(2)[OF k] by simp
  next
    case (AssertEq a b)
    then obtain ra s1 rb where x: "scp_expr env a s = Inr (ra, s1)" "scp_expr env b s1 = Inr (rb, s')" "variant' = AssertEq (fst ra) (fst rb)"
      "ready N D a" "ready N D b" using v r by (auto simp: scp_bind_Inr)
    note k = two[OF x(1,2,4,5)]
    have "stays N D D [] [] s s' (check_assert M comps variant) (check_assert M comps variant')"
      by (rule stays_same) (use k t x AssertEq in \<open>auto simp: check_assert_def split: option.splits if_splits\<close>)
    then show ?thesis using x k by simp
  next
    case (AssertNeq a b)
    then obtain ra s1 rb where x: "scp_expr env a s = Inr (ra, s1)" "scp_expr env b s1 = Inr (rb, s')" "variant' = AssertNeq (fst ra) (fst rb)"
      "ready N D a" "ready N D b" using v r by (auto simp: scp_bind_Inr)
    note k = two[OF x(1,2,4,5)]
    have "stays N D D [] [] s s' (check_assert M comps variant) (check_assert M comps variant')"
      by (rule stays_same) (use k t x AssertNeq in \<open>auto simp: check_assert_def split: option.splits if_splits\<close>)
    then show ?thesis using x k by simp
  qed
qed

lemma definition_stays:
  assumes N: "\<forall>x\<in>set D. N x" "\<not> N ''self''" and x: "scp_statement env (S_Definition place ty e nid) s = Inr (st', s')"
    and r: "ready N D e" "names_new N D (declares place)" and t: "tracked N D s" and u: "unmapped (declares place) s"
  shows "\<exists>e'. st' = S_Definition place ty e' nid \<and> ready N D e' \<and>
    stays N D (rev (declares place) @ D) (declares place) (declares place) s s' (exec M comps (S_Definition place ty e nid)) (exec M comps st')"
proof -
  from x obtain y s1 v where y: "scp_expr env e s = Inr (y, s1)" "track_definition place (fst y) (snd y) s1 = Inr (v, s')"
    "st' = S_Definition place ty (fst y) nid" by (auto simp: scp_bind_Inr)
  note k = scp_ready_keeps[OF N y(1) r(1) t]
  have s1: "same_maps s s1" "tracked N D s1" "unmapped (declares place) s1" using keeps_readyD[OF k] t u unmapped_same by auto
  have "tracks_definition N D s1 s' place y"
    by (rule track_definition_keeps[OF y(2) s1(2) r(2) s1(3)]) (use k in \<open>auto simp: keeps_ready_def\<close>)
  note td = this[unfolded tracks_definition_def]
  have "refines D (rev (declares place) @ D) s s' (exec M comps (S_Definition place ty e nid)) (exec M comps st')"
    unfolding refines_def
  proof (intro allI impI)
    fix \<rho> w assume kn: "knows D s \<rho>" and h: "exec M comps (S_Definition place ty e nid) \<rho> w \<noteq> Halted"
    then obtain a w1 \<rho>1 where a: "eval M comps e \<rho> w = Some (a, w1)" "define_place M place a \<rho> = Some \<rho>1"
      by (auto simp: run_with_def split: option.splits)
    have b: "eval M comps (fst y) \<rho> w = Some (a, w1)" "\<forall>c. snd y = Some c \<longrightarrow> a = den c" using k kn a(1) unfolding keeps_ready_def by blast+
    have "knows D s1 \<rho>" using kn maps_tracked(2)[OF s1(1)] by simp
    then have "knows (rev (declares place) @ D) s' \<rho>1" "\<forall>x\<in>set D. \<rho>1 x = \<rho> x" using td b a(2) by blast+
    then show "exec M comps st' \<rho> w = exec M comps (S_Definition place ty e nid) \<rho> w \<and>
        (\<forall>\<rho>2 w2. exec M comps (S_Definition place ty e nid) \<rho> w = Running \<rho>2 w2 \<longrightarrow>
           knows (rev (declares place) @ D) s' \<rho>2 \<and> (\<forall>x\<in>set D. \<rho>2 x = \<rho> x))"
      using a b(1) y(3) by (simp add: run_with_def)
  qed
  moreover have "outside (declares place) s s'" using td outside_trans[OF outside_same[OF s1(1), of "[]"]] by auto
  ultimately have "stays N D (rev (declares place) @ D) (declares place) (declares place) s s' (exec M comps (S_Definition place ty e nid)) (exec M comps st')"
    using td r(2) by (simp add: stays_def names_new_def)
  then show ?thesis using y(3) keeps_readyD(2)[OF k] by blast
qed

text \<open>Conditionals: a branch is taken when the condition is known, and both are kept otherwise.\<close>

lemma stays_runs:
  assumes "stays N D D' xs xs' s1 s' r r'" "same_maps s s1" "set xs \<subseteq> set zs"
    "\<And>\<rho> w. knows D s \<rho> \<Longrightarrow> q \<rho> w \<noteq> Halted \<Longrightarrow> q \<rho> w = r \<rho> w \<and> q' \<rho> w = r' \<rho> w"
  shows "stays N D D' zs xs' s s' q q'"
proof -
  have "refines D D' s s' q q'" using assms(1,4) maps_tracked(2)[OF assms(2)] unfolding stays_def refines_def by metis
  moreover have "outside zs s s'" using assms(1-3) outside_trans[OF outside_same[OF assms(2), of "[]"], of xs s' zs] by (simp add: stays_def)
  ultimately show ?thesis using assms(1,3) by (auto simp: stays_def)
qed

lemma ready_bool:
  assumes "keeps_ready N D s s' e x" "value_bool (snd x) = Some b" "knows D s \<rho>" "eval M comps e \<rho> w = Some (v, w1)"
  shows "m_truth M v = Some b" "w1 = w"
proof -
  from assms(2) obtain k where k: "snd x = Some k" "try_literal k = Some (L_Boolean b)"
    by (auto simp: value_bool_def split: option.splits svm_literal.splits)
  have a: "const_ok k" "v = den k" "w1 = w" using assms(1,3,4) k(1) unfolding keeps_ready_def by blast+
  then show "m_truth M v = Some b" "w1 = w" using try_literal_const[OF a(1) k(2)] truth by auto
qed

definition run_if :: "expression \<Rightarrow> ('v env \<Rightarrow> 'w \<Rightarrow> ('v, 'w) outcome) \<Rightarrow> ('v env \<Rightarrow> 'w \<Rightarrow> ('v, 'w) outcome) \<Rightarrow> 'v env \<Rightarrow> 'w \<Rightarrow> ('v, 'w) outcome" where
  "run_if c r q \<rho> w =
     (case eval M comps c \<rho> w of
        None \<Rightarrow> Halted
      | Some (v, w1) \<Rightarrow> (case m_truth M v of None \<Rightarrow> Halted | Some True \<Rightarrow> r \<rho> w1 | Some False \<Rightarrow> q \<rho> w1))"

lemma run_if_known:
  assumes "keeps_ready N D s s' c x" "value_bool (snd x) = Some b" "knows D s \<rho>" "run_if c r q \<rho> w \<noteq> Halted"
  shows "run_if c r q \<rho> w = (if b then r \<rho> w else q \<rho> w)"
proof (cases "eval M comps c \<rho> w")
  case (Some p)
  obtain v w1 where p: "p = (v, w1)" by (cases p)
  then show ?thesis using ready_bool[OF assms(1-3), of w v w1] Some by (simp add: run_if_def)
qed (use assms(4) in \<open>simp add: run_if_def\<close>)

lemma run_if_stays:
  assumes k: "keeps_ready N D s s1 c x" and a: "stays N D D xs xs' s1 s2 r r'" and b: "stays N D D ys ys' s2 s3 q q'"
    and t: "tracked N D s" and dist: "distinct (xs @ ys)" and D: "set xs \<inter> set D = {}" "set ys \<inter> set D = {}"
  shows "stays N D D (xs @ ys) (xs' @ ys') s s3 (run_if c r q) (run_if (fst x) r' q')"
proof -
  have s1: "same_maps s s1" "tracked N D s1" using keeps_readyD[OF k] t by auto
  have o: "outside xs s1 s2" "tracked N D s2" "outside ys s2 s3" "tracked N D s3" using a b by (simp_all add: stays_def)
  have "run_if (fst x) r' q' \<rho> w = run_if c r q \<rho> w \<and>
      (\<forall>\<rho>1 w1. run_if c r q \<rho> w = Running \<rho>1 w1 \<longrightarrow> knows D s3 \<rho>1 \<and> (\<forall>y\<in>set D. \<rho>1 y = \<rho> y))"
    if kn: "knows D s \<rho>" and h: "run_if c r q \<rho> w \<noteq> Halted" for \<rho> w
  proof -
    from h obtain v w1 tr where v: "eval M comps c \<rho> w = Some (v, w1)" "m_truth M v = Some tr"
      by (auto simp: run_if_def split: option.splits)
    have e: "eval M comps (fst x) \<rho> w = Some (v, w1)" using keeps_readyD(3)[OF k kn v(1)] .
    have k1: "knows D s1 \<rho>" using kn maps_tracked(2)[OF s1(1)] by simp
    have k2: "knows D s2 \<rho>" using leave_scope(2)[OF s1(2) o(2,1) D(1) k1] by simp
    show ?thesis
    proof (cases tr)
      case True
      have "r \<rho> w1 \<noteq> Halted" using h v True by (simp add: run_if_def)
      then have r: "r' \<rho> w1 = r \<rho> w1" "\<And>\<rho>1 w2. r \<rho> w1 = Running \<rho>1 w2 \<Longrightarrow> knows D s2 \<rho>1 \<and> (\<forall>y\<in>set D. \<rho>1 y = \<rho> y)"
        using a k1 unfolding stays_def refines_def by blast+
      have "knows D s3 \<rho>1" if "r \<rho> w1 = Running \<rho>1 w2" for \<rho>1 w2
        using leave_scope(2)[OF o(2,4,3) D(2), of \<rho>1 \<rho>1] r(2)[OF that] by simp
      then show ?thesis using v e True r by (simp add: run_if_def)
    next
      case False
      have "q \<rho> w1 \<noteq> Halted" using h v False by (simp add: run_if_def)
      then have "q' \<rho> w1 = q \<rho> w1" "\<And>\<rho>1 w2. q \<rho> w1 = Running \<rho>1 w2 \<Longrightarrow> knows D s3 \<rho>1 \<and> (\<forall>y\<in>set D. \<rho>1 y = \<rho> y)"
        using b k2 unfolding stays_def refines_def by blast+
      then show ?thesis using v e False by (simp add: run_if_def)
    qed
  qed
  then have "refines D D s s3 (run_if c r q) (run_if (fst x) r' q')" unfolding refines_def by blast
  moreover have "outside (xs @ ys) s1 s3" using outside_trans[OF o(1,3)] by simp
  then have "outside (xs @ ys) s s3" using outside_trans[OF outside_same[OF s1(1), of "[]"]] by simp
  ultimately show ?thesis using a b dist unfolding stays_def by auto
qed

section \<open>The traversal of statements\<close>

lemma scp_block_Inr: "scp_block env (Block ss nid) s = Inr (b, s') \<longleftrightarrow> (\<exists>ss'. scp_seq (map (scp_statement env) ss) s = Inr (ss', s') \<and> b = Block ss' nid)"
  by (auto simp: scp_bind_Inr)

lemma exec_forms:
  "exec M comps (S_Block (Block ss nid)) = exec_list M comps ss"
  "exec M comps (S_Conditional c (Block ss bid) oth nid) = run_if c (exec_list M comps ss) (exec_option M comps oth)"
  "exec M comps (S_Assert variant nid) = check_assert M comps variant"
  "exec_list M comps (st # sts) = (\<lambda>\<rho> w. continue_with (exec M comps st \<rho> w) (exec_list M comps sts))"
  "exec_option M comps (Some st) = exec M comps st"
  by (auto simp: fun_eq_iff run_if_def split: option.splits bool.splits)

lemma conditional_stays:
  assumes N: "\<forall>x\<in>set D. N x" "\<not> N ''self''"
    and x: "scp_statement env (S_Conditional c (Block ss bid) oth nid) s = Inr (st', s')" and rc: "ready N D c" and t: "tracked N D s"
    and u: "unmapped (definitions_list ss @ definitions_option oth) s"
    and D: "set (definitions_list ss) \<inter> set D = {}" "set (definitions_option oth) \<inter> set D = {}"
    and th: "\<And>s ss' s'. scp_seq (map (scp_statement env) ss) s = Inr (ss', s') \<Longrightarrow> tracked N D s \<Longrightarrow> unmapped (definitions_list ss) s \<Longrightarrow>
      scp_scoped_list N D ss' \<noteq> None \<and> stays N D D (definitions_list ss) (definitions_list ss') s s' (exec_list M comps ss) (exec_list M comps ss')"
    and el: "\<And>s oth' s'. scp_seq_option (map_option (scp_statement env) oth) s = Inr (oth', s') \<Longrightarrow> tracked N D s \<Longrightarrow> unmapped (definitions_option oth) s \<Longrightarrow>
      scp_scoped_option N D oth' \<and> stays N D D (definitions_option oth) (definitions_option oth') s s' (exec_option M comps oth) (exec_option M comps oth')"
  shows "is_branch st' \<and> scp_scoped N D st' = Some D \<and>
    stays N D D (definitions_list ss @ definitions_option oth) (definitions st') s s' (exec M comps (S_Conditional c (Block ss bid) oth nid)) (exec M comps st')"
proof -
  from x obtain y s1 where y: "scp_expr env c s = Inr (y, s1)" by (auto simp: scp_bind_Inr)
  note k = scp_ready_keeps[OF N y rc t]
  have s1: "same_maps s s1" "tracked N D s1" "unmapped (definitions_list ss @ definitions_option oth) s1"
    using keeps_readyD[OF k] t u unmapped_same by auto
  then have u1: "unmapped (definitions_list ss) s1" "unmapped (definitions_option oth) s1" by (auto simp: unmapped_def)
  let ?c = "s1\<lparr>scp_changed := True\<rparr>"
  have c: "same_maps s ?c" "tracked N D ?c" "unmapped (definitions_list ss) ?c" "unmapped (definitions_option oth) ?c"
    using s1 u1 by (auto simp: same_maps_def tracked_def unmapped_def)
  consider (T) "value_bool (snd y) = Some True" | (F) "value_bool (snd y) = Some False" | (U) "value_bool (snd y) = None"
    by (cases "value_bool (snd y)") auto
  then show ?thesis
  proof cases
    case T
    with x y obtain ss' where ss': "scp_seq (map (scp_statement env) ss) ?c = Inr (ss', s')" "st' = S_Block (Block ss' bid)"
      by (auto simp: scp_bind_Inr)
    note h = th[OF ss'(1) c(2,3)]
    have "stays N D D (definitions_list ss @ definitions_option oth) (definitions_list ss') s s'
        (run_if c (exec_list M comps ss) (exec_option M comps oth)) (exec_list M comps ss')"
      by (rule stays_runs[OF conjunct2[OF h] c(1)]) (use run_if_known[OF k T] in auto)
    then show ?thesis using h ss'(2) by (auto simp: exec_forms)
  next
    case F
    with x y obtain oth' where o: "scp_seq_option (map_option (scp_statement env) oth) ?c = Inr (oth', s')"
      "st' = (case oth' of Some st \<Rightarrow> st | None \<Rightarrow> statement_dummy)"
      by (auto simp: scp_bind_Inr)
    note h = el[OF o(1) c(2,4)]
    have st: "stays N D D (definitions_list ss @ definitions_option oth) (definitions_option oth') s s'
        (run_if c (exec_list M comps ss) (exec_option M comps oth)) (exec_option M comps oth')"
      by (rule stays_runs[OF conjunct2[OF h] c(1)]) (use run_if_known[OF k F] in auto)
    show ?thesis
    proof (cases oth')
      case None
      have "exec_option M comps None = exec M comps statement_dummy" by (auto simp: statement_dummy_def fun_eq_iff)
      then show ?thesis using st o(2) None by (simp add: exec_forms statement_dummy_def)
    next
      case (Some a)
      then show ?thesis using st h o(2) branch_scoped[of a N D] by (auto simp: exec_forms)
    qed
  next
    case U
    with x y obtain ss' s2 oth' where o: "scp_seq (map (scp_statement env) ss) s1 = Inr (ss', s2)"
      "scp_seq_option (map_option (scp_statement env) oth) s2 = Inr (oth', s')" "st' = S_Conditional (fst y) (Block ss' bid) oth' nid"
      by (auto simp: scp_bind_Inr)
    note h1 = th[OF o(1) s1(2) u1(1)]
    have s2: "tracked N D s2" "outside (definitions_list ss) s1 s2" using h1 by (simp_all add: stays_def)
    have "unmapped (definitions_option oth) s2" using unmapped_append[OF s1(3) s2(2)] by simp
    note h2 = el[OF o(2) s2(1) this]
    have dist: "distinct (definitions_list ss @ definitions_option oth)" using u by (simp add: unmapped_def)
    show ?thesis using run_if_stays[OF k _ _ t dist D, of "definitions_list ss'" s2] h1 h2 o(3) keeps_readyD(2)[OF k] by (auto simp: exec_forms)
  qed
qed

lemma scp_keeps:
  assumes self: "\<not> N ''self''"
  shows "scp_statement env st s = Inr (st', s') \<Longrightarrow> scp_scoped N D st = Some D' \<Longrightarrow> \<forall>x\<in>set D. N x \<Longrightarrow> tracked N D s \<Longrightarrow>
      unmapped (definitions st) s \<Longrightarrow> (is_branch st \<longrightarrow> is_branch st') \<and> scp_scoped N D st' = Some D' \<and>
      stays N D D' (definitions st) (definitions st') s s' (exec M comps st) (exec M comps st')"
    and "scp_seq (map (scp_statement env) sts) s = Inr (sts', s') \<Longrightarrow> scp_scoped_list N D sts = Some D' \<Longrightarrow> \<forall>x\<in>set D. N x \<Longrightarrow> tracked N D s \<Longrightarrow>
      unmapped (definitions_list sts) s \<Longrightarrow> scp_scoped_list N D sts' = Some D' \<and>
      stays N D D' (definitions_list sts) (definitions_list sts') s s' (exec_list M comps sts) (exec_list M comps sts')"
    and "scp_seq_option (map_option (scp_statement env) oth) s = Inr (oth', s') \<Longrightarrow> scp_scoped_option N D oth \<Longrightarrow> \<forall>x\<in>set D. N x \<Longrightarrow> tracked N D s \<Longrightarrow>
      unmapped (definitions_option oth) s \<Longrightarrow> scp_scoped_option N D oth' \<and>
      stays N D D (definitions_option oth) (definitions_option oth') s s' (exec_option M comps oth) (exec_option M comps oth')"
  using self
  supply exec.simps [simp del] exec_list.simps [simp del] exec_option.simps [simp del]
proof (induction N D st and N D sts and N D oth arbitrary: s st' s' D' and s sts' s' D' and s oth' s'
    rule: scp_scoped_scp_scoped_list_scp_scoped_option.induct)
  case (1 N D variant nid)
  from "1.prems" obtain v' where v: "scp_assert env variant s = Inr (v', s')" "st' = S_Assert v' nid" "ready_assert N D variant" "D' = D"
    by (auto simp: scp_bind_Inr split: if_splits)
  show ?case using assert_stays[OF "1.prems"(3,6) v(1,3) "1.prems"(4)] v by (simp add: exec_forms)
next
  case (2 N D ss nid)
  from "2.prems" obtain ss' D1 where b: "scp_seq (map (scp_statement env) ss) s = Inr (ss', s')" "st' = S_Block (Block ss' nid)"
    "scp_scoped_list N D ss = Some D1" "D' = D" by (auto simp: scp_bind_Inr split: if_splits)
  have h: "scp_scoped_list N D ss' = Some D1" "stays N D D1 (definitions_list ss) (definitions_list ss') s s' (exec_list M comps ss) (exec_list M comps ss')"
    using "2.IH"[OF b(1,3) "2.prems"(3,4) _ "2.prems"(6)] "2.prems"(5) by auto
  show ?case using stays_leave[OF h(2) "2.prems"(4)] scoped_definitions(2)[OF b(3)] h(1) b by (simp add: exec_forms)
next
  case (3 N D c ss bid otherwise nid)
  from "3.prems"(2) obtain D1 where c: "ready N D c" "scp_scoped_list N D ss = Some D1" "scp_scoped_option N D otherwise" "D' = D" by (auto split: if_splits)
  have defs: "set (definitions_list ss) \<inter> set D = {}" "set (definitions_option otherwise) \<inter> set D = {}"
    using scoped_definitions(2)[OF c(2)] scoped_definitions(3)[OF c(3)] by auto
  have "is_branch st' \<and> scp_scoped N D st' = Some D \<and> stays N D D (definitions_list ss @ definitions_option otherwise) (definitions st') s s'
      (exec M comps (S_Conditional c (Block ss bid) otherwise nid)) (exec M comps st')"
  proof (rule conditional_stays[OF "3.prems"(3,6,1) c(1) "3.prems"(4) _ defs])
    show "unmapped (definitions_list ss @ definitions_option otherwise) s" using "3.prems"(5) by simp
    fix t ss' t' assume x: "scp_seq (map (scp_statement env) ss) t = Inr (ss', t')" "tracked N D t" "unmapped (definitions_list ss) t"
    show "scp_scoped_list N D ss' \<noteq> None \<and> stays N D D (definitions_list ss) (definitions_list ss') t t' (exec_list M comps ss) (exec_list M comps ss')"
      using "3.IH"(1)[OF x(1) c(2) "3.prems"(3) x(2,3) "3.prems"(6)] stays_leave[OF _ x(2) defs(1)] by auto
  next
    fix t oth' t' assume x: "scp_seq_option (map_option (scp_statement env) otherwise) t = Inr (oth', t')" "tracked N D t"
      "unmapped (definitions_option otherwise) t"
    show "scp_scoped_option N D oth' \<and> stays N D D (definitions_option otherwise) (definitions_option oth') t t'
        (exec_option M comps otherwise) (exec_option M comps oth')"
      using "3.IH"(2)[OF x(1) c(3) "3.prems"(3) x(2,3) "3.prems"(6)] c(2) by simp
  qed
  then show ?case using c(4) by simp
next
  case (4 N D place ty e nid)
  from "4.prems"(2) have e: "ready N D e" "names_new N D (declares place)" "D' = rev (declares place) @ D" by (auto split: if_splits)
  show ?case using definition_stays[OF "4.prems"(3,6,1) e(1,2) "4.prems"(4)] "4.prems"(5) e by auto
next
  case (5 N D e nid)
  from "5.prems" obtain x where x: "scp_expr env e s = Inr (x, s')" "st' = S_Expression (fst x) nid" "ready N D e" "D' = D"
    by (auto simp: scp_bind_Inr split: if_splits)
  note k = scp_ready_keeps[OF "5.prems"(3,6) x(1,3) "5.prems"(4)]
  have "stays N D D [] [] s s' (exec M comps (S_Expression e nid)) (exec M comps (S_Expression (fst x) nid))"
    by (rule stays_same[OF keeps_readyD(1)[OF k] "5.prems"(4)]) (use keeps_readyD(3)[OF k] in \<open>auto simp: exec.simps split: option.splits\<close>)
  then show ?case using x keeps_readyD(2)[OF k] by simp
next
  case (6 N D e nid)
  from "6.prems" obtain x where x: "scp_expr env e s = Inr (x, s')" "st' = S_Return (fst x) nid" "ready N D e" "D' = D"
    by (auto simp: scp_bind_Inr split: if_splits)
  note k = scp_ready_keeps[OF "6.prems"(3,6) x(1,3) "6.prems"(4)]
  have "stays N D D [] [] s s' (exec M comps (S_Return e nid)) (exec M comps (S_Return (fst x) nid))"
    by (rule stays_same[OF keeps_readyD(1)[OF k] "6.prems"(4)]) (use keeps_readyD(3)[OF k] in \<open>auto simp: exec.simps split: option.splits\<close>)
  then show ?case using x keeps_readyD(2)[OF k] by simp
next
  case (8 N D)
  have "stays N D D [] [] s s (exec_list M comps []) (exec_list M comps [])" by (rule stays_same) (use "8.prems"(4) in \<open>auto simp: exec_list.simps exec_option.simps\<close>)
  then show ?case using "8.prems" by simp
next
  case (9 N D st sts)
  from "9.prems" obtain st1 s1 sts1 D1 where d: "scp_statement env st s = Inr (st1, s1)" "scp_seq (map (scp_statement env) sts) s1 = Inr (sts1, s')"
    "sts' = st1 # sts1" "scp_scoped N D st = Some D1" "scp_scoped_list N D1 sts = Some D'" by (auto simp: scp_bind_Inr split: option.splits)
  have u: "unmapped (definitions st @ definitions_list sts) s" using "9.prems"(5) by simp
  then have u1: "unmapped (definitions st) s" "distinct (definitions st @ definitions_list sts)" by (auto simp: unmapped_def)
  have hd: "scp_scoped N D st1 = Some D1" "stays N D D1 (definitions st) (definitions st1) s s1 (exec M comps st) (exec M comps st1)"
    using "9.IH"(1)[OF d(1,4) "9.prems"(3,4) u1(1) "9.prems"(6)] by auto
  have s1: "tracked N D1 s1" "unmapped (definitions_list sts) s1" using hd(2) unmapped_append[OF u] by (auto simp: stays_def)
  have D1: "set D \<subseteq> set D1" "\<forall>x\<in>set D1. N x" using scoped_definitions(1)[OF d(4)] "9.prems"(3) by auto
  have tl: "scp_scoped_list N D1 sts1 = Some D'"
    "stays N D1 D' (definitions_list sts) (definitions_list sts1) s1 s' (exec_list M comps sts) (exec_list M comps sts1)"
    using "9.IH"(2)[OF d(4,2,5) D1(2) s1 "9.prems"(6)] by auto
  show ?case using stays_seq[OF hd(2) tl(2) D1(1) u1(2)] hd(1) tl(1) d(3) by (simp add: exec_forms)
next
  case (10 N D)
  have "stays N D D [] [] s s (exec_option M comps None) (exec_option M comps None)" by (rule stays_same) (use "10.prems"(4) in \<open>auto simp: exec_list.simps exec_option.simps\<close>)
  then show ?case using "10.prems" by simp
next
  case (11 N D st)
  from "11.prems" obtain st1 D1 where d: "scp_statement env st s = Inr (st1, s')" "oth' = Some st1" "is_branch st" "scp_scoped N D st = Some D1"
    by (auto simp: scp_bind_Inr)
  have h: "is_branch st1" "scp_scoped N D st1 = Some D1" "stays N D D1 (definitions st) (definitions st1) s s' (exec M comps st) (exec M comps st1)"
    using "11.IH"[OF d(1,4) "11.prems"(3,4) _ "11.prems"(6)] "11.prems"(5) d(3) by auto
  have "D1 = D" using branch_scoped[OF d(3,4)] .
  then show ?case using h d(2) by (simp add: exec_forms)
qed simp_all

end

end
