(* ===== verification/Ssa_Const_Programs.thy ===== *)
theory Ssa_Const_Programs
  imports Ssa_Const_Correct
begin

text \<open>Constant propagation on functions and programs, and its repetition.\<close>

section \<open>Functions\<close>

text \<open>
  Functions in single-assignment form: every name is defined once, in every branch.
\<close>

definition scp_form :: "(symbol \<Rightarrow> bool) \<Rightarrow> leo_function \<Rightarrow> bool" where
  "scp_form N f \<longleftrightarrow>
     \<not> N ''self'' \<and> list_all N (input_names f) \<and> scp_scoped N (input_names f) (S_Block (fn_block f)) \<noteq> None \<and>
     distinct (definitions (S_Block (fn_block f)))"

context folding_machine
begin

lemma scp_body_keeps:
  assumes b: "scp_body env (Block ss nid) s = Inr (b', s')" and N: "list_all N D" "\<not> N ''self''"
    and sc: "scp_scoped_list N D ss \<noteq> None" "distinct (definitions_list ss)"
  shows "\<exists>ss'. b' = Block ss' nid \<and> scp_scoped_list N D ss' \<noteq> None \<and> distinct (definitions_list ss') \<and>
    (\<forall>\<rho> w. exec_list M comps ss \<rho> w \<noteq> Halted \<longrightarrow> exec_list M comps ss' \<rho> w = exec_list M comps ss \<rho> w)"
proof -
  let ?s = "s\<lparr>scp_constants := Map.empty, scp_composites := Map.empty\<rparr>"
  from b obtain ss' s1 where d: "scp_seq (map (scp_statement env) ss) ?s = Inr (ss', s1)" "b' = Block ss' nid"
    by (auto simp: scp_body_def clear_maps_def scp_bind_Inr)
  obtain D' where D': "scp_scoped_list N D ss = Some D'" using sc(1) by auto
  have "tracked N D ?s" "unmapped (definitions_list ss) ?s" using sc(2) by (simp_all add: tracked_def unmapped_def)
  from scp_keeps(2)[OF N(2) d(1) D' _ this] N(1) have k: "scp_scoped_list N D ss' = Some D'"
    "stays N D D' (definitions_list ss) (definitions_list ss') ?s s1 (exec_list M comps ss) (exec_list M comps ss')"
    by (auto simp: list_all_iff)
  have "knows D ?s \<rho>" for \<rho> by (simp add: knows_def)
  then have "exec_list M comps ss' \<rho> w = exec_list M comps ss \<rho> w" if "exec_list M comps ss \<rho> w \<noteq> Halted" for \<rho> w
    using k(2) that unfolding stays_def refines_def by blast
  then show ?thesis using k d(2) by (auto simp: stays_def)
qed

lemma scp_function_keeps:
  assumes f: "scp_function env f s = Inr (f', s')" and form: "scp_form N f"
  shows "scp_form N f' \<and> (\<forall>args \<rho> w r. run_function M comps f args \<rho> w = Some r \<longrightarrow> run_function M comps f' args \<rho> w = Some r)"
proof -
  obtain ss nid where b: "fn_block f = Block ss nid" by (cases "fn_block f")
  from f b obtain b' where b': "scp_body env (Block ss nid) s = Inr (b', s')" "f' = f\<lparr>fn_block := b'\<rparr>"
    by (auto simp: scp_function_def scp_bind_Inr)
  have p: "list_all N (input_names f)" "\<not> N ''self''" "scp_scoped_list N (input_names f) ss \<noteq> None" "distinct (definitions_list ss)"
    using form b by (auto simp: scp_form_def split: if_splits)
  from scp_body_keeps[OF b'(1) p] obtain ss' where ss': "b' = Block ss' nid" "scp_scoped_list N (input_names f) ss' \<noteq> None"
    "distinct (definitions_list ss')" "\<And>\<rho> w. exec_list M comps ss \<rho> w \<noteq> Halted \<Longrightarrow> exec_list M comps ss' \<rho> w = exec_list M comps ss \<rho> w" by blast
  have "scp_form N f'" using p ss' b' by (simp add: scp_form_def input_names_def)
  moreover have "run_function M comps f' args \<rho> w = Some r" if "run_function M comps f args \<rho> w = Some r" for args \<rho> w r
  proof -
    let ?\<rho> = "bind_names (map in_identifier (fn_input f)) args \<rho>"
    have run: "length args = length (fn_input f)" "finish M (exec_list M comps ss ?\<rho> w) = Some r"
      using that b by (simp_all add: run_function_def split: if_splits)
    then have "exec_list M comps ss ?\<rho> w \<noteq> Halted" by auto
    then show ?thesis using ss'(4) run ss'(1) b' by (simp add: run_function_def)
  qed
  ultimately show ?thesis by blast
qed

end

section \<open>Programs\<close>

text \<open>Functions that are in the form stay in it, and their results are kept.\<close>

definition scp_result ::
  "('v, 'w) meaning \<Rightarrow> (symbol \<Rightarrow> location \<rightharpoonup> composite) \<Rightarrow> (symbol \<Rightarrow> bool) \<Rightarrow> symbol \<times> leo_function \<Rightarrow> symbol \<times> leo_function \<Rightarrow> bool" where
  "scp_result M comps N = (\<lambda>(p, f) (p', f'). p' = p \<and> (scp_form N f \<longrightarrow> scp_form N f' \<and>
     (\<forall>args \<rho> w r. run_function M (comps p) f args \<rho> w = Some r \<longrightarrow> run_function M (comps p) f' args \<rho> w = Some r)))"

lemma scp_result_refl: "list_all2 (scp_result M comps N) fs fs"
  by (rule list_all2_refl) (auto simp: scp_result_def)

lemma scp_result_trans:
  "list_all2 (scp_result M comps N) fs gs \<Longrightarrow> list_all2 (scp_result M comps N) gs hs \<Longrightarrow> list_all2 (scp_result M comps N) fs hs"
  by (rule list_all2_trans[where ?P1.0 = "scp_result M comps N" and ?P2.0 = "scp_result M comps N"]) (auto simp: scp_result_def)

definition folding_machines :: "('v, 'w) meaning \<Rightarrow> ('e const_value \<Rightarrow> 'v) \<Rightarrow> 'e scp_env \<Rightarrow> (symbol \<Rightarrow> location \<rightharpoonup> composite) \<Rightarrow> bool" where
  "folding_machines M den env comps \<longleftrightarrow> (\<forall>p. folding_machine M den env (comps p))"

lemma part_scp_function:
  assumes "folding_machines M den env comps" "scp_function env f s = Inr (f', s')"
  shows "scp_result M comps N (p, f) (p, f')"
  using assms folding_machine.scp_function_keeps[of M den env "comps p" f s f' s' N] by (auto simp: folding_machines_def scp_result_def)

lemma part_scp_map:
  assumes "\<And>a s b s'. m a s = Inr (b, s') \<Longrightarrow> list_all2 R (F a) (F b)" "scp_map m xs s = Inr (ys, s')"
  shows "list_all2 R (concat (map (F \<circ> snd) xs)) (concat (map (F \<circ> snd) ys))"
  using assms
proof (induction xs arbitrary: s ys)
  case (Cons x xs)
  obtain k a where x: "x = (k, a)" by (cases x)
  from Cons.prems(2) x obtain b s1 ys1 where b: "m a s = Inr (b, s1)" "scp_map m xs s1 = Inr (ys1, s')" "ys = (k, b) # ys1"
    by (auto simp: scp_bind_Inr)
  have hd: "list_all2 R (F a) (F b)" by (rule Cons.prems(1)[OF b(1)])
  have tl: "list_all2 R (concat (map (F \<circ> snd) xs)) (concat (map (F \<circ> snd) ys1))"
    by (rule Cons.IH[OF Cons.prems(1) b(2)])
  show ?case using list_all2_appendI[OF hd tl] x b(3) by (simp add: comp_def)
qed simp

lemma part_scp_functions:
  assumes "folding_machines M den env comps" "scp_map (scp_function env) fs s = Inr (fs', s')"
  shows "list_all2 (scp_result M comps N) (tagged p fs) (tagged p fs')"
  unfolding tagged_concat by (rule part_scp_map[OF _ assms(2)]) (use part_scp_function[OF assms(1)] in auto)

lemma part_scp_scope:
  assumes M: "folding_machines M den env comps" and sc: "scp_program_scope env scope s = Inr (scope', s')"
  shows "list_all2 (scp_result M comps N) (scope_functions scope) (scope_functions scope')"
proof -
  from sc obtain s0 fs s1 c where d: "scp_map (scp_function env) (sc_functions scope) s0 = Inr (fs, s1)"
    "(case sc_constructor scope of None \<Rightarrow> scp_return None | Some c \<Rightarrow> scp_bind (scp_body env c) (\<lambda>c'. scp_return (Some c'))) s1 = Inr (c, s')"
    "scope' = scope\<lparr>sc_functions := fs, sc_constructor := c\<rparr>" by (auto simp: scp_program_scope_def scp_bind_Inr)
  note fs = part_scp_functions[OF M d(1), of N "sc_program scope"]
  show ?thesis
  proof (cases "sc_constructor scope")
    case None
    then show ?thesis using fs d by (auto simp: scope_functions_def)
  next
    case (Some b)
    with d(2) obtain b' where b': "scp_body env b s1 = Inr (b', s')" "c = Some b'" by (auto simp: scp_bind_Inr)
    then have "scp_function env (constructor_function b) s1 = Inr (constructor_function b', s')"
      by (simp add: scp_function_def scp_bind_def scp_return_def constructor_function_def)
    from part_scp_function[OF M this, of N "sc_program scope"] fs Some b'(2) d(3) show ?thesis
      by (auto simp: scope_functions_def intro!: list_all2_appendI)
  qed
qed

lemma part_scp_module:
  assumes "folding_machines M den env comps" "scp_module env m s = Inr (m', s')"
  shows "list_all2 (scp_result M comps N) (module_functions m) (module_functions m')"
  using assms part_scp_functions[OF assms(1)] by (fastforce simp: scp_module_def scp_bind_Inr module_functions_def)

lemma part_scp_program:
  fixes p :: "'a leo_program" and st :: "'a stub" and sts :: "(symbol \<times> 'a stub) list"
  assumes M: "folding_machines M den env comps"
  shows "scp_program_unit env p s = Inr (p', s') \<Longrightarrow> list_all2 (scp_result M comps N) (program_functions p) (program_functions p')"
    and "scp_stub env st s = Inr (st', s') \<Longrightarrow> list_all2 (scp_result M comps N) (stub_functions st) (stub_functions st')"
    and "scp_stubs env sts s = Inr (sts', s') \<Longrightarrow> list_all2 (scp_result M comps N) (stubs_functions sts) (stubs_functions sts')"
proof (induction p and st and sts arbitrary: s p' s' and s st' s' and s sts' s' rule: program_functions_stub_functions_stubs_functions.induct)
  case (1 modules stubs scopes)
  from "1.prems" obtain stubs' s1 scopes' s2 modules' where d: "scp_stubs env stubs s = Inr (stubs', s1)"
    "scp_map (scp_program_scope env) scopes s1 = Inr (scopes', s2)" "scp_map (scp_module env) modules s2 = Inr (modules', s')"
    "p' = Leo_Program modules' stubs' scopes'" by (auto simp: scp_bind_Inr)
  note a = "1.IH"[OF d(1)]
  have b: "list_all2 (scp_result M comps N) (concat (map (scope_functions \<circ> snd) scopes)) (concat (map (scope_functions \<circ> snd) scopes'))"
    by (rule part_scp_map[OF _ d(2)]) (rule part_scp_scope[OF M])
  have c: "list_all2 (scp_result M comps N) (concat (map (module_functions \<circ> snd) modules)) (concat (map (module_functions \<circ> snd) modules'))"
    by (rule part_scp_map[OF _ d(3)]) (rule part_scp_module[OF M])
  show ?case using a b c d(4) by (auto intro!: list_all2_appendI)
next
  case (6 name st rest)
  from "6.prems" obtain st1 s1 rest1 where d: "scp_stub env st s = Inr (st1, s1)" "scp_stubs env rest s1 = Inr (rest1, s')" "sts' = (name, st1) # rest1"
    by (auto simp: scp_bind_Inr)
  show ?case using "6.IH"(1)[OF d(1)] "6.IH"(2)[OF d(2)] d(3) by (auto intro!: list_all2_appendI)
qed (auto simp: scp_bind_Inr scp_result_refl)

lemma scp_rounds_keeps:
  assumes M: "folding_machines M den env comps"
  shows "scp_rounds env n p types next = Inr (p', r) \<Longrightarrow> list_all2 (scp_result M comps N) (program_functions p) (program_functions p')"
proof (induction n arbitrary: p types "next")
  case (Suc n)
  let ?s = "\<lparr>scp_program = [], scp_constants = Map.empty, scp_composites = Map.empty, scp_changed = False,
         scp_types = types, scp_next = next, scp_errors = []\<rparr>"
  from Suc.prems obtain q s where q: "scp_program_unit env p ?s = Inr (q, s)" "scp_errors s = []" by (auto split: sum.splits if_splits)
  note k = part_scp_program(1)[OF M q(1), of N]
  show ?case
  proof (cases "scp_changed s")
    case True
    then have "scp_rounds env n q (scp_types s) (scp_next s) = Inr (p', r)" using Suc.prems q by simp
    from scp_result_trans[OF k Suc.IH[OF this]] show ?thesis .
  next
    case False
    then show ?thesis using Suc.prems q k by simp
  qed
qed simp

end
