(* ===== verification/Ssa_Const_Props.thy ===== *)
theory Ssa_Const_Props
  imports Ssa_Const_Programs
begin

text \<open>
  A machine that computes with constant evaluation obeys the laws of constant propagation, and the pass keeps what
  programs compute.
\<close>

section \<open>A machine of constants\<close>

text \<open>
  Values are constants, and the operations are those of constant evaluation.  What snarkVM computes on field and
  group elements is left out: there is one element of each.  Calls count in the world.
\<close>

definition one_svm :: "unit snarkvm" where
  "one_svm = \<lparr>
     field_add = \<lambda>_ _. (), field_sub = \<lambda>_ _. (), field_mul = \<lambda>_ _. (), field_neg = \<lambda>_. (), field_double = \<lambda>_. (),
     field_square = \<lambda>_. (), field_inverse = \<lambda>_. Some (), field_square_root = \<lambda>_. Inr (), field_pow = \<lambda>_ _. (), field_le = \<lambda>_ _. True,
     group_add = \<lambda>_ _. (), group_sub = \<lambda>_ _. (), group_neg = \<lambda>_. (), group_double = \<lambda>_. (), group_scale = \<lambda>_ _. (),
     to_x_coordinate = \<lambda>_. (), to_y_coordinate = \<lambda>_. (), scalar_add = \<lambda>_ _. (), scalar_scale = \<lambda>_ _. (), scalar_le = \<lambda>_ _. True\<rparr>"

definition one_codec :: "unit svm_codec" where
  "one_codec = \<lparr>
     parse_field = \<lambda>_. Inr (), parse_group = \<lambda>_. Inr (), parse_scalar = \<lambda>_. Inr (), parse_address = \<lambda>_. Inr (),
     parse_program_address = \<lambda>_. Inr (), parse_signature = \<lambda>_. Inr (), parse_identifier_literal = \<lambda>_. Inr (),
     show_field = \<lambda>_. ''0field'', show_group = \<lambda>_. ''0group'', show_scalar = \<lambda>_. ''0scalar'', show_address = \<lambda>_. ''aleo1'',
     show_signature = \<lambda>_. ''sign1'', show_identifier_literal = \<lambda>_. ''i'',
     identifier_ok = \<lambda>s. s \<noteq> [], parse_svm_value = \<lambda>s. None, svm_eq = (=), literal_cast = \<lambda>l t. None, literal_cast_lossy = \<lambda>l t. None\<rparr>"

definition const_env :: "unit scp_env" where
  "const_env = \<lparr>scp_svm = one_svm, scp_codec = one_codec, scp_structs = \<lambda>_ _. [], scp_storage = \<lambda>_. False\<rparr>"

definition const_literal :: "literal_variant \<Rightarrow> unit const_value" where
  "const_literal z =
     (case literal_to_value one_codec \<lparr>lit_variant = z, lit_id = 0\<rparr> None of Inr c \<Rightarrow> c | Inl _ \<Rightarrow> value_of_contents V_Unit)"

definition ok_value :: "unit const_value const_result \<Rightarrow> nat \<Rightarrow> (unit const_value \<times> nat) option" where
  "ok_value r w = (case r of Inr c \<Rightarrow> Some (c, w) | Inl _ \<Rightarrow> None)"

definition struct_value :: "symbol list \<Rightarrow> unit const_value list \<Rightarrow> unit const_value option" where
  "struct_value names us =
     Option.bind (collect_opt (map try_plaintext us)) (\<lambda>ps.
     if us = map value_of_plaintext ps then Some (value_of_plaintext (P_Struct (zip names ps))) else None)"

definition struct_member :: "symbol \<Rightarrow> unit const_value \<Rightarrow> unit const_value option" where
  "struct_member m v = (case try_plaintext v of Some (P_Struct fs) \<Rightarrow> map_option value_of_plaintext (map_of fs m) | _ \<Rightarrow> None)"

definition literal_index :: "expression \<Rightarrow> int option" where
  "literal_index e = (case e of E_Literal l \<Rightarrow> value_as_u32 (const_literal (lit_variant l)) | _ \<Rightarrow> None)"

definition some_value :: "unit const_value option const_result \<Rightarrow> nat \<Rightarrow> (unit const_value \<times> nat) option" where
  "some_value r w = (case r of Inr (Some c) \<Rightarrow> Some (c, w) | _ \<Rightarrow> None)"

primrec const_op ::
  "(location \<rightharpoonup> composite) \<Rightarrow> op_head \<Rightarrow> unit const_value list \<Rightarrow> nat \<Rightarrow> (unit const_value \<times> nat) option" where
  "const_op comps (H_Binary op) vs w =
     (if length vs = 2 \<and> list_all const_ok vs then ok_value (evaluate_binary one_svm one_codec op (vs ! 0) (vs ! 1) None) w else None)"
| "const_op comps (H_Unary op) vs w =
     (if length vs = 1 \<and> list_all const_ok vs then ok_value (evaluate_unary one_svm one_codec op (hd vs) None) w else None)"
| "const_op comps H_Array vs w = (if list_all const_ok vs then ok_value (make_array vs) w else None)"
| "const_op comps H_Tuple vs w = (if list_all const_ok vs then Some (make_tuple vs, w) else None)"
| "const_op comps (H_ArrayAccess e) vs w =
     (if length vs = 1 then Option.bind (literal_index e) (\<lambda>j. some_value (array_index (hd vs) (nat j)) w) else None)"
| "const_op comps (H_TupleAccess i) vs w = (if length vs = 1 then some_value (tuple_index (hd vs) i) w else None)"
| "const_op comps (H_Composite path _) us w =
     map_option (\<lambda>v. (v, w)) (Option.bind (Option.bind (try_global_location path) comps) (\<lambda>c. struct_value (member_names c) us))"
| "const_op comps (H_Call _ _) vs w = (if vs = [] then None else Some (hd vs, Suc w))"
| "const_op comps (H_Intrinsic _ _ _ _) vs w = None"
| "const_op comps (H_DynCall _ _ _) vs w = None"
| "const_op comps (H_DynRead _ _ _) vs w = None"
| "const_op comps (H_DynOp _ _ _ _) vs w = None"
| "const_op comps (H_Cast _) vs w = None"
| "const_op comps (H_Repeat _) vs w = None"

definition const_machine :: "(location \<rightharpoonup> composite) \<Rightarrow> (unit const_value, nat) meaning" where
  "const_machine comps = \<lparr>
     m_literal = const_literal, m_unit = value_of_contents V_Unit, m_global = \<lambda>_. value_of_contents V_Unit,
     m_self = \<lambda>_ _. value_of_contents V_Unit, m_member = struct_member, m_op = const_op comps,
     m_truth = \<lambda>v. if v = value_of_literal (L_Boolean True) then Some True
       else if v = value_of_literal (L_Boolean False) then Some False else None,
     m_equal = (=), m_untuple = \<lambda>v. (case contents v of V_Tuple vs \<Rightarrow> Some vs | _ \<Rightarrow> None), m_set = \<lambda>_ _ _. None\<rparr>"

section \<open>Its laws\<close>

lemma evaluate_binary_type: "const_ok a \<Longrightarrow> const_ok b \<Longrightarrow> evaluate_binary svm codec op a b ty = evaluate_binary svm codec op a b None"
  by (simp add: evaluate_binary_def evaluate_binary_inner_def resolve_binary_const)

lemma evaluate_unary_type: "const_ok a \<Longrightarrow> evaluate_unary svm codec op a ty = evaluate_unary svm codec op a None"
  by (simp add: evaluate_unary_def evaluate_unary_inner_def resolve_unsuffixed_unary_op_operand_def)

lemma literal_value_type:
  "good_literal (lit_variant l) \<Longrightarrow> literal_to_value codec l ty = literal_to_value codec \<lparr>lit_variant = lit_variant l, lit_id = i\<rparr> None"
  by (cases "lit_variant l") (simp_all add: literal_to_value_def)

lemma const_literal_value: "good_literal (lit_variant l) \<Longrightarrow> literal_to_value one_codec l ty = Inr c \<Longrightarrow> const_literal (lit_variant l) = c"
  using literal_value_type[of l one_codec ty 0] by (simp add: const_literal_def)

text \<open>A text has the same value in every integer type that holds it.\<close>

lemma parse_digits_same:
  "parse_digits ty pos radix acc cs = Inr n \<Longrightarrow> parse_digits ty' pos radix acc cs = Inr n' \<Longrightarrow> n' = n"
  by (induction ty pos radix acc cs rule: parse_digits.induct) (auto simp: Let_def split: option.splits if_splits)

lemma from_str_radix_same:
  assumes "from_str_radix ty s radix = Inr n" "from_str_radix ty' s radix = Inr n'" shows "n' = n"
proof (cases s)
  case (Cons c cs)
  have minus: "parse_digits t True radix 0 (CHR ''-'' # cs) \<noteq> Inr k" for t k by (simp add: to_digit_def digit_value_def)
  show ?thesis
  proof (cases "c = CHR ''-''")
    case True
    then show ?thesis using assms Cons minus parse_digits_same[of ty False radix 0 cs n ty' n']
      by (simp add: from_str_radix_def del: parse_digits.simps split: if_splits)
  next
    case False
    then show ?thesis using assms Cons parse_digits_same[of ty True radix 0 _ n ty' n']
      by (simp add: from_str_radix_def del: parse_digits.simps split: if_splits)
  qed
qed (use assms in \<open>simp add: from_str_radix_def\<close>)

lemma from_str_by_radix_same:
  assumes "from_str_by_radix ty s = Inr n" "from_str_by_radix ty' s = Inr n'" shows "n' = n"
  using assms unfolding from_str_by_radix_def
  by (cases "strip_prefix ''0x'' s"; cases "strip_prefix ''0o'' s"; cases "strip_prefix ''0b'' s"; cases "strip_prefix ''-0x'' s";
      cases "strip_prefix ''-0o'' s"; cases "strip_prefix ''-0b'' s"; simp only: option.case) (rule from_str_radix_same; assumption)+

text \<open>The values of literals that are neutral or absorbing.\<close>

fun zero_value :: "unit svm_literal \<Rightarrow> bool" where
  "zero_value (L_Int _ x) \<longleftrightarrow> x = 0"
| "zero_value (L_Boolean b) \<longleftrightarrow> \<not> b"
| "zero_value (L_Field _) \<longleftrightarrow> True"
| "zero_value (L_Group _) \<longleftrightarrow> True"
| "zero_value _ \<longleftrightarrow> False"

fun one_value :: "unit svm_literal \<Rightarrow> bool" where
  "one_value (L_Int _ x) \<longleftrightarrow> x = 1"
| "one_value (L_Boolean b) \<longleftrightarrow> b"
| "one_value (L_Field _) \<longleftrightarrow> True"
| "one_value _ \<longleftrightarrow> False"

lemma const_literal_simps:
  "const_literal (Lit_Boolean b) = value_of_literal (L_Boolean b)"
  "const_literal (Lit_Field s) = value_of_literal (L_Field ())"
  "const_literal (Lit_Group s) = value_of_literal (L_Group ())"
  "const_literal (Lit_Scalar s) = value_of_literal (L_Scalar ())"
  "const_literal (Lit_Unsuffixed s) = Value None (V_Unsuffixed s)"
  by (simp_all add: const_literal_def literal_to_value_def one_codec_def parse_tc_def resolve_if_unsuffixed_def)

lemma const_literal_int:
  assumes "const_ok (const_literal (Lit_Integer ty s))" "parse_literal_value s = Some n"
  shows "const_literal (Lit_Integer ty s) = value_of_literal (L_Int ty n)"
proof (cases "from_str_by_radix ty (remove_underscores s)")
  case (Inl e)
  then show ?thesis using assms(1) by (simp add: const_literal_def literal_to_value_def expect_int_def value_of_contents_def)
next
  case (Inr m)
  then have "m = n" using assms(2) from_str_by_radix_same
    by (auto simp: parse_literal_value_def res_ok_def split: sum.splits)
  then show ?thesis using Inr by (simp add: const_literal_def literal_to_value_def expect_int_def)
qed

lemma zero_literal_value:
  "is_zero_literal z \<Longrightarrow> const_ok (const_literal z) \<Longrightarrow> \<exists>k. const_literal z = value_of_literal k \<and> plain_literal k \<and> zero_value k"
proof (cases z)
  case (Lit_Integer ty s)
  assume "is_zero_literal z" "const_ok (const_literal z)"
  with Lit_Integer have c: "const_literal z = value_of_literal (L_Int ty 0)" using const_literal_int by simp
  then have "plain_literal (L_Int ty 0 :: unit svm_literal)" using \<open>const_ok (const_literal z)\<close> by (simp del: plain_literal.simps)
  with c show ?thesis by (metis zero_value.simps(1))
qed (auto simp: const_literal_simps)

lemma one_literal_value:
  "is_one_literal z \<Longrightarrow> const_ok (const_literal z) \<Longrightarrow> \<exists>k. const_literal z = value_of_literal k \<and> plain_literal k \<and> one_value k"
proof (cases z)
  case (Lit_Integer ty s)
  assume "is_one_literal z" "const_ok (const_literal z)"
  with Lit_Integer have c: "const_literal z = value_of_literal (L_Int ty 1)" using const_literal_int by simp
  then have "plain_literal (L_Int ty 1 :: unit svm_literal)" using \<open>const_ok (const_literal z)\<close> by (simp del: plain_literal.simps)
  with c show ?thesis by (metis one_value.simps(1))
qed (auto simp: const_literal_simps)

definition neutral_value :: "binary_operation \<Rightarrow> unit svm_literal \<Rightarrow> bool" where
  "neutral_value op k \<longleftrightarrow>
     op \<in> {Add, AddWrapped, Sub, SubWrapped, BitwiseOr, Xor} \<and> zero_value k \<or>
     op \<in> {Mul, MulWrapped, Div, DivWrapped} \<and> one_value k \<or> op \<in> {And, BitwiseAnd} \<and> k = L_Boolean True \<or> op = Or \<and> k = L_Boolean False"

definition absorbing_value :: "binary_operation \<Rightarrow> unit svm_literal \<Rightarrow> bool" where
  "absorbing_value op k \<longleftrightarrow>
     op \<in> {Mul, MulWrapped, BitwiseAnd} \<and> zero_value k \<or> op = And \<and> k = L_Boolean False \<or> op \<in> {Or, BitwiseOr} \<and> k = L_Boolean True"

lemma neutral_literal_value:
  assumes "right_neutral op z \<or> left_neutral op z" "const_ok (const_literal z)"
  shows "\<exists>k. const_literal z = value_of_literal k \<and> plain_literal k \<and> neutral_value op k"
proof -
  from assms(1) consider "op \<in> {Add, AddWrapped, Sub, SubWrapped, BitwiseOr, Xor}" "is_zero_literal z"
    | "op \<in> {Mul, MulWrapped, Div, DivWrapped}" "is_one_literal z"
    | "op \<in> {And, BitwiseAnd}" "z = Lit_Boolean True" | "op = Or" "z = Lit_Boolean False"
    unfolding right_neutral_def left_neutral_def by blast
  then show ?thesis
  proof cases
    case 1 then show ?thesis using zero_literal_value[OF _ assms(2)] unfolding neutral_value_def by blast
  next
    case 2 then show ?thesis using one_literal_value[OF _ assms(2)] unfolding neutral_value_def by blast
  qed (auto simp: neutral_value_def const_literal_simps)
qed

lemma absorbing_literal_value:
  assumes "absorbing op z" "const_ok (const_literal z)"
  shows "\<exists>k. const_literal z = value_of_literal k \<and> plain_literal k \<and> absorbing_value op k"
  using assms zero_literal_value[OF _ assms(2)]
  by (auto simp: absorbing_def absorbing_value_def const_literal_simps)

lemma trunc_div_one [simp]: "trunc_div x 1 = x"
  by (simp add: trunc_div_def sgn_mult_abs)

lemmas eval_arith = eval_defs eval_shapes checked_defs wrapping_defs checked_in_def bind_res_def map_res_def ok_or_def one_svm_def

lemma neutral_right: "neutral_value op k \<Longrightarrow> plain_literal l \<Longrightarrow> eval_binary one_svm op l k = Inr r \<Longrightarrow> r = l"
  by (cases op; simp add: neutral_value_def; cases k; simp; cases l) (auto simp: eval_arith split: if_splits)

lemma neutral_left:
  "neutral_value op k \<Longrightarrow> op \<notin> {Sub, SubWrapped, Div, DivWrapped} \<Longrightarrow> plain_literal l \<Longrightarrow> eval_binary one_svm op k l = Inr r \<Longrightarrow> r = l"
  by (cases op; simp add: neutral_value_def; cases k; simp; cases l) (auto simp: eval_arith split: if_splits)

lemma absorbing_both:
  "absorbing_value op k \<Longrightarrow> plain_literal l \<Longrightarrow> plain_literal k \<Longrightarrow> eval_binary one_svm op l k = Inr r \<Longrightarrow> r = k"
  "absorbing_value op k \<Longrightarrow> plain_literal l \<Longrightarrow> plain_literal k \<Longrightarrow> eval_binary one_svm op k l = Inr r \<Longrightarrow> r = k"
  by (cases op; simp add: absorbing_value_def; cases k; simp; cases l; auto simp: eval_arith split: if_splits)+

lemma const_op_binary:
  assumes "const_op comps (H_Binary op) [a, b] w = Some (r, w')" "op \<noteq> Eq" "op \<noteq> Neq"
  obtains l k z where "a = value_of_literal l" "b = value_of_literal k" "r = value_of_literal z" "plain_literal l" "plain_literal k"
    "eval_binary one_svm op l k = Inr z"
proof -
  from assms(1) have ok: "const_ok a" "const_ok b" and "evaluate_binary one_svm one_codec op a b None = Inr r"
    by (auto simp: ok_value_def split: if_splits sum.splits)
  then have "evaluate_binary_inner one_svm one_codec op a b None = Inr r"
    by (auto simp: evaluate_binary_def map_reason_def split: sum.splits const_error.splits)
  then show ?thesis using assms(2,3) ok that
    by (auto simp: evaluate_binary_inner_def resolve_binary_const map_res_eq_Inr split: option.splits dest!: try_literal_const)
qed

lemma const_op_unary:
  assumes "const_op comps (H_Unary op) [a] w = Some (r, w')"
  obtains l z where "a = value_of_literal l" "r = value_of_literal z" "plain_literal l" "eval_unary one_svm op l = Inr z"
proof -
  from assms(1) have ok: "const_ok a" and "evaluate_unary one_svm one_codec op a None = Inr r"
    by (auto simp: ok_value_def split: if_splits sum.splits)
  then have "evaluate_unary_inner one_svm one_codec op a None = Inr r"
    by (auto simp: evaluate_unary_def map_reason_def split: sum.splits const_error.splits)
  then obtain l where l: "try_literal a = Some l" "map_res value_of_literal (eval_unary one_svm op l) = Inr r"
    using ok by (auto simp: evaluate_unary_inner_def resolve_unsuffixed_unary_op_operand_def bind_res_eq_Inr simp del: eval_unary.simps
        split: option.splits if_splits)
  then show ?thesis using try_literal_const[OF ok l(1)] that by (auto simp: map_res_eq_Inr simp del: eval_unary.simps)
qed

lemma const_op_ok: "const_op comps (H_Binary op) [a, b] w = Some (r, w') \<Longrightarrow> const_ok a \<and> const_ok b"
  by (auto split: if_splits)

lemma value_of_literal_eq [simp]: "value_of_literal l = value_of_literal k \<longleftrightarrow> l = k"
  by (simp add: value_of_literal_def value_of_plaintext_def value_of_contents_def)

lemma const_op_neutral:
  "right_neutral op z \<Longrightarrow> const_op comps (H_Binary op) [v, const_literal z] w = Some (r, w') \<Longrightarrow> r = v"
  "left_neutral op z \<Longrightarrow> const_op comps (H_Binary op) [const_literal z, v] w = Some (r, w') \<Longrightarrow> r = v"
proof -
  assume n: "right_neutral op z" and r: "const_op comps (H_Binary op) [v, const_literal z] w = Some (r, w')"
  obtain k where k: "const_literal z = value_of_literal k" "neutral_value op k"
    using neutral_literal_value[of op z] n const_op_ok[OF r] by blast
  have "op \<noteq> Eq" "op \<noteq> Neq" using n by (auto simp: right_neutral_def)
  from const_op_binary[OF r this] k show "r = v" using neutral_right by (metis value_of_literal_eq)
next
  assume n: "left_neutral op z" and r: "const_op comps (H_Binary op) [const_literal z, v] w = Some (r, w')"
  obtain k where k: "const_literal z = value_of_literal k" "neutral_value op k"
    using neutral_literal_value[of op z] n const_op_ok[OF r] by blast
  have op: "op \<noteq> Eq" "op \<noteq> Neq" "op \<notin> {Sub, SubWrapped, Div, DivWrapped}" using n by (auto simp: left_neutral_def)
  from const_op_binary[OF r op(1,2)] k show "r = v" using neutral_left[OF _ op(3)] by (metis value_of_literal_eq)
qed

lemma const_op_absorbing:
  "absorbing op z \<Longrightarrow> const_op comps (H_Binary op) [v, const_literal z] w = Some (r, w') \<Longrightarrow> r = const_literal z"
  "absorbing op z \<Longrightarrow> const_op comps (H_Binary op) [const_literal z, v] w = Some (r, w') \<Longrightarrow> r = const_literal z"
proof -
  assume n: "absorbing op z"
  then have op: "op \<noteq> Eq" "op \<noteq> Neq" by (auto simp: absorbing_def)
  assume r: "const_op comps (H_Binary op) [v, const_literal z] w = Some (r, w')"
  obtain k where k: "const_literal z = value_of_literal k" "absorbing_value op k"
    using absorbing_literal_value[of op z] n const_op_ok[OF r] by blast
  from const_op_binary[OF r op] k show "r = const_literal z" using absorbing_both(1) by (metis value_of_literal_eq)
next
  assume n: "absorbing op z"
  then have op: "op \<noteq> Eq" "op \<noteq> Neq" by (auto simp: absorbing_def)
  assume r: "const_op comps (H_Binary op) [const_literal z, v] w = Some (r, w')"
  obtain k where k: "const_literal z = value_of_literal k" "absorbing_value op k"
    using absorbing_literal_value[of op z] n const_op_ok[OF r] by blast
  from const_op_binary[OF r op] k show "r = const_literal z" using absorbing_both(2) by (metis value_of_literal_eq)
qed

lemma value_eq_same:
  "x = y \<Longrightarrow> value_eq one_codec x y = Inr b \<Longrightarrow> b"
  "xs = ys \<Longrightarrow> values_eq one_codec xs ys = Inr b \<Longrightarrow> b"
proof (induction one_codec x y and one_codec xs ys arbitrary: b and b rule: value_eq_values_eq.induct)
  case (1 i c j d)
  have eq: "svm_eq one_codec = (=)" by (simp add: one_codec_def)
  have d: "d = c" "j = i" using "1.prems"(1) by auto
  show ?case
  proof (cases c)
    case (V_Tuple vs)
    then have "values_eq one_codec vs vs = Inr b" using "1.prems"(2) d by simp
    then show ?thesis using "1.hyps"[of c c vs vs b] d V_Tuple by simp
  qed (use "1.prems"(2) d in \<open>auto simp: eq\<close>)
next
  case (4 x xs y ys)
  then show ?case by (auto simp: bind_res_eq_Inr split: if_splits)
qed auto

lemma const_op_same:
  "const_op comps (H_Binary Eq) [v, v] w = Some (r, w') \<Longrightarrow> r = const_literal (Lit_Boolean True)"
  "const_op comps (H_Binary Neq) [v, v] w = Some (r, w') \<Longrightarrow> r = const_literal (Lit_Boolean False)"
  using value_eq_same(1)[OF refl, of v]
  by (auto simp: ok_value_def evaluate_binary_def map_reason_def evaluate_binary_inner_def resolve_binary_const map_res_eq_Inr const_literal_simps
      split: if_splits sum.splits const_error.splits) 

lemma bit_not_twice: "in_range ty a \<Longrightarrow> bit_not ty (bit_not ty a) = a"
proof -
  assume a: "in_range ty a"
  have e: "- 1 - wrap_int ty (- a - 1) = - wrap_int ty (- a - 1) - 1" "- 1 - (- a - 1) = a" by simp_all
  have "(- 1 - wrap_int ty (- a - 1)) mod 2 ^ bits ty = (- 1 - (- a - 1)) mod 2 ^ bits ty"
    using wrap_cong_mod[of ty "- a - 1"] by (metis mod_diff_right_eq)
  then have "a mod 2 ^ bits ty = (- wrap_int ty (- a - 1) - 1) mod 2 ^ bits ty" unfolding e by (rule sym)
  from wrap_unique[OF a this] show ?thesis unfolding bit_not_def .
qed

lemma eval_unary_twice:
  "uop \<in> {Not, Negate} \<Longrightarrow> plain_literal l \<Longrightarrow> eval_unary one_svm uop l = Inr k \<Longrightarrow> eval_unary one_svm uop k = Inr z \<Longrightarrow> z = l"
  by (cases l) (auto simp: map_res_def ok_or_def checked_neg_def checked_in_def bit_not_twice split: if_splits)

lemma struct_value_member:
  assumes "struct_value names us = Some v" "length us = length names"
  shows "struct_member m v = map_of (zip names us) m"
proof -
  from assms(1) obtain ps where ps: "us = map value_of_plaintext ps" "v = value_of_plaintext (P_Struct (zip names ps))"
    by (auto simp: struct_value_def bind_Some split: if_splits)
  have "try_plaintext v = Some (P_Struct (zip names ps))" using ps(2) by (simp add: try_plaintext_def value_of_plaintext_def value_of_contents_def)
  then show ?thesis using ps(1) by (simp add: struct_member_def zip_map2 map_of_map)
qed

lemma literal_printed_const:
  assumes "plain_literal k" "literal_to_expression one_codec k i n = Inr (Some (E_Literal l, n'))"
  shows "const_literal (lit_variant l) = value_of_literal k"
proof (cases k)
  case (L_Int ty x)
  then have "lit_variant l = Lit_Integer ty (show_int x)" using assms(2) by (auto simp: literal_expr_def)
  then show ?thesis using assms(1) L_Int by (simp add: const_literal_def literal_to_value_def expect_int_def from_str_by_radix_show_int)
qed (use assms in \<open>auto simp: literal_expr_def map_res_eq_Inr const_literal_simps const_literal_def literal_to_value_def one_codec_def parse_tc_def\<close>)

lemma some_value_Some: "some_value r w = Some (c, w') \<longleftrightarrow> r = Inr (Some c) \<and> w' = w"
  by (auto simp: some_value_def split: sum.splits option.splits)

lemma quiet_const: "quiet (const_machine comps)"
  unfolding quiet_def
proof (intro allI impI)
  fix h vs w v w' assume "quiet_head h" "m_op (const_machine comps) h vs w = Some (v, w')"
  then show "w' = w"
    by (cases h) (auto simp: const_machine_def ok_value_def some_value_Some bind_Some split: if_splits sum.splits)
qed

lemma const_op_folds:
  "const_ok a \<Longrightarrow> const_ok b \<Longrightarrow> evaluate_binary one_svm one_codec op a b ty = Inr c \<Longrightarrow> const_op comps (H_Binary op) [a, b] w = Some (c, w)"
  "const_ok a \<Longrightarrow> evaluate_unary one_svm one_codec uop a ty = Inr c \<Longrightarrow> const_op comps (H_Unary uop) [a] w = Some (c, w)"
  "list_all const_ok vs \<Longrightarrow> make_array vs = Inr c \<Longrightarrow> const_op comps H_Array vs w = Some (c, w)"
  "good_literal (lit_variant l) \<Longrightarrow> literal_to_value one_codec l ty = Inr idx \<Longrightarrow> value_as_u32 idx = Some j \<Longrightarrow>
     array_index a (nat j) = Inr (Some c) \<Longrightarrow> const_op comps (H_ArrayAccess (E_Literal l)) [a] w = Some (c, w)"
  using evaluate_binary_type[of a b one_svm one_codec op ty] evaluate_unary_type[of a one_svm one_codec uop ty] const_literal_value[of l ty idx]
  by (simp_all add: ok_value_def literal_index_def some_value_def)

lemma const_op_twice:
  assumes "uop \<in> {Not, Negate}" "const_op comps (H_Unary uop) [v] w = Some (u, w1)" "const_op comps (H_Unary uop) [u] w1 = Some (r, w2)"
  shows "r = v"
  using const_op_unary[OF assms(2)] const_op_unary[OF assms(3)] eval_unary_twice[OF assms(1)] by (metis value_of_literal_eq)

lemma const_op_member:
  assumes "Option.bind (try_global_location path) comps = Some c" "length us = length (member_names c)"
    "const_op comps (H_Composite path cargs) us w = Some (r, w')"
  shows "struct_member m r = map_of (zip (member_names c) us) m"
  using assms struct_value_member[of "member_names c" us r m] by auto

lemma const_machine_fields:
  "m_literal (const_machine comps) = const_literal" "m_op (const_machine comps) = const_op comps" "m_member (const_machine comps) = struct_member"
  "m_truth (const_machine comps) v = Some b \<longleftrightarrow> v = value_of_literal (L_Boolean b)"
  "m_untuple (const_machine comps) (make_tuple vs) = Some vs"
  "scp_svm const_env = one_svm" "scp_codec const_env = one_codec"
  by (auto simp: const_machine_def const_env_def make_tuple_def value_of_contents_def split: if_splits)

interpretation cm: folding_machine "const_machine comps" id const_env comps
  supply const_op.simps [simp del]
proof (unfold_locales, unfold const_machine_fields id_apply list.map_id)
  show "quiet (const_machine comps)" by (rule quiet_const)
qed (auto simp: const_literal_value literal_printed_const const_op.simps(4) intro: const_op_folds const_op_member
    dest: const_op_neutral const_op_absorbing const_op_same const_op_twice[OF insertI1] const_op_twice[OF insertI2[OF singletonI]])


section \<open>An example\<close>







section \<open>Properties\<close>



end
