(* ===== verification/Spec2Isabelle.thy ===== *)
theory Spec2Isabelle
  imports Di_Graph Const_Props Peephole_Props Symbol_Table_Props Ssa_Props Dead_Code_Props Common_Subexpr_Props Pass_Composition
    Ssa_Const_Props
begin

text \<open>
  A verification development for the Leo compiler (\<^verbatim>\<open>crates/\<close>), which translates Leo programs, a language for
  private applications, to Aleo instructions.

  \<^bold>\<open>The program.\<close>  A driver parses a program to a syntax tree and runs passes over it.  The first passes fill the
  symbol table and check names and types; constant propagation, loop unrolling and monomorphization evaluate what
  is constant; then lowering passes remove options, storage and tuples, static single assignment gives every
  variable one definition, flattening removes conditionals, constants are propagated, common subexpressions and dead code
  are eliminated,
  code generation writes instructions, and a peephole optimizer improves them.  The passes share the tree, the
  symbol table, the type table, the call graph and the counters for node ids and fresh names.  Control flow between
  the passes is a fixed sequence; what can go wrong is an error value, a panic or a loop that does not end.

  \<^bold>\<open>How the code is modelled.\<close>  Structs are records, enums are datatypes with the constructors of the source, a
  visitor is a family of functions over the syntax tree that pass its state explicitly.  An error is \<open>Inl\<close> of a sum,
  and so is a panic (\<^verbatim>\<open>unwrap\<close>, \<^verbatim>\<open>expect\<close>, \<^verbatim>\<open>panic!\<close>), with its message; a \<^verbatim>\<open>None\<close> is \<open>None\<close>.  Integers are \<open>int\<close> with
  the range of their type written out, and machine words where wrap-around matters.  \<^verbatim>\<open>IndexMap\<close> and \<^verbatim>\<open>IndexSet\<close> are
  association lists and lists in insertion order, a \<^verbatim>\<open>HashMap\<close> is a map.  Spans are dropped everywhere.  Code outside
  the repository is an argument: snarkVM's fields, groups, hashes and literals (the records \<open>snarkvm\<close> and
  \<open>svm_codec\<close> of \<open>Const_Value\<close>), the instructions it executes (\<open>vm\<close> of \<open>Aleo_Machine\<close>), and in \<open>Leo_Semantics\<close> the
  meaning \<open>M\<close> of operations, calls and intrinsics.

  \<^bold>\<open>The theories.\<close>
    \<^item> \<open>Leo_Prelude\<close>: results of fallible code, the insertion-ordered containers, and general lemmas.
    \<^item> \<open>Di_Graph\<close> (\<^verbatim>\<open>ast/src/common/graph\<close>): the graph of calls, structs and imports.  \<open>post_order_with_filter\<close> is shown
      to return a topological order exactly when there is no cycle, and otherwise a real cycle; the locale
      \<open>graph_store\<close> is the abstract type of graphs, which \<open>add_edge\<close>, \<open>remove_node\<close> and \<open>retain_nodes\<close> implement.
    \<^item> \<open>Rust_Int\<close>, \<open>Leo_Ast\<close>, \<open>Leo_Types\<close>, \<open>Leo_Intrinsics\<close> (\<^verbatim>\<open>ast/src\<close>): integer types and literals, the syntax tree,
      type equivalence and coercion, purity, and the tables of intrinsics.  Parsing inverts printing in every radix;
      equivalence of types is equality of canonical forms; coercion is characterised.
    \<^item> \<open>Const_Value\<close>, \<open>Const_Eval\<close>, \<open>Const_Props\<close> (\<^verbatim>\<open>ast/src/const_eval\<close>): constants, and every unary and binary operator on
      them.  Checked operators are exact or fail, wrapped ones are word arithmetic, shifts detect overflow,
      results stay in range, and operators that count as pure never fail.
    \<^item> \<open>Symbol_Table\<close>, \<open>Scope_Invariant\<close>, \<open>Scope_Contract\<close>, \<open>Symbol_Table_Props\<close> (\<^verbatim>\<open>passes/src/common/symbol_table\<close>): the global
      tables and the tree of local scopes, which the source shares through \<^verbatim>\<open>Rc<RefCell<..>>\<close> and the model keeps in a store
      indexed by node id.  Walks over the tree are partial functions; the invariant \<open>table_ok\<close> of reachable tables
      makes them end.
    \<^item> \<open>Scoped_Names\<close>: the locale \<open>nested_scopes\<close>, the contract of entering, binding in and leaving a scope.  Both the
      symbol table (\<open>Scope_Contract\<close>) and the rename tables (\<open>Rename_Table\<close>) are interpretations.
    \<^item> \<open>Rename_Table\<close>, \<open>Ssa_Forming\<close>, \<open>Ssa_Program\<close> (\<^verbatim>\<open>passes/src/static_single_assignment\<close>, \<^verbatim>\<open>common/rename_table\<close>,
      \<^verbatim>\<open>common/assigner\<close>): the whole pass, on expressions, statements, functions and programs.
    \<^item> \<open>Leo_Semantics\<close>: what a function body computes, given \<open>M\<close>: values of variables, a world that calls and
      intrinsics change, and halting.  It is the specification of the passes below, not a model of code.
    \<^item> \<open>Ssa_Steps\<close>, \<open>Ssa_Exprs\<close>, \<open>Ssa_Stmts\<close>, \<open>Ssa_Correct\<close>, \<open>Ssa_Form\<close>, \<open>Ssa_Props\<close>: static single assignment keeps every
      run of every well-scoped function, for every \<open>M\<close>; its result defines every variable once and is in normal form.
    \<^item> \<open>Common_Subexpr\<close>, \<open>Common_Subexpr_Exprs\<close>, \<open>Common_Subexpr_Props\<close> (\<^verbatim>\<open>passes/src/common_subexpression_elimination\<close>): the
      pass does not panic on code in single-assignment form and keeps every run, when the shared operations depend on
      their operands only (\<open>shares\<close>).
    \<^item> \<open>Dead_Code\<close>, \<open>Leo_Runs\<close>, \<open>Dead_Code_Props\<close> (\<^verbatim>\<open>passes/src/dead_code_elimination\<close>, \<^verbatim>\<open>passes/src/common/mod.rs\<close>): the pass does
      not panic on settled code and keeps every run in which the expressions it may discard do not halt, when the
      discardable operations have no effects (\<open>quiet\<close>); a second run changes nothing.
    \<^item> \<open>Ssa_Const_Prop\<close> (\<^verbatim>\<open>passes/src/ssa_const_propagation\<close>): constant propagation on code in single-assignment form, with the
      folding of operators, the algebraic simplifications, the forwarding of fields of composites, the choice of
      branches, and the repetition of the pass.  The locale \<open>folding_machine\<close> of \<open>Ssa_Const_Machine\<close> is the contract between the pass
      and the machine: the machine computes what constant evaluation computes and obeys the laws of the simplifications.
      \<open>Ssa_Const_Exprs\<close> shows in it that expressions keep their value, \<open>Ssa_Const_Stmts\<close> and \<open>Ssa_Const_Correct\<close> that statements keep
      what they do, \<open>Ssa_Const_Programs\<close> goes on to functions and programs, and \<open>Ssa_Const_Props\<close> interprets the locale on a
      machine that computes with the modelled evaluator.  The pass may remove a halt, so the theorem is about runs that return.
    \<^item> \<open>Pass_Composition\<close> and the end of this theory: common subexpression and dead code elimination compose.
    \<^item> \<open>Aleo_Code\<close>, \<open>Aleo_Machine\<close>, \<open>Peephole\<close>, \<open>Peephole_Correct\<close>, \<open>Peephole_Props\<close> (\<^verbatim>\<open>passes/src/code_generation/mod.rs\<close>,
      \<^verbatim>\<open>passes/src/peephole_optimization\<close>): generated code, its runs on a machine \<open>vm\<close>, and every rewriting of the
      optimizer.  The locale \<open>simulation\<close> says when deleting and replacing statements keeps runs; each
      sub-pass is an interpretation, and \<open>vm_laws\<close> are the laws of the machine that they need.

  \<^bold>\<open>Bounds.\<close>  Functions over trees are structural.  The depth-first search of the graph ends because the set of unseen
  nodes shrinks, and so does the collection of imports.  Walks over the parents of scopes are partial functions with
  result \<open>None\<close>; that they return on reachable tables is part of the theorems.  \<^verbatim>\<open>resolve_alias\<close> of the peephole
  optimizer follows aliases without a bound: its model has fuel, the number of statements, and the theorem on the
  whole pass says that it is enough on code in single-assignment form.  Constant propagation repeats at most 1024 times, as
  in the source, and then panics; its theorem is about programs for which it returns.

  \<^bold>\<open>Not modelled.\<close>  The lexer, the parser and the formatter work on the trees of the \<^verbatim>\<open>rowan\<close> crate; the language server,
  the command line, packages and the driver are input and output; diagnostics are texts.  Type checking, constant
  propagation before single assignment, loop unrolling, flattening, destructuring, inlining, monomorphization, option, storage and write
  lowering, static analysis and the visitors of code generation are passes over the same syntax tree and can be
  added on top of \<open>Leo_Semantics\<close>.  Constant propagation leaves out the types and constants of declarations.  Constant evaluation of intrinsics calls snarkVM's cryptography.
\<close>

section \<open>Passes in sequence\<close>

text \<open>
  Property C6.  The last two passes on the syntax tree compose: a function in single-assignment form goes through
  common subexpression elimination and then through dead code elimination without a panic, and the result
  computes, on every run of the function that does not halt, the same result with the same effects.
\<close>

theorem cse_then_dce_keeps_runs:
  assumes "shares M" "quiet M" "cse_form N f" "settled_function f" "\<forall>nid. types nid \<noteq> None"
  shows "\<exists>f1 s1 f2. cse_function index f \<lparr>cse_scopes = [], cse_types = types, cse_next = next\<rparr> = Inr (f1, s1) \<and>
    dce_function (expression_can_be_discarded (\<lambda>nid. the (cse_types s1 nid)) storage) f1 = Inr f2 \<and>
    (\<forall>args \<rho> w. run_function M comps f args \<rho> w \<noteq> None \<longrightarrow> run_function M comps f2 args \<rho> w = run_function M comps f args \<rho> w)"
proof -
  let ?s = "\<lparr>cse_scopes = [], cse_types = types, cse_next = next\<rparr>"
  have s: "typed ?s" "cse_scopes ?s = []" using assms(5) by (simp_all add: typed_def)
  from cse_function_runs[OF assms(1,3) s, of index "\<lambda>_. comps" "[]"] obtain f1 s1 where
    f1: "cse_function index f ?s = Inr (f1, s1)" "\<forall>args \<rho> w. run_function M comps f1 args \<rho> w = run_function M comps f args \<rho> w"
    by (auto simp: cse_result_def)
  obtain b where b: "cse_block index (fn_block f) ?s = Inr (b, s1)" "f1 = f\<lparr>fn_block := b\<rparr>"
    using f1(1) by (auto simp: cse_function_def cse_bind_Inr)
  have "settled_statement (S_Block (fn_block f))" using assms(4) by (cases "fn_block f") (simp add: settled_function_def)
  from settled_cse(1)[OF b(1) this] b(2) have set: "settled_function f1" by (cases b) (simp add: settled_function_def)
  let ?d = "expression_can_be_discarded (\<lambda>nid. the (cse_types s1 nid)) storage"
  obtain ss nid where "fn_block f1 = Block ss nid" by (cases "fn_block f1")
  from dce_function_parts[OF set this, of ?d] obtain f2 where f2: "dce_function ?d f1 = Inr f2" by metis
  from dce_function_runs[OF assms(2) set f2] f1 f2 show ?thesis by metis
qed

theorem cse_then_dce_keeps_runs_witness:
  "\<exists>f1 s1 f2. cse_function length shared_function \<lparr>cse_scopes = [], cse_types = (\<lambda>_. Some T_Field), cse_next = 25\<rparr> = Inr (f1, s1) \<and>
    dce_function (expression_can_be_discarded (\<lambda>nid. the (cse_types s1 nid)) (\<lambda>_. False)) f1 = Inr f2 \<and>
    run_function example_meaning (\<lambda>_. None) f2 [2, 3] (\<lambda>_. 0) () = Some (25, ())"
  using cse_then_dce_keeps_runs[OF shares_example quiet_example shared_function_form shared_settled, of "\<lambda>_. Some T_Field" length 25
      "\<lambda>_. False" "\<lambda>_. None"] shared_run[of "\<lambda>_. None"]
  by fastforce

end
